(* ===== verification/Prelude.thy ===== *)
theory Prelude
  imports Main "HOL-Library.Word" "HOL-Library.Signed_Division"
begin

text \<open>
  Shared vocabulary of the development: the machine types of the FAT add-on
  (\<^verbatim>\<open>src/src/add-ons/kernel/file_systems/fat\<close>), Haiku's status codes
  (\<^verbatim>\<open>src/headers/os/support/Errors.h\<close>), the little-endian accessors
  \<^verbatim>\<open>read16\<close> and \<^verbatim>\<open>read32\<close> of \<^verbatim>\<open>util.h\<close> with the byte-wise
  stores the code writes out by hand, and the generic lemmas on lists, numbers and
  words that the component theories share.

  Conventions. A \<^verbatim>\<open>uint8\<close> is a \<open>u8\<close> (an 8-bit word) and a cached sector is a list of
  them. A \<^verbatim>\<open>uint32\<close> is a \<open>nat\<close>; where the C arithmetic can leave the 32-bit range the
  wrap-around is written out with \<open>u32\<close>. An \<^verbatim>\<open>int32\<close> or \<^verbatim>\<open>status_t\<close> is an \<open>int\<close>; the
  negative ones are the status codes below. An \<^verbatim>\<open>ino_t\<close> is a 64-bit word, compared as
  signed where the C compares it.
\<close>

unbundle bit_operations_syntax

type_synonym u8 = "8 word"
type_synonym block = "u8 list"
type_synonym ino_t = "64 word"
type_synonym status_t = int

named_theorems errno_defs \<open>the values of Haiku's status codes\<close>
named_theorems frame_simps \<open>fields of the volume that an operation leaves alone\<close>

section \<open>Status codes\<close>

definition B_GENERAL_ERROR_BASE :: status_t where
  [errno_defs]: "B_GENERAL_ERROR_BASE = - (2 ^ 31)"

definition B_STORAGE_ERROR_BASE :: status_t where
  [errno_defs]: "B_STORAGE_ERROR_BASE = B_GENERAL_ERROR_BASE + 0x6000"

definition B_POSIX_ERROR_BASE :: status_t where
  [errno_defs]: "B_POSIX_ERROR_BASE = B_GENERAL_ERROR_BASE + 0x7000"

definition B_OK :: status_t where [errno_defs]: "B_OK = 0"
definition B_ERROR :: status_t where [errno_defs]: "B_ERROR = - 1"
definition ENOMEM :: status_t where [errno_defs]: "ENOMEM = B_GENERAL_ERROR_BASE + 0"
definition B_IO_ERROR :: status_t where [errno_defs]: "B_IO_ERROR = B_GENERAL_ERROR_BASE + 1"
definition B_BAD_VALUE :: status_t where [errno_defs]: "B_BAD_VALUE = B_GENERAL_ERROR_BASE + 5"
definition EPERM :: status_t where [errno_defs]: "EPERM = B_GENERAL_ERROR_BASE + 15"
definition EEXIST :: status_t where [errno_defs]: "EEXIST = B_STORAGE_ERROR_BASE + 2"
definition ENOENT :: status_t where [errno_defs]: "ENOENT = B_STORAGE_ERROR_BASE + 3"
definition ENAMETOOLONG :: status_t where [errno_defs]: "ENAMETOOLONG = B_STORAGE_ERROR_BASE + 4"
definition ENOTDIR :: status_t where [errno_defs]: "ENOTDIR = B_STORAGE_ERROR_BASE + 5"
definition ENOTEMPTY :: status_t where [errno_defs]: "ENOTEMPTY = B_STORAGE_ERROR_BASE + 6"
definition B_DEVICE_FULL :: status_t where [errno_defs]: "B_DEVICE_FULL = B_STORAGE_ERROR_BASE + 7"
definition EROFS :: status_t where [errno_defs]: "EROFS = B_STORAGE_ERROR_BASE + 8"
definition EISDIR :: status_t where [errno_defs]: "EISDIR = B_STORAGE_ERROR_BASE + 9"
definition B_PARTITION_TOO_SMALL :: status_t where
  [errno_defs]: "B_PARTITION_TOO_SMALL = B_STORAGE_ERROR_BASE + 15"
definition E2BIG :: status_t where [errno_defs]: "E2BIG = B_POSIX_ERROR_BASE + 1"
definition ENOSYS :: status_t where [errno_defs]: "ENOSYS = B_POSIX_ERROR_BASE + 9"
definition B_BUFFER_OVERFLOW :: status_t where
  [errno_defs]: "B_BUFFER_OVERFLOW = B_POSIX_ERROR_BASE + 41"

text \<open>Inside the kernel the POSIX names are the Be codes: \<^verbatim>\<open>EINVAL\<close> is \<^verbatim>\<open>B_BAD_VALUE\<close>,
  \<^verbatim>\<open>EIO\<close> is \<^verbatim>\<open>B_IO_ERROR\<close> and \<^verbatim>\<open>ENOSPC\<close> is \<^verbatim>\<open>B_DEVICE_FULL\<close>.\<close>

abbreviation EINVAL :: status_t where "EINVAL \<equiv> B_BAD_VALUE"
abbreviation EIO :: status_t where "EIO \<equiv> B_IO_ERROR"
abbreviation ENOSPC :: status_t where "ENOSPC \<equiv> B_DEVICE_FULL"

section \<open>Fixed-width integers\<close>

definition u32 :: "nat \<Rightarrow> nat" where
  "u32 n = n mod 2 ^ 32"

text \<open>An \<open>int32\<close> or a \<open>time_t\<close> stored into a \<open>uint32\<close>, and a \<open>uint32\<close> read as \<open>int32\<close>.\<close>

definition u32_of_int :: "int \<Rightarrow> nat" where
  "u32_of_int i = nat (i mod 2 ^ 32)"

definition s32 :: "int \<Rightarrow> int" where
  "s32 i = (i + 2 ^ 31) mod 2 ^ 32 - 2 ^ 31"

text \<open>The difference of two \<open>uint32\<close> values.\<close>

definition u32_minus :: "nat \<Rightarrow> nat \<Rightarrow> nat" where
  "u32_minus a b = u32_of_int (int a - int b)"

section \<open>Little-endian fields of a sector\<close>

definition read16 :: "block \<Rightarrow> nat \<Rightarrow> nat" where
  "read16 buffer off = unat (buffer ! off) + 256 * unat (buffer ! (off + 1))"

definition read32 :: "block \<Rightarrow> nat \<Rightarrow> nat" where
  "read32 buffer off = unat (buffer ! off) + 256 * unat (buffer ! (off + 1))
     + 65536 * unat (buffer ! (off + 2)) + 16777216 * unat (buffer ! (off + 3))"

text \<open>The stores \<^verbatim>\<open>b[o] = v & 0xff; b[o+1] = (v >> 8) & 0xff; ...\<close>.\<close>

definition write16 :: "block \<Rightarrow> nat \<Rightarrow> nat \<Rightarrow> block" where
  "write16 buffer off v = buffer[off := word_of_nat v, off + 1 := word_of_nat (v div 256)]"

definition write32 :: "block \<Rightarrow> nat \<Rightarrow> nat \<Rightarrow> block" where
  "write32 buffer off v = buffer[off := word_of_nat v, off + 1 := word_of_nat (v div 256),
     off + 2 := word_of_nat (v div 65536), off + 3 := word_of_nat (v div 16777216)]"

text \<open>\<^verbatim>\<open>memcpy(dst + off, src, length src)\<close> and \<^verbatim>\<open>memset(dst + off, x, n)\<close> inside a buffer.\<close>

definition memcpy_at :: "'a list \<Rightarrow> nat \<Rightarrow> 'a list \<Rightarrow> 'a list" where
  "memcpy_at dst off src = take off dst @ src @ drop (off + length src) dst"

definition memset_at :: "'a list \<Rightarrow> nat \<Rightarrow> 'a \<Rightarrow> nat \<Rightarrow> 'a list" where
  "memset_at dst off x n = memcpy_at dst off (replicate n x)"

section \<open>Lemmas\<close>

lemma u32_less [simp]: "u32 n < 2 ^ 32"
  by (simp add: u32_def)

lemma u32_id [simp]: "n < 2 ^ 32 \<Longrightarrow> u32 n = n"
  by (simp add: u32_def)

lemma u32_of_int_id [simp]: "0 \<le> i \<Longrightarrow> i < 2 ^ 32 \<Longrightarrow> u32_of_int i = nat i"
  by (simp add: u32_of_int_def)

lemma u32_of_int_nat [simp]: "u32_of_int (int n) = u32 n"
  by (simp add: u32_of_int_def u32_def nat_mod_distrib)

lemma u32_minus_id [simp]: "b \<le> a \<Longrightarrow> a < 2 ^ 32 \<Longrightarrow> u32_minus a b = a - b"
  by (simp add: u32_minus_def)

lemma s32_id [simp]: "- (2 ^ 31) \<le> i \<Longrightarrow> i < 2 ^ 31 \<Longrightarrow> s32 i = i"
  by (simp add: s32_def)

lemma unat_byte: "unat (word_of_nat n :: u8) = n mod 256"
  by (simp add: unat_of_nat)

lemma unat_u8_less [simp]: "unat (b :: u8) < 256"
  using unsigned_less[of b] by simp

lemma unat_u8_le [simp]: "unat (b :: u8) \<le> 255"
  using unat_u8_less[of b] by linarith

lemma length_write16 [simp]: "length (write16 b off v) = length b"
  by (simp add: write16_def)

lemma length_write32 [simp]: "length (write32 b off v) = length b"
  by (simp add: write32_def)

lemma length_memcpy_at [simp]:
  "off + length src \<le> length dst \<Longrightarrow> length (memcpy_at dst off src) = length dst"
  by (simp add: memcpy_at_def)

lemma length_memset_at [simp]:
  "off + n \<le> length dst \<Longrightarrow> length (memset_at dst off x n) = length dst"
  by (simp add: memset_at_def)

lemma nth_write16_other:
  "i \<noteq> off \<Longrightarrow> i \<noteq> off + 1 \<Longrightarrow> write16 b off v ! i = b ! i"
  by (simp add: write16_def)

lemma nth_write32_other:
  "i < off \<or> off + 4 \<le> i \<Longrightarrow> write32 b off v ! i = b ! i"
  by (auto simp: write32_def)

lemma nth_memcpy_at:
  "off + length src \<le> length dst \<Longrightarrow> i < length dst \<Longrightarrow> memcpy_at dst off src ! i
     = (if i < off then dst ! i else if i < off + length src then src ! (i - off) else dst ! i)"
  by (auto simp: memcpy_at_def nth_append min_def)

lemma bytes2: "(v::nat) mod 256 + 256 * (v div 256 mod 256) = v mod 65536"
  using mod_mult2_eq[of v 256 256] by simp

lemma bytes4: "(v::nat) mod 256 + 256 * (v div 256 mod 256) + 65536 * (v div 65536 mod 256)
    + 16777216 * (v div 16777216 mod 256) = v mod 4294967296"
  using mod_mult2_eq[of v 65536 65536] bytes2[of v] bytes2[of "v div 65536"]
  by (simp add: div_mult2_eq[symmetric])

lemma read16_write16:
  "off + 1 < length b \<Longrightarrow> read16 (write16 b off v) off = v mod 65536"
  by (simp add: read16_def write16_def unat_byte bytes2)

lemma read32_write32:
  "off + 3 < length b \<Longrightarrow> read32 (write32 b off v) off = v mod 2 ^ 32"
  by (simp add: read32_def write32_def unat_byte bytes4)

lemma read16_less: "read16 b off < 65536"
  using unat_u8_le[of "b ! off"] unat_u8_le[of "b ! (off + 1)"]
  unfolding read16_def by linarith

lemma read32_less: "read32 b off < 4294967296"
  using unat_u8_le[of "b ! off"] unat_u8_le[of "b ! (off + 1)"]
    unat_u8_le[of "b ! (off + 2)"] unat_u8_le[of "b ! (off + 3)"]
  unfolding read32_def by linarith

lemma read16_cong:
  "b ! off = b' ! off \<Longrightarrow> b ! (off + 1) = b' ! (off + 1) \<Longrightarrow> read16 b off = read16 b' off"
  by (simp add: read16_def)

lemma read32_cong:
  assumes "b ! off = b' ! off" "b ! (off + 1) = b' ! (off + 1)"
    "b ! (off + 2) = b' ! (off + 2)" "b ! (off + 3) = b' ! (off + 3)"
  shows "read32 b off = read32 b' off"
  using assms by (simp add: read32_def)

end
