(* ===== verification/Dos_Util.thy ===== *)
theory Dos_Util
  imports Prelude
begin

text \<open>
  The helpers of \<^verbatim>\<open>fat/util.c\<close>: the conversion between the packed DOS date and time of a
  directory entry and \<^verbatim>\<open>time_t\<close>, the check sum that ties a long name to its short
  name, and the clean-up of an 11-character volume name.

  \<^verbatim>\<open>time_t\<close> is a 32-bit signed integer on this system (\<^verbatim>\<open>src/headers/posix/time.h\<close>). The
  static \<^verbatim>\<open>tzoffset\<close> is an argument \<open>tz\<close> of the two conversions.
\<close>

section \<open>Definitions\<close>

subsection \<open>Time zone\<close>

text \<open>\<^verbatim>\<open>tzoffset\<close> is read once; \<open>None\<close> is a failing \<^verbatim>\<open>get_rtc_info\<close>, after which it keeps its
  initial value \<open>-1\<close>.\<close>

definition get_tzoffset :: "int \<Rightarrow> int option \<Rightarrow> int" where
  "get_tzoffset tzoffset rtc =
     (if tzoffset \<noteq> - 1 then tzoffset
      else case rtc of None \<Rightarrow> tzoffset | Some minuteswest \<Rightarrow> minuteswest)"

subsection \<open>Dates\<close>

definition IS_LEAP_YEAR :: "int \<Rightarrow> bool" where
  "IS_LEAP_YEAR y \<longleftrightarrow> y mod 4 = 0 \<and> (y mod 100 \<noteq> 0 \<or> y mod 400 = 0)"

definition leaps :: "int \<Rightarrow> int \<Rightarrow> int" where
  "leaps yr mon =
     (let result = (yr + 2) sdiv 4 - (yr + 70) sdiv 100;
          result = (if yr + 70 \<ge> 100 then result + 1 else result)
      in if IS_LEAP_YEAR (yr + 1970) then if mon < 2 then result - 1 else result
         else result)"

definition daze :: "int list" where
  "daze = [0, 0, 31, 59, 90, 120, 151, 181, 212, 243, 273, 304, 334, 0, 0, 0]"

definition dos2time_t :: "int \<Rightarrow> nat \<Rightarrow> int" where
  "dos2time_t tz t =
     (let year = int (drop_bit 25 t) + 10;
          month = drop_bit 21 t AND 15;
          days = s32 (daze ! month + year * 365 + leaps year (int month - 1)
                   + int (drop_bit 16 t AND 31) - 1)
      in s32 (((days * 24 + int (drop_bit 11 t AND 31)) * 60 + int (drop_bit 5 t AND 63) + tz) * 60
           + 2 * int (t AND 31)))"

text \<open>The loop over the years since 1980; each round takes at least 365 days off \<open>s\<close>.\<close>

function dos_year_loop :: "int \<Rightarrow> nat \<Rightarrow> int \<times> nat" where
  "dos_year_loop s y =
     (let days = (if IS_LEAP_YEAR (1980 + int y) then 366 else 365)
      in if s < days then (s, y) else dos_year_loop (s - days) (y + 1))"
  by pat_completeness auto
termination
  by (relation "measure (\<lambda>(s, y). nat s)") (auto simp: Let_def split: if_splits)

text \<open>The search for the month: the least \<open>d\<close> below 11 whose successor month starts after day \<open>s\<close>.\<close>

function dos_month_loop :: "int \<Rightarrow> nat \<Rightarrow> nat" where
  "dos_month_loop s d =
     (if d < 11 then if daze ! (d + 2) > s then d else dos_month_loop s (d + 1) else d)"
  by pat_completeness auto
termination
  by (relation "measure (\<lambda>(s, d). 11 - d)") auto

definition time_t2dos :: "int \<Rightarrow> int \<Rightarrow> nat" where
  "time_t2dos tz s0 =
     (let t = (s0 smod 60) sdiv 2;
          s = s32 (s0 sdiv 60 - tz);
          t = t + (s smod 60) * 2 ^ 5;
          s = s sdiv 60;
          t = t + (s smod 24) * 2 ^ 11;
          s = s sdiv 24;
          s = s - (10 * 365 + 2);
          (s, y) = dos_year_loop s 0;
          leap = IS_LEAP_YEAR (1980 + int y);
          d = (if leap \<and> s = 59 then 2 ^ 5 + 28
               else let s = (if leap \<and> s > 59 then s - 1 else s);
                        m = dos_month_loop s 0
                    in int m * 2 ^ 5 + (s - daze ! (m + 1)));
          d = d + (2 ^ 5 + 1)
      in u32_of_int (t + d * 2 ^ 16 + int y * 2 ^ 25))"

declare dos_year_loop.simps [simp del] dos_month_loop.simps [simp del]

subsection \<open>Names\<close>

definition hash_step :: "u8 \<Rightarrow> u8 \<Rightarrow> u8" where
  "hash_step p c = push_bit 7 c + drop_bit 1 c + p"

definition hash_msdos_name :: "block \<Rightarrow> u8" where
  "hash_msdos_name name = fold hash_step (take 11 name) 0"

text \<open>The first loop of \<open>sanitize_name\<close>: from \<open>i\<close> downwards, stop at 0 or at a character
  that is not a space.\<close>

fun sanitize_last :: "block \<Rightarrow> nat \<Rightarrow> nat" where
  "sanitize_last name 0 = 0"
| "sanitize_last name (Suc i) = (if name ! Suc i \<noteq> 32 then Suc i else sanitize_last name i)"

definition lower8 :: "u8 \<Rightarrow> u8" where
  "lower8 c = (if 65 \<le> c \<and> c \<le> 90 then c + 32 else c)"

fun sanitize_lower :: "block \<Rightarrow> nat \<Rightarrow> block" where
  "sanitize_lower name 0 = name"
| "sanitize_lower name (Suc i) = sanitize_lower (name[i := lower8 (name ! i)]) i"

text \<open>The terminator is stored at \<open>i + 1\<close>; \<open>None\<close> is a store behind the end of the buffer.
  \<open>len\<close> is positive in every call.\<close>

definition sanitize_name :: "block \<Rightarrow> nat \<Rightarrow> block option" where
  "sanitize_name name len =
     (let i = sanitize_last name (len - 1)
      in if i + 1 < length name then Some (sanitize_lower (name[i + 1 := 0]) (i + 1)) else None)"

subsection \<open>The calendar, for the specifications\<close>

definition dos_days_in_month :: "nat \<Rightarrow> nat \<Rightarrow> nat" where
  "dos_days_in_month y m =
     (if m = 2 then if IS_LEAP_YEAR (1980 + int y) then 29 else 28
      else if m \<in> {4, 6, 9, 11} then 30 else 31)"

definition valid_dos_time :: "nat \<Rightarrow> bool" where
  "valid_dos_time t \<longleftrightarrow>
     (let y = drop_bit 25 t; m = drop_bit 21 t AND 15; d = drop_bit 16 t AND 31
      in t < 2 ^ 32 \<and> 1 \<le> m \<and> m \<le> 12 \<and> 1 \<le> d \<and> d \<le> dos_days_in_month y m
         \<and> drop_bit 11 t AND 31 < 24 \<and> drop_bit 5 t AND 63 < 60 \<and> t AND 31 < 30)"

definition dos_year_len :: "nat \<Rightarrow> int" where
  "dos_year_len y = (if IS_LEAP_YEAR (1980 + int y) then 366 else 365)"

fun dos_year_start :: "nat \<Rightarrow> int" where
  "dos_year_start 0 = 0"
| "dos_year_start (Suc y) = dos_year_start y + dos_year_len y"

definition dos_yday :: "nat \<Rightarrow> nat \<Rightarrow> nat \<Rightarrow> int" where
  "dos_yday y m d = daze ! m + int d - 1 + (if IS_LEAP_YEAR (1980 + int y) \<and> 2 < m then 1 else 0)"

text \<open>The seconds since 1970 that a valid DOS time denotes, without any wrap-around.\<close>

definition dos_seconds :: "int \<Rightarrow> nat \<Rightarrow> int" where
  "dos_seconds tz t =
     (((dos_year_start (drop_bit 25 t) + 3652
        + dos_yday (drop_bit 25 t) (drop_bit 21 t AND 15) (drop_bit 16 t AND 31)) * 24
       + int (drop_bit 11 t AND 31)) * 60 + int (drop_bit 5 t AND 63) + tz) * 60 + 2 * int (t AND 31)"

definition pack_dos_time :: "nat \<Rightarrow> nat \<Rightarrow> nat \<Rightarrow> nat \<Rightarrow> nat \<Rightarrow> nat \<Rightarrow> nat" where
  "pack_dos_time y m d h mi s = ((((y * 16 + m) * 32 + d) * 32 + h) * 64 + mi) * 32 + s"

section \<open>Theorems\<close>

lemma and_low_bits:
  "(x::nat) AND 15 = x mod 16" "x AND 31 = x mod 32" "x AND 63 = x mod 64"
  using take_bit_eq_mask[of 4 x] take_bit_eq_mask[of 5 x] take_bit_eq_mask[of 6 x]
  by (simp_all add: take_bit_eq_mod mask_eq_exp_minus_1)

lemma dos_year_loop_stop: "r < dos_year_len y \<Longrightarrow> dos_year_loop r y = (r, y)"
  by (simp add: dos_year_loop.simps[of r y] dos_year_len_def)

lemma dos_year_loop_step: "0 \<le> r \<Longrightarrow> dos_year_loop (dos_year_len y + r) y = dos_year_loop r (Suc y)"
  by (subst dos_year_loop.simps) (simp add: dos_year_len_def)

lemma dos_year_start_mono: "a \<le> b \<Longrightarrow> dos_year_start a \<le> dos_year_start b"
  by (rule lift_Suc_mono_le) (simp_all add: dos_year_len_def)

lemma dos_year_loop_skip:
  "0 \<le> r \<Longrightarrow> dos_year_loop (dos_year_start (a + n) - dos_year_start a + r) a = dos_year_loop r (a + n)"
proof (induction n arbitrary: a)
  case 0
  then show ?case by simp
next
  case (Suc n)
  have eq: "dos_year_start (a + Suc n) - dos_year_start a + r
      = dos_year_len a + (dos_year_start (Suc a + n) - dos_year_start (Suc a) + r)"
    by simp
  have "0 \<le> dos_year_start (Suc a + n) - dos_year_start (Suc a) + r"
    using dos_year_start_mono[of "Suc a" "Suc a + n"] Suc.prems by simp
  then show ?case
    unfolding eq using Suc.IH[of "Suc a"] Suc.prems by (subst dos_year_loop_step) simp_all
qed

lemma dos_year_loop_start:
  "0 \<le> r \<Longrightarrow> r < dos_year_len y \<Longrightarrow> dos_year_loop (dos_year_start y + r) 0 = (r, y)"
  using dos_year_loop_skip[of r 0 y] by (simp add: dos_year_loop_stop)

lemma leaps_year_step:
  assumes "y < 127"
  shows "(int (Suc y) + 10) * 365 + leaps (int (Suc y) + 10) 0
    = (int y + 10) * 365 + leaps (int y + 10) 0 + dos_year_len y"
proof -
  have "list_all (\<lambda>y. leaps (int y + 11) 0 + 365 = leaps (int y + 10) 0 + dos_year_len y) [0..<127]"
    by code_simp
  with assms have "leaps (int y + 11) 0 + 365 = leaps (int y + 10) 0 + dos_year_len y"
    by (simp add: list_all_iff)
  then show ?thesis by (simp add: algebra_simps)
qed

lemma leaps_year_start:
  assumes "y < 128"
  shows "(int y + 10) * 365 + leaps (int y + 10) mon
    = dos_year_start y + 3652 + (if IS_LEAP_YEAR (1980 + int y) \<and> 2 \<le> mon then 1 else 0)"
proof -
  have "(int y + 10) * 365 + leaps (int y + 10) 0 = dos_year_start y + 3652"
    using assms
  proof (induction y)
    case 0
    show ?case by code_simp
  next
    case (Suc y)
    then show ?case using leaps_year_step[of y] by simp
  qed
  then show ?thesis by (auto simp: leaps_def Let_def)
qed

lemma dos_month_loop_found:
  assumes "1 \<le> m" "m \<le> 12" "daze ! m \<le> s" "m < 12 \<Longrightarrow> s < daze ! (m + 1)"
  shows "dos_month_loop s 0 = m - 1"
proof -
  from assms(1,2) have "m \<in> {1, 2, 3, 4, 5, 6, 7, 8, 9, 10, 11, 12}"
    by (simp; arith)
  with assms(3,4) show ?thesis
    by (auto simp: dos_month_loop.simps[of s] daze_def)
qed

lemma dos_yday_bounds:
  assumes "1 \<le> m" "m \<le> 12" "1 \<le> d" "d \<le> dos_days_in_month y m"
  shows "0 \<le> dos_yday y m d" "dos_yday y m d < dos_year_len y"
proof -
  from assms(1,2) have "m \<in> {1, 2, 3, 4, 5, 6, 7, 8, 9, 10, 11, 12}"
    by (simp; arith)
  with assms(3,4) show "0 \<le> dos_yday y m d" "dos_yday y m d < dos_year_len y"
    by (auto simp: dos_yday_def dos_year_len_def dos_days_in_month_def daze_def split: if_splits)
qed

lemma dos_month_of_yday:
  assumes "1 \<le> m" "m \<le> 12" "1 \<le> d" "d \<le> dos_days_in_month y m"
  defines "leap \<equiv> IS_LEAP_YEAR (1980 + int y)" and "s \<equiv> dos_yday y m d"
  shows "(if leap \<and> s = 59 then 2 ^ 5 + 28
          else let s = (if leap \<and> s > 59 then s - 1 else s); m = dos_month_loop s 0
               in int m * 2 ^ 5 + (s - daze ! (m + 1))) = (int m - 1) * 2 ^ 5 + (int d - 1)"
proof -
  from assms(1,2) have m: "m \<in> {1, 2, 3, 4, 5, 6, 7, 8, 9, 10, 11, 12}"
    by (simp; arith)
  show ?thesis
  proof (cases "leap \<and> s = 59")
    case True
    with m assms(3,4) have "m = 2 \<and> d = 29"
      by (auto simp: leap_def s_def dos_yday_def dos_days_in_month_def daze_def split: if_splits)
    with True show ?thesis by simp
  next
    case False
    define s' where "s' = (if leap \<and> s > 59 then s - 1 else s)"
    have s': "s' = daze ! m + int d - 1"
      using m assms(3,4) False
      by (auto simp: s'_def leap_def s_def dos_yday_def dos_days_in_month_def daze_def
          split: if_splits)
    have "m < 12 \<Longrightarrow> s' < daze ! (m + 1)"
      using m assms(3,4) False unfolding s'
      by (auto simp: leap_def s_def dos_yday_def dos_days_in_month_def daze_def
          split: if_splits)
    then have "dos_month_loop s' 0 = m - 1"
      using assms(1-3) by (intro dos_month_loop_found) (auto simp: s')
    with assms(1) have "int (dos_month_loop s' 0) * 2 ^ 5 + (s' - daze ! (dos_month_loop s' 0 + 1))
        = (int m - 1) * 2 ^ 5 + (int d - 1)"
      by (simp add: s' of_nat_diff)
    then show ?thesis
      unfolding if_not_P[OF False] s'_def[symmetric] by (simp add: Let_def)
  qed
qed

lemma dos_fields:
  fixes t :: nat
  shows "drop_bit 25 t * 2 ^ 25 + (drop_bit 21 t AND 15) * 2 ^ 21 + (drop_bit 16 t AND 31) * 2 ^ 16
    + (drop_bit 11 t AND 31) * 2 ^ 11 + (drop_bit 5 t AND 63) * 2 ^ 5 + (t AND 31) = t"
proof -
  have "t mod 2 ^ 25 = t mod 32 + 32 * (t div 32 mod 64) + 2048 * (t div 2048 mod 32)
      + 65536 * (t div 65536 mod 32) + 2097152 * (t div 2097152 mod 16)"
    using mod_mult2_eq[of t 32 64] mod_mult2_eq[of t 2048 32] mod_mult2_eq[of t 65536 32]
      mod_mult2_eq[of t 2097152 16]
    by simp
  then show ?thesis
    using div_mult_mod_eq[of t "2 ^ 25"] by (simp add: and_low_bits drop_bit_eq_div)
qed

lemma sdiv_smod_pos:
  "0 \<le> (a::int) \<Longrightarrow> 0 < b \<Longrightarrow> a sdiv b = a div b" "0 \<le> (a::int) \<Longrightarrow> 0 < b \<Longrightarrow> a smod b = a mod b"
  by (simp_all add: signed_divide_int_def signed_modulo_int_def modulo_int_def sgn_if minus_mult_div_eq_mod)

lemma dos_year_start_le: "y \<le> 127 \<Longrightarrow> dos_year_start y \<le> 46386"
  using dos_year_start_mono[of y 127]
proof -
  have "dos_year_start 127 = 46386" by code_simp
  then show "y \<le> 127 \<Longrightarrow> ?thesis" using dos_year_start_mono[of y 127] by simp
qed

lemma dos2time_t_eq:
  assumes "valid_dos_time t"
  shows "dos2time_t tz t = s32 (dos_seconds tz t)"
proof -
  define y m d where "y = drop_bit 25 t" and "m = drop_bit 21 t AND 15" and "d = drop_bit 16 t AND 31"
  have y: "y < 128"
    using assms by (simp add: valid_dos_time_def Let_def y_def drop_bit_eq_div less_mult_imp_div_less)
  have md: "1 \<le> m" "m \<le> 12" "1 \<le> d" "d \<le> dos_days_in_month y m"
    using assms by (simp_all add: valid_dos_time_def Let_def y_def m_def d_def)
  have days: "daze ! m + (int y + 10) * 365 + leaps (int y + 10) (int m - 1) + int d - 1
      = dos_year_start y + 3652 + dos_yday y m d"
    using leaps_year_start[OF y, of "int m - 1"] by (simp add: dos_yday_def)
  have "0 \<le> dos_year_start y" using dos_year_start_mono[of 0 y] by simp
  moreover have "dos_year_start y \<le> 46386" using y by (intro dos_year_start_le) simp
  moreover have "dos_year_len y \<le> 366" by (simp add: dos_year_len_def)
  ultimately have "s32 (dos_year_start y + 3652 + dos_yday y m d)
      = dos_year_start y + 3652 + dos_yday y m d"
    using dos_yday_bounds[OF md] by (intro s32_id) simp_all
  then show ?thesis
    unfolding dos2time_t_def Let_def y_def[symmetric] m_def[symmetric] d_def[symmetric] days
    by (simp add: dos_seconds_def y_def m_def d_def)
qed

lemma dos_seconds_range:
  assumes "valid_dos_time t" "drop_bit 25 t < 58" "\<bar>tz\<bar> \<le> 1440"
  shows "315446400 \<le> dos_seconds tz t \<and> dos_seconds tz t < 2 ^ 31"
proof -
  define y m d where "y = drop_bit 25 t" and "m = drop_bit 21 t AND 15" and "d = drop_bit 16 t AND 31"
  have md: "1 \<le> m" "m \<le> 12" "1 \<le> d" "d \<le> dos_days_in_month y m"
    using assms by (simp_all add: valid_dos_time_def Let_def y_def m_def d_def)
  have "dos_year_start y + dos_year_len y \<le> dos_year_start 58"
    using dos_year_start_mono[of "Suc y" 58] assms(2) by (simp add: y_def)
  moreover have "dos_year_start 58 = 21185" by code_simp
  moreover have "0 \<le> dos_year_start y" using dos_year_start_mono[of 0 y] by simp
  moreover have "drop_bit 11 t AND 31 < 24" "drop_bit 5 t AND 63 < 60" "t AND 31 < 30"
    using assms(1) by (simp_all add: valid_dos_time_def Let_def)
  ultimately show ?thesis
    using dos_yday_bounds[OF md] assms(3) unfolding dos_seconds_def y_def m_def d_def by simp linarith
qed

lemma minutes_seconds:
  fixes x s :: int
  assumes "0 \<le> s" "s < 30"
  shows "(x * 60 + 2 * s) mod 60 div 2 = s" "(x * 60 + 2 * s) div 60 = x"
  using assms by simp_all

lemma pack_div_mod:
  fixes x m n :: int
  assumes "0 \<le> m" "m < n"
  shows "(x * n + m) mod n = m" "(x * n + m) div n = x"
  using assms by simp_all

lemma time_t2dos_seconds:
  assumes t: "valid_dos_time t" and tz: "\<bar>tz\<bar> \<le> 1440"
    and pos: "0 \<le> dos_seconds tz t" "dos_seconds tz t < 2 ^ 31"
  shows "time_t2dos tz (dos_seconds tz t) = t"
proof -
  define y m d where "y = drop_bit 25 t" and "m = drop_bit 21 t AND 15" and "d = drop_bit 16 t AND 31"
  define h mi s where "h = drop_bit 11 t AND 31" and "mi = drop_bit 5 t AND 63" and "s = t AND 31"
  define D where "D = dos_year_start y + 3652 + dos_yday y m d"
  define H where "H = D * 24 + int h"
  define M where "M = H * 60 + int mi"
  have md: "1 \<le> m" "m \<le> 12" "1 \<le> d" "d \<le> dos_days_in_month y m"
    and hms: "h < 24" "mi < 60" "s < 30"
    using t by (simp_all add: valid_dos_time_def Let_def y_def m_def d_def h_def mi_def s_def)
  have S: "dos_seconds tz t = (M + tz) * 60 + 2 * int s"
    by (simp add: dos_seconds_def M_def H_def D_def y_def m_def d_def h_def mi_def s_def)
  have D0: "0 \<le> D" using dos_year_start_mono[of 0 y] dos_yday_bounds[OF md] by (simp add: D_def)
  then have HM0: "0 \<le> H" "0 \<le> M" by (simp_all add: H_def M_def)
  have 1: "dos_seconds tz t smod 60 sdiv 2 = int s" "dos_seconds tz t sdiv 60 = M + tz"
    using minutes_seconds[of "int s" "M + tz"] hms
    unfolding S[symmetric] using pos(1) by (simp_all add: sdiv_smod_pos)
  have 2: "s32 M = M"
    using pos HM0 tz unfolding S by (intro s32_id; simp; linarith?)
  have 3: "M smod 60 = int mi" "M sdiv 60 = H" "H smod 24 = int h" "H sdiv 24 = D"
    using HM0 hms pack_div_mod[of "int mi" 60 H] pack_div_mod[of "int h" 24 D]
    by (simp_all add: sdiv_smod_pos M_def[symmetric] H_def[symmetric])
  have 4: "dos_year_loop (D - 3652) 0 = (dos_yday y m d, y)"
    using dos_year_loop_start[OF dos_yday_bounds[OF md]] by (simp add: D_def)
  have f: "int t = int s + int mi * 2 ^ 5 + int h * 2 ^ 11
      + ((int m - 1) * 2 ^ 5 + (int d - 1) + (2 ^ 5 + 1)) * 2 ^ 16 + int y * 2 ^ 25"
    using arg_cong[OF dos_fields[of t], of int] md
    by (simp add: y_def m_def d_def h_def mi_def s_def)
  have "time_t2dos tz (dos_seconds tz t) = u32_of_int (int t)"
    unfolding time_t2dos_def 1 using dos_month_of_yday[OF md] by (simp add: 2 3 4 f Let_def)
  also have "\<dots> = t" using t by (simp add: valid_dos_time_def Let_def)
  finally show ?thesis .
qed

text \<open>For every calendar time that a directory entry can hold up to the end of 2037 (the range
  of a 32-bit \<^verbatim>\<open>time_t\<close>), converting it to \<^verbatim>\<open>time_t\<close> and back gives the same 32 bits.\<close>

theorem dos_time_roundtrip:
  assumes "valid_dos_time t" "drop_bit 25 t < 58" "\<bar>tz\<bar> \<le> 1440"
  shows "time_t2dos tz (dos2time_t tz t) = t"
proof -
  have "dos2time_t tz t = dos_seconds tz t"
    using dos_seconds_range[OF assms] by (simp add: dos2time_t_eq[OF assms(1)])
  then show ?thesis
    using time_t2dos_seconds[OF assms(1,3)] dos_seconds_range[OF assms] by simp
qed

theorem dos_time_roundtrip_witness:
  "time_t2dos 60 (dos2time_t 60 811426908) = 811426908"
  by (rule dos_time_roundtrip)
    (simp_all add: valid_dos_time_def dos_days_in_month_def IS_LEAP_YEAR_def and_low_bits drop_bit_eq_div)

lemma dos_year_split:
  assumes "0 \<le> D"
  shows "\<exists>y r. D = dos_year_start y + r \<and> 0 \<le> r \<and> r < dos_year_len y"
proof -
  have ge: "int n * 365 \<le> dos_year_start n" for n
    by (induction n) (simp_all add: dos_year_len_def)
  define y where "y = (LEAST y. D < dos_year_start (Suc y))"
  have ex: "\<exists>y. D < dos_year_start (Suc y)"
    using ge[of "Suc (nat D)"] assms by (intro exI[of _ "nat D"]) simp
  have "D < dos_year_start (Suc y)" unfolding y_def by (rule LeastI_ex[OF ex])
  moreover have "dos_year_start y \<le> D"
  proof (cases y)
    case 0
    then show ?thesis using assms by simp
  next
    case (Suc n)
    then have "\<not> D < dos_year_start (Suc n)" unfolding y_def by (metis not_less_Least lessI)
    with Suc show ?thesis by simp
  qed
  ultimately show ?thesis by (intro exI[of _ y] exI[of _ "D - dos_year_start y"]) simp
qed

lemma dos_month_split:
  assumes "0 \<le> r" "r < dos_year_len y"
  shows "\<exists>m d. 1 \<le> m \<and> m \<le> 12 \<and> 1 \<le> d \<and> d \<le> dos_days_in_month y m \<and> dos_yday y m d = r"
proof -
  define start where "start = (\<lambda>m. daze ! m + (if IS_LEAP_YEAR (1980 + int y) \<and> 2 < m then 1 else 0))"
  have next_month: "start m + int (dos_days_in_month y m) = (if m = 12 then dos_year_len y else start (m + 1))"
    if "1 \<le> m" "m \<le> 12" for m
  proof -
    from that have "m \<in> {1, 2, 3, 4, 5, 6, 7, 8, 9, 10, 11, 12}" by (simp; arith)
    then show ?thesis by (auto simp: start_def dos_days_in_month_def dos_year_len_def daze_def)
  qed
  have "\<exists>m. 1 \<le> m \<and> m \<le> k \<and> start m \<le> r \<and> r < start m + int (dos_days_in_month y m)"
    if "1 \<le> k" "k \<le> 12" "r < start k + int (dos_days_in_month y k)" for k
    using that
  proof (induction k)
    case (Suc k)
    show ?case
    proof (cases "start (Suc k) \<le> r")
      case True
      with Suc.prems show ?thesis by blast
    next
      case False
      have "k \<noteq> 0" using False assms(1) by (intro notI) (simp add: start_def daze_def)
      then show ?thesis
        using Suc.IH Suc.prems False next_month[of k] by (auto intro: le_SucI)
    qed
  qed simp
  from this[of 12] obtain m where m: "1 \<le> m" "m \<le> 12" "start m \<le> r"
    "r < start m + int (dos_days_in_month y m)"
    using next_month[of 12] assms(2) by auto
  define d where "d = nat (r - start m) + 1"
  have "1 \<le> d" "d \<le> dos_days_in_month y m" "dos_yday y m d = r"
    using m by (auto simp: d_def dos_yday_def start_def split: if_splits)
  with m show ?thesis by blast
qed

lemma pack_dos_time_fields:
  fixes y :: nat
  assumes "m < 16" "d < 32" "h < 32" "mi < 64" "s < 32"
  defines "t \<equiv> pack_dos_time y m d h mi s"
  shows "drop_bit 25 t = y" "drop_bit 21 t AND 15 = m" "drop_bit 16 t AND 31 = d"
    "drop_bit 11 t AND 31 = h" "drop_bit 5 t AND 63 = mi" "t AND 31 = s"
proof -
  have 1: "t div 32 = (((y * 16 + m) * 32 + d) * 32 + h) * 64 + mi" "t mod 32 = s"
    using assms(5) mod_mult_self3[of "(((y * 16 + m) * 32 + d) * 32 + h) * 64 + mi" 32 s]
    by (simp_all add: t_def pack_dos_time_def)
  have 2: "t div 2048 = ((y * 16 + m) * 32 + d) * 32 + h"
    using div_mult2_eq[of t 32 64] assms(4) by (simp add: 1)
  have 3: "t div 65536 = (y * 16 + m) * 32 + d"
    using div_mult2_eq[of t 2048 32] assms(3) by (simp add: 2)
  have 4: "t div 2097152 = y * 16 + m"
    using div_mult2_eq[of t 65536 32] assms(2) by (simp add: 3)
  have 5: "t div 33554432 = y"
    using div_mult2_eq[of t 2097152 16] assms(1) by (simp add: 4)
  show "drop_bit 25 t = y" "drop_bit 21 t AND 15 = m" "drop_bit 16 t AND 31 = d"
    "drop_bit 11 t AND 31 = h" "drop_bit 5 t AND 63 = mi" "t AND 31 = s"
    using assms(1-4) mod_mult_self3[of "y * 16 + m" 32 d]
      mod_mult_self3[of "(y * 16 + m) * 32 + d" 32 h]
      mod_mult_self3[of "((y * 16 + m) * 32 + d) * 32 + h" 64 mi]
    by (simp_all add: and_low_bits drop_bit_eq_div 1 2 3 4 5)
qed

lemma even_part_div_mod:
  fixes s :: int
  shows "2 * (s div 2) div 60 = s div 60" "2 * (s div 2) mod 60 div 2 = s mod 60 div 2"
proof -
  have "2 * (s div 2) div 60 = 2 * (s div 2) div 2 div 30" "s div 60 = s div 2 div 30"
    by (simp_all flip: zdiv_zmult2_eq)
  then show "2 * (s div 2) div 60 = s div 60" by simp
  have "x mod 60 div 2 = x div 2 mod 30" for x :: int
    using zmod_zmult2_eq[of 30 x 2] by (simp del: zmod_zmult2_eq)
  then show "2 * (s div 2) mod 60 div 2 = s mod 60 div 2" by simp
qed

lemma time_t2dos_even:
  assumes "0 \<le> s"
  shows "time_t2dos tz (s - s mod 2) = time_t2dos tz s"
proof -
  have e: "s - s mod 2 = 2 * (s div 2)" by (rule minus_mod_eq_mult_div)
  have p: "0 \<le> 2 * (s div 2)" using assms by simp
  have "(s - s mod 2) sdiv 60 = s sdiv 60"
    unfolding e by (simp only: sdiv_smod_pos p assms even_part_div_mod zero_less_numeral)
  moreover have "(s - s mod 2) smod 60 sdiv 2 = s smod 60 sdiv 2"
    unfolding e
    by (simp only: sdiv_smod_pos p assms even_part_div_mod zero_less_numeral pos_mod_sign)
  ultimately show ?thesis by (simp only: time_t2dos_def)
qed

lemma dos_seconds_onto:
  assumes "315532800 + 60 * tz \<le> s" "s < 2 ^ 31" "\<bar>tz\<bar> \<le> 1440"
  shows "\<exists>t. valid_dos_time t \<and> dos_seconds tz t = s - s mod 2"
proof -
  define M where "M = s div 60 - tz"
  define D where "D = M div 60 div 24 - 3652"
  have "5258880 + tz \<le> s div 60" "s div 60 < 35791395" using assms by simp_all
  then have M: "5258880 \<le> M" "M < 36000000" using assms(3) unfolding M_def by linarith+
  have "0 \<le> D" using M(1) by (simp add: D_def)
  then obtain y r where yr: "D = dos_year_start y + r" "0 \<le> r" "r < dos_year_len y"
    using dos_year_split by blast
  then obtain m d where md: "1 \<le> m" "m \<le> 12" "1 \<le> d" "d \<le> dos_days_in_month y m" "dos_yday y m d = r"
    using dos_month_split by blast
  have "dos_year_start y \<le> D" using yr by simp
  also have "D < dos_year_start 100"
  proof -
    have "dos_year_start 100 = 36525" by code_simp
    then show ?thesis using M(2) by (simp add: D_def)
  qed
  finally have "y < 100" using dos_year_start_mono[of 100 y] by (meson not_le)
  define h mi sec where "h = nat (M div 60 mod 24)" and "mi = nat (M mod 60)" and "sec = nat (s mod 60 div 2)"
  have hms: "h < 24" "mi < 60" "sec < 30" by (simp_all add: h_def mi_def sec_def nat_less_iff)
  have "d < 32" using md(4) by (simp add: dos_days_in_month_def split: if_splits)
  define t where "t = pack_dos_time y m d h mi sec"
  have f: "drop_bit 25 t = y" "drop_bit 21 t AND 15 = m" "drop_bit 16 t AND 31 = d"
    "drop_bit 11 t AND 31 = h" "drop_bit 5 t AND 63 = mi" "t AND 31 = sec"
    unfolding t_def using pack_dos_time_fields[of m d h mi sec y] md(2) \<open>d < 32\<close> hms by simp_all
  have "t < 2 ^ 32"
    using \<open>y < 100\<close> md(2) \<open>d < 32\<close> hms by (simp add: t_def pack_dos_time_def)
  then have "valid_dos_time t" using md hms by (simp add: valid_dos_time_def f)
  moreover have "dos_seconds tz t = s - s mod 2"
  proof -
    have "dos_year_start y + 3652 + dos_yday y m d = M div 60 div 24"
      using yr(1) md(5) by (simp add: D_def)
    then have "(dos_year_start y + 3652 + dos_yday y m d) * 24 + int h = M div 60"
      by (simp only: h_def) simp
    then have "dos_seconds tz t = (M div 60 * 60 + int mi + tz) * 60 + 2 * int sec"
      by (simp add: dos_seconds_def f)
    also have "M div 60 * 60 + int mi + tz = s div 60" by (simp add: mi_def M_def)
    also have "s div 60 * 60 + 2 * int sec = s - s mod 2" by (simp add: sec_def) presburger
    finally show ?thesis .
  qed
  ultimately show ?thesis by blast
qed

text \<open>C36: for every \<^verbatim>\<open>time_t\<close> from 1980 on, converting it to a DOS time and back loses at most the odd
  second, which the two-second resolution of the format cannot hold.\<close>

theorem time_dos_roundtrip:
  assumes "315532800 + 60 * tz \<le> s" "s < 2 ^ 31" "\<bar>tz\<bar> \<le> 1440"
  shows "dos2time_t tz (time_t2dos tz s) = s - s mod 2"
proof -
  obtain t where t: "valid_dos_time t" "dos_seconds tz t = s - s mod 2"
    using dos_seconds_onto[OF assms] by blast
  have s: "0 \<le> s" "0 \<le> s - s mod 2" "s - s mod 2 < 2 ^ 31"
    using assms by (simp_all; linarith | simp add: minus_mod_eq_mult_div)+
  have "time_t2dos tz s = t"
    using time_t2dos_seconds[OF t(1) assms(3)] s(2,3) time_t2dos_even[OF s(1)] by (simp add: t(2))
  then show ?thesis
    using dos2time_t_eq[OF t(1), of tz] s(2,3) by (simp add: t(2))
qed

theorem time_dos_roundtrip_witness:
  "dos2time_t (- 60) (time_t2dos (- 60) 1000000001) = 1000000000"
  using time_dos_roundtrip[of "- 60" 1000000001] by simp

lemma unat_hash_rot: "unat (push_bit 7 c + drop_bit 1 (c :: u8)) = 128 * (unat c mod 2) + unat c div 2"
proof -
  have 1: "unat (push_bit 7 c) = 128 * (unat c mod 2)"
  proof -
    have "push_bit 7 c = 128 * c" by (simp add: push_bit_eq_mult mult.commute)
    then have "unat (push_bit 7 c) = (128 * unat c) mod (128 * 2)" by (simp add: unat_word_ariths)
    also have "\<dots> = 128 * (unat c mod 2)" by (simp only: mult_mod_right)
    finally show ?thesis .
  qed
  have 2: "unat (drop_bit 1 c) = unat c div 2"
    using unat_drop_bit_eq[of 1 c] by (simp only: drop_bit_eq_div power_one_right)
  have "unat c div 2 < 128" using unat_u8_less[of c] by (intro less_mult_imp_div_less) simp
  moreover have "unat c mod 2 \<le> 1" by simp
  ultimately have "128 * (unat c mod 2) + unat c div 2 < 256" by linarith
  then show ?thesis unfolding unat_word_ariths 1 2 by simp
qed

lemma hash_step_inj_state: "hash_step p c = hash_step p c' \<Longrightarrow> c = c'"
proof -
  assume "hash_step p c = hash_step p c'"
  then have "unat (push_bit 7 c + drop_bit 1 c) = unat (push_bit 7 c' + drop_bit 1 c')"
    by (simp add: hash_step_def)
  then have "128 * (unat c mod 2) + unat c div 2 = 128 * (unat c' mod 2) + unat c' div 2"
    by (simp only: unat_hash_rot)
  moreover have "unat x = 2 * ((128 * (unat x mod 2) + unat x div 2) mod 128)
      + (128 * (unat x mod 2) + unat x div 2) div 128" for x :: u8
  proof -
    have "unat x div 2 < 128" using unat_u8_less[of x] by linarith
    then show ?thesis by simp
  qed
  ultimately have "unat c = unat c'" by metis
  then show "c = c'" by (rule unsigned_word_eqI)
qed

lemma hash_step_inj_char: "hash_step p c = hash_step p' c \<Longrightarrow> p = p'"
  by (simp add: hash_step_def)

lemma fold_hash_inj: "fold hash_step ps c = fold hash_step ps c' \<Longrightarrow> c = c'"
  by (induction ps arbitrary: c c') (auto dest: hash_step_inj_state)

text \<open>The check sum of a short name changes whenever a single character of it changes, so a
  long name is never accepted for a short name that differs in one character.\<close>

theorem hash_msdos_name_detects_change:
  assumes "length name = 11" "i < 11" "x \<noteq> name ! i"
  shows "hash_msdos_name (name[i := x]) \<noteq> hash_msdos_name name"
proof
  assume eq: "hash_msdos_name (name[i := x]) = hash_msdos_name name"
  let ?pre = "take i name" and ?post = "drop (Suc i) name"
  have split: "name[i := x] = ?pre @ x # ?post" "name = ?pre @ name ! i # ?post"
    using assms(1,2) by (simp_all add: upd_conv_take_nth_drop id_take_nth_drop)
  have "fold hash_step (?pre @ x # ?post) 0 = fold hash_step (?pre @ name ! i # ?post) 0"
    using eq assms(1) by (simp add: hash_msdos_name_def flip: split)
  then have "hash_step x (fold hash_step ?pre 0) = hash_step (name ! i) (fold hash_step ?pre 0)"
    by (auto dest: fold_hash_inj)
  then show False using assms(3) by (auto dest: hash_step_inj_char)
qed

theorem hash_msdos_name_detects_change_witness:
  "hash_msdos_name ((replicate 11 32)[3 := 65]) \<noteq> hash_msdos_name (replicate 11 32)"
  by (rule hash_msdos_name_detects_change) simp_all

lemma sanitize_last_le: "sanitize_last name i \<le> i"
  by (induction i) (auto intro: le_SucI)

lemma sanitize_last_spaces: "sanitize_last name i < k \<Longrightarrow> k \<le> i \<Longrightarrow> name ! k = 32"
  by (induction i) (auto split: if_splits simp: le_Suc_eq)

lemma sanitize_last_stop: "sanitize_last name i = 0 \<or> name ! sanitize_last name i \<noteq> 32"
  by (induction i) auto

lemma length_sanitize_lower [simp]: "length (sanitize_lower name i) = length name"
  by (induction name i rule: sanitize_lower.induct) auto

lemma nth_sanitize_lower:
  "k < length name \<Longrightarrow> sanitize_lower name i ! k = (if k < i then lower8 (name ! k) else name ! k)"
  by (induction name i rule: sanitize_lower.induct) (auto simp: nth_list_update less_Suc_eq)

text \<open>The callers pass the 12-byte label buffer with \<open>len = 12\<close>: with a terminator in the last
  byte the loop stops at once and the new terminator goes behind the buffer.\<close>

theorem sanitize_name_overruns:
  assumes "length name = 12" "name ! 11 \<noteq> 32"
  shows "sanitize_name name 12 = None"
proof -
  have "sanitize_last name (Suc 10) = 11" using assms(2) unfolding sanitize_last.simps by simp
  then show ?thesis using assms(1) by (simp add: sanitize_name_def)
qed

text \<open>On a buffer longer than \<open>len\<close>, \<^verbatim>\<open>sanitize_name\<close> ends the name behind its last character
  that is not a space, lower-cases what is left and writes nothing else.\<close>

theorem sanitize_name_spec:
  assumes "0 < len" "len < length name"
  defines "i \<equiv> sanitize_last name (len - 1)"
  shows "\<exists>name'. sanitize_name name len = Some name' \<and> length name' = length name
     \<and> (\<forall>k < length name. name' ! k = (if k \<le> i then lower8 (name ! k) else if k = i + 1 then 0 else name ! k))
     \<and> (\<forall>k. i < k \<and> k < len \<longrightarrow> name ! k = 32) \<and> (i = 0 \<or> name ! i \<noteq> 32)"
proof -
  have "i + 1 < length name" using sanitize_last_le[of name "len - 1"] assms by (simp add: i_def)
  moreover have "\<And>k. i < k \<and> k < len \<Longrightarrow> name ! k = 32" "i = 0 \<or> name ! i \<noteq> 32"
    using sanitize_last_spaces[of name "len - 1"] sanitize_last_stop[of name "len - 1"] by (auto simp: i_def)
  ultimately show ?thesis
    unfolding sanitize_name_def i_def[symmetric] Let_def
    by (auto simp: nth_sanitize_lower nth_list_update)
qed

theorem sanitize_name_spec_witness:
  "(\<exists>name'. sanitize_name [78, 79, 32, 32, 7] 4 = Some name' \<and> length name' = 5)
   \<and> sanitize_name [78, 79, 32, 32, 7] 4 = Some [110, 111, 0, 32, 7]"
proof
  show "\<exists>name'. sanitize_name [78, 79, 32, 32, 7] 4 = Some name' \<and> length name' = 5"
    using sanitize_name_spec[of 4 "[78, 79, 32, 32, 7]"] by auto
  show "sanitize_name [78, 79, 32, 32, 7] 4 = Some [110, 111, 0, 32, 7]"
    by code_simp
qed

end
