(* ===== verification/Vnid.thy ===== *)
theory Vnid
  imports Prelude
begin

text \<open>
  The vnode ids of \<^verbatim>\<open>fat/dosfs.h\<close>: three disjoint encodings in the upper bits of an
  \<^verbatim>\<open>ino_t\<close>, the macros that build and take apart the two that describe a location on the
  disk, and the cluster classes of \<^verbatim>\<open>fat/fat.h\<close>.
\<close>

section \<open>Definitions\<close>

definition ARTIFICIAL_VNID_BITS :: ino_t where
  "ARTIFICIAL_VNID_BITS = push_bit 60 6"

definition DIR_CLUSTER_VNID_BITS :: ino_t where
  "DIR_CLUSTER_VNID_BITS = push_bit 60 4"

definition DIR_INDEX_VNID_BITS :: ino_t where
  "DIR_INDEX_VNID_BITS = 0"

definition INVALID_VNID_BITS_MASK :: ino_t where
  "INVALID_VNID_BITS_MASK = push_bit 60 9"

definition IS_DIR_CLUSTER_VNID :: "ino_t \<Rightarrow> bool" where
  "IS_DIR_CLUSTER_VNID vnid \<longleftrightarrow> vnid AND ARTIFICIAL_VNID_BITS = DIR_CLUSTER_VNID_BITS"

definition IS_DIR_INDEX_VNID :: "ino_t \<Rightarrow> bool" where
  "IS_DIR_INDEX_VNID vnid \<longleftrightarrow> vnid AND ARTIFICIAL_VNID_BITS = DIR_INDEX_VNID_BITS"

definition IS_ARTIFICIAL_VNID :: "ino_t \<Rightarrow> bool" where
  "IS_ARTIFICIAL_VNID vnid \<longleftrightarrow> vnid AND ARTIFICIAL_VNID_BITS = ARTIFICIAL_VNID_BITS"

definition IS_INVALID_VNID :: "ino_t \<Rightarrow> bool" where
  "IS_INVALID_VNID vnid \<longleftrightarrow>
     (\<not> IS_DIR_CLUSTER_VNID vnid \<and> \<not> IS_DIR_INDEX_VNID vnid \<and> \<not> IS_ARTIFICIAL_VNID vnid)
     \<or> vnid AND INVALID_VNID_BITS_MASK \<noteq> 0"

text \<open>The first argument is cast to \<^verbatim>\<open>ino_t\<close>: callers pass a cluster or a whole vnode id.\<close>

definition GENERATE_DIR_INDEX_VNID :: "ino_t \<Rightarrow> nat \<Rightarrow> ino_t" where
  "GENERATE_DIR_INDEX_VNID dircluster index =
     DIR_INDEX_VNID_BITS OR push_bit 32 dircluster OR word_of_nat index"

definition GENERATE_DIR_CLUSTER_VNID :: "ino_t \<Rightarrow> nat \<Rightarrow> ino_t" where
  "GENERATE_DIR_CLUSTER_VNID dircluster filecluster =
     DIR_CLUSTER_VNID_BITS OR push_bit 32 dircluster OR word_of_nat filecluster"

definition CLUSTER_OF_DIR_CLUSTER_VNID :: "ino_t \<Rightarrow> nat" where
  "CLUSTER_OF_DIR_CLUSTER_VNID vnid = unat (vnid AND 0xffffffff)"

definition INDEX_OF_DIR_INDEX_VNID :: "ino_t \<Rightarrow> nat" where
  "INDEX_OF_DIR_INDEX_VNID vnid = unat (vnid AND 0xffffffff)"

definition DIR_OF_VNID :: "ino_t \<Rightarrow> nat" where
  "DIR_OF_VNID vnid = unat (drop_bit 32 vnid AND 0x0fffffff)"

section \<open>Theorems\<close>

lemma take_bit_32_and: "(v :: ino_t) AND 0xffffffff = take_bit 32 v"
  by (simp add: take_bit_eq_mask mask_eq_exp_minus_1)

lemma take_bit_28_and: "(v :: ino_t) AND 0x0fffffff = take_bit 28 v"
  by (simp add: take_bit_eq_mask mask_eq_exp_minus_1)

lemma bit_vnid_masks:
  "bit ARTIFICIAL_VNID_BITS n \<longleftrightarrow> n = 61 \<or> n = 62"
  "bit DIR_CLUSTER_VNID_BITS n \<longleftrightarrow> n = 62"
  "bit INVALID_VNID_BITS_MASK n \<longleftrightarrow> n = 60 \<or> n = 63"
proof -
  have m: "ARTIFICIAL_VNID_BITS = push_bit 61 1 OR push_bit 62 1"
    "DIR_CLUSTER_VNID_BITS = push_bit 62 1" "INVALID_VNID_BITS_MASK = push_bit 60 1 OR push_bit 63 1"
    by (simp_all add: ARTIFICIAL_VNID_BITS_def DIR_CLUSTER_VNID_BITS_def INVALID_VNID_BITS_MASK_def)
  show "bit ARTIFICIAL_VNID_BITS n \<longleftrightarrow> n = 61 \<or> n = 62"
    "bit DIR_CLUSTER_VNID_BITS n \<longleftrightarrow> n = 62"
    "bit INVALID_VNID_BITS_MASK n \<longleftrightarrow> n = 60 \<or> n = 63"
    unfolding m bit_or_iff bit_push_bit_iff by (auto simp: bit_1_iff)
qed

lemma masked_eq_iff: "(v :: ino_t) AND m = r \<longleftrightarrow> (\<forall>n. (bit v n \<and> bit m n) = bit r n)"
proof
  assume "v AND m = r"
  then show "\<forall>n. (bit v n \<and> bit m n) = bit r n" by (simp only: bit_and_iff[symmetric] simp_thms)
next
  assume "\<forall>n. (bit v n \<and> bit m n) = bit r n"
  then show "v AND m = r" by (intro bit_eqI) (simp only: bit_and_iff)
qed

lemma two_bits:
  fixes a b :: nat
  shows "a \<noteq> b \<Longrightarrow> (\<forall>n. (P n \<and> (n = a \<or> n = b)) = (n = b)) \<longleftrightarrow> P b \<and> \<not> P a"
    "(\<forall>n. (P n \<and> (n = a \<or> n = b)) = False) \<longleftrightarrow> \<not> P b \<and> \<not> P a"
    "(\<forall>n. (P n \<and> (n = a \<or> n = b)) = (n = a \<or> n = b)) \<longleftrightarrow> P b \<and> P a"
  by auto

lemma vnid_kind_bits:
  "IS_DIR_CLUSTER_VNID v \<longleftrightarrow> bit v 62 \<and> \<not> bit v 61"
  "IS_DIR_INDEX_VNID v \<longleftrightarrow> \<not> bit v 62 \<and> \<not> bit v 61"
  "IS_ARTIFICIAL_VNID v \<longleftrightarrow> bit v 62 \<and> bit v 61"
  "v AND INVALID_VNID_BITS_MASK = 0 \<longleftrightarrow> \<not> bit v 63 \<and> \<not> bit v 60"
  unfolding IS_DIR_CLUSTER_VNID_def IS_DIR_INDEX_VNID_def IS_ARTIFICIAL_VNID_def
    DIR_INDEX_VNID_BITS_def masked_eq_iff bit_vnid_masks bit_0_eq bot_apply bot_bool_def two_bits
  by (rule two_bits, simp) (rule refl)+

lemma not_bit_less:
  assumes "unat (w :: ino_t) < 2 ^ k" "k \<le> n"
  shows "\<not> bit w n"
proof -
  have "unat (take_bit k w) = unat w"
    using assms(1) by (simp add: unsigned_take_bit_eq take_bit_nat_eq_self_iff)
  then have "take_bit k w = w" by (rule unsigned_word_eqI)
  then show ?thesis using assms(2) by (metis bit_take_bit_iff not_le)
qed

lemma unat_word_of_nat_32: "c < 2 ^ 32 \<Longrightarrow> unat (word_of_nat c :: ino_t) = c"
  by (simp add: unat_of_nat)

text \<open>The fields of an id with the kind bits \<open>K\<close>, for a directory below \<open>2 ^ 28\<close>.\<close>

lemma vnid_fields:
  fixes K d :: ino_t
  assumes K: "\<And>n. bit K n \<Longrightarrow> 60 \<le> n" and d: "unat d < 2 ^ 28" and c: "c < 2 ^ 32"
  defines "v \<equiv> K OR push_bit 32 d OR word_of_nat c"
  shows "take_bit 32 v = word_of_nat c" "take_bit 28 (drop_bit 32 v) = d"
    "\<And>n. 60 \<le> n \<Longrightarrow> bit v n = bit K n"
proof -
  have lo: "n < 32" if "bit (word_of_nat c :: ino_t) n" for n
    using not_bit_less[of "word_of_nat c" 32 n] c that by (intro not_le_imp_less notI) (simp add: unat_word_of_nat_32)
  have hi: "n < 28" if "bit d n" for n using not_bit_less[OF d, of n] that by (intro not_le_imp_less notI) simp
  have "n < 64" if "bit d (n - 32)" for n
    using hi[OF that] by simp
  then have bits: "bit v n \<longleftrightarrow> bit K n \<or> (32 \<le> n \<and> bit d (n - 32)) \<or> bit (word_of_nat c :: ino_t) n" for n
    by (auto simp: v_def bit_or_iff bit_push_bit_iff)
  show "take_bit 32 v = word_of_nat c"
    by (rule bit_eqI) (auto simp: bit_take_bit_iff bits dest: K lo)
  show "take_bit 28 (drop_bit 32 v) = d"
    by (rule bit_eqI) (auto simp: bit_take_bit_iff bit_drop_bit_eq bits dest: K lo hi)
  show "60 \<le> n \<Longrightarrow> bit v n = bit K n" for n
    by (auto simp: bits dest: lo hi)
qed

lemma dir_cluster_vnid:
  assumes "d < 2 ^ 28" "n < 2 ^ 32"
  defines "c \<equiv> GENERATE_DIR_CLUSTER_VNID (word_of_nat d) n"
  shows "IS_DIR_CLUSTER_VNID c \<and> \<not> IS_DIR_INDEX_VNID c \<and> \<not> IS_ARTIFICIAL_VNID c \<and> \<not> IS_INVALID_VNID c
      \<and> DIR_OF_VNID c = d \<and> CLUSTER_OF_DIR_CLUSTER_VNID c = n"
proof -
  have k: "60 \<le> k" if "bit DIR_CLUSTER_VNID_BITS k" for k using that by (simp add: bit_vnid_masks)
  have d: "unat (word_of_nat d :: ino_t) = d" using assms(1) by (simp add: unat_of_nat)
  have f: "take_bit 32 c = word_of_nat n" "take_bit 28 (drop_bit 32 c) = word_of_nat d"
    "60 \<le> m \<Longrightarrow> bit c m = bit DIR_CLUSTER_VNID_BITS m" for m
    unfolding c_def GENERATE_DIR_CLUSTER_VNID_def using vnid_fields[OF k _ assms(2), of DIR_CLUSTER_VNID_BITS "word_of_nat d"] d assms(1)
    by auto
  show ?thesis
    using unat_word_of_nat_32[OF assms(2)] d
    by (simp add: f vnid_kind_bits IS_INVALID_VNID_def bit_vnid_masks DIR_OF_VNID_def
        CLUSTER_OF_DIR_CLUSTER_VNID_def take_bit_28_and take_bit_32_and)
qed

lemma dir_index_vnid:
  assumes "d < 2 ^ 28" "n < 2 ^ 32"
  defines "c \<equiv> GENERATE_DIR_INDEX_VNID (word_of_nat d) n"
  shows "IS_DIR_INDEX_VNID c \<and> \<not> IS_DIR_CLUSTER_VNID c \<and> \<not> IS_ARTIFICIAL_VNID c \<and> \<not> IS_INVALID_VNID c
      \<and> DIR_OF_VNID c = d \<and> INDEX_OF_DIR_INDEX_VNID c = n"
proof -
  have k: "60 \<le> k" if "bit (0 :: ino_t) k" for k using that by simp
  have d: "unat (word_of_nat d :: ino_t) = d" using assms(1) by (simp add: unat_of_nat)
  have f: "take_bit 32 c = word_of_nat n" "take_bit 28 (drop_bit 32 c) = word_of_nat d"
    "60 \<le> m \<Longrightarrow> \<not> bit c m" for m
    unfolding c_def GENERATE_DIR_INDEX_VNID_def DIR_INDEX_VNID_BITS_def
    using vnid_fields[OF k _ assms(2), of 0 "word_of_nat d"] d assms(1) by auto
  show ?thesis
    using unat_word_of_nat_32[OF assms(2)] d
    by (simp add: f vnid_kind_bits IS_INVALID_VNID_def DIR_OF_VNID_def
        INDEX_OF_DIR_INDEX_VNID_def take_bit_28_and take_bit_32_and)
qed

text \<open>C37: the two location encodings of a vnode id can be taken apart again. For a directory
  cluster below \<open>2 ^ 28\<close> and any 32-bit entry number, the id built from them is recognised as
  its own kind and as no other, is not invalid, and gives back both numbers.\<close>

theorem vnid_encoding_roundtrip:
  assumes "d < 2 ^ 28" "n < 2 ^ 32"
  defines "c \<equiv> GENERATE_DIR_CLUSTER_VNID (word_of_nat d) n"
    and "i \<equiv> GENERATE_DIR_INDEX_VNID (word_of_nat d) n"
  shows "(IS_DIR_CLUSTER_VNID c \<and> \<not> IS_DIR_INDEX_VNID c \<and> \<not> IS_ARTIFICIAL_VNID c \<and> \<not> IS_INVALID_VNID c
      \<and> DIR_OF_VNID c = d \<and> CLUSTER_OF_DIR_CLUSTER_VNID c = n)
    \<and> (IS_DIR_INDEX_VNID i \<and> \<not> IS_DIR_CLUSTER_VNID i \<and> \<not> IS_ARTIFICIAL_VNID i \<and> \<not> IS_INVALID_VNID i
      \<and> DIR_OF_VNID i = d \<and> INDEX_OF_DIR_INDEX_VNID i = n)"
  unfolding c_def i_def using dir_cluster_vnid[OF assms(1,2)] dir_index_vnid[OF assms(1,2)] by blast

theorem vnid_encoding_roundtrip_witness:
  "CLUSTER_OF_DIR_CLUSTER_VNID (GENERATE_DIR_CLUSTER_VNID (word_of_nat 7) 1234) = 1234
   \<and> DIR_OF_VNID (GENERATE_DIR_INDEX_VNID (word_of_nat 7) 1234) = 7"
  using vnid_encoding_roundtrip[of 7 1234] by simp

end
