(* ===== verification/VCache.thy ===== *)
theory VCache
  imports Vnid
begin

text \<open>
  The vnode id cache of \<^verbatim>\<open>fat/vcache.c\<close>: the table that says where a file whose location
  changed after its vnode id was given out is now. Two hash tables, by vnode id and by location, hold the
  same entries; every bucket is a singly linked list kept sorted by the table's key (as
  signed numbers, the way the C compares \<^verbatim>\<open>ino_t\<close>).

  A bucket is a list of entries and a table a list of buckets; the \<^verbatim>\<open>NULL\<close> table is the
  empty list. An entry is never changed after its creation, so the two lists
  of the C that share an entry through \<^verbatim>\<open>next_vnid\<close> and \<^verbatim>\<open>next_loc\<close> are lists of equal values
  here. The result of \<^verbatim>\<open>malloc\<close> is an argument \<open>mem\<close>; the reader/writer lock is not modelled.
\<close>

section \<open>Definitions\<close>

record vcache_entry =
  ve_vnid :: ino_t
  ve_loc :: ino_t

record vcache =
  cur_vnid :: ino_t
  cache_size :: nat
  by_vnid :: "vcache_entry list list"
  by_loc :: "vcache_entry list list"

definition vhash :: "vcache \<Rightarrow> ino_t \<Rightarrow> nat" where
  "vhash vc v = unat (v AND word_of_nat (cache_size vc - 1))"

definition init_vcache :: "bool \<Rightarrow> bool \<Rightarrow> vcache \<Rightarrow> status_t \<times> vcache" where
  "init_vcache mem1 mem2 vc =
     (let vc = vc\<lparr>cur_vnid := ARTIFICIAL_VNID_BITS, cache_size := 512\<rparr>
      in if \<not> mem1 then (ENOMEM, vc\<lparr>by_vnid := []\<rparr>)
         else if \<not> mem2 then (ENOMEM, vc\<lparr>by_vnid := [], by_loc := []\<rparr>)
         else (0, vc\<lparr>by_vnid := replicate 512 [], by_loc := replicate 512 []\<rparr>))"

definition uninit_vcache :: "vcache \<Rightarrow> status_t \<times> vcache" where
  "uninit_vcache vc = (B_OK, vc\<lparr>by_vnid := [], by_loc := []\<rparr>)"

definition generate_unique_vnid :: "vcache \<Rightarrow> ino_t \<times> vcache" where
  "generate_unique_vnid vc = (cur_vnid vc, vc\<lparr>cur_vnid := cur_vnid vc + 1\<rparr>)"

text \<open>Insertion into a bucket: in front of the first entry with a greater key.\<close>

fun vlist_insert :: "(vcache_entry \<Rightarrow> ino_t) \<Rightarrow> vcache_entry \<Rightarrow> vcache_entry list \<Rightarrow> vcache_entry list" where
  "vlist_insert key e [] = [e]"
| "vlist_insert key e (c # cs) =
     (if sint (key e) < sint (key c) then e # c # cs else c # vlist_insert key e cs)"

text \<open>\<^verbatim>\<open>_add_to_vcache_\<close>\<close>

definition do_add_to_vcache :: "bool \<Rightarrow> vcache \<Rightarrow> ino_t \<Rightarrow> ino_t \<Rightarrow> status_t \<times> vcache" where
  "do_add_to_vcache mem vc vnid loc =
     (let hash1 = vhash vc vnid; hash2 = vhash vc loc
      in if \<not> mem then (ENOMEM, vc)
         else let e = \<lparr>ve_vnid = vnid, ve_loc = loc\<rparr>
              in (B_OK, vc\<lparr>by_vnid := (by_vnid vc)[hash1 := vlist_insert ve_vnid e (by_vnid vc ! hash1)],
                           by_loc := (by_loc vc)[hash2 := vlist_insert ve_loc e (by_loc vc ! hash2)]\<rparr>))"

text \<open>The search for the entry of \<open>vnid\<close> in a bucket, and the bucket without it.\<close>

fun vlist_unlink :: "ino_t \<Rightarrow> vcache_entry list \<Rightarrow> (vcache_entry \<times> vcache_entry list) option" where
  "vlist_unlink vnid [] = None"
| "vlist_unlink vnid (c # cs) =
     (if vnid = ve_vnid c then Some (c, cs)
      else case vlist_unlink vnid cs of None \<Rightarrow> None | Some (e, cs') \<Rightarrow> Some (e, c # cs'))"

text \<open>\<^verbatim>\<open>_remove_from_vcache_\<close>: the entry leaves the first table before the second is searched.\<close>

definition do_remove_from_vcache :: "vcache \<Rightarrow> ino_t \<Rightarrow> status_t \<times> vcache" where
  "do_remove_from_vcache vc vnid =
     (let hash1 = vhash vc vnid
      in case vlist_unlink vnid (by_vnid vc ! hash1) of
           None \<Rightarrow> (ENOENT, vc)
         | Some (c, b) \<Rightarrow>
             let vc1 = vc\<lparr>by_vnid := (by_vnid vc)[hash1 := b]\<rparr>;
                 hash2 = vhash vc (ve_loc c)
             in case vlist_unlink vnid (by_loc vc1 ! hash2) of
                  None \<Rightarrow> (ENOENT, vc1)
                | Some (_, b) \<Rightarrow> (0, vc1\<lparr>by_loc := (by_loc vc1)[hash2 := b]\<rparr>))"

text \<open>\<^verbatim>\<open>_find_vnid_in_vcache_\<close> and \<^verbatim>\<open>_find_loc_in_vcache_\<close>: the search stops early at a greater key.\<close>

fun vlist_find :: "(vcache_entry \<Rightarrow> ino_t) \<Rightarrow> ino_t \<Rightarrow> vcache_entry list \<Rightarrow> vcache_entry option" where
  "vlist_find key k [] = None"
| "vlist_find key k (c # cs) =
     (if key c = k then Some c else if sint (key c) > sint k then None else vlist_find key k cs)"

definition find_vnid_in_vcache :: "vcache \<Rightarrow> ino_t \<Rightarrow> vcache_entry option" where
  "find_vnid_in_vcache vc vnid = vlist_find ve_vnid vnid (by_vnid vc ! vhash vc vnid)"

definition find_loc_in_vcache :: "vcache \<Rightarrow> ino_t \<Rightarrow> vcache_entry option" where
  "find_loc_in_vcache vc loc = vlist_find ve_loc loc (by_loc vc ! vhash vc loc)"

definition add_to_vcache :: "bool \<Rightarrow> vcache \<Rightarrow> ino_t \<Rightarrow> ino_t \<Rightarrow> status_t \<times> vcache" where
  "add_to_vcache mem vc vnid loc = do_add_to_vcache mem vc vnid loc"

text \<open>\<^verbatim>\<open>_update_loc_in_vcache_\<close>\<close>

definition update_loc_in_vcache :: "bool \<Rightarrow> vcache \<Rightarrow> ino_t \<Rightarrow> ino_t \<Rightarrow> status_t \<times> vcache" where
  "update_loc_in_vcache mem vc vnid loc =
     (case do_remove_from_vcache vc vnid of (result, vc) \<Rightarrow>
        if result = 0 then do_add_to_vcache mem vc vnid loc else (result, vc))"

definition remove_from_vcache :: "vcache \<Rightarrow> ino_t \<Rightarrow> status_t \<times> vcache" where
  "remove_from_vcache vc vnid = do_remove_from_vcache vc vnid"

text \<open>The status and what is stored through the result pointer, if anything.\<close>

definition vcache_vnid_to_loc :: "vcache \<Rightarrow> ino_t \<Rightarrow> status_t \<times> ino_t option" where
  "vcache_vnid_to_loc vc vnid =
     (case find_vnid_in_vcache vc vnid of Some e \<Rightarrow> (B_OK, Some (ve_loc e)) | None \<Rightarrow> (ENOENT, None))"

definition vcache_loc_to_vnid :: "vcache \<Rightarrow> ino_t \<Rightarrow> status_t \<times> ino_t option" where
  "vcache_loc_to_vnid vc loc =
     (case find_loc_in_vcache vc loc of Some e \<Rightarrow> (B_OK, Some (ve_vnid e)) | None \<Rightarrow> (ENOENT, None))"

definition vcache_set_entry :: "bool \<Rightarrow> vcache \<Rightarrow> ino_t \<Rightarrow> ino_t \<Rightarrow> status_t \<times> vcache" where
  "vcache_set_entry mem vc vnid loc =
     (case find_vnid_in_vcache vc vnid of
        Some e \<Rightarrow> if ve_vnid e = loc then do_remove_from_vcache vc vnid
                  else update_loc_in_vcache mem vc vnid loc
      | None \<Rightarrow> if vnid \<noteq> loc then do_add_to_vcache mem vc vnid loc else (B_OK, vc))"

subsection \<open>Invariant and abstraction\<close>

text \<open>A table keyed by \<open>key\<close>: every bucket strictly sorted, every entry in the bucket of its key.\<close>

definition vtable_ok :: "vcache \<Rightarrow> (vcache_entry \<Rightarrow> ino_t) \<Rightarrow> vcache_entry list list \<Rightarrow> bool" where
  "vtable_ok vc key t \<longleftrightarrow> length t = cache_size vc
     \<and> (\<forall>b < length t. sorted_wrt (\<lambda>x y. sint (key x) < sint (key y)) (t ! b)
          \<and> (\<forall>e \<in> set (t ! b). vhash vc (key e) = b))"

definition vtable_set :: "vcache_entry list list \<Rightarrow> vcache_entry set" where
  "vtable_set t = (\<Union>b < length t. set (t ! b))"

definition vcache_ok :: "vcache \<Rightarrow> bool" where
  "vcache_ok vc \<longleftrightarrow> 0 < cache_size vc \<and> cache_size vc < 2 ^ 32
     \<and> vtable_ok vc ve_vnid (by_vnid vc) \<and> vtable_ok vc ve_loc (by_loc vc)
     \<and> vtable_set (by_vnid vc) = vtable_set (by_loc vc)
     \<and> (\<forall>e \<in> vtable_set (by_vnid vc). ve_vnid e \<noteq> ve_loc e)"

text \<open>The two changes of the table, when there is memory.\<close>

definition vcache_put :: "vcache \<Rightarrow> ino_t \<Rightarrow> ino_t \<Rightarrow> vcache" where
  "vcache_put vc vnid loc = snd (do_add_to_vcache True vc vnid loc)"

definition vcache_del :: "vcache \<Rightarrow> ino_t \<Rightarrow> vcache" where
  "vcache_del vc vnid = snd (do_remove_from_vcache vc vnid)"

text \<open>What the table records, and the location that it gives to a vnode id: a vnode id
  without an entry is its own location.\<close>

definition vmap :: "vcache \<Rightarrow> ino_t \<Rightarrow> ino_t option" where
  "vmap vc vnid = map_option ve_loc (find_vnid_in_vcache vc vnid)"

definition vmap_inv :: "vcache \<Rightarrow> ino_t \<Rightarrow> ino_t option" where
  "vmap_inv vc loc = map_option ve_vnid (find_loc_in_vcache vc loc)"

definition vloc :: "vcache \<Rightarrow> ino_t \<Rightarrow> ino_t" where
  "vloc vc vnid = (case vmap vc vnid of Some loc \<Rightarrow> loc | None \<Rightarrow> vnid)"

text \<open>The states that the file system brings the cache into: locations are only given to a
  vnode id while no other has them, and \<^verbatim>\<open>add_to_vcache\<close> is called for new ids.\<close>

inductive vcache_reach :: "vcache \<Rightarrow> bool" where
  init: "vcache_reach (snd (init_vcache True True vc))"
| set_entry: "vcache_reach vc \<Longrightarrow> \<forall>w. vmap vc w = Some l \<longrightarrow> w = v
    \<Longrightarrow> vcache_reach (snd (vcache_set_entry mem vc v l))"
| add: "vcache_reach vc \<Longrightarrow> vmap vc v = None \<Longrightarrow> \<forall>w. vmap vc w \<noteq> Some l \<Longrightarrow> v \<noteq> l
    \<Longrightarrow> vcache_reach (snd (add_to_vcache mem vc v l))"
| remove: "vcache_reach vc \<Longrightarrow> vcache_reach (snd (remove_from_vcache vc v))"
| unique: "vcache_reach vc \<Longrightarrow> vcache_reach (snd (generate_unique_vnid vc))"

text \<open>The ids that repeated calls of \<^verbatim>\<open>generate_unique_vnid\<close> give out.\<close>

fun generate_vnids :: "nat \<Rightarrow> vcache \<Rightarrow> ino_t list" where
  "generate_vnids 0 vc = []"
| "generate_vnids (Suc n) vc = (let (v, vc') = generate_unique_vnid vc in v # generate_vnids n vc')"

section \<open>Theorems\<close>

subsection \<open>Buckets\<close>

lemma sint_less_ne: "sint (a :: ino_t) \<le> sint b \<Longrightarrow> a \<noteq> b \<Longrightarrow> sint a < sint b"
  using signed_word_eqI[where 'a = int and v = a and w = b] by (auto simp: order_less_le)

lemma set_vlist_insert [simp]: "set (vlist_insert key e cs) = insert e (set cs)"
  by (induction cs) auto

lemma sorted_vlist_insert:
  "sorted_wrt (\<lambda>x y. sint (key x) < sint (key y)) cs \<Longrightarrow> key e \<notin> key ` set cs
   \<Longrightarrow> sorted_wrt (\<lambda>x y. sint (key x) < sint (key y)) (vlist_insert key e cs)"
  by (induction cs) (auto simp: not_less sint_less_ne image_iff)

lemma vlist_find_sound: "vlist_find key k cs = Some c \<Longrightarrow> c \<in> set cs \<and> key c = k"
  by (induction cs) (auto split: if_splits)

lemma vlist_find_complete:
  "sorted_wrt (\<lambda>x y. sint (key x) < sint (key y)) cs \<Longrightarrow> c \<in> set cs \<Longrightarrow> vlist_find key (key c) cs = Some c"
  by (induction cs) auto

lemma vlist_unlink_None: "vlist_unlink vnid cs = None \<longleftrightarrow> vnid \<notin> ve_vnid ` set cs"
  by (induction cs) (auto split: option.splits)

lemma vlist_unlink_Some:
  "vlist_unlink vnid cs = Some (e, cs') \<Longrightarrow> \<exists>xs ys. cs = xs @ e # ys \<and> cs' = xs @ ys \<and> ve_vnid e = vnid"
proof (induction cs arbitrary: cs')
  case (Cons c cs)
  show ?case
  proof (cases "vnid = ve_vnid c")
    case True
    with Cons.prems show ?thesis by (intro exI[of _ "[]"] exI[of _ cs]) auto
  next
    case False
    with Cons.prems obtain r where "vlist_unlink vnid cs = Some (e, r)" "cs' = c # r"
      by (auto split: option.splits)
    with Cons.IH obtain xs ys where "cs = xs @ e # ys" "r = xs @ ys" "ve_vnid e = vnid" by blast
    with \<open>cs' = c # r\<close> show ?thesis by (intro exI[of _ "c # xs"] exI[of _ ys]) auto
  qed
qed simp

subsection \<open>Tables\<close>

lemma vhash_simps [simp]:
  "vhash (vc\<lparr>by_vnid := t\<rparr>) = vhash vc" "vhash (vc\<lparr>by_loc := t\<rparr>) = vhash vc"
  "vhash (vc\<lparr>cur_vnid := n\<rparr>) = vhash vc"
  by (simp_all add: vhash_def fun_eq_iff)

lemma vtable_ok_simps [simp]:
  "vtable_ok (vc\<lparr>by_vnid := t\<rparr>) = vtable_ok vc" "vtable_ok (vc\<lparr>by_loc := t\<rparr>) = vtable_ok vc"
  "vtable_ok (vc\<lparr>cur_vnid := n\<rparr>) = vtable_ok vc"
  by (simp_all add: vtable_ok_def fun_eq_iff)

lemma vhash_less:
  assumes "0 < cache_size vc" "cache_size vc < 2 ^ 32"
  shows "vhash vc v < cache_size vc"
proof -
  have "vhash vc v \<le> unat (word_of_nat (cache_size vc - 1) :: ino_t)"
    unfolding vhash_def by (simp add: word_and_le1 flip: word_le_nat_alt)
  also have "\<dots> = cache_size vc - 1" using assms(2) by (simp add: unat_of_nat)
  finally show ?thesis using assms(1) by simp
qed

lemma vtable_find:
  assumes "vtable_ok vc key t" "vhash vc k < length t"
  shows "vlist_find key k (t ! vhash vc k) = Some c \<longleftrightarrow> c \<in> vtable_set t \<and> key c = k"
proof
  assume "vlist_find key k (t ! vhash vc k) = Some c"
  then show "c \<in> vtable_set t \<and> key c = k"
    using vlist_find_sound[of key k _ c] assms(2) by (auto simp: vtable_set_def)
next
  assume c: "c \<in> vtable_set t \<and> key c = k"
  then obtain b where b: "b < length t" "c \<in> set (t ! b)"
    by (auto simp: vtable_set_def)
  with assms(1) c have "vhash vc k = b" by (auto simp: vtable_ok_def)
  with b c assms(1) show "vlist_find key k (t ! vhash vc k) = Some c"
    using vlist_find_complete[of key "t ! b" c] by (auto simp: vtable_ok_def)
qed

lemma vtable_key_inj:
  assumes "vtable_ok vc key t" "c \<in> vtable_set t" "c' \<in> vtable_set t" "key c = key c'"
    "vhash vc (key c) < length t"
  shows "c = c'"
  using vtable_find[OF assms(1,5)] assms(2-4) by (metis option.inject)

lemma vtable_set_update:
  assumes "b < length t"
  shows "vtable_set (t[b := xs]) = (\<Union>i \<in> {..<length t} - {b}. set (t ! i)) \<union> set xs"
  using assms by (auto simp: vtable_set_def nth_list_update split: if_splits)

lemma vtable_set_nth: "b < length t \<Longrightarrow> vtable_set t = (\<Union>i \<in> {..<length t} - {b}. set (t ! i)) \<union> set (t ! b)"
  by (auto simp: vtable_set_def)

lemma vtable_insert:
  assumes "vtable_ok vc key t" "key e \<notin> key ` vtable_set t" "vhash vc (key e) < length t"
  defines "t' \<equiv> t[vhash vc (key e) := vlist_insert key e (t ! vhash vc (key e))]"
  shows "vtable_ok vc key t'" "vtable_set t' = insert e (vtable_set t)"
proof -
  have "key e \<notin> key ` set (t ! vhash vc (key e))"
    using assms(2,3) vtable_set_nth[OF assms(3)] by auto
  then show "vtable_ok vc key t'"
    using assms(1,3) unfolding vtable_ok_def t'_def
    by (auto simp: nth_list_update intro: sorted_vlist_insert)
  show "vtable_set t' = insert e (vtable_set t)"
    using vtable_set_nth[OF assms(3)] unfolding t'_def vtable_set_update[OF assms(3)] by auto
qed

lemma vtable_delete:
  assumes "vtable_ok vc key t" "b < length t" "t ! b = xs @ e # ys"
  shows "vtable_ok vc key (t[b := xs @ ys])" "vtable_set (t[b := xs @ ys]) = vtable_set t - {e}"
proof -
  have srt: "sorted_wrt (\<lambda>x y. sint (key x) < sint (key y)) (xs @ e # ys)"
    and hash: "\<And>i c. i < length t \<Longrightarrow> c \<in> set (t ! i) \<Longrightarrow> vhash vc (key c) = i"
    using assms by (auto simp: vtable_ok_def)
  then have e: "e \<notin> set xs \<union> set ys" by (auto simp: sorted_wrt_append)
  show "vtable_ok vc key (t[b := xs @ ys])"
    using assms srt hash by (auto simp: vtable_ok_def nth_list_update sorted_wrt_append)
  have "e \<notin> set (t ! i)" if "i < length t" "i \<noteq> b" for i
    using hash[of i e] hash[of b e] that assms(2,3) by auto
  then show "vtable_set (t[b := xs @ ys]) = vtable_set t - {e}"
    unfolding vtable_set_update[OF assms(2)] vtable_set_nth[OF assms(2)] using e assms(3) by auto
qed

subsection \<open>The cache\<close>

lemma vcache_okD:
  assumes "vcache_ok vc"
  shows "vtable_ok vc ve_vnid (by_vnid vc)" "vtable_ok vc ve_loc (by_loc vc)"
    "vtable_set (by_loc vc) = vtable_set (by_vnid vc)"
    "vhash vc v < length (by_vnid vc)" "vhash vc v < length (by_loc vc)"
  using assms vhash_less[of vc v] by (auto simp: vcache_ok_def vtable_ok_def)

lemma find_vnid_iff:
  "vcache_ok vc \<Longrightarrow> find_vnid_in_vcache vc v = Some e \<longleftrightarrow> e \<in> vtable_set (by_vnid vc) \<and> ve_vnid e = v"
  unfolding find_vnid_in_vcache_def by (intro vtable_find vcache_okD)

lemma find_loc_iff:
  "vcache_ok vc \<Longrightarrow> find_loc_in_vcache vc l = Some e \<longleftrightarrow> e \<in> vtable_set (by_vnid vc) \<and> ve_loc e = l"
  unfolding find_loc_in_vcache_def vcache_okD(3)[symmetric] by (intro vtable_find vcache_okD)

lemma vcache_entry_eta [simp]: "\<lparr>ve_vnid = ve_vnid e, ve_loc = ve_loc e\<rparr> = e"
  by (cases e) simp

lemma vmap_iff: "vcache_ok vc \<Longrightarrow> vmap vc v = Some l \<longleftrightarrow> \<lparr>ve_vnid = v, ve_loc = l\<rparr> \<in> vtable_set (by_vnid vc)"
  by (auto simp: vmap_def find_vnid_iff)

lemma vmap_inv_iff: "vcache_ok vc \<Longrightarrow> vmap_inv vc l = Some v \<longleftrightarrow> \<lparr>ve_vnid = v, ve_loc = l\<rparr> \<in> vtable_set (by_vnid vc)"
  by (auto simp: vmap_inv_def find_loc_iff)

lemma vmap_None: "vcache_ok vc \<Longrightarrow> vmap vc v = None \<longleftrightarrow> v \<notin> ve_vnid ` vtable_set (by_vnid vc)"
  by (auto simp: vmap_def find_vnid_iff image_iff dest: option.exhaust intro: ccontr)
     (metis find_vnid_iff not_Some_eq)+

lemma vmap_inv_None: "vcache_ok vc \<Longrightarrow> vmap_inv vc l = None \<longleftrightarrow> l \<notin> ve_loc ` vtable_set (by_vnid vc)"
  by (metis (no_types, lifting) find_loc_iff image_iff map_option_is_None not_Some_eq vmap_inv_def)

lemma vmap_eqI:
  assumes "vcache_ok vc" "\<And>v l. \<lparr>ve_vnid = v, ve_loc = l\<rparr> \<in> vtable_set (by_vnid vc) \<longleftrightarrow> f v = Some l"
  shows "vmap vc = f"
proof
  fix v
  show "vmap vc v = f v" by (rule option.expand) (metis vmap_iff[OF assms(1)] assms(2) option.collapse not_None_eq)+
qed

lemma add_to_vcache_spec:
  assumes ok: "vcache_ok vc" and v: "vmap vc v = None" and l: "vmap_inv vc l = None" and ne: "v \<noteq> l"
  defines "vc' \<equiv> snd (do_add_to_vcache True vc v l)"
  shows "vcache_ok vc'" "vmap vc' = (vmap vc)(v \<mapsto> l)"
proof -
  let ?e = "\<lparr>ve_vnid = v, ve_loc = l\<rparr>"
  note i1 = vtable_insert[OF vcache_okD(1)[OF ok], of ?e, simplified, OF _ vcache_okD(4)[OF ok, of v]]
  note i2 = vtable_insert[OF vcache_okD(2)[OF ok], of ?e, simplified, OF _ vcache_okD(5)[OF ok, of l]]
  have set: "vtable_set (by_vnid vc') = insert ?e (vtable_set (by_vnid vc))"
    using i1 v ok by (simp add: vc'_def do_add_to_vcache_def Let_def vmap_None)
  show "vcache_ok vc'"
    using ok i1 i2 v l ne by (auto simp: vcache_ok_def vc'_def do_add_to_vcache_def Let_def vmap_None vmap_inv_None)
  then show "vmap vc' = (vmap vc)(v \<mapsto> l)"
    by (rule vmap_eqI) (use v in \<open>auto simp: set vmap_iff[OF ok, symmetric]\<close>)
qed

lemma vlist_unlink_bucket:
  assumes "vcache_ok vc"
  shows "vlist_unlink v (by_vnid vc ! vhash vc v) = None \<longleftrightarrow> vmap vc v = None"
proof -
  have "find_vnid_in_vcache vc v \<noteq> None \<longleftrightarrow> v \<in> ve_vnid ` set (by_vnid vc ! vhash vc v)"
  proof
    assume "find_vnid_in_vcache vc v \<noteq> None"
    then show "v \<in> ve_vnid ` set (by_vnid vc ! vhash vc v)"
      using vlist_find_sound by (fastforce simp: find_vnid_in_vcache_def)
  next
    assume "v \<in> ve_vnid ` set (by_vnid vc ! vhash vc v)"
    then show "find_vnid_in_vcache vc v \<noteq> None"
      using vtable_set_nth[OF vcache_okD(4)[OF assms], of v] find_vnid_iff[OF assms, of v] by force
  qed
  then show ?thesis unfolding vlist_unlink_None vmap_def map_option_is_None by blast
qed

lemma remove_from_vcache_miss:
  "vcache_ok vc \<Longrightarrow> vmap vc v = None \<Longrightarrow> do_remove_from_vcache vc v = (ENOENT, vc)"
  by (simp add: do_remove_from_vcache_def vlist_unlink_bucket[THEN iffD2])

text \<open>A hit takes the same entry out of one bucket of either table.\<close>

lemma remove_from_vcache_hit:
  assumes ok: "vcache_ok vc" and v: "vmap vc v = Some l"
  defines "e \<equiv> \<lparr>ve_vnid = v, ve_loc = l\<rparr>"
  shows "\<exists>xs ys xs' ys'. by_vnid vc ! vhash vc v = xs @ e # ys \<and> by_loc vc ! vhash vc l = xs' @ e # ys'
    \<and> do_remove_from_vcache vc v = (0, vc\<lparr>by_vnid := (by_vnid vc)[vhash vc v := xs @ ys],
          by_loc := (by_loc vc)[vhash vc l := xs' @ ys']\<rparr>)"
proof -
  let ?E = "vtable_set (by_vnid vc)"
  have e: "e \<in> ?E" using v ok by (simp add: vmap_iff e_def)
  have uniq: "c = e" if "c \<in> ?E" "ve_vnid c = v" for c
    using vtable_key_inj[OF vcache_okD(1)[OF ok] that(1) e] that(2) vcache_okD(4)[OF ok] by (simp add: e_def)
  obtain c b where u1: "vlist_unlink v (by_vnid vc ! vhash vc v) = Some (c, b)"
    using vlist_unlink_bucket[OF ok, of v] v by (cases "vlist_unlink v (by_vnid vc ! vhash vc v)") auto
  then obtain xs ys where 1: "by_vnid vc ! vhash vc v = xs @ c # ys" "b = xs @ ys" "ve_vnid c = v"
    using vlist_unlink_Some by blast
  then have "c = e"
    using uniq[of c] vtable_set_nth[OF vcache_okD(4)[OF ok, of v]] by auto
  have "e \<in> set (by_loc vc ! vhash vc l)"
    using find_loc_iff[OF ok, of l e] e vlist_find_sound[of ve_loc l _ e] by (auto simp: e_def find_loc_in_vcache_def)
  then obtain c' b' where u2: "vlist_unlink v (by_loc vc ! vhash vc l) = Some (c', b')"
    using vlist_unlink_None[of v "by_loc vc ! vhash vc l"]
    by (cases "vlist_unlink v (by_loc vc ! vhash vc l)") (force simp: e_def)+
  then obtain xs' ys' where 2: "by_loc vc ! vhash vc l = xs' @ c' # ys'" "b' = xs' @ ys'" "ve_vnid c' = v"
    using vlist_unlink_Some by blast
  then have "c' = e"
    using uniq[of c'] vtable_set_nth[OF vcache_okD(5)[OF ok, of l]] vcache_okD(3)[OF ok] by auto
  with \<open>c = e\<close> u1 u2 1 2 show ?thesis
    by (intro exI[of _ xs] exI[of _ ys] exI[of _ xs'] exI[of _ ys'])
      (simp add: do_remove_from_vcache_def e_def)
qed

lemma remove_from_vcache_spec:
  assumes ok: "vcache_ok vc" and v: "vmap vc v = Some l"
  shows "fst (do_remove_from_vcache vc v) = 0" "vcache_ok (snd (do_remove_from_vcache vc v))"
    "vmap (snd (do_remove_from_vcache vc v)) = (vmap vc)(v := None)"
proof -
  let ?e = "\<lparr>ve_vnid = v, ve_loc = l\<rparr>" and ?vc' = "snd (do_remove_from_vcache vc v)"
  obtain xs ys xs' ys' where b: "by_vnid vc ! vhash vc v = xs @ ?e # ys" "by_loc vc ! vhash vc l = xs' @ ?e # ys'"
    and r: "do_remove_from_vcache vc v = (0, vc\<lparr>by_vnid := (by_vnid vc)[vhash vc v := xs @ ys],
          by_loc := (by_loc vc)[vhash vc l := xs' @ ys']\<rparr>)"
    using remove_from_vcache_hit[OF ok v] by blast
  note d1 = vtable_delete[OF vcache_okD(1)[OF ok] vcache_okD(4)[OF ok] b(1)]
  note d2 = vtable_delete[OF vcache_okD(2)[OF ok] vcache_okD(5)[OF ok] b(2)]
  show "fst (do_remove_from_vcache vc v) = 0" by (simp add: r)
  show ok': "vcache_ok ?vc'"
    using ok d1 d2 by (auto simp: vcache_ok_def r)
  have uniq: "l' = l" if "\<lparr>ve_vnid = v, ve_loc = l'\<rparr> \<in> vtable_set (by_vnid vc)" for l'
    using that v vmap_iff[OF ok, of v l'] by simp
  show "vmap ?vc' = (vmap vc)(v := None)"
    using ok' by (rule vmap_eqI) (use d1(2) uniq in \<open>auto simp: r vmap_iff[OF ok]\<close>)
qed

subsection \<open>The interface\<close>

text \<open>What the rest of the file system relies on: a table of vnode ids with two inverse
  look-ups, in which a fresh pair can be entered and a vnode id forgotten.\<close>

locale vnid_table =
  fixes ok :: "'t \<Rightarrow> bool"
    and to_loc :: "'t \<Rightarrow> ino_t \<Rightarrow> ino_t option" and to_vnid :: "'t \<Rightarrow> ino_t \<Rightarrow> ino_t option"
    and put :: "'t \<Rightarrow> ino_t \<Rightarrow> ino_t \<Rightarrow> 't" and del :: "'t \<Rightarrow> ino_t \<Rightarrow> 't"
  assumes inverse: "ok t \<Longrightarrow> to_loc t v = Some l \<longleftrightarrow> to_vnid t l = Some v"
    and moved: "ok t \<Longrightarrow> to_loc t v \<noteq> Some v"
    and put: "ok t \<Longrightarrow> to_loc t v = None \<Longrightarrow> to_vnid t l = None \<Longrightarrow> v \<noteq> l
      \<Longrightarrow> ok (put t v l) \<and> to_loc (put t v l) = (to_loc t)(v \<mapsto> l)"
    and del: "ok t \<Longrightarrow> to_loc t v = Some l \<Longrightarrow> ok (del t v) \<and> to_loc (del t v) = (to_loc t)(v := None)"
begin

definition locate :: "'t \<Rightarrow> ino_t \<Rightarrow> ino_t" where
  "locate t v = (case to_loc t v of Some l \<Rightarrow> l | None \<Rightarrow> v)"

definition relocate :: "'t \<Rightarrow> ino_t \<Rightarrow> ino_t \<Rightarrow> 't" where
  "relocate t v l = (case to_loc t v of
      Some _ \<Rightarrow> if v = l then del t v else put (del t v) v l
    | None \<Rightarrow> if v \<noteq> l then put t v l else t)"

text \<open>A location is free for \<open>v\<close> when the table gives it to no other vnode id.\<close>

definition free_for :: "'t \<Rightarrow> ino_t \<Rightarrow> ino_t \<Rightarrow> bool" where
  "free_for t v l \<longleftrightarrow> to_vnid t l \<in> {None, Some v}"

lemma to_loc_inj: "ok t \<Longrightarrow> to_loc t v = Some l \<Longrightarrow> to_loc t v' = Some l \<Longrightarrow> v = v'"
  using inverse[of t v l] inverse[of t v' l] by simp

lemma free_after_del:
  "ok t \<Longrightarrow> to_loc t v = Some l' \<Longrightarrow> free_for t v l \<Longrightarrow> to_vnid (del t v) l = None"
proof (rule ccontr)
  assume t: "ok t" "to_loc t v = Some l'" "free_for t v l" and "to_vnid (del t v) l \<noteq> None"
  then obtain w where "to_vnid (del t v) l = Some w" by blast
  then have "((to_loc t)(v := None)) w = Some l"
    using del[OF t(1,2)] inverse[of "del t v" w l] by simp
  then show False
    using inverse[OF t(1), of w l] t(3) by (auto simp: free_for_def split: if_splits)
qed

lemma relocate:
  assumes "ok t" "free_for t v l"
  shows "ok (relocate t v l)"
    and "to_loc (relocate t v l) = (to_loc t)(v := if v = l then None else Some l)"
proof -
  have "ok (relocate t v l) \<and> to_loc (relocate t v l) = (to_loc t)(v := if v = l then None else Some l)"
  proof (cases "to_loc t v")
    case None
    moreover have "to_vnid t l = None"
      using assms None inverse[of t v l] by (auto simp: free_for_def)
    ultimately show ?thesis
      using put[of t v l] assms(1) by (auto simp: relocate_def fun_upd_idem)
  next
    case (Some l')
    then show ?thesis
      using del[OF assms(1) Some] put[of "del t v" v l] free_after_del[OF assms(1) Some assms(2)]
      by (auto simp: relocate_def)
  qed
  then show "ok (relocate t v l)"
    "to_loc (relocate t v l) = (to_loc t)(v := if v = l then None else Some l)" by auto
qed

lemma locate_relocate:
  "ok t \<Longrightarrow> free_for t v l \<Longrightarrow> locate (relocate t v l) = (locate t)(v := l)"
  by (auto simp: locate_def relocate fun_eq_iff)

end

interpretation vc: vnid_table vcache_ok vmap vmap_inv vcache_put vcache_del
proof
  show "vmap vc v = Some l \<longleftrightarrow> vmap_inv vc l = Some v" if "vcache_ok vc" for vc v l
    using that by (simp add: vmap_iff vmap_inv_iff)
  show "vmap vc v \<noteq> Some v" if "vcache_ok vc" for vc v
    using that by (auto simp: vmap_iff) (force simp: vcache_ok_def)
  show "vcache_ok (vcache_put vc v l) \<and> vmap (vcache_put vc v l) = (vmap vc)(v \<mapsto> l)"
    if "vcache_ok vc" "vmap vc v = None" "vmap_inv vc l = None" "v \<noteq> l" for vc v l
    using add_to_vcache_spec[OF that] by (simp add: vcache_put_def)
  show "vcache_ok (vcache_del vc v) \<and> vmap (vcache_del vc v) = (vmap vc)(v := None)"
    if "vcache_ok vc" "vmap vc v = Some l" for vc v l
    using remove_from_vcache_spec[OF that] by (simp add: vcache_del_def)
qed

lemma vcache_set_entry_relocate:
  assumes "vcache_ok vc"
  shows "vcache_set_entry True vc v l = (B_OK, vc.relocate vc v l)"
proof (cases "vmap vc v")
  case None
  then have "find_vnid_in_vcache vc v = None" by (simp add: vmap_def)
  with None show ?thesis
    by (simp add: vcache_set_entry_def vc.relocate_def do_add_to_vcache_def vcache_put_def Let_def)
next
  case (Some l')
  then obtain e where e: "find_vnid_in_vcache vc v = Some e" "ve_vnid e = v"
    using find_vnid_iff[OF assms] by (auto simp: vmap_def)
  obtain vc' where vc': "do_remove_from_vcache vc v = (0, vc')"
    using remove_from_vcache_spec(1)[OF assms Some] by (metis prod.collapse)
  show ?thesis
    by (cases "v = l") (use e Some vc' in \<open>simp_all add: vcache_set_entry_def vc.relocate_def
      update_loc_in_vcache_def vcache_put_def vcache_del_def do_add_to_vcache_def Let_def B_OK_def\<close>)
qed

lemma locate_vloc: "vc.locate = vloc"
  by (simp add: fun_eq_iff vc.locate_def vloc_def)

lemma free_for_iff:
  "vcache_ok vc \<Longrightarrow> vc.free_for vc v l \<longleftrightarrow> (\<forall>w. vmap vc w = Some l \<longrightarrow> w = v)"
  using vc.inverse[of vc _ l] by (cases "vmap_inv vc l") (auto simp: vc.free_for_def)

text \<open>The empty tables of a fresh cache.\<close>

lemma init_vcache_ok: "vcache_ok (snd (init_vcache True True vc))" "vmap (snd (init_vcache True True vc)) = Map.empty"
proof -
  let ?vc = "snd (init_vcache True True vc)"
  have hash: "vhash ?vc v < 512" for v
    using vhash_less[of ?vc v] by (simp add: init_vcache_def Let_def)
  show "vcache_ok ?vc"
    by (auto simp: vcache_ok_def vtable_ok_def vtable_set_def init_vcache_def Let_def)
  show "vmap ?vc = Map.empty"
    using hash by (auto simp: vmap_def find_vnid_in_vcache_def init_vcache_def Let_def fun_eq_iff)
qed

lemma vcache_ok_cur_vnid [simp]: "vcache_ok (vc\<lparr>cur_vnid := n\<rparr>) = vcache_ok vc"
  by (simp add: vcache_ok_def)

lemma vmap_cur_vnid [simp]: "vmap (vc\<lparr>cur_vnid := n\<rparr>) = vmap vc"
  by (simp add: vmap_def find_vnid_in_vcache_def fun_eq_iff)

lemma set_entry_no_memory:
  assumes "vcache_ok vc" "vmap vc v = Some l'" "v \<noteq> l"
  shows "vcache_set_entry False vc v l = (ENOMEM, vcache_del vc v)"
proof -
  obtain e where e: "find_vnid_in_vcache vc v = Some e" "ve_vnid e = v"
    using find_vnid_iff[OF assms(1)] assms(2) by (auto simp: vmap_def)
  obtain vc' where vc': "do_remove_from_vcache vc v = (0, vc')"
    using remove_from_vcache_spec(1)[OF assms(1,2)] by (metis prod.collapse)
  then show ?thesis
    using e assms(3) by (simp add: vcache_set_entry_def update_loc_in_vcache_def do_add_to_vcache_def
        vcache_del_def Let_def)
qed

lemma set_entry_no_memory_fresh:
  "vmap vc v = None \<Longrightarrow> vcache_set_entry False vc v l = (if v = l then B_OK else ENOMEM, vc)"
  by (simp add: vcache_set_entry_def do_add_to_vcache_def vmap_def)

lemma set_entry_back: "vcache_ok vc \<Longrightarrow> vcache_set_entry mem vc v v = vcache_set_entry True vc v v"
  using find_vnid_iff[of vc v "the (find_vnid_in_vcache vc v)"]
  by (cases "find_vnid_in_vcache vc v") (simp_all add: vcache_set_entry_def)

lemma set_entry_ok:
  assumes "vcache_ok vc" "\<forall>w. vmap vc w = Some l \<longrightarrow> w = v"
  shows "vcache_ok (snd (vcache_set_entry mem vc v l))"
proof (cases "mem \<or> v = l")
  case True
  then have "vcache_set_entry mem vc v l = vcache_set_entry True vc v l"
    using set_entry_back[OF assms(1)] by auto
  then show ?thesis
    using vc.relocate(1)[of vc v l] assms by (simp add: vcache_set_entry_relocate free_for_iff)
next
  case False
  then show ?thesis
    using assms(1) vc.del[of vc v] set_entry_no_memory[of vc v _ l] set_entry_no_memory_fresh[of vc v l]
    by (cases "vmap vc v") auto
qed

lemma vcache_reach_ok: "vcache_reach vc \<Longrightarrow> vcache_ok vc"
proof (induction rule: vcache_reach.induct)
  case (init vc)
  show ?case by (rule init_vcache_ok)
next
  case (set_entry vc l v mem)
  then show ?case by (simp add: set_entry_ok)
next
  case (add vc v l mem)
  then have "vmap_inv vc l = None" using vc.inverse[of vc _ l] by (cases "vmap_inv vc l") auto
  with add show ?case
    using vc.put[of vc v l]
    by (cases mem) (simp_all add: add_to_vcache_def vcache_put_def do_add_to_vcache_def Let_def)
next
  case (remove vc v)
  then show ?case
    using vc.del[of vc v] remove_from_vcache_miss[of vc v]
    by (cases "vmap vc v") (simp_all add: remove_from_vcache_def vcache_del_def)
next
  case (unique vc)
  then show ?case by (simp add: generate_unique_vnid_def)
qed

subsection \<open>Properties\<close>

text \<open>C32: in every state that the cache can get into, the two look-ups are inverse to each other,
  each vnode id has at most one location and each location at most one vnode id, and a failing
  look-up reports \<^verbatim>\<open>ENOENT\<close>.\<close>

theorem vcache_lookups_inverse:
  assumes "vcache_reach vc"
  shows "(vcache_vnid_to_loc vc v = (B_OK, Some l) \<longleftrightarrow> vcache_loc_to_vnid vc l = (B_OK, Some v))
    \<and> vcache_vnid_to_loc vc v \<noteq> (B_OK, Some v)
    \<and> vcache_vnid_to_loc vc v \<in> insert (ENOENT, None) (range (\<lambda>l. (B_OK, Some l)))
    \<and> vcache_loc_to_vnid vc l \<in> insert (ENOENT, None) (range (\<lambda>v. (B_OK, Some v)))"
proof -
  note ok = vcache_reach_ok[OF assms]
  have "vcache_vnid_to_loc vc v = (case vmap vc v of Some l \<Rightarrow> (B_OK, Some l) | None \<Rightarrow> (ENOENT, None))"
    "vcache_loc_to_vnid vc l = (case vmap_inv vc l of Some v \<Rightarrow> (B_OK, Some v) | None \<Rightarrow> (ENOENT, None))"
    by (auto simp: vcache_vnid_to_loc_def vcache_loc_to_vnid_def vmap_def vmap_inv_def split: option.splits)
  then show ?thesis
    using vc.inverse[OF ok, of v l] vc.moved[OF ok, of v] by (auto split: option.splits)
qed

theorem vcache_lookups_inverse_witness:
  "\<exists>vc. vcache_reach vc \<and> vcache_loc_to_vnid vc 9 = (B_OK, Some 7) \<and> vcache_vnid_to_loc vc 7 = (B_OK, Some 9)"
proof -
  define vc0 where "vc0 = snd (init_vcache True True \<lparr>cur_vnid = 0, cache_size = 0, by_vnid = [], by_loc = []\<rparr>)"
  define vc where "vc = snd (vcache_set_entry True vc0 7 9)"
  have "vcache_reach vc0" unfolding vc0_def by (rule vcache_reach.init)
  moreover have e: "vmap vc0 = Map.empty" unfolding vc0_def by (rule init_vcache_ok)
  ultimately have r: "vcache_reach vc" unfolding vc_def by (intro vcache_reach.set_entry) auto
  have "vmap vc 7 = Some 9"
    using \<open>vcache_reach vc0\<close> e
    by (simp add: vc_def vcache_set_entry_relocate vcache_reach_ok vc.relocate free_for_iff)
  then have "vcache_vnid_to_loc vc 7 = (B_OK, Some 9)"
    by (auto simp: vcache_vnid_to_loc_def vmap_def split: option.splits)
  with r vcache_lookups_inverse[OF r, of 7 9] show ?thesis by blast
qed

text \<open>C33: after a successful \<^verbatim>\<open>vcache_set_entry\<close> the vnode id is at the new location, every other
  vnode id is where it was, and the tables are well formed; moving a file back to the location its
  id describes removes the entry.\<close>

theorem vcache_set_entry_moves:
  assumes "vcache_ok vc" "\<forall>w. vmap vc w = Some loc \<longrightarrow> w = vnid"
  shows "\<exists>vc'. vcache_set_entry True vc vnid loc = (B_OK, vc') \<and> vcache_ok vc'
     \<and> vloc vc' = (vloc vc)(vnid := loc) \<and> (vnid = loc \<longrightarrow> vmap vc' vnid = None)"
  using vc.relocate[of vc vnid loc] vc.locate_relocate[of vc vnid loc] assms
  by (cases "vnid = loc") (auto simp: vcache_set_entry_relocate free_for_iff locate_vloc)

theorem vcache_set_entry_moves_witness:
  "\<exists>vc vc'. vcache_ok vc \<and> vcache_set_entry True vc 7 9 = (B_OK, vc') \<and> vloc vc' 7 = 9"
proof -
  define vc where "vc = snd (init_vcache True True \<lparr>cur_vnid = 0, cache_size = 0, by_vnid = [], by_loc = []\<rparr>)"
  have ok: "vcache_ok vc" and e: "vmap vc = Map.empty" unfolding vc_def by (rule init_vcache_ok)+
  show ?thesis using vcache_set_entry_moves[OF ok, of 9 7] ok e by auto
qed

text \<open>When memory runs out while a moved file moves again, \<^verbatim>\<open>vcache_set_entry\<close> reports \<^verbatim>\<open>ENOMEM\<close> but
  the old entry is already gone: the vnode id stands for the location it was first given for, where
  the file no longer is.\<close>

theorem vcache_set_entry_no_memory:
  assumes "vcache_ok vc" "vmap vc vnid = Some old" "vnid \<noteq> loc"
  shows "\<exists>vc'. vcache_set_entry False vc vnid loc = (ENOMEM, vc') \<and> vcache_ok vc'
     \<and> vloc vc' = (vloc vc)(vnid := vnid) \<and> vloc vc' vnid \<noteq> old"
  using set_entry_no_memory[OF assms] vc.del[OF assms(1,2)] vc.moved[OF assms(1), of vnid] assms(2)
  by (auto simp: vloc_def fun_eq_iff)

theorem vcache_set_entry_no_memory_witness:
  "\<exists>vc vc'. vloc vc 7 = 9 \<and> vcache_set_entry False vc 7 11 = (ENOMEM, vc') \<and> vloc vc' 7 = 7"
proof -
  define vc0 where "vc0 = snd (init_vcache True True \<lparr>cur_vnid = 0, cache_size = 0, by_vnid = [], by_loc = []\<rparr>)"
  have ok: "vcache_ok vc0" and e: "vmap vc0 = Map.empty" unfolding vc0_def by (rule init_vcache_ok)+
  define vc where "vc = vc.relocate vc0 7 9"
  have "vcache_ok vc" "vmap vc 7 = Some 9" using vc.relocate[OF ok, of 7 9] e ok by (simp_all add: vc_def free_for_iff)
  then have "vloc vc 7 = 9" "\<exists>vc'. vcache_set_entry False vc 7 11 = (ENOMEM, vc') \<and> vloc vc' 7 = 7"
    using vcache_set_entry_no_memory[of vc 7 9 11] by (auto simp: vloc_def[of vc])
  then show ?thesis by blast
qed

lemma generate_vnids_map: "generate_vnids n vc = map (\<lambda>i. cur_vnid vc + word_of_nat i) [0..<n]"
proof (induction n arbitrary: vc)
  case (Suc n)
  have "map (\<lambda>i. cur_vnid vc + word_of_nat i) [0..<Suc n]
      = cur_vnid vc # map (\<lambda>i. cur_vnid vc + 1 + word_of_nat i) [0..<n]"
    by (simp only: upt_conv_Cons[OF zero_less_Suc] map_Suc_upt[symmetric] list.map map_map comp_def)
      (simp add: add.assoc)
  with Suc show ?case by (simp add: generate_unique_vnid_def Let_def)
qed simp

lemma artificial_vnid:
  assumes "i < 2 ^ 60"
  shows "IS_ARTIFICIAL_VNID (ARTIFICIAL_VNID_BITS + word_of_nat i)"
    "\<not> IS_INVALID_VNID (ARTIFICIAL_VNID_BITS + word_of_nat i)"
proof -
  let ?w = "word_of_nat i :: ino_t"
  have "unat ?w < 2 ^ 60" using assms by (simp add: unat_of_nat)
  then have lo: "n < 60" if "bit ?w n" for n
    using not_bit_less[of ?w 60 n] that by (intro not_le_imp_less notI) simp
  then have "ARTIFICIAL_VNID_BITS AND ?w = 0"
    by (intro bit_eqI) (auto simp: bit_and_iff bit_vnid_masks dest: lo)
  then have "ARTIFICIAL_VNID_BITS + ?w = ARTIFICIAL_VNID_BITS OR ?w"
    by (simp add: disjunctive_add_eq_or)
  then have bits: "bit (ARTIFICIAL_VNID_BITS + ?w) n \<longleftrightarrow> n = 61 \<or> n = 62 \<or> bit ?w n" for n
    by (simp add: bit_or_iff bit_vnid_masks)
  have "bit (ARTIFICIAL_VNID_BITS + ?w) 62" "bit (ARTIFICIAL_VNID_BITS + ?w) 61"
    "\<not> bit (ARTIFICIAL_VNID_BITS + ?w) 60" "\<not> bit (ARTIFICIAL_VNID_BITS + ?w) 63"
    unfolding bits using lo[of 60] lo[of 63] by auto
  then show "IS_ARTIFICIAL_VNID (ARTIFICIAL_VNID_BITS + ?w)" "\<not> IS_INVALID_VNID (ARTIFICIAL_VNID_BITS + ?w)"
    unfolding IS_INVALID_VNID_def vnid_kind_bits by blast+
qed

text \<open>The first \<open>2 ^ 60\<close> ids that a fresh cache generates are pairwise distinct, artificial and valid,
  so none of them equals an id that encodes a location.\<close>

theorem generate_unique_vnid_unique:
  assumes "n \<le> 2 ^ 60"
  shows "distinct (generate_vnids n (snd (init_vcache True True vc)))
    \<and> list_all (\<lambda>v. IS_ARTIFICIAL_VNID v \<and> \<not> IS_INVALID_VNID v \<and> \<not> IS_DIR_CLUSTER_VNID v \<and> \<not> IS_DIR_INDEX_VNID v)
        (generate_vnids n (snd (init_vcache True True vc)))"
proof -
  have g: "generate_vnids n (snd (init_vcache True True vc))
      = map (\<lambda>i. ARTIFICIAL_VNID_BITS + word_of_nat i) [0..<n]"
    by (simp add: generate_vnids_map init_vcache_def Let_def)
  have "inj_on (\<lambda>i. ARTIFICIAL_VNID_BITS + (word_of_nat i :: ino_t)) {0..<n}"
  proof (rule inj_onI)
    fix i j assume "i \<in> {0..<n}" "j \<in> {0..<n}"
      and "ARTIFICIAL_VNID_BITS + (word_of_nat i :: ino_t) = ARTIFICIAL_VNID_BITS + word_of_nat j"
    then have "unat (word_of_nat i :: ino_t) = unat (word_of_nat j :: ino_t)" "i < 2 ^ 64" "j < 2 ^ 64"
      using assms by simp_all
    then show "i = j" by (simp add: unat_of_nat)
  qed
  then have "distinct (generate_vnids n (snd (init_vcache True True vc)))"
    by (simp add: g distinct_map)
  moreover have "IS_ARTIFICIAL_VNID v \<and> \<not> IS_INVALID_VNID v \<and> \<not> IS_DIR_CLUSTER_VNID v \<and> \<not> IS_DIR_INDEX_VNID v"
    if "v \<in> set (generate_vnids n (snd (init_vcache True True vc)))" for v
    using that assms artificial_vnid vnid_kind_bits[of v] by (auto simp: g)
  ultimately show ?thesis by (simp add: list_all_iff)
qed

theorem generate_unique_vnid_unique_witness:
  "distinct (generate_vnids 3 (snd (init_vcache True True \<lparr>cur_vnid = 0, cache_size = 0, by_vnid = [], by_loc = []\<rparr>)))"
  using generate_unique_vnid_unique[of 3] by simp

end
