(* ===== verification/DList.thy ===== *)
theory DList
  imports VCache
begin

text \<open>
  The directory list of \<^verbatim>\<open>fat/dlist.c\<close>: a growing array with the vnode ids of the
  directories seen so far, searched by starting cluster through the vnode id cache.

  \<^verbatim>\<open>malloc\<close> is an argument \<open>mem\<close>: for a number of elements it gives \<open>None\<close> or a block of that
  many elements with arbitrary contents. The \<^verbatim>\<open>NULL\<close> array is the empty list.
\<close>

section \<open>Definitions\<close>

definition DLIST_ENTRY_QUANTUM :: nat where
  "DLIST_ENTRY_QUANTUM = 0x20"

record dlist =
  dl_entries :: nat
  dl_allocated :: nat
  vnid_list :: "ino_t list"

type_synonym vnid_malloc = "nat \<Rightarrow> ino_t list option"

definition dlist_init :: "vnid_malloc \<Rightarrow> dlist \<Rightarrow> status_t \<times> dlist" where
  "dlist_init mem dl =
     (let dl = dl\<lparr>dl_entries := 0, dl_allocated := DLIST_ENTRY_QUANTUM\<rparr>
      in case mem (dl_allocated dl) of
           None \<Rightarrow> (ENOMEM, dl\<lparr>vnid_list := [], dl_allocated := 0\<rparr>)
         | Some xs \<Rightarrow> (B_OK, dl\<lparr>vnid_list := xs\<rparr>))"

definition dlist_uninit :: "dlist \<Rightarrow> status_t \<times> dlist" where
  "dlist_uninit dl = (B_OK, dl\<lparr>dl_entries := 0, dl_allocated := 0, vnid_list := []\<rparr>)"

definition dlist_realloc :: "vnid_malloc \<Rightarrow> dlist \<Rightarrow> nat \<Rightarrow> status_t \<times> dlist" where
  "dlist_realloc mem dl allocate =
     (case mem allocate of
        None \<Rightarrow> (ENOMEM, dl)
      | Some xs \<Rightarrow> (B_OK, dl\<lparr>vnid_list := memcpy_at xs 0 (take (dl_entries dl) (vnid_list dl)),
                            dl_allocated := allocate\<rparr>))"

definition dlist_add :: "vnid_malloc \<Rightarrow> dlist \<Rightarrow> ino_t \<Rightarrow> status_t \<times> dlist" where
  "dlist_add mem dl vnid =
     (let (res, dl) =
        (if dl_entries dl = dl_allocated dl
         then dlist_realloc mem dl (u32 (dl_allocated dl + DLIST_ENTRY_QUANTUM)) else (B_OK, dl))
      in if res < 0 then (B_ERROR, dl)
         else (B_OK, dl\<lparr>vnid_list := (vnid_list dl)[dl_entries dl := vnid],
                        dl_entries := u32 (dl_entries dl + 1)\<rparr>))"

text \<open>The search loop of \<open>dlist_remove\<close>.\<close>

function dlist_index :: "ino_t list \<Rightarrow> nat \<Rightarrow> ino_t \<Rightarrow> nat \<Rightarrow> nat" where
  "dlist_index xs entries vnid i =
     (if i < entries then if xs ! i = vnid then i else dlist_index xs entries vnid (i + 1) else i)"
  by pat_completeness auto
termination
  by (relation "measure (\<lambda>(xs, entries, vnid, i). entries - i)") auto

text \<open>The loop that closes the gap.\<close>

function dlist_shift :: "ino_t list \<Rightarrow> nat \<Rightarrow> nat \<Rightarrow> ino_t list" where
  "dlist_shift xs entries i =
     (if i < u32_minus entries 1 then dlist_shift (xs[i := xs ! (i + 1)]) entries (i + 1) else xs)"
  by pat_completeness auto
termination
  by (relation "measure (\<lambda>(xs, entries, i). u32_minus entries 1 - i)") auto

declare dlist_index.simps [simp del] dlist_shift.simps [simp del]

definition dlist_remove :: "vnid_malloc \<Rightarrow> dlist \<Rightarrow> ino_t \<Rightarrow> status_t \<times> dlist" where
  "dlist_remove mem dl vnid =
     (let i = dlist_index (vnid_list dl) (dl_entries dl) vnid 0
      in if i = dl_entries dl then (ENOENT, dl)
         else let dl = dl\<lparr>vnid_list := dlist_shift (vnid_list dl) (dl_entries dl) i,
                          dl_entries := u32_minus (dl_entries dl) 1\<rparr>
              in if u32_minus (dl_allocated dl) (dl_entries dl) > 2 * DLIST_ENTRY_QUANTUM
                 then dlist_realloc mem dl (u32_minus (dl_allocated dl) DLIST_ENTRY_QUANTUM)
                 else (B_OK, dl))"

text \<open>The loop of \<open>dlist_find\<close> over the first \<open>entries\<close> elements; \<open>-1LL\<close> when none matches.\<close>

fun dlist_search :: "vcache \<Rightarrow> ino_t list \<Rightarrow> nat \<Rightarrow> ino_t" where
  "dlist_search vc [] cluster = - 1"
| "dlist_search vc (vnid # vs) cluster =
     (let loc = (case vcache_vnid_to_loc vc vnid of
                   (res, Some loc) \<Rightarrow> if res < B_OK then vnid else loc
                 | (res, None) \<Rightarrow> vnid)
      in if CLUSTER_OF_DIR_CLUSTER_VNID loc = cluster then vnid else dlist_search vc vs cluster)"

definition dlist_find :: "vcache \<Rightarrow> dlist \<Rightarrow> nat \<Rightarrow> ino_t" where
  "dlist_find vc dl cluster = dlist_search vc (take (dl_entries dl) (vnid_list dl)) cluster"

subsection \<open>Invariant and abstraction\<close>

definition malloc_ok :: "vnid_malloc \<Rightarrow> bool" where
  "malloc_ok mem \<longleftrightarrow> (\<forall>n xs. mem n = Some xs \<longrightarrow> length xs = n)"

definition dlist_ok :: "dlist \<Rightarrow> bool" where
  "dlist_ok dl \<longleftrightarrow> length (vnid_list dl) = dl_allocated dl \<and> dl_entries dl \<le> dl_allocated dl
     \<and> dl_allocated dl < 2 ^ 32 - DLIST_ENTRY_QUANTUM"

definition dlist_abs :: "dlist \<Rightarrow> ino_t list" where
  "dlist_abs dl = take (dl_entries dl) (vnid_list dl)"

text \<open>The starting cluster of the directory \<open>vnid\<close>, wherever it is now.\<close>

definition dir_cluster :: "vcache \<Rightarrow> ino_t \<Rightarrow> nat" where
  "dir_cluster vc vnid = CLUSTER_OF_DIR_CLUSTER_VNID (vloc vc vnid)"

section \<open>Theorems\<close>

lemma dlist_index_spec:
  "i \<le> entries \<Longrightarrow> entries \<le> length xs \<Longrightarrow> vnid \<notin> set (take i xs) \<Longrightarrow>
   (let k = dlist_index xs entries vnid i in k \<le> entries \<and> vnid \<notin> set (take k xs) \<and> (k < entries \<longrightarrow> xs ! k = vnid))"
proof (induction xs entries vnid i rule: dlist_index.induct)
  case (1 xs entries vnid i)
  show ?case
  proof (cases "i < entries \<and> xs ! i \<noteq> vnid")
    case True
    then have "vnid \<notin> set (take (i + 1) xs)"
      using 1 by (auto simp: take_Suc_conv_app_nth)
    then show ?thesis
      using 1 True by (subst dlist_index.simps) simp
  next
    case False
    then show ?thesis using 1 by (subst dlist_index.simps) auto
  qed
qed

lemma dlist_shift_spec:
  "entries \<le> length xs \<Longrightarrow> entries < 2 ^ 32 \<Longrightarrow> i < entries \<Longrightarrow>
   length (dlist_shift xs entries i) = length xs
   \<and> take (entries - 1) (dlist_shift xs entries i) = take i xs @ drop (i + 1) (take entries xs)"
proof (induction xs entries i rule: dlist_shift.induct)
  case (1 xs entries i)
  show ?case
  proof (cases "i < entries - 1")
    case True
    let ?ys = "xs[i := xs ! (i + 1)]"
    have "length (dlist_shift ?ys entries (i + 1)) = length ?ys
        \<and> take (entries - 1) (dlist_shift ?ys entries (i + 1)) = take (i + 1) ?ys @ drop (i + 1 + 1) (take entries ?ys)"
      using True 1(1) 1(2-4) by simp
    moreover have "take (i + 1) ?ys @ drop (i + 1 + 1) (take entries ?ys) = take i xs @ drop (i + 1) (take entries xs)"
    proof -
      have "take (i + 1) ?ys = take i xs @ [xs ! (i + 1)]"
        using True 1(2) by (simp add: take_Suc_conv_app_nth list_update_append)
      moreover have "take (entries - (i + 1)) (drop (i + 1) xs)
          = xs ! (i + 1) # take (entries - (i + 1 + 1)) (drop (i + 1 + 1) xs)"
        using True 1(2) by (simp add: Cons_nth_drop_Suc[symmetric] take_Cons' del: take_append)
      ultimately show ?thesis using True by (simp add: drop_take)
    qed
    ultimately show ?thesis using True 1(2-4) by (subst (1 2) dlist_shift.simps) simp
  next
    case False
    then have "i = entries - 1" using 1(4) by simp
    then show ?thesis using 1(2-4) by (subst (1 2) dlist_shift.simps) (simp add: drop_take)
  qed
qed

lemma dlist_realloc_spec:
  assumes "malloc_ok mem" "dlist_ok dl" "dl_entries dl \<le> n" "n < 2 ^ 32 - DLIST_ENTRY_QUANTUM"
    "dlist_realloc mem dl n = (res, dl')"
  shows "dlist_ok dl' \<and> dlist_abs dl' = dlist_abs dl \<and> dl_entries dl' = dl_entries dl
     \<and> (res = B_OK \<and> dl_allocated dl' = n \<or> res = ENOMEM \<and> dl' = dl)"
  using assms by (auto simp: dlist_realloc_def malloc_ok_def dlist_ok_def dlist_abs_def memcpy_at_def
      min_def split: option.splits)

lemma dlist_add_spec:
  assumes "malloc_ok mem" "dlist_ok dl" "dl_allocated dl < 2 ^ 32 - 2 * DLIST_ENTRY_QUANTUM"
    "dlist_add mem dl v = (res, dl')"
  shows "dlist_ok dl' \<and> (res = B_OK \<and> dlist_abs dl' = dlist_abs dl @ [v] \<or> res = B_ERROR \<and> dl' = dl)"
proof (cases "dl_entries dl = dl_allocated dl")
  case True
  obtain r dl1 where r: "dlist_realloc mem dl (dl_allocated dl + DLIST_ENTRY_QUANTUM) = (r, dl1)"
    by fastforce
  then have 1: "dlist_ok dl1 \<and> dlist_abs dl1 = dlist_abs dl \<and> dl_entries dl1 = dl_entries dl
      \<and> (r = B_OK \<and> dl_allocated dl1 = dl_allocated dl + DLIST_ENTRY_QUANTUM \<or> r = ENOMEM \<and> dl1 = dl)"
    using assms(1-3) True
    by (intro dlist_realloc_spec[of mem _ "dl_allocated dl + DLIST_ENTRY_QUANTUM"]) (simp_all add: DLIST_ENTRY_QUANTUM_def)
  have q: "u32 (dl_allocated dl + DLIST_ENTRY_QUANTUM) = dl_allocated dl + DLIST_ENTRY_QUANTUM"
    using assms(3) by (simp add: DLIST_ENTRY_QUANTUM_def)
  show ?thesis
    using 1 r assms(3,4) True unfolding dlist_add_def q
    by (auto simp: errno_defs dlist_ok_def dlist_abs_def DLIST_ENTRY_QUANTUM_def take_Suc_conv_app_nth)
next
  case False
  then show ?thesis
    using assms(2-4) by (auto simp: dlist_add_def errno_defs dlist_ok_def dlist_abs_def
        DLIST_ENTRY_QUANTUM_def take_Suc_conv_app_nth)
qed

lemma dlist_remove_miss:
  assumes "dlist_ok dl" "v \<notin> set (dlist_abs dl)"
  shows "dlist_remove mem dl v = (ENOENT, dl)"
proof -
  let ?k = "dlist_index (vnid_list dl) (dl_entries dl) v 0"
  have k: "?k \<le> dl_entries dl" "?k < dl_entries dl \<Longrightarrow> vnid_list dl ! ?k = v"
    using dlist_index_spec[of 0 "dl_entries dl" "vnid_list dl" v] assms(1) by (auto simp: dlist_ok_def Let_def)
  have "?k = dl_entries dl"
  proof (rule ccontr)
    assume "?k \<noteq> dl_entries dl"
    with k assms(1) have "v \<in> set (dlist_abs dl)"
      by (auto simp: dlist_abs_def dlist_ok_def in_set_conv_nth intro!: exI[of _ ?k])
    with assms(2) show False ..
  qed
  then show ?thesis by (simp add: dlist_remove_def)
qed

lemma remove1_at:
  "v \<notin> set (take k xs) \<Longrightarrow> k < length xs \<Longrightarrow> xs ! k = v \<Longrightarrow> remove1 v xs = take k xs @ drop (k + 1) xs"
  by (subst id_take_nth_drop[of k xs]) (auto simp: remove1_append)

lemma dlist_remove_hit:
  assumes "malloc_ok mem" "dlist_ok dl" "v \<in> set (dlist_abs dl)" "dlist_remove mem dl v = (res, dl')"
  shows "dlist_ok dl' \<and> dlist_abs dl' = remove1 v (dlist_abs dl) \<and> res \<in> {B_OK, ENOMEM}"
proof -
  let ?xs = "vnid_list dl" and ?n = "dl_entries dl"
  define k where "k = dlist_index ?xs ?n v 0"
  have n: "?n \<le> length ?xs" "?n < 2 ^ 32" "dl_allocated dl < 2 ^ 32" "length ?xs = dl_allocated dl"
    using assms(2) by (auto simp: dlist_ok_def DLIST_ENTRY_QUANTUM_def)
  then have k: "k \<le> ?n" "v \<notin> set (take k ?xs)" "k < ?n \<Longrightarrow> ?xs ! k = v"
    using dlist_index_spec[of 0 ?n ?xs v] by (auto simp: k_def Let_def)
  then have kn: "k < ?n" using assms(3) by (cases "k = ?n") (auto simp: dlist_abs_def)
  define dl1 where "dl1 = dl\<lparr>vnid_list := dlist_shift ?xs ?n k, dl_entries := ?n - 1\<rparr>"
  have s: "length (dlist_shift ?xs ?n k) = length ?xs"
    "take (?n - 1) (dlist_shift ?xs ?n k) = take k ?xs @ drop (k + 1) (take ?n ?xs)"
    using dlist_shift_spec[OF n(1,2) kn] by auto
  have ok1: "dlist_ok dl1" using assms(2) s by (auto simp: dlist_ok_def dl1_def)
  have "dlist_abs dl1 = remove1 v (dlist_abs dl)"
    using remove1_at[of v k "take ?n ?xs"] k kn n s by (simp add: dlist_abs_def dl1_def min_absorb2)
  moreover have "dlist_remove mem dl v = (if dl_allocated dl1 - dl_entries dl1 > 2 * DLIST_ENTRY_QUANTUM
      then dlist_realloc mem dl1 (dl_allocated dl1 - DLIST_ENTRY_QUANTUM) else (B_OK, dl1))"
  proof -
    have m: "u32_minus ?n 1 = ?n - 1" "u32_minus (dl_allocated dl) (?n - 1) = dl_allocated dl - (?n - 1)"
      using n kn by (simp_all only: u32_minus_id; simp)+
    show ?thesis
    proof (cases "dl_allocated dl - (?n - 1) > 2 * DLIST_ENTRY_QUANTUM")
      case True
      then have "u32_minus (dl_allocated dl) DLIST_ENTRY_QUANTUM = dl_allocated dl - DLIST_ENTRY_QUANTUM"
        using n by (intro u32_minus_id) simp_all
      then show ?thesis using kn m unfolding dlist_remove_def k_def[symmetric] dl1_def by (simp add: Let_def)
    next
      case False
      then show ?thesis using kn m unfolding dlist_remove_def k_def[symmetric] dl1_def by (simp add: Let_def)
    qed
  qed
  moreover have "dl_allocated dl1 - DLIST_ENTRY_QUANTUM < 2 ^ 32 - DLIST_ENTRY_QUANTUM"
    using ok1 unfolding dlist_ok_def by linarith
  ultimately show ?thesis
    using assms(4) ok1 dlist_realloc_spec[OF assms(1) ok1, of "dl_allocated dl1 - DLIST_ENTRY_QUANTUM" res dl']
    by (cases "dl_allocated dl1 - dl_entries dl1 > 2 * DLIST_ENTRY_QUANTUM") auto
qed

lemma dlist_search_find:
  "dlist_search vc vs cluster = (case List.find (\<lambda>v. dir_cluster vc v = cluster) vs of Some v \<Rightarrow> v | None \<Rightarrow> - 1)"
proof (induction vs)
  case (Cons v vs)
  have "(case vcache_vnid_to_loc vc v of (res, Some loc) \<Rightarrow> if res < B_OK then v else loc | (res, None) \<Rightarrow> v) = vloc vc v"
    by (auto simp: vcache_vnid_to_loc_def vloc_def vmap_def split: option.splits)
  with Cons show ?case by (simp add: dir_cluster_def Let_def)
qed simp

subsection \<open>The interface\<close>

text \<open>A list of directories over a vnode id table: a directory is found by the cluster of its
  present location.\<close>

locale dir_list = vnid_table ok to_loc to_vnid put del
  for ok :: "'t \<Rightarrow> bool" and to_loc to_vnid put del +
  fixes dirs :: "'d \<Rightarrow> ino_t list" and find_dir :: "'t \<Rightarrow> 'd \<Rightarrow> nat \<Rightarrow> ino_t"
  assumes find_dir: "find_dir t d c
      = (case List.find (\<lambda>v. CLUSTER_OF_DIR_CLUSTER_VNID (locate t v) = c) (dirs d) of Some v \<Rightarrow> v | None \<Rightarrow> - 1)"
begin

definition cluster_of :: "'t \<Rightarrow> ino_t \<Rightarrow> nat" where
  "cluster_of t v = CLUSTER_OF_DIR_CLUSTER_VNID (locate t v)"

definition dirs_distinct :: "'t \<Rightarrow> 'd \<Rightarrow> bool" where
  "dirs_distinct t d \<longleftrightarrow> inj_on (cluster_of t) (set (dirs d))"

lemma find_dir_unique:
  assumes "dirs_distinct t d" "v \<in> set (dirs d)"
  shows "find_dir t d (cluster_of t v) = v"
proof -
  have "List.find (\<lambda>w. cluster_of t w = cluster_of t v) (dirs d) \<noteq> None"
    using assms(2) by (auto simp: find_None_iff)
  then obtain w where w: "List.find (\<lambda>w. cluster_of t w = cluster_of t v) (dirs d) = Some w" by blast
  then have "w \<in> set (dirs d)" "cluster_of t w = cluster_of t v"
    by (auto simp: find_Some_iff)
  with assms have "w = v" by (auto simp: dirs_distinct_def inj_on_def)
  with w show ?thesis by (simp add: find_dir cluster_of_def)
qed

lemma find_dir_none: "c \<notin> cluster_of t ` set (dirs d) \<Longrightarrow> find_dir t d c = - 1"
proof -
  assume "c \<notin> cluster_of t ` set (dirs d)"
  then have "List.find (\<lambda>w. CLUSTER_OF_DIR_CLUSTER_VNID (locate t w) = c) (dirs d) = None"
    by (auto simp: find_None_iff cluster_of_def)
  then show ?thesis by (simp add: find_dir)
qed

text \<open>Moving one directory keeps the others where they are.\<close>

lemma find_dir_relocate:
  assumes "ok t" "free_for t v l" "dirs_distinct t d" "v \<in> set (dirs d)" "w \<in> set (dirs d)"
    and "\<forall>u \<in> set (dirs d). u \<noteq> v \<longrightarrow> cluster_of t u \<noteq> CLUSTER_OF_DIR_CLUSTER_VNID l"
  shows "find_dir (relocate t v l) d (if w = v then CLUSTER_OF_DIR_CLUSTER_VNID l else cluster_of t w) = w"
proof -
  have c: "cluster_of (relocate t v l) = (cluster_of t)(v := CLUSTER_OF_DIR_CLUSTER_VNID l)"
    using locate_relocate[OF assms(1,2)] by (auto simp: cluster_of_def fun_eq_iff)
  have "dirs_distinct (relocate t v l) d"
    unfolding dirs_distinct_def
  proof (rule inj_onI)
    fix a b assume ab: "a \<in> set (dirs d)" "b \<in> set (dirs d)" "cluster_of (relocate t v l) a = cluster_of (relocate t v l) b"
    then show "a = b"
      using assms(3,6) unfolding c dirs_distinct_def inj_on_def by (metis fun_upd_apply)
  qed
  from find_dir_unique[OF this assms(5)] show ?thesis by (simp add: c split: if_splits)
qed

end

interpretation dl: dir_list vcache_ok vmap vmap_inv vcache_put vcache_del dlist_abs dlist_find
  by unfold_locales (simp add: dlist_find_def dlist_search_find dlist_abs_def dir_cluster_def locate_vloc)

lemma cluster_of_dir_cluster: "dl.cluster_of = dir_cluster"
  by (simp add: fun_eq_iff dl.cluster_of_def dir_cluster_def locate_vloc)

subsection \<open>Properties\<close>

text \<open>C34: the growing and shrinking array implements a list of vnode ids. Adding appends or, when
  memory runs out, reports \<^verbatim>\<open>B_ERROR\<close> and changes nothing; removing takes out one occurrence,
  also when giving memory back fails, and reports \<^verbatim>\<open>ENOENT\<close> for an id that is not there. No store
  leaves the array.\<close>

theorem dlist_implements_list:
  assumes "malloc_ok mem" "dlist_ok dl" "dl_allocated dl < 2 ^ 32 - 2 * DLIST_ENTRY_QUANTUM"
  shows "(case dlist_add mem dl v of (res, dl') \<Rightarrow> dlist_ok dl'
         \<and> (res = B_OK \<and> dlist_abs dl' = dlist_abs dl @ [v] \<or> res = B_ERROR \<and> dl' = dl))
     \<and> (case dlist_remove mem dl v of (res, dl') \<Rightarrow> dlist_ok dl'
         \<and> (if v \<in> set (dlist_abs dl) then dlist_abs dl' = remove1 v (dlist_abs dl) \<and> res \<in> {B_OK, ENOMEM}
            else res = ENOENT \<and> dl' = dl))"
  using dlist_add_spec[OF assms, of v "fst (dlist_add mem dl v)" "snd (dlist_add mem dl v)"]
    dlist_remove_hit[OF assms(1,2), of v "fst (dlist_remove mem dl v)" "snd (dlist_remove mem dl v)"]
    dlist_remove_miss[OF assms(2), of v mem] assms(2)
  by (auto simp: split_beta)

theorem dlist_implements_list_witness:
  "\<exists>dl'. dlist_remove (\<lambda>n. Some (replicate n 0)) \<lparr>dl_entries = 2, dl_allocated = 2, vnid_list = [5, 7]\<rparr> 5
      = (B_OK, dl') \<and> dlist_abs dl' = [7]"
proof -
  let ?dl = "\<lparr>dl_entries = 2, dl_allocated = 2, vnid_list = [5, 7]\<rparr>" and ?mem = "\<lambda>n. Some (replicate n (0::ino_t))"
  have "case dlist_remove ?mem ?dl 5 of (res, dl') \<Rightarrow> dlist_abs dl' = [7]"
    using dlist_implements_list[of ?mem ?dl 5]
    by (simp add: malloc_ok_def dlist_ok_def DLIST_ENTRY_QUANTUM_def split_beta) (simp add: dlist_abs_def)
  moreover have "fst (dlist_remove ?mem ?dl 5) = B_OK"
    by (simp add: dlist_remove_def dlist_index.simps DLIST_ENTRY_QUANTUM_def)
  ultimately show ?thesis by (cases "dlist_remove ?mem ?dl 5") auto
qed

text \<open>While the directories of the list start at different clusters, \<^verbatim>\<open>dlist_find\<close> gives the vnode id
  of the directory that starts at a cluster, also for a directory that moved after its id was given
  out (\<^verbatim>\<open>vcache_set_entry\<close>), and \<open>-1\<close> for a cluster where none starts.\<close>

theorem dlist_find_after_move:
  assumes "vcache_ok vc" "\<forall>w. vmap vc w = Some loc \<longrightarrow> w = vnid" "vnid \<in> set (dlist_abs dl)"
    and "inj_on (dir_cluster vc) (set (dlist_abs dl))"
    and "\<forall>u \<in> set (dlist_abs dl). u \<noteq> vnid \<longrightarrow> dir_cluster vc u \<noteq> CLUSTER_OF_DIR_CLUSTER_VNID loc"
  defines "vc' \<equiv> snd (vcache_set_entry True vc vnid loc)"
  shows "dlist_find vc' dl (CLUSTER_OF_DIR_CLUSTER_VNID loc) = vnid
    \<and> (\<forall>w \<in> set (dlist_abs dl). w \<noteq> vnid \<longrightarrow> dlist_find vc' dl (dir_cluster vc w) = w)
    \<and> (\<forall>c. c \<notin> dir_cluster vc' ` set (dlist_abs dl) \<longrightarrow> dlist_find vc' dl c = - 1)"
proof -
  have vc': "vc' = vc.relocate vc vnid loc" using assms(1) by (simp add: vc'_def vcache_set_entry_relocate)
  have "vc.free_for vc vnid loc" using assms(1,2) by (simp add: free_for_iff)
  moreover have "dl.dirs_distinct vc dl" using assms(4) by (simp add: dl.dirs_distinct_def cluster_of_dir_cluster)
  ultimately have f: "dlist_find vc' dl (if w = vnid then CLUSTER_OF_DIR_CLUSTER_VNID loc else dir_cluster vc w) = w"
    if "w \<in> set (dlist_abs dl)" for w
    using dl.find_dir_relocate[of vc vnid loc dl w] assms(1,3,5) that
    unfolding cluster_of_dir_cluster vc' by blast
  have "dlist_find vc' dl (CLUSTER_OF_DIR_CLUSTER_VNID loc) = vnid" using f[OF assms(3)] by simp
  moreover have "dlist_find vc' dl (dir_cluster vc w) = w" if "w \<in> set (dlist_abs dl)" "w \<noteq> vnid" for w
    using f[OF that(1)] that(2) by simp
  ultimately show ?thesis
    using dl.find_dir_none[of _ vc' dl] unfolding cluster_of_dir_cluster by blast
qed

theorem dlist_find_after_move_witness:
  "\<exists>vc. dlist_find vc \<lparr>dl_entries = 2, dl_allocated = 2, vnid_list = [5, 7]\<rparr> 9 = 7"
proof -
  define vc where "vc = snd (init_vcache True True \<lparr>cur_vnid = 0, cache_size = 0, by_vnid = [], by_loc = []\<rparr>)"
  have ok: "vcache_ok vc" and e: "vmap vc = Map.empty" unfolding vc_def by (rule init_vcache_ok)+
  have c: "dir_cluster vc v = unat (v AND 0xffffffff)" for v
    using e by (simp add: dir_cluster_def CLUSTER_OF_DIR_CLUSTER_VNID_def vloc_def)
  have "dlist_find (snd (vcache_set_entry True vc 7 9)) \<lparr>dl_entries = 2, dl_allocated = 2, vnid_list = [5, 7]\<rparr>
      (CLUSTER_OF_DIR_CLUSTER_VNID 9) = 7"
    using dlist_find_after_move[OF ok, of 9 7 "\<lparr>dl_entries = 2, dl_allocated = 2, vnid_list = [5, 7]\<rparr>"] e c
    by (simp add: dlist_abs_def CLUSTER_OF_DIR_CLUSTER_VNID_def)
  then show ?thesis by (auto simp: CLUSTER_OF_DIR_CLUSTER_VNID_def)
qed

end
