(* ===== verification/Volume.thy ===== *)
theory Volume
  imports DList
begin

text \<open>
  The state of a mounted volume: \<^verbatim>\<open>struct vnode\<close> and \<^verbatim>\<open>struct nspace\<close> of \<^verbatim>\<open>fat/dosfs.h\<close>, the
  block cache behind \<^verbatim>\<open>fBlockCache\<close>, and the cluster classes of \<^verbatim>\<open>fat/fat.h\<close>.

  The block cache is a kernel service. What the file system sees of it is a
  map from block numbers to block contents: a block that is missing cannot be read, and
  getting it fails. A pointer to a cached block is the block's number, so two pointers to one block are
  the same block. Reference counts and transactions (the code passes \<open>-1\<close>) are not modelled. A
  store through the \<^verbatim>\<open>NULL\<close> pointer sets the ghost field \<open>fault\<close>.

  Left out of the two structures: locks, the file descriptor and the device name. Of the file cache object of a
  vnode the model has whether there is one (\<open>vn_cache\<close>); the file map object is left out.
\<close>

section \<open>Definitions\<close>

record vnode =
  vn_vnid :: ino_t
  vn_dir_vnid :: ino_t
  vn_disk_image :: nat
  vn_iteration :: nat
  vn_sindex :: nat
  vn_eindex :: nat
  vn_cluster :: nat
  vn_mode :: nat
  vn_st_size :: int
  vn_st_time :: int
  vn_end_cluster :: nat
  vn_mime :: "string option"
  vn_dirty :: bool
  vn_filename :: "block option"
  vn_cache :: bool

definition FAT_READ_ONLY :: nat where "FAT_READ_ONLY = 1"
definition FAT_HIDDEN :: nat where "FAT_HIDDEN = 2"
definition FAT_SYSTEM :: nat where "FAT_SYSTEM = 4"
definition FAT_VOLUME :: nat where "FAT_VOLUME = 8"
definition FAT_SUBDIR :: nat where "FAT_SUBDIR = 16"
definition FAT_ARCHIVE :: nat where "FAT_ARCHIVE = 32"

record nspace =
  vol_id :: int
  vol_flags :: nat
  fBlockCache :: "nat \<Rightarrow> block option"
  bytes_per_sector :: nat
  sectors_per_cluster :: nat
  reserved_sectors :: nat
  fat_count :: nat
  root_entries_count :: nat
  total_sectors :: nat
  sectors_per_fat :: nat
  media_descriptor :: u8
  fsinfo_sector :: nat
  total_clusters :: nat
  free_clusters :: nat
  fat_bits :: nat
  fat_mirrored :: bool
  active_fat :: nat
  root_start :: nat
  root_sectors :: nat
  root_vnode :: vnode
  vol_entry :: int
  vol_label :: block
  data_start :: nat
  last_allocated :: nat
  beos_vnid :: ino_t
  respect_disk_image :: bool
  fs_flags :: nat
  vol_vcache :: vcache
  vol_dlist :: dlist
  fault :: bool

definition IS_DATA_CLUSTER :: "nspace \<Rightarrow> int \<Rightarrow> bool" where
  "IS_DATA_CLUSTER vol cluster \<longleftrightarrow> cluster \<ge> 2 \<and> u32_of_int cluster < u32 (total_clusters vol + 2)"

definition IS_FIXED_ROOT :: "nat \<Rightarrow> bool" where
  "IS_FIXED_ROOT cluster \<longleftrightarrow> cluster = 1"

subsection \<open>The block cache\<close>

text \<open>\<^verbatim>\<open>block_cache_get\<close> and \<^verbatim>\<open>block_cache_get_writable\<close>: a pointer to the block or \<^verbatim>\<open>NULL\<close>.\<close>

definition block_cache_get :: "nspace \<Rightarrow> nat \<Rightarrow> nat option" where
  "block_cache_get vol bn = (if fBlockCache vol bn = None then None else Some bn)"

text \<open>Loads and stores through such a pointer.\<close>

definition block_data :: "nspace \<Rightarrow> nat \<Rightarrow> block" where
  "block_data vol bn = (case fBlockCache vol bn of Some b \<Rightarrow> b | None \<Rightarrow> [])"

definition block_store :: "nspace \<Rightarrow> nat \<Rightarrow> block \<Rightarrow> nspace" where
  "block_store vol bn b = vol\<lparr>fBlockCache := (fBlockCache vol)(bn \<mapsto> b)\<rparr>"

section \<open>Lemmas\<close>

lemma IS_DATA_CLUSTER_nat [simp]:
  "c < 2 ^ 32 \<Longrightarrow> total_clusters vol + 2 < 2 ^ 32 \<Longrightarrow>
   IS_DATA_CLUSTER vol (int c) \<longleftrightarrow> 2 \<le> c \<and> c < total_clusters vol + 2"
  by (simp add: IS_DATA_CLUSTER_def)

lemma block_data_store [simp]: "block_data (block_store vol bn b) bn' = (if bn' = bn then b else block_data vol bn')"
  by (simp add: block_data_def block_store_def)

lemma block_cache_get_Some: "block_cache_get vol bn = Some p \<longleftrightarrow> p = bn \<and> fBlockCache vol bn \<noteq> None"
  by (auto simp: block_cache_get_def)

lemma block_cache_get_None: "block_cache_get vol bn = None \<longleftrightarrow> fBlockCache vol bn = None"
  by (simp add: block_cache_get_def)

lemma block_cache_get_hit [simp]:
  "fBlockCache vol bn \<noteq> None \<Longrightarrow> block_cache_get vol bn = Some bn"
  "fBlockCache vol bn = None \<Longrightarrow> block_cache_get vol bn = None"
  by (simp_all add: block_cache_get_def)

lemma block_cache_get_store [simp]:
  "fBlockCache vol bn \<noteq> None \<Longrightarrow> block_cache_get (block_store vol bn b) = block_cache_get vol"
  by (auto simp: block_cache_get_def block_store_def fun_eq_iff)

lemma fBlockCache_store [simp]: "fBlockCache (block_store vol bn b) = (fBlockCache vol)(bn \<mapsto> b)"
  by (simp add: block_store_def)

lemma block_store_frame [frame_simps]:
  "total_clusters (block_store vol bn b) = total_clusters vol"
  "free_clusters (block_store vol bn b) = free_clusters vol"
  "fat_bits (block_store vol bn b) = fat_bits vol"
  "bytes_per_sector (block_store vol bn b) = bytes_per_sector vol"
  "sectors_per_fat (block_store vol bn b) = sectors_per_fat vol"
  "reserved_sectors (block_store vol bn b) = reserved_sectors vol"
  "active_fat (block_store vol bn b) = active_fat vol"
  "fat_count (block_store vol bn b) = fat_count vol"
  "fat_mirrored (block_store vol bn b) = fat_mirrored vol"
  "fault (block_store vol bn b) = fault vol"
  by (simp_all add: block_store_def)

end
