(* ===== verification/Fat_Entries.thy ===== *)
theory Fat_Entries
  imports Fat_Table
begin

text \<open>
  Reading and writing single entries of the file allocation table. The active table is seen as a sequence
  of bytes (\<open>fat_byte\<close>) and as a function from clusters to entries (\<open>fat_raw\<close>); \<open>fat_ok\<close> says that the
  geometry of the volume is consistent and that the sectors of all its tables can be read. The
  theory shows that the get action of \<^verbatim>\<open>_fat_ioctl_\<close> reads \<open>fat_raw\<close>, that the set action
  changes exactly one entry of it in all three formats, also where a 12 bit entry crosses from one sector
  to the next, and that mirrored tables stay equal.
\<close>

section \<open>Definitions\<close>

definition fat_start :: "nspace \<Rightarrow> nat" where
  "fat_start vol = reserved_sectors vol + active_fat vol * sectors_per_fat vol"

definition fat_size :: "nspace \<Rightarrow> nat" where
  "fat_size vol = sectors_per_fat vol * bytes_per_sector vol"

text \<open>The byte offset of an entry.\<close>

definition fat_pos :: "nspace \<Rightarrow> nat \<Rightarrow> nat" where
  "fat_pos vol c = c * fat_bits vol div 8"

definition fat_byte :: "nspace \<Rightarrow> nat \<Rightarrow> nat" where
  "fat_byte vol k = unat (block_data vol (fat_start vol + k div bytes_per_sector vol) ! (k mod bytes_per_sector vol))"

text \<open>The entry of a cluster, values above the largest cluster extended to 28 bits.\<close>

definition fat_raw :: "nspace \<Rightarrow> nat \<Rightarrow> nat" where
  "fat_raw vol c =
     (let o1 = fat_pos vol c
      in if fat_bits vol = 12 then fat12_value c (fat_byte vol o1 + 256 * fat_byte vol (o1 + 1))
         else if fat_bits vol = 16 then
           let v = fat_byte vol o1 + 256 * fat_byte vol (o1 + 1)
           in if v > 0xfff0 then v + 0x0fff0000 else v
         else (fat_byte vol o1 + 256 * fat_byte vol (o1 + 1) + 65536 * fat_byte vol (o1 + 2)
               + 16777216 * fat_byte vol (o1 + 3)) mod 2 ^ 28)"

text \<open>What is left of a value when it is stored and read back.\<close>

definition fat_norm :: "nspace \<Rightarrow> nat \<Rightarrow> nat" where
  "fat_norm vol v =
     (if fat_bits vol = 12 then let w = v mod 4096 in if w > 0xff0 then w + 0x0ffff000 else w
      else if fat_bits vol = 16 then let w = v mod 65536 in if w > 0xfff0 then w + 0x0fff0000 else w
      else v mod 2 ^ 28)"

definition fat_ok :: "nspace \<Rightarrow> bool" where
  "fat_ok vol \<longleftrightarrow>
     fat_bits vol \<in> {12, 16, 32} \<and> 8 \<le> bytes_per_sector vol \<and> bytes_per_sector vol mod 4 = 0
     \<and> (total_clusters vol + 2) * fat_bits vol \<le> fat_size vol * 8
     \<and> (total_clusters vol + 2) * fat_bits vol < 2 ^ 32
     \<and> (fat_bits vol = 12 \<longrightarrow> total_clusters vol + 1 \<le> 0xff0)
     \<and> (fat_bits vol = 16 \<longrightarrow> total_clusters vol + 1 \<le> 0xfff0)
     \<and> active_fat vol < fat_count vol
     \<and> reserved_sectors vol + fat_count vol * sectors_per_fat vol < 2 ^ 32
     \<and> (\<forall>i < fat_count vol. \<forall>s < sectors_per_fat vol.
          \<exists>b. fBlockCache vol (reserved_sectors vol + i * sectors_per_fat vol + s) = Some b
              \<and> length b = bytes_per_sector vol)"

text \<open>All copies of the table are equal.\<close>

definition fats_mirrored :: "nspace \<Rightarrow> bool" where
  "fats_mirrored vol \<longleftrightarrow>
     (\<forall>i < fat_count vol. \<forall>s < sectors_per_fat vol.
        fBlockCache vol (reserved_sectors vol + i * sectors_per_fat vol + s)
          = fBlockCache vol (fat_start vol + s))"

text \<open>The cache after sector \<open>s\<close> of the table has been set to \<open>b\<close> in the active table and its mirrors.\<close>

definition fat_sector_cache :: "nspace \<Rightarrow> nat \<Rightarrow> block \<Rightarrow> nat \<Rightarrow> block option" where
  "fat_sector_cache vol s b bn =
     (if \<exists>i < fat_count vol. (i = active_fat vol \<or> fat_mirrored vol)
            \<and> bn = reserved_sectors vol + i * sectors_per_fat vol + s
      then Some b else fBlockCache vol bn)"

definition put_fat_sector :: "nspace \<Rightarrow> nat \<Rightarrow> block \<Rightarrow> nspace" where
  "put_fat_sector vol s b = vol\<lparr>fBlockCache := fat_sector_cache vol s b\<rparr>"

text \<open>Storing an entry, sector by sector.\<close>

definition fat_put :: "nspace \<Rightarrow> nat \<Rightarrow> nat \<Rightarrow> nspace" where
  "fat_put vol c v =
     (let o1 = fat_pos vol c; bps = bytes_per_sector vol; s = o1 div bps; k = o1 mod bps;
          b = block_data vol (fat_start vol + s)
      in if fat_bits vol = 12 then
           let ormask = fat12_ormask c v; andmask = fat12_andmask c;
               b = b[k := (b ! k AND word_of_nat andmask) OR word_of_nat ormask];
               upd = (\<lambda>x. (x AND word_of_nat (andmask div 256)) OR word_of_nat (ormask div 256))
           in if k = bps - 1 then
                let vol = put_fat_sector vol s b; b2 = block_data vol (fat_start vol + (s + 1))
                in put_fat_sector vol (s + 1) (b2[0 := upd (b2 ! 0)])
              else put_fat_sector vol s (b[k + 1 := upd (b ! (k + 1))])
         else if fat_bits vol = 16 then put_fat_sector vol s (write16 b k v)
         else put_fat_sector vol s (write32 b k v))"

text \<open>The local variables of the loop at an entry, and behind it: \<open>fat_adv\<close> is the sector of the
  entry's last byte.\<close>

definition fat_at :: "nspace \<Rightarrow> fat_st \<Rightarrow> nat \<Rightarrow> bool" where
  "fat_at vol st c \<longleftrightarrow> f_cluster st = c
     \<and> f_sector st = fat_start vol + fat_pos vol c div bytes_per_sector vol
     \<and> f_offset st = fat_pos vol c mod bytes_per_sector vol \<and> f_block1 st = f_sector st"

definition fat_adv :: "nspace \<Rightarrow> nat \<Rightarrow> nat" where
  "fat_adv vol c = fat_pos vol c div bytes_per_sector vol
     + (if fat_bits vol = 12 \<and> fat_pos vol c mod bytes_per_sector vol = bytes_per_sector vol - 1 then 1 else 0)"

definition fat_next :: "nspace \<Rightarrow> fat_st \<Rightarrow> nat \<Rightarrow> nat \<Rightarrow> fat_st" where
  "fat_next vol st c v =
     st\<lparr>f_value := v, f_sector := fat_start vol + fat_adv vol c,
        f_offset := fat_pos vol (c + 1) - fat_adv vol c * bytes_per_sector vol,
        f_block1 := fat_start vol + fat_adv vol c\<rparr>"

text \<open>Whether an action stores at an entry with value \<open>v\<close>.\<close>

definition fat_stores :: "fat_action \<Rightarrow> nat \<Rightarrow> bool" where
  "fat_stores action v \<longleftrightarrow> action = ALLOCATE_N_ENTRIES \<and> v = 0 \<or> action = SET_ENTRY"

section \<open>Theorems\<close>

subsection \<open>Sectors of the tables\<close>

lemma fat_okD:
  assumes "fat_ok vol"
  shows "fat_bits vol = 12 \<or> fat_bits vol = 16 \<or> fat_bits vol = 32" "8 \<le> bytes_per_sector vol"
    "0 < bytes_per_sector vol" "bytes_per_sector vol mod 4 = 0"
    "(total_clusters vol + 2) * fat_bits vol \<le> fat_size vol * 8"
    "(total_clusters vol + 2) * fat_bits vol < 2 ^ 32" "active_fat vol < fat_count vol"
    "fat_bits vol = 12 \<Longrightarrow> total_clusters vol + 1 \<le> 0xff0"
    "fat_bits vol = 16 \<Longrightarrow> total_clusters vol + 1 \<le> 0xfff0"
    "reserved_sectors vol + fat_count vol * sectors_per_fat vol < 2 ^ 32"
  using assms by (auto simp: fat_ok_def)

lemma fat_sector_present:
  assumes "fat_ok vol" "i < fat_count vol" "s < sectors_per_fat vol"
  obtains b where "fBlockCache vol (reserved_sectors vol + i * sectors_per_fat vol + s) = Some b"
    "length b = bytes_per_sector vol"
  using assms by (auto simp: fat_ok_def)

lemma fat_sector_less:
  assumes "fat_ok vol" "i < fat_count vol" "s < sectors_per_fat vol"
  shows "reserved_sectors vol + i * sectors_per_fat vol + s < 2 ^ 32"
proof -
  have "i * sectors_per_fat vol + s < (i + 1) * sectors_per_fat vol" using assms(3) by simp
  also have "\<dots> \<le> fat_count vol * sectors_per_fat vol" using assms(2) by (intro mult_right_mono) simp_all
  finally show ?thesis using fat_okD(10)[OF assms(1)] by linarith
qed

lemma fat_sector_inj:
  fixes spf :: nat
  assumes "r + i * spf + s = r + j * spf + t" "s < spf" "t < spf"
  shows "i = j \<and> s = t"
proof -
  have "(s + i * spf) div spf = (t + j * spf) div spf" "(s + i * spf) mod spf = (t + j * spf) mod spf"
    using assms(1) by (simp_all add: add.commute)
  then show ?thesis using assms(2,3) by simp
qed

lemma fat_start_present:
  assumes "fat_ok vol" "s < sectors_per_fat vol"
  shows "fBlockCache vol (fat_start vol + s) \<noteq> None"
    "length (block_data vol (fat_start vol + s)) = bytes_per_sector vol"
    "fat_start vol + s < 2 ^ 32"
proof -
  note a = fat_okD(7)[OF assms(1)]
  obtain b where b: "fBlockCache vol (fat_start vol + s) = Some b" "length b = bytes_per_sector vol"
    using fat_sector_present[OF assms(1) a assms(2)] unfolding fat_start_def by blast
  then show "fBlockCache vol (fat_start vol + s) \<noteq> None"
    "length (block_data vol (fat_start vol + s)) = bytes_per_sector vol"
    by (simp_all add: block_data_def)
  show "fat_start vol + s < 2 ^ 32"
    using fat_sector_less[OF assms(1) a assms(2)] unfolding fat_start_def .
qed

lemma fat_start_bound:
  assumes "fat_ok vol"
  shows "fat_start vol < 2 ^ 32" "active_fat vol * sectors_per_fat vol < 2 ^ 32"
proof -
  have "active_fat vol * sectors_per_fat vol \<le> fat_count vol * sectors_per_fat vol"
    using fat_okD(7)[OF assms] by (intro mult_right_mono) simp_all
  then show "fat_start vol < 2 ^ 32" "active_fat vol * sectors_per_fat vol < 2 ^ 32"
    using fat_okD(10)[OF assms] unfolding fat_start_def by linarith+
qed

lemma fat_base_start: "fat_ok vol \<Longrightarrow> fat_base vol = fat_start vol"
  using fat_start_bound[of vol] unfolding fat_base_def by (simp add: fat_start_def)

text \<open>The mirroring loop.\<close>

lemma mirror_fold:
  assumes ok: "fat_ok vol" and s: "s < sectors_per_fat vol"
    and len: "length (block_data vol (fat_start vol + s)) = bytes_per_sector vol" and n: "n \<le> fat_count vol"
  shows "fold (mirror_fat (reserved_sectors vol + s) (fat_start vol + s)) [0..<n] vol
    = vol\<lparr>fBlockCache := \<lambda>bn. if \<exists>i<n. i \<noteq> active_fat vol \<and> bn = reserved_sectors vol + i * sectors_per_fat vol + s
        then Some (block_data vol (fat_start vol + s)) else fBlockCache vol bn\<rparr>"
  using n
proof (induction n)
  case 0
  then show ?case by simp
next
  case (Suc n)
  let ?r = "reserved_sectors vol" and ?f = "sectors_per_fat vol"
  let ?B = "block_data vol (fat_start vol + s)"
  let ?C = "\<lambda>n bn. if \<exists>i<n. i \<noteq> active_fat vol \<and> bn = ?r + i * ?f + s then Some ?B else fBlockCache vol bn"
  let ?v = "vol\<lparr>fBlockCache := ?C n\<rparr>"
  have "fold (mirror_fat (?r + s) (fat_start vol + s)) [0..<Suc n] vol = mirror_fat (?r + s) (fat_start vol + s) n ?v"
    using Suc by simp
  also have "\<dots> = vol\<lparr>fBlockCache := ?C (Suc n)\<rparr>"
  proof (cases "n = active_fat vol")
    case True
    then have "?C (Suc n) = ?C n" by (auto simp: fun_eq_iff less_Suc_eq)
    with True show ?thesis by (simp add: mirror_fat_def)
  next
    case False
    have bn: "u32 (?r + s + n * ?f) = ?r + n * ?f + s"
      using fat_sector_less[OF ok _ s, of n] Suc.prems by (simp add: ac_simps)
    obtain b where b: "fBlockCache vol (?r + n * ?f + s) = Some b" "length b = bytes_per_sector vol"
      using fat_sector_present[OF ok _ s, of n] Suc.prems by auto
    have nex: "\<not> (\<exists>i<n. i \<noteq> active_fat vol \<and> ?r + n * ?f + s = ?r + i * ?f + s)"
      using fat_sector_inj[OF _ s s, of ?r n] by blast
    have Cn: "?C n (?r + n * ?f + s) = Some b" unfolding if_not_P[OF nex] by (rule b(1))
    have nbuf: "\<not> (\<exists>i<n. i \<noteq> active_fat vol \<and> fat_start vol + s = ?r + i * ?f + s)"
      using fat_sector_inj[OF _ s s, of ?r "active_fat vol"] unfolding fat_start_def by blast
    have buf: "block_data ?v (fat_start vol + s) = ?B"
      unfolding block_data_def nspace.select_convs nspace.update_convs if_not_P[OF nbuf]
      by (simp add: if_not_P[OF nbuf])
    have "memcpy_at (block_data ?v (?r + n * ?f + s)) 0 (take (bytes_per_sector vol) ?B) = ?B"
      using Cn b(2) len by (simp add: block_data_def memcpy_at_def)
    then have "mirror_fat (?r + s) (fat_start vol + s) n ?v = block_store ?v (?r + n * ?f + s) ?B"
      using False Cn buf by (simp add: mirror_fat_def bn block_cache_get_def)
    also have "\<dots> = vol\<lparr>fBlockCache := ?C (Suc n)\<rparr>"
    proof -
      have "(?C n)(?r + n * ?f + s \<mapsto> ?B) = ?C (Suc n)"
        using False by (auto simp: fun_eq_iff less_Suc_eq)
      then show ?thesis by (simp add: block_store_def)
    qed
    finally show ?thesis .
  qed
  finally show ?case .
qed

lemma mirror_fats_store:
  assumes ok: "fat_ok vol" and s: "s < sectors_per_fat vol" and b: "length b = bytes_per_sector vol"
  shows "snd (mirror_fats (block_store vol (fat_start vol + s) b) (fat_start vol + s) (fat_start vol + s))
    = put_fat_sector vol s b"
proof (cases "fat_mirrored vol")
  case False
  then have "fat_sector_cache vol s b = (fBlockCache vol)(fat_start vol + s \<mapsto> b)"
    using fat_okD(7)[OF ok] by (auto simp: fat_sector_cache_def fat_start_def fun_eq_iff)
  with False show ?thesis by (simp add: mirror_fats_def put_fat_sector_def frame_simps block_store_def)
next
  case True
  let ?v = "block_store vol (fat_start vol + s) b"
  have ok': "fat_ok ?v"
    using ok b by (simp add: fat_ok_def frame_simps fat_size_def)
  have st: "fat_start ?v = fat_start vol" by (simp add: fat_start_def frame_simps)
  have sec: "u32_minus (fat_start vol + s) (u32 (active_fat vol * sectors_per_fat vol)) = reserved_sectors vol + s"
    using fat_start_bound(2)[OF ok] fat_start_present(3)[OF ok s] by (simp add: fat_start_def)
  have data: "block_data ?v (fat_start vol + s) = b" by simp
  have "snd (mirror_fats ?v (fat_start vol + s) (fat_start vol + s))
      = ?v\<lparr>fBlockCache := \<lambda>bn. if \<exists>i<fat_count vol. i \<noteq> active_fat vol \<and> bn = reserved_sectors vol + i * sectors_per_fat vol + s
        then Some b else fBlockCache ?v bn\<rparr>"
    using mirror_fold[OF ok', of s "fat_count vol", unfolded st data] s b True
    by (simp add: mirror_fats_def sec frame_simps)
  also have "\<dots> = put_fat_sector vol s b"
  proof -
    have "(\<lambda>bn. if \<exists>i<fat_count vol. i \<noteq> active_fat vol \<and> bn = reserved_sectors vol + i * sectors_per_fat vol + s
        then Some b else fBlockCache ?v bn) = fat_sector_cache vol s b"
      using True fat_okD(7)[OF ok] by (auto simp: fat_sector_cache_def fat_start_def fun_eq_iff)
    then show ?thesis by (simp add: put_fat_sector_def block_store_def)
  qed
  finally show ?thesis .
qed

subsection \<open>Setting a sector\<close>

lemma put_fat_sector_frame [frame_simps]:
  "total_clusters (put_fat_sector vol s b) = total_clusters vol"
  "free_clusters (put_fat_sector vol s b) = free_clusters vol"
  "last_allocated (put_fat_sector vol s b) = last_allocated vol"
  "fat_bits (put_fat_sector vol s b) = fat_bits vol"
  "bytes_per_sector (put_fat_sector vol s b) = bytes_per_sector vol"
  "sectors_per_fat (put_fat_sector vol s b) = sectors_per_fat vol"
  "reserved_sectors (put_fat_sector vol s b) = reserved_sectors vol"
  "active_fat (put_fat_sector vol s b) = active_fat vol"
  "fat_count (put_fat_sector vol s b) = fat_count vol"
  "fat_mirrored (put_fat_sector vol s b) = fat_mirrored vol"
  "fault (put_fat_sector vol s b) = fault vol"
  "fat_start (put_fat_sector vol s b) = fat_start vol"
  by (simp_all add: put_fat_sector_def fat_start_def)

lemma put_fat_sector_other:
  assumes "s < sectors_per_fat vol" "t < sectors_per_fat vol" "t \<noteq> s"
  shows "fBlockCache (put_fat_sector vol s b) (reserved_sectors vol + i * sectors_per_fat vol + t)
    = fBlockCache vol (reserved_sectors vol + i * sectors_per_fat vol + t)"
proof -
  have "\<not> (\<exists>j<fat_count vol. (j = active_fat vol \<or> fat_mirrored vol)
      \<and> reserved_sectors vol + i * sectors_per_fat vol + t = reserved_sectors vol + j * sectors_per_fat vol + s)"
    using fat_sector_inj[OF _ assms(2,1)] assms(3) by blast
  then have "fat_sector_cache vol s b (reserved_sectors vol + i * sectors_per_fat vol + t)
      = fBlockCache vol (reserved_sectors vol + i * sectors_per_fat vol + t)"
    unfolding fat_sector_cache_def by (rule if_not_P)
  then show ?thesis by (simp add: put_fat_sector_def)
qed

lemma put_fat_sector_same:
  assumes "i < fat_count vol" "s < sectors_per_fat vol"
  shows "fBlockCache (put_fat_sector vol s b) (reserved_sectors vol + i * sectors_per_fat vol + s)
    = (if i = active_fat vol \<or> fat_mirrored vol then Some b
       else fBlockCache vol (reserved_sectors vol + i * sectors_per_fat vol + s))"
proof -
  have "(\<exists>j<fat_count vol. (j = active_fat vol \<or> fat_mirrored vol)
      \<and> reserved_sectors vol + i * sectors_per_fat vol + s = reserved_sectors vol + j * sectors_per_fat vol + s)
      \<longleftrightarrow> i = active_fat vol \<or> fat_mirrored vol"
    using assms(1) fat_sector_inj[OF _ assms(2,2), of "reserved_sectors vol" i] by blast
  then show ?thesis by (simp add: put_fat_sector_def fat_sector_cache_def del: add_right_cancel)
qed

lemma put_fat_sector_cache:
  assumes "i < fat_count vol" "s < sectors_per_fat vol" "t < sectors_per_fat vol"
  shows "fBlockCache (put_fat_sector vol s b) (reserved_sectors vol + i * sectors_per_fat vol + t)
    = (if t = s \<and> (i = active_fat vol \<or> fat_mirrored vol) then Some b
       else fBlockCache vol (reserved_sectors vol + i * sectors_per_fat vol + t))"
  using put_fat_sector_same[OF assms(1,2)] put_fat_sector_other[OF assms(2,3)] by (cases "t = s") simp_all

lemma put_fat_sector_ok:
  assumes ok: "fat_ok vol" and s: "s < sectors_per_fat vol" and b: "length b = bytes_per_sector vol"
  shows "fat_ok (put_fat_sector vol s b)"
proof -
  have "\<exists>b'. fBlockCache (put_fat_sector vol s b) (reserved_sectors vol + i * sectors_per_fat vol + t) = Some b'
      \<and> length b' = bytes_per_sector vol" if "i < fat_count vol" "t < sectors_per_fat vol" for i t
    using fat_sector_present[OF ok that] b by (auto simp: put_fat_sector_cache[OF that(1) s that(2)])
  with ok show ?thesis by (simp add: fat_ok_def frame_simps fat_size_def)
qed

lemma block_data_put:
  assumes "fat_ok vol" "s < sectors_per_fat vol" "t < sectors_per_fat vol"
  shows "block_data (put_fat_sector vol s b) (fat_start vol + t) = (if t = s then b else block_data vol (fat_start vol + t))"
  using put_fat_sector_cache[OF fat_okD(7)[OF assms(1)] assms(2,3)] by (simp add: block_data_def fat_start_def)

lemma put_fat_sector_mirrored:
  assumes "fat_ok vol" "fat_mirrored vol" "fats_mirrored vol" "s < sectors_per_fat vol"
  shows "fats_mirrored (put_fat_sector vol s b)"
proof -
  have "fBlockCache (put_fat_sector vol s b) (reserved_sectors vol + i * sectors_per_fat vol + t)
      = fBlockCache (put_fat_sector vol s b) (fat_start vol + t)"
    if i: "i < fat_count vol" and t: "t < sectors_per_fat vol" for i t
  proof -
    have "fBlockCache vol (reserved_sectors vol + i * sectors_per_fat vol + t) = fBlockCache vol (fat_start vol + t)"
      using assms(3) i t unfolding fats_mirrored_def by blast
    then show ?thesis
      using put_fat_sector_cache[OF i assms(4) t] put_fat_sector_cache[OF fat_okD(7)[OF assms(1)] assms(4) t] assms(2)
      by (simp add: fat_start_def)
  qed
  then show ?thesis by (simp add: fats_mirrored_def frame_simps)
qed

lemma fat_byte_put:
  assumes "fat_ok vol" "s < sectors_per_fat vol" "k < fat_size vol"
  shows "fat_byte (put_fat_sector vol s b) k
    = (if k div bytes_per_sector vol = s then unat (b ! (k mod bytes_per_sector vol)) else fat_byte vol k)"
proof -
  have "k div bytes_per_sector vol < sectors_per_fat vol"
    using assms(3) by (simp add: fat_size_def less_mult_imp_div_less)
  then show ?thesis by (simp add: fat_byte_def frame_simps block_data_put[OF assms(1,2)])
qed

subsection \<open>Positions\<close>

lemma div_mod_shift:
  fixes o1 n :: nat
  assumes "o1 mod n + j < n"
  shows "(o1 + j) div n = o1 div n" "(o1 + j) mod n = o1 mod n + j"
proof -
  define r q where "r = o1 mod n + j" and "q = o1 div n"
  have e: "o1 + j = r + q * n" by (simp add: r_def q_def)
  have "r < n" using assms by (simp add: r_def)
  then have "(r + q * n) div n = q" "(r + q * n) mod n = r" by simp_all
  then show "(o1 + j) div n = o1 div n" "(o1 + j) mod n = o1 mod n + j"
    unfolding e by (simp_all add: r_def q_def)
qed

lemma div_mod_carry:
  fixes o1 n :: nat
  assumes "o1 mod n = n - 1" "0 < n"
  shows "(o1 + 1) div n = o1 div n + 1" "(o1 + 1) mod n = 0"
proof -
  have "o1 + 1 = n * (o1 div n + 1)"
    using assms div_mult_mod_eq[of o1 n] by (simp add: algebra_simps)
  then show "(o1 + 1) div n = o1 div n + 1" "(o1 + 1) mod n = 0" using assms(2) by simp_all
qed

lemma fat_pos_values:
  "fat_bits vol = 12 \<Longrightarrow> fat_pos vol c = c + c div 2" "fat_bits vol = 16 \<Longrightarrow> fat_pos vol c = 2 * c"
  "fat_bits vol = 32 \<Longrightarrow> fat_pos vol c = 4 * c"
  by (simp_all add: fat_pos_def)

lemma fat_pos_end:
  assumes "fat_ok vol" "c < total_clusters vol + 2"
  shows "fat_pos vol c + 1 < fat_size vol" "fat_bits vol = 32 \<Longrightarrow> fat_pos vol c + 3 < fat_size vol"
proof -
  have le: "(c + 1) * fat_bits vol \<le> fat_size vol * 8"
    using mult_right_mono[of "c + 1" "total_clusters vol + 2" "fat_bits vol"] assms(2) fat_okD(5)[OF assms(1)] by linarith
  show "fat_pos vol c + 1 < fat_size vol" "fat_bits vol = 32 \<Longrightarrow> fat_pos vol c + 3 < fat_size vol"
    using fat_okD(1)[OF assms(1)] le by (auto simp: fat_pos_values)
qed

lemma fat_pos_room:
  assumes "fat_ok vol"
  shows "fat_bits vol = 16 \<Longrightarrow> fat_pos vol c mod bytes_per_sector vol + 1 < bytes_per_sector vol"
    "fat_bits vol = 32 \<Longrightarrow> fat_pos vol c mod bytes_per_sector vol + 3 < bytes_per_sector vol"
proof -
  obtain q where q: "bytes_per_sector vol = 4 * q" "0 < q"
    using fat_okD(3,4)[OF assms] by (metis mod_0_imp_dvd dvdE zero_less_mult_pos zero_less_numeral)
  show "fat_pos vol c mod bytes_per_sector vol + 1 < bytes_per_sector vol" if "fat_bits vol = 16"
  proof -
    have "2 * c mod (4 * q) = 2 * (c mod (2 * q))" using mult_mod_right[of 2 c "2 * q"] by simp
    moreover have "c mod (2 * q) < 2 * q" using q(2) by simp
    ultimately show ?thesis unfolding fat_pos_values(2)[OF that] q(1) by linarith
  qed
  show "fat_pos vol c mod bytes_per_sector vol + 3 < bytes_per_sector vol" if "fat_bits vol = 32"
  proof -
    have "4 * c mod (4 * q) = 4 * (c mod q)" using mult_mod_right[of 4 c q] by simp
    moreover have "c mod q < q" using q(2) by simp
    ultimately show ?thesis unfolding fat_pos_values(3)[OF that] q(1) by linarith
  qed
qed

lemma fat_pos_sector:
  assumes "fat_ok vol" "k < fat_size vol"
  shows "k div bytes_per_sector vol < sectors_per_fat vol"
  using assms(2) by (simp add: fat_size_def less_mult_imp_div_less)

lemma fat_adv_bounds:
  assumes "fat_ok vol" "c < total_clusters vol + 2"
  shows "fat_adv vol c < sectors_per_fat vol"
    "fat_adv vol c * bytes_per_sector vol \<le> fat_pos vol (c + 1)"
    "fat_pos vol (c + 1) \<le> fat_adv vol c * bytes_per_sector vol + bytes_per_sector vol"
proof -
  let ?n = "bytes_per_sector vol" and ?p = "fat_pos vol c"
  note n = fat_okD(3)[OF assms(1)] and e = fat_pos_end[OF assms]
  have p: "?p = ?p div ?n * ?n + ?p mod ?n" by simp
  have lt: "?p mod ?n < ?n" using n by simp
  consider (straddle) "fat_bits vol = 12" "?p mod ?n = ?n - 1" | (twelve) "fat_bits vol = 12" "?p mod ?n \<noteq> ?n - 1"
    | (sixteen) "fat_bits vol = 16" | (thirtytwo) "fat_bits vol = 32"
    using fat_okD(1)[OF assms(1)] by blast
  then have "fat_adv vol c < sectors_per_fat vol \<and> fat_adv vol c * ?n \<le> fat_pos vol (c + 1)
    \<and> fat_pos vol (c + 1) \<le> fat_adv vol c * ?n + ?n"
  proof cases
    case straddle
    then have a: "fat_adv vol c = (?p + 1) div ?n" and "(?p + 1) mod ?n = 0"
      using div_mod_carry[OF straddle(2) n] by (simp_all add: fat_adv_def)
    then have "fat_adv vol c * ?n = ?p + 1" by (metis div_mult_mod_eq add_0_right)
    moreover have "?p + 1 \<le> fat_pos vol (c + 1)" "fat_pos vol (c + 1) \<le> ?p + 2"
      using straddle(1) by (simp_all add: fat_pos_values) 
    ultimately show ?thesis
      using fat_pos_sector[OF assms(1) e(1)] a fat_okD(2)[OF assms(1)] by simp
  next
    case twelve
    then have "fat_adv vol c = ?p div ?n" by (simp add: fat_adv_def)
    moreover have "?p \<le> fat_pos vol (c + 1)" "fat_pos vol (c + 1) \<le> ?p + 2"
      using twelve(1) by (simp_all add: fat_pos_values)
    moreover have "?p mod ?n + 2 \<le> ?n" using twelve(2) lt by linarith
    moreover have "?p div ?n < sectors_per_fat vol" using e(1) by (intro fat_pos_sector[OF assms(1)]) simp
    ultimately show ?thesis using p by (intro conjI; simp only:; linarith)
  next
    case sixteen
    then have "fat_adv vol c = ?p div ?n" by (simp add: fat_adv_def)
    moreover have "fat_pos vol (c + 1) = ?p + 2" using sixteen by (simp add: fat_pos_values)
    moreover have "?p div ?n < sectors_per_fat vol" using e(1) by (intro fat_pos_sector[OF assms(1)]) simp
    ultimately show ?thesis using p fat_pos_room(1)[OF assms(1) sixteen, of c]
      by (intro conjI; simp only:; linarith)
  next
    case thirtytwo
    then have "fat_adv vol c = ?p div ?n" by (simp add: fat_adv_def)
    moreover have "fat_pos vol (c + 1) = ?p + 4" using thirtytwo by (simp add: fat_pos_values)
    moreover have "?p div ?n < sectors_per_fat vol" using e(1) by (intro fat_pos_sector[OF assms(1)]) simp
    ultimately show ?thesis using p fat_pos_room(2)[OF assms(1) thirtytwo, of c]
      by (intro conjI; simp only:; linarith)
  qed
  then show "fat_adv vol c < sectors_per_fat vol" "fat_adv vol c * ?n \<le> fat_pos vol (c + 1)"
    "fat_pos vol (c + 1) \<le> fat_adv vol c * ?n + ?n" by blast+
qed

text \<open>Stepping on to the next cluster, and from the last back to the first.\<close>

lemma fat_iterate_spec:
  assumes ok: "fat_ok vol" and c: "2 \<le> c" "c < total_clusters vol + 2" and st: "f_cluster st = c"
  defines "c' \<equiv> if c = total_clusters vol + 1 then 2 else c + 1"
  shows "\<exists>st'. fat_iterate vol (fat_next vol st c v) = (st', False) \<and> fat_at vol st' c'
    \<and> f_result st' = f_result st \<and> f_n st' = f_n st \<and> f_first st' = f_first st \<and> f_last st' = f_last st
    \<and> f_value st' = v"
proof -
  let ?n = "bytes_per_sector vol"
  note n = fat_okD(2,3)[OF ok] and b = fat_okD(1)[OF ok] and adv = fat_adv_bounds[OF ok c(2)]
  have big: "total_clusters vol + 2 < 2 ^ 32"
  proof -
    have "total_clusters vol + 2 \<le> (total_clusters vol + 2) * fat_bits vol" using b by auto
    then show ?thesis using fat_okD(6)[OF ok] by linarith
  qed
  have u: "u32 (c + 1) = c + 1" "u32 (total_clusters vol + 2) = total_clusters vol + 2"
    using c big by simp_all
  have c': "c' < total_clusters vol + 2" using c by (auto simp: c'_def)
  have pos': "fat_pos vol c' div ?n < sectors_per_fat vol"
    using fat_pos_end(1)[OF ok c'] by (intro fat_pos_sector[OF ok]) simp
  have pres: "block_cache_get vol (fat_start vol + s) = Some (fat_start vol + s)" "u32 (fat_start vol + s) = fat_start vol + s"
    if "s < sectors_per_fat vol" for s
    using fat_start_present[OF ok that] by (simp_all add: block_cache_get_def)
  show ?thesis
  proof (cases "c = total_clusters vol + 1")
    case True
    then have c'2: "c' = 2" by (simp add: c'_def)
    have p2: "2 * fat_bits vol div 8 = fat_pos vol 2" "fat_pos vol 2 < 2 * ?n"
      using b n by (auto simp: fat_pos_def)
    have "0 < sectors_per_fat vol" using pos' by simp
    then have base: "fat_base vol = fat_start vol" "block_cache_get vol (fat_start vol) = Some (fat_start vol)"
      using fat_base_start[OF ok] pres[of 0] by simp_all
    show ?thesis
    proof (cases "?n \<le> fat_pos vol 2")
      case far: True
      then have q: "fat_pos vol 2 div ?n = 1" "fat_pos vol 2 mod ?n = fat_pos vol 2 - ?n"
        using p2(2) n by (simp_all add: div_nat_eqI le_mod_geq mod_if)
      then show ?thesis
        using True far pos' pres[of 1] base c'2 u st
        by (simp add: fat_iterate_def fat_next_def fat_at_def p2(1) Let_def)
    next
      case False
      then show ?thesis
        using True base c'2 u st by (simp add: fat_iterate_def fat_next_def fat_at_def p2(1) Let_def)
    qed
  next
    case False
    then have cc: "c' = c + 1" "c + 1 \<noteq> total_clusters vol + 2" using c by (simp_all add: c'_def)
    define a q where "a = fat_adv vol c" and "q = fat_pos vol (Suc c)"
    have adv: "a < sectors_per_fat vol" "a * ?n \<le> q" "q \<le> a * ?n + ?n"
      using adv by (simp_all add: a_def q_def)
    have pos': "q div ?n < sectors_per_fat vol" using pos' cc(1) by (simp add: q_def)
    show ?thesis
    proof (cases "q - a * ?n \<ge> ?n")
      case True
      then have "q = (a + 1) * ?n" using adv(2,3) by (simp add: algebra_simps)
      then have q: "q div ?n = a + 1" "q mod ?n = 0" "q - a * ?n - ?n = 0" using n by simp_all
      then show ?thesis
        using True pos' cc u st pres[of "a + 1"]
        by (simp add: fat_iterate_def fat_next_def fat_at_def Let_def a_def[symmetric] q_def[symmetric])
    next
      case False
      then have "q = a * ?n + (q - a * ?n)" "q - a * ?n < ?n" using adv(2) by simp_all
      then have q: "q div ?n = a" "q mod ?n = q - a * ?n"
        using div_mult_self3[of ?n a "q - a * ?n"] mod_mult_self3[of a ?n "q - a * ?n"] n by simp_all
      then show ?thesis
        using False cc u st pres[of a] adv(1)
        by (simp add: fat_iterate_def fat_next_def fat_at_def Let_def a_def[symmetric] q_def[symmetric])
    qed
  qed
qed

subsection \<open>One round of the loop\<close>

lemma fat_byte_in_sector:
  assumes "fat_pos vol c mod bytes_per_sector vol + j < bytes_per_sector vol"
  shows "fat_byte vol (fat_pos vol c + j)
    = unat (block_data vol (fat_start vol + fat_pos vol c div bytes_per_sector vol)
            ! (fat_pos vol c mod bytes_per_sector vol + j))"
  by (simp add: fat_byte_def div_mod_shift[OF assms])

lemma fat_next_in_sector:
  assumes "fat_at vol st c" "fat_adv vol c = fat_pos vol c div bytes_per_sector vol"
    "fat_pos vol (c + 1) = fat_pos vol c + j"
  shows "fat_next vol st c v = st\<lparr>f_value := v, f_offset := f_offset st + j\<rparr>"
proof -
  let ?n = "bytes_per_sector vol" and ?p = "fat_pos vol c"
  have "?p + j - ?p div ?n * ?n = ?p mod ?n + j"
    using div_mult_mod_eq[of ?p ?n] by linarith
  then show ?thesis
    using assms by (simp add: fat_next_def fat_at_def)
qed

lemma fat16_io_spec:
  fixes action :: fat_action
  assumes ok: "fat_ok vol" and b: "fat_bits vol = 16" and c: "c < total_clusters vol + 2" and st: "fat_at vol st c"
  defines "v \<equiv> if action \<noteq> SET_ENTRY then fat_raw vol c else f_value st"
    and "s \<equiv> fat_pos vol c div bytes_per_sector vol" and "k \<equiv> fat_pos vol c mod bytes_per_sector vol"
  shows "fat16_io action e vol st
    = (if fat_stores action v then block_store vol (fat_start vol + s) (write16 (block_data vol (fat_start vol + s)) k e) else vol,
       fat_next vol st c v, False)"
proof -
  have "fat_next vol st c x = st\<lparr>f_value := x, f_offset := f_offset st + 2\<rparr>" for x
    using b by (intro fat_next_in_sector[OF st]) (simp_all add: fat_adv_def fat_pos_values)
  moreover have "read16 (block_data vol (fat_start vol + s)) k = fat_byte vol (fat_pos vol c) + 256 * fat_byte vol (fat_pos vol c + 1)"
    using fat_byte_in_sector[of vol c 0] fat_byte_in_sector[of vol c 1] fat_pos_room(1)[OF ok b, of c]
    by (simp add: read16_def s_def k_def)
  ultimately show ?thesis
    using st b by (simp add: fat16_io_def fat_at_def fat_raw_def fat_stores_def v_def Let_def s_def k_def)
qed

lemma fat32_io_spec:
  fixes action :: fat_action
  assumes ok: "fat_ok vol" and b: "fat_bits vol = 32" and c: "c < total_clusters vol + 2" and st: "fat_at vol st c"
  defines "v \<equiv> if action \<noteq> SET_ENTRY then fat_raw vol c else f_value st"
    and "s \<equiv> fat_pos vol c div bytes_per_sector vol" and "k \<equiv> fat_pos vol c mod bytes_per_sector vol"
  shows "fat32_io action e vol st
    = (if fat_stores action v then block_store vol (fat_start vol + s) (write32 (block_data vol (fat_start vol + s)) k e) else vol,
       fat_next vol st c v, False)"
proof -
  have "fat_next vol st c x = st\<lparr>f_value := x, f_offset := f_offset st + 4\<rparr>" for x
    using b by (intro fat_next_in_sector[OF st]) (simp_all add: fat_adv_def fat_pos_values)
  moreover have "read32 (block_data vol (fat_start vol + s)) k = fat_byte vol (fat_pos vol c) + 256 * fat_byte vol (fat_pos vol c + 1)
      + 65536 * fat_byte vol (fat_pos vol c + 2) + 16777216 * fat_byte vol (fat_pos vol c + 3)"
    using fat_byte_in_sector[of vol c 0] fat_byte_in_sector[of vol c 1] fat_byte_in_sector[of vol c 2]
      fat_byte_in_sector[of vol c 3] fat_pos_room(2)[OF ok b, of c]
    by (simp add: read32_def s_def k_def)
  ultimately show ?thesis
    using st b by (simp add: fat32_io_def fat_at_def fat_raw_def fat_stores_def v_def Let_def s_def k_def)
qed

lemma fat12_pos_next: "fat_bits vol = 12 \<Longrightarrow> fat_pos vol (c + 1) = fat_pos vol c + (if odd c then 2 else 1)"
  by (cases "odd c") (auto simp: fat_pos_values elim!: oddE evenE)

lemma fat12_value_bytes:
  assumes "fat_bits vol = 12"
  shows "fat_raw vol c = fat12_value c (fat_byte vol (fat_pos vol c) + 256 * fat_byte vol (fat_pos vol c + 1))"
  using assms by (simp add: fat_raw_def Let_def)

text \<open>A 12 bit entry inside a sector.\<close>

lemma fat12_io_inside:
  fixes action :: fat_action
  assumes ok: "fat_ok vol" and b: "fat_bits vol = 12" and c: "c < total_clusters vol + 2" and st: "fat_at vol st c"
    and inside: "fat_pos vol c mod bytes_per_sector vol \<noteq> bytes_per_sector vol - 1"
  defines "v \<equiv> if action \<noteq> SET_ENTRY then fat_raw vol c else f_value st"
    and "s \<equiv> fat_pos vol c div bytes_per_sector vol" and "k \<equiv> fat_pos vol c mod bytes_per_sector vol"
  defines "D \<equiv> block_data vol (fat_start vol + s)"
  shows "fat12_io action e vol st
    = (if fat_stores action v then block_store vol (fat_start vol + s)
         (D[k := (D ! k AND word_of_nat (fat12_andmask c)) OR word_of_nat (fat12_ormask c e),
            k + 1 := (D ! (k + 1) AND word_of_nat (fat12_andmask c div 256)) OR word_of_nat (fat12_ormask c e div 256)]) else vol,
       fat_next vol st c v, False)"
proof -
  let ?n = "bytes_per_sector vol"
  have room: "k + 1 < ?n"
    using inside mod_less_divisor[OF fat_okD(3)[OF ok], of "fat_pos vol c"] unfolding k_def by linarith
  have nx: "fat_next vol st c x = st\<lparr>f_value := x, f_offset := f_offset st + (if odd c then 2 else 1)\<rparr>" for x
    using b inside by (intro fat_next_in_sector[OF st] fat12_pos_next) (simp_all add: fat_adv_def)
  have w: "unat (D ! k) + 256 * unat (D ! (k + 1)) = fat_byte vol (fat_pos vol c) + 256 * fat_byte vol (fat_pos vol c + 1)"
    using fat_byte_in_sector[of vol c 0] fat_byte_in_sector[of vol c 1] room
    by (simp add: D_def s_def k_def)
  have at: "f_cluster st = c" "f_sector st = fat_start vol + s" "f_offset st = k" "f_block1 st = fat_start vol + s"
    using st by (auto simp: fat_at_def s_def k_def)
  have store: "fat12_store vol st e False x y = block_store vol (fat_start vol + s)
         (D[k := (D ! k AND word_of_nat (fat12_andmask c)) OR word_of_nat (fat12_ormask c e),
            k + 1 := (D ! (k + 1) AND word_of_nat (fat12_andmask c div 256)) OR word_of_nat (fat12_ormask c e div 256)])" for x y
    by (simp add: fat12_store_def at Let_def D_def[symmetric]) (simp add: block_store_def)
  have ns: "(k = ?n - 1) = False" using inside by (simp add: k_def)
  have same: "st\<lparr>f_value := x, f_sector := fat_start vol + s, f_offset := y, f_block1 := fat_start vol + s\<rparr>
      = st\<lparr>f_value := x, f_offset := y\<rparr>" for x y
    using at(2,4) by (cases st) simp
  show ?thesis
    unfolding fat12_io_def at ns nx
    using w fat12_value_bytes[OF b, of c]
    by (simp add: Let_def store fat_stores_def v_def D_def[symmetric] same)
qed

text \<open>A 12 bit entry that crosses into the next sector: the first sector is already mirrored.\<close>

lemma fat12_io_straddle:
  fixes action :: fat_action and e :: nat
  assumes ok: "fat_ok vol" and b: "fat_bits vol = 12" and c: "c < total_clusters vol + 2" and st: "fat_at vol st c"
    and cross: "fat_pos vol c mod bytes_per_sector vol = bytes_per_sector vol - 1"
  defines "v \<equiv> if action \<noteq> SET_ENTRY then fat_raw vol c else f_value st"
    and "s \<equiv> fat_pos vol c div bytes_per_sector vol" and "k \<equiv> fat_pos vol c mod bytes_per_sector vol"
  defines "D \<equiv> block_data vol (fat_start vol + s)"
  defines "vol1 \<equiv> put_fat_sector vol s (D[k := (D ! k AND word_of_nat (fat12_andmask c)) OR word_of_nat (fat12_ormask c e)])"
  defines "D1 \<equiv> block_data vol1 (fat_start vol + (s + 1))"
  shows "fat12_io action e vol st
    = (if fat_stores action v then block_store vol1 (fat_start vol + (s + 1))
         (D1[0 := (D1 ! 0 AND word_of_nat (fat12_andmask c div 256)) OR word_of_nat (fat12_ormask c e div 256)]) else vol,
       fat_next vol st c v, False)"
proof -
  let ?n = "bytes_per_sector vol" and ?p = "fat_pos vol c"
  have carry: "(?p + 1) div ?n = s + 1" "(?p + 1) mod ?n = 0"
    using div_mod_carry[OF cross fat_okD(3)[OF ok]] by (simp_all add: s_def)
  have s1: "s + 1 < sectors_per_fat vol"
    using fat_pos_sector[OF ok fat_pos_end(1)[OF ok c]] carry by simp
  have at: "f_cluster st = c" "f_sector st = fat_start vol + s" "f_offset st = k" "f_block1 st = fat_start vol + s"
    using st by (auto simp: fat_at_def s_def k_def)
  have sec: "u32 (fat_start vol + s + 1) = fat_start vol + (s + 1)" "u32_minus (fat_start vol + (s + 1)) 1 = fat_start vol + s"
    and get: "block_cache_get vol (fat_start vol + (s + 1)) = Some (fat_start vol + (s + 1))"
    using fat_start_present[OF ok s1] by simp_all
  have lenD: "length D = ?n" using fat_start_present(2)[OF ok, of s] s1 by (simp add: D_def)
  have mir: "snd (mirror_fats (block_store vol (fat_start vol + s) B) (fat_start vol + s) (fat_start vol + s)) = put_fat_sector vol s B"
    if "length B = ?n" for B
    using mirror_fats_store[OF ok _ that, of s] s1 by simp
  have store: "fat12_store vol st e True (fat_start vol + (s + 1)) (fat_start vol + (s + 1)) = block_store vol1 (fat_start vol + (s + 1))
         (D1[0 := (D1 ! 0 AND word_of_nat (fat12_andmask c div 256)) OR word_of_nat (fat12_ormask c e div 256)])"
    unfolding fat12_store_def at sec D_def[symmetric] Let_def if_True
    by (simp add: mir lenD vol1_def[symmetric]) (simp add: D1_def)
  have w: "unat (D ! k) + 256 * unat (block_data vol (fat_start vol + (s + 1)) ! 0) = fat_byte vol ?p + 256 * fat_byte vol (?p + 1)"
    unfolding fat_byte_def carry by (simp add: D_def s_def k_def)
  have "?p + 1 = (s + 1) * ?n" using carry by (metis div_mult_mod_eq add_0_right)
  then have "fat_pos vol (c + 1) - (s + 1) * ?n = (if odd c then 1 else 0)"
    unfolding fat12_pos_next[OF b] by auto
  then have nx: "fat_next vol st c x = st\<lparr>f_value := x, f_sector := fat_start vol + (s + 1), f_offset := (if odd c then 1 else 0),
      f_block1 := fat_start vol + (s + 1)\<rparr>" for x
    using b cross by (simp add: fat_next_def fat_adv_def s_def)
  have cr: "(k = ?n - 1) = True" using cross by (simp add: k_def)
  show ?thesis
    unfolding fat12_io_def at cr if_True Let_def sec get option.case nx
    using w fat12_value_bytes[OF b, of c]
    by (simp add: store[simplified] fat_stores_def v_def D_def[symmetric])
qed

lemma fat_ok_free_clusters [simp]: "fat_ok (vol\<lparr>free_clusters := x\<rparr>) = fat_ok vol"
  by (simp add: fat_ok_def fat_size_def)

lemma fat_start_free_clusters [simp]: "fat_start (vol\<lparr>free_clusters := x\<rparr>) = fat_start vol"
  by (simp add: fat_start_def)

lemma put_fat_sector_free_clusters:
  "put_fat_sector (vol\<lparr>free_clusters := x\<rparr>) s b = (put_fat_sector vol s b)\<lparr>free_clusters := x\<rparr>"
proof -
  have "fat_sector_cache (vol\<lparr>free_clusters := x\<rparr>) s b = fat_sector_cache vol s b"
    by (auto simp: fat_sector_cache_def fun_eq_iff)
  then show ?thesis by (simp add: put_fat_sector_def)
qed

lemma block_store_free_clusters:
  "(block_store vol bn b)\<lparr>free_clusters := x\<rparr> = block_store (vol\<lparr>free_clusters := x\<rparr>) bn b"
  by (simp add: block_store_def)

lemma mirror_after_store:
  assumes "fat_ok vol0" "fat_start vol0 = fs" "a < sectors_per_fat vol0" "length B = bytes_per_sector vol0"
  shows "snd (mirror_fats ((block_store vol0 (fs + a) B)\<lparr>free_clusters := x\<rparr>) (fs + a) (fs + a))
    = (put_fat_sector vol0 a B)\<lparr>free_clusters := x\<rparr>"
  using mirror_fats_store[of "vol0\<lparr>free_clusters := x\<rparr>" a B] assms
  by (simp add: put_fat_sector_free_clusters block_store_free_clusters)

text \<open>Every format: the entry is read, or stored up to the mirroring of its last sector.\<close>

lemma fat_io_spec:
  fixes action :: fat_action
  assumes ok: "fat_ok vol" and c: "c < total_clusters vol + 2" and st: "fat_at vol st c"
  defines "v \<equiv> if action \<noteq> SET_ENTRY then fat_raw vol c else f_value st"
  shows "\<exists>W. fat_io action e vol st = (if fat_stores action v then W else vol, fat_next vol st c v, False)
    \<and> free_clusters W = free_clusters vol
    \<and> (\<forall>x. snd (mirror_fats (W\<lparr>free_clusters := x\<rparr>) (fat_start vol + fat_adv vol c) (fat_start vol + fat_adv vol c))
          = (fat_put vol c e)\<lparr>free_clusters := x\<rparr>)"
proof -
  let ?n = "bytes_per_sector vol"
  let ?s = "fat_pos vol c div ?n" and ?k = "fat_pos vol c mod ?n"
  let ?D = "block_data vol (fat_start vol + ?s)"
  have s: "?s < sectors_per_fat vol"
    using fat_pos_end(1)[OF ok c] by (intro fat_pos_sector[OF ok]) simp
  note lenD = fat_start_present(2)[OF ok s]
  have via: ?thesis
    if "fat_io action e vol st = (if fat_stores action v then block_store vol0 (fat_start vol + fat_adv vol c) B else vol, fat_next vol st c v, False)"
      "fat_put vol c e = put_fat_sector vol0 (fat_adv vol c) B" "fat_ok vol0" "fat_start vol0 = fat_start vol"
      "fat_adv vol c < sectors_per_fat vol0" "length B = bytes_per_sector vol0" "free_clusters vol0 = free_clusters vol" for vol0 B
    using that mirror_after_store[OF that(3-6)] by (intro exI[of _ "block_store vol0 (fat_start vol + fat_adv vol c) B"])
      (simp add: frame_simps)
  consider (straddle) "fat_bits vol = 12" "?k = ?n - 1" | (twelve) "fat_bits vol = 12" "?k \<noteq> ?n - 1"
    | (sixteen) "fat_bits vol = 16" | (thirtytwo) "fat_bits vol = 32"
    using fat_okD(1)[OF ok] by blast
  then show ?thesis
  proof cases
    case straddle
    let ?B = "?D[?k := (?D ! ?k AND word_of_nat (fat12_andmask c)) OR word_of_nat (fat12_ormask c e)]"
    let ?v1 = "put_fat_sector vol ?s ?B"
    let ?D1 = "block_data ?v1 (fat_start vol + (?s + 1))"
    have adv: "fat_adv vol c = ?s + 1" using straddle by (simp add: fat_adv_def)
    have ok1: "fat_ok ?v1" using ok s lenD by (intro put_fat_sector_ok) simp_all
    have s1: "?s + 1 < sectors_per_fat vol" using fat_adv_bounds(1)[OF ok c] adv by simp
    have len1: "length ?D1 = ?n"
      using fat_start_present(2)[OF ok1, of "?s + 1"] s1 by (simp add: frame_simps)
    show ?thesis
      by (rule via[of ?v1 "?D1[0 := (?D1 ! 0 AND word_of_nat (fat12_andmask c div 256)) OR word_of_nat (fat12_ormask c e div 256)]"])
        (use straddle adv ok1 s1 len1 fat12_io_straddle[OF ok straddle(1) c st straddle(2), of action e]
          in \<open>simp_all add: fat_io_def v_def fat_put_def Let_def frame_simps\<close>)
  next
    case twelve
    show ?thesis
      by (rule via[of vol "?D[?k := (?D ! ?k AND word_of_nat (fat12_andmask c)) OR word_of_nat (fat12_ormask c e),
            ?k + 1 := (?D ! (?k + 1) AND word_of_nat (fat12_andmask c div 256)) OR word_of_nat (fat12_ormask c e div 256)]"])
        (use twelve ok s lenD fat12_io_inside[OF ok twelve(1) c st twelve(2), of action e]
          in \<open>simp_all add: fat_io_def v_def fat_put_def Let_def fat_adv_def\<close>)
  next
    case sixteen
    show ?thesis
      by (rule via[of vol "write16 ?D ?k e"])
        (use sixteen ok s lenD fat16_io_spec[OF ok sixteen c st, of action e]
          in \<open>simp_all add: fat_io_def v_def fat_put_def Let_def fat_adv_def\<close>)
  next
    case thirtytwo
    show ?thesis
      by (rule via[of vol "write32 ?D ?k e"])
        (use thirtytwo ok s lenD fat32_io_spec[OF ok thirtytwo c st, of action e]
          in \<open>simp_all add: fat_io_def v_def fat_put_def Let_def fat_adv_def\<close>)
  qed
qed

subsection \<open>The get and set actions\<close>

definition fat_init :: "nspace \<Rightarrow> nat \<Rightarrow> fat_st" where
  "fat_init vol c = \<lparr>f_result = 0, f_n = 0, f_first = 0, f_last = 0, f_cluster = c,
     f_sector = fat_start vol + fat_pos vol c div bytes_per_sector vol,
     f_offset = fat_pos vol c mod bytes_per_sector vol, f_value = 0,
     f_block1 = fat_start vol + fat_pos vol c div bytes_per_sector vol\<rparr>"

lemma fat_at_init: "fat_at vol (fat_init vol c) c"
  by (simp add: fat_at_def fat_init_def)

lemma fat_clusters_bound:
  assumes "fat_ok vol"
  shows "total_clusters vol + 2 < 2 ^ 32" "total_clusters vol + 2 \<le> 2 ^ 28"
proof -
  note b = fat_okD(1)[OF assms]
  show le: "total_clusters vol + 2 \<le> 2 ^ 28" using b fat_okD(6,8,9)[OF assms] by auto
  show "total_clusters vol + 2 < 2 ^ 32" using le by simp
qed

text \<open>Where the routine starts for a data cluster.\<close>

lemma fat_ioctl_start:
  fixes action :: fat_action and cluster :: nat
  assumes ok: "fat_ok vol" and act: "action \<noteq> COUNT_FREE \<or> fat_bits vol \<noteq> 32"
  defines "c \<equiv> if action = COUNT_FREE then 2 else if action = ALLOCATE_N_ENTRIES then last_allocated vol else cluster"
  assumes c: "2 \<le> c" "c < total_clusters vol + 2"
  shows "fat_ioctl_gen se cc vol action cluster N
    = (let (vol', st) = fat_loop se action (if action = SET_ENTRY then u32_of_int N else 0x0fffffff) N
         (total_clusters vol) vol (fat_init vol c) in fat_finish cc action N vol' st)"
proof -
  let ?n = "bytes_per_sector vol"
  have s: "fat_pos vol c div ?n < sectors_per_fat vol"
    using fat_pos_end(1)[OF ok c(2)] by (intro fat_pos_sector[OF ok]) simp
  have "c * fat_bits vol \<le> (total_clusters vol + 2) * fat_bits vol" using c(2) by (intro mult_right_mono) simp_all
  then have "c * fat_bits vol < 2 ^ 32" using fat_okD(6)[OF ok] by linarith
  then have pos: "u32 (c * fat_bits vol) div 8 = fat_pos vol c" by (simp add: fat_pos_def)
  have data: "IS_DATA_CLUSTER vol (int c)" using c fat_clusters_bound(1)[OF ok] by simp
  have sec: "u32 (fat_start vol + fat_pos vol c div ?n) = fat_start vol + fat_pos vol c div ?n"
    using fat_start_present(3)[OF ok s] by simp
  have get: "block_cache_get vol (fat_start vol + fat_pos vol c div ?n) = Some (fat_start vol + fat_pos vol c div ?n)"
    using fat_start_present(1)[OF ok s] by simp
  have na: "(action = COUNT_FREE \<and> fat_bits vol = 32) = False" using act by blast
  show ?thesis
    unfolding fat_ioctl_gen_def Let_def na c_def[symmetric] pos fat_base_start[OF ok] sec get
    by (simp add: data fat_init_def)
qed

lemma total_clusters_Suc: "2 \<le> c \<Longrightarrow> c < total_clusters vol + 2 \<Longrightarrow> total_clusters vol = Suc (total_clusters vol - 1)"
  by simp

lemma fat_ioctl_get:
  assumes ok: "fat_ok vol" and c: "2 \<le> c" "c < total_clusters vol + 2"
  shows "fat_ioctl_gen se cc vol GET_ENTRY c N = (s32 (int (fat_raw vol c)), vol)"
proof -
  have io: "fat_io GET_ENTRY 0x0fffffff vol (fat_init vol c) = (vol, fat_next vol (fat_init vol c) c (fat_raw vol c), False)"
    using fat_io_spec[OF ok c(2) fat_at_init, of GET_ENTRY "0x0fffffff"] by (auto simp: fat_stores_def)
  have "fat_loop se GET_ENTRY 0x0fffffff N (total_clusters vol) vol (fat_init vol c)
      = (vol, (fat_next vol (fat_init vol c) c (fat_raw vol c))\<lparr>f_result := s32 (int (fat_raw vol c))\<rparr>)"
    by (subst total_clusters_Suc[OF c]) (simp add: io fat_dispatch_def fat_next_def)
  then show ?thesis
    using fat_ioctl_start[OF ok, of GET_ENTRY c se cc N] c by (simp add: fat_finish_def)
qed

lemma fat_ioctl_set:
  assumes ok: "fat_ok vol" and c: "2 \<le> c" "c < total_clusters vol + 2"
  shows "fat_ioctl_gen se cc vol SET_ENTRY c N = (0, fat_put vol c (u32_of_int N))"
proof -
  let ?st = "fat_next vol (fat_init vol c) c 0"
  obtain W where io: "fat_io SET_ENTRY (u32_of_int N) vol (fat_init vol c) = (W, ?st, False)"
    and W: "free_clusters W = free_clusters vol"
      "\<And>x. snd (mirror_fats (W\<lparr>free_clusters := x\<rparr>) (fat_start vol + fat_adv vol c) (fat_start vol + fat_adv vol c))
          = (fat_put vol c (u32_of_int N))\<lparr>free_clusters := x\<rparr>"
    using fat_io_spec[OF ok c(2) fat_at_init, of SET_ENTRY "u32_of_int N"] by (auto simp: fat_stores_def fat_init_def)
  have "W\<lparr>free_clusters := free_clusters vol\<rparr> = W" by (simp flip: W(1))
  moreover have "free_clusters (fat_put vol c (u32_of_int N)) = free_clusters vol"
    by (simp add: fat_put_def Let_def frame_simps)
  then have "(fat_put vol c (u32_of_int N))\<lparr>free_clusters := free_clusters vol\<rparr> = fat_put vol c (u32_of_int N)"
    by (metis nspace.surjective nspace.update_convs(14))
  ultimately have mir: "snd (mirror_fats W (fat_start vol + fat_adv vol c) (fat_start vol + fat_adv vol c)) = fat_put vol c (u32_of_int N)"
    using W(2)[of "free_clusters vol"] by simp
  have "fat_loop se SET_ENTRY (u32_of_int N) N (total_clusters vol) vol (fat_init vol c)
      = (fat_put vol c (u32_of_int N), ?st)"
    using mir by (subst total_clusters_Suc[OF c]) (simp add: io fat_dispatch_def fat_next_def)
  then show ?thesis
    using fat_ioctl_start[OF ok, of SET_ENTRY c se cc N] c
    by (simp add: fat_finish_def fat_next_def fat_init_def)
qed

end
