(* ===== verification/Fat_Laws.thy ===== *)
theory Fat_Laws
  imports Fat_Entries
begin

text \<open>
  The laws of single entries: writing an entry and reading it back, in the three formats, and what a
  write leaves alone. They are packed into the interface \<open>fat_store\<close>, a total store of entries, from which the
  chain operations are derived.
\<close>

section \<open>Bytes of a stored entry\<close>

lemma fat_put_frame [frame_simps]:
  "total_clusters (fat_put vol c v) = total_clusters vol"
  "free_clusters (fat_put vol c v) = free_clusters vol"
  "last_allocated (fat_put vol c v) = last_allocated vol"
  "fat_bits (fat_put vol c v) = fat_bits vol"
  "bytes_per_sector (fat_put vol c v) = bytes_per_sector vol"
  "sectors_per_fat (fat_put vol c v) = sectors_per_fat vol"
  "reserved_sectors (fat_put vol c v) = reserved_sectors vol"
  "active_fat (fat_put vol c v) = active_fat vol"
  "fat_count (fat_put vol c v) = fat_count vol"
  "fat_mirrored (fat_put vol c v) = fat_mirrored vol"
  "fault (fat_put vol c v) = fault vol"
  by (simp_all add: fat_put_def Let_def frame_simps)

lemma same_sector_offset:
  fixes k p n :: nat
  assumes "k div n = p div n" "p mod n + j < n"
  shows "k mod n = p mod n + j \<longleftrightarrow> k = p + j"
  using div_mod_shift[OF assms(2)] assms(1) div_mult_mod_eq[of k n] div_mult_mod_eq[of "p + j" n] by metis

lemma fat_put_single:
  assumes ok: "fat_ok vol" and p: "p < fat_size vol" and k: "k < fat_size vol"
    and len: "length B = bytes_per_sector vol" and w: "p mod bytes_per_sector vol + w \<le> bytes_per_sector vol"
    and old: "\<And>i. i < p mod bytes_per_sector vol \<or> p mod bytes_per_sector vol + w \<le> i \<Longrightarrow>
      B ! i = block_data vol (fat_start vol + p div bytes_per_sector vol) ! i"
  shows "fat_byte (put_fat_sector vol (p div bytes_per_sector vol) B) k
    = (if p \<le> k \<and> k < p + w then unat (B ! (p mod bytes_per_sector vol + (k - p))) else fat_byte vol k)"
proof -
  let ?n = "bytes_per_sector vol"
  note put = fat_byte_put[OF ok fat_pos_sector[OF ok p] k, of B]
  show ?thesis
  proof (cases "p \<le> k \<and> k < p + w")
    case True
    then have "p mod ?n + (k - p) < ?n" using w by linarith
    from div_mod_shift[OF this] True show ?thesis unfolding put by simp
  next
    case False
    have "B ! (k mod ?n) = block_data vol (fat_start vol + p div ?n) ! (k mod ?n)" if "k div ?n = p div ?n"
    proof (rule old, rule ccontr)
      assume "\<not> (k mod ?n < p mod ?n \<or> p mod ?n + w \<le> k mod ?n)"
      then have "k mod ?n = p mod ?n + (k mod ?n - p mod ?n)" "k mod ?n - p mod ?n < w"
        by linarith+
      moreover have "k mod ?n < ?n" using fat_okD(3)[OF ok] by simp
      ultimately have "k = p + (k mod ?n - p mod ?n)"
        using same_sector_offset[OF that, of "k mod ?n - p mod ?n"] by simp
      with \<open>k mod ?n - p mod ?n < w\<close> False show False by linarith
    qed
    then show ?thesis unfolding put if_not_P[OF False] by (simp add: fat_byte_def)
  qed
qed

lemma fat_byte_put16:
  assumes ok: "fat_ok vol" and b: "fat_bits vol = 16" and c: "c < total_clusters vol + 2" and k: "k < fat_size vol"
  defines "p \<equiv> fat_pos vol c"
  shows "fat_byte (fat_put vol c v) k
    = (if k = p then v mod 256 else if k = p + 1 then v div 256 mod 256 else fat_byte vol k)"
proof -
  let ?n = "bytes_per_sector vol"
  have p: "p < fat_size vol" using fat_pos_end(1)[OF ok c] by (simp add: p_def)
  have room: "p mod ?n + 1 < ?n" using fat_pos_room(1)[OF ok b, of c] by (simp add: p_def)
  let ?D = "block_data vol (fat_start vol + p div ?n)"
  have len: "length ?D = ?n" using fat_start_present(2)[OF ok fat_pos_sector[OF ok p]] .
  have "fat_put vol c v = put_fat_sector vol (p div ?n) (write16 ?D (p mod ?n) v)"
    using b by (simp add: fat_put_def p_def Let_def)
  moreover have "write16 ?D (p mod ?n) v ! i = ?D ! i" if "i < p mod ?n \<or> p mod ?n + 2 \<le> i" for i
    using that by (intro nth_write16_other) auto
  ultimately have "fat_byte (fat_put vol c v) k
      = (if p \<le> k \<and> k < p + 2 then unat (write16 ?D (p mod ?n) v ! (p mod ?n + (k - p))) else fat_byte vol k)"
    using fat_put_single[OF ok p k, of "write16 ?D (p mod ?n) v" 2] room len by simp
  moreover have "write16 ?D (p mod ?n) v ! (p mod ?n) = word_of_nat v" "write16 ?D (p mod ?n) v ! (p mod ?n + 1) = word_of_nat (v div 256)"
    using room len by (simp_all add: write16_def)
  ultimately show ?thesis by (auto simp: unat_byte)
qed

lemma fat_byte_put32:
  assumes ok: "fat_ok vol" and b: "fat_bits vol = 32" and c: "c < total_clusters vol + 2" and k: "k < fat_size vol"
  defines "p \<equiv> fat_pos vol c"
  shows "fat_byte (fat_put vol c v) k
    = (if k = p then v mod 256 else if k = p + 1 then v div 256 mod 256 else if k = p + 2 then v div 65536 mod 256
       else if k = p + 3 then v div 16777216 mod 256 else fat_byte vol k)"
proof -
  let ?n = "bytes_per_sector vol"
  have p: "p < fat_size vol" using fat_pos_end(1)[OF ok c] by (simp add: p_def)
  have room: "p mod ?n + 3 < ?n" using fat_pos_room(2)[OF ok b, of c] by (simp add: p_def)
  let ?D = "block_data vol (fat_start vol + p div ?n)"
  have len: "length ?D = ?n" using fat_start_present(2)[OF ok fat_pos_sector[OF ok p]] .
  have "fat_put vol c v = put_fat_sector vol (p div ?n) (write32 ?D (p mod ?n) v)"
    using b by (simp add: fat_put_def p_def Let_def)
  moreover have "write32 ?D (p mod ?n) v ! i = ?D ! i" if "i < p mod ?n \<or> p mod ?n + 4 \<le> i" for i
    using that by (intro nth_write32_other) auto
  ultimately have eq: "fat_byte (fat_put vol c v) k
      = (if p \<le> k \<and> k < p + 4 then unat (write32 ?D (p mod ?n) v ! (p mod ?n + (k - p))) else fat_byte vol k)"
    using fat_put_single[OF ok p k, of "write32 ?D (p mod ?n) v" 4] room len by simp
  have w: "write32 ?D (p mod ?n) v ! (p mod ?n) = word_of_nat v"
    "write32 ?D (p mod ?n) v ! (p mod ?n + 1) = word_of_nat (v div 256)"
    "write32 ?D (p mod ?n) v ! (p mod ?n + 2) = word_of_nat (v div 65536)"
    "write32 ?D (p mod ?n) v ! (p mod ?n + 3) = word_of_nat (v div 16777216)"
    using room len by (simp_all add: write32_def)
  consider "k < p \<or> p + 4 \<le> k" | "k = p" | "k = p + 1" | "k = p + 2" | "k = p + 3" by linarith
  then show ?thesis by cases (use eq w in \<open>simp_all add: unat_byte\<close>)
qed

text \<open>The two bytes of a 12 bit entry.\<close>

lemma or_disjoint_u8:
  fixes a b :: u8
  assumes "a AND b = 0" "unat a + unat b < 256"
  shows "unat (a OR b) = unat a + unat b"
  using assms disjunctive_add_eq_or[of a b] unat_word_ariths(1)[of a b] by simp

lemma unat_low_nibble: "unat ((x :: u8) AND 15) = unat x mod 16"
  using take_bit_eq_mask[of 4 x] unsigned_take_bit_eq[of 4 x] by (simp add: mask_eq_exp_minus_1 take_bit_eq_mod)

lemma unat_high_nibble: "unat ((x :: u8) AND 240) = unat x div 16 * 16"
proof -
  have x: "(x AND 15) AND (x AND 240) = 0" "x = (x AND 15) OR (x AND 240)"
  proof -
    have "(15 :: u8) AND 240 = 0" "(15 :: u8) OR 240 = -1" by simp_all
    then show "(x AND 15) AND (x AND 240) = 0" "x = (x AND 15) OR (x AND 240)"
      by (metis and.left_commute and.assoc and.right_idem and_zero_eq, metis bit.conj_disj_distrib bit.conj_one_right)
  qed
  have le: "unat (x AND 15) < 16" by (simp add: unat_low_nibble)
  have "x = (x AND 15) + (x AND 240)" using x disjunctive_add_eq_or by metis
  then have "unat x = unat ((x AND 15) + (x AND 240))" by (rule arg_cong)
  also have "\<dots> = (unat (x AND 15) + unat (x AND 240)) mod 256" by (simp add: unat_word_ariths)
  finally have "unat x = (unat (x AND 15) + unat (x AND 240)) mod 256" .
  moreover have "unat (x AND 240) \<le> 240" using word_and_le1[of x 240] by (simp add: word_le_nat_alt)
  ultimately have "unat x = unat x mod 16 + unat (x AND 240)" using le by (simp add: unat_low_nibble)
  then show ?thesis by (metis add_left_cancel mod_div_mult_eq)
qed

definition fat12_lo :: "nat \<Rightarrow> nat \<Rightarrow> nat \<Rightarrow> nat" where
  "fat12_lo c old v = (if odd c then old mod 16 + 16 * (v mod 16) else v mod 256)"

definition fat12_hi :: "nat \<Rightarrow> nat \<Rightarrow> nat \<Rightarrow> nat" where
  "fat12_hi c old v = (if odd c then v div 16 mod 256 else old div 16 * 16 + v div 256 mod 16)"

lemma fat12_lo_store:
  "unat ((x AND word_of_nat (fat12_andmask c)) OR (word_of_nat (fat12_ormask c v) :: u8)) = fat12_lo c (unat x) v"
proof (cases "odd c")
  case True
  let ?w = "word_of_nat (v mod 4096 * 16) :: u8"
  have "unat ?w = (v mod 4096 * 16) mod 256" by (rule unat_byte)
  also have "\<dots> = (v mod 4096 * 16) mod (16 * 16)" by simp
  also have "\<dots> = 16 * (v mod 4096 mod 16)" using mult_mod_right[of 16 "v mod 4096" 16] by (simp add: mult.commute)
  also have "v mod 4096 mod 16 = v mod 16" using mod_mod_cancel[of 16 4096 v] by simp
  finally have w: "unat ?w = 16 * (v mod 16)" .
  have "unat (?w AND 15) = 0" unfolding unat_low_nibble w by simp
  then have "15 AND ?w = 0" unfolding unsigned_eq_0_iff by (simp only: and.commute)
  then have "(x AND 15) AND ?w = 0" by (metis and.assoc and_zero_eq)
  moreover have "16 * (v mod 16) \<le> 240" by (simp add: mult_le_mono2[of _ 15])
  ultimately show ?thesis
    using or_disjoint_u8[of "x AND 15" ?w] True unat_low_nibble[of x] w
    by (simp add: fat12_andmask_def fat12_ormask_def fat12_lo_def)
next
  case False
  have m: "v mod 4096 mod 256 = v mod 256" using mod_mod_cancel[of 256 4096 v] by simp
  have "unat (word_of_nat 0xf000 :: u8) = 0" unfolding unat_byte by simp
  then have z: "(word_of_nat 0xf000 :: u8) = 0" by (simp only: unsigned_eq_0_iff)
  show ?thesis
    unfolding fat12_andmask_def fat12_ormask_def fat12_lo_def if_not_P[OF False] z
    by (simp add: unat_of_nat m)
qed

lemma fat12_hi_store:
  "unat ((x AND word_of_nat (fat12_andmask c div 256)) OR (word_of_nat (fat12_ormask c v div 256) :: u8))
    = fat12_hi c (unat x) v"
proof (cases "odd c")
  case True
  have "v mod 4096 * 16 div 256 = v mod 4096 div 16" using div_mult2_eq[of "v mod 4096 * 16" 16 16] by simp
  also have "\<dots> = v div 16 mod 256" using mod_mult2_eq[of v 16 256] by simp
  finally have "v mod 4096 * 16 div 256 = v div 16 mod 256" .
  with True show ?thesis by (simp add: fat12_andmask_def fat12_ormask_def fat12_hi_def unat_of_nat)
next
  case False
  let ?w = "word_of_nat (v mod 4096 div 256) :: u8"
  have d: "v mod 4096 div 256 = v div 256 mod 16" using mod_mult2_eq[of v 256 16] by simp
  then have w: "unat ?w = v div 256 mod 16" by (simp add: unat_of_nat mod_less)
  have "unat (?w AND 240) = 0" unfolding unat_high_nibble w by simp
  then have "240 AND ?w = 0" unfolding unsigned_eq_0_iff by (simp only: and.commute)
  then have "(x AND 240) AND ?w = 0" by (metis and.assoc and_zero_eq)
  moreover have "unat x div 16 * 16 + v div 256 mod 16 < 256"
  proof -
    have "unat x div 16 < 16" using unat_u8_less[of x] by (intro less_mult_imp_div_less) simp
    moreover have "v div 256 mod 16 < 16" by simp
    ultimately show ?thesis by linarith
  qed
  ultimately show ?thesis
    using or_disjoint_u8[of "x AND 240" ?w] False
    by (simp add: fat12_andmask_def fat12_ormask_def fat12_hi_def unat_high_nibble w)
qed

lemma fat_byte_put12:
  assumes ok: "fat_ok vol" and b: "fat_bits vol = 12" and c: "c < total_clusters vol + 2" and k: "k < fat_size vol"
  defines "p \<equiv> fat_pos vol c"
  shows "fat_byte (fat_put vol c v) k
    = (if k = p then fat12_lo c (fat_byte vol p) v else if k = p + 1 then fat12_hi c (fat_byte vol (p + 1)) v
       else fat_byte vol k)"
proof -
  let ?n = "bytes_per_sector vol"
  let ?s = "p div ?n" and ?o = "p mod ?n"
  let ?D = "block_data vol (fat_start vol + ?s)"
  let ?lo = "\<lambda>x. (x AND word_of_nat (fat12_andmask c)) OR word_of_nat (fat12_ormask c v)"
  let ?hi = "\<lambda>x. (x AND word_of_nat (fat12_andmask c div 256)) OR word_of_nat (fat12_ormask c v div 256)"
  have p: "p < fat_size vol" "p + 1 < fat_size vol" using fat_pos_end(1)[OF ok c] by (simp_all add: p_def)
  note n = fat_okD(3)[OF ok]
  have len: "length ?D = ?n" using fat_start_present(2)[OF ok fat_pos_sector[OF ok p(1)]] .
  have lt: "?o < ?n" using n by simp
  show ?thesis
  proof (cases "?o = ?n - 1")
    case False
    have put: "fat_put vol c v = put_fat_sector vol ?s (?D[?o := ?lo (?D ! ?o), ?o + 1 := ?hi (?D ! (?o + 1))])"
      using b False by (simp add: fat_put_def p_def Let_def)
    have room: "?o + 1 < ?n" using False lt by linarith
    have "fat_byte (fat_put vol c v) k = (if p \<le> k \<and> k < p + 2
        then unat ((?D[?o := ?lo (?D ! ?o), ?o + 1 := ?hi (?D ! (?o + 1))]) ! (?o + (k - p))) else fat_byte vol k)"
      unfolding put by (rule fat_put_single[OF ok p(1) k]) (use room len in auto)
    moreover have "fat_byte vol p = unat (?D ! ?o)" "fat_byte vol (p + 1) = unat (?D ! (?o + 1))"
      using div_mod_shift[OF room] by (simp_all add: fat_byte_def)
    ultimately show ?thesis
      using room len fat12_lo_store[of "?D ! ?o" c v] fat12_hi_store[of "?D ! (?o + 1)" c v] by auto
  next
    case True
    let ?v1 = "put_fat_sector vol ?s (?D[?o := ?lo (?D ! ?o)])"
    let ?D1 = "block_data ?v1 (fat_start vol + (?s + 1))"
    have put: "fat_put vol c v = put_fat_sector ?v1 (?s + 1) (?D1[0 := ?hi (?D1 ! 0)])"
      using b True by (simp add: fat_put_def p_def Let_def frame_simps)
    note carry = div_mod_carry[OF True n]
    have s1: "?s + 1 < sectors_per_fat vol" using fat_pos_sector[OF ok p(2)] carry by simp
    have ok1: "fat_ok ?v1" using ok s1 len by (intro put_fat_sector_ok) simp_all
    have len1: "length ?D1 = ?n" using fat_start_present(2)[OF ok1, of "?s + 1"] s1 by (simp add: frame_simps)
    have D1: "?D1 = block_data vol (fat_start vol + (?s + 1))" using block_data_put[OF ok _ s1, of ?s] s1 by simp
    have size1: "fat_size ?v1 = fat_size vol" by (simp add: fat_size_def frame_simps)
    have b1: "fat_byte ?v1 k = (if k = p then fat12_lo c (fat_byte vol p) v else fat_byte vol k)"
    proof -
      have "fat_byte ?v1 k = (if p \<le> k \<and> k < p + 1 then unat ((?D[?o := ?lo (?D ! ?o)]) ! (?o + (k - p))) else fat_byte vol k)"
        by (rule fat_put_single[OF ok p(1) k]) (use lt len in auto)
      then show ?thesis using lt len fat12_lo_store[of "?D ! ?o" c v] by (auto simp: fat_byte_def)
    qed
    have "fat_byte (fat_put vol c v) k = (if p + 1 \<le> k \<and> k < p + 1 + 1
        then unat ((?D1[0 := ?hi (?D1 ! 0)]) ! ((p + 1) mod ?n + (k - (p + 1)))) else fat_byte ?v1 k)"
      using fat_put_single[OF ok1, of "p + 1" k "?D1[0 := ?hi (?D1 ! 0)]" 1] p(2) k len1 n carry
      unfolding put size1 by (simp add: frame_simps)
    moreover have "fat_byte vol (p + 1) = unat (?D1 ! 0)" unfolding fat_byte_def carry D1 ..
    ultimately show ?thesis
      using len1 n fat12_hi_store[of "?D1 ! 0" c v] carry b1 by auto
  qed
qed

section \<open>Entries\<close>

lemma fat_byte_less: "fat_byte vol k < 256"
  by (simp add: fat_byte_def)

lemma fat12_value_split:
  assumes "a < 256"
  shows "fat12_value c (a + 256 * b)
    = (let w = (if odd c then a div 16 + 16 * b else a + 256 * (b mod 16)) in if w > 0xff0 then w + 0x0ffff000 else w)"
proof -
  have "(a + 256 * b) div 16 = a div 16 + 16 * b" by simp
  moreover have "(a + 256 * b) mod 4096 = a + 256 * (b mod 16)"
    using mod_mult2_eq[of "a + 256 * b" 256 16] assms by simp
  ultimately show ?thesis by (simp add: fat12_value_def)
qed

lemma fat12_own:
  assumes "fat_bits vol = 12"
  shows "fat12_value c (fat12_lo c x v + 256 * fat12_hi c y v) = fat_norm vol v"
proof -
  have lo: "fat12_lo c x v < 256"
  proof -
    have "x mod 16 \<le> 15" "v mod 16 \<le> 15" using mod_less_divisor[of 16 x] mod_less_divisor[of 16 v] by linarith+
    then have "x mod 16 + 16 * (v mod 16) < 256" by linarith
    then show ?thesis by (simp add: fat12_lo_def)
  qed
  have eq: "(if odd c then fat12_lo c x v div 16 + 16 * fat12_hi c y v
      else fat12_lo c x v + 256 * (fat12_hi c y v mod 16)) = v mod 4096"
  proof (cases "odd c")
    case True
    have 1: "(x mod 16 + 16 * (v mod 16)) div 16 = v mod 16" by simp
    have 2: "v mod 4096 = v mod 16 + 16 * (v div 16 mod 256)" using mod_mult2_eq[of v 16 256] by simp
    show ?thesis unfolding fat12_lo_def fat12_hi_def if_P[OF True] 1 2 ..
  next
    case False
    have 1: "(y div 16 * 16 + v div 256 mod 16) mod 16 = v div 256 mod 16" by simp
    have 2: "v mod 4096 = v mod 256 + 256 * (v div 256 mod 16)" using mod_mult2_eq[of v 256 16] by simp
    show ?thesis unfolding fat12_lo_def fat12_hi_def if_not_P[OF False] 1 2 ..
  qed
  show ?thesis unfolding fat12_value_split[OF lo] eq fat_norm_def using assms by simp
qed

lemma fat12_value_cong:
  assumes "a < 256" "a' < 256"
  shows "even c \<Longrightarrow> b mod 16 = b' mod 16 \<Longrightarrow> fat12_value c (a + 256 * b) = fat12_value c (a + 256 * b')"
    "odd c \<Longrightarrow> a div 16 = a' div 16 \<Longrightarrow> fat12_value c (a + 256 * b) = fat12_value c (a' + 256 * b)"
  unfolding fat12_value_split[OF assms(1)] fat12_value_split[OF assms(2)] by simp_all

lemma fat12_pos_split: "\<exists>m r. (c::nat) = 2 * m + r \<and> r < 2 \<and> c + c div 2 = 3 * m + r \<and> (odd c \<longleftrightarrow> r = 1)"
  by (intro exI[of _ "c div 2"] exI[of _ "c mod 2"]) (auto simp: odd_iff_mod_2_eq_one)

lemma fat12_pos_neighbour:
  fixes c c' :: nat
  shows "c' + c' div 2 + 1 = c + c div 2 \<Longrightarrow> odd c \<and> even c'"
    "c' + c' div 2 = c + c div 2 \<Longrightarrow> c' = c"
proof -
  obtain m r where c: "c = 2 * m + r" "r < 2" "c + c div 2 = 3 * m + r" "odd c \<longleftrightarrow> r = 1"
    using fat12_pos_split by blast
  obtain m' r' where c': "c' = 2 * m' + r'" "r' < 2" "c' + c' div 2 = 3 * m' + r'" "odd c' \<longleftrightarrow> r' = 1"
    using fat12_pos_split by blast
  show "odd c \<and> even c'" if "c' + c' div 2 + 1 = c + c div 2"
  proof -
    have "r = 1 \<and> r' = 0" using that c(2) c'(2) unfolding c(3) c'(3) by presburger
    then show ?thesis using c(4) c'(4) by simp
  qed
  show "c' = c" if "c' + c' div 2 = c + c div 2"
  proof -
    have "r' = r \<and> m' = m" using that c(2) c'(2) unfolding c(3) c'(3) by presburger
    then show ?thesis using c(1) c'(1) by simp
  qed
qed
text \<open>The neighbour that shares a byte with a 12 bit entry keeps its half of it.\<close>

lemma fat12_other:
  assumes ok: "fat_ok vol" and b: "fat_bits vol = 12" and c: "c < total_clusters vol + 2"
    and c': "c' < total_clusters vol + 2" and ne: "c' \<noteq> c"
  shows "fat_raw (fat_put vol c v) c' = fat_raw vol c'"
proof -
  let ?p = "fat_pos vol c" and ?q = "fat_pos vol c'" and ?v = "fat_put vol c v"
  let ?f = "fat_byte vol"
  have pv: "fat_pos ?v = fat_pos vol" "fat_bits ?v = 12" using b by (simp_all add: fun_eq_iff fat_pos_def frame_simps)
  have put: "fat_byte ?v k = (if k = ?p then fat12_lo c (?f ?p) v else if k = ?p + 1 then fat12_hi c (?f (?p + 1)) v
      else ?f k)" if "k < fat_size vol" for k
    using fat_byte_put12[OF ok b c that] .
  note e = fat_pos_end(1)[OF ok c']
  have ge: "?q = c' + c' div 2" "?p = c + c div 2" using b by (simp_all add: fat_pos_values)
  have raw: "fat_raw ?v c' = fat12_value c' (fat_byte ?v ?q + 256 * fat_byte ?v (?q + 1))"
    "fat_raw vol c' = fat12_value c' (?f ?q + 256 * ?f (?q + 1))"
    using b pv by (simp_all add: fat_raw_def Let_def)
  show ?thesis
  proof (cases "?q + 1 = ?p")
    case True
    then have par: "odd c" "even c'" using fat12_pos_neighbour(1)[of c' c] ge by simp_all
    have "fat_byte ?v ?q = ?f ?q" "fat_byte ?v (?q + 1) = fat12_lo c (?f (?q + 1)) v"
      using put[of ?q] put[of "?q + 1"] e True by simp_all
    moreover have "fat12_lo c (?f (?q + 1)) v mod 16 = ?f (?q + 1) mod 16" using par(1) by (simp add: fat12_lo_def)
    ultimately show ?thesis
      unfolding raw using fat12_value_cong(1)[OF fat_byte_less fat_byte_less par(2)] by metis
  next
    case n1: False
    show ?thesis
    proof (cases "?q = ?p + 1")
      case True
      then have par: "even c" "odd c'" using fat12_pos_neighbour(1)[of c c'] ge by simp_all
      have "fat_byte ?v ?q = fat12_hi c (?f ?q) v" "fat_byte ?v (?q + 1) = ?f (?q + 1)"
        using put[of ?q] put[of "?q + 1"] e True by simp_all
      moreover have "fat12_hi c (?f ?q) v div 16 = ?f ?q div 16" using par(1) by (simp add: fat12_hi_def)
      ultimately show ?thesis
        unfolding raw using fat12_value_cong(2)[OF fat_byte_less fat_byte_less par(2)] by metis
    next
      case False
      have "?q \<noteq> ?p" using fat12_pos_neighbour(2)[of c' c] ne ge by auto
      then have "fat_byte ?v ?q = ?f ?q" "fat_byte ?v (?q + 1) = ?f (?q + 1)"
        using put[of ?q] put[of "?q + 1"] e n1 False by simp_all
      then show ?thesis unfolding raw by simp
    qed
  qed
qed

theorem fat_raw_put:
  assumes ok: "fat_ok vol" and c: "c < total_clusters vol + 2" and c': "c' < total_clusters vol + 2"
  shows "fat_raw (fat_put vol c v) c' = (if c' = c then fat_norm vol v else fat_raw vol c')"
proof -
  let ?p = "fat_pos vol c" and ?q = "fat_pos vol c'" and ?v = "fat_put vol c v"
  have pv: "fat_pos ?v = fat_pos vol" "fat_bits ?v = fat_bits vol" by (simp_all add: fun_eq_iff fat_pos_def frame_simps)
  note e = fat_pos_end[OF ok c']
  consider (twelve) "fat_bits vol = 12" | (sixteen) "fat_bits vol = 16" | (thirtytwo) "fat_bits vol = 32"
    using fat_okD(1)[OF ok] by blast
  then show ?thesis
  proof cases
    case twelve
    show ?thesis
    proof (cases "c' = c")
      case True
      then have "fat_raw ?v c' = fat12_value c (fat_byte ?v ?p + 256 * fat_byte ?v (?p + 1))"
        using twelve pv by (simp add: fat_raw_def Let_def)
      also have "\<dots> = fat_norm vol v"
        using fat_byte_put12[OF ok twelve c, of ?p v] fat_byte_put12[OF ok twelve c, of "?p + 1" v] e(1) True
          fat12_own[OF twelve] by simp
      finally show ?thesis using True by simp
    qed (simp add: fat12_other[OF ok twelve c c'])
  next
    case sixteen
    let ?r = "\<lambda>vol. fat_byte vol ?q + 256 * fat_byte vol (?q + 1)"
    have raw: "fat_raw ?v c' = (if ?r ?v > 0xfff0 then ?r ?v + 0x0fff0000 else ?r ?v)"
      "fat_raw vol c' = (if ?r vol > 0xfff0 then ?r vol + 0x0fff0000 else ?r vol)"
      using sixteen pv by (simp_all add: fat_raw_def Let_def)
    have eq: "?r ?v = (if c' = c then v mod 65536 else ?r vol)"
      using fat_byte_put16[OF ok sixteen c, of ?q v] fat_byte_put16[OF ok sixteen c, of "?q + 1" v] e(1) sixteen
      unfolding bytes2[of v, symmetric] by (simp add: fat_pos_values) (arith?)
    show ?thesis unfolding raw eq using sixteen by (cases "c' = c") (simp_all add: fat_norm_def Let_def)
  next
    case thirtytwo
    let ?r = "\<lambda>vol. fat_byte vol ?q + 256 * fat_byte vol (?q + 1) + 65536 * fat_byte vol (?q + 2)
      + 16777216 * fat_byte vol (?q + 3)"
    have m: "v mod 4294967296 mod 2 ^ 28 = v mod 2 ^ 28" using mod_mod_cancel[of "2 ^ 28" 4294967296 v] by simp
    have raw: "fat_raw ?v c' = ?r ?v mod 2 ^ 28" "fat_raw vol c' = ?r vol mod 2 ^ 28"
      using thirtytwo pv by (simp_all add: fat_raw_def Let_def)
    have put: "fat_byte ?v k = (if k = ?p then v mod 256 else if k = ?p + 1 then v div 256 mod 256
        else if k = ?p + 2 then v div 65536 mod 256 else if k = ?p + 3 then v div 16777216 mod 256 else fat_byte vol k)"
      if "k < fat_size vol" for k using fat_byte_put32[OF ok thirtytwo c that] .
    show ?thesis
    proof (cases "c' = c")
      case True
      then have "?r ?v = v mod 4294967296"
        using put[of ?q] put[of "?q + 1"] put[of "?q + 2"] put[of "?q + 3"] e(2)[OF thirtytwo]
        unfolding bytes4[of v, symmetric] by simp
      with True thirtytwo show ?thesis unfolding raw(1) by (simp only: m fat_norm_def) simp
    next
      case False
      have "?p = 4 * c" "?q = 4 * c'" using thirtytwo by (simp_all add: fat_pos_values)
      then have "fat_byte ?v (?q + j) = fat_byte vol (?q + j)" if "j < 4" for j
      proof -
        have "?q + j < fat_size vol" using that e(2)[OF thirtytwo] by linarith
        moreover have "?q + j \<noteq> ?p" "?q + j \<noteq> ?p + 1" "?q + j \<noteq> ?p + 2" "?q + j \<noteq> ?p + 3"
          using that False \<open>?p = 4 * c\<close> \<open>?q = 4 * c'\<close> by presburger+
        ultimately show ?thesis using put[of "?q + j"] by simp
      qed
      from this[of 0] this[of 1] this[of 2] this[of 3] False show ?thesis unfolding raw by simp
    qed
  qed
qed

lemma fat_put_ok:
  assumes ok: "fat_ok vol" and c: "c < total_clusters vol + 2"
  shows "fat_ok (fat_put vol c v)" "fat_mirrored vol \<Longrightarrow> fats_mirrored vol \<Longrightarrow> fats_mirrored (fat_put vol c v)"
proof -
  let ?n = "bytes_per_sector vol" and ?s = "fat_pos vol c div bytes_per_sector vol"
  have s: "?s < sectors_per_fat vol"
    using fat_pos_end(1)[OF ok c] by (intro fat_pos_sector[OF ok]) simp
  note len = fat_start_present(2)[OF ok s]
  have put: "fat_ok (put_fat_sector w t B) \<and> (fat_mirrored w \<longrightarrow> fats_mirrored w \<longrightarrow> fats_mirrored (put_fat_sector w t B))"
    if "fat_ok w" "t < sectors_per_fat w" "length B = bytes_per_sector w" for w t B
    using put_fat_sector_ok[OF that] put_fat_sector_mirrored[OF that(1) _ _ that(2)] by blast
  have "fat_ok (fat_put vol c v) \<and> (fat_mirrored vol \<longrightarrow> fats_mirrored vol \<longrightarrow> fats_mirrored (fat_put vol c v))"
  proof (cases "fat_bits vol = 12 \<and> fat_pos vol c mod ?n = ?n - 1")
    case True
    let ?k = "fat_pos vol c mod ?n"
    define B where "B = (block_data vol (fat_start vol + ?s))[?k :=
      (block_data vol (fat_start vol + ?s) ! ?k AND word_of_nat (fat12_andmask c)) OR word_of_nat (fat12_ormask c v)]"
    define w where "w = put_fat_sector vol ?s B"
    have w: "fat_ok w \<and> (fat_mirrored vol \<longrightarrow> fats_mirrored vol \<longrightarrow> fats_mirrored w)"
      unfolding w_def using ok s len by (intro put) (simp_all add: B_def)
    have s1: "?s + 1 < sectors_per_fat w"
      using fat_adv_bounds(1)[OF ok c] True by (simp add: w_def fat_adv_def frame_simps)
    have "length (block_data w (fat_start w + (?s + 1))) = bytes_per_sector w"
      using fat_start_present(2)[of w, OF _ s1] w by simp
    moreover have "fat_put vol c v = (let b2 = block_data w (fat_start w + (?s + 1)) in put_fat_sector w (?s + 1)
        (b2[0 := (b2 ! 0 AND word_of_nat (fat12_andmask c div 256)) OR word_of_nat (fat12_ormask c v div 256)]))"
      using True by (simp add: fat_put_def Let_def w_def B_def)
    ultimately show ?thesis
      using put[of w "?s + 1"] w s1 by (simp add: Let_def) (simp add: w_def frame_simps)
  next
    case False
    then show ?thesis using put[OF ok s] len by (auto simp: fat_put_def Let_def)
  qed
  then show "fat_ok (fat_put vol c v)" "fat_mirrored vol \<Longrightarrow> fats_mirrored vol \<Longrightarrow> fats_mirrored (fat_put vol c v)"
    by blast+
qed

lemma fat_raw_less: "fat_raw vol c < 2 ^ 28"
proof -
  let ?w = "fat_byte vol (fat_pos vol c) + 256 * fat_byte vol (fat_pos vol c + 1)"
  have w: "?w < 65536"
    using fat_byte_less[of vol "fat_pos vol c"] fat_byte_less[of vol "fat_pos vol c + 1"] by linarith
  then have "?w div 16 < 4096" by (intro less_mult_imp_div_less) simp
  then have "fat12_value c ?w < 2 ^ 28"
    by (simp add: fat12_value_def Let_def)
  with w show ?thesis by (simp add: fat_raw_def Let_def)
qed

section \<open>The entry operations\<close>

text \<open>What \<^verbatim>\<open>get_fat_entry\<close> makes of a stored value.\<close>

definition fat_entry :: "nspace \<Rightarrow> nat \<Rightarrow> int" where
  "fat_entry vol c =
     (let v = fat_raw vol c
      in if v = 0 \<or> 2 \<le> v \<and> v < total_clusters vol + 2 then int v
         else if v > 0x0ffffff7 then END_FAT_ENTRY else BAD_FAT_ENTRY)"

lemma get_fat_entry_eq:
  assumes ok: "fat_ok vol" and c: "2 \<le> c" "c < total_clusters vol + 2"
  shows "get_fat_entry vol c = fat_entry vol c"
proof -
  note lt = fat_raw_less[of vol c]
  then have "fst (fat_ioctl_base vol GET_ENTRY c 0) = int (fat_raw vol c)"
    unfolding fat_ioctl_base_def fat_ioctl_get[OF ok c] by simp
  moreover have "IS_DATA_CLUSTER vol (int (fat_raw vol c)) \<longleftrightarrow> 2 \<le> fat_raw vol c \<and> fat_raw vol c < total_clusters vol + 2"
    using lt fat_clusters_bound(1)[OF ok] by (intro IS_DATA_CLUSTER_nat) simp_all
  ultimately show ?thesis by (auto simp: get_fat_entry_def fat_entry_def Let_def)
qed

lemma set_fat_entry_eq:
  "fat_ok vol \<Longrightarrow> 2 \<le> c \<Longrightarrow> c < total_clusters vol + 2 \<Longrightarrow> set_fat_entry vol c v = (0, fat_put vol c (u32_of_int v))"
  by (simp add: set_fat_entry_def fat_ioctl_base_def fat_ioctl_set)

text \<open>The values the chain operations store survive in every format.\<close>

lemma fat_norm_small:
  assumes "fat_ok vol" "v < total_clusters vol + 2"
  shows "fat_norm vol v = v"
proof -
  have "v < 2 ^ 28" using fat_clusters_bound(2)[OF assms(1)] assms(2) by linarith
  then show ?thesis
    using fat_okD(1,8,9)[OF assms(1)] assms(2) by (auto simp: fat_norm_def Let_def)
qed

lemma fat_norm_end: "fat_ok vol \<Longrightarrow> fat_norm vol 0x0fffffff = 0x0fffffff"
  using fat_okD(1)[of vol] by (auto simp: fat_norm_def)

lemma fat_invalid_cluster:
  fixes action :: fat_action
  assumes "\<not> IS_DATA_CLUSTER vol (int c)" "action = GET_ENTRY \<or> action = SET_ENTRY"
  shows "fat_ioctl_gen se cc vol action c N = (B_BAD_VALUE, vol)"
  using assms by (auto simp: fat_ioctl_gen_def Let_def)

section \<open>A small volume\<close>

text \<open>Four clusters under a 12 bit table with eight bytes per sector, in two mirrored copies; the entry of
  cluster 5 lies across two sectors. The witnesses use it.\<close>

definition tiny_vnode :: vnode where
  "tiny_vnode = \<lparr>vn_vnid = 0, vn_dir_vnid = 0, vn_disk_image = 0, vn_iteration = 0, vn_sindex = 0,
     vn_eindex = 0, vn_cluster = 0, vn_mode = 0, vn_st_size = 0, vn_st_time = 0, vn_end_cluster = 0,
     vn_mime = None, vn_dirty = False, vn_filename = None, vn_cache = False\<rparr>"

definition tiny_volume :: nspace where
  "tiny_volume = \<lparr>vol_id = 1, vol_flags = 0,
     fBlockCache = (\<lambda>bn. if bn < 16 then Some (replicate 8 0) else None),
     bytes_per_sector = 8, sectors_per_cluster = 1, reserved_sectors = 1, fat_count = 2,
     root_entries_count = 1, total_sectors = 16, sectors_per_fat = 2, media_descriptor = 0xf8,
     fsinfo_sector = 0, total_clusters = 4, free_clusters = 4, fat_bits = 12, fat_mirrored = True,
     active_fat = 0, root_start = 5, root_sectors = 4, root_vnode = tiny_vnode, vol_entry = -2,
     vol_label = replicate 12 0, data_start = 9, last_allocated = 2, beos_vnid = 0,
     respect_disk_image = False, fs_flags = 0,
     vol_vcache = \<lparr>cur_vnid = 0, cache_size = 1, by_vnid = [[]], by_loc = [[]]\<rparr>,
     vol_dlist = \<lparr>dl_entries = 0, dl_allocated = 0, vnid_list = []\<rparr>, fault = False\<rparr>"

lemma tiny_volume_ok: "fat_ok tiny_volume" "fats_mirrored tiny_volume"
  by (auto simp: fat_ok_def fats_mirrored_def tiny_volume_def fat_size_def fat_start_def)

section \<open>Properties\<close>

text \<open>The blocks of sector \<open>s\<close> of the active table, and of its mirrors when the volume has them.\<close>

definition table_sector :: "nspace \<Rightarrow> nat \<Rightarrow> nat \<Rightarrow> bool" where
  "table_sector vol s bn \<longleftrightarrow> s < sectors_per_fat vol
     \<and> (\<exists>i < fat_count vol. (i = active_fat vol \<or> fat_mirrored vol) \<and> bn = reserved_sectors vol + i * sectors_per_fat vol + s)"

lemma put_fat_sector_blocks: "s < sectors_per_fat vol \<Longrightarrow> \<not> table_sector vol s bn \<Longrightarrow> fBlockCache (put_fat_sector vol s b) bn = fBlockCache vol bn"
  by (auto simp: put_fat_sector_def fat_sector_cache_def table_sector_def)

lemma table_sector_put [simp]: "table_sector (put_fat_sector vol s' b) s bn = table_sector vol s bn"
  by (simp add: table_sector_def frame_simps)

lemma fat_put_blocks:
  assumes "fat_ok vol" "c < total_clusters vol + 2" "\<not> table_sector vol (fat_pos vol c div bytes_per_sector vol) bn"
    and "\<not> table_sector vol ((fat_pos vol c + 1) div bytes_per_sector vol) bn"
  shows "fBlockCache (fat_put vol c v) bn = fBlockCache vol bn"
proof -
  let ?n = "bytes_per_sector vol" and ?p = "fat_pos vol c"
  have e: "?p + 1 < fat_size vol" "?p < fat_size vol" using fat_pos_end(1)[OF assms(1,2)] by simp_all
  note s = fat_pos_sector[OF assms(1) e(2)] fat_pos_sector[OF assms(1) e(1)]
  show ?thesis
  proof (cases "fat_bits vol = 12 \<and> ?p mod ?n = ?n - 1")
    case True
    then have k: "(?p + 1) div ?n = ?p div ?n + 1" using fat_okD(3)[OF assms(1)] by (simp add: div_Suc mod_Suc)
    have "fBlockCache (put_fat_sector (put_fat_sector vol (?p div ?n) B) (?p div ?n + 1) B') bn = fBlockCache vol bn" for B B'
      using put_fat_sector_blocks[OF s(1) assms(3), of B] put_fat_sector_blocks[of "?p div ?n + 1" "put_fat_sector vol (?p div ?n) B" bn B'] assms(4)[unfolded k] s(2)[unfolded k]
      by (simp add: frame_simps)
    then show ?thesis using True by (simp add: fat_put_def Let_def)
  next
    case False
    then show ?thesis using put_fat_sector_blocks[OF s(1) assms(3)] by (auto simp: fat_put_def Let_def)
  qed
qed

text \<open>C8: writing an entry of the file allocation table and reading entries back, on 12, 16 and 32 bit
  tables. On a well-formed volume \<^verbatim>\<open>set_fat_entry\<close> succeeds for every data cluster; the entry written
  then reads as the value (a free mark, a link to a data cluster or the end mark), every other
  entry, the two reserved ones included, is as before, also when a 12 bit entry shares a byte with it or lies across two
  sectors. The only blocks of the cache that change are the sectors that hold the two first bytes of the entry, in the active
  table and its mirrors; no other field of the volume changes.\<close>

theorem set_get_fat_entry:
  assumes "fat_ok vol" "2 \<le> c" "c < total_clusters vol + 2"
    and "v = 0 \<or> 2 \<le> v \<and> v < total_clusters vol + 2 \<or> v = 0x0fffffff"
  shows "\<exists>vol'. set_fat_entry vol c (int v) = (0, vol') \<and> fat_ok vol'
    \<and> get_fat_entry vol' c = (if v = 0x0fffffff then END_FAT_ENTRY else int v)
    \<and> (\<forall>d. 2 \<le> d \<and> d < total_clusters vol + 2 \<and> d \<noteq> c \<longrightarrow> get_fat_entry vol' d = get_fat_entry vol d)
    \<and> (\<forall>d. d < total_clusters vol + 2 \<and> d \<noteq> c \<longrightarrow> fat_raw vol' d = fat_raw vol d)
    \<and> vol' = vol\<lparr>fBlockCache := fBlockCache vol'\<rparr>
    \<and> (\<forall>bn. fBlockCache vol' bn = fBlockCache vol bn \<or> table_sector vol (fat_pos vol c div bytes_per_sector vol) bn
          \<or> table_sector vol ((fat_pos vol c + 1) div bytes_per_sector vol) bn)"
proof -
  let ?vol' = "fat_put vol c v"
  note ok' = fat_put_ok(1)[OF assms(1,3), of v] and raw = fat_raw_put[OF assms(1) assms(3)]
  have tc: "total_clusters ?vol' = total_clusters vol" by (simp add: frame_simps)
  have "v < 2 ^ 32" using assms(4) fat_clusters_bound(1)[OF assms(1)] by auto
  then have set: "set_fat_entry vol c (int v) = (0, ?vol')"
    using set_fat_entry_eq[OF assms(1-3)] by simp
  have "fat_norm vol v = v"
    using assms(4) fat_norm_small[OF assms(1)] fat_norm_end[OF assms(1)] by auto
  then have "get_fat_entry ?vol' c = (if v = 0x0fffffff then END_FAT_ENTRY else int v)"
    using get_fat_entry_eq[OF ok', of c] assms raw[OF assms(3)]
      fat_clusters_bound(2)[OF assms(1)] by (auto simp: fat_entry_def tc END_FAT_ENTRY_def)
  moreover have "fat_raw ?vol' d = fat_raw vol d" if "d < total_clusters vol + 2" "d \<noteq> c" for d
    using raw[OF that(1)] that(2) by simp
  moreover have "get_fat_entry ?vol' d = get_fat_entry vol d" if "2 \<le> d" "d < total_clusters vol + 2" "d \<noteq> c" for d
    using get_fat_entry_eq[OF ok', of d] get_fat_entry_eq[OF assms(1) that(1,2)] raw[OF that(2)] that
    by (simp add: fat_entry_def tc)
  moreover have "?vol' = vol\<lparr>fBlockCache := fBlockCache ?vol'\<rparr>"
    by (simp add: fat_put_def put_fat_sector_def Let_def)
  ultimately show ?thesis using set ok' fat_put_blocks[OF assms(1,3)] by blast
qed

theorem set_get_fat_entry_witness:
  "\<exists>vol'. set_fat_entry tiny_volume 5 (int 3) = (0, vol') \<and> fat_ok vol' \<and> get_fat_entry vol' 5 = 3"
proof -
  have "2 \<le> (5::nat)" "5 < total_clusters tiny_volume + 2" "3 < total_clusters tiny_volume + 2"
    by (simp_all add: tiny_volume_def)
  then show ?thesis using set_get_fat_entry[OF tiny_volume_ok(1), of 5 3] by auto
qed

text \<open>C27: while the volume mirrors its tables, writing an entry keeps all copies equal.\<close>

theorem set_fat_entry_keeps_mirrors:
  assumes "fat_ok vol" "fat_mirrored vol" "fats_mirrored vol" "c < 2 ^ 32"
  shows "fats_mirrored (snd (set_fat_entry vol c v))"
proof (cases "IS_DATA_CLUSTER vol (int c)")
  case True
  then have "2 \<le> c" "c < total_clusters vol + 2"
    using IS_DATA_CLUSTER_nat[OF assms(4) fat_clusters_bound(1)[OF assms(1)]] by auto
  then show ?thesis using assms by (simp add: set_fat_entry_eq fat_put_ok)
next
  case False
  then show ?thesis using assms(3) by (simp add: set_fat_entry_def fat_ioctl_base_def fat_invalid_cluster)
qed

theorem set_fat_entry_keeps_mirrors_witness:
  "fats_mirrored (snd (set_fat_entry tiny_volume 5 3))"
  by (rule set_fat_entry_keeps_mirrors[OF tiny_volume_ok(1) _ tiny_volume_ok(2)]) (simp_all add: tiny_volume_def)

end
