(* ===== verification/Fat_Chain.thy ===== *)
theory Fat_Chain
  imports Fat_Laws
begin

text \<open>
  Cluster chains: walking, counting and clearing them (\<^verbatim>\<open>get_nth_fat_entry\<close>, \<^verbatim>\<open>count_clusters\<close>,
  \<^verbatim>\<open>clear_fat_chain\<close>), on top of the interface \<open>fat_store\<close> of a table with readable and writable entries.
\<close>

section \<open>The interface\<close>

text \<open>A table of links. \<open>entry\<close> gives the decoded entry of a cluster, \<open>put\<close> stores a raw value; only values
  that stand for themselves are covered by the law.\<close>

locale fat_store =
  fixes ok :: "'s \<Rightarrow> bool" and nclusters :: "'s \<Rightarrow> nat"
    and entry :: "'s \<Rightarrow> nat \<Rightarrow> int" and put :: "'s \<Rightarrow> nat \<Rightarrow> nat \<Rightarrow> 's"
  assumes nclusters_put: "nclusters (put s c v) = nclusters s"
    and ok_put: "ok s \<Longrightarrow> 2 \<le> c \<Longrightarrow> c < nclusters s + 2 \<Longrightarrow> ok (put s c v)"
    and entry_put: "ok s \<Longrightarrow> 2 \<le> c \<Longrightarrow> c < nclusters s + 2 \<Longrightarrow> 2 \<le> d \<Longrightarrow> d < nclusters s + 2
      \<Longrightarrow> v = 0 \<or> 2 \<le> v \<and> v < nclusters s + 2 \<or> v = 0x0fffffff
      \<Longrightarrow> entry (put s c v) d = (if d = c then int v else entry s d)"
    and small: "ok s \<Longrightarrow> nclusters s + 2 < 0x0ffffff0"
begin

definition data :: "'s \<Rightarrow> nat \<Rightarrow> bool" where
  "data s c \<longleftrightarrow> 2 \<le> c \<and> c < nclusters s + 2"

fun chain :: "'s \<Rightarrow> nat list \<Rightarrow> bool" where
  "chain s [] \<longleftrightarrow> False"
| "chain s [c] \<longleftrightarrow> data s c \<and> entry s c = 0x0fffffff"
| "chain s (c # d # cs) \<longleftrightarrow> data s c \<and> entry s c = int d \<and> chain s (d # cs)"

lemma chain_hd: "chain s (c # cs) \<Longrightarrow> data s c"
  by (cases cs) auto

lemma chain_data: "chain s cs \<Longrightarrow> c \<in> set cs \<Longrightarrow> data s c"
  by (induction s cs rule: chain.induct) auto

lemma chain_suffix: "chain s (xs @ ys) \<Longrightarrow> ys \<noteq> [] \<Longrightarrow> chain s ys"
proof (induction xs)
  case (Cons x xs)
  then show ?case by (cases "xs @ ys") (auto dest: chain_hd)
qed simp

lemma chain_unique:
  "ok s \<Longrightarrow> chain s (c # xs) \<Longrightarrow> chain s (c # ys) \<Longrightarrow> xs = ys"
proof (induction xs arbitrary: c ys)
  case Nil
  then show ?case
    using small[of s] by (cases ys) (auto simp: data_def dest!: chain_hd)
next
  case (Cons x xs)
  then obtain z zs where ys: "ys = z # zs"
    using small[of s] by (cases ys) (auto simp: data_def dest!: chain_hd)
  with Cons.prems have "z = x" by auto
  with Cons.prems ys have "xs = zs" by (intro Cons.IH[of x zs]) simp_all
  with ys \<open>z = x\<close> show ?case by simp
qed

text \<open>A chain that ends cannot come back to a cluster.\<close>

lemma chain_distinct: "ok s \<Longrightarrow> chain s cs \<Longrightarrow> distinct cs"
proof (induction cs)
  case (Cons c cs)
  have "c \<notin> set cs"
  proof
    assume "c \<in> set cs"
    then obtain xs ys where cs: "cs = xs @ c # ys" by (meson split_list)
    then have "chain s (c # ys)" using chain_suffix[of s "c # xs" "c # ys"] Cons.prems(2) by simp
    then have "cs = ys" using chain_unique[OF Cons.prems(1,2)] by blast
    with cs show False by (metis length_append length_Cons not_add_less2 lessI)
  qed
  moreover have "distinct cs"
    using Cons by (cases cs) (auto dest: chain_suffix[of s "[c]" cs, simplified])
  ultimately show ?case by simp
qed simp

lemma chain_length: "ok s \<Longrightarrow> chain s cs \<Longrightarrow> length cs \<le> nclusters s"
proof -
  assume "ok s" "chain s cs"
  then have "length cs = card (set cs)" by (simp add: chain_distinct distinct_card)
  also have "\<dots> \<le> card {2..<nclusters s + 2}"
    using \<open>chain s cs\<close> by (intro card_mono) (auto dest: chain_data simp: data_def)
  finally show ?thesis by simp
qed

lemma chain_cong:
  "chain s cs \<Longrightarrow> nclusters s' = nclusters s \<Longrightarrow> (\<And>c. c \<in> set cs \<Longrightarrow> entry s' c = entry s c) \<Longrightarrow> chain s' cs"
  by (induction s cs rule: chain.induct) (auto simp: data_def)

lemma chain_put_other:
  assumes "ok s" "chain s cs" "data s c" "c \<notin> set cs" "v = 0 \<or> data s v \<or> v = 0x0fffffff"
  shows "chain (put s c v) cs"
  using assms(2)
proof (rule chain_cong)
  show "entry (put s c v) d = entry s d" if "d \<in> set cs" for d
    using that assms chain_data[OF assms(2) that] by (subst entry_put) (auto simp: data_def)
qed (rule nclusters_put)

text \<open>Replacing the end of a chain by a link to another chain.\<close>

lemma chain_append:
  assumes "ok s" "chain s (xs @ [x])" "chain s (y # ys)" "set (xs @ [x]) \<inter> set (y # ys) = {}"
  shows "chain (put s x y) (xs @ x # y # ys)"
proof -
  have dx: "data s x" "data s y" using assms(2,3) by (auto dest: chain_data)
  have dist: "x \<notin> set xs" using chain_distinct[OF assms(1,2)] by simp
  have tail: "chain (put s x y) (x # y # ys)"
    using chain_put_other[OF assms(1,3) dx(1), of y] assms(1,4) dx
    by (auto simp: data_def nclusters_put entry_put)
  have "chain (put s x y) (xs' @ x # y # ys)" if "chain s (xs' @ [x])" "set xs' \<subseteq> set xs" for xs'
    using that
  proof (induction xs')
    case (Cons a as)
    have a: "data s a" "a \<noteq> x" using Cons.prems dist chain_hd[of s a] by auto
    have e: "entry (put s x y) a = entry s a"
      using a dx assms(1) by (subst entry_put) (auto simp: data_def)
    have "chain s (as @ [x])" using chain_suffix[of s "[a]" "as @ [x]"] Cons.prems(1) by simp
    with Cons have IH: "chain (put s x y) (as @ x # y # ys)" by simp
    show ?case
      using IH Cons.prems(1) a e by (cases as) (auto simp: data_def nclusters_put)
  qed (use tail in simp)
  from this[of xs] assms(2) show ?thesis by simp
qed

text \<open>Freeing a list of clusters.\<close>

definition zap :: "'s \<Rightarrow> nat list \<Rightarrow> 's" where
  "zap s cs = fold (\<lambda>c s. put s c 0) cs s"

lemma zap_spec:
  "ok s \<Longrightarrow> (\<And>c. c \<in> set cs \<Longrightarrow> data s c) \<Longrightarrow> ok (zap s cs) \<and> nclusters (zap s cs) = nclusters s
   \<and> (\<forall>d. data s d \<longrightarrow> entry (zap s cs) d = (if d \<in> set cs then 0 else entry s d))"
proof (induction cs arbitrary: s)
  case Nil
  then show ?case by (simp add: zap_def)
next
  case (Cons c cs)
  have d: "data s c" using Cons.prems(2) by simp
  then have "ok (put s c 0)" "nclusters (put s c 0) = nclusters s"
    using Cons.prems(1) by (auto simp: data_def nclusters_put intro: ok_put)
  moreover have "data (put s c 0) = data s" by (simp add: data_def fun_eq_iff nclusters_put)
  moreover have "entry (put s c 0) x = (if x = c then 0 else entry s x)" if "data s x" for x
    using that d Cons.prems(1) by (simp add: data_def entry_put)
  ultimately show ?case using Cons.IH[of "put s c 0"] Cons.prems by (simp add: zap_def)
qed

end

section \<open>Definitions\<close>

text \<open>The chain of clusters \<open>cs\<close>: each entry links to the next cluster, the last is the end mark.\<close>

fun fat_chain :: "nspace \<Rightarrow> nat list \<Rightarrow> bool" where
  "fat_chain vol [] \<longleftrightarrow> False"
| "fat_chain vol [c] \<longleftrightarrow> 2 \<le> c \<and> c < total_clusters vol + 2 \<and> get_fat_entry vol c = END_FAT_ENTRY"
| "fat_chain vol (c # d # cs) \<longleftrightarrow>
     2 \<le> c \<and> c < total_clusters vol + 2 \<and> get_fat_entry vol c = int d \<and> fat_chain vol (d # cs)"

text \<open>The first block behind the tables.\<close>

definition fat_end :: "nspace \<Rightarrow> nat" where
  "fat_end vol = reserved_sectors vol + fat_count vol * sectors_per_fat vol"

text \<open>Everything is kept but the sectors of the tables, the number of free clusters and the place of the last
  allocation: neither the other fields of the volume nor the blocks behind the tables change.\<close>

definition fat_same :: "nspace \<Rightarrow> nspace \<Rightarrow> bool" where
  "fat_same vol vol' \<longleftrightarrow> vol' = vol\<lparr>fBlockCache := fBlockCache vol', free_clusters := free_clusters vol',
     last_allocated := last_allocated vol'\<rparr>
     \<and> (\<forall>bn. fat_end vol \<le> bn \<longrightarrow> fBlockCache vol' bn = fBlockCache vol bn)"

definition free_count :: "nspace \<Rightarrow> nat" where
  "free_count vol = card {c. 2 \<le> c \<and> c < total_clusters vol + 2 \<and> get_fat_entry vol c = 0}"

section \<open>Chains of a volume\<close>

declare fat_put_frame [simp]

lemma fat_small: "fat_ok vol \<Longrightarrow> total_clusters vol + 2 < 0x0ffffff0"
  using fat_okD(1,6,8,9)[of vol] by auto

lemma fat_entry_put:
  assumes "fat_ok vol" "2 \<le> c" "c < total_clusters vol + 2" "2 \<le> d" "d < total_clusters vol + 2"
    "v = 0 \<or> 2 \<le> v \<and> v < total_clusters vol + 2 \<or> v = 0x0fffffff"
  shows "fat_entry (fat_put vol c v) d = (if d = c then int v else fat_entry vol d)"
proof -
  have "fat_norm vol v = v" using assms(6) fat_norm_small[OF assms(1)] fat_norm_end[OF assms(1)] by auto
  then show ?thesis
    using fat_raw_put[OF assms(1,3,5)] assms(6) fat_small[OF assms(1)]
    by (auto simp: fat_entry_def frame_simps END_FAT_ENTRY_def)
qed

interpretation ft: fat_store fat_ok total_clusters fat_entry fat_put
  by unfold_locales (simp_all add: frame_simps fat_put_ok(1) fat_entry_put fat_small[simplified])

lemma ft_data: "ft.data vol c \<longleftrightarrow> 2 \<le> c \<and> c < total_clusters vol + 2"
  by (simp add: ft.data_def)

lemma fat_chain_eq: "fat_ok vol \<Longrightarrow> fat_chain vol cs = ft.chain vol cs"
  by (induction vol cs rule: fat_chain.induct)
    (auto simp: get_fat_entry_eq ft_data END_FAT_ENTRY_def)

text \<open>The count of free clusters is no part of the table.\<close>

lemma free_clusters_frame:
  "fat_bits (vol\<lparr>free_clusters := x\<rparr>) = fat_bits vol" "total_clusters (vol\<lparr>free_clusters := x\<rparr>) = total_clusters vol"
  "bytes_per_sector (vol\<lparr>free_clusters := x\<rparr>) = bytes_per_sector vol"
  "block_data (vol\<lparr>free_clusters := x\<rparr>) = block_data vol"
  "fat_pos (vol\<lparr>free_clusters := x\<rparr>) = fat_pos vol"
  by (simp_all add: fun_eq_iff block_data_def fat_pos_def)

lemma fat_entry_free_clusters [simp]: "fat_entry (vol\<lparr>free_clusters := x\<rparr>) = fat_entry vol"
  by (rule ext) (simp only: fat_entry_def fat_raw_def fat_byte_def free_clusters_frame fat_start_free_clusters)

lemma fats_mirrored_free_clusters [simp]: "fats_mirrored (vol\<lparr>free_clusters := x\<rparr>) = fats_mirrored vol"
  by (simp add: fats_mirrored_def)

lemma fat_put_free_clusters: "fat_put (vol\<lparr>free_clusters := x\<rparr>) c v = (fat_put vol c v)\<lparr>free_clusters := x\<rparr>"
  by (simp only: fat_put_def free_clusters_frame fat_start_free_clusters put_fat_sector_free_clusters Let_def)
    (simp only: if_distrib[of "\<lambda>v. v\<lparr>free_clusters := x\<rparr>"])

lemma data_iff:
  assumes "fat_ok vol" "i < 2 ^ 32"
  shows "IS_DATA_CLUSTER vol i \<longleftrightarrow> 2 \<le> i \<and> i < int (total_clusters vol) + 2"
proof -
  have "u32 (total_clusters vol + 2) = total_clusters vol + 2" using fat_clusters_bound(1)[OF assms(1)] by simp
  then show ?thesis using assms(2) by (cases "2 \<le> i") (auto simp: IS_DATA_CLUSTER_def nat_less_iff)
qed

lemma data_nat: "fat_ok vol \<Longrightarrow> 2 \<le> c \<Longrightarrow> c < total_clusters vol + 2 \<Longrightarrow>
    IS_DATA_CLUSTER vol (int c) \<and> u32 c = c"
  using fat_clusters_bound(1)[of vol] by (simp add: data_iff)

lemma not_data_marks:
  assumes "fat_ok vol"
  shows "\<not> IS_DATA_CLUSTER vol 0" "\<not> IS_DATA_CLUSTER vol END_FAT_ENTRY" "\<not> IS_DATA_CLUSTER vol BAD_FAT_ENTRY"
    "i < 0 \<Longrightarrow> \<not> IS_DATA_CLUSTER vol i"
  using assms fat_small[OF assms] by (simp_all add: data_iff END_FAT_ENTRY_def BAD_FAT_ENTRY_def)

section \<open>Walking and counting\<close>

lemma chain_entry:
  assumes "fat_ok vol" "ft.chain vol (c # cs)"
  shows "get_fat_entry vol c = (case cs of [] \<Rightarrow> END_FAT_ENTRY | d # _ \<Rightarrow> int d)"
  using assms ft.chain_hd[OF assms(2)] by (cases cs) (auto simp: get_fat_entry_eq ft_data END_FAT_ENTRY_def)

lemma chain_tail: "ft.chain vol (c # d # cs) \<Longrightarrow> ft.chain vol (d # cs)"
  by simp

lemma get_nth_chain:
  "fat_ok vol \<Longrightarrow> ft.chain vol (c # cs) \<Longrightarrow>
   get_nth_fat_entry vol (int c) n = (if n \<le> length cs then int ((c # cs) ! n) else END_FAT_ENTRY)"
proof (induction n arbitrary: c cs)
  case (Suc n)
  have c: "u32 c = c" "2 \<le> c" "c < total_clusters vol + 2"
    using ft.chain_hd[OF Suc.prems(2)] data_nat[OF Suc.prems(1)] by (auto simp: ft_data)
  show ?case
  proof (cases cs)
    case Nil
    then show ?thesis
      using chain_entry[OF Suc.prems] not_data_marks[OF Suc.prems(1)] by (simp add: c Let_def)
  next
    case (Cons d ds)
    then have d: "ft.chain vol (d # ds)" using Suc.prems(2) by simp
    then have "IS_DATA_CLUSTER vol (int d)"
      using ft.chain_hd[OF d] data_nat[OF Suc.prems(1)] by (simp add: ft_data)
    with Cons show ?thesis
      using chain_entry[OF Suc.prems] Suc.IH[OF Suc.prems(1) d] by (simp add: c Let_def)
  qed
qed simp

lemma count_clusters_loop_chain:
  "fat_ok vol \<Longrightarrow> ft.chain vol (c # cs) \<Longrightarrow> count + length (c # cs) < total_clusters vol \<Longrightarrow>
   count_clusters_loop vol (int c) count = (END_FAT_ENTRY, count + length (c # cs), False)"
proof (induction cs arbitrary: c count)
  case Nil
  have c: "IS_DATA_CLUSTER vol (int c)" "u32 c = c"
    using ft.chain_hd[OF Nil.prems(2)] data_nat[OF Nil.prems(1)] by (auto simp: ft_data)
  then show ?case
    using Nil.prems(3) chain_entry[OF Nil.prems(1,2)] not_data_marks[OF Nil.prems(1)]
    by (subst count_clusters_loop.simps) (simp, subst count_clusters_loop.simps, simp)
next
  case (Cons d ds)
  have c: "IS_DATA_CLUSTER vol (int c)" "u32 c = c"
    using ft.chain_hd[OF Cons.prems(2)] data_nat[OF Cons.prems(1)] by (auto simp: ft_data)
  then show ?case
    using Cons.prems(3) chain_entry[OF Cons.prems(1,2)] Cons.IH[OF Cons.prems(1), of d "count + 1"] Cons.prems(2)
    by (subst count_clusters_loop.simps) simp
qed

lemma count_clusters_chain:
  assumes "fat_ok vol" "ft.chain vol (c # cs)" "length (c # cs) < total_clusters vol"
  shows "count_clusters vol (int c) = length (c # cs)"
  using count_clusters_loop_chain[OF assms(1,2), of 0] assms(3) ft.chain_hd[OF assms(2)] data_nat[OF assms(1)]
  by (simp add: count_clusters_def ft_data)

section \<open>Clearing\<close>

lemma zap_frame:
  "fat_bits (ft.zap vol cs) = fat_bits vol \<and> free_clusters (ft.zap vol cs) = free_clusters vol
   \<and> fault (ft.zap vol cs) = fault vol \<and> last_allocated (ft.zap vol cs) = last_allocated vol"
  by (induction cs arbitrary: vol) (simp_all add: ft.zap_def frame_simps)

lemma fat_same_refl [simp]: "fat_same vol vol"
  by (simp add: fat_same_def)

lemma fat_same_trans:
  assumes "fat_same a b" "fat_same b c"
  shows "fat_same a c"
proof -
  have "fat_end b = fat_end a" using assms(1) unfolding fat_same_def fat_end_def by (cases a; cases b) simp
  moreover have "c = a\<lparr>fBlockCache := fBlockCache c, free_clusters := free_clusters c, last_allocated := last_allocated c\<rparr>"
    using assms unfolding fat_same_def by (cases a; cases b; cases c) simp
  ultimately show ?thesis using assms by (simp add: fat_same_def)
qed

lemma put_fat_sector_outside:
  assumes "s < sectors_per_fat vol" "fat_end vol \<le> bn"
  shows "fBlockCache (put_fat_sector vol s b) bn = fBlockCache vol bn"
proof -
  have "reserved_sectors vol + i * sectors_per_fat vol + s < fat_end vol" if "i < fat_count vol" for i
  proof -
    have "Suc i * sectors_per_fat vol \<le> fat_count vol * sectors_per_fat vol" using that by (intro mult_right_mono) simp_all
    then show ?thesis using assms(1) by (simp add: fat_end_def)
  qed
  then have "\<not> (\<exists>i<fat_count vol. (i = active_fat vol \<or> fat_mirrored vol) \<and> bn = reserved_sectors vol + i * sectors_per_fat vol + s)"
    using assms(2) by (metis not_less)
  then have "fat_sector_cache vol s b bn = fBlockCache vol bn" unfolding fat_sector_cache_def by (rule if_not_P)
  then show ?thesis by (simp add: put_fat_sector_def)
qed

lemma fat_same_put:
  assumes ok: "fat_ok vol" and c: "c < total_clusters vol + 2"
  shows "fat_same vol (fat_put vol c v)"
proof -
  let ?n = "bytes_per_sector vol" and ?s = "fat_pos vol c div bytes_per_sector vol"
  have s: "?s < sectors_per_fat vol"
    using fat_pos_end(1)[OF ok c] by (intro fat_pos_sector[OF ok]) simp
  have "fBlockCache (fat_put vol c v) bn = fBlockCache vol bn" if bn: "fat_end vol \<le> bn" for bn
  proof (cases "fat_bits vol = 12 \<and> fat_pos vol c mod ?n = ?n - 1")
    case True
    then have "?s + 1 < sectors_per_fat vol" using fat_adv_bounds(1)[OF ok c] by (simp add: fat_adv_def)
    then have "fBlockCache (put_fat_sector (put_fat_sector vol ?s B) (?s + 1) B') bn = fBlockCache vol bn" for B B'
      using put_fat_sector_outside[OF s bn, of B] put_fat_sector_outside[of "?s + 1" "put_fat_sector vol ?s B" bn B'] bn
      by (simp add: frame_simps fat_end_def)
    then show ?thesis using True by (simp add: fat_put_def Let_def)
  next
    case False
    then show ?thesis using put_fat_sector_outside[OF s bn] by (auto simp: fat_put_def Let_def)
  qed
  moreover have "fat_put vol c v = vol\<lparr>fBlockCache := fBlockCache (fat_put vol c v), free_clusters := free_clusters (fat_put vol c v),
      last_allocated := last_allocated (fat_put vol c v)\<rparr>"
    by (simp add: fat_put_def put_fat_sector_def Let_def)
  ultimately show ?thesis unfolding fat_same_def by blast
qed

lemma fat_same_free: "fat_same vol (vol\<lparr>free_clusters := x\<rparr>)"
  by (simp add: fat_same_def)

lemma fat_sameD:
  assumes "fat_same vol vol'"
  shows "total_clusters vol' = total_clusters vol" "fat_bits vol' = fat_bits vol" "fault vol' = fault vol"
    "bytes_per_sector vol' = bytes_per_sector vol" "sectors_per_fat vol' = sectors_per_fat vol"
    "reserved_sectors vol' = reserved_sectors vol" "active_fat vol' = active_fat vol"
    "fat_count vol' = fat_count vol" "fat_mirrored vol' = fat_mirrored vol"
  using assms unfolding fat_same_def by (cases vol; cases vol'; simp)+

text \<open>A step of clearing.\<close>

lemma clear_step:
  assumes "fat_ok vol" "2 \<le> c" "c < total_clusters vol + 2"
  shows "clear_fat_chain_loop (Suc k) vol (int c)
    = clear_fat_chain_loop k ((fat_put vol c 0)\<lparr>free_clusters := u32 (free_clusters vol + 1)\<rparr>) (fat_entry vol c)"
proof -
  have "0 \<le> fat_entry vol c"
    by (simp add: fat_entry_def Let_def END_FAT_ENTRY_def BAD_FAT_ENTRY_def)
  then show ?thesis
    using data_nat[OF assms] get_fat_entry_eq[OF assms] set_fat_entry_eq[OF assms, of 0]
    by (simp add: Let_def B_OK_def frame_simps)
qed

declare clear_fat_chain_loop.simps(2) [simp del]

lemma clear_stop: "\<not> IS_DATA_CLUSTER vol i \<Longrightarrow> clear_fat_chain_loop (Suc k) vol i = (0, vol)"
  by (simp add: clear_fat_chain_loop.simps)

lemma u32_add: "u32 (u32 a + n) = u32 (a + n)"
  by (simp add: u32_def mod_add_left_eq)

lemma clear_loop_chain:
  "fat_ok vol \<Longrightarrow> ft.chain vol (c # cs) \<Longrightarrow> length cs + 2 \<le> k \<Longrightarrow>
   clear_fat_chain_loop k vol (int c)
     = (0, (ft.zap vol (c # cs))\<lparr>free_clusters := u32 (free_clusters vol + length (c # cs))\<rparr>)"
proof (induction cs arbitrary: c vol k)
  case Nil
  then obtain k' where k: "k = Suc (Suc k')" by (metis add_2_eq_Suc' le_Suc_ex list.size(3) plus_nat.add_0 add_Suc)
  have c: "2 \<le> c" "c < total_clusters vol + 2" using ft.chain_hd[OF Nil.prems(2)] by (auto simp: ft_data)
  have "fat_entry vol c = END_FAT_ENTRY" using Nil.prems(2) by (simp add: END_FAT_ENTRY_def)
  moreover have "fat_ok ((fat_put vol c 0)\<lparr>free_clusters := x\<rparr>)" for x using fat_put_ok(1)[OF Nil.prems(1) c(2)] by simp
  ultimately show ?case
    unfolding k clear_step[OF Nil.prems(1) c] using not_data_marks(2) by (simp add: ft.zap_def clear_stop)
next
  case (Cons d ds)
  then obtain k' where k: "k = Suc k'" "length ds + 2 \<le> k'" by (cases k) auto
  have c: "2 \<le> c" "c < total_clusters vol + 2" using ft.chain_hd[OF Cons.prems(2)] by (auto simp: ft_data)
  let ?v = "(fat_put vol c 0)\<lparr>free_clusters := u32 (free_clusters vol + 1)\<rparr>"
  have "c \<notin> set (d # ds)" using ft.chain_distinct[OF Cons.prems(1,2)] by simp
  then have "ft.chain (fat_put vol c 0) (d # ds)"
    using ft.chain_put_other[OF Cons.prems(1), of "d # ds" c 0] Cons.prems(2) c by (simp add: ft_data)
  then have ch: "ft.chain ?v (d # ds)" by (rule ft.chain_cong) (simp_all add: frame_simps)
  have ok: "fat_ok ?v" using fat_put_ok(1)[OF Cons.prems(1) c(2)] by simp
  have zap: "ft.zap (w\<lparr>free_clusters := x\<rparr>) xs = (ft.zap w xs)\<lparr>free_clusters := x\<rparr>" for w x xs
    by (induction xs arbitrary: w) (simp_all add: ft.zap_def fat_put_free_clusters)
  have "fat_entry vol c = int d" using Cons.prems(2) by simp
  moreover have "u32 (free_clusters ?v + length (d # ds)) = u32 (free_clusters vol + length (c # d # ds))"
    by (simp add: u32_add del: add_Suc add_Suc_right) (simp add: add.assoc)
  moreover have "ft.zap ?v (d # ds) = (ft.zap vol (c # d # ds))\<lparr>free_clusters := u32 (free_clusters vol + 1)\<rparr>"
    unfolding zap by (simp add: ft.zap_def)
  ultimately show ?case
    unfolding k(1) clear_step[OF Cons.prems(1) c] using Cons.IH[OF ok ch k(2)] by simp
qed

text \<open>Clearing always ends: a round either takes a used entry away or is followed by the last.\<close>

definition used_clusters :: "nspace \<Rightarrow> nat set" where
  "used_clusters vol = {c. 2 \<le> c \<and> c < total_clusters vol + 2 \<and> fat_entry vol c \<noteq> 0}"

lemma used_clusters_finite [simp]: "finite (used_clusters vol)"
  by (rule finite_subset[of _ "{2..<total_clusters vol + 2}"]) (auto simp: used_clusters_def)

lemma used_clusters_le: "card (used_clusters vol) \<le> total_clusters vol"
proof -
  have "card (used_clusters vol) \<le> card {2..<total_clusters vol + 2}"
    by (intro card_mono) (auto simp: used_clusters_def)
  then show ?thesis by simp
qed

lemma clear_loop_ends:
  "fat_ok vol \<Longrightarrow> i < 2 ^ 32 \<Longrightarrow> card (used_clusters vol) + 2 \<le> k \<Longrightarrow>
   \<exists>vol'. clear_fat_chain_loop k vol i = (0, vol') \<and> fat_ok vol' \<and> fat_same vol vol'
     \<and> (fat_mirrored vol \<longrightarrow> fats_mirrored vol \<longrightarrow> fats_mirrored vol')
     \<and> (\<forall>d. 2 \<le> d \<and> d < total_clusters vol + 2 \<longrightarrow> fat_entry vol' d = 0 \<or> fat_entry vol' d = fat_entry vol d)
     \<and> (IS_DATA_CLUSTER vol i \<longrightarrow> fat_entry vol' (nat i) = 0)"
proof (induction k arbitrary: vol i)
  case (Suc k)
  note ok = Suc.prems(1)
  show ?case
  proof (cases "IS_DATA_CLUSTER vol i")
    case False
    then show ?thesis using ok by (simp add: clear_stop)
  next
    case True
    define c where "c = nat i"
    have ci: "i = int c" and c: "2 \<le> c" "c < total_clusters vol + 2"
      using True data_iff[OF ok Suc.prems(2)] by (auto simp: c_def)
    let ?v = "(fat_put vol c 0)\<lparr>free_clusters := u32 (free_clusters vol + 1)\<rparr>"
    have ok': "fat_ok ?v" using fat_put_ok(1)[OF ok c(2)] by simp
    have same: "fat_same vol ?v" using fat_same_trans[OF fat_same_put[OF ok c(2)] fat_same_free] .
    have mir: "fat_mirrored vol \<longrightarrow> fats_mirrored vol \<longrightarrow> fats_mirrored ?v" using fat_put_ok(2)[OF ok c(2)] by simp
    have ent: "fat_entry ?v d = (if d = c then 0 else fat_entry vol d)" if "2 \<le> d" "d < total_clusters vol + 2" for d
      using fat_entry_put[OF ok c that, of 0] by simp
    have tc: "total_clusters ?v = total_clusters vol" by (simp add: frame_simps)
    have mb: "fat_mirrored ?v = fat_mirrored vol" by (simp add: frame_simps)
    have e32: "fat_entry vol c < 2 ^ 32"
      using fat_raw_less[of vol c] by (simp add: fat_entry_def Let_def END_FAT_ENTRY_def BAD_FAT_ENTRY_def)
    have step: "clear_fat_chain_loop (Suc k) vol i = clear_fat_chain_loop k ?v (fat_entry vol c)"
      unfolding ci by (rule clear_step[OF ok c])
    show ?thesis
    proof (cases "fat_entry vol c = 0")
      case True
      obtain k' where "k = Suc k'" using Suc.prems(3) by (cases k) auto
      then have "clear_fat_chain_loop (Suc k) vol i = (0, ?v)"
        unfolding step True using not_data_marks(1)[OF ok'] by (simp add: clear_stop)
      moreover have "fat_entry ?v (nat i) = 0" using ent[OF c] by (simp add: ci)
      moreover have "fat_entry ?v d = 0 \<or> fat_entry ?v d = fat_entry vol d" if "2 \<le> d" "d < total_clusters vol + 2" for d
        using ent[OF that] by (cases "d = c") simp_all
      ultimately show ?thesis using ok' same mir by (intro exI[of _ ?v] conjI) blast+
    next
      case False
      have "x \<in> used_clusters ?v \<longleftrightarrow> x \<in> used_clusters vol - {c}" for x
        using ent[of x] unfolding used_clusters_def tc by (cases "x = c") auto
      then have "used_clusters ?v = used_clusters vol - {c}" by blast
      moreover have "c \<in> used_clusters vol" using False c by (simp add: used_clusters_def)
      ultimately have "card (used_clusters vol) = Suc (card (used_clusters ?v))"
        using card_Suc_Diff1[OF used_clusters_finite, of c vol] by simp
      then have "card (used_clusters ?v) + 2 \<le> k" using Suc.prems(3) by simp
      from Suc.IH[OF ok' e32 this, unfolded tc mb] obtain vol' where v: "clear_fat_chain_loop k ?v (fat_entry vol c) = (0, vol')"
        "fat_ok vol'" "fat_same ?v vol'" "fat_mirrored vol \<longrightarrow> fats_mirrored ?v \<longrightarrow> fats_mirrored vol'"
        and all': "\<forall>d. 2 \<le> d \<and> d < total_clusters vol + 2 \<longrightarrow> fat_entry vol' d = 0 \<or> fat_entry vol' d = fat_entry ?v d"
        by (elim exE conjE)
      have ent': "fat_entry vol' d = 0 \<or> fat_entry vol' d = fat_entry ?v d" if "2 \<le> d" "d < total_clusters vol + 2" for d
        using all' that by blast
      have c0: "fat_entry vol' (nat i) = 0" using ent'[OF c] ent[OF c] by (simp add: ci)
      have "fat_entry vol' d = 0 \<or> fat_entry vol' d = fat_entry vol d" if "2 \<le> d" "d < total_clusters vol + 2" for d
        using ent'[OF that] ent[OF that] by (cases "d = c") simp_all
      then show ?thesis
        unfolding step using v(1,2,4) mir fat_same_trans[OF same v(3)] c0 by (intro exI[of _ vol'] conjI) blast+
    qed
  qed
qed simp

text \<open>Clearing a chain, in terms of the entries.\<close>

lemma zap_same: "fat_ok vol \<Longrightarrow> (\<And>c. c \<in> set cs \<Longrightarrow> ft.data vol c) \<Longrightarrow> fat_same vol (ft.zap vol cs)"
proof (induction cs arbitrary: vol)
  case (Cons c cs)
  have c: "c < total_clusters vol + 2" using Cons.prems(2) by (simp add: ft_data)
  have "fat_same (fat_put vol c 0) (ft.zap (fat_put vol c 0) cs)"
    using Cons.prems c by (intro Cons.IH) (auto simp: fat_put_ok ft_data)
  then show ?case using fat_same_trans[OF fat_same_put[OF Cons.prems(1) c]] by (simp add: ft.zap_def)
qed (simp add: ft.zap_def)

lemma zap_mirrored:
  "fat_ok vol \<Longrightarrow> (\<And>c. c \<in> set cs \<Longrightarrow> ft.data vol c) \<Longrightarrow> fat_mirrored vol \<Longrightarrow> fats_mirrored vol
   \<Longrightarrow> fats_mirrored (ft.zap vol cs)"
proof (induction cs arbitrary: vol)
  case (Cons c cs)
  have c: "c < total_clusters vol + 2" using Cons.prems(2) by (simp add: ft_data)
  have "fats_mirrored (ft.zap (fat_put vol c 0) cs)"
    using Cons.prems c by (intro Cons.IH) (auto simp: fat_put_ok ft_data)
  then show ?case by (simp add: ft.zap_def)
qed (simp add: ft.zap_def)

lemma clear_fat_chain_run:
  assumes ok: "fat_ok vol" and ch: "ft.chain vol (c # cs)"
  shows "\<exists>vol'. clear_fat_chain vol c = (B_OK, vol') \<and> fat_ok vol' \<and> fat_same vol vol'
    \<and> last_allocated vol' = last_allocated vol
    \<and> (\<forall>d. ft.data vol d \<longrightarrow> fat_entry vol' d = (if d \<in> set (c # cs) then 0 else fat_entry vol d))
    \<and> free_clusters vol' = u32 (free_clusters vol + length (c # cs))
    \<and> (fat_mirrored vol \<longrightarrow> fats_mirrored vol \<longrightarrow> fats_mirrored vol')"
proof -
  have c: "2 \<le> c" "c < total_clusters vol + 2" using ft.chain_hd[OF ch] by (auto simp: ft_data)
  let ?z = "ft.zap vol (c # cs)"
  let ?v = "?z\<lparr>free_clusters := u32 (free_clusters vol + length (c # cs))\<rparr>"
  have "length cs + 2 \<le> total_clusters vol + 2" using ft.chain_length[OF ok ch] by simp
  then have run: "clear_fat_chain vol c = (B_OK, ?v)"
    using clear_loop_chain[OF ok ch] data_nat[OF ok c] by (simp add: clear_fat_chain_def B_OK_def)
  have z: "fat_ok ?z" "\<forall>d. ft.data vol d \<longrightarrow> fat_entry ?z d = (if d \<in> set (c # cs) then 0 else fat_entry vol d)"
    using ft.zap_spec[OF ok, of "c # cs"] ft.chain_data[OF ch] by auto
  have same: "fat_same vol ?v"
    using zap_same[OF ok, of "c # cs"] ft.chain_data[OF ch] fat_same_trans[OF _ fat_same_free] by blast
  show ?thesis
    using run z zap_mirrored[OF ok, of "c # cs"] ft.chain_data[OF ch] zap_frame[of vol "c # cs"] same
    by (intro exI[of _ ?v] conjI) simp_all
qed

section \<open>Properties\<close>

text \<open>C11: clearing the chain that starts at a cluster marks exactly its clusters free, keeps every other entry
  and all copies of the table equal, adds the length of the chain to the number of free clusters and
  reports success.\<close>

theorem clear_fat_chain_frees_chain:
  assumes "fat_ok vol" "fat_chain vol (c # cs)"
  shows "\<exists>vol'. clear_fat_chain vol c = (B_OK, vol') \<and> fat_ok vol' \<and> fat_same vol vol'
    \<and> (\<forall>d. 2 \<le> d \<and> d < total_clusters vol + 2 \<longrightarrow>
         get_fat_entry vol' d = (if d \<in> set (c # cs) then 0 else get_fat_entry vol d))
    \<and> free_clusters vol' = u32 (free_clusters vol + length (c # cs))
    \<and> (fat_mirrored vol \<longrightarrow> fats_mirrored vol \<longrightarrow> fats_mirrored vol')"
proof -
  have ch: "ft.chain vol (c # cs)" using assms fat_chain_eq by blast
  from clear_fat_chain_run[OF assms(1) ch] obtain vol' where v: "clear_fat_chain vol c = (B_OK, vol')"
    "fat_ok vol'" "fat_same vol vol'" "free_clusters vol' = u32 (free_clusters vol + length (c # cs))"
    "fat_mirrored vol \<longrightarrow> fats_mirrored vol \<longrightarrow> fats_mirrored vol'"
    and ent: "\<And>d. ft.data vol d \<Longrightarrow> fat_entry vol' d = (if d \<in> set (c # cs) then 0 else fat_entry vol d)"
    by blast
  have "get_fat_entry vol' d = (if d \<in> set (c # cs) then 0 else get_fat_entry vol d)"
    if "2 \<le> d" "d < total_clusters vol + 2" for d
    using ent[of d] get_fat_entry_eq[OF assms(1) that] get_fat_entry_eq[OF v(2)] fat_sameD(1)[OF v(3)] that
    by (simp add: ft_data)
  then show ?thesis using v by blast
qed

text \<open>C26: clearing from any data cluster of a well-formed table ends with success, whatever the entries hold:
  circular chains, chains that run into a bad or free entry, or chains that share a tail. The first
  cluster is free afterwards, no entry is changed but to free, and the copies stay equal.\<close>

theorem clear_fat_chain_terminates:
  assumes "fat_ok vol" "2 \<le> c" "c < total_clusters vol + 2"
  shows "\<exists>vol'. clear_fat_chain vol c = (B_OK, vol') \<and> fat_ok vol' \<and> fault vol' = fault vol
    \<and> (fat_mirrored vol \<longrightarrow> fats_mirrored vol \<longrightarrow> fats_mirrored vol') \<and> get_fat_entry vol' c = 0
    \<and> (\<forall>d. 2 \<le> d \<and> d < total_clusters vol + 2 \<longrightarrow> get_fat_entry vol' d \<in> {0, get_fat_entry vol d})"
proof -
  have "int c < 2 ^ 32" using assms(3) fat_clusters_bound(1)[OF assms(1)] by simp
  then obtain vol' where v: "clear_fat_chain_loop (total_clusters vol + 2) vol (int c) = (0, vol')" "fat_ok vol'" "fat_same vol vol'"
    "fat_mirrored vol \<longrightarrow> fats_mirrored vol \<longrightarrow> fats_mirrored vol'" "fat_entry vol' c = 0"
    "\<forall>d. 2 \<le> d \<and> d < total_clusters vol + 2 \<longrightarrow> fat_entry vol' d = 0 \<or> fat_entry vol' d = fat_entry vol d"
    using clear_loop_ends[OF assms(1), of "int c" "total_clusters vol + 2"] used_clusters_le[of vol]
      data_nat[OF assms] by auto
  note tc = fat_sameD(1)[OF v(3)]
  have "get_fat_entry vol' d = fat_entry vol' d" "get_fat_entry vol d = fat_entry vol d"
    if "2 \<le> d" "d < total_clusters vol + 2" for d
    using that get_fat_entry_eq[OF v(2)] get_fat_entry_eq[OF assms(1)] tc by simp_all
  then show ?thesis
    using v data_nat[OF assms] fat_sameD(3)[OF v(3)] assms by (simp add: clear_fat_chain_def B_OK_def)
qed

text \<open>C35: on a chain shorter than the volume, \<^verbatim>\<open>count_clusters\<close> gives its length, and \<^verbatim>\<open>get_nth_fat_entry\<close>
  gives its clusters in order and the end mark behind them.\<close>

theorem walk_and_count_chain:
  assumes "fat_ok vol" "fat_chain vol (c # cs)" "length (c # cs) < total_clusters vol"
  shows "count_clusters vol (int c) = length (c # cs)
    \<and> (\<forall>n. get_nth_fat_entry vol (int c) n = (if n \<le> length cs then int ((c # cs) ! n) else END_FAT_ENTRY))"
  using count_clusters_chain[OF assms(1) _ assms(3)] get_nth_chain[OF assms(1)] assms(1,2) fat_chain_eq by blast

text \<open>A chain that fills the whole volume is taken for a circular one: \<^verbatim>\<open>count_clusters\<close> gives 0 for it.\<close>

theorem count_clusters_full_volume:
  assumes "fat_ok vol" "fat_chain vol (c # cs)" "length (c # cs) = total_clusters vol"
  shows "count_clusters vol (int c) = 0"
proof -
  have "fst (snd (count_clusters_loop vol (int c) n)) = 0" if "ft.chain vol (c # cs)" "n + length (c # cs) = total_clusters vol" for n c cs
    using that
  proof (induction cs arbitrary: c n)
    case Nil
    then show ?case
      using ft.chain_hd[OF Nil.prems(1)] data_nat[OF assms(1), of c] by (subst count_clusters_loop.simps) (simp add: ft_data)
  next
    case (Cons d ds)
    have c: "IS_DATA_CLUSTER vol (int c)" "u32 c = c"
      using ft.chain_hd[OF Cons.prems(1)] data_nat[OF assms(1), of c] by (auto simp: ft_data)
    show ?case
      using Cons.IH[of d "n + 1"] Cons.prems c chain_entry[OF assms(1) Cons.prems(1)]
      by (subst count_clusters_loop.simps) simp
  qed
  then have "fst (snd (count_clusters_loop vol (int c) 0)) = 0" using assms fat_chain_eq by simp
  then show ?thesis by (auto simp: count_clusters_def split_beta)
qed

subsection \<open>Witnesses\<close>

text \<open>The small volume with the chain 5, 3.\<close>

definition tiny_chain :: nspace where
  "tiny_chain = fat_put (fat_put tiny_volume 3 0x0fffffff) 5 3"

lemma tiny_chain_ok: "fat_ok tiny_chain" "total_clusters tiny_chain = 4" "fat_chain tiny_chain [5, 3]"
proof -
  have tc: "total_clusters tiny_volume = 4" by (simp add: tiny_volume_def)
  let ?a = "fat_put tiny_volume 3 0x0fffffff"
  have ok: "fat_ok ?a" "fat_ok tiny_chain"
    unfolding tiny_chain_def using tiny_volume_ok(1) by (auto intro!: fat_put_ok simp: tc)
  show "total_clusters tiny_chain = 4" by (simp add: tiny_chain_def tc)
  have "fat_entry ?a 3 = 0x0fffffff"
    using fat_entry_put[OF tiny_volume_ok(1), of 3 3 "0x0fffffff"] by (simp add: tc)
  then have "fat_entry tiny_chain 3 = 0x0fffffff" "fat_entry tiny_chain 5 = 3"
    using fat_entry_put[OF ok(1), of 5 3 3] fat_entry_put[OF ok(1), of 5 5 3] by (simp_all add: tc tiny_chain_def)
  then have "ft.chain tiny_chain [5, 3]" by (simp add: ft_data tiny_chain_def tc)
  then show "fat_chain tiny_chain [5, 3]" using fat_chain_eq[OF ok(2)] by blast
  show "fat_ok tiny_chain" by (rule ok(2))
qed

theorem clear_fat_chain_frees_chain_witness:
  "\<exists>vol'. clear_fat_chain tiny_chain 5 = (B_OK, vol') \<and> get_fat_entry vol' 3 = 0 \<and> free_clusters vol' = 6"
proof -
  have "free_clusters tiny_chain = 4" by (simp add: tiny_chain_def tiny_volume_def)
  then show ?thesis
    using clear_fat_chain_frees_chain[OF tiny_chain_ok(1,3)] tiny_chain_ok(2) by auto
qed

theorem clear_fat_chain_terminates_witness:
  "\<exists>vol'. clear_fat_chain (fat_put tiny_volume 2 2) 2 = (B_OK, vol') \<and> get_fat_entry vol' 2 = 0"
proof -
  have tc: "total_clusters tiny_volume = 4" by (simp add: tiny_volume_def)
  have "fat_ok (fat_put tiny_volume 2 2)" using tiny_volume_ok(1) by (auto intro!: fat_put_ok simp: tc)
  from clear_fat_chain_terminates[OF this, of 2] show ?thesis by (auto simp: tc)
qed

theorem walk_and_count_chain_witness:
  "count_clusters tiny_chain (int 5) = 2 \<and> get_nth_fat_entry tiny_chain (int 5) 1 = 3"
proof -
  have "length [5, 3 :: nat] < total_clusters tiny_chain" by (simp add: tiny_chain_ok(2))
  note w = walk_and_count_chain[OF tiny_chain_ok(1,3) this]
  show ?thesis
    using conjunct1[OF w] spec[OF conjunct2[OF w], of 1] by (simp del: get_nth_fat_entry.simps)
qed

theorem count_clusters_full_volume_witness:
  "\<exists>vol. fat_ok vol \<and> fat_chain vol [2] \<and> total_clusters vol = 1 \<and> count_clusters vol (int 2) = 0"
proof -
  let ?t = "tiny_volume\<lparr>total_clusters := 1\<rparr>" and ?v = "fat_put (tiny_volume\<lparr>total_clusters := 1\<rparr>) 2 0x0fffffff"
  have t: "fat_ok ?t"
    by (auto simp: fat_ok_def tiny_volume_def fat_size_def)
  then have v: "fat_ok ?v" by (rule fat_put_ok) simp
  have "fat_entry ?v 2 = 0x0fffffff" using fat_entry_put[OF t, of 2 2 "0x0fffffff"] by simp
  then have "ft.chain ?v [2]" by (simp add: ft_data)
  then have "fat_chain ?v [2]" using fat_chain_eq[OF v] by blast
  then show ?thesis using count_clusters_full_volume[OF v, of 2 "[]"] v by (intro exI[of _ ?v]) simp
qed

end
