(* ===== verification/Fat_Alloc.thy ===== *)
theory Fat_Alloc
  imports Fat_Chain
begin

text \<open>
  The allocating and the counting action of \<^verbatim>\<open>_fat_ioctl_\<close>. The loop visits every data cluster once,
  from the last allocated one upwards and round the end of the table. The allocation
  takes the first \<open>N\<close> free clusters on this way and links them into one chain, or, when there are fewer,
  gives back those it took.
\<close>

section \<open>Definitions\<close>

definition cluster_after :: "nspace \<Rightarrow> nat \<Rightarrow> nat" where
  "cluster_after vol c = (if c = total_clusters vol + 1 then 2 else c + 1)"

text \<open>The \<open>k\<close> clusters that the loop visits from \<open>c\<close> on.\<close>

fun visit :: "nspace \<Rightarrow> nat \<Rightarrow> nat \<Rightarrow> nat list" where
  "visit vol 0 c = []"
| "visit vol (Suc k) c = c # visit vol k (cluster_after vol c)"

text \<open>The free clusters in the order in which an allocation finds them.\<close>

definition free_order :: "nspace \<Rightarrow> nat list" where
  "free_order vol = filter (\<lambda>c. get_fat_entry vol c = 0)
     ([last_allocated vol..<total_clusters vol + 2] @ [2..<last_allocated vol])"

text \<open>The state while an allocation that started in \<open>vol0\<close> has linked the clusters \<open>A\<close>.\<close>

definition alloc_inv :: "nspace \<Rightarrow> nat list \<Rightarrow> nspace \<Rightarrow> bool" where
  "alloc_inv vol0 A vol \<longleftrightarrow> fat_ok vol \<and> fat_same vol0 vol \<and> last_allocated vol = last_allocated vol0
     \<and> free_clusters vol = u32_of_int (int (free_clusters vol0) - int (length A))
     \<and> (A \<noteq> [] \<longrightarrow> ft.chain vol A)
     \<and> (\<forall>c \<in> set A. fat_entry vol0 c = 0)
     \<and> (\<forall>c. ft.data vol0 c \<longrightarrow> c \<notin> set A \<longrightarrow> fat_entry vol c = fat_entry vol0 c)
     \<and> (fat_mirrored vol0 \<longrightarrow> fats_mirrored vol0 \<longrightarrow> fats_mirrored vol)"

definition alloc_st :: "nat list \<Rightarrow> fat_st \<Rightarrow> bool" where
  "alloc_st A st \<longleftrightarrow> f_result st = 0 \<and> f_n st = length A
     \<and> f_first st = (if A = [] then 0 else hd A) \<and> (A \<noteq> [] \<longrightarrow> f_last st = last A)"

section \<open>Theorems\<close>

subsection \<open>The place of the last allocation\<close>

lemma last_allocated_frame:
  "fat_bits (vol\<lparr>last_allocated := x\<rparr>) = fat_bits vol" "total_clusters (vol\<lparr>last_allocated := x\<rparr>) = total_clusters vol"
  "bytes_per_sector (vol\<lparr>last_allocated := x\<rparr>) = bytes_per_sector vol"
  "block_data (vol\<lparr>last_allocated := x\<rparr>) = block_data vol"
  "fat_pos (vol\<lparr>last_allocated := x\<rparr>) = fat_pos vol" "fat_start (vol\<lparr>last_allocated := x\<rparr>) = fat_start vol"
  by (simp_all add: fun_eq_iff block_data_def fat_pos_def fat_start_def)

lemma fat_last_allocated [simp]:
  "fat_ok (vol\<lparr>last_allocated := x\<rparr>) = fat_ok vol"
  "fat_entry (vol\<lparr>last_allocated := x\<rparr>) = fat_entry vol"
  "fats_mirrored (vol\<lparr>last_allocated := x\<rparr>) = fats_mirrored vol"
proof -
  show "fat_ok (vol\<lparr>last_allocated := x\<rparr>) = fat_ok vol" by (simp add: fat_ok_def fat_size_def)
  show "fat_entry (vol\<lparr>last_allocated := x\<rparr>) = fat_entry vol"
    by (rule ext) (simp only: fat_entry_def fat_raw_def fat_byte_def last_allocated_frame)
  show "fats_mirrored (vol\<lparr>last_allocated := x\<rparr>) = fats_mirrored vol"
    by (simp add: fats_mirrored_def fat_start_def)
qed

lemma fat_same_last: "fat_same vol (vol\<lparr>last_allocated := x\<rparr>)"
  by (simp add: fat_same_def fat_end_def)

subsection \<open>The visited clusters\<close>

lemma cluster_after_data: "ft.data vol c \<Longrightarrow> ft.data vol (cluster_after vol c)"
  by (auto simp: ft_data cluster_after_def)

lemma visit_up: "c + k \<le> total_clusters vol + 2 \<Longrightarrow> visit vol k c = [c..<c + k]"
proof (induction k arbitrary: c)
  case (Suc k)
  show ?case
  proof (cases k)
    case 0
    then show ?thesis by simp
  next
    case (Suc k')
    then have "cluster_after vol c = c + 1" using Suc.prems by (simp add: cluster_after_def)
    then show ?thesis using Suc.IH[of "c + 1"] Suc.prems by (simp add: upt_conv_Cons)
  qed
qed simp

lemma visit_add: "visit vol (j + k) c = visit vol j c @ visit vol k ((cluster_after vol ^^ j) c)"
  by (induction j arbitrary: c) (simp_all add: funpow_swap1)

lemma cluster_after_up:
  assumes "ft.data vol c"
  shows "c + j < total_clusters vol + 2 \<Longrightarrow> (cluster_after vol ^^ j) c = c + j"
    "(cluster_after vol ^^ (total_clusters vol + 2 - c)) c = 2"
proof -
  show up: "(cluster_after vol ^^ j) c = c + j" if "c + j < total_clusters vol + 2" for j
    using that by (induction j) (simp_all add: cluster_after_def)
  have "total_clusters vol + 2 - c = Suc (total_clusters vol + 1 - c)" using assms unfolding ft_data by linarith
  then show "(cluster_after vol ^^ (total_clusters vol + 2 - c)) c = 2"
    using up[of "total_clusters vol + 1 - c"] assms by (simp add: cluster_after_def ft_data)
qed

lemma visit_all:
  assumes "ft.data vol c"
  shows "visit vol (total_clusters vol) c = [c..<total_clusters vol + 2] @ [2..<c]"
proof -
  have "total_clusters vol = (total_clusters vol + 2 - c) + (c - 2)" using assms by (simp add: ft_data)
  then have "visit vol (total_clusters vol) c
      = visit vol (total_clusters vol + 2 - c) c @ visit vol (c - 2) ((cluster_after vol ^^ (total_clusters vol + 2 - c)) c)"
    by (metis visit_add)
  moreover have "c + (total_clusters vol + 2 - c) = total_clusters vol + 2" "2 + (c - 2) = c"
    using assms unfolding ft_data by linarith+
  moreover from this have "visit vol (total_clusters vol + 2 - c) c = [c..<total_clusters vol + 2]"
    "visit vol (c - 2) 2 = [2..<c]"
    using assms visit_up[of c "total_clusters vol + 2 - c" vol] visit_up[of 2 "c - 2" vol]
    unfolding ft_data by simp_all
  ultimately show ?thesis by (simp only: cluster_after_up(2)[OF assms])
qed

lemma visit_geo: "total_clusters vol' = total_clusters vol \<Longrightarrow> visit vol' = visit vol"
proof -
  assume "total_clusters vol' = total_clusters vol"
  then have "visit vol' k c = visit vol k c" for k c
    by (induction k arbitrary: c) (simp_all add: cluster_after_def)
  then show ?thesis by (simp add: fun_eq_iff)
qed

subsection \<open>One round\<close>

lemma fat_at_same:
  assumes "fat_same vol0 vol"
  shows "fat_at vol = fat_at vol0" "fat_next vol = fat_next vol0" "cluster_after vol = cluster_after vol0"
    "ft.data vol = ft.data vol0"
  using fat_sameD[OF assms]
  by (simp_all add: fun_eq_iff fat_at_def fat_next_def fat_pos_def fat_start_def fat_adv_def cluster_after_def ft_data)

lemma u32_dec: "u32_minus (u32_of_int i) 1 = u32_of_int (i - 1)"
  by (simp add: u32_minus_def u32_of_int_def mod_diff_left_eq)

lemma alloc_invD:
  assumes "alloc_inv vol0 A vol"
  shows "fat_ok vol" "fat_same vol0 vol" "A \<noteq> [] \<Longrightarrow> ft.chain vol A" "total_clusters vol = total_clusters vol0"
    "\<And>c. c \<in> set A \<Longrightarrow> ft.data vol0 c"
proof -
  show "fat_ok vol" "fat_same vol0 vol" "A \<noteq> [] \<Longrightarrow> ft.chain vol A" using assms by (auto simp: alloc_inv_def)
  then show "total_clusters vol = total_clusters vol0" using fat_sameD by blast
  show "ft.data vol0 c" if "c \<in> set A" for c
    using assms that ft.chain_data[of vol A c] fat_at_same(4)[of vol0 vol] by (auto simp: alloc_inv_def)
qed

text \<open>Taking the free cluster \<open>c\<close> onto the chain.\<close>

definition alloc_take :: "nat list \<Rightarrow> nspace \<Rightarrow> nat \<Rightarrow> nspace" where
  "alloc_take A vol c =
     (let vol1 = (fat_put vol c 0x0fffffff)\<lparr>free_clusters := u32_minus (free_clusters vol) 1\<rparr>
      in if A = [] then vol1 else fat_put vol1 (last A) c)"

lemma alloc_take_inv:
  assumes inv: "alloc_inv vol0 A vol" and c: "ft.data vol0 c" "c \<notin> set A" "fat_entry vol c = 0"
  shows "alloc_inv vol0 (A @ [c]) (alloc_take A vol c)"
proof -
  note ok = alloc_invD(1)[OF inv] and same = alloc_invD(2)[OF inv] and tc = alloc_invD(4)[OF inv]
  have dc: "2 \<le> c" "c < total_clusters vol + 2" using c(1) tc by (auto simp: ft_data)
  let ?v1 = "(fat_put vol c 0x0fffffff)\<lparr>free_clusters := u32_minus (free_clusters vol) 1\<rparr>"
  have ok1: "fat_ok ?v1" using fat_put_ok(1)[OF ok dc(2)] by simp
  have ent1: "fat_entry ?v1 d = (if d = c then 0x0fffffff else fat_entry vol d)" if "ft.data vol0 d" for d
    using that fat_entry_put[OF ok dc, of d "0x0fffffff"] tc by (simp add: ft_data)
  have same1: "fat_same vol0 ?v1" using fat_same_trans[OF same fat_same_trans[OF fat_same_put[OF ok dc(2)] fat_same_free]] .
  have mir1: "fats_mirrored ?v1" if "fat_mirrored vol0" "fats_mirrored vol0"
    using that inv fat_put_ok(2)[OF ok dc(2)] fat_sameD(9)[OF same] by (simp add: alloc_inv_def)
  have free1: "free_clusters ?v1 = u32_of_int (int (free_clusters vol0) - int (length (A @ [c])))"
  proof -
    have "u32_minus (free_clusters vol) 1 = u32_of_int (int (free_clusters vol0) - int (length A) - 1)"
      using inv unfolding alloc_inv_def by (simp only: u32_dec)
    then show ?thesis by (simp add: algebra_simps)
  qed
  have la1: "last_allocated ?v1 = last_allocated vol0" using inv by (simp add: alloc_inv_def)
  have z: "fat_entry vol0 c = 0" using inv c by (auto simp: alloc_inv_def)
  have chc: "ft.chain ?v1 [c]" using ent1[OF c(1)] dc by (simp add: ft_data)
  show ?thesis
  proof (cases "A = []")
    case True
    then show ?thesis
      using inv ok1 same1 la1 free1 ent1 chc z mir1 by (simp add: alloc_inv_def alloc_take_def)
  next
    case False
    then obtain xs x where A: "A = xs @ [x]" by (metis rev_exhaust)
    have dx: "2 \<le> x" "x < total_clusters vol + 2" "ft.data vol0 x"
      using alloc_invD(5)[OF inv, of x] A tc by (auto simp: ft_data)
    have chA: "ft.chain ?v1 A"
    proof (rule ft.chain_cong[OF alloc_invD(3)[OF inv False]])
      show "fat_entry ?v1 d = fat_entry vol d" if "d \<in> set A" for d
        using ent1[OF alloc_invD(5)[OF inv that]] that c(2) by auto
    qed simp
    let ?v2 = "fat_put ?v1 x c"
    have v2: "alloc_take A vol c = ?v2" using False A by (simp add: alloc_take_def)
    have ch2: "ft.chain ?v2 (A @ [c])"
      using ft.chain_append[OF ok1, of xs x c "[]"] chA chc c(2) A by simp
    have ok2: "fat_ok ?v2" using fat_put_ok(1)[OF ok1, of x] dx by simp
    have ent2: "fat_entry ?v2 d = (if d = x then int c else fat_entry ?v1 d)" if "ft.data vol0 d" for d
      using that fat_entry_put[OF ok1, of x d c] dx dc tc by (simp add: ft_data)
    have mir2: "fats_mirrored ?v2" if "fat_mirrored vol0" "fats_mirrored vol0"
      using mir1[OF that] that fat_put_ok(2)[OF ok1, of x] dx fat_sameD(9)[OF same1] by simp
    have "fat_entry ?v2 d = fat_entry vol0 d" if "ft.data vol0 d" "d \<notin> set (A @ [c])" for d
      using ent2[OF that(1)] ent1[OF that(1)] that(2) inv that(1) A by (auto simp: alloc_inv_def)
    then show ?thesis
      unfolding v2 alloc_inv_def
      using ok2 fat_same_trans[OF same1 fat_same_put[OF ok1, of x]] dx ch2 free1 la1 z inv mir2
      by (auto simp: alloc_inv_def)
  qed
qed

lemma fat_raw_zero: "fat_raw vol c = 0 \<longleftrightarrow> fat_entry vol c = 0"
  by (simp add: fat_entry_def Let_def END_FAT_ENTRY_def BAD_FAT_ENTRY_def)

lemma alloc_inv_zero:
  "alloc_inv vol0 A vol \<Longrightarrow> ft.data vol0 c \<Longrightarrow> c \<notin> set A \<Longrightarrow> fat_raw vol c = 0 \<longleftrightarrow> fat_entry vol0 c = 0"
  by (simp add: alloc_inv_def fat_raw_zero)

text \<open>A used cluster is passed over.\<close>

lemma alloc_round_used:
  assumes "fat_ok vol" "ft.data vol c" "fat_at vol st c" "fat_raw vol c \<noteq> 0" "alloc_st A st"
  shows "\<exists>st'. fat_loop set_fat_entry ALLOCATE_N_ENTRIES 0x0fffffff N (Suc k) vol st
      = fat_loop set_fat_entry ALLOCATE_N_ENTRIES 0x0fffffff N k vol st'
    \<and> fat_at vol st' (cluster_after vol c) \<and> alloc_st A st'"
proof -
  have c: "2 \<le> c" "c < total_clusters vol + 2" using assms(2) by (auto simp: ft_data)
  have io: "fat_io ALLOCATE_N_ENTRIES 0x0fffffff vol st = (vol, fat_next vol st c (fat_raw vol c), False)"
    using fat_io_spec[OF assms(1) c(2) assms(3), of ALLOCATE_N_ENTRIES "0x0fffffff"] assms(4) by (auto simp: fat_stores_def)
  have disp: "fat_dispatch set_fat_entry ALLOCATE_N_ENTRIES N vol (fat_next vol st c (fat_raw vol c))
      = (vol, fat_next vol st c (fat_raw vol c), False)"
    using assms(4) by (simp add: fat_dispatch_def fat_next_def)
  obtain st' where "fat_iterate vol (fat_next vol st c (fat_raw vol c)) = (st', False)" "fat_at vol st' (cluster_after vol c)"
    "f_result st' = f_result st" "f_n st' = f_n st" "f_first st' = f_first st" "f_last st' = f_last st"
    using fat_iterate_spec[OF assms(1) c, of st "fat_raw vol c"] assms(3) by (auto simp: fat_at_def cluster_after_def)
  then show ?thesis
    using assms(5) by (intro exI[of _ st']) (simp add: io disp alloc_st_def)
qed

text \<open>A free cluster is linked; the loop ends with the last one wanted.\<close>

lemma alloc_round_free:
  assumes inv: "alloc_inv vol0 A vol" and data: "ft.data vol0 c" and new: "c \<notin> set A"
    and at: "fat_at vol0 st c" and zero: "fat_raw vol c = 0" and st: "alloc_st A st"
    and len: "length A + 1 < 2 ^ 32"
  shows "\<exists>st1 st2. fat_loop set_fat_entry ALLOCATE_N_ENTRIES 0x0fffffff N (Suc k) vol st
      = (if length A + 1 = u32_of_int N then (alloc_take A vol c, st1)
         else fat_loop set_fat_entry ALLOCATE_N_ENTRIES 0x0fffffff N k (alloc_take A vol c) st2)
    \<and> alloc_st (A @ [c]) st1 \<and> f_cluster st1 = c
    \<and> alloc_st (A @ [c]) st2 \<and> fat_at vol0 st2 (cluster_after vol0 c)"
proof -
  note ok = alloc_invD(1)[OF inv] and same = alloc_invD(2)[OF inv] and tc = alloc_invD(4)[OF inv]
  have c: "2 \<le> c" "c < total_clusters vol + 2" using data tc by (auto simp: ft_data)
  have at': "fat_at vol st c" using at fat_at_same(1)[OF same] by simp
  let ?nx = "fat_next vol st c 0" and ?adv = "fat_start vol + fat_adv vol c"
  let ?v1 = "(fat_put vol c 0x0fffffff)\<lparr>free_clusters := u32_minus (free_clusters vol) 1\<rparr>"
  obtain W where io: "fat_io ALLOCATE_N_ENTRIES 0x0fffffff vol st = (W, ?nx, False)"
    and W: "free_clusters W = free_clusters vol"
      "\<And>x. snd (mirror_fats (W\<lparr>free_clusters := x\<rparr>) ?adv ?adv) = (fat_put vol c 0x0fffffff)\<lparr>free_clusters := x\<rparr>"
    using fat_io_spec[OF ok c(2) at', of ALLOCATE_N_ENTRIES "0x0fffffff"] zero by (auto simp: fat_stores_def)
  define st1 where "st1 = ?nx\<lparr>f_first := (if A = [] then c else hd A), f_last := c, f_n := length A + 1, f_result := 0\<rparr>"
  have nx: "f_value ?nx = 0" "f_sector ?nx = ?adv" "f_block1 ?nx = ?adv" "f_n ?nx = length A" "f_cluster ?nx = c"
    "f_result ?nx = 0" "f_first ?nx = (if A = [] then 0 else hd A)" "A \<noteq> [] \<Longrightarrow> f_last ?nx = last A"
    using st at by (simp_all add: fat_next_def alloc_st_def fat_at_def)
  have u: "u32 (length A + 1) = length A + 1" using len by simp
  have "alloc_inv vol0 (A @ [c]) (alloc_take A vol c)"
    using alloc_take_inv[OF inv data new] zero by (simp add: fat_raw_zero)
  note inv2 = alloc_invD[OF this]
  have disp: "fat_dispatch set_fat_entry ALLOCATE_N_ENTRIES N W ?nx
      = (alloc_take A vol c, st1, length A + 1 = u32_of_int N)"
  proof (cases "A = []")
    case True
    then show ?thesis
      using nx W u by (simp add: fat_dispatch_def alloc_take_def Let_def st1_def)
  next
    case False
    have ok1: "fat_ok ?v1" using fat_put_ok(1)[OF ok c(2)] by simp
    have l: "2 \<le> last A" "last A < total_clusters ?v1 + 2"
      using alloc_invD(5)[OF inv, of "last A"] False tc by (auto simp: ft_data)
    have cs: "s32 (int c) = int c" "u32 c = c"
      using c fat_clusters_bound(2)[OF ok] by simp_all
    have "set_fat_entry ?v1 (last A) (int c) = (0, fat_put ?v1 (last A) c)"
      using set_fat_entry_eq[OF ok1 l, of "int c"] cs by simp
    then show ?thesis
      using False nx W u cs by (simp add: fat_dispatch_def alloc_take_def Let_def st1_def)
  qed
  have st1: "alloc_st (A @ [c]) st1" "f_cluster st1 = c"
    by (simp_all add: alloc_st_def st1_def nx)
  have fn: "st1 = fat_next (alloc_take A vol c) (st1\<lparr>f_value := 0\<rparr>) c 0"
    unfolding st1_def fat_at_same(2)[OF inv2(2)] fat_at_same(2)[OF same] by (simp add: fat_next_def)
  have c2: "2 \<le> c" "c < total_clusters (alloc_take A vol c) + 2" using c inv2(4) tc by simp_all
  obtain st2 where st2: "fat_iterate (alloc_take A vol c) st1 = (st2, False)"
    "fat_at (alloc_take A vol c) st2 (cluster_after (alloc_take A vol c) c)"
    "f_result st2 = f_result st1" "f_n st2 = f_n st1" "f_first st2 = f_first st1" "f_last st2 = f_last st1"
    using fat_iterate_spec[OF inv2(1) c2, of "st1\<lparr>f_value := 0\<rparr>" 0] st1(2) unfolding fn[symmetric]
    by (auto simp: cluster_after_def)
  show ?thesis
    using st1 st2 fat_at_same[OF inv2(2)]
    by (intro exI[of _ st1] exI[of _ st2]) (simp add: io disp alloc_st_def)
qed

subsection \<open>The allocating loop\<close>

lemma alloc_loop:
  assumes "alloc_inv vol0 A vol" "alloc_st A st" "fat_at vol0 st c" "ft.data vol0 c"
    "distinct (visit vol0 k c)" "set (visit vol0 k c) \<inter> set A = {}" "length A < n" "n = u32_of_int N"
  shows "\<exists>vol' st'. fat_loop set_fat_entry ALLOCATE_N_ENTRIES 0x0fffffff N k vol st = (vol', st')
    \<and> (let B = A @ take (n - length A) (filter (\<lambda>d. fat_entry vol0 d = 0) (visit vol0 k c))
       in alloc_inv vol0 B vol' \<and> alloc_st B st' \<and> (length B = n \<longrightarrow> f_cluster st' = last B))"
  using assms
proof (induction k arbitrary: A vol st c)
  case 0
  then show ?case by simp
next
  case (Suc k)
  note inv = Suc.prems(1) and data = Suc.prems(4)
  let ?c' = "cluster_after vol0 c"
  have new: "c \<notin> set A" and d': "distinct (visit vol0 k ?c')" "c \<notin> set (visit vol0 k ?c')"
    "set (visit vol0 k ?c') \<inter> set A = {}"
    using Suc.prems(5,6) by auto
  have datav: "ft.data vol c" and eq: "fat_at vol = fat_at vol0" "cluster_after vol = cluster_after vol0"
    using data fat_at_same[OF alloc_invD(2)[OF inv]] by simp_all
  have data': "ft.data vol0 ?c'" by (rule cluster_after_data[OF data])
  show ?case
  proof (cases "fat_raw vol c = 0")
    case False
    then obtain st' where "fat_loop set_fat_entry ALLOCATE_N_ENTRIES 0x0fffffff N (Suc k) vol st
        = fat_loop set_fat_entry ALLOCATE_N_ENTRIES 0x0fffffff N k vol st'" "fat_at vol0 st' ?c'" "alloc_st A st'"
      using alloc_round_used[OF alloc_invD(1)[OF inv] datav, of st A N k] Suc.prems(2,3) unfolding eq by blast
    moreover have "fat_entry vol0 c \<noteq> 0" using False alloc_inv_zero[OF inv data new] by simp
    ultimately show ?thesis
      using Suc.IH[OF inv _ _ data' d'(1,3) Suc.prems(7,8), of st'] by simp
  next
    case True
    then have z: "fat_entry vol0 c = 0" using alloc_inv_zero[OF inv data new] by simp
    have n32: "n < 2 ^ 32" using Suc.prems(8) by (simp add: u32_of_int_def nat_less_iff)
    have len: "length A + 1 < 2 ^ 32 \<or> length A + 1 = n" "length A + 1 \<le> n" using n32 Suc.prems(7) by linarith+
    have len': "length A + 1 < 2 ^ 32" using len n32 by linarith
    obtain st1 st2 where r: "fat_loop set_fat_entry ALLOCATE_N_ENTRIES 0x0fffffff N (Suc k) vol st
        = (if length A + 1 = n then (alloc_take A vol c, st1)
           else fat_loop set_fat_entry ALLOCATE_N_ENTRIES 0x0fffffff N k (alloc_take A vol c) st2)"
      "alloc_st (A @ [c]) st1" "f_cluster st1 = c" "alloc_st (A @ [c]) st2" "fat_at vol0 st2 ?c'"
      using alloc_round_free[OF inv data new Suc.prems(3) True Suc.prems(2) len', of N k] Suc.prems(8) by auto
    have inv': "alloc_inv vol0 (A @ [c]) (alloc_take A vol c)"
      using alloc_take_inv[OF inv data new] True by (simp add: fat_raw_zero)
    show ?thesis
    proof (cases "length A + 1 = n")
      case True
      then have "take (n - length A) (filter (\<lambda>d. fat_entry vol0 d = 0) (visit vol0 (Suc k) c)) = [c]"
        using z by (simp add: take_Cons')
      then show ?thesis using r inv' True by simp
    next
      case False
      then have lt: "length (A @ [c]) < n" using Suc.prems(7) by simp
      have "set (visit vol0 k ?c') \<inter> set (A @ [c]) = {}" using d' by auto
      from Suc.IH[OF inv' r(4,5) data' d'(1) this lt Suc.prems(8)] obtain vol' st' where
        lp: "fat_loop set_fat_entry ALLOCATE_N_ENTRIES 0x0fffffff N k (alloc_take A vol c) st2 = (vol', st')"
        and IH: "let B = (A @ [c]) @ take (n - length (A @ [c])) (filter (\<lambda>d. fat_entry vol0 d = 0) (visit vol0 k ?c'))
          in alloc_inv vol0 B vol' \<and> alloc_st B st' \<and> (length B = n \<longrightarrow> f_cluster st' = last B)"
        by blast
      have eqB: "A @ take (n - length A) (filter (\<lambda>d. fat_entry vol0 d = 0) (visit vol0 (Suc k) c))
          = (A @ [c]) @ take (n - length (A @ [c])) (filter (\<lambda>d. fat_entry vol0 d = 0) (visit vol0 k ?c'))"
      proof -
        have "n - length A = Suc (n - length (A @ [c]))" using lt by simp
        then show ?thesis using z by simp
      qed
      have "fat_loop set_fat_entry ALLOCATE_N_ENTRIES 0x0fffffff N (Suc k) vol st = (vol', st')"
        unfolding r(1) if_not_P[OF False] by (rule lp)
      then show ?thesis unfolding eqB using IH by blast
    qed
  qed
qed

text \<open>The whole run of the allocating action.\<close>

lemma alloc_inv_init: "fat_ok vol \<Longrightarrow> free_clusters vol < 2 ^ 32 \<Longrightarrow> alloc_inv vol [] vol"
  by (simp add: alloc_inv_def)

lemma free_order_visit:
  assumes "fat_ok vol" "ft.data vol (last_allocated vol)"
  shows "free_order vol = filter (\<lambda>d. fat_entry vol d = 0) (visit vol (total_clusters vol) (last_allocated vol))"
  unfolding free_order_def visit_all[OF assms(2)]
  by (rule filter_cong) (use assms get_fat_entry_eq[OF assms(1)] in \<open>auto simp: ft_data\<close>)

lemma free_count_le: "free_count vol \<le> total_clusters vol"
proof -
  have "free_count vol \<le> card {2..<total_clusters vol + 2}"
    unfolding free_count_def by (intro card_mono) auto
  then show ?thesis by simp
qed

lemma free_order_props:
  assumes "fat_ok vol" "ft.data vol (last_allocated vol)"
  shows "distinct (free_order vol)" "set (free_order vol) = {c. ft.data vol c \<and> fat_entry vol c = 0}"
    "length (free_order vol) = free_count vol"
proof -
  show d: "distinct (free_order vol)" by (auto simp: free_order_def)
  show s: "set (free_order vol) = {c. ft.data vol c \<and> fat_entry vol c = 0}"
    using assms(2) get_fat_entry_eq[OF assms(1)] by (auto simp: free_order_def ft_data simp del: upt_Suc)
  have "set (free_order vol) = {c. 2 \<le> c \<and> c < total_clusters vol + 2 \<and> get_fat_entry vol c = 0}"
    using s get_fat_entry_eq[OF assms(1)] by (auto simp: ft_data)
  then show "length (free_order vol) = free_count vol"
    using distinct_card[OF d] by (simp add: free_count_def)
qed

lemma alloc_run:
  assumes ok: "fat_ok vol" and la: "ft.data vol (last_allocated vol)" and free: "free_clusters vol < 2 ^ 32"
    and N: "1 \<le> N" "N < 2 ^ 31"
  defines "B \<equiv> take (nat N) (free_order vol)"
  shows "\<exists>vol' st'. fat_ioctl vol ALLOCATE_N_ENTRIES 0 N = fat_finish clear_fat_chain ALLOCATE_N_ENTRIES N vol' st'
    \<and> alloc_inv vol B vol' \<and> alloc_st B st' \<and> (length B = nat N \<longrightarrow> f_cluster st' = last B)"
proof -
  let ?c = "last_allocated vol"
  have c: "2 \<le> ?c" "?c < total_clusters vol + 2" using la by (auto simp: ft_data)
  have d: "distinct (visit vol (total_clusters vol) ?c)" unfolding visit_all[OF la] by auto
  have st: "alloc_st [] (fat_init vol ?c)" by (simp add: alloc_st_def fat_init_def)
  have n: "length [] < nat N" "nat N = u32_of_int N" using N by simp_all
  have e: "set (visit vol (total_clusters vol) ?c) \<inter> set [] = {}" by simp
  obtain vol' st' where r: "fat_loop set_fat_entry ALLOCATE_N_ENTRIES 0x0fffffff N (total_clusters vol) vol (fat_init vol ?c) = (vol', st')"
    and inv: "alloc_inv vol B vol' \<and> alloc_st B st' \<and> (length B = nat N \<longrightarrow> f_cluster st' = last B)"
    using alloc_loop[OF alloc_inv_init[OF ok free] st fat_at_init la d e n]
    unfolding B_def free_order_visit[OF ok la] Let_def append_Nil list.size(3) diff_zero by blast
  have "fat_ioctl vol ALLOCATE_N_ENTRIES 0 N = fat_finish clear_fat_chain ALLOCATE_N_ENTRIES N vol' st'"
    unfolding fat_ioctl_def
    using fat_ioctl_start[OF ok, of ALLOCATE_N_ENTRIES 0 set_fat_entry clear_fat_chain N] c
    by (simp only: r fat_action.distinct if_True if_False simp_thms Let_def split)
  then show ?thesis using inv by blast
qed

lemma u32_add_of_int: "u32 (u32_of_int (int a - int n) + n) = u32 a"
proof -
  have "int (u32 (u32_of_int (int a - int n) + n)) = ((int a - int n) mod 2 ^ 32 + int n) mod 2 ^ 32"
    by (simp add: u32_def u32_of_int_def of_nat_mod)
  also have "\<dots> = int (u32 a)" by (simp add: mod_add_left_eq u32_def of_nat_mod)
  finally show ?thesis by simp
qed

subsection \<open>Counting\<close>

lemma count_round:
  assumes "fat_ok vol" "ft.data vol c" "fat_at vol st c"
  shows "\<exists>st'. fat_loop se COUNT_FREE e N (Suc k) vol st = fat_loop se COUNT_FREE e N k vol st'
    \<and> fat_at vol st' (cluster_after vol c)
    \<and> f_result st' = f_result st + (if fat_entry vol c = 0 then 1 else 0)"
proof -
  have c: "2 \<le> c" "c < total_clusters vol + 2" using assms(2) by (auto simp: ft_data)
  let ?nx = "fat_next vol st c (fat_raw vol c)"
  let ?st = "st\<lparr>f_result := (if fat_raw vol c = 0 then f_result st + 1 else f_result st)\<rparr>"
  have io: "fat_io COUNT_FREE e vol st = (vol, ?nx, False)"
    using fat_io_spec[OF assms(1) c(2) assms(3), of COUNT_FREE e] by (auto simp: fat_stores_def)
  have disp: "fat_dispatch se COUNT_FREE N vol ?nx = (vol, fat_next vol ?st c (fat_raw vol c), False)"
    by (simp add: fat_dispatch_def fat_next_def)
  obtain st' where "fat_iterate vol (fat_next vol ?st c (fat_raw vol c)) = (st', False)" "fat_at vol st' (cluster_after vol c)"
    "f_result st' = f_result ?st"
    using fat_iterate_spec[OF assms(1) c, of ?st "fat_raw vol c"] assms(3) by (auto simp: fat_at_def cluster_after_def)
  then show ?thesis by (intro exI[of _ st']) (simp add: io disp fat_raw_zero)
qed

lemma count_loop:
  "fat_ok vol \<Longrightarrow> ft.data vol c \<Longrightarrow> fat_at vol st c \<Longrightarrow>
   \<exists>st'. fat_loop se COUNT_FREE e N k vol st = (vol, st')
     \<and> f_result st' = f_result st + int (length (filter (\<lambda>d. fat_entry vol d = 0) (visit vol k c)))"
proof (induction k arbitrary: c st)
  case (Suc k)
  obtain st1 where r: "fat_loop se COUNT_FREE e N (Suc k) vol st = fat_loop se COUNT_FREE e N k vol st1"
    "fat_at vol st1 (cluster_after vol c)" "f_result st1 = f_result st + (if fat_entry vol c = 0 then 1 else 0)"
    using count_round[OF Suc.prems] by blast
  from Suc.IH[OF Suc.prems(1) cluster_after_data[OF Suc.prems(2)] r(2)] show ?case
    unfolding r(1) r(3) by (auto simp del: fat_loop.simps)
qed simp

text \<open>The scan of a 32 bit table: the number of free words of a sector, and of the table.\<close>

lemma count_free_block_words:
  assumes "bps mod 4 = 0" "k \<le> bps div 4"
  shows "count_free_block b bps (4 * k) count
    = count + int (length (filter (\<lambda>j. read32 b (4 * j) mod 2 ^ 28 = 0) [k..<bps div 4]))"
  using assms(2)
proof (induction "bps div 4 - k" arbitrary: k count)
  case 0
  then have "bps = 4 * k" using assms(1) by (metis diff_is_0_eq le_antisym mult_div_mod_eq add.right_neutral)
  then show ?case using 0 by (subst count_free_block.simps) simp
next
  case (Suc n)
  then have k: "4 * k < bps" "k < bps div 4" by presburger+
  then have up: "[k..<bps div 4] = k # [Suc k..<bps div 4]" by (simp add: upt_conv_Cons)
  have "4 * k + 4 = 4 * Suc k" by simp
  moreover have "n = bps div 4 - Suc k" "Suc k \<le> bps div 4" using Suc.hyps(2) k(2) by simp_all
  ultimately have IH: "count_free_block b bps (4 * k + 4) c
      = c + int (length (filter (\<lambda>j. read32 b (4 * j) mod 2 ^ 28 = 0) [Suc k..<bps div 4]))" for c
    using Suc.hyps(1)[of "Suc k" c] by (simp only:)
  show ?case
    unfolding up count_free_block.simps[of b bps "4 * k"] using k(1) by (simp add: Let_def IH)
qed

definition free_words :: "nspace \<Rightarrow> nat \<Rightarrow> nat" where
  "free_words vol s =
     length (filter (\<lambda>j. read32 (block_data vol (fat_start vol + s)) (4 * j) mod 2 ^ 28 = 0) [0..<bytes_per_sector vol div 4])"

lemma count_free_sectors_words:
  assumes "fat_ok vol" "s + k = sectors_per_fat vol"
  shows "count_free_sectors vol k (fat_start vol + s) count = count + int (\<Sum>t = s..<sectors_per_fat vol. free_words vol t)"
  using assms(2)
proof (induction k arbitrary: s count)
  case (Suc k)
  then have s: "s < sectors_per_fat vol" by simp
  have m: "bytes_per_sector vol mod 4 = 0" using assms(1) by (simp add: fat_ok_def)
  have "count_free_block (block_data vol (fat_start vol + s)) (bytes_per_sector vol) 0 count = count + int (free_words vol s)"
    using count_free_block_words[OF m, of 0] by (simp add: free_words_def)
  moreover have "u32 (fat_start vol + s + 1) = fat_start vol + Suc s \<or> k = 0"
    using fat_start_present(3)[OF assms(1), of "s + 1"] Suc.prems by (cases k) simp_all
  moreover have "block_cache_get vol (fat_start vol + s) = Some (fat_start vol + s)"
    using fat_start_present(1)[OF assms(1) s] by simp
  ultimately show ?case
    using Suc.IH[of "Suc s"] Suc.prems s by (auto simp: sum.atLeast_Suc_lessThan)
qed simp

lemma length_filter_grid:
  "length (filter P [0..<a * b]) = (\<Sum>t = 0..<a. length (filter (\<lambda>j. P (t * b + j)) [0..<b]))"
proof (induction a)
  case (Suc a)
  have "[0..<Suc a * b] = [0..<a * b] @ map (\<lambda>j. a * b + j) [0..<b]"
    using upt_add_eq_append[of 0 "a * b" b] map_add_upt[of "a * b" b] by (simp add: add.commute)
  then show ?case using Suc by (simp add: filter_map o_def)
qed simp

lemma free_words_raw:
  assumes "fat_ok vol" "fat_bits vol = 32"
  shows "free_words vol t = length (filter (\<lambda>j. fat_raw vol (t * (bytes_per_sector vol div 4) + j) = 0) [0..<bytes_per_sector vol div 4])"
proof -
  let ?n = "bytes_per_sector vol" and ?b = "bytes_per_sector vol div 4"
  have n: "?n = 4 * ?b" "0 < ?n" using assms(1) by (auto simp: fat_ok_def)
  have "fat_raw vol (t * ?b + j) = read32 (block_data vol (fat_start vol + t)) (4 * j) mod 2 ^ 28" if "j < ?b" for j
  proof -
    have p: "fat_pos vol (t * ?b + j) = t * ?n + 4 * j" using assms(2) n(1) by (simp add: fat_pos_def algebra_simps)
    have "(t * ?n + 4 * j + i) div ?n = t" "(t * ?n + 4 * j + i) mod ?n = 4 * j + i" if "i < 4" for i
      using that \<open>j < ?b\<close> n by (simp_all add: add.assoc)
    from this[of 0] this[of 1] this[of 2] this[of 3] show ?thesis
      by (simp add: fat_raw_def assms(2) Let_def p fat_byte_def read32_def add.assoc)
  qed
  then show ?thesis unfolding free_words_def by (intro arg_cong[of _ _ length] filter_cong) simp_all
qed

lemma free_count_eq: "fat_ok vol \<Longrightarrow> free_count vol = card {c. ft.data vol c \<and> fat_entry vol c = 0}"
  unfolding free_count_def by (rule arg_cong[of _ _ card]) (auto simp: ft_data get_fat_entry_eq)

subsection \<open>The outcome of an allocation\<close>

lemma allocate_run:
  assumes "fat_ok vol" "2 \<le> last_allocated vol" "last_allocated vol < total_clusters vol + 2"
    and "free_clusters vol < 2 ^ 32" "1 \<le> n" "n \<le> free_count vol"
  shows "\<exists>vol'. let A = take n (free_order vol) in
      allocate_n_fat_entries vol (int n) = (B_OK, hd A, vol')
    \<and> fat_ok vol' \<and> fat_same vol vol' \<and> fat_chain vol' A \<and> length A = n \<and> distinct A
    \<and> (\<forall>c \<in> set A. get_fat_entry vol c = 0)
    \<and> (\<forall>c. 2 \<le> c \<and> c < total_clusters vol + 2 \<and> c \<notin> set A \<longrightarrow> get_fat_entry vol' c = get_fat_entry vol c)
    \<and> free_clusters vol' = u32_of_int (int (free_clusters vol) - int n)
    \<and> last_allocated vol' = last A
    \<and> (fat_mirrored vol \<longrightarrow> fats_mirrored vol \<longrightarrow> fats_mirrored vol')"
proof -
  let ?A = "take n (free_order vol)"
  have la: "ft.data vol (last_allocated vol)" using assms(2,3) by (simp add: ft_data)
  note fo = free_order_props[OF assms(1) la]
  have len: "length ?A = n" using assms(6) fo(3) by simp
  then have ne: "?A \<noteq> []" using assms(5) by (metis list.size(3) not_one_le_zero)
  have dA: "c \<in> set ?A \<Longrightarrow> ft.data vol c \<and> fat_entry vol c = 0" for c
    using fo(2) in_set_takeD[of c n "free_order vol"] by blast
  have N: "1 \<le> int n" using assms(5) by simp
  have n31: "int n < 2 ^ 31"
  proof -
    have "n < 2 ^ 31" using assms(6) free_count_le[of vol] fat_clusters_bound(2)[OF assms(1)] by simp
    then show ?thesis by simp
  qed
  obtain w st where r: "fat_ioctl vol ALLOCATE_N_ENTRIES 0 (int n) = fat_finish clear_fat_chain ALLOCATE_N_ENTRIES (int n) w st"
    and inv: "alloc_inv vol ?A w" and st: "alloc_st ?A st" and last: "f_cluster st = last ?A"
    using alloc_run[OF assms(1) la assms(4) N n31, unfolded nat_int] len by blast
  let ?v = "w\<lparr>last_allocated := last ?A\<rparr>"
  have hd: "hd ?A < 2 ^ 28" using dA[OF hd_in_set[OF ne]] fat_clusters_bound(2)[OF assms(1)] by (simp add: ft_data)
  have f: "f_result st = 0" "f_n st = n" "f_first st = hd ?A"
    using st ne len by (simp_all only: alloc_st_def if_False)
  have u: "u32_of_int (int n) = n" "s32 (int (hd ?A)) = int (hd ?A)" "u32_of_int (int (hd ?A)) = hd ?A"
    using n31 hd by simp_all
  have "fat_finish clear_fat_chain ALLOCATE_N_ENTRIES (int n) w st = (int (hd ?A), ?v)"
    unfolding fat_finish_def f last u by simp
  then have run: "allocate_n_fat_entries vol (int n) = (B_OK, hd ?A, ?v)"
    unfolding allocate_n_fat_entries_def r B_OK_def using hd by simp
  have get: "get_fat_entry vol c = fat_entry vol c" "get_fat_entry ?v c = fat_entry w c" if "ft.data vol c" for c
    using that get_fat_entry_eq[OF assms(1)] get_fat_entry_eq[of ?v c] alloc_invD(1,4)[OF inv] by (simp_all add: ft_data)
  have "ft.chain ?v ?A" using alloc_invD(3)[OF inv ne] by (rule ft.chain_cong) simp_all
  then have chain: "fat_chain ?v ?A" using fat_chain_eq[of ?v] alloc_invD(1)[OF inv] by simp
  note i = inv[unfolded alloc_inv_def]
  show ?thesis
    unfolding Let_def
    apply (rule exI[of _ ?v])
    apply (intro conjI)
    subgoal by (rule run)
    subgoal using i by simp
    subgoal using fat_same_trans[OF alloc_invD(2)[OF inv] fat_same_last] .
    subgoal by (rule chain)
    subgoal by (rule len)
    subgoal using fo(1) by simp
    subgoal using dA get(1) by auto
    subgoal using i get by (auto simp: ft_data)
    subgoal using i len by simp
    subgoal by simp
    subgoal using i by simp
    done
qed

lemma allocate_run_full:
  assumes "fat_ok vol" "2 \<le> last_allocated vol" "last_allocated vol < total_clusters vol + 2"
    and "free_clusters vol < 2 ^ 32" "free_count vol < n" "n < 2 ^ 31"
  shows "\<exists>vol'. allocate_n_fat_entries vol (int n) = (B_DEVICE_FULL, 0, vol')
    \<and> fat_ok vol' \<and> fat_same vol vol'
    \<and> (\<forall>c. 2 \<le> c \<and> c < total_clusters vol + 2 \<longrightarrow> get_fat_entry vol' c = get_fat_entry vol c)
    \<and> free_clusters vol' = free_clusters vol \<and> last_allocated vol' = last_allocated vol
    \<and> (fat_mirrored vol \<longrightarrow> fats_mirrored vol \<longrightarrow> fats_mirrored vol')"
proof -
  have la: "ft.data vol (last_allocated vol)" using assms(2,3) by (simp add: ft_data)
  note fo = free_order_props[OF assms(1) la]
  define A where "A = free_order vol"
  have A: "take n (free_order vol) = A" "length A < n" using fo(3) assms(5) by (simp_all add: A_def)
  have N: "1 \<le> int n" "int n < 2 ^ 31" using assms(5,6) by simp_all
  obtain w st where r: "fat_ioctl vol ALLOCATE_N_ENTRIES 0 (int n) = fat_finish clear_fat_chain ALLOCATE_N_ENTRIES (int n) w st"
    and inv: "alloc_inv vol A w" and st: "alloc_st A st"
    using alloc_run[OF assms(1) la assms(4) N, unfolded nat_int A(1)] by blast
  note i = inv[unfolded alloc_inv_def]
  have f: "f_result st = 0" "f_n st \<noteq> n" "f_first st = (if A = [] then 0 else hd A)"
    using st A(2) by (simp_all add: alloc_st_def)
  have u: "u32_of_int (int n) = n" using assms(6) by simp
  have "\<exists>v. (if f_first st \<noteq> 0 then snd (clear_fat_chain w (f_first st)) else w) = v \<and> fat_ok v \<and> fat_same vol v
    \<and> last_allocated v = last_allocated vol \<and> free_clusters v = free_clusters vol
    \<and> (\<forall>d. ft.data vol d \<longrightarrow> fat_entry v d = fat_entry vol d)
    \<and> (fat_mirrored vol \<longrightarrow> fats_mirrored vol \<longrightarrow> fats_mirrored v)"
  proof (cases A)
    case Nil
    then show ?thesis using i f(3) assms(4) by (intro exI[of _ w]) simp
  next
    case (Cons c cs)
    have ch: "ft.chain w (c # cs)" using alloc_invD(3)[OF inv] Cons by simp
    have c: "f_first st = c" "c \<noteq> 0" using f(3) Cons ft.chain_hd[OF ch] by (auto simp: ft_data)
    obtain v where v: "clear_fat_chain w c = (B_OK, v)" "fat_ok v" "fat_same w v" "last_allocated v = last_allocated w"
      "\<forall>d. ft.data w d \<longrightarrow> fat_entry v d = (if d \<in> set (c # cs) then 0 else fat_entry w d)"
      "free_clusters v = u32 (free_clusters w + length (c # cs))"
      "fat_mirrored w \<longrightarrow> fats_mirrored w \<longrightarrow> fats_mirrored v"
      using clear_fat_chain_run[OF alloc_invD(1)[OF inv] ch] by blast
    have "fat_entry v d = fat_entry vol d" if "ft.data vol d" for d
      using v(5) that i Cons fat_at_same(4)[OF alloc_invD(2)[OF inv]] by (cases "d \<in> set A") auto
    moreover have "free_clusters v = free_clusters vol"
      using v(6) i Cons assms(4) u32_add_of_int[of "free_clusters vol" "length A"] by simp
    ultimately show ?thesis
      using v c i fat_same_trans[OF alloc_invD(2)[OF inv] v(3)] fat_sameD(9)[OF alloc_invD(2)[OF inv]]
      by (intro exI[of _ v]) simp
  qed
  then obtain v where v: "(if f_first st \<noteq> 0 then snd (clear_fat_chain w (f_first st)) else w) = v" "fat_ok v" "fat_same vol v"
    "last_allocated v = last_allocated vol" "free_clusters v = free_clusters vol"
    "\<forall>d. ft.data vol d \<longrightarrow> fat_entry v d = fat_entry vol d"
    "fat_mirrored vol \<longrightarrow> fats_mirrored vol \<longrightarrow> fats_mirrored v" by blast
  have "allocate_n_fat_entries vol (int n) = (B_DEVICE_FULL, 0, v)"
    unfolding allocate_n_fat_entries_def r fat_finish_def v(1) u using f(1,2) by (simp add: errno_defs)
  moreover have "get_fat_entry v c = get_fat_entry vol c" if "2 \<le> c" "c < total_clusters vol + 2" for c
    using that v(6) get_fat_entry_eq[OF assms(1) that] get_fat_entry_eq[OF v(2), of c] fat_sameD(1)[OF v(3)]
    by (simp add: ft_data)
  ultimately show ?thesis using v by blast
qed

section \<open>Properties\<close>

text \<open>C9: when at least \<open>n\<close> clusters are free, \<^verbatim>\<open>allocate_n_fat_entries\<close> takes the first \<open>n\<close> free ones in search
  order (from the last allocated cluster upwards, then round), all different and all free before, links
  them into one chain that ends with the end mark, returns the first of them, keeps every other entry and the equality
  of the copies, lowers the number of free clusters by \<open>n\<close> and remembers the last cluster of the chain.\<close>

theorem allocate_n_fat_entries_chain:
  assumes "fat_ok vol" "2 \<le> last_allocated vol" "last_allocated vol < total_clusters vol + 2"
    and "free_clusters vol < 2 ^ 32" "1 \<le> n" "n \<le> free_count vol"
  shows "\<exists>vol'. let A = take n (free_order vol) in
      allocate_n_fat_entries vol (int n) = (B_OK, hd A, vol')
    \<and> fat_ok vol' \<and> fat_same vol vol' \<and> fat_chain vol' A \<and> length A = n \<and> distinct A
    \<and> (\<forall>c \<in> set A. get_fat_entry vol c = 0)
    \<and> (\<forall>c. 2 \<le> c \<and> c < total_clusters vol + 2 \<and> c \<notin> set A \<longrightarrow> get_fat_entry vol' c = get_fat_entry vol c)
    \<and> free_clusters vol' = u32_of_int (int (free_clusters vol) - int n)
    \<and> last_allocated vol' = last A
    \<and> (fat_mirrored vol \<longrightarrow> fats_mirrored vol \<longrightarrow> fats_mirrored vol')"
  using assms by (rule allocate_run)

text \<open>C10: an allocation that asks for more than is free fails with \<^verbatim>\<open>B_DEVICE_FULL\<close> and gives back what it took: all
  entries, the number of free clusters and the place of the last allocation are as before.\<close>

theorem allocate_n_fat_entries_full:
  assumes "fat_ok vol" "2 \<le> last_allocated vol" "last_allocated vol < total_clusters vol + 2"
    and "free_clusters vol < 2 ^ 32" "free_count vol < n" "n < 2 ^ 31"
  shows "\<exists>vol'. allocate_n_fat_entries vol (int n) = (B_DEVICE_FULL, 0, vol')
    \<and> fat_ok vol' \<and> fat_same vol vol'
    \<and> (\<forall>c. 2 \<le> c \<and> c < total_clusters vol + 2 \<longrightarrow> get_fat_entry vol' c = get_fat_entry vol c)
    \<and> free_clusters vol' = free_clusters vol \<and> last_allocated vol' = last_allocated vol
    \<and> (fat_mirrored vol \<longrightarrow> fats_mirrored vol \<longrightarrow> fats_mirrored vol')"
  using assms by (rule allocate_run_full)

text \<open>With an allocation hint that is no data cluster every allocation fails with \<^verbatim>\<open>B_BAD_VALUE\<close>, however many
  clusters are free, and changes nothing.\<close>

theorem allocate_n_fat_entries_bad_hint:
  assumes "\<not> IS_DATA_CLUSTER vol (int (last_allocated vol))"
  shows "allocate_n_fat_entries vol n = (B_BAD_VALUE, 0, vol)"
  using assms by (simp add: allocate_n_fat_entries_def fat_ioctl_def fat_ioctl_gen_def Let_def errno_defs)

text \<open>On a 12 or 16 bit table \<^verbatim>\<open>count_free_clusters\<close> gives the number of data clusters whose entry is free.\<close>

theorem count_free_clusters_counts:
  assumes "fat_ok vol" "fat_bits vol \<noteq> 32" "1 \<le> total_clusters vol"
  shows "count_free_clusters vol = int (free_count vol)"
proof -
  have d: "ft.data vol 2" using assms(3) by (simp add: ft_data)
  let ?zero = "\<lambda>d. fat_entry vol d = 0"
  have c: "2 \<le> (2::nat)" "2 < total_clusters vol + 2" using assms(3) by simp_all
  define se :: set_entry_fun where "se = (\<lambda>vol _ _. (B_ERROR, vol))"
  obtain st where r: "fat_loop se COUNT_FREE 0x0fffffff 0 (total_clusters vol) vol (fat_init vol 2) = (vol, st)"
    "f_result st = int (length (filter ?zero (visit vol (total_clusters vol) 2)))"
    using count_loop[OF assms(1) d fat_at_init[of vol 2], of se "0x0fffffff" 0 "total_clusters vol"] by (auto simp: fat_init_def)
  have "count_free_clusters vol = f_result st"
    using fat_ioctl_start[OF assms(1), of COUNT_FREE 0 se "\<lambda>vol _. (B_ERROR, vol)" 0] c assms(2) r(1)
    unfolding count_free_clusters_def fat_ioctl_base_def se_def[symmetric] by (simp add: fat_finish_def)
  also have "\<dots> = int (length (filter ?zero [2..<total_clusters vol + 2]))"
    unfolding r(2) visit_all[OF d] by simp
  also have "length (filter ?zero [2..<total_clusters vol + 2]) = free_count vol"
    unfolding distinct_length_filter[OF distinct_upt] free_count_eq[OF assms(1)] set_upt
    by (rule arg_cong[of _ _ card]) (auto simp: ft_data)
  finally show ?thesis .
qed

text \<open>On a 32 bit table \<^verbatim>\<open>count_free_clusters\<close> counts words of the table, not clusters: it adds the free
  words in front of the first and behind the last data cluster to the number of free clusters.\<close>

theorem count_free_clusters_fat32_words:
  assumes "fat_ok vol" "fat_bits vol = 32"
  shows "count_free_clusters vol = int (free_count vol)
    + int (card {k. k < fat_size vol div 4 \<and> (k < 2 \<or> total_clusters vol + 2 \<le> k) \<and> fat_raw vol k = 0})"
proof -
  let ?zero = "\<lambda>k. fat_raw vol k = 0" and ?b = "bytes_per_sector vol div 4"
  have m: "bytes_per_sector vol mod 4 = 0" using assms(1) by (simp add: fat_ok_def)
  then have size: "fat_size vol div 4 = sectors_per_fat vol * ?b" by (auto simp: fat_size_def elim!: dvdE simp: mod_eq_0_iff_dvd)
  have "fat_start vol = u32 (reserved_sectors vol + active_fat vol * sectors_per_fat vol)"
    using fat_start_bound[OF assms(1)] by (simp add: fat_start_def)
  then have "count_free_clusters vol = int (\<Sum>t = 0..<sectors_per_fat vol. free_words vol t)"
    using count_free_sectors_words[OF assms(1), of 0 "sectors_per_fat vol" 0] assms(2)
    by (simp add: count_free_clusters_def fat_ioctl_base_def fat_ioctl_gen_def Let_def count_free_clusters_fat32_def)
  also have "(\<Sum>t = 0..<sectors_per_fat vol. free_words vol t)
      = (\<Sum>t = 0..<sectors_per_fat vol. length (filter (\<lambda>j. ?zero (t * ?b + j)) [0..<?b]))"
    by (intro sum.cong refl) (simp only: free_words_raw[OF assms])
  also have "\<dots> = card {k. k < fat_size vol div 4 \<and> ?zero k}"
  proof -
    have "length (filter ?zero [0..<sectors_per_fat vol * ?b]) = card {k. k < sectors_per_fat vol * ?b \<and> ?zero k}"
      unfolding distinct_length_filter[OF distinct_upt] set_upt by (rule arg_cong[of _ _ card]) auto
    then show ?thesis unfolding size length_filter_grid .
  qed
  also have "{k. k < fat_size vol div 4 \<and> ?zero k} = {k. ft.data vol k \<and> fat_entry vol k = 0}
      \<union> {k. k < fat_size vol div 4 \<and> (k < 2 \<or> total_clusters vol + 2 \<le> k) \<and> ?zero k}"
    using fat_okD(5)[OF assms(1)] assms(2) by (auto simp: ft_data fat_raw_zero)
  also have "card \<dots> = free_count vol + card {k. k < fat_size vol div 4 \<and> (k < 2 \<or> total_clusters vol + 2 \<le> k) \<and> ?zero k}"
    unfolding free_count_eq[OF assms(1)]
    by (rule card_Un_disjoint) (auto simp: ft_data intro: finite_subset[of _ "{..<total_clusters vol + 2}"])
  finally show ?thesis by simp
qed

subsection \<open>Witnesses\<close>

lemma tiny_volume_free:
  "c < 6 \<Longrightarrow> 2 \<le> c \<Longrightarrow> get_fat_entry tiny_volume c = 0"
  "free_order tiny_volume = [2, 3, 4, 5]" "free_count tiny_volume = 4"
proof -
  show z: "get_fat_entry tiny_volume c = 0" if "c < 6" "2 \<le> c" for c
  proof -
    have "fat_byte tiny_volume k = 0" if "k < 16" for k
      using that less_mult_imp_div_less[of k 2 8]
      by (simp add: fat_byte_def tiny_volume_def fat_start_def block_data_def)
    moreover have "c + c div 2 < 15" using \<open>c < 6\<close> by linarith
    ultimately have "fat_raw tiny_volume c = 0"
      by (simp add: fat_raw_def fat_pos_values fat12_value_def Let_def) (simp add: tiny_volume_def fat_pos_def)
    then show ?thesis using that get_fat_entry_eq[OF tiny_volume_ok(1), of c]
      by (simp add: fat_raw_zero tiny_volume_def)
  qed
  have "[2..<4 + 2] = [2, 3, 4, 5::nat]" by (simp add: upt_rec)
  then show f: "free_order tiny_volume = [2, 3, 4, 5]"
    using z by (simp add: free_order_def) (simp add: tiny_volume_def)
  show "free_count tiny_volume = 4"
    using free_order_props(3)[OF tiny_volume_ok(1)] f by (simp add: ft_data tiny_volume_def)
qed

lemma tiny_volume_hint: "2 \<le> last_allocated tiny_volume" "last_allocated tiny_volume < total_clusters tiny_volume + 2"
  "free_clusters tiny_volume < 2 ^ 32"
  by (simp_all add: tiny_volume_def)

theorem allocate_n_fat_entries_chain_witness:
  "\<exists>vol'. allocate_n_fat_entries tiny_volume (int 3) = (B_OK, 2, vol') \<and> fat_chain vol' [2, 3, 4]"
  using allocate_n_fat_entries_chain[OF tiny_volume_ok(1) tiny_volume_hint, of 3] tiny_volume_free(2,3)
  by (auto simp: Let_def)

theorem allocate_n_fat_entries_full_witness:
  "\<exists>vol'. allocate_n_fat_entries tiny_volume (int 5) = (B_DEVICE_FULL, 0, vol') \<and> free_clusters vol' = free_clusters tiny_volume"
  using allocate_n_fat_entries_full[OF tiny_volume_ok(1) tiny_volume_hint, of 5] tiny_volume_free(3) by auto

theorem allocate_n_fat_entries_bad_hint_witness:
  "allocate_n_fat_entries (tiny_volume\<lparr>last_allocated := 0\<rparr>) 1 = (B_BAD_VALUE, 0, tiny_volume\<lparr>last_allocated := 0\<rparr>)"
  by (rule allocate_n_fat_entries_bad_hint) (simp add: IS_DATA_CLUSTER_def)

theorem count_free_clusters_counts_witness: "count_free_clusters tiny_volume = 4"
  using count_free_clusters_counts[OF tiny_volume_ok(1)] tiny_volume_free(3) by (simp add: tiny_volume_def)

text \<open>A 32 bit table of four words for two clusters: both are free and the scan reports four.\<close>

theorem count_free_clusters_fat32_words_witness:
  "\<exists>vol. fat_ok vol \<and> fat_bits vol = 32 \<and> count_free_clusters vol > int (free_count vol)"
proof -
  let ?v = "tiny_volume\<lparr>fat_bits := 32, total_clusters := 2\<rparr>"
  have ok: "fat_ok ?v" by (auto simp: fat_ok_def fat_size_def tiny_volume_def)
  let ?S = "{k. k < fat_size ?v div 4 \<and> (k < 2 \<or> total_clusters ?v + 2 \<le> k) \<and> fat_raw ?v k = 0}"
  have "fat_raw ?v 0 = 0" by (simp add: fat_raw_def fat_pos_def fat_byte_def tiny_volume_def fat_start_def block_data_def)
  moreover have "fat_size ?v = 16" by (simp add: fat_size_def tiny_volume_def)
  ultimately have "0 \<in> ?S" by simp
  moreover have "finite ?S" by simp
  ultimately have "card ?S > 0" unfolding card_gt_0_iff by blast
  then show ?thesis
    using count_free_clusters_fat32_words[OF ok] ok by (intro exI[of _ ?v]) simp
qed

end
