(* ===== verification/Iter.thy ===== *)
theory Iter
  imports Fat_Alloc
begin

text \<open>
  The sector and directory iterators of \<^verbatim>\<open>fat/iter.c\<close>. A \<^verbatim>\<open>struct csi\<close> is a cluster and a sector in it, a
  \<^verbatim>\<open>struct diri\<close> walks over the 32 byte entries of a directory; the volume they point to is an argument. A
  pointer into a cached block is the block's number with a byte offset.

  Reading and writing runs of blocks ends by fuel \<open>len div bytes_per_sector + 1\<close>: each round but the last
  takes a whole sector of the buffer.
\<close>

section \<open>Definitions\<close>

record csi =
  csi_cluster :: nat
  csi_sector :: nat

definition validate_cs :: "nspace \<Rightarrow> nat \<Rightarrow> nat \<Rightarrow> int" where
  "validate_cs vol cluster sector =
     (if fat_bits vol \<noteq> 32 \<and> IS_FIXED_ROOT cluster then
        if sector \<ge> root_sectors vol then - 1 else 0
      else if sector \<ge> sectors_per_cluster vol then - 1
      else if \<not> IS_DATA_CLUSTER vol (int cluster) then - 1
      else 0)"

text \<open>The result is an \<^verbatim>\<open>off_t\<close>; only the difference \<^verbatim>\<open>cluster - 2\<close> is computed in 32 bits.\<close>

definition csi_to_block :: "nspace \<Rightarrow> csi \<Rightarrow> int" where
  "csi_to_block vol csi =
     (if validate_cs vol (csi_cluster csi) (csi_sector csi) \<noteq> 0 then EINVAL
      else if IS_FIXED_ROOT (csi_cluster csi) then int (u32 (root_start vol + csi_sector csi))
      else int (data_start vol) + int (u32_minus (csi_cluster csi) 2) * int (sectors_per_cluster vol)
           + int (csi_sector csi))"

definition init_csi :: "nspace \<Rightarrow> nat \<Rightarrow> nat \<Rightarrow> csi \<Rightarrow> int \<times> csi" where
  "init_csi vol cluster sector csi =
     (let ret = validate_cs vol cluster sector
      in if ret \<noteq> 0 then (ret, csi) else (0, \<lparr>csi_cluster = cluster, csi_sector = sector\<rparr>))"

definition iter_csi :: "nspace \<Rightarrow> csi \<Rightarrow> int \<Rightarrow> int \<times> csi" where
  "iter_csi vol csi sectors =
     (if csi_sector csi = 0xffff then (- 1, csi)
      else if sectors < 0 then (EINVAL, csi)
      else if sectors = 0 then (0, csi)
      else
        let csi = csi\<lparr>csi_sector := u32 (csi_sector csi + nat sectors)\<rparr>
        in if IS_FIXED_ROOT (csi_cluster csi) then
             if csi_sector csi < root_sectors vol then (0, csi) else (- 1, csi\<lparr>csi_sector := 0xffff\<rparr>)
           else if csi_sector csi < sectors_per_cluster vol then (0, csi)
           else
             let c = get_nth_fat_entry vol (s32 (int (csi_cluster csi)))
                       (csi_sector csi div sectors_per_cluster vol);
                 csi = csi\<lparr>csi_cluster := u32_of_int c\<rparr>
             in if c < 0 then (c, csi\<lparr>csi_sector := 0xffff\<rparr>)
                else if IS_DATA_CLUSTER vol c then
                  (0, csi\<lparr>csi_sector := csi_sector csi mod sectors_per_cluster vol\<rparr>)
                else (- 1, csi\<lparr>csi_sector := 0xffff\<rparr>))"

definition csi_get_block :: "nspace \<Rightarrow> csi \<Rightarrow> nat option" where
  "csi_get_block vol csi =
     (if validate_cs vol (csi_cluster csi) (csi_sector csi) \<noteq> 0 then None
      else block_cache_get vol (nat (csi_to_block vol csi)))"

text \<open>Releasing a block and making it writable leave its contents alone.\<close>

definition csi_release_block :: "nspace \<Rightarrow> csi \<Rightarrow> status_t" where
  "csi_release_block vol csi =
     (if validate_cs vol (csi_cluster csi) (csi_sector csi) \<noteq> 0 then EINVAL else B_OK)"

definition csi_make_writable :: "nspace \<Rightarrow> csi \<Rightarrow> status_t" where
  "csi_make_writable vol csi =
     (if validate_cs vol (csi_cluster csi) (csi_sector csi) \<noteq> 0 then EINVAL else B_OK)"

text \<open>The loop that both \<^verbatim>\<open>csi_read_blocks\<close> and \<^verbatim>\<open>csi_write_blocks\<close> start with, with fuel: how many sectors
  from \<open>block\<close> on follow each other on the disk and fit into the buffer, and the iterator at the last of them.\<close>

fun csi_run :: "nat \<Rightarrow> nspace \<Rightarrow> nat \<Rightarrow> int \<Rightarrow> nat \<Rightarrow> csi \<Rightarrow> nat \<times> csi" where
  "csi_run 0 vol len block sectors csi = (sectors, csi)"
| "csi_run (Suc k) vol len block sectors csi =
     (let old_csi = csi; (err, csi) = iter_csi vol csi 1
      in if len < (sectors + 1) * bytes_per_sector vol then (sectors, old_csi)
         else if err < B_OK \<or> block + int sectors \<noteq> csi_to_block vol csi then (sectors, old_csi)
         else csi_run k vol len block (sectors + 1) csi)"

text \<open>The copy loops over \<open>sectors\<close> blocks from \<open>i\<close> on. A block that the cache does not have is a copy
  through the \<^verbatim>\<open>NULL\<close> pointer.\<close>

fun csi_copy_out :: "nspace \<Rightarrow> nat \<Rightarrow> nat \<Rightarrow> nat \<Rightarrow> block \<Rightarrow> nspace \<times> block" where
  "csi_copy_out vol 0 i off buf = (vol, buf)"
| "csi_copy_out vol (Suc sectors) i off buf =
     (case block_cache_get vol i of
        None \<Rightarrow> (vol\<lparr>fault := True\<rparr>, buf)
      | Some blockData \<Rightarrow>
          csi_copy_out vol sectors (i + 1) (off + bytes_per_sector vol)
            (memcpy_at buf off (take (bytes_per_sector vol) (block_data vol blockData))))"

fun csi_copy_in :: "nspace \<Rightarrow> nat \<Rightarrow> nat \<Rightarrow> nat \<Rightarrow> block \<Rightarrow> nspace" where
  "csi_copy_in vol 0 i off buf = vol"
| "csi_copy_in vol (Suc sectors) i off buf =
     (case block_cache_get vol i of
        None \<Rightarrow> vol\<lparr>fault := True\<rparr>
      | Some blockData \<Rightarrow>
          csi_copy_in (block_store vol blockData
              (memcpy_at (block_data vol blockData) 0 (take (bytes_per_sector vol) (drop off buf))))
            sectors (i + 1) (off + bytes_per_sector vol) buf)"

text \<open>The counter of the copy loops is an \<^verbatim>\<open>int32\<close>: from block \<open>2 ^ 31\<close> on it starts at a negative block
  number, which the cache does not have.\<close>

definition csi_read_blocks :: "nspace \<Rightarrow> csi \<Rightarrow> block \<Rightarrow> nat \<Rightarrow> status_t \<times> nspace \<times> csi \<times> block" where
  "csi_read_blocks vol csi buffer len =
     (if validate_cs vol (csi_cluster csi) (csi_sector csi) \<noteq> 0 then (EINVAL, vol, csi, buffer)
      else
        let block = csi_to_block vol csi;
            (sectors, csi) = csi_run (len div bytes_per_sector vol + 1) vol len block 1 csi
        in if s32 block \<noteq> block then (0, vol\<lparr>fault := True\<rparr>, csi, buffer)
           else let (vol, buffer) = csi_copy_out vol sectors (nat block) 0 buffer
                in (int (sectors * bytes_per_sector vol), vol, csi, buffer))"

definition csi_write_blocks :: "nspace \<Rightarrow> csi \<Rightarrow> block \<Rightarrow> nat \<Rightarrow> status_t \<times> nspace \<times> csi" where
  "csi_write_blocks vol csi buffer len =
     (if validate_cs vol (csi_cluster csi) (csi_sector csi) \<noteq> 0 then (EINVAL, vol, csi)
      else
        let block = csi_to_block vol csi;
            (sectors, csi) = csi_run (len div bytes_per_sector vol + 1) vol len block 1 csi
        in if s32 block \<noteq> block then (0, vol\<lparr>fault := True\<rparr>, csi)
           else let vol = csi_copy_in vol sectors (nat block) 0 buffer
                in (int (sectors * bytes_per_sector vol), vol, csi))"

definition csi_write_block :: "nspace \<Rightarrow> csi \<Rightarrow> block \<Rightarrow> status_t \<times> nspace" where
  "csi_write_block vol csi buffer =
     (if validate_cs vol (csi_cluster csi) (csi_sector csi) \<noteq> 0 then (EINVAL, vol)
      else case block_cache_get vol (nat (csi_to_block vol csi)) of
             None \<Rightarrow> (B_OK, vol\<lparr>fault := True\<rparr>)
           | Some blockData \<Rightarrow>
               (B_OK, block_store vol blockData
                 (memcpy_at (block_data vol blockData) 0 (take (bytes_per_sector vol) buffer))))"

subsection \<open>Directory iterator\<close>

record diri =
  diri_csi :: csi
  starting_cluster :: nat
  current_index :: nat
  current_block :: "nat option"

type_synonym ptr = "nat \<times> nat"

definition entries_per_block :: "nspace \<Rightarrow> nat" where
  "entries_per_block vol = bytes_per_sector vol div 0x20"

definition diri_entry :: "nspace \<Rightarrow> diri \<Rightarrow> nat \<Rightarrow> ptr" where
  "diri_entry vol diri bn = (bn, (current_index diri mod entries_per_block vol) * 0x20)"

definition diri_release_current_block :: "nspace \<Rightarrow> diri \<Rightarrow> diri" where
  "diri_release_current_block vol diri = diri\<lparr>current_block := None\<rparr>"

text \<open>\<open>diri\<close> is the structure the caller passes in.\<close>

definition diri_init :: "nspace \<Rightarrow> nat \<Rightarrow> nat \<Rightarrow> diri \<Rightarrow> ptr option \<times> diri" where
  "diri_init vol cluster index diri =
     (let diri = diri\<lparr>current_block := None\<rparr>
      in if cluster \<ge> u32 (total_clusters vol + 2) then (None, diri)
         else case init_csi vol cluster 0 (diri_csi diri) of (ret, csi) \<Rightarrow>
           let diri = diri\<lparr>diri_csi := csi\<rparr>
           in if ret \<noteq> 0 then (None, diri)
              else
                let diri = diri\<lparr>starting_cluster := cluster, current_index := index\<rparr>;
                    (ret, csi) =
                      (if index \<ge> entries_per_block vol
                       then iter_csi vol (diri_csi diri) (s32 (int (index div entries_per_block vol)))
                       else (0, diri_csi diri));
                    diri = diri\<lparr>diri_csi := csi\<rparr>
                in if ret \<noteq> 0 then (None, diri)
                   else case csi_get_block vol (diri_csi diri) of
                          None \<Rightarrow> (None, diri)
                        | Some bn \<Rightarrow> let diri = diri\<lparr>current_block := Some bn\<rparr> in (Some (diri_entry vol diri bn), diri))"

definition diri_free :: "nspace \<Rightarrow> diri \<Rightarrow> diri" where
  "diri_free vol diri = (if current_block diri \<noteq> None then diri_release_current_block vol diri else diri)"

definition diri_current_entry :: "nspace \<Rightarrow> diri \<Rightarrow> ptr option" where
  "diri_current_entry vol diri = map_option (diri_entry vol diri) (current_block diri)"

definition diri_next_entry :: "nspace \<Rightarrow> diri \<Rightarrow> ptr option \<times> diri" where
  "diri_next_entry vol diri =
     (case current_block diri of
        None \<Rightarrow> (None, diri)
      | Some bn \<Rightarrow>
          let diri = diri\<lparr>current_index := u32 (current_index diri + 1)\<rparr>
          in if current_index diri mod entries_per_block vol = 0 then
               let diri = diri_release_current_block vol diri;
                   (ret, csi) = iter_csi vol (diri_csi diri) 1;
                   diri = diri\<lparr>diri_csi := csi\<rparr>
               in if ret \<noteq> 0 then (None, diri)
                  else case csi_get_block vol (diri_csi diri) of
                         None \<Rightarrow> (None, diri)
                       | Some bn \<Rightarrow> let diri = diri\<lparr>current_block := Some bn\<rparr> in (Some (diri_entry vol diri bn), diri)
             else (Some (diri_entry vol diri bn), diri))"

definition diri_rewind :: "nspace \<Rightarrow> diri \<Rightarrow> ptr option \<times> diri" where
  "diri_rewind vol diri =
     (if current_index diri > entries_per_block vol - 1 then
        let diri = diri_free vol diri;
            (ret, csi) = init_csi vol (starting_cluster diri) 0 (diri_csi diri)
        in if ret \<noteq> 0 then (None, diri)
           else
             let diri = diri\<lparr>diri_csi := csi, current_block := csi_get_block vol csi, current_index := 0\<rparr>
             in (map_option (\<lambda>bn. (bn, 0)) (current_block diri), diri)
      else (map_option (\<lambda>bn. (bn, 0)) (current_block diri), diri\<lparr>current_index := 0\<rparr>))"

definition diri_make_writable :: "nspace \<Rightarrow> diri \<Rightarrow> status_t" where
  "diri_make_writable vol diri = csi_make_writable vol (diri_csi diri)"

text \<open>A directory entry of 32 bytes behind a pointer, and the store of one.\<close>

definition entry_data :: "nspace \<Rightarrow> ptr \<Rightarrow> block" where
  "entry_data vol p = take 0x20 (drop (snd p) (block_data vol (fst p)))"

definition entry_store :: "nspace \<Rightarrow> ptr \<Rightarrow> block \<Rightarrow> nspace" where
  "entry_store vol p e = block_store vol (fst p) (memcpy_at (block_data vol (fst p)) (snd p) e)"

subsection \<open>The sectors of a file or directory\<close>

text \<open>A file or directory is given by the list \<open>cs\<close> of its clusters; the empty list stands for the fixed root
  directory of a 12 or 16 bit volume. Its \<open>p\<close>-th sector is at the iterator \<open>node_csi\<close> and in the block \<open>node_block\<close>.\<close>

definition node_layout :: "nspace \<Rightarrow> nat \<Rightarrow> nat list \<Rightarrow> bool" where
  "node_layout vol cluster cs \<longleftrightarrow>
     (if cs = [] then cluster = 1 \<and> fat_bits vol \<noteq> 32 else fat_chain vol cs \<and> cluster = hd cs)"

definition node_sectors :: "nspace \<Rightarrow> nat list \<Rightarrow> nat" where
  "node_sectors vol cs = (if cs = [] then root_sectors vol else length cs * sectors_per_cluster vol)"

definition node_csi :: "nspace \<Rightarrow> nat list \<Rightarrow> nat \<Rightarrow> csi" where
  "node_csi vol cs p =
     (if cs = [] then \<lparr>csi_cluster = 1, csi_sector = p\<rparr>
      else \<lparr>csi_cluster = cs ! (p div sectors_per_cluster vol), csi_sector = p mod sectors_per_cluster vol\<rparr>)"

definition node_block :: "nspace \<Rightarrow> nat list \<Rightarrow> nat \<Rightarrow> nat" where
  "node_block vol cs p =
     (if cs = [] then root_start vol + p
      else data_start vol + (cs ! (p div sectors_per_cluster vol) - 2) * sectors_per_cluster vol
           + p mod sectors_per_cluster vol)"

text \<open>The layout of a volume that the iterators rely on: first the tables, then the fixed root directory,
  then the data, all cached and below \<open>2 ^ 31\<close>.\<close>

definition vol_end :: "nspace \<Rightarrow> nat" where
  "vol_end vol = data_start vol + total_clusters vol * sectors_per_cluster vol"

definition vol_ok :: "nspace \<Rightarrow> bool" where
  "vol_ok vol \<longleftrightarrow> fat_ok vol \<and> 0 < sectors_per_cluster vol \<and> sectors_per_cluster vol \<le> 0x80
     \<and> bytes_per_sector vol mod 0x20 = 0 \<and> 0x20 \<le> bytes_per_sector vol \<and> bytes_per_sector vol \<le> 0x1000
     \<and> (fat_bits vol \<noteq> 32 \<longrightarrow> root_sectors vol < 0xffff \<and> fat_end vol \<le> root_start vol
          \<and> root_start vol + root_sectors vol \<le> data_start vol)
     \<and> fat_end vol \<le> data_start vol \<and> vol_end vol < 2 ^ 31
     \<and> (\<forall>bn. fat_end vol \<le> bn \<and> bn < vol_end vol \<longrightarrow>
          (\<exists>b. fBlockCache vol bn = Some b \<and> length b = bytes_per_sector vol))"

text \<open>A directory and the entries of it.\<close>

definition node_entries :: "nspace \<Rightarrow> nat list \<Rightarrow> nat" where
  "node_entries vol cs = node_sectors vol cs * entries_per_block vol"

definition node_ptr :: "nspace \<Rightarrow> nat list \<Rightarrow> nat \<Rightarrow> ptr" where
  "node_ptr vol cs i = (node_block vol cs (i div entries_per_block vol), (i mod entries_per_block vol) * 0x20)"

definition dir_ok :: "nspace \<Rightarrow> nat \<Rightarrow> nat list \<Rightarrow> bool" where
  "dir_ok vol cluster cs \<longleftrightarrow> vol_ok vol \<and> node_layout vol cluster cs \<and> node_entries vol cs < 2 ^ 31"

definition dir_entry :: "nspace \<Rightarrow> nat list \<Rightarrow> nat \<Rightarrow> block" where
  "dir_entry vol cs i = entry_data vol (node_ptr vol cs i)"

definition diri_at :: "nspace \<Rightarrow> nat \<Rightarrow> nat list \<Rightarrow> diri \<Rightarrow> nat \<Rightarrow> bool" where
  "diri_at vol cluster cs diri i \<longleftrightarrow> i < node_entries vol cs
     \<and> diri_csi diri = node_csi vol cs (i div entries_per_block vol) \<and> starting_cluster diri = cluster
     \<and> current_index diri = i \<and> current_block diri = Some (node_block vol cs (i div entries_per_block vol))"

section \<open>Theorems\<close>

lemma vol_okD:
  assumes "vol_ok vol"
  shows "fat_ok vol" "0 < sectors_per_cluster vol" "sectors_per_cluster vol \<le> 0x80"
    "0 < entries_per_block vol" "bytes_per_sector vol = entries_per_block vol * 0x20" "entries_per_block vol \<le> 0x80"
    "fat_end vol \<le> data_start vol" "vol_end vol < 2 ^ 31"
proof -
  show "fat_ok vol" "0 < sectors_per_cluster vol" "sectors_per_cluster vol \<le> 0x80"
    "fat_end vol \<le> data_start vol" "vol_end vol < 2 ^ 31" using assms by (auto simp: vol_ok_def)
  have "bytes_per_sector vol mod 0x20 = 0" "0x20 \<le> bytes_per_sector vol" "bytes_per_sector vol \<le> 0x1000"
    using assms by (auto simp: vol_ok_def)
  then show "0 < entries_per_block vol" "bytes_per_sector vol = entries_per_block vol * 0x20" "entries_per_block vol \<le> 0x80"
    unfolding entries_per_block_def by (simp_all add: div_greater_zero_iff) auto
qed

lemma vol_ok_root:
  "vol_ok vol \<Longrightarrow> fat_bits vol \<noteq> 32 \<Longrightarrow> root_sectors vol < 0xffff"
  "vol_ok vol \<Longrightarrow> fat_bits vol \<noteq> 32 \<Longrightarrow> fat_end vol \<le> root_start vol"
  "vol_ok vol \<Longrightarrow> fat_bits vol \<noteq> 32 \<Longrightarrow> root_start vol + root_sectors vol \<le> data_start vol"
  by (auto simp: vol_ok_def)

lemma vol_ok_block:
  "vol_ok vol \<Longrightarrow> fat_end vol \<le> bn \<Longrightarrow> bn < vol_end vol \<Longrightarrow> block_cache_get vol bn = Some bn"
  "vol_ok vol \<Longrightarrow> fat_end vol \<le> bn \<Longrightarrow> bn < vol_end vol \<Longrightarrow> length (block_data vol bn) = bytes_per_sector vol"
  by (auto simp: vol_ok_def block_cache_get_def block_data_def)

lemma node_layout_chain:
  assumes "vol_ok vol" "node_layout vol cluster cs" "cs \<noteq> []"
  shows "ft.chain vol cs" "cluster = cs ! 0" "k < length cs \<Longrightarrow> 2 \<le> cs ! k \<and> cs ! k < total_clusters vol + 2"
proof -
  show ch: "ft.chain vol cs" using assms fat_chain_eq[OF vol_okD(1)[OF assms(1)]] by (simp add: node_layout_def)
  show "cluster = cs ! 0" using assms by (simp add: node_layout_def hd_conv_nth)
  show "2 \<le> cs ! k \<and> cs ! k < total_clusters vol + 2" if "k < length cs"
    using ft.chain_data[OF ch nth_mem[OF that]] by (simp add: ft_data)
qed

lemma node_cluster_index: "cs \<noteq> [] \<Longrightarrow> p < node_sectors vol cs \<Longrightarrow> p div sectors_per_cluster vol < length cs"
  by (simp add: node_sectors_def less_mult_imp_div_less)

text \<open>Every sector of a node is valid and in the data or root area.\<close>

lemma node_block_bounds:
  assumes "vol_ok vol" "node_layout vol cluster cs" "p < node_sectors vol cs"
  shows "fat_end vol \<le> node_block vol cs p" "node_block vol cs p < vol_end vol"
proof -
  show "fat_end vol \<le> node_block vol cs p" "node_block vol cs p < vol_end vol"
  proof (atomize(full), cases "cs = []")
    case True
    then show "fat_end vol \<le> node_block vol cs p \<and> node_block vol cs p < vol_end vol"
      using assms vol_ok_root[OF assms(1)] by (simp add: node_block_def node_layout_def node_sectors_def vol_end_def)
  next
    case False
    let ?s = "sectors_per_cluster vol" and ?c = "cs ! (p div sectors_per_cluster vol)"
    have c: "2 \<le> ?c" "?c < total_clusters vol + 2"
      using node_layout_chain(3)[OF assms(1,2) False node_cluster_index[OF False assms(3)]] by auto
    have m: "p mod ?s < ?s" using vol_okD(2)[OF assms(1)] by simp
    have "(?c - 2) * ?s + ?s = Suc (?c - 2) * ?s" by simp
    also have "\<dots> \<le> total_clusters vol * ?s" using c by (intro mult_right_mono) simp_all
    finally show "fat_end vol \<le> node_block vol cs p \<and> node_block vol cs p < vol_end vol"
      using m vol_okD(7)[OF assms(1)] False by (simp add: node_block_def vol_end_def)
  qed
qed


lemma node_block_inj:
  assumes "vol_ok vol" "node_layout vol cluster cs" "p < node_sectors vol cs" "q < node_sectors vol cs"
    and "node_block vol cs p = node_block vol cs q"
  shows "p = q"
proof (cases "cs = []")
  case True
  then show ?thesis using assms(5) by (simp add: node_block_def)
next
  case False
  let ?s = "sectors_per_cluster vol"
  have s: "0 < ?s" using vol_okD(2)[OF assms(1)] .
  note ip = node_cluster_index[OF False assms(3)] and iq = node_cluster_index[OF False assms(4)]
  have eq: "(cs ! (p div ?s) - 2) * ?s + p mod ?s = (cs ! (q div ?s) - 2) * ?s + q mod ?s"
    using assms(5) False by (simp add: node_block_def)
  have "cs ! (p div ?s) - 2 = cs ! (q div ?s) - 2"
    using arg_cong[OF eq, of "\<lambda>x. x div ?s"] s by simp
  moreover have "p mod ?s = q mod ?s" using arg_cong[OF eq, of "\<lambda>x. x mod ?s"] s by simp
  ultimately have "cs ! (p div ?s) = cs ! (q div ?s)" "p mod ?s = q mod ?s"
    using node_layout_chain(3)[OF assms(1,2) False ip] node_layout_chain(3)[OF assms(1,2) False iq] by linarith+
  then have "p div ?s = q div ?s" "p mod ?s = q mod ?s"
    using ft.chain_distinct[OF vol_okD(1)[OF assms(1)] node_layout_chain(1)[OF assms(1,2) False]] ip iq
    by (auto simp: nth_eq_iff_index_eq)
  then show ?thesis by (metis mult_div_mod_eq)
qed

lemma node_csi_valid:
  assumes "vol_ok vol" "node_layout vol cluster cs" "p < node_sectors vol cs"
  shows "validate_cs vol (csi_cluster (node_csi vol cs p)) (csi_sector (node_csi vol cs p)) = 0"
    "csi_to_block vol (node_csi vol cs p) = int (node_block vol cs p)" "csi_sector (node_csi vol cs p) < 0xffff"
    "csi_get_block vol (node_csi vol cs p) = Some (node_block vol cs p)"
proof -
  note spc = vol_okD(2,3)[OF assms(1)] and bd = node_block_bounds[OF assms]
  have 1: "validate_cs vol (csi_cluster (node_csi vol cs p)) (csi_sector (node_csi vol cs p)) = 0
      \<and> csi_to_block vol (node_csi vol cs p) = int (node_block vol cs p) \<and> csi_sector (node_csi vol cs p) < 0xffff"
  proof (cases "cs = []")
    case True
    then have "u32 (root_start vol + p) = root_start vol + p"
      using bd vol_okD(8)[OF assms(1)] by (simp add: node_block_def)
    then show ?thesis
      using True assms(2,3) vol_ok_root(1)[OF assms(1)]
      by (simp add: node_csi_def node_block_def csi_to_block_def validate_cs_def IS_FIXED_ROOT_def node_layout_def node_sectors_def)
  next
    case False
    let ?c = "cs ! (p div sectors_per_cluster vol)"
    have c: "2 \<le> ?c" "?c < total_clusters vol + 2"
      using node_layout_chain(3)[OF assms(1,2) False node_cluster_index[OF False assms(3)]] by auto
    then have "IS_DATA_CLUSTER vol (int ?c)" "u32_minus ?c 2 = ?c - 2"
      using data_nat[OF vol_okD(1)[OF assms(1)]] fat_clusters_bound(1)[OF vol_okD(1)[OF assms(1)]] by simp_all
    moreover have "p mod sectors_per_cluster vol < 0xffff"
      using mod_less_divisor[OF spc(1), of p] spc(2) by linarith
    ultimately show ?thesis
      using False c spc by (simp add: node_csi_def node_block_def csi_to_block_def validate_cs_def IS_FIXED_ROOT_def
        not_le)
  qed
  then show "validate_cs vol (csi_cluster (node_csi vol cs p)) (csi_sector (node_csi vol cs p)) = 0"
    "csi_to_block vol (node_csi vol cs p) = int (node_block vol cs p)" "csi_sector (node_csi vol cs p) < 0xffff" by blast+
  with vol_ok_block(1)[OF assms(1) bd] show "csi_get_block vol (node_csi vol cs p) = Some (node_block vol cs p)"
    by (simp add: csi_get_block_def)
qed

text \<open>Stepping over sectors.\<close>

lemma get_nth_node:
  assumes "vol_ok vol" "node_layout vol cluster cs" "k < length cs"
  shows "get_nth_fat_entry vol (int (cs ! k)) m = (if k + m < length cs then int (cs ! (k + m)) else END_FAT_ENTRY)"
proof -
  have ne: "cs \<noteq> []" using assms(3) by auto
  have d: "drop k cs = cs ! k # drop (Suc k) cs" using assms(3) by (simp add: Cons_nth_drop_Suc)
  have "ft.chain vol (drop k cs)"
    using ft.chain_suffix[of vol "take k cs" "drop k cs"] node_layout_chain(1)[OF assms(1,2) ne] assms(3) by simp
  then have "get_nth_fat_entry vol (int (cs ! k)) m
      = (if m \<le> length (drop (Suc k) cs) then int (drop k cs ! m) else END_FAT_ENTRY)"
    unfolding d by (rule get_nth_chain[OF vol_okD(1)[OF assms(1)]])
  moreover have "m \<le> length (drop (Suc k) cs) \<longleftrightarrow> k + m < length cs" using assms(3) by auto
  ultimately show ?thesis using assms(3) by simp
qed

lemma iter_csi_node:
  assumes "vol_ok vol" "node_layout vol cluster cs" "p < node_sectors vol cs" "0 < n" "n < 2 ^ 31"
  shows "p + n < node_sectors vol cs \<Longrightarrow> iter_csi vol (node_csi vol cs p) (int n) = (0, node_csi vol cs (p + n))"
    "node_sectors vol cs \<le> p + n \<Longrightarrow> \<exists>csi. iter_csi vol (node_csi vol cs p) (int n) = (- 1, csi) \<and> csi_sector csi = 0xffff"
proof -
  let ?S = "node_csi vol cs p"
  have small: "csi_sector ?S \<noteq> 0xffff" using node_csi_valid(3)[OF assms(1-3)] by simp
  have u: "u32 (csi_sector ?S + n) = csi_sector ?S + n"
    using node_csi_valid(3)[OF assms(1-3)] assms(5) by simp
  have "(p + n < node_sectors vol cs \<longrightarrow> iter_csi vol ?S (int n) = (0, node_csi vol cs (p + n)))
    \<and> (node_sectors vol cs \<le> p + n \<longrightarrow> (\<exists>csi. iter_csi vol ?S (int n) = (- 1, csi) \<and> csi_sector csi = 0xffff))"
  proof (cases "cs = []")
    case True
    then show ?thesis
      using small u assms(4) by (simp add: iter_csi_def node_csi_def IS_FIXED_ROOT_def node_sectors_def)
  next
    case False
    let ?s = "sectors_per_cluster vol"
    define k r where "k = p div ?s" and "r = p mod ?s"
    define m where "m = (r + n) div ?s"
    have s: "0 < ?s" using vol_okD(2)[OF assms(1)] .
    have k: "k < length cs" unfolding k_def by (rule node_cluster_index[OF False assms(3)])
    have r: "r < ?s" "p = k * ?s + r" using s by (simp_all add: r_def k_def)
    have S: "?S = \<lparr>csi_cluster = cs ! k, csi_sector = r\<rparr>" using False by (simp add: node_csi_def k_def r_def)
    have pn: "(p + n) div ?s = k + m" "(p + n) mod ?s = (r + n) mod ?s"
      using s unfolding r(2) m_def by (simp_all add: add.assoc)
    have lt: "p + n < node_sectors vol cs \<longleftrightarrow> k + m < length cs"
      using False s unfolding node_sectors_def pn(1)[symmetric] by (simp add: div_less_iff_less_mult)
    have c: "2 \<le> cs ! k" "cs ! k < total_clusters vol + 2"
      using node_layout_chain(3)[OF assms(1,2) False k] by auto
    have c31: "cs ! k < 2 ^ 31" using c(2) fat_clusters_bound(2)[OF vol_okD(1)[OF assms(1)]] by simp
    have root: "IS_FIXED_ROOT (cs ! k) = False" using c by (simp add: IS_FIXED_ROOT_def)
    have iter: "iter_csi vol ?S (int n) =
        (if r + n < ?s then (0, \<lparr>csi_cluster = cs ! k, csi_sector = r + n\<rparr>)
         else let e = get_nth_fat_entry vol (int (cs ! k)) m
              in if e < 0 then (e, \<lparr>csi_cluster = u32_of_int e, csi_sector = 0xffff\<rparr>)
                 else if IS_DATA_CLUSTER vol e then (0, \<lparr>csi_cluster = u32_of_int e, csi_sector = (r + n) mod ?s\<rparr>)
                 else (- 1, \<lparr>csi_cluster = u32_of_int e, csi_sector = 0xffff\<rparr>))"
      using small u assms(4) c31 unfolding S by (simp add: iter_csi_def root m_def Let_def)
    show ?thesis
    proof (cases "r + n < ?s")
      case True
      then have "m = 0" "(r + n) mod ?s = r + n" by (simp_all add: m_def)
      then show ?thesis using True lt k False pn unfolding iter by (simp add: node_csi_def)
    next
      case r2: False
      show ?thesis
      proof (cases "k + m < length cs")
        case True
        note g = get_nth_node[OF assms(1,2) k, of m]
        have c': "2 \<le> cs ! (k + m)" "cs ! (k + m) < total_clusters vol + 2"
          using node_layout_chain(3)[OF assms(1,2) False True] by auto
        note d = data_nat[OF vol_okD(1)[OF assms(1)] c']
        have "\<not> node_sectors vol cs \<le> p + n" using True lt by simp
        then show ?thesis
          unfolding iter g using True r2 d False pn by (simp add: node_csi_def)
      next
        case f: False
        note g = get_nth_node[OF assms(1,2) k, of m]
        have "\<not> IS_DATA_CLUSTER vol END_FAT_ENTRY" by (rule not_data_marks(2)[OF vol_okD(1)[OF assms(1)]])
        then show ?thesis
          unfolding iter g lt using f r2 by (simp add: END_FAT_ENTRY_def)
      qed
    qed
  qed
  then show "p + n < node_sectors vol cs \<Longrightarrow> iter_csi vol ?S (int n) = (0, node_csi vol cs (p + n))"
    "node_sectors vol cs \<le> p + n \<Longrightarrow> \<exists>csi. iter_csi vol ?S (int n) = (- 1, csi) \<and> csi_sector csi = 0xffff" by blast+
qed


text \<open>The directory iterator.\<close>

lemma dir_okD:
  assumes "dir_ok vol cluster cs"
  shows "vol_ok vol" "node_layout vol cluster cs" "node_entries vol cs < 2 ^ 31" "0 < entries_per_block vol"
    "i < node_entries vol cs \<longleftrightarrow> i div entries_per_block vol < node_sectors vol cs"
proof -
  show "vol_ok vol" "node_layout vol cluster cs" "node_entries vol cs < 2 ^ 31" using assms by (auto simp: dir_ok_def)
  then show "0 < entries_per_block vol" using vol_okD(4) by blast
  then show "i < node_entries vol cs \<longleftrightarrow> i div entries_per_block vol < node_sectors vol cs"
    by (simp add: node_entries_def div_less_iff_less_mult)
qed

lemma node_cluster_first:
  assumes "vol_ok vol" "node_layout vol cluster cs"
  shows "cluster < u32 (total_clusters vol + 2)" "0 < node_sectors vol cs \<Longrightarrow> node_csi vol cs 0 = \<lparr>csi_cluster = cluster, csi_sector = 0\<rparr>"
    "validate_cs vol cluster 0 = 0 \<longleftrightarrow> 0 < node_sectors vol cs"
proof -
  note b = fat_clusters_bound(1)[OF vol_okD(1)[OF assms(1)]] and s = vol_okD(2)[OF assms(1)]
  show "cluster < u32 (total_clusters vol + 2)"
    using b assms(2) node_layout_chain(2)[OF assms] node_layout_chain(3)[OF assms, of 0] by (cases "cs = []") (auto simp: node_layout_def)
  show csi: "node_csi vol cs 0 = \<lparr>csi_cluster = cluster, csi_sector = 0\<rparr>" if "0 < node_sectors vol cs"
    using assms(2) by (auto simp: node_csi_def node_layout_def hd_conv_nth)
  show "validate_cs vol cluster 0 = 0 \<longleftrightarrow> 0 < node_sectors vol cs"
  proof (cases "cs = []")
    case True
    then show ?thesis using assms(2) by (simp add: validate_cs_def node_layout_def node_sectors_def IS_FIXED_ROOT_def)
  next
    case False
    then have "0 < node_sectors vol cs" using s by (simp add: node_sectors_def)
    then show ?thesis using node_csi_valid(1)[OF assms, of 0] csi by simp
  qed
qed

lemma diri_init_node:
  assumes "dir_ok vol cluster cs"
  shows "i < node_entries vol cs \<Longrightarrow> \<exists>d'. diri_init vol cluster i d = (Some (node_ptr vol cs i), d') \<and> diri_at vol cluster cs d' i"
    "node_entries vol cs \<le> i \<Longrightarrow> i < 2 ^ 31 \<Longrightarrow> \<exists>d'. diri_init vol cluster i d = (None, d') \<and> current_block d' = None"
proof -
  note D = dir_okD[OF assms] and F = node_cluster_first[OF dir_okD(1,2)[OF assms]]
  let ?e = "entries_per_block vol"
  have cl: "\<not> cluster \<ge> u32 (total_clusters vol + 2)" using F(1) by simp
  show "\<exists>d'. diri_init vol cluster i d = (Some (node_ptr vol cs i), d') \<and> diri_at vol cluster cs d' i" if i: "i < node_entries vol cs"
  proof -
    have b: "i div ?e < node_sectors vol cs" and pos: "0 < node_sectors vol cs" using D(5)[of i] i by auto
    have it: "(if ?e \<le> i then iter_csi vol \<lparr>csi_cluster = cluster, csi_sector = 0\<rparr> (s32 (int (i div ?e)))
        else (0, \<lparr>csi_cluster = cluster, csi_sector = 0\<rparr>)) = (0, node_csi vol cs (i div ?e))"
    proof (cases "?e \<le> i")
      case True
      have "i div ?e \<le> i" by simp
      then have lt: "i div ?e < 2 ^ 31" using i D(3) by linarith
      moreover have "0 < i div ?e" using True D(4) by (simp add: div_greater_zero_iff)
      moreover have "int (i div ?e) < 2 ^ 31" using lt by (metis of_nat_less_iff of_nat_numeral of_nat_power)
      ultimately show ?thesis
        using True iter_csi_node(1)[OF D(1,2) pos, of "i div ?e"] b F(2)[OF pos] by simp
    next
      case False
      then show ?thesis using F(2)[OF pos] by simp
    qed
    note gb = node_csi_valid(4)[OF D(1,2) b]
    have ic: "init_csi vol cluster 0 x = (0, \<lparr>csi_cluster = cluster, csi_sector = 0\<rparr>)" for x
      using F(3) pos by (simp add: init_csi_def)
    show ?thesis
      using cl it gb i
      by (cases "?e \<le> i") (simp_all add: diri_init_def ic Let_def diri_at_def diri_entry_def node_ptr_def)
  qed
  show "\<exists>d'. diri_init vol cluster i d = (None, d') \<and> current_block d' = None" if i: "node_entries vol cs \<le> i" "i < 2 ^ 31"
  proof (cases "0 < node_sectors vol cs")
    case False
    then show ?thesis using cl F(3) by (auto simp: diri_init_def Let_def init_csi_def)
  next
    case pos: True
    have b: "node_sectors vol cs \<le> i div ?e" using D(5)[of i] i by (simp add: not_less[symmetric])
    have "?e * node_sectors vol cs \<le> i" using i(1) by (simp add: node_entries_def mult.commute)
    then have e: "?e \<le> i" using pos by (metis le_trans mult.right_neutral mult_le_mono2 Suc_leI One_nat_def)
    have "i div ?e \<le> i" by simp
    then have lt: "i div ?e < 2 ^ 31" using i(2) by linarith
    moreover have "int (i div ?e) < 2 ^ 31" using lt by (metis of_nat_less_iff of_nat_numeral of_nat_power)
    moreover have "0 < i div ?e" using e D(4) by (simp add: div_greater_zero_iff)
    ultimately obtain csi where "iter_csi vol \<lparr>csi_cluster = cluster, csi_sector = 0\<rparr> (s32 (int (i div ?e))) = (- 1, csi)"
      using iter_csi_node(2)[OF D(1,2) pos, of "i div ?e"] b F(2)[OF pos] by auto
    moreover have "init_csi vol cluster 0 x = (0, \<lparr>csi_cluster = cluster, csi_sector = 0\<rparr>)" for x
      using F(3) pos by (simp add: init_csi_def)
    ultimately show ?thesis using cl e by (simp add: diri_init_def Let_def)
  qed
qed

lemma diri_next_node:
  assumes "dir_ok vol cluster cs" "diri_at vol cluster cs d i"
  shows "i + 1 < node_entries vol cs \<Longrightarrow>
      \<exists>d'. diri_next_entry vol d = (Some (node_ptr vol cs (i + 1)), d') \<and> diri_at vol cluster cs d' (i + 1)"
    "node_entries vol cs \<le> i + 1 \<Longrightarrow>
      \<exists>d'. diri_next_entry vol d = (None, d') \<and> current_block d' = None \<and> current_index d' = i + 1 \<and> starting_cluster d' = cluster"
proof -
  note D = dir_okD[OF assms(1)]
  let ?e = "entries_per_block vol"
  have at: "diri_csi d = node_csi vol cs (i div ?e)" "starting_cluster d = cluster" "current_index d = i"
    "current_block d = Some (node_block vol cs (i div ?e))" "i < node_entries vol cs"
    using assms(2) by (auto simp: diri_at_def)
  have b: "i div ?e < node_sectors vol cs" using D(5) at(5) by simp
  have u: "u32 (i + 1) = i + 1" using at(5) D(3) by simp
  have dv: "(i + 1) div ?e = (if (i + 1) mod ?e = 0 then i div ?e + 1 else i div ?e)"
    using div_Suc[of i ?e] D(4) by (simp add: mod_Suc split: if_splits)
  show "\<exists>d'. diri_next_entry vol d = (Some (node_ptr vol cs (i + 1)), d') \<and> diri_at vol cluster cs d' (i + 1)"
    if n: "i + 1 < node_entries vol cs"
  proof (cases "(i + 1) mod ?e = 0")
    case True
    then have b': "i div ?e + 1 < node_sectors vol cs" using D(5)[of "i + 1"] n dv by simp
    have "iter_csi vol (node_csi vol cs (i div ?e)) 1 = (0, node_csi vol cs (i div ?e + 1))"
      using iter_csi_node(1)[OF D(1,2) b, of 1] b' by simp
    moreover note node_csi_valid(4)[OF D(1,2) b']
    ultimately show ?thesis
      using at u True dv n by (simp add: diri_next_entry_def Let_def diri_release_current_block_def diri_entry_def node_ptr_def diri_at_def)
  next
    case False
    then show ?thesis using at u dv n by (simp add: diri_next_entry_def Let_def diri_entry_def node_ptr_def diri_at_def)
  qed
  show "\<exists>d'. diri_next_entry vol d = (None, d') \<and> current_block d' = None \<and> current_index d' = i + 1 \<and> starting_cluster d' = cluster"
    if n: "node_entries vol cs \<le> i + 1"
  proof -
    have "i + 1 = node_entries vol cs" using n at(5) by simp
    then have m: "(i + 1) mod ?e = 0" by (simp add: node_entries_def)
    then have "node_sectors vol cs \<le> i div ?e + 1" using D(5)[of "i + 1"] n dv by simp
    then obtain csi where "iter_csi vol (node_csi vol cs (i div ?e)) 1 = (- 1, csi)"
      using iter_csi_node(2)[OF D(1,2) b, of 1] by auto
    then show ?thesis using at u m by (simp add: diri_next_entry_def Let_def diri_release_current_block_def)
  qed
qed


lemma node_ptr_inj:
  assumes "dir_ok vol cluster cs"
  shows "inj_on (node_ptr vol cs) {..<node_entries vol cs}"
proof (rule inj_onI)
  note D = dir_okD[OF assms]
  fix i j assume ij: "i \<in> {..<node_entries vol cs}" "j \<in> {..<node_entries vol cs}" "node_ptr vol cs i = node_ptr vol cs j"
  then have "i div entries_per_block vol = j div entries_per_block vol"
    using node_block_inj[OF D(1,2)] D(5) by (simp add: node_ptr_def)
  moreover have "i mod entries_per_block vol = j mod entries_per_block vol" using ij(3) by (simp add: node_ptr_def)
  ultimately show "i = j" by (metis mult_div_mod_eq)
qed

subsection \<open>What only depends on the table\<close>

text \<open>Two states of a volume with the same geometry, the same tables and blocks of the same lengths.\<close>

definition geometry :: "nspace \<Rightarrow> nat list" where
  "geometry vol = [fat_bits vol, bytes_per_sector vol, sectors_per_cluster vol, reserved_sectors vol, fat_count vol,
     sectors_per_fat vol, total_clusters vol, active_fat vol, if fat_mirrored vol then 1 else 0,
     root_start vol, root_sectors vol, data_start vol]"

definition fat_kept :: "nspace \<Rightarrow> nspace \<Rightarrow> bool" where
  "fat_kept vol vol' \<longleftrightarrow> geometry vol' = geometry vol
     \<and> (\<forall>bn < fat_end vol. fBlockCache vol' bn = fBlockCache vol bn)
     \<and> (\<forall>bn. map_option length (fBlockCache vol' bn) = map_option length (fBlockCache vol bn))"

lemma geometryD:
  assumes "geometry vol' = geometry vol"
  shows "fat_bits vol' = fat_bits vol" "bytes_per_sector vol' = bytes_per_sector vol"
    "sectors_per_cluster vol' = sectors_per_cluster vol" "reserved_sectors vol' = reserved_sectors vol"
    "fat_count vol' = fat_count vol" "sectors_per_fat vol' = sectors_per_fat vol"
    "total_clusters vol' = total_clusters vol" "active_fat vol' = active_fat vol"
    "fat_mirrored vol' = fat_mirrored vol" "root_start vol' = root_start vol" "root_sectors vol' = root_sectors vol"
    "data_start vol' = data_start vol"
  using assms by (auto simp: geometry_def split: if_splits)

lemma geometry_ext:
  "geometry vol' = geometry vol \<Longrightarrow> entries_per_block vol' = entries_per_block vol"
  "geometry vol' = geometry vol \<Longrightarrow> fat_end vol' = fat_end vol" "geometry vol' = geometry vol \<Longrightarrow> vol_end vol' = vol_end vol"
  "geometry vol' = geometry vol \<Longrightarrow> fat_size vol' = fat_size vol" "geometry vol' = geometry vol \<Longrightarrow> fat_start vol' = fat_start vol"
  "geometry vol' = geometry vol \<Longrightarrow> node_sectors vol' = node_sectors vol"
  "geometry vol' = geometry vol \<Longrightarrow> node_csi vol' = node_csi vol" "geometry vol' = geometry vol \<Longrightarrow> node_block vol' = node_block vol"
  "geometry vol' = geometry vol \<Longrightarrow> node_entries vol' = node_entries vol"
  "geometry vol' = geometry vol \<Longrightarrow> node_ptr vol' = node_ptr vol"
  using geometryD[of vol' vol]
  by (simp_all add: fun_eq_iff entries_per_block_def fat_end_def vol_end_def fat_size_def fat_start_def
      node_sectors_def node_csi_def node_block_def node_entries_def node_ptr_def)

lemma fat_kept_refl [simp]: "fat_kept vol vol"
  by (simp add: fat_kept_def)

lemma fat_kept_trans: "fat_kept a b \<Longrightarrow> fat_kept b c \<Longrightarrow> fat_kept a c"
  using geometry_ext(2)[of b a] by (simp add: fat_kept_def)

lemma fat_kept_geometry: "fat_kept vol vol' \<Longrightarrow> geometry vol' = geometry vol"
  by (simp add: fat_kept_def)

lemma length_kept:
  assumes "fat_kept vol vol'"
  shows "(\<exists>b. fBlockCache vol' bn = Some b \<and> length b = n) \<longleftrightarrow> (\<exists>b. fBlockCache vol bn = Some b \<and> length b = n)"
proof -
  have "(\<exists>b. x = Some b \<and> length b = n) \<longleftrightarrow> map_option length x = Some n" for x :: "block option" by auto
  moreover have "map_option length (fBlockCache vol' bn) = map_option length (fBlockCache vol bn)"
    using assms by (simp add: fat_kept_def)
  ultimately show ?thesis by metis
qed

lemma fat_kept_ok:
  assumes "fat_kept vol vol'"
  shows "fat_ok vol' \<longleftrightarrow> fat_ok vol" "vol_ok vol' \<longleftrightarrow> vol_ok vol"
proof -
  note g = geometryD[OF fat_kept_geometry[OF assms]] and ge = geometry_ext[OF fat_kept_geometry[OF assms]]
  show ok: "fat_ok vol' \<longleftrightarrow> fat_ok vol" unfolding fat_ok_def g ge length_kept[OF assms] by (rule refl)
  show "vol_ok vol' \<longleftrightarrow> vol_ok vol" unfolding vol_ok_def g ge ok length_kept[OF assms] by (rule refl)
qed

lemma fat_kept_byte:
  assumes "fat_kept vol vol'" "fat_ok vol" "k < fat_size vol"
  shows "fat_byte vol' k = fat_byte vol k"
proof -
  note g = geometryD[OF fat_kept_geometry[OF assms(1)]] and ge = geometry_ext[OF fat_kept_geometry[OF assms(1)]]
  have "k div bytes_per_sector vol < sectors_per_fat vol" using assms(3) by (simp add: fat_size_def less_mult_imp_div_less)
  moreover have "fat_start vol + sectors_per_fat vol \<le> fat_end vol"
  proof -
    have "Suc (active_fat vol) * sectors_per_fat vol \<le> fat_count vol * sectors_per_fat vol"
      using fat_okD(7)[OF assms(2)] by (intro mult_right_mono) simp_all
    then show ?thesis by (simp add: fat_start_def fat_end_def)
  qed
  ultimately have "fat_start vol + k div bytes_per_sector vol < fat_end vol" by linarith
  then show ?thesis using assms(1) by (simp add: fat_byte_def g ge block_data_def fat_kept_def)
qed

lemma fat_kept_entry:
  assumes "fat_kept vol vol'" "fat_ok vol" "c < total_clusters vol + 2"
  shows "fat_entry vol' c = fat_entry vol c"
proof -
  note g = geometryD[OF fat_kept_geometry[OF assms(1)]]
  have pos: "fat_pos vol' c = fat_pos vol c" by (simp add: fat_pos_def g)
  note e = fat_pos_end[OF assms(2,3)]
  have "fat_raw vol' c = fat_raw vol c"
    using fat_kept_byte[OF assms(1,2)] e fat_okD(1)[OF assms(2)]
    by (auto simp: fat_raw_def Let_def g pos)
  then show ?thesis by (simp add: fat_entry_def g)
qed

lemma fat_kept_get:
  assumes "fat_kept vol vol'" "fat_ok vol" "c < 2 ^ 32"
  shows "get_fat_entry vol' c = get_fat_entry vol c"
proof (cases "2 \<le> c \<and> c < total_clusters vol + 2")
  case True
  then show ?thesis
    using fat_kept_entry[OF assms(1,2)] get_fat_entry_eq[OF assms(2)] get_fat_entry_eq[of vol' c]
      fat_kept_ok(1)[OF assms(1)] assms(2) geometryD(7)[OF fat_kept_geometry[OF assms(1)]] by simp
next
  case False
  have "\<not> IS_DATA_CLUSTER vol (int c)" "\<not> IS_DATA_CLUSTER vol' (int c)"
    using False assms(3) fat_clusters_bound(1)[OF assms(2)] geometryD(7)[OF fat_kept_geometry[OF assms(1)]] by simp_all
  then show ?thesis by (simp add: get_fat_entry_def fat_ioctl_base_def fat_invalid_cluster errno_defs)
qed

lemma fat_kept_chain:
  assumes "fat_kept vol vol'" "fat_ok vol"
  shows "fat_chain vol' cs \<longleftrightarrow> fat_chain vol cs" "node_layout vol' cluster cs \<longleftrightarrow> node_layout vol cluster cs"
    "dir_ok vol' cluster cs \<longleftrightarrow> dir_ok vol cluster cs" "free_count vol' = free_count vol"
proof -
  note g = geometryD[OF fat_kept_geometry[OF assms(1)]] and ge = geometry_ext[OF fat_kept_geometry[OF assms(1)]]
  have e: "get_fat_entry vol' c = get_fat_entry vol c" if "c < total_clusters vol + 2" for c
    using that fat_kept_get[OF assms] fat_clusters_bound(1)[OF assms(2)] by simp
  show c: "fat_chain vol' cs \<longleftrightarrow> fat_chain vol cs" for cs
    by (induction cs rule: induct_list012) (auto simp: g e)
  show n: "node_layout vol' cluster cs \<longleftrightarrow> node_layout vol cluster cs" by (simp add: node_layout_def g c)
  show "dir_ok vol' cluster cs \<longleftrightarrow> dir_ok vol cluster cs" by (simp add: dir_ok_def n fat_kept_ok[OF assms(1)] ge)
  show "free_count vol' = free_count vol" unfolding free_count_def g by (rule arg_cong[of _ _ card]) (auto simp: e)
qed

text \<open>Stores outside the tables.\<close>

lemma fat_kept_store:
  assumes "fat_end vol \<le> bn" "fBlockCache vol bn = Some b" "length b' = length b"
  shows "fat_kept vol (block_store vol bn b')"
  using assms by (auto simp: fat_kept_def geometry_def block_store_frame block_store_def)


lemma fat_kept_iter:
  assumes "fat_kept vol vol'" "fat_ok vol"
  shows "get_nth_fat_entry vol' c n = get_nth_fat_entry vol c n" "iter_csi vol' csi k = iter_csi vol csi k"
    "validate_cs vol' = validate_cs vol" "csi_to_block vol' = csi_to_block vol"
    "csi_run m vol' len block sectors csi = csi_run m vol len block sectors csi"
proof -
  note g = geometryD[OF fat_kept_geometry[OF assms(1)]]
  have data: "IS_DATA_CLUSTER vol' = IS_DATA_CLUSTER vol" by (simp add: fun_eq_iff IS_DATA_CLUSTER_def g)
  have e: "get_fat_entry vol' (u32_of_int i) = get_fat_entry vol (u32_of_int i)" for i
    by (rule fat_kept_get[OF assms]) (simp add: u32_of_int_def nat_less_iff)
  show n: "get_nth_fat_entry vol' c n = get_nth_fat_entry vol c n" for c n
    by (induction n arbitrary: c) (simp_all add: e data Let_def)
  show v: "validate_cs vol' = validate_cs vol" by (simp add: fun_eq_iff validate_cs_def g data)
  then show b: "csi_to_block vol' = csi_to_block vol" by (simp add: fun_eq_iff csi_to_block_def g)
  show i: "iter_csi vol' csi k = iter_csi vol csi k" for csi k by (simp add: iter_csi_def g n data Let_def)
  show "csi_run m vol' len block sectors csi = csi_run m vol len block sectors csi"
    by (induction m arbitrary: sectors csi) (simp_all add: i b g split_beta)
qed

text \<open>Changes of the table keep the layout of the volume.\<close>

lemma fat_same_geometry: "fat_same vol vol' \<Longrightarrow> geometry vol' = geometry vol"
  unfolding fat_same_def geometry_def by (cases vol; cases vol') simp

lemma fat_same_vol_ok:
  assumes "fat_same vol vol'" "fat_ok vol'" "vol_ok vol"
  shows "vol_ok vol'"
proof -
  note g = geometryD[OF fat_same_geometry[OF assms(1)]] and ge = geometry_ext[OF fat_same_geometry[OF assms(1)]]
  have "fBlockCache vol' bn = fBlockCache vol bn" if "fat_end vol \<le> bn" for bn
    using assms(1) that by (simp add: fat_same_def)
  then show ?thesis using assms(2,3) unfolding vol_ok_def g ge by auto
qed

subsection \<open>Runs of blocks\<close>

text \<open>The sectors \<open>p\<close> to \<open>p + n - 1\<close> follow each other on the disk.\<close>

definition contiguous :: "nspace \<Rightarrow> nat list \<Rightarrow> nat \<Rightarrow> nat \<Rightarrow> bool" where
  "contiguous vol cs p n \<longleftrightarrow> p + n \<le> node_sectors vol cs \<and> (\<forall>j < n. node_block vol cs (p + j) = node_block vol cs p + j)"

lemma csi_run_node:
  assumes "vol_ok vol" "node_layout vol cluster cs"
  shows "contiguous vol cs p n \<Longrightarrow> 0 < n \<Longrightarrow> n * bytes_per_sector vol \<le> len \<Longrightarrow>
    \<exists>m. csi_run k vol len (int (node_block vol cs p)) n (node_csi vol cs (p + n - 1)) = (m, node_csi vol cs (p + m - 1))
      \<and> n \<le> m \<and> contiguous vol cs p m \<and> m * bytes_per_sector vol \<le> len"
proof (induction k arbitrary: n)
  case (Suc k)
  have p: "p + n - 1 < node_sectors vol cs" using Suc.prems(1,2) by (auto simp: contiguous_def)
  let ?it = "iter_csi vol (node_csi vol cs (p + n - 1)) 1"
  have dec: "int (node_block vol cs p) + int n = csi_to_block vol (snd ?it) \<longleftrightarrow> node_block vol cs (p + n) = node_block vol cs p + n"
    and it: "fst ?it = 0" "snd ?it = node_csi vol cs (p + n)" if "p + n < node_sectors vol cs"
  proof -
    have *: "?it = (0, node_csi vol cs (p + n))"
      using iter_csi_node(1)[OF assms p, of 1] that Suc.prems(2) by simp
    then show "fst ?it = 0" "snd ?it = node_csi vol cs (p + n)" by simp_all
    then show "int (node_block vol cs p) + int n = csi_to_block vol (snd ?it) \<longleftrightarrow> node_block vol cs (p + n) = node_block vol cs p + n"
      using node_csi_valid(2)[OF assms that] by (simp, linarith)
  qed
  have stop: "fst ?it < 0" if "\<not> p + n < node_sectors vol cs"
    using iter_csi_node(2)[OF assms p, of 1] that Suc.prems(2) by auto
  show ?case
  proof (cases "(n + 1) * bytes_per_sector vol \<le> len \<and> p + n < node_sectors vol cs \<and> node_block vol cs (p + n) = node_block vol cs p + n")
    case True
    then have "contiguous vol cs p (n + 1)" using Suc.prems(1) by (auto simp: contiguous_def less_Suc_eq)
    with True Suc.IH[of "n + 1"] obtain m where "csi_run k vol len (int (node_block vol cs p)) (n + 1) (node_csi vol cs (p + n)) = (m, node_csi vol cs (p + m - 1))"
      "n + 1 \<le> m" "contiguous vol cs p m" "m * bytes_per_sector vol \<le> len" by auto
    then show ?thesis
      using True it dec by (intro exI[of _ m]) (simp add: split_beta Let_def B_OK_def not_less)
  next
    case False
    then have "csi_run (Suc k) vol len (int (node_block vol cs p)) n (node_csi vol cs (p + n - 1)) = (n, node_csi vol cs (p + n - 1))"
      using it(1) dec stop by (cases "p + n < node_sectors vol cs") (auto simp: split_beta Let_def B_OK_def not_less)
    then show ?thesis using Suc.prems by auto
  qed
qed auto

lemma copy_in_spec:
  assumes "vol_ok vol" "fat_end vol \<le> i" "i + n \<le> vol_end vol" "off + n * bytes_per_sector vol \<le> length buf"
  shows "fat_kept vol (csi_copy_in vol n i off buf)
    \<and> csi_copy_in vol n i off buf = vol\<lparr>fBlockCache := fBlockCache (csi_copy_in vol n i off buf)\<rparr>
    \<and> (\<forall>bn. fBlockCache (csi_copy_in vol n i off buf) bn =
         (if i \<le> bn \<and> bn < i + n then Some (take (bytes_per_sector vol) (drop (off + (bn - i) * bytes_per_sector vol) buf))
          else fBlockCache vol bn))"
  using assms
proof (induction n arbitrary: vol i off)
  case (Suc n)
  let ?b = "bytes_per_sector vol" and ?D = "take (bytes_per_sector vol) (drop off buf)"
  have i: "fat_end vol \<le> i" "i < vol_end vol" using Suc.prems by simp_all
  have len: "length (block_data vol i) = ?b" "length ?D = ?b" using vol_ok_block(2)[OF Suc.prems(1) i] Suc.prems(4) by simp_all
  obtain b where b: "fBlockCache vol i = Some b" using vol_ok_block(1)[OF Suc.prems(1) i] by (auto simp: block_cache_get_def split: if_splits)
  have cp: "memcpy_at (block_data vol i) 0 ?D = ?D" using len by (simp add: memcpy_at_def)
  let ?v = "block_store vol i ?D"
  have kept: "fat_kept vol ?v" using fat_kept_store[OF i(1) b, of ?D] len b by (simp add: block_data_def)
  note ge = geometry_ext[OF fat_kept_geometry[OF kept]] and g = geometryD[OF fat_kept_geometry[OF kept]]
  have vok: "vol_ok ?v" using Suc.prems(1) fat_kept_ok(2)[OF kept] by simp
  have step: "csi_copy_in vol (Suc n) i off buf = csi_copy_in ?v n (i + 1) (off + ?b) buf"
    using vol_ok_block(1)[OF Suc.prems(1) i] cp by simp
  note IH = Suc.IH[OF vok, of "i + 1" "off + ?b", unfolded g ge]
  have IH': "fat_kept ?v (csi_copy_in ?v n (i + 1) (off + ?b) buf)"
    "csi_copy_in ?v n (i + 1) (off + ?b) buf = ?v\<lparr>fBlockCache := fBlockCache (csi_copy_in ?v n (i + 1) (off + ?b) buf)\<rparr>"
    "fBlockCache (csi_copy_in ?v n (i + 1) (off + ?b) buf) bn =
         (if i + 1 \<le> bn \<and> bn < i + 1 + n then Some (take ?b (drop (off + ?b + (bn - (i + 1)) * ?b) buf)) else fBlockCache ?v bn)" for bn
    using IH Suc.prems(2,3,4) by (simp_all add: add.assoc)
  define w where "w = csi_copy_in ?v n (i + 1) (off + ?b) buf"
  have off: "off + ?b + (bn - (i + 1)) * ?b = off + (bn - i) * ?b" if "i + 1 \<le> bn" for bn
    using that by (auto simp: le_iff_add)
  have "fBlockCache w bn = (if i \<le> bn \<and> bn < i + Suc n then Some (take ?b (drop (off + (bn - i) * ?b) buf)) else fBlockCache vol bn)" for bn
    using IH'(3)[of bn, folded w_def] off[of bn] by (cases "bn = i") (auto simp: add.assoc)
  moreover have "w = vol\<lparr>fBlockCache := fBlockCache w\<rparr>"
    using IH'(2)[folded w_def] by (simp add: block_store_def)
  ultimately show ?case
    unfolding step w_def[symmetric] using fat_kept_trans[OF kept IH'(1)[folded w_def]] by blast
qed auto

lemma memcpy_at_append:
  "off + length a \<le> length buf \<Longrightarrow> memcpy_at (memcpy_at buf off a) (off + length a) b = memcpy_at buf off (a @ b)"
  by (simp add: memcpy_at_def ac_simps)

lemma copy_out_spec:
  assumes "\<And>j. j < n \<Longrightarrow> fBlockCache vol (i + j) = Some (take (bytes_per_sector vol) (drop (d + j * bytes_per_sector vol) src))"
    and "d + n * bytes_per_sector vol \<le> length src" "off + n * bytes_per_sector vol \<le> length buf"
  shows "csi_copy_out vol n i off buf = (vol, memcpy_at buf off (take (n * bytes_per_sector vol) (drop d src)))"
  using assms
proof (induction n arbitrary: i d off buf)
  case (Suc n)
  let ?b = "bytes_per_sector vol"
  let ?D = "take ?b (drop d src)"
  have b: "fBlockCache vol i = Some ?D" using Suc.prems(1)[of 0] by simp
  have "fBlockCache vol (i + 1 + j) = Some (take ?b (drop (d + ?b + j * ?b) src))" if "j < n" for j
    using Suc.prems(1)[of "Suc j"] that by (simp add: add.assoc)
  then have "csi_copy_out vol n (i + 1) (off + ?b) (memcpy_at buf off ?D)
      = (vol, memcpy_at (memcpy_at buf off ?D) (off + ?b) (take (n * ?b) (drop (d + ?b) src)))"
    using Suc.prems(2,3) by (intro Suc.IH) (simp_all add: add.assoc)
  moreover have "memcpy_at (memcpy_at buf off ?D) (off + ?b) (take (n * ?b) (drop (d + ?b) src))
      = memcpy_at buf off (take (Suc n * ?b) (drop d src))"
  proof -
    have l: "length ?D = ?b" using Suc.prems(2) by simp
    have "take (Suc n * ?b) (drop d src) = ?D @ take (n * ?b) (drop (d + ?b) src)" by (simp add: take_add add.commute)
    then show ?thesis using memcpy_at_append[of off ?D buf] Suc.prems(3) unfolding l by simp
  qed
  moreover have "csi_copy_out vol (Suc n) i off buf = csi_copy_out vol n (i + 1) (off + ?b) (memcpy_at buf off ?D)"
    using b by (simp add: block_cache_get_def block_data_def)
  ultimately show ?case by metis
qed (simp add: memcpy_at_def)


lemma valid_block:
  assumes "vol_ok vol" "validate_cs vol c s = 0" "c < 2 ^ 32"
  shows "csi_to_block vol \<lparr>csi_cluster = c, csi_sector = s\<rparr> \<in> {int (fat_end vol)..<int (vol_end vol)}"
    "c = 1 \<Longrightarrow> csi_to_block vol \<lparr>csi_cluster = c, csi_sector = s\<rparr> = int (root_start vol + s)
       \<and> csi_to_block vol \<lparr>csi_cluster = c, csi_sector = s\<rparr> < int (data_start vol)"
    "c \<noteq> 1 \<Longrightarrow> csi_to_block vol \<lparr>csi_cluster = c, csi_sector = s\<rparr> = int (data_start vol + ((c - 2) * sectors_per_cluster vol + s))
       \<and> s < sectors_per_cluster vol \<and> 2 \<le> c"
proof -
  let ?B = "csi_to_block vol \<lparr>csi_cluster = c, csi_sector = s\<rparr>" and ?n = "sectors_per_cluster vol"
  note tc = fat_clusters_bound(1)[OF vol_okD(1)[OF assms(1)]] and lim = vol_okD(7,8)[OF assms(1)]
  show r: "?B = int (root_start vol + s) \<and> ?B < int (data_start vol)" if "c = 1"
  proof -
    have s: "fat_bits vol \<noteq> 32" "s < root_sectors vol"
      using assms(2) that by (auto simp: validate_cs_def IS_FIXED_ROOT_def IS_DATA_CLUSTER_def split: if_splits)
    then show ?thesis
      using that assms(2) vol_ok_root[OF assms(1)] lim by (simp add: csi_to_block_def IS_FIXED_ROOT_def vol_end_def)
  qed
  show d: "?B = int (data_start vol + ((c - 2) * ?n + s)) \<and> s < ?n \<and> 2 \<le> c" if "c \<noteq> 1"
  proof -
    have "s < ?n" "IS_DATA_CLUSTER vol (int c)"
      using assms(2) that by (auto simp: validate_cs_def IS_FIXED_ROOT_def split: if_splits)
    moreover from this have "2 \<le> c" using assms(3) tc by simp
    ultimately show ?thesis using that assms(2,3) by (simp add: csi_to_block_def IS_FIXED_ROOT_def)
  qed
  show "?B \<in> {int (fat_end vol)..<int (vol_end vol)}"
  proof (cases "c = 1")
    case True
    have "fat_bits vol \<noteq> 32" using assms(2) True by (auto simp: validate_cs_def IS_FIXED_ROOT_def IS_DATA_CLUSTER_def split: if_splits)
    moreover have "data_start vol \<le> vol_end vol" by (simp add: vol_end_def)
    ultimately show ?thesis using r[OF True] vol_ok_root(2)[OF assms(1)] by auto
  next
    case False
    have "IS_DATA_CLUSTER vol (int c)"
      using assms(2) False by (auto simp: validate_cs_def IS_FIXED_ROOT_def split: if_splits)
    then have "2 \<le> c" "c < total_clusters vol + 2" using assms(3) tc by simp_all
    then have "Suc (c - 2) \<le> total_clusters vol" by linarith
    then have "Suc (c - 2) * ?n \<le> total_clusters vol * ?n" by (rule mult_right_mono) simp
    then have "fat_end vol \<le> data_start vol + ((c - 2) * ?n + s) \<and> data_start vol + ((c - 2) * ?n + s) < vol_end vol"
      using d[OF False] lim(1) unfolding vol_end_def by (simp add: add.commute)
    then show ?thesis using d[OF False] by (simp del: of_nat_add of_nat_mult)
  qed
qed

section \<open>Properties\<close>

text \<open>C30: two valid positions are in the same block only if they are the same, and every valid position is in a block
  behind the allocation tables and inside the volume: data never overlaps the tables, and no two clusters or sectors overlap.\<close>

theorem csi_to_block_injective:
  assumes "vol_ok vol" "validate_cs vol c s = 0" "validate_cs vol c' s' = 0" "c < 2 ^ 32" "c' < 2 ^ 32"
  shows "csi_to_block vol \<lparr>csi_cluster = c, csi_sector = s\<rparr> \<in> {int (fat_end vol)..<int (vol_end vol)}
    \<and> (csi_to_block vol \<lparr>csi_cluster = c, csi_sector = s\<rparr> = csi_to_block vol \<lparr>csi_cluster = c', csi_sector = s'\<rparr>
       \<longrightarrow> c = c' \<and> s = s')"
proof -
  let ?B = "\<lambda>c s. csi_to_block vol \<lparr>csi_cluster = c, csi_sector = s\<rparr>" and ?n = "sectors_per_cluster vol"
  note A = valid_block[OF assms(1,2,4)] and B = valid_block[OF assms(1,3,5)]
  have "c = c' \<and> s = s'" if eq: "?B c s = ?B c' s'"
  proof (cases "c = 1 \<or> c' = 1")
    case True
    have "\<not> (c = 1 \<and> c' \<noteq> 1)" "\<not> (c \<noteq> 1 \<and> c' = 1)" using A(2,3) B(2,3) eq by linarith+
    with True have "c = 1" "c' = 1" by auto
    then show ?thesis using A(2) B(2) eq by simp
  next
    case False
    then have "int ((c - 2) * ?n + s) = int ((c' - 2) * ?n + s')" and lt: "s < ?n" "s' < ?n" and ge: "2 \<le> c" "2 \<le> c'"
      using A(3) B(3) eq by simp_all
    then have e: "(c - 2) * ?n + s = (c' - 2) * ?n + s'" by linarith
    have "c - 2 = c' - 2" using arg_cong[OF e, of "\<lambda>x. x div ?n"] lt by simp
    then show ?thesis using e ge by simp
  qed
  then show ?thesis using A(1) by blast
qed

text \<open>Moving a sector iterator over a file or directory. From its \<open>p\<close>-th sector, \<^verbatim>\<open>iter_csi\<close> by \<open>n\<close> sectors gets to the
  sector \<open>p + n\<close> when there is one, across cluster borders and along the chain, so that two moves are one move by the
  sum; past the last sector it reports the end and marks the iterator, which then stays at the end.\<close>

theorem iter_csi_moves:
  assumes "vol_ok vol" "node_layout vol cluster cs" "p < node_sectors vol cs" "0 < n" "n < 2 ^ 31"
  shows "(if p + n < node_sectors vol cs
      then iter_csi vol (node_csi vol cs p) (int n) = (0, node_csi vol cs (p + n))
        \<and> csi_to_block vol (node_csi vol cs (p + n)) = int (node_block vol cs (p + n))
      else \<exists>csi. iter_csi vol (node_csi vol cs p) (int n) = (- 1, csi) \<and> (\<forall>k. iter_csi vol csi k = (- 1, csi)))"
proof (cases "p + n < node_sectors vol cs")
  case True
  then show ?thesis using iter_csi_node(1)[OF assms] node_csi_valid(2)[OF assms(1,2)] by simp
next
  case False
  then obtain csi where "iter_csi vol (node_csi vol cs p) (int n) = (- 1, csi)" "csi_sector csi = 0xffff"
    using iter_csi_node(2)[OF assms] by auto
  moreover from this have "iter_csi vol csi k = (- 1, csi)" for k by (simp add: iter_csi_def)
  ultimately show ?thesis using False by auto
qed

text \<open>C29: a directory iterator started at the first entry gives the entries of the directory one after the other, each once and in order,
  over all sectors and clusters of the fixed root directory or the chain, and then \<^verbatim>\<open>NULL\<close>.\<close>

theorem diri_visits_all_entries:
  assumes "dir_ok vol cluster cs" "0 < node_entries vol cs"
  shows "\<exists>d. diri_init vol cluster 0 d0 = (Some (node_ptr vol cs 0), d)
    \<and> (\<forall>i < node_entries vol cs. fst (diri_next_entry vol (((\<lambda>d. snd (diri_next_entry vol d)) ^^ i) d))
         = (if i + 1 < node_entries vol cs then Some (node_ptr vol cs (i + 1)) else None))
    \<and> inj_on (node_ptr vol cs) {..<node_entries vol cs}"
proof -
  obtain d where d: "diri_init vol cluster 0 d0 = (Some (node_ptr vol cs 0), d)" "diri_at vol cluster cs d 0"
    using diri_init_node(1)[OF assms(1), of 0 d0] assms(2) by auto
  have at: "i < node_entries vol cs \<Longrightarrow> diri_at vol cluster cs (((\<lambda>d. snd (diri_next_entry vol d)) ^^ i) d) i" for i
  proof (induction i)
    case (Suc i)
    then have "diri_at vol cluster cs (((\<lambda>d. snd (diri_next_entry vol d)) ^^ i) d) i" by simp
    from diri_next_node(1)[OF assms(1) this] Suc.prems show ?case by auto
  qed (simp add: d)
  have "fst (diri_next_entry vol (((\<lambda>d. snd (diri_next_entry vol d)) ^^ i) d))
      = (if i + 1 < node_entries vol cs then Some (node_ptr vol cs (i + 1)) else None)" if "i < node_entries vol cs" for i
    using diri_next_node[OF assms(1) at[OF that]] by (cases "i + 1 < node_entries vol cs") auto
  moreover have "inj_on (node_ptr vol cs) {..<node_entries vol cs}" by (rule node_ptr_inj[OF assms(1)])
  ultimately show ?thesis using d(1) by blast
qed

text \<open>C31: what \<^verbatim>\<open>csi_write_blocks\<close> writes, \<^verbatim>\<open>csi_read_blocks\<close> from the same position reads back: both move the same
  positive number of bytes, no more than the buffer has, and end at the same sector; only the blocks written change.\<close>

theorem csi_write_read_blocks:
  assumes "vol_ok vol" "node_layout vol cluster cs" "p < node_sectors vol cs"
    and "bytes_per_sector vol \<le> length buffer" "length buffer2 = length buffer"
  shows "\<exists>n vol' csi'. csi_write_blocks vol (node_csi vol cs p) buffer (length buffer) = (int n, vol', csi')
    \<and> 0 < n \<and> n \<le> length buffer \<and> vol_ok vol' \<and> fault vol' = fault vol
    \<and> csi_read_blocks vol' (node_csi vol cs p) buffer2 (length buffer) = (int n, vol', csi', take n buffer @ drop n buffer2)
    \<and> (\<forall>bn. (\<forall>q < node_sectors vol cs. bn \<noteq> node_block vol cs q) \<longrightarrow> fBlockCache vol' bn = fBlockCache vol bn)"
proof -
  let ?b = "bytes_per_sector vol" and ?N = "node_block vol cs p" and ?k = "length buffer div bytes_per_sector vol + 1"
  have "contiguous vol cs p 1" using assms(3) by (simp add: contiguous_def)
  then obtain m where run: "csi_run ?k vol (length buffer) (int ?N) 1 (node_csi vol cs p) = (m, node_csi vol cs (p + m - 1))"
    and m: "1 \<le> m" "contiguous vol cs p m" "m * ?b \<le> length buffer"
    using csi_run_node[OF assms(1,2), of p 1 "length buffer" ?k] assms(4) by auto
  note bd = node_block_bounds[OF assms(1,2)] and V = node_csi_valid[OF assms(1-3)]
  have lim: "?N + m \<le> vol_end vol"
  proof -
    have "m - 1 < m" using m(1) by simp
    then have "node_block vol cs (p + (m - 1)) = ?N + (m - 1)" "p + m \<le> node_sectors vol cs"
      using m(2) unfolding contiguous_def by blast+
    moreover from this have "p + (m - 1) < node_sectors vol cs" using m(1) by linarith
    ultimately show ?thesis using bd(2)[of "p + (m - 1)"] m(1) by linarith
  qed
  have n31: "s32 (int ?N) = int ?N" using bd(2)[OF assms(3)] vol_okD(8)[OF assms(1)] by simp
  define w where "w = csi_copy_in vol m ?N 0 buffer"
  have w: "fat_kept vol w" "w = vol\<lparr>fBlockCache := fBlockCache w\<rparr>"
    "\<And>bn. fBlockCache w bn = (if ?N \<le> bn \<and> bn < ?N + m then Some (take ?b (drop ((bn - ?N) * ?b) buffer)) else fBlockCache vol bn)"
    using copy_in_spec[OF assms(1) bd(1)[OF assms(3)] lim, of 0 buffer] m(3) unfolding w_def by auto
  note K = fat_kept_iter[OF w(1) vol_okD(1)[OF assms(1)]] and g = geometryD[OF fat_kept_geometry[OF w(1)]]
  have wr: "csi_write_blocks vol (node_csi vol cs p) buffer (length buffer) = (int (m * ?b), w, node_csi vol cs (p + m - 1))"
    using V(1,2) run n31 g(2) by (simp add: csi_write_blocks_def w_def[symmetric])
  have "csi_copy_out w m ?N 0 buffer2 = (w, memcpy_at buffer2 0 (take (m * ?b) buffer))"
    using copy_out_spec[of m w ?N 0 buffer 0 buffer2] w(3) m(3) assms(5) by (simp add: g)
  then have rd: "csi_read_blocks w (node_csi vol cs p) buffer2 (length buffer)
      = (int (m * ?b), w, node_csi vol cs (p + m - 1), take (m * ?b) buffer @ drop (m * ?b) buffer2)"
    using V(1,2) run n31 m(3) by (simp add: csi_read_blocks_def K g memcpy_at_def min_def)
  have "fBlockCache w bn = fBlockCache vol bn" if "\<forall>q < node_sectors vol cs. bn \<noteq> node_block vol cs q" for bn
  proof -
    have "bn \<noteq> ?N + j" if "j < m" for j
    proof -
      have "p + j < node_sectors vol cs" "node_block vol cs (p + j) = ?N + j" using that m(2) by (auto simp: contiguous_def)
      then show ?thesis using \<open>\<forall>q < node_sectors vol cs. bn \<noteq> node_block vol cs q\<close> by metis
    qed
    then have "\<not> (?N \<le> bn \<and> bn < ?N + m)" by (metis le_Suc_ex nat_add_left_cancel_less)
    then show ?thesis unfolding w(3) by (rule if_not_P)
  qed
  moreover have "0 < m * ?b" using m(1) fat_okD(3)[OF vol_okD(1)[OF assms(1)]] by simp
  moreover have "fault w = fault vol" by (subst w(2)) simp
  ultimately show ?thesis
    using wr rd m(3) fat_kept_ok(2)[OF w(1)] assms(1) by (intro exI[of _ "m * ?b"] exI[of _ w] exI[of _ "node_csi vol cs (p + m - 1)"]) blast
qed


subsection \<open>Witnesses\<close>

text \<open>Two entries in a sector, two sectors in a cluster, a root directory of two sectors and four clusters of data under a
  12 bit table; the chain 2, 4.\<close>

definition tiny_disk0 :: nspace where
  "tiny_disk0 = tiny_volume\<lparr>fBlockCache := (\<lambda>bn. if bn < 13 then Some (replicate 64 0) else None),
     bytes_per_sector := 64, sectors_per_cluster := 2, sectors_per_fat := 1, root_start := 3, root_sectors := 2,
     root_entries_count := 4, data_start := 5, total_sectors := 13\<rparr>"

definition tiny_disk :: nspace where
  "tiny_disk = fat_put (fat_put tiny_disk0 4 0x0fffffff) 2 4"

lemma tiny_disk0_simps:
  "total_clusters tiny_disk0 = 4" "fat_bits tiny_disk0 = 12" "bytes_per_sector tiny_disk0 = 64" "sectors_per_cluster tiny_disk0 = 2"
  "reserved_sectors tiny_disk0 = 1" "fat_count tiny_disk0 = 2" "sectors_per_fat tiny_disk0 = 1" "root_start tiny_disk0 = 3"
  "root_sectors tiny_disk0 = 2" "data_start tiny_disk0 = 5" "active_fat tiny_disk0 = 0"
  "fBlockCache tiny_disk0 bn = (if bn < 13 then Some (replicate 64 0) else None)"
  by (simp_all add: tiny_disk0_def tiny_volume_def)

lemma tiny_disk0_ok: "fat_ok tiny_disk0" "vol_ok tiny_disk0"
proof -
  show "fat_ok tiny_disk0" by (auto simp: fat_ok_def tiny_disk0_simps fat_size_def)
  then show "vol_ok tiny_disk0" by (auto simp: vol_ok_def tiny_disk0_simps fat_end_def vol_end_def)
qed

lemma tiny_disk_ok:
  "geometry tiny_disk = geometry tiny_disk0" "vol_ok tiny_disk" "fat_chain tiny_disk [2, 4]" "dir_ok tiny_disk 2 [2, 4]"
  "dir_ok tiny_disk 1 []" "node_sectors tiny_disk [2, 4] = 4" "node_entries tiny_disk [2, 4] = 8"
proof -
  let ?a = "fat_put tiny_disk0 4 0x0fffffff"
  have ok: "fat_ok ?a" "fat_ok tiny_disk"
    unfolding tiny_disk_def using tiny_disk0_ok(1) by (auto intro!: fat_put_ok simp: tiny_disk0_simps)
  have same: "fat_same tiny_disk0 tiny_disk"
    unfolding tiny_disk_def
    using fat_same_trans[OF fat_same_put[OF tiny_disk0_ok(1)] fat_same_put[OF ok(1)]] by (simp add: tiny_disk0_simps)
  show g: "geometry tiny_disk = geometry tiny_disk0" by (rule fat_same_geometry[OF same])
  note gd = geometryD[OF g] and ge = geometry_ext[OF g]
  show v: "vol_ok tiny_disk" by (rule fat_same_vol_ok[OF same ok(2) tiny_disk0_ok(2)])
  have "fat_entry ?a 4 = 0x0fffffff"
    using fat_entry_put[OF tiny_disk0_ok(1), of 4 4 "0x0fffffff"] by (simp add: tiny_disk0_simps)
  then have "fat_entry tiny_disk 4 = 0x0fffffff" "fat_entry tiny_disk 2 = 4"
    using fat_entry_put[OF ok(1), of 2 4 4] fat_entry_put[OF ok(1), of 2 2 4] by (simp_all add: tiny_disk0_simps tiny_disk_def)
  then have "ft.chain tiny_disk [2, 4]" by (simp add: ft_data gd tiny_disk0_simps)
  then show c: "fat_chain tiny_disk [2, 4]" using fat_chain_eq[OF ok(2)] by blast
  show s: "node_sectors tiny_disk [2, 4] = 4" by (simp add: node_sectors_def gd tiny_disk0_simps)
  show n: "node_entries tiny_disk [2, 4] = 8"
    by (simp add: node_entries_def s entries_per_block_def gd tiny_disk0_simps)
  show "dir_ok tiny_disk 2 [2, 4]" using v c n by (simp add: dir_ok_def node_layout_def)
  show "dir_ok tiny_disk 1 []"
    using v by (simp add: dir_ok_def node_layout_def node_entries_def node_sectors_def entries_per_block_def gd tiny_disk0_simps)
qed

theorem csi_to_block_injective_witness:
  "csi_to_block tiny_disk \<lparr>csi_cluster = 4, csi_sector = 1\<rparr> \<in> {int (fat_end tiny_disk)..<int (vol_end tiny_disk)}"
proof -
  have "validate_cs tiny_disk 4 1 = 0"
    by (simp add: validate_cs_def IS_FIXED_ROOT_def IS_DATA_CLUSTER_def geometryD[OF tiny_disk_ok(1)] tiny_disk0_simps)
  then show ?thesis using csi_to_block_injective[OF tiny_disk_ok(2), of 4 1 4 1] by simp
qed

theorem iter_csi_moves_witness:
  "iter_csi tiny_disk (node_csi tiny_disk [2, 4] 1) 2 = (0, node_csi tiny_disk [2, 4] 3)"
proof -
  have "node_layout tiny_disk 2 [2, 4]" using tiny_disk_ok(4) by (simp add: dir_ok_def)
  from iter_csi_moves[OF tiny_disk_ok(2) this, of 1 2] show ?thesis
    by (simp add: tiny_disk_ok(6) numeral_3_eq_3)
qed

theorem diri_visits_all_entries_witness:
  "\<forall>d0. \<exists>d. diri_init tiny_disk 2 0 d0 = (Some (node_ptr tiny_disk [2, 4] 0), d)"
  using diri_visits_all_entries[OF tiny_disk_ok(4)] tiny_disk_ok(7) by fastforce

theorem csi_write_read_blocks_witness:
  "\<exists>n vol' csi'. 0 < n \<and> csi_read_blocks vol' (node_csi tiny_disk [2, 4] 0) (replicate 200 0) 200
     = (int n, vol', csi', take n (replicate 200 7) @ drop n (replicate 200 0))"
proof -
  have "node_layout tiny_disk 2 [2, 4]" using tiny_disk_ok(4) by (simp add: dir_ok_def)
  moreover have "bytes_per_sector tiny_disk = 64" by (simp add: geometryD[OF tiny_disk_ok(1)] tiny_disk0_simps)
  ultimately have "\<exists>n vol' csi'. csi_write_blocks tiny_disk (node_csi tiny_disk [2, 4] 0) (replicate 200 7) 200 = (int n, vol', csi')
      \<and> 0 < n \<and> csi_read_blocks vol' (node_csi tiny_disk [2, 4] 0) (replicate 200 0) 200
        = (int n, vol', csi', take n (replicate 200 7) @ drop n (replicate 200 0))"
    using csi_write_read_blocks[OF tiny_disk_ok(2), of 2 "[2, 4]" 0 "replicate 200 7" "replicate 200 0", unfolded length_replicate]
    by (simp add: tiny_disk_ok(6)) blast
  then show ?thesis by blast
qed

end
