(* ===== verification/Node_Entry.thy ===== *)
theory Node_Entry
  imports Dos_Util Iter
begin

text \<open>
  Writing a vnode back to its directory entry (\<^verbatim>\<open>write_vnode_entry\<close> of \<^verbatim>\<open>fat/file.c\<close>) and changing the length of
  a cluster chain (\<^verbatim>\<open>set_fat_chain_length\<close> of \<^verbatim>\<open>fat/fat.c\<close>), which calls it.

  What the add-on takes from outside is the record \<open>env\<close>: the time zone offset and the clock, how often the retry loop around
  \<^verbatim>\<open>vcache_set_entry\<close> finds no memory, whether the block cache can be created and other allocations succeed, and the interface of
  \<^verbatim>\<open>encodings.h\<close>, the conversions of names, which the theory \<open>Encodings\<close> implements. Names are lists of bytes without the terminator. Node monitor
  notifications are left out.
\<close>

section \<open>Definitions\<close>

type_synonym name = block

record env =
  env_tz :: int
  env_time :: int
  env_retries :: nat
  env_mem :: bool
  env_block_cache :: bool
  env_vnid_mem :: vnid_malloc
  unicode_to_utf8 :: "block \<Rightarrow> nat \<Rightarrow> nat \<Rightarrow> status_t \<times> name"
  msdos_to_utf8 :: "block \<Rightarrow> nat \<Rightarrow> bool \<Rightarrow> name"
  utf8_to_unicode :: "name \<Rightarrow> nat \<Rightarrow> status_t \<times> block"
  generate_short_name :: "name \<Rightarrow> block \<Rightarrow> nat \<Rightarrow> status_t \<times> block \<times> int"
  requires_long_name :: "name \<Rightarrow> block \<Rightarrow> bool"
  requires_munged_short_name :: "name \<Rightarrow> block \<Rightarrow> int \<Rightarrow> bool"
  munge_short_name1 :: "block \<Rightarrow> int \<Rightarrow> int \<Rightarrow> block"
  munge_short_name2 :: "nat \<Rightarrow> block \<Rightarrow> int \<Rightarrow> block"

definition VNODE_PARENT_DIR_CLUSTER :: "vnode \<Rightarrow> nat" where
  "VNODE_PARENT_DIR_CLUSTER node = CLUSTER_OF_DIR_CLUSTER_VNID (vn_dir_vnid node)"

text \<open>The fields of an entry behind the name: attributes, time, first cluster and size.\<close>

definition put_entry_fields :: "nspace \<Rightarrow> nat \<Rightarrow> nat \<Rightarrow> nat \<Rightarrow> nat \<Rightarrow> block \<Rightarrow> block" where
  "put_entry_fields vol mode time cluster sz e =
     (let e = e[0x0b := word_of_nat mode];
          e = memset_at e 0xc 0 (0x16 - 0xc);
          e = write32 e 0x16 time;
          e = write16 e 0x1a cluster;
          e = (if fat_bits vol = 32 then write16 e 0x14 (cluster div 65536) else e)
      in write32 e 0x1c sz)"

definition write_vnode_entry :: "env \<Rightarrow> nspace \<Rightarrow> vnode \<Rightarrow> status_t \<times> nspace" where
  "write_vnode_entry env vol node =
     (if vn_cluster node \<noteq> 0 \<and> \<not> IS_DATA_CLUSTER vol (int (vn_cluster node)) then (EINVAL, vol)
      else case diri_init vol (VNODE_PARENT_DIR_CLUSTER node) (vn_eindex node)
                  \<lparr>diri_csi = \<lparr>csi_cluster = 0, csi_sector = 0\<rparr>, starting_cluster = 0, current_index = 0, current_block = None\<rparr> of
             (None, diri) \<Rightarrow> (ENOENT, vol)
           | (Some buffer, diri) \<Rightarrow>
               (B_OK, entry_store vol buffer
                  (put_entry_fields vol (vn_mode node) (time_t2dos (env_tz env) (vn_st_time node)) (vn_cluster node)
                     (if vn_mode node AND FAT_SUBDIR \<noteq> 0 then 0 else u32_of_int (vn_st_size node))
                     (entry_data vol buffer))))"

text \<open>The loop that repeats \<^verbatim>\<open>vcache_set_entry\<close> until memory is freed up: \<open>k\<close> attempts find none.\<close>

fun vcache_set_retry :: "nat \<Rightarrow> vcache \<Rightarrow> ino_t \<Rightarrow> ino_t \<Rightarrow> status_t \<times> vcache" where
  "vcache_set_retry 0 vc vnid loc = vcache_set_entry True vc vnid loc"
| "vcache_set_retry (Suc k) vc vnid loc =
     (case vcache_set_entry False vc vnid loc of (result, vc) \<Rightarrow>
        if result \<noteq> B_OK then vcache_set_retry k vc vnid loc else (result, vc))"

definition vol_set_entry :: "env \<Rightarrow> nspace \<Rightarrow> ino_t \<Rightarrow> ino_t \<Rightarrow> status_t \<times> nspace" where
  "vol_set_entry env vol vnid loc =
     (case vcache_set_retry (env_retries env) (vol_vcache vol) vnid loc of (result, vc) \<Rightarrow> (result, vol\<lparr>vol_vcache := vc\<rparr>))"

text \<open>The loop that walks along the chain, \<open>k\<close> rounds left: where it stops, the entry there, and whether it made all rounds.\<close>

fun chain_walk :: "nspace \<Rightarrow> nat \<Rightarrow> int \<Rightarrow> int \<Rightarrow> int \<times> int \<times> bool" where
  "chain_walk vol 0 c n = (c, n, True)"
| "chain_walk vol (Suc k) c n =
     (if \<not> IS_DATA_CLUSTER vol n then (c, n, False)
      else chain_walk vol k n (get_fat_entry vol (u32_of_int n)))"

text \<open>The number of clusters that \<open>sz\<close> bytes take. The sum is an \<^verbatim>\<open>off_t\<close>, its divisions truncate.\<close>

definition size_clusters :: "nspace \<Rightarrow> int \<Rightarrow> int" where
  "size_clusters vol sz =
     ((sz + int (u32 (bytes_per_sector vol * sectors_per_cluster vol)) - 1) sdiv int (bytes_per_sector vol))
       sdiv int (sectors_per_cluster vol)"

definition set_fat_chain_length :: "env \<Rightarrow> nspace \<Rightarrow> vnode \<Rightarrow> nat \<Rightarrow> status_t \<times> nspace \<times> vnode" where
  "set_fat_chain_length env vol node clusters =
     (if IS_FIXED_ROOT (vn_cluster node) \<or> \<not> IS_DATA_CLUSTER vol (int (vn_cluster node)) \<and> vn_cluster node \<noteq> 0
      then (B_BAD_VALUE, vol, node)
      else if clusters = 0 then
        if vn_cluster node = 0 then (B_OK, vol, node)
        else case clear_fat_chain vol (vn_cluster node) of (result, vol) \<Rightarrow>
               if result \<noteq> B_OK then (result, vol, node)
               else
                 let node = node\<lparr>vn_cluster := 0, vn_end_cluster := 0\<rparr>;
                     (result, vol) = vol_set_entry env vol (vn_vnid node)
                        (GENERATE_DIR_INDEX_VNID (vn_dir_vnid node) (vn_sindex node));
                     vol = snd (write_vnode_entry env vol node)
                 in (result, vol, node)
      else if vn_cluster node = 0 then
        case allocate_n_fat_entries vol (s32 (int clusters)) of (result, n, vol) \<Rightarrow>
          if result \<noteq> B_OK then (result, vol, node)
          else
            let node = node\<lparr>vn_cluster := n,
                            vn_end_cluster := u32_of_int (get_nth_fat_entry vol (s32 (int n)) (clusters - 1))\<rparr>;
                (result, vol) = vol_set_entry env vol (vn_vnid node)
                   (GENERATE_DIR_CLUSTER_VNID (vn_dir_vnid node) (vn_cluster node));
                vol = snd (write_vnode_entry env vol node)
            in (result, vol, node)
      else
        let i = u32_of_int (size_clusters vol (vn_st_size node))
        in if i = clusters then (B_OK, vol, node)
           else if clusters > i then
             case allocate_n_fat_entries vol (s32 (int (clusters - i))) of (result, n, vol) \<Rightarrow>
               if result \<noteq> B_OK then (result, vol, node)
               else case set_fat_entry vol (vn_end_cluster node) (s32 (int n)) of (result, vol) \<Rightarrow>
                      if result < B_OK then (result, snd (clear_fat_chain vol n), node)
                      else (result, vol, node\<lparr>vn_end_cluster :=
                             u32_of_int (get_nth_fat_entry vol (s32 (int n)) (clusters - i - 1))\<rparr>)
           else
             case chain_walk vol (clusters - 1) (s32 (int (vn_cluster node))) (get_fat_entry vol (vn_cluster node)) of (c, n, all) \<Rightarrow>
               if all \<and> n = END_FAT_ENTRY then (B_OK, vol, node)
               else if n < 0 then (n, vol, node)
               else if n \<noteq> END_FAT_ENTRY \<and> \<not> IS_DATA_CLUSTER vol n then (B_BAD_VALUE, vol, node)
               else case set_fat_entry vol (u32_of_int c) 0x0fffffff of (result, vol) \<Rightarrow>
                      if result \<noteq> B_OK then (result, vol, node)
                      else case clear_fat_chain vol (u32_of_int n) of (result, vol) \<Rightarrow>
                             (result, vol, node\<lparr>vn_end_cluster := u32_of_int c\<rparr>))"


section \<open>Theorems\<close>

subsection \<open>Pointers into directories\<close>

text \<open>A pointer that an iterator gives, whatever the table and the arguments, is behind the tables and has room for an entry.\<close>

definition ptr_ok :: "nspace \<Rightarrow> ptr \<Rightarrow> bool" where
  "ptr_ok vol p \<longleftrightarrow> fat_end vol \<le> fst p \<and> fst p < vol_end vol \<and> snd p + 0x20 \<le> bytes_per_sector vol"

definition diri_ok :: "nspace \<Rightarrow> diri \<Rightarrow> bool" where
  "diri_ok vol d \<longleftrightarrow> csi_cluster (diri_csi d) < 2 ^ 32
     \<and> (\<forall>bn. current_block d = Some bn \<longrightarrow> fat_end vol \<le> bn \<and> bn < vol_end vol)"

lemma csi_get_block_range:
  assumes "vol_ok vol" "csi_get_block vol csi = Some bn" "csi_cluster csi < 2 ^ 32"
  shows "fat_end vol \<le> bn \<and> bn < vol_end vol"
proof -
  obtain c s where csi: "csi = \<lparr>csi_cluster = c, csi_sector = s\<rparr>" by (cases csi) auto
  have v: "validate_cs vol c s = 0" and b: "bn = nat (csi_to_block vol csi)"
    using assms(2) by (auto simp: csi csi_get_block_def block_cache_get_def split: if_splits)
  show ?thesis using valid_block(1)[OF assms(1) v] assms(3) b by (auto simp: csi)
qed

lemma entry_offset:
  assumes "vol_ok vol"
  shows "(i mod entries_per_block vol) * 0x20 + 0x20 \<le> bytes_per_sector vol"
proof -
  have "Suc (i mod entries_per_block vol) \<le> entries_per_block vol" using vol_okD(4)[OF assms] by (simp add: Suc_leI)
  then have "Suc (i mod entries_per_block vol) * 0x20 \<le> entries_per_block vol * 0x20" by (rule mult_right_mono) simp
  then show ?thesis using vol_okD(5)[OF assms] by simp
qed

lemma iter_csi_cluster: "csi_cluster csi < 2 ^ 32 \<Longrightarrow> csi_cluster (snd (iter_csi vol csi n)) < 2 ^ 32"
  by (auto simp: iter_csi_def Let_def u32_of_int_def nat_less_iff)

lemma diri_init_safe:
  assumes "vol_ok vol" "diri_init vol cluster i d = (r, d')"
  shows "(case r of None \<Rightarrow> current_block d' = None | Some p \<Rightarrow> ptr_ok vol p \<and> diri_ok vol d' \<and> current_block d' \<noteq> None)"
proof -
  let ?c0 = "\<lparr>csi_cluster = cluster, csi_sector = 0\<rparr>"
  define it where "it = (if entries_per_block vol \<le> i then iter_csi vol ?c0 (s32 (int (i div entries_per_block vol))) else (0, ?c0))"
  have c32: "csi_cluster (snd it) < 2 ^ 32" if "cluster < 2 ^ 32"
    using iter_csi_cluster[of ?c0 vol] that by (auto simp: it_def)
  show ?thesis
  proof (cases "cluster < u32 (total_clusters vol + 2) \<and> validate_cs vol cluster 0 = 0 \<and> fst it = 0 \<and> csi_get_block vol (snd it) \<noteq> None")
    case True
    then obtain bn where bn: "csi_get_block vol (snd it) = Some bn" by blast
    have "cluster < 2 ^ 32" using True u32_less[of "total_clusters vol + 2"] by linarith
    note rng = csi_get_block_range[OF assms(1) bn c32[OF this]]
    define d1 where "d1 = d\<lparr>current_block := Some bn, diri_csi := snd it, starting_cluster := cluster, current_index := i\<rparr>"
    have "diri_init vol cluster i d = (Some (diri_entry vol d1 bn), d1)"
      using True bn unfolding diri_init_def Let_def init_csi_def d1_def it_def
      by (cases "entries_per_block vol \<le> i") (simp_all add: split_beta diri_entry_def)
    then show ?thesis
      using assms(2) rng entry_offset[OF assms(1), of i] c32[OF \<open>cluster < 2 ^ 32\<close>]
      by (auto simp: ptr_ok_def diri_ok_def diri_entry_def d1_def)
  next
    case False
    then have "fst (diri_init vol cluster i d) = None \<and> current_block (snd (diri_init vol cluster i d)) = None"
      unfolding diri_init_def Let_def init_csi_def it_def
      by (cases "entries_per_block vol \<le> i") (auto simp: split_beta split: option.splits)
    then show ?thesis using assms(2) by auto
  qed
qed

lemma diri_next_safe:
  assumes "vol_ok vol" "diri_ok vol d" "diri_next_entry vol d = (r, d')"
  shows "diri_ok vol d' \<and> (case r of None \<Rightarrow> current_block d' = None | Some p \<Rightarrow> ptr_ok vol p \<and> current_block d' \<noteq> None)"
proof (cases "current_block d")
  case None
  then show ?thesis using assms by (auto simp: diri_next_entry_def)
next
  case (Some bn)
  let ?i = "u32 (current_index d + 1)" and ?it = "iter_csi vol (diri_csi d) 1"
  have bn: "fat_end vol \<le> bn" "bn < vol_end vol" and c: "csi_cluster (diri_csi d) < 2 ^ 32"
    using assms(2) Some by (auto simp: diri_ok_def)
  note c' = iter_csi_cluster[OF c, of vol 1] and off = entry_offset[OF assms(1), of ?i]
  show ?thesis
  proof (cases "?i mod entries_per_block vol = 0")
    case False
    then show ?thesis
      using assms(3) Some bn c off by (auto simp: diri_next_entry_def Let_def diri_ok_def ptr_ok_def diri_entry_def)
  next
    case True
    show ?thesis
    proof (cases "fst ?it = 0 \<and> csi_get_block vol (snd ?it) \<noteq> None")
      case t: True
      then obtain bn' where bn': "csi_get_block vol (snd ?it) = Some bn'" by blast
      note rng = csi_get_block_range[OF assms(1) bn' c']
      show ?thesis
        using assms(3) Some True t bn' rng c' off
        by (auto simp: diri_next_entry_def Let_def diri_ok_def ptr_ok_def diri_entry_def split_beta diri_release_current_block_def)
    next
      case f: False
      then show ?thesis
        using assms(3) Some True c'
        by (auto simp: diri_next_entry_def Let_def diri_ok_def split_beta diri_release_current_block_def split: if_splits option.splits)
    qed
  qed
qed

text \<open>Storing an entry behind such a pointer.\<close>

lemma entry_store_kept:
  assumes "vol_ok vol" "ptr_ok vol p" "length e = 0x20"
  shows "fat_kept vol (entry_store vol p e)"
    "entry_store vol p e = vol\<lparr>fBlockCache := fBlockCache (entry_store vol p e)\<rparr>"
    "bn \<noteq> fst p \<Longrightarrow> fBlockCache (entry_store vol p e) bn = fBlockCache vol bn"
proof -
  have p: "fat_end vol \<le> fst p" "fst p < vol_end vol" "snd p + 0x20 \<le> bytes_per_sector vol"
    using assms(2) by (auto simp: ptr_ok_def)
  obtain b where b: "fBlockCache vol (fst p) = Some b"
    using vol_ok_block(1)[OF assms(1) p(1,2)] by (auto simp: block_cache_get_def split: if_splits)
  have "length (memcpy_at (block_data vol (fst p)) (snd p) e) = length b"
    using vol_ok_block(2)[OF assms(1) p(1,2)] b p(3) assms(3) by (simp add: block_data_def)
  then show "fat_kept vol (entry_store vol p e)" using fat_kept_store[OF p(1) b] by (simp add: entry_store_def)
  show "entry_store vol p e = vol\<lparr>fBlockCache := fBlockCache (entry_store vol p e)\<rparr>"
    "bn \<noteq> fst p \<Longrightarrow> fBlockCache (entry_store vol p e) bn = fBlockCache vol bn"
    by (simp_all add: entry_store_def block_store_def)
qed

lemma entry_data_length: "vol_ok vol \<Longrightarrow> ptr_ok vol p \<Longrightarrow> length (entry_data vol p) = 0x20"
  using vol_ok_block(2)[of vol "fst p"] by (auto simp: ptr_ok_def entry_data_def)

lemma length_put_entry_fields [simp]: "length e = 0x20 \<Longrightarrow> length (put_entry_fields vol mode time cluster sz e) = 0x20"
  by (simp add: put_entry_fields_def Let_def)

lemma write_vnode_entry_kept:
  assumes "vol_ok vol"
  shows "fat_kept vol (snd (write_vnode_entry env vol node))"
    "snd (write_vnode_entry env vol node) = vol\<lparr>fBlockCache := fBlockCache (snd (write_vnode_entry env vol node))\<rparr>"
proof -
  have "fat_kept vol (snd (write_vnode_entry env vol node))
    \<and> snd (write_vnode_entry env vol node) = vol\<lparr>fBlockCache := fBlockCache (snd (write_vnode_entry env vol node))\<rparr>"
    unfolding write_vnode_entry_def
    using diri_init_safe[OF assms] entry_store_kept(1,2)[OF assms] entry_data_length[OF assms]
    by (fastforce split: prod.split option.split)
  then show "fat_kept vol (snd (write_vnode_entry env vol node))"
    "snd (write_vnode_entry env vol node) = vol\<lparr>fBlockCache := fBlockCache (snd (write_vnode_entry env vol node))\<rparr>" by blast+
qed


text \<open>The entries of a directory under a store.\<close>

lemma node_ptr_ok:
  assumes "dir_ok vol cluster cs" "i < node_entries vol cs"
  shows "ptr_ok vol (node_ptr vol cs i)"
  using node_block_bounds[OF dir_okD(1,2)[OF assms(1)], of "i div entries_per_block vol"] dir_okD(5)[OF assms(1)] assms(2)
    entry_offset[OF dir_okD(1)[OF assms(1)], of i] by (simp add: ptr_ok_def node_ptr_def)

lemma entry_data_store:
  assumes "vol_ok vol" "ptr_ok vol p" "ptr_ok vol q" "length e = 0x20" "snd p mod 0x20 = 0" "snd q mod 0x20 = 0"
  shows "entry_data (entry_store vol p e) q = (if q = p then e else entry_data vol q)"
proof (cases "fst q = fst p")
  case False
  then show ?thesis by (auto simp: entry_data_def entry_store_def)
next
  case True
  let ?b = "block_data vol (fst p)"
  have len: "length ?b = bytes_per_sector vol" using vol_ok_block(2)[OF assms(1)] assms(2) by (simp add: ptr_ok_def)
  have p: "snd p + 0x20 \<le> length ?b" and q: "snd q + 0x20 \<le> length ?b" using assms(2,3) len by (simp_all add: ptr_ok_def)
  have eq: "entry_data (entry_store vol p e) q = take 0x20 (drop (snd q) (memcpy_at ?b (snd p) e))"
    using True by (simp add: entry_data_def entry_store_def)
  show ?thesis
  proof (cases "snd q = snd p")
    case t: True
    then show ?thesis using eq p assms(4) True by (simp add: memcpy_at_def prod_eq_iff)
  next
    case f: False
    then have sep: "snd q + 0x20 \<le> snd p \<or> snd p + 0x20 \<le> snd q"
      using assms(5,6) by presburger
    have "take 0x20 (drop (snd q) (memcpy_at ?b (snd p) e)) = take 0x20 (drop (snd q) ?b)"
      using sep p q assms(4) by (intro nth_equalityI) (auto simp: nth_memcpy_at)
    then show ?thesis using eq f True by (auto simp: entry_data_def)
  qed
qed

lemma dir_entry_store:
  assumes "dir_ok vol cluster cs" "i < node_entries vol cs" "j < node_entries vol cs" "length e = 0x20"
  shows "dir_entry (entry_store vol (node_ptr vol cs i) e) cs j = (if j = i then e else dir_entry vol cs j)"
proof -
  let ?w = "entry_store vol (node_ptr vol cs i) e"
  note ok = dir_okD(1)[OF assms(1)] and pi = node_ptr_ok[OF assms(1,2)] and pj = node_ptr_ok[OF assms(1,3)]
  have "node_ptr ?w = node_ptr vol"
    by (rule geometry_ext(10)[OF fat_kept_geometry[OF entry_store_kept(1)[OF ok pi assms(4)]]])
  moreover have "node_ptr vol cs j = node_ptr vol cs i \<longleftrightarrow> j = i"
    using node_ptr_inj[OF assms(1)] assms(2,3) by (auto simp: inj_on_def)
  moreover have "snd (node_ptr vol cs k) mod 0x20 = 0" for k by (simp add: node_ptr_def)
  ultimately show ?thesis
    using entry_data_store[OF ok pi pj assms(4)] by (simp add: dir_entry_def)
qed

text \<open>Repeating \<^verbatim>\<open>vcache_set_entry\<close> until there is memory moves the vnode id.\<close>

lemma relocate_after_del:
  assumes "vcache_ok vc" "vmap vc v = Some l'" "v \<noteq> l"
  shows "vc.relocate (vcache_del vc v) v l = vc.relocate vc v l"
  using vc.del[OF assms(1,2)] assms(2,3) by (simp add: vc.relocate_def)

lemma vcache_set_retry_relocate:
  "vcache_ok vc \<Longrightarrow> vcache_set_retry k vc v l = (B_OK, vc.relocate vc v l)"
proof (induction k arbitrary: vc)
  case (Suc k)
  show ?case
  proof (cases "v = l")
    case True
    then show ?thesis using Suc.prems set_entry_back[OF Suc.prems, of False v] by (simp add: vcache_set_entry_relocate)
  next
    case False
    show ?thesis
    proof (cases "vmap vc v")
      case None
      then show ?thesis using Suc False set_entry_no_memory_fresh[OF None, of l] by (simp add: errno_defs)
    next
      case (Some l')
      have "vcache_ok (vcache_del vc v)" using vc.del[OF Suc.prems Some] by blast
      from Suc.IH[OF this] show ?thesis
        using set_entry_no_memory[OF Suc.prems Some False] relocate_after_del[OF Suc.prems Some False] by (simp add: errno_defs)
    qed
  qed
qed (simp add: vcache_set_entry_relocate)

lemma fat_kept_vcache: "fat_kept vol (vol\<lparr>vol_vcache := vc\<rparr>)"
  by (simp add: fat_kept_def geometry_def)

subsection \<open>Changing the length of a chain\<close>

text \<open>The vnode \<open>node\<close> has the clusters \<open>cs\<close>.\<close>

definition node_clusters :: "nspace \<Rightarrow> vnode \<Rightarrow> nat list \<Rightarrow> bool" where
  "node_clusters vol node cs \<longleftrightarrow>
     (if cs = [] then vn_cluster node = 0 \<and> vn_end_cluster node = 0
      else fat_chain vol cs \<and> vn_cluster node = hd cs \<and> vn_end_cluster node = last cs)"

text \<open>What a change of the table from \<open>vol\<close> to \<open>vol'\<close> does when a node's clusters go from \<open>cs\<close> to \<open>cs'\<close>.\<close>

definition resized :: "nspace \<Rightarrow> nspace \<Rightarrow> nat list \<Rightarrow> nat list \<Rightarrow> bool" where
  "resized vol vol' cs cs' \<longleftrightarrow> vol_ok vol' \<and> geometry vol' = geometry vol
     \<and> (\<forall>c \<in> set cs' - set cs. get_fat_entry vol c = 0)
     \<and> (\<forall>c \<in> set cs - set cs'. get_fat_entry vol' c = 0)
     \<and> (\<forall>c. 2 \<le> c \<and> c < total_clusters vol + 2 \<and> c \<notin> set cs \<and> c \<notin> set cs' \<longrightarrow> get_fat_entry vol' c = get_fat_entry vol c)
     \<and> (fat_mirrored vol \<longrightarrow> fats_mirrored vol \<longrightarrow> fats_mirrored vol')
     \<and> free_clusters vol' = u32_of_int (int (free_clusters vol) + int (length cs) - int (length cs'))"

end
