(* ===== verification/Chain_Length.thy ===== *)
theory Chain_Length
  imports Node_Entry
begin

text \<open>
  \<^verbatim>\<open>set_fat_chain_length\<close>: the chain of a node gets the wanted number of clusters, by dropping clusters at the end or
  by linking newly allocated ones to it, or stays as it is when there are too few free clusters.
\<close>

section \<open>Lemmas\<close>

lemma fat_kept_mirrored:
  assumes "fat_kept vol vol'" "fat_ok vol"
  shows "fats_mirrored vol' \<longleftrightarrow> fats_mirrored vol"
proof -
  note g = geometryD[OF fat_kept_geometry[OF assms(1)]] and ge = geometry_ext[OF fat_kept_geometry[OF assms(1)]]
  have lt: "reserved_sectors vol + i * sectors_per_fat vol + s < fat_end vol" if "i < fat_count vol" "s < sectors_per_fat vol" for i s
  proof -
    have "Suc i * sectors_per_fat vol \<le> fat_count vol * sectors_per_fat vol" using that(1) by (intro mult_right_mono) simp_all
    then show ?thesis using that(2) by (simp add: fat_end_def)
  qed
  have e: "fBlockCache vol' bn = fBlockCache vol bn" if "bn < fat_end vol" for bn
    using assms(1) that by (simp add: fat_kept_def)
  have a: "fBlockCache vol' (fat_start vol + s) = fBlockCache vol (fat_start vol + s)" if "s < sectors_per_fat vol" for s
    using e[OF lt[OF fat_okD(7)[OF assms(2)] that]] by (simp add: fat_start_def)
  show ?thesis unfolding fats_mirrored_def g ge using e lt a by auto
qed

text \<open>What follows a change of the table: moving the vnode id and writing the entry do not touch it.\<close>

lemma finish_kept:
  assumes "vol_ok vol" "vcache_ok (vol_vcache vol)"
  obtains vol' where "vol_set_entry env vol vnid loc = (B_OK, vol')" "fat_kept vol (snd (write_vnode_entry env vol' node))"
    "free_clusters (snd (write_vnode_entry env vol' node)) = free_clusters vol"
    "last_allocated (snd (write_vnode_entry env vol' node)) = last_allocated vol"
proof -
  let ?v = "vol\<lparr>vol_vcache := vc.relocate (vol_vcache vol) vnid loc\<rparr>"
  have v: "vol_set_entry env vol vnid loc = (B_OK, ?v)"
    by (simp add: vol_set_entry_def vcache_set_retry_relocate[OF assms(2)])
  have ok: "vol_ok ?v" using fat_kept_ok(2)[OF fat_kept_vcache] assms(1) by blast
  note w = write_vnode_entry_kept[OF ok, of env node]
  have "free_clusters (snd (write_vnode_entry env ?v node)) = free_clusters vol"
    "last_allocated (snd (write_vnode_entry env ?v node)) = last_allocated vol"
    by (subst w(2), simp)+
  with v fat_kept_trans[OF fat_kept_vcache w(1)] show thesis by (rule that)
qed

lemma resized_kept:
  assumes "resized vol w cs cs'" "fat_kept w vol'" "free_clusters vol' = free_clusters w"
    and d: "\<And>c. c \<in> set cs \<union> set cs' \<Longrightarrow> c < total_clusters vol + 2"
  shows "resized vol vol' cs cs'"
proof -
  have w: "vol_ok w" "geometry w = geometry vol" using assms(1) by (auto simp: resized_def)
  note ok = vol_okD(1)[OF w(1)]
  have e: "get_fat_entry vol' c = get_fat_entry w c" if "c < total_clusters vol + 2" for c
    using fat_kept_get[OF assms(2) ok, of c] that fat_clusters_bound(1)[OF ok] geometryD(7)[OF w(2)] by simp
  show ?thesis
    using assms(1,3) w fat_kept_ok(2)[OF assms(2)] fat_kept_geometry[OF assms(2)] fat_kept_mirrored[OF assms(2) ok] e d
    unfolding resized_def by auto
qed

section \<open>The cases\<close>

lemma chain_bound: "vol_ok vol \<Longrightarrow> fat_chain vol cs \<Longrightarrow> c \<in> set cs \<Longrightarrow> 2 \<le> c \<and> c < total_clusters vol + 2"
  using ft.chain_data[of vol cs c] fat_chain_eq[OF vol_okD(1)] by (simp add: ft_data)

text \<open>Giving up all clusters.\<close>

lemma clear_resized:
  assumes "vol_ok vol" "fat_chain vol (c # cs)"
  shows "\<exists>vol'. clear_fat_chain vol c = (B_OK, vol') \<and> resized vol vol' (c # cs) []
    \<and> fat_same vol vol' \<and> last_allocated vol' = last_allocated vol"
proof -
  note ok = vol_okD(1)[OF assms(1)]
  have ch: "ft.chain vol (c # cs)" using assms(2) fat_chain_eq[OF ok] by blast
  from clear_fat_chain_run[OF ok ch] obtain vol' where v: "clear_fat_chain vol c = (B_OK, vol')" "fat_ok vol'" "fat_same vol vol'"
    "last_allocated vol' = last_allocated vol"
    and ent: "\<And>d. ft.data vol d \<Longrightarrow> fat_entry vol' d = (if d \<in> set (c # cs) then 0 else fat_entry vol d)"
    and fc: "free_clusters vol' = u32 (free_clusters vol + length (c # cs))"
    and mir: "fat_mirrored vol \<longrightarrow> fats_mirrored vol \<longrightarrow> fats_mirrored vol'" by blast
  note tc = fat_sameD(1)[OF v(3)]
  have "get_fat_entry vol' d = (if d \<in> set (c # cs) then 0 else get_fat_entry vol d)" if "2 \<le> d" "d < total_clusters vol + 2" for d
    using ent[of d] that get_fat_entry_eq[OF v(2)] get_fat_entry_eq[OF ok] tc by (simp add: ft_data)
  moreover have "u32 (free_clusters vol + length (c # cs)) = u32_of_int (int (free_clusters vol) + int (length (c # cs)) - int (length []))"
    unfolding u32_of_int_nat[symmetric] by (simp add: algebra_simps)
  ultimately have "resized vol vol' (c # cs) []"
    using fat_same_vol_ok[OF v(3,2) assms(1)] fat_same_geometry[OF v(3)] mir fc chain_bound[OF assms]
    unfolding resized_def by auto
  then show ?thesis using v by blast
qed

text \<open>Cutting a chain behind its first \<open>k\<close> clusters.\<close>

lemma chain_walk_node:
  assumes "vol_ok vol" "fat_chain vol cs"
  shows "i + k < length cs \<Longrightarrow> chain_walk vol k (int (cs ! i)) (get_fat_entry vol (cs ! i))
    = (int (cs ! (i + k)), get_fat_entry vol (cs ! (i + k)), True)"
proof (induction k arbitrary: i)
  case (Suc k)
  have lay: "node_layout vol (hd cs) cs" using assms(2) by (auto simp: node_layout_def)
  have b: "2 \<le> cs ! Suc i" "cs ! Suc i < total_clusters vol + 2"
    using chain_bound[OF assms, of "cs ! Suc i"] Suc.prems by simp_all
  have u: "u32 (cs ! i) = cs ! i"
    using chain_bound[OF assms, of "cs ! i"] Suc.prems data_nat[OF vol_okD(1)[OF assms(1)], of "cs ! i"] by simp
  have "get_nth_fat_entry vol (int (cs ! i)) 1 = int (cs ! Suc i)"
    using get_nth_node[OF assms(1) lay, of i 1] Suc.prems by simp
  moreover have "get_nth_fat_entry vol (int (cs ! i)) 1 = get_fat_entry vol (cs ! i)"
    by (simp add: u Let_def)
  ultimately have e: "get_fat_entry vol (cs ! i) = int (cs ! Suc i)" by simp
  show ?case
    using Suc.IH[of "Suc i"] Suc.prems data_nat[OF vol_okD(1)[OF assms(1)] b] by (simp add: e)
qed simp

lemma chain_next:
  assumes "vol_ok vol" "fat_chain vol cs" "i < length cs"
  shows "get_fat_entry vol (cs ! i) = (if Suc i < length cs then int (cs ! Suc i) else END_FAT_ENTRY)"
proof -
  have lay: "node_layout vol (hd cs) cs" using assms(2) by (auto simp: node_layout_def)
  have u: "u32 (cs ! i) = cs ! i"
    using chain_bound[OF assms(1,2), of "cs ! i"] assms(3) data_nat[OF vol_okD(1)[OF assms(1)], of "cs ! i"] by simp
  have "get_nth_fat_entry vol (int (cs ! i)) 1 = get_fat_entry vol (cs ! i)" by (simp add: u Let_def)
  then show ?thesis using get_nth_node[OF assms(1) lay assms(3), of 1] by simp
qed

text \<open>The prefix of a chain whose last cluster is made the end.\<close>

lemma ft_chain_prefix:
  "ft.chain s (xs @ x # ys) \<Longrightarrow> fat_entry s' x = 0x0fffffff \<Longrightarrow> total_clusters s' = total_clusters s
   \<Longrightarrow> (\<And>c. c \<in> set xs \<Longrightarrow> fat_entry s' c = fat_entry s c) \<Longrightarrow> ft.chain s' (xs @ [x])"
proof (induction xs)
  case Nil
  then show ?case using ft.chain_hd[of s x ys] by (simp add: ft_data)
next
  case (Cons a as)
  have d: "ft.data s a" using ft.chain_hd[of s a "as @ x # ys"] Cons.prems(1) by simp
  show ?case
  proof (cases as)
    case Nil
    then show ?thesis using Cons.prems d ft.chain_hd[of s x ys] by (auto simp: ft_data)
  next
    case (Cons b bs)
    then show ?thesis using local.Cons.IH Cons.prems d by (simp add: ft_data)
  qed
qed


lemma cut_resized:
  assumes ok: "vol_ok vol" and ch: "fat_chain vol cs" and k: "0 < k" "k < length cs"
  shows "\<exists>w vol'. set_fat_entry vol (cs ! (k - 1)) 0x0fffffff = (B_OK, w) \<and> clear_fat_chain w (cs ! k) = (B_OK, vol')
    \<and> resized vol vol' cs (take k cs) \<and> fat_chain vol' (take k cs) \<and> fat_same vol vol' \<and> last_allocated vol' = last_allocated vol"
proof -
  note fok = vol_okD(1)[OF ok]
  define xs x where "xs = take (k - 1) cs" and "x = cs ! (k - 1)"
  obtain y ys where ys: "drop k cs = y # ys" and y: "y = cs ! k" using k(2) by (metis Cons_nth_drop_Suc)
  have tk: "take k cs = xs @ [x]" using k take_Suc_conv_app_nth[of "k - 1" cs] by (simp add: xs_def x_def)
  have cs: "cs = xs @ x # y # ys" using append_take_drop_id[of k cs] unfolding tk ys by simp
  have ft: "ft.chain vol cs" using ch fat_chain_eq[OF fok] by blast
  have dist: "distinct cs" by (rule ft.chain_distinct[OF fok ft])
  have x: "2 \<le> x" "x < total_clusters vol + 2" using chain_bound[OF ok ch, of x] cs by simp_all
  let ?w = "fat_put vol x 0x0fffffff"
  have set: "set_fat_entry vol x 0x0fffffff = (B_OK, ?w)" using set_fat_entry_eq[OF fok x, of "0x0fffffff"] by (simp add: B_OK_def)
  have same: "fat_same vol ?w" and wok: "fat_ok ?w" using fat_same_put[OF fok x(2)] fat_put_ok(1)[OF fok x(2)] by auto
  have went: "fat_entry ?w d = (if d = x then 0x0fffffff else fat_entry vol d)" if "ft.data vol d" for d
    using fat_entry_put[OF fok x, of d "0x0fffffff"] that by (simp add: ft_data)
  have dat: "ft.data vol c" if "c \<in> set cs" for c using ft.chain_data[OF ft that] .
  have wtail: "ft.chain ?w (y # ys)"
  proof (rule ft.chain_cong[of vol])
    show "ft.chain vol (y # ys)" using ft.chain_suffix[of vol "xs @ [x]" "y # ys"] ft unfolding cs by simp
    show "fat_entry ?w c = fat_entry vol c" if "c \<in> set (y # ys)" for c
    proof -
      have "c \<in> set cs" "c \<noteq> x" using that dist unfolding cs by auto
      then show ?thesis using went[OF dat] by simp
    qed
  qed simp
  have whead: "ft.chain ?w (xs @ [x])"
  proof (rule ft_chain_prefix)
    show "ft.chain vol (xs @ x # y # ys)" using ft unfolding cs .
    show "fat_entry ?w x = 0x0fffffff" using went[of x] x by (simp add: ft_data)
    show "fat_entry ?w c = fat_entry vol c" if "c \<in> set xs" for c
    proof -
      have "c \<in> set cs" "c \<noteq> x" using that dist unfolding cs by auto
      then show ?thesis using went[OF dat] by simp
    qed
  qed simp
  have vw: "vol_ok ?w" by (rule fat_same_vol_ok[OF same wok ok])
  obtain vol' where v: "clear_fat_chain ?w y = (B_OK, vol')" "fat_same ?w vol'" "last_allocated vol' = last_allocated ?w"
    and r: "resized ?w vol' (y # ys) []"
    using clear_resized[OF vw, of y ys] wtail fat_chain_eq[OF wok] by blast
  have vok: "vol_ok vol'" using r by (simp add: resized_def)
  have s2: "fat_same vol vol'" by (rule fat_same_trans[OF same v(2)])
  have ge: "get_fat_entry ?w d = (if d = x then END_FAT_ENTRY else get_fat_entry vol d)" if "ft.data vol d" for d
    using went[OF that] that get_fat_entry_eq[OF wok, of d] get_fat_entry_eq[OF fok, of d] by (simp add: ft_data END_FAT_ENTRY_def)
  have ge': "get_fat_entry vol' d = (if d \<in> set (y # ys) then 0 else get_fat_entry ?w d)" if "ft.data vol d" for d
    using r that unfolding resized_def by (auto simp: ft_data)
  have lenk: "length (take k cs) = k" "length cs = k + length (y # ys)"
    using k length_drop[of k cs] unfolding ys by simp_all
  have fc: "free_clusters vol' = u32_of_int (int (free_clusters vol) + int (length cs) - int (length (take k cs)))"
    using r lenk unfolding resized_def by simp
  have mir: "fat_mirrored vol \<longrightarrow> fats_mirrored vol \<longrightarrow> fats_mirrored vol'"
    using fat_put_ok(2)[OF fok x(2)] r unfolding resized_def by simp
  have "ft.chain vol' (xs @ [x])"
  proof (rule ft.chain_cong[OF whead])
    show "total_clusters vol' = total_clusters ?w" using fat_sameD(1)[OF v(2)] .
    show "fat_entry vol' d = fat_entry ?w d" if "d \<in> set (xs @ [x])" for d
    proof -
      have d: "d \<in> set cs" "d \<notin> set (y # ys)" using that dist unfolding cs by auto
      then show ?thesis
        using ge'[OF dat[OF d(1)]] dat[OF d(1)] get_fat_entry_eq[OF vol_okD(1)[OF vok], of d] get_fat_entry_eq[OF wok, of d]
          fat_sameD(1)[OF s2] by (simp add: ft_data)
    qed
  qed
  then have "fat_chain vol' (take k cs)" using fat_chain_eq[OF vol_okD(1)[OF vok]] tk by simp
  moreover have "resized vol vol' cs (take k cs)"
    unfolding resized_def
  proof (intro conjI)
    show "\<forall>c \<in> set cs - set (take k cs). get_fat_entry vol' c = 0"
    proof
      fix c assume c: "c \<in> set cs - set (take k cs)"
      then have "c \<in> set (y # ys)" unfolding tk using cs by auto
      then show "get_fat_entry vol' c = 0" using ge'[OF dat, of c] c by simp
    qed
    show "\<forall>c. 2 \<le> c \<and> c < total_clusters vol + 2 \<and> c \<notin> set cs \<and> c \<notin> set (take k cs) \<longrightarrow> get_fat_entry vol' c = get_fat_entry vol c"
    proof (intro allI impI)
      fix c assume c: "2 \<le> c \<and> c < total_clusters vol + 2 \<and> c \<notin> set cs \<and> c \<notin> set (take k cs)"
      then have "ft.data vol c" "c \<noteq> x" "c \<notin> set (y # ys)" using cs by (auto simp: ft_data)
      then show "get_fat_entry vol' c = get_fat_entry vol c" using ge ge' by simp
    qed
    show "\<forall>c \<in> set (take k cs) - set cs. get_fat_entry vol c = 0" using set_take_subset[of k cs] by blast
  qed (use vok fat_same_geometry[OF s2] mir fc in simp_all)
  ultimately show ?thesis
    using set v s2 unfolding x_def[symmetric] y[symmetric] by auto
qed

text \<open>Linking newly allocated clusters to a chain.\<close>

lemma alloc_resized:
  assumes ok: "vol_ok vol" and hint: "2 \<le> last_allocated vol" "last_allocated vol < total_clusters vol + 2"
    and free: "free_clusters vol < 2 ^ 32" and n: "0 < n" "n \<le> free_count vol"
  shows "\<exists>vol' A. allocate_n_fat_entries vol (int n) = (B_OK, hd A, vol') \<and> length A = n \<and> fat_chain vol' A
    \<and> resized vol vol' [] A \<and> fat_same vol vol' \<and> last_allocated vol' = last A"
proof -
  note fok = vol_okD(1)[OF ok]
  have n1: "1 \<le> n" using n(1) by simp
  from allocate_run[OF fok hint free n1 n(2)] obtain vol' where v:
    "let A = take n (free_order vol) in allocate_n_fat_entries vol (int n) = (B_OK, hd A, vol')
      \<and> fat_ok vol' \<and> fat_same vol vol' \<and> fat_chain vol' A \<and> length A = n \<and> distinct A
      \<and> (\<forall>c \<in> set A. get_fat_entry vol c = 0)
      \<and> (\<forall>c. 2 \<le> c \<and> c < total_clusters vol + 2 \<and> c \<notin> set A \<longrightarrow> get_fat_entry vol' c = get_fat_entry vol c)
      \<and> free_clusters vol' = u32_of_int (int (free_clusters vol) - int n)
      \<and> last_allocated vol' = last A \<and> (fat_mirrored vol \<longrightarrow> fats_mirrored vol \<longrightarrow> fats_mirrored vol')"
    by blast
  define A where "A = take n (free_order vol)"
  note v = v[unfolded Let_def A_def[symmetric]]
  have "vol_ok vol'" using fat_same_vol_ok[OF _ _ ok] v by blast
  then show ?thesis
    using v fat_same_geometry[of vol vol'] by (intro exI[of _ vol'] exI[of _ A]) (auto simp: resized_def)
qed

lemma link_resized:
  assumes ok: "vol_ok vol" and ch: "fat_chain vol cs" and w: "resized vol w [] A" "fat_chain w A" "fat_same vol w"
  shows "\<exists>vol'. set_fat_entry w (last cs) (int (hd A)) = (B_OK, vol') \<and> fat_chain vol' (cs @ A)
    \<and> resized vol vol' cs (cs @ A) \<and> fat_same vol vol' \<and> last_allocated vol' = last_allocated w"
proof -
  note fok = vol_okD(1)[OF ok]
  note W = w(1)[unfolded resized_def]
  have wok: "vol_ok w" using W by blast
  have tc: "total_clusters w = total_clusters vol" using fat_sameD(1)[OF w(3)] .
  note fwok = vol_okD(1)[OF wok]
  obtain xs x where cs: "cs = xs @ [x]" using ch by (metis fat_chain.simps(1) rev_exhaust)
  obtain y ys where A: "A = y # ys" using w(2) by (metis fat_chain.simps(1) neq_Nil_conv)
  have x: "2 \<le> x" "x < total_clusters vol + 2" and y: "2 \<le> y" "y < total_clusters vol + 2"
    using chain_bound[OF ok ch, of x] chain_bound[OF wok w(2), of y] cs A tc by simp_all
  have ne0: "get_fat_entry vol c \<noteq> 0" if c: "c \<in> set cs" for c
  proof -
    obtain i where i: "i < length cs" "c = cs ! i" using c by (auto simp: in_set_conv_nth)
    have "2 \<le> cs ! Suc i" if "Suc i < length cs" using chain_bound[OF ok ch, of "cs ! Suc i"] that by simp
    then show ?thesis using chain_next[OF ok ch i(1)] i(2) by (auto simp: END_FAT_ENTRY_def)
  qed
  have disj: "set cs \<inter> set A = {}" using ne0 W by (metis Diff_empty disjoint_iff list.set(1))
  have went: "get_fat_entry w c = get_fat_entry vol c" if "2 \<le> c" "c < total_clusters vol + 2" "c \<notin> set A" for c
    using W that by (metis empty_iff list.set(1))
  have fw: "fat_entry w c = fat_entry vol c" if "2 \<le> c" "c < total_clusters vol + 2" "c \<notin> set A" for c
    using went[OF that] that get_fat_entry_eq[OF fwok, of c] get_fat_entry_eq[OF fok, of c] tc by simp
  have chw: "ft.chain w cs"
  proof (rule ft.chain_cong[of vol])
    show "ft.chain vol cs" using ch fat_chain_eq[OF fok] by blast
    show "fat_entry w c = fat_entry vol c" if "c \<in> set cs" for c
      using fw[of c] chain_bound[OF ok ch that] disj that by auto
  qed (rule tc)
  let ?v = "fat_put w x y"
  have "u32_of_int (int y) = y" using data_nat[OF fok y] by simp
  then have set: "set_fat_entry w x (int y) = (B_OK, ?v)"
    using set_fat_entry_eq[OF fwok, of x "int y"] x tc by (simp add: B_OK_def)
  have xw: "x < total_clusters w + 2" using x tc by simp
  have same: "fat_same vol ?v" using fat_same_trans[OF w(3) fat_same_put[OF fwok xw]] .
  have fvok: "fat_ok ?v" by (rule fat_put_ok(1)[OF fwok xw])
  have vok: "vol_ok ?v" by (rule fat_same_vol_ok[OF same fvok ok])
  have "ft.chain ?v (xs @ x # y # ys)"
    using ft.chain_append[OF fwok, of xs x y ys] chw w(2) fat_chain_eq[OF fwok] disj cs A by auto
  then have chain: "fat_chain ?v (cs @ A)" using fat_chain_eq[OF fvok] cs A by simp
  have vent: "get_fat_entry ?v c = get_fat_entry vol c" if "2 \<le> c" "c < total_clusters vol + 2" "c \<notin> set cs" "c \<notin> set A" for c
  proof -
    have "c \<noteq> x" using that(3) cs by auto
    then have "fat_entry ?v c = fat_entry vol c"
      using fat_entry_put[OF fwok, of x c y] that(1,2) x y tc fw[OF that(1,2,4)] by simp
    then show ?thesis using that(1,2) tc get_fat_entry_eq[OF fvok, of c] get_fat_entry_eq[OF fok, of c] by simp
  qed
  have mir: "fat_mirrored vol \<longrightarrow> fats_mirrored vol \<longrightarrow> fats_mirrored ?v"
    using W fat_put_ok(2)[OF fwok xw] fat_sameD(9)[OF w(3)] by metis
  have fc: "free_clusters ?v = u32_of_int (int (free_clusters vol) + int (length cs) - int (length (cs @ A)))"
    using W by simp
  have "resized vol ?v cs (cs @ A)"
    unfolding resized_def
  proof (intro conjI)
    show "\<forall>c \<in> set (cs @ A) - set cs. get_fat_entry vol c = 0" using W by auto
    show "\<forall>c. 2 \<le> c \<and> c < total_clusters vol + 2 \<and> c \<notin> set cs \<and> c \<notin> set (cs @ A) \<longrightarrow> get_fat_entry ?v c = get_fat_entry vol c"
      using vent by simp
    show "\<forall>c \<in> set cs - set (cs @ A). get_fat_entry ?v c = 0" by auto
  qed (use vok fat_same_geometry[OF same] mir fc in simp_all)
  then show ?thesis using set chain same by (auto simp: cs A)
qed


lemma resized_end:
  assumes "vol_ok vol" "fat_chain vol A"
  shows "u32_of_int (get_nth_fat_entry vol (s32 (int (hd A))) (length A - 1)) = last A" "s32 (int (hd A)) = int (hd A)"
    "u32 (last A) = last A" "u32 (hd A) = hd A" "hd A \<noteq> 0"
proof -
  have ne: "A \<noteq> []" using assms(2) by auto
  have lay: "node_layout vol (hd A) A" using assms(2) ne by (simp add: node_layout_def)
  have b: "hd A < total_clusters vol + 2" "2 \<le> hd A" "2 \<le> last A" "last A < total_clusters vol + 2"
    using chain_bound[OF assms] ne by simp_all
  show u: "u32 (last A) = last A" "u32 (hd A) = hd A" using b data_nat[OF vol_okD(1)[OF assms(1)]] by simp_all
  show s: "s32 (int (hd A)) = int (hd A)" "hd A \<noteq> 0" using b fat_clusters_bound(2)[OF vol_okD(1)[OF assms(1)]] by simp_all
  have "get_nth_fat_entry vol (int (A ! 0)) (length A - 1) = int (A ! (length A - 1))"
    using get_nth_node[OF assms(1) lay, of 0 "length A - 1"] ne by simp
  then show "u32_of_int (get_nth_fat_entry vol (s32 (int (hd A))) (length A - 1)) = last A"
    unfolding s(1) using ne u(1) by (simp add: hd_conv_nth last_conv_nth)
qed

text \<open>The four ways a length changes.\<close>

definition resize_ok :: "env \<Rightarrow> nspace \<Rightarrow> vnode \<Rightarrow> nat list \<Rightarrow> nat \<Rightarrow> bool" where
  "resize_ok env vol node cs clusters \<longleftrightarrow> (\<exists>vol' node' cs'.
     set_fat_chain_length env vol node clusters = (B_OK, vol', node')
     \<and> length cs' = clusters \<and> (\<exists>rest. cs = cs' @ rest \<or> cs' = cs @ rest)
     \<and> node_clusters vol' node' cs' \<and> resized vol vol' cs cs')"

lemma resize_okI:
  assumes "set_fat_chain_length env vol node clusters = (B_OK, vol', node')" "length cs' = clusters"
    "cs = cs' @ rest \<or> cs' = cs @ rest" "node_clusters vol' node' cs'" "resized vol vol' cs cs'"
  shows "resize_ok env vol node cs clusters"
  unfolding resize_ok_def using assms by blast

lemma resized_refl: "vol_ok vol \<Longrightarrow> free_clusters vol < 2 ^ 32 \<Longrightarrow> resized vol vol cs cs"
  by (simp add: resized_def)

lemma fat_same_vcache: "fat_same vol w \<Longrightarrow> vol_vcache w = vol_vcache vol"
  unfolding fat_same_def by (cases vol; cases w) simp

lemma node_guard:
  assumes "vol_ok vol" "node_clusters vol node cs"
  shows "\<not> IS_FIXED_ROOT (vn_cluster node)" "IS_DATA_CLUSTER vol (int (vn_cluster node)) \<or> vn_cluster node = 0"
  using assms(2) chain_bound[OF assms(1), of cs "hd cs"] data_nat[OF vol_okD(1)[OF assms(1)], of "hd cs"]
  by (auto simp: node_clusters_def IS_FIXED_ROOT_def split: if_splits)

lemma resize_from_empty:
  assumes "vol_ok vol" "vcache_ok (vol_vcache vol)" "node_clusters vol node []"
    and "2 \<le> last_allocated vol" "last_allocated vol < total_clusters vol + 2" "free_clusters vol < 2 ^ 32"
    and "0 < clusters" "clusters \<le> free_count vol" "clusters < 2 ^ 29"
  shows "resize_ok env vol node [] clusters"
proof -
  have c0: "vn_cluster node = 0" "vn_end_cluster node = 0" using assms(3) by (simp_all add: node_clusters_def)
  obtain w A where w: "allocate_n_fat_entries vol (int clusters) = (B_OK, hd A, w)" "length A = clusters" "fat_chain w A"
    "resized vol w [] A" "fat_same vol w"
    using alloc_resized[OF assms(1,4,5,6), of clusters] assms(7,8) by auto
  have wok: "vol_ok w" using w(4) by (simp add: resized_def)
  have vw: "vcache_ok (vol_vcache w)" using assms(2) fat_same_vcache[OF w(5)] by simp
  note E = resized_end[OF wok w(3)]
  let ?n = "node\<lparr>vn_cluster := hd A, vn_end_cluster := last A\<rparr>"
  obtain v where v: "vol_set_entry env w (vn_vnid node) (GENERATE_DIR_CLUSTER_VNID (vn_dir_vnid node) (hd A)) = (B_OK, v)"
    "fat_kept w (snd (write_vnode_entry env v ?n))" "free_clusters (snd (write_vnode_entry env v ?n)) = free_clusters w"
    using finish_kept[OF wok vw, of env "vn_vnid node" "GENERATE_DIR_CLUSTER_VNID (vn_dir_vnid node) (hd A)" ?n] by metis
  let ?v = "snd (write_vnode_entry env v ?n)"
  have s: "s32 (int clusters) = int clusters" using assms(9) by simp
  have e: "u32_of_int (get_nth_fat_entry w (int (hd A)) (clusters - 1)) = last A" using E(1) unfolding E(2) w(2) .
  have "set_fat_chain_length env vol node clusters = (B_OK, ?v, ?n)"
    using assms(7) c0 node_guard[OF assms(1,3)] w(1) E(2) e v(1) unfolding set_fat_chain_length_def s by (simp add: Let_def)
  moreover have "resized vol ?v [] A"
    using resized_kept[OF w(4) v(2,3)] chain_bound[OF wok w(3)] fat_sameD(1)[OF w(5)] by auto
  moreover have "node_clusters ?v ?n A"
    using w(3) fat_kept_chain(1)[OF v(2) vol_okD(1)[OF wok]] by (auto simp: node_clusters_def)
  ultimately show ?thesis using w(2) by (intro resize_okI[of env vol node clusters ?v ?n A "[]" A]) simp_all
qed

lemma resize_to_empty:
  assumes "vol_ok vol" "vcache_ok (vol_vcache vol)" "node_clusters vol node (c # cs)"
  shows "resize_ok env vol node (c # cs) 0"
proof -
  have ch: "fat_chain vol (c # cs)" and nc: "vn_cluster node = c" using assms(3) by (simp_all add: node_clusters_def)
  obtain w where w: "clear_fat_chain vol c = (B_OK, w)" "resized vol w (c # cs) []" "fat_same vol w"
    using clear_resized[OF assms(1) ch] by auto
  have wok: "vol_ok w" using w(2) by (simp add: resized_def)
  have vw: "vcache_ok (vol_vcache w)" using assms(2) fat_same_vcache[OF w(3)] by simp
  let ?n = "node\<lparr>vn_cluster := 0, vn_end_cluster := 0\<rparr>"
  obtain v where v: "vol_set_entry env w (vn_vnid node) (GENERATE_DIR_INDEX_VNID (vn_dir_vnid node) (vn_sindex node)) = (B_OK, v)"
    "fat_kept w (snd (write_vnode_entry env v ?n))" "free_clusters (snd (write_vnode_entry env v ?n)) = free_clusters w"
    using finish_kept[OF wok vw, of env "vn_vnid node" "GENERATE_DIR_INDEX_VNID (vn_dir_vnid node) (vn_sindex node)" ?n] by metis
  have "set_fat_chain_length env vol node 0 = (B_OK, snd (write_vnode_entry env v ?n), ?n)"
    using nc resized_end(5)[OF assms(1) ch] node_guard[OF assms(1,3)] w(1) v(1)
    unfolding set_fat_chain_length_def by (simp add: Let_def)
  moreover have "resized vol (snd (write_vnode_entry env v ?n)) (c # cs) []"
    using resized_kept[OF w(2) v(2,3)] chain_bound[OF assms(1) ch] by auto
  ultimately show ?thesis
    by (intro resize_okI[of env vol node 0 "snd (write_vnode_entry env v ?n)" ?n "[]" "c # cs" "c # cs"])
      (simp_all add: node_clusters_def)
qed

lemma resize_grow:
  assumes "vol_ok vol" "node_clusters vol node cs" "cs \<noteq> []"
    and "size_clusters vol (vn_st_size node) = int (length cs)"
    and "2 \<le> last_allocated vol" "last_allocated vol < total_clusters vol + 2" "free_clusters vol < 2 ^ 32"
    and "length cs < clusters" "clusters \<le> length cs + free_count vol" "clusters < 2 ^ 29"
  shows "resize_ok env vol node cs clusters"
proof -
  have ch: "fat_chain vol cs" and nc: "vn_cluster node = hd cs" "vn_end_cluster node = last cs"
    using assms(2,3) by (simp_all add: node_clusters_def)
  have sz: "u32_of_int (size_clusters vol (vn_st_size node)) = length cs" using assms(4,8,10) by simp
  have k: "0 < clusters - length cs" "clusters - length cs \<le> free_count vol" using assms(8,9) by simp_all
  obtain w A where w: "allocate_n_fat_entries vol (int (clusters - length cs)) = (B_OK, hd A, w)" "length A = clusters - length cs"
    "fat_chain w A" "resized vol w [] A" "fat_same vol w"
    using alloc_resized[OF assms(1,5,6,7) k] by blast
  have wok: "vol_ok w" using w(4) by (simp add: resized_def)
  obtain v where v: "set_fat_entry w (last cs) (int (hd A)) = (B_OK, v)" "fat_chain v (cs @ A)" "resized vol v cs (cs @ A)"
    using link_resized[OF assms(1) ch w(4,3,5)] by auto
  have vok: "vol_ok v" using v(3) by (simp add: resized_def)
  have neA: "A \<noteq> []" using w(3) by auto
  have cA: "fat_chain v A"
    using ft.chain_suffix[of v cs A] v(2) neA fat_chain_eq[OF vol_okD(1)[OF vok]] by simp
  note E = resized_end[OF vok cA]
  let ?n = "node\<lparr>vn_end_cluster := last A\<rparr>"
  have s: "s32 (int (clusters - length cs)) = int (clusters - length cs)" using assms(10) by simp
  have e: "u32_of_int (get_nth_fat_entry v (int (hd A)) (clusters - length cs - 1)) = last A" using E(1) unfolding E(2) w(2) .
  have "set_fat_chain_length env vol node clusters = (B_OK, v, ?n)"
    using assms(8) nc resized_end(5)[OF assms(1) ch] node_guard[OF assms(1,2)] sz w(1) v(1) E(2) e s
    unfolding set_fat_chain_length_def by (simp add: Let_def B_OK_def)
  moreover have "node_clusters v ?n (cs @ A)" using v(2) nc assms(3) neA by (simp add: node_clusters_def)
  ultimately show ?thesis using v(3) w(2) assms(8) by (intro resize_okI[of env vol node clusters v ?n "cs @ A" cs A]) simp_all
qed

lemma shrink_run:
  assumes "vol_ok vol" "node_clusters vol node cs" "size_clusters vol (vn_st_size node) = int (length cs)"
    and "0 < clusters" "clusters < length cs"
  shows "\<exists>vol'. set_fat_chain_length env vol node clusters = (B_OK, vol', node\<lparr>vn_end_cluster := cs ! (clusters - 1)\<rparr>)
    \<and> resized vol vol' cs (take clusters cs) \<and> fat_chain vol' (take clusters cs) \<and> fat_same vol vol'"
proof -
  note fok = vol_okD(1)[OF assms(1)]
  have ne: "cs \<noteq> []" using assms(5) by auto
  have ch: "fat_chain vol cs" and nc: "vn_cluster node = hd cs"
    using assms(2) ne by (simp_all add: node_clusters_def)
  have "length cs < 2 ^ 28"
    using ft.chain_length[OF fok, of cs] ch fat_chain_eq[OF fok] fat_clusters_bound(2)[OF fok] by simp
  then have sz: "u32_of_int (size_clusters vol (vn_st_size node)) = length cs" using assms(3) by simp
  note E = resized_end[OF assms(1) ch]
  obtain w v where v: "set_fat_entry vol (cs ! (clusters - 1)) 0x0fffffff = (B_OK, w)" "clear_fat_chain w (cs ! clusters) = (B_OK, v)"
    "resized vol v cs (take clusters cs)" "fat_chain v (take clusters cs)" "fat_same vol v"
    using cut_resized[OF assms(1) ch assms(4,5)] by blast
  have b: "2 \<le> cs ! clusters" "cs ! clusters < total_clusters vol + 2" "2 \<le> cs ! (clusters - 1)" "cs ! (clusters - 1) < total_clusters vol + 2"
    using chain_bound[OF assms(1) ch, of "cs ! clusters"] chain_bound[OF assms(1) ch, of "cs ! (clusters - 1)"] assms(4,5) by simp_all
  note D = data_nat[OF fok b(1,2)] data_nat[OF fok b(3,4)]
  have hd: "hd cs = cs ! 0" using ne by (simp add: hd_conv_nth)
  have walk: "chain_walk vol (clusters - 1) (s32 (int (vn_cluster node))) (get_fat_entry vol (vn_cluster node))
      = (int (cs ! (clusters - 1)), int (cs ! clusters), True)"
    using chain_walk_node[OF assms(1) ch, of 0 "clusters - 1"] chain_next[OF assms(1) ch, of "clusters - 1"] assms(4,5)
    unfolding nc E(2) unfolding hd by simp
  have "int (cs ! clusters) \<noteq> END_FAT_ENTRY" using b fat_small[OF fok] by (simp add: END_FAT_ENTRY_def)
  then have "set_fat_chain_length env vol node clusters = (B_OK, v, node\<lparr>vn_end_cluster := cs ! (clusters - 1)\<rparr>)"
    using assms(4,5) nc E(5) node_guard[OF assms(1,2)] sz walk v(1,2) D unfolding set_fat_chain_length_def by (simp add: Let_def)
  then show ?thesis using v(3-5) by blast
qed

lemma resize_shrink:
  assumes "vol_ok vol" "node_clusters vol node cs" "size_clusters vol (vn_st_size node) = int (length cs)"
    and "0 < clusters" "clusters < length cs"
  shows "resize_ok env vol node cs clusters"
proof -
  let ?n = "node\<lparr>vn_end_cluster := cs ! (clusters - 1)\<rparr>"
  obtain v where v: "set_fat_chain_length env vol node clusters = (B_OK, v, ?n)" "resized vol v cs (take clusters cs)" "fat_chain v (take clusters cs)"
    using shrink_run[OF assms] by blast
  have "node_clusters v ?n (take clusters cs)"
    using v(3) assms(2,4,5) by (auto simp: node_clusters_def last_conv_nth)
  then show ?thesis
    using v(1,2) assms(5) by (intro resize_okI[of env vol node clusters v ?n "take clusters cs" cs "drop clusters cs"]) simp_all
qed

section \<open>Properties\<close>

lemma resize_run:
  assumes "vol_ok vol" "vcache_ok (vol_vcache vol)" "node_clusters vol node cs"
    and "size_clusters vol (vn_st_size node) = int (length cs)"
    and "2 \<le> last_allocated vol" "last_allocated vol < total_clusters vol + 2" "free_clusters vol < 2 ^ 32"
    and "clusters \<le> length cs + free_count vol"
  shows "resize_ok env vol node cs clusters"
proof -
  note fok = vol_okD(1)[OF assms(1)]
  have "length cs \<le> total_clusters vol"
    using assms(3) ft.chain_length[OF fok, of cs] fat_chain_eq[OF fok] by (auto simp: node_clusters_def split: if_splits)
  then have len: "length cs < 2 ^ 28" and cl: "clusters < 2 ^ 29"
    using assms(8) free_count_le[of vol] fat_clusters_bound(2)[OF fok] by simp_all
  have stay: "resize_ok env vol node cs clusters" if "clusters = length cs"
  proof -
    have "u32_of_int (size_clusters vol (vn_st_size node)) = length cs" using assms(4) len by simp
    moreover have "cs \<noteq> [] \<Longrightarrow> vn_cluster node \<noteq> 0"
      using assms(1,3) resized_end(5) by (auto simp: node_clusters_def)
    moreover have "cs = [] \<Longrightarrow> vn_cluster node = 0" using assms(3) by (simp add: node_clusters_def)
    ultimately have "set_fat_chain_length env vol node clusters = (B_OK, vol, node)"
      using that node_guard[OF assms(1,3)] by (cases "cs = []") (simp_all add: set_fat_chain_length_def Let_def)
    then show ?thesis
      using that assms(3) resized_refl[OF assms(1,7)] by (intro resize_okI[of env vol node clusters vol node cs cs "[]"]) simp_all
  qed
  consider "clusters = length cs" | "cs = []" "0 < clusters" | (zero) c cs0 where "cs = c # cs0" "clusters = 0"
    | "cs \<noteq> []" "length cs < clusters" | "0 < clusters" "clusters < length cs"
    by (cases cs) (auto, linarith)
  then show ?thesis
    using stay resize_from_empty[OF assms(1,2) _ assms(5,6,7)] resize_to_empty[OF assms(1,2)]
      resize_grow[OF assms(1,3) _ assms(4,5,6,7) _ assms(8) cl] resize_shrink[OF assms(1,3,4)] assms(3,8) cl
    by cases auto
qed

text \<open>C4: changing the length of a chain. For a node whose size matches its chain, and as long as the clusters it still needs are
  free, \<^verbatim>\<open>set_fat_chain_length\<close> succeeds from any length to any other: afterwards the node has exactly the wanted number of clusters, the new
  chain is the old one cut off at the end or extended at the end, the first and last cluster in the vnode are right, clusters given up
  are free, clusters taken were free, every other entry of the table is as before, the copies of the table stay equal and
  the number of free clusters follows.\<close>

theorem set_fat_chain_length_resizes:
  assumes "vol_ok vol" "vcache_ok (vol_vcache vol)" "node_clusters vol node cs"
    and "size_clusters vol (vn_st_size node) = int (length cs)"
    and "2 \<le> last_allocated vol" "last_allocated vol < total_clusters vol + 2" "free_clusters vol < 2 ^ 32"
    and "clusters \<le> length cs + free_count vol"
  shows "\<exists>vol' node' cs'. set_fat_chain_length env vol node clusters = (B_OK, vol', node')
    \<and> length cs' = clusters \<and> (\<exists>rest. cs = cs' @ rest \<or> cs' = cs @ rest)
    \<and> node_clusters vol' node' cs' \<and> resized vol vol' cs cs'"
  using resize_run[OF assms] unfolding resize_ok_def .


text \<open>C28: when the clusters that are missing are not free, \<^verbatim>\<open>set_fat_chain_length\<close> fails with \<^verbatim>\<open>B_DEVICE_FULL\<close> and the node keeps its
  chain: the vnode, every entry of the table and the number of free clusters are as before.\<close>

theorem set_fat_chain_length_full:
  assumes "vol_ok vol" "node_clusters vol node cs" "size_clusters vol (vn_st_size node) = int (length cs)"
    and "2 \<le> last_allocated vol" "last_allocated vol < total_clusters vol + 2" "free_clusters vol < 2 ^ 32"
    and "length cs + free_count vol < clusters" "clusters < 2 ^ 31"
  shows "\<exists>vol'. set_fat_chain_length env vol node clusters = (B_DEVICE_FULL, vol', node)
    \<and> node_clusters vol' node cs \<and> resized vol vol' cs cs"
proof -
  note fok = vol_okD(1)[OF assms(1)]
  let ?k = "clusters - length cs"
  have k: "free_count vol < ?k" "?k < 2 ^ 31" using assms(7,8) by simp_all
  obtain w where w: "allocate_n_fat_entries vol (int ?k) = (B_DEVICE_FULL, 0, w)" "fat_ok w" "fat_same vol w"
    "\<forall>c. 2 \<le> c \<and> c < total_clusters vol + 2 \<longrightarrow> get_fat_entry w c = get_fat_entry vol c"
    "free_clusters w = free_clusters vol" "fat_mirrored vol \<longrightarrow> fats_mirrored vol \<longrightarrow> fats_mirrored w"
    using allocate_run_full[OF fok assms(4,5,6) k] by blast
  note wok = fat_same_vol_ok[OF w(3,2) assms(1)]
  have s: "s32 (int ?k) = int ?k" using k(2) by simp
  have nz: "cs \<noteq> [] \<Longrightarrow> vn_cluster node \<noteq> 0" using assms(1,2) resized_end(5) by (auto simp: node_clusters_def)
  have "cs = [] \<Longrightarrow> vn_cluster node = 0" using assms(2) by (simp add: node_clusters_def)
  then have run: "set_fat_chain_length env vol node clusters = (B_DEVICE_FULL, w, node)"
    using assms(3,7,8) nz node_guard[OF assms(1,2)] w(1) s
    by (cases "cs = []") (simp_all add: set_fat_chain_length_def Let_def errno_defs)
  have "fat_chain w cs \<longleftrightarrow> fat_chain vol cs"
    using w(4) fat_sameD(1)[OF w(3)] by (induction cs rule: induct_list012) auto
  then have "node_clusters w node cs" using assms(2) by (simp add: node_clusters_def)
  moreover have "resized vol w cs cs"
    using wok w(4,5,6) fat_same_geometry[OF w(3)] assms(6) by (simp add: resized_def)
  ultimately show ?thesis using run by blast
qed

subsection \<open>Witnesses\<close>

definition tiny_env :: env where
  "tiny_env = \<lparr>env_tz = 0, env_time = 1000000000, env_retries = 2, env_mem = True, env_block_cache = True, env_vnid_mem = (\<lambda>n. Some (replicate n 0)),
     unicode_to_utf8 = (\<lambda>uni n len. (B_OK, take (n div 2) uni)), msdos_to_utf8 = (\<lambda>e len lower. take 11 e),
     utf8_to_unicode = (\<lambda>name len. (int (2 * length name), concat (map (\<lambda>c. [c, 0]) name))),
     generate_short_name = (\<lambda>name uni n. (B_OK, take 11 (name @ replicate 11 32), 0)),
     requires_long_name = (\<lambda>name uni. length name > 11), requires_munged_short_name = (\<lambda>name short enc. False),
     munge_short_name1 = (\<lambda>short k enc. short[7 := word_of_nat (nat k)]), munge_short_name2 = (\<lambda>k short enc. short[7 := word_of_nat k])\<rparr>"

definition tiny_file :: vnode where
  "tiny_file = tiny_vnode\<lparr>vn_vnid := 7, vn_dir_vnid := 1, vn_cluster := 2, vn_end_cluster := 4, vn_st_size := 200\<rparr>"

lemma tiny_file_ok:
  "node_clusters tiny_disk tiny_file [2, 4]" "size_clusters tiny_disk (vn_st_size tiny_file) = int (length [2, 4::nat])"
  "vcache_ok (vol_vcache tiny_disk)" "2 \<le> last_allocated tiny_disk" "last_allocated tiny_disk < total_clusters tiny_disk + 2"
  "free_clusters tiny_disk < 2 ^ 32"
proof -
  note g = geometryD[OF tiny_disk_ok(1)]
  show "node_clusters tiny_disk tiny_file [2, 4]" using tiny_disk_ok(3) by (simp add: node_clusters_def tiny_file_def)
  show "size_clusters tiny_disk (vn_st_size tiny_file) = int (length [2, 4::nat])"
    by (simp add: size_clusters_def tiny_file_def g tiny_disk0_simps signed_divide_int_def)
  have v: "vol_vcache tiny_disk = vol_vcache tiny_disk0" "last_allocated tiny_disk = last_allocated tiny_disk0"
    "free_clusters tiny_disk = free_clusters tiny_disk0"
  proof -
    have "vol_vcache (fat_put vol c x) = vol_vcache vol" for vol c x by (simp add: fat_put_def put_fat_sector_def Let_def)
    then show "vol_vcache tiny_disk = vol_vcache tiny_disk0" by (simp add: tiny_disk_def)
  qed (simp_all add: tiny_disk_def)
  have "vol_vcache tiny_disk = \<lparr>cur_vnid = 0, cache_size = 1, by_vnid = [[]], by_loc = [[]]\<rparr>"
    unfolding v by (simp add: tiny_disk0_def tiny_volume_def)
  then show "vcache_ok (vol_vcache tiny_disk)" by (simp add: vcache_ok_def vtable_ok_def vtable_set_def)
  show "2 \<le> last_allocated tiny_disk" "last_allocated tiny_disk < total_clusters tiny_disk + 2" "free_clusters tiny_disk < 2 ^ 32"
    unfolding v g by (simp_all add: tiny_disk0_def tiny_volume_def)
qed

theorem set_fat_chain_length_resizes_witness:
  "\<exists>vol' node' cs'. set_fat_chain_length tiny_env tiny_disk tiny_file 1 = (B_OK, vol', node') \<and> length cs' = 1
     \<and> node_clusters vol' node' cs'"
  using set_fat_chain_length_resizes[OF tiny_disk_ok(2) tiny_file_ok(3,1,2,4,5,6), of 1 tiny_env] by fastforce

theorem set_fat_chain_length_full_witness:
  "\<exists>vol'. set_fat_chain_length tiny_env tiny_disk tiny_file 7 = (B_DEVICE_FULL, vol', tiny_file)"
proof -
  have "free_count tiny_disk \<le> 4" using free_count_le[of tiny_disk] geometryD(7)[OF tiny_disk_ok(1)] by (simp add: tiny_disk0_simps)
  then show ?thesis
    using set_fat_chain_length_full[OF tiny_disk_ok(2) tiny_file_ok(1,2,4,5,6), of 7 tiny_env] by auto
qed

end
