(* ===== verification/Dirent.thy ===== *)
theory Dirent
  imports Chain_Length
begin

text \<open>
  Reading directories: the first half of \<^verbatim>\<open>fat/dir.c\<close>, from \<^verbatim>\<open>_next_dirent_\<close> to \<^verbatim>\<open>compact_directory\<close>.

  A directory is a sequence of 32 byte entries. A file takes an entry with its short name and, before it, the entries with the
  parts of its long name, last part first. \<open>next_dirent\<close> collects the parts in the buffer \<^verbatim>\<open>uni\<close>; an entry that
  makes it write in front of that buffer sets \<open>fault\<close>, and so does a circular directory in which it would search forever:
  \<open>dir_fuel\<close> is more than the number of entries that the whole volume has room for, so that a search that
  uses it up has come back to an entry it has already passed. What \<^verbatim>\<open>uni\<close> holds before the first part is written is
  arbitrary in C and zero here.
\<close>

section \<open>Definitions\<close>

record dirent_info =
  di_sindex :: nat
  di_eindex :: nat
  di_mode :: nat
  di_cluster :: nat
  di_size :: nat
  di_time :: nat

text \<open>The state of \<^verbatim>\<open>_next_dirent_\<close> about a long name: \<^verbatim>\<open>start_index\<close> (\<^verbatim>\<open>0xffff\<close> for none),
  \<^verbatim>\<open>hash\<close>, \<^verbatim>\<open>lfn_count\<close>, \<^verbatim>\<open>filename_len\<close> and \<^verbatim>\<open>uni\<close>.\<close>

record lfn =
  start_index :: nat
  lfn_hash :: u8
  lfn_count :: nat
  filename_len :: nat
  uni :: block

definition no_lfn :: lfn where
  "no_lfn = \<lparr>start_index = 0xffff, lfn_hash = 0, lfn_count = 0, filename_len = 0, uni = replicate 1024 0\<rparr>"

text \<open>The step of the loops over the 13 characters of an entry.\<close>

definition lfn_next :: "nat \<Rightarrow> nat" where
  "lfn_next i = (let i = (if i = 0x9 then i + 3 else i); i = (if i = 0x18 then i + 2 else i) in i + 2)"

text \<open>The two loops: the bytes copied to \<open>p\<close> on, where they end, and whether the loop was left at a \<^verbatim>\<open>0xffff\<close>.\<close>

function lfn_units :: "block \<Rightarrow> nat \<Rightarrow> block \<Rightarrow> nat \<Rightarrow> block \<times> nat \<times> bool" where
  "lfn_units buffer i u p =
     (if i < 0x20 then
        if buffer ! i = 0xff \<and> buffer ! (i + 1) = 0xff then (u, p, True)
        else lfn_units buffer (lfn_next i) (memcpy_at u p [buffer ! i, buffer ! (i + 1)]) (p + 2)
      else (u, p, False))"
  by pat_completeness auto
termination
  by (relation "measure (\<lambda>(buffer, i, u, p). 0x20 - i)") (auto simp: lfn_next_def Let_def)

declare lfn_units.simps [simp del]

text \<open>What an entry of a long name at \<open>index\<close> does; none when it would write in front of \<^verbatim>\<open>uni\<close>.\<close>

definition lfn_step :: "nat \<Rightarrow> block \<Rightarrow> lfn \<Rightarrow> lfn option" where
  "lfn_step index buffer l =
     (if buffer ! 0xc \<noteq> 0 \<or> buffer ! 0x1a \<noteq> 0 \<or> buffer ! 0x1b \<noteq> 0 then Some l
      else if start_index l = 0xffff then
        if buffer ! 0 AND 0x40 = 0 then Some l
        else
          let count = unat (buffer ! 0 AND 0x1f)
          in if count = 0 then None
             else case lfn_units buffer 1 (uni l) (2 * 13 * (count - 1)) of (u, p, ended) \<Rightarrow>
                    Some \<lparr>start_index = index, lfn_hash = buffer ! 0xd, lfn_count = count, filename_len = p + 2,
                          uni = memcpy_at u p [0, 0]\<rparr>
      else if buffer ! 0xd \<noteq> lfn_hash l then Some (l\<lparr>start_index := 0xffff\<rparr>)
      else
        let l = l\<lparr>lfn_count := u32_minus (lfn_count l) 1\<rparr>
        in if unat (buffer ! 0) \<noteq> lfn_count l then Some (l\<lparr>start_index := 0xffff\<rparr>)
           else case lfn_units buffer 1 (uni l) (2 * 13 * (lfn_count l - 1)) of (u, p, ended) \<Rightarrow>
                  Some (l\<lparr>uni := u, start_index := (if ended then 0xffff else start_index l)\<rparr>))"

text \<open>The loop that looks for the next short entry: the entry or \<^verbatim>\<open>NULL\<close> at the end of the
  directory, and the iterator there.\<close>

fun next_dirent_loop :: "nat \<Rightarrow> nspace \<Rightarrow> diri \<Rightarrow> lfn \<Rightarrow> ptr option \<Rightarrow> (ptr option \<times> diri \<times> lfn) option" where
  "next_dirent_loop 0 vol iter l buffer = None"
| "next_dirent_loop (Suc k) vol iter l None = Some (None, iter, l)"
| "next_dirent_loop (Suc k) vol iter l (Some p) =
     (let buffer = entry_data vol p
      in if buffer ! 0 = 0 then Some (None, iter, l)
         else if buffer ! 0 = 0xe5 then
           case diri_next_entry vol iter of (q, iter) \<Rightarrow> next_dirent_loop k vol iter (l\<lparr>start_index := 0xffff\<rparr>) q
         else if buffer ! 0xb = 0xf then
           case lfn_step (current_index iter) buffer l of
             None \<Rightarrow> None
           | Some l \<Rightarrow> (case diri_next_entry vol iter of (q, iter) \<Rightarrow> next_dirent_loop k vol iter l q)
         else Some (Some p, iter, l))"

definition dir_fuel :: "nspace \<Rightarrow> nat" where
  "dir_fuel vol = (total_clusters vol * sectors_per_cluster vol + root_sectors vol) * entries_per_block vol + 2"

text \<open>The fields of a short entry.\<close>

definition entry_info :: "nspace \<Rightarrow> nat \<Rightarrow> nat \<Rightarrow> block \<Rightarrow> dirent_info" where
  "entry_info vol sindex eindex buffer =
     \<lparr>di_sindex = sindex, di_eindex = eindex, di_mode = unat (buffer ! 0xb),
      di_cluster = (if fat_bits vol = 32 then u32 (read16 buffer 0x1a + 0x10000 * read16 buffer 0x14) else read16 buffer 0x1a),
      di_size = read32 buffer 0x1c, di_time = read32 buffer 0x16\<rparr>"

text \<open>The part behind the loop: the name, from the long name entries or from the short entry.\<close>

definition next_dirent_name :: "env \<Rightarrow> nspace \<Rightarrow> diri \<Rightarrow> lfn \<Rightarrow> block \<Rightarrow> nat \<Rightarrow>
    (status_t + dirent_info \<times> name) \<times> nspace \<times> diri" where
  "next_dirent_name env vol iter l buffer len =
     (let short = Inr (entry_info vol (current_index iter) (current_index iter) buffer,
            msdos_to_utf8 env (take 11 buffer) len (buffer ! 0xc AND 0x18 \<noteq> 0));
          next = snd (diri_next_entry vol iter)
      in if start_index l = 0xffff \<or> lfn_count l \<noteq> 1 then (short, vol, next)
         else case unicode_to_utf8 env (take (filename_len l) (uni l)) (filename_len l) len of (error, filename) \<Rightarrow>
           if error \<noteq> 0 then
             (Inl ENAMETOOLONG, vol, snd (diri_init vol (starting_cluster iter) (start_index l) (diri_free vol iter)))
           else if hash_msdos_name (take 11 buffer) \<noteq> lfn_hash l then (short, vol, next)
           else (Inr (entry_info vol (start_index l) (current_index iter) buffer, filename), vol, next))"

definition next_dirent :: "env \<Rightarrow> nspace \<Rightarrow> diri \<Rightarrow> int \<Rightarrow> (status_t + dirent_info \<times> name) \<times> nspace \<times> diri" where
  "next_dirent env vol iter len =
     (if current_block iter = None then (Inl ENOENT, vol, iter)
      else if len < 15 then (Inl ENOMEM, vol, iter)
      else case next_dirent_loop (dir_fuel vol) vol iter no_lfn (diri_current_entry vol iter) of
             None \<Rightarrow> (Inl B_ERROR, vol\<lparr>fault := True\<rparr>, iter)
           | Some (None, iter, l) \<Rightarrow> (Inl ENOENT, vol, iter)
           | Some (Some p, iter, l) \<Rightarrow> next_dirent_name env vol iter l (entry_data vol p) (nat len))"

text \<open>The loop of \<^verbatim>\<open>get_next_dirent\<close> that passes over volume labels in the root directory.\<close>

fun skip_labels :: "nat \<Rightarrow> env \<Rightarrow> nspace \<Rightarrow> vnode \<Rightarrow> diri \<Rightarrow> int \<Rightarrow> (status_t + dirent_info \<times> name) \<times> nspace \<times> diri" where
  "skip_labels 0 env vol dir iter len = (Inl B_ERROR, vol\<lparr>fault := True\<rparr>, iter)"
| "skip_labels (Suc k) env vol dir iter len =
     (case next_dirent env vol iter len of
        (Inl result, vol, iter) \<Rightarrow> (Inl result, vol, iter)
      | (Inr (info, filename), vol, iter) \<Rightarrow>
          if di_mode info AND FAT_VOLUME \<noteq> 0 \<and> vn_vnid dir = vn_vnid (root_vnode vol)
          then skip_labels k env vol dir iter len
          else (Inr (info, filename), vol, iter))"

text \<open>The id for the location \<open>loc\<close>, and whether it has been added to the vnode id cache.\<close>

definition dirent_id :: "env \<Rightarrow> vcache \<Rightarrow> ino_t \<Rightarrow> (status_t + ino_t) \<times> vcache \<times> bool" where
  "dirent_id env vc loc =
     (case vcache_loc_to_vnid vc loc of (result, vnid) \<Rightarrow>
        if result = ENOENT then
          if find_vnid_in_vcache vc loc \<noteq> None then
            case generate_unique_vnid vc of (vnid, vc) \<Rightarrow>
              (case add_to_vcache (env_mem env) vc vnid loc of (result, vc) \<Rightarrow>
                 if result < 0 then (Inl result, vc, False) else (Inr vnid, vc, True))
          else (Inr loc, vc, False)
        else if result \<noteq> B_OK then (Inl result, vc, False)
        else (Inr (the vnid), vc, False))"

text \<open>The vnode id of an entry. The comparison of \<^verbatim>\<open>dlist_find\<close> is with \<open>-1\<close>.\<close>

definition dirent_vnid :: "env \<Rightarrow> nspace \<Rightarrow> vnode \<Rightarrow> dirent_info \<Rightarrow> (status_t + ino_t) \<times> nspace" where
  "dirent_vnid env vol dir info =
     (let loc = (if IS_DATA_CLUSTER vol (int (di_cluster info)) then GENERATE_DIR_CLUSTER_VNID (vn_vnid dir) (di_cluster info)
                 else GENERATE_DIR_INDEX_VNID (vn_vnid dir) (di_sindex info))
      in case dirent_id env (vol_vcache vol) loc of
           (Inl result, vc, added_to_vcache) \<Rightarrow> (Inl result, vol\<lparr>vol_vcache := vc\<rparr>)
         | (Inr vnid, vc, added_to_vcache) \<Rightarrow>
             let vol = vol\<lparr>vol_vcache := vc\<rparr>
             in if di_mode info AND FAT_SUBDIR \<noteq> 0 \<and> dlist_find vc (vol_dlist vol) (di_cluster info) = - 1 then
                  case dlist_add (env_vnid_mem env) (vol_dlist vol) vnid of (result, dl) \<Rightarrow>
                    let vol = vol\<lparr>vol_dlist := dl\<rparr>
                    in if result < 0 then
                         (Inl result, if added_to_vcache then vol\<lparr>vol_vcache := snd (remove_from_vcache vc vnid)\<rparr> else vol)
                       else (Inr vnid, vol)
                else (Inr vnid, vol))"

definition dot :: name where "dot = [0x2e]"
definition dotdot :: name where "dotdot = [0x2e, 0x2e]"

text \<open>All callers ask for the vnode id.\<close>

definition get_next_dirent :: "env \<Rightarrow> nspace \<Rightarrow> vnode \<Rightarrow> diri \<Rightarrow> int \<Rightarrow> (status_t + ino_t \<times> name) \<times> nspace \<times> diri" where
  "get_next_dirent env vol dir iter len =
     (case skip_labels (dir_fuel vol) env vol dir iter len of
        (Inl result, vol, iter) \<Rightarrow> (Inl result, vol, iter)
      | (Inr (info, filename), vol, iter) \<Rightarrow>
          if filename = dot then (Inr (vn_vnid dir, filename), vol, iter)
          else if filename = dotdot then (Inr (vn_dir_vnid dir, filename), vol, iter)
          else case dirent_vnid env vol dir info of
                 (Inl result, vol) \<Rightarrow> (Inl result, vol, iter)
               | (Inr vnid, vol) \<Rightarrow> (Inr (vnid, filename), vol, iter))"

text \<open>The structure that callers of \<^verbatim>\<open>diri_init\<close> declare.\<close>

definition new_diri :: diri where
  "new_diri = \<lparr>diri_csi = \<lparr>csi_cluster = 0, csi_sector = 0\<rparr>, starting_cluster = 0, current_index = 0, current_block = None\<rparr>"

text \<open>The loop of \<^verbatim>\<open>check_dir_empty\<close> from \<open>i\<close> on; \<open>result\<close> is the value before it.\<close>

function empty_loop :: "env \<Rightarrow> nspace \<Rightarrow> diri \<Rightarrow> nat \<Rightarrow> status_t \<Rightarrow> status_t \<times> nspace" where
  "empty_loop env vol iter i result =
     (if i < 3 then
        case next_dirent env vol iter 512 of
          (Inl result, vol, iter) \<Rightarrow> (if i = 2 \<and> result = ENOENT then B_OK else result, vol)
        | (Inr (info, filename), vol, iter) \<Rightarrow>
            if i = 0 \<and> filename \<noteq> dot \<or> i = 1 \<and> filename \<noteq> dotdot \<or> i < 2 \<and> current_index iter \<noteq> i + 1
            then (ENOTDIR, vol)
            else empty_loop env vol iter (i + 1) ENOTEMPTY
      else (result, vol))"
  by pat_completeness auto
termination
  by (relation "measure (\<lambda>(env, vol, iter, i, result). 3 - i)") auto

declare empty_loop.simps [simp del]

definition check_dir_empty :: "env \<Rightarrow> nspace \<Rightarrow> vnode \<Rightarrow> status_t \<times> nspace" where
  "check_dir_empty env vol dir =
     (case diri_init vol (vn_cluster dir) 0 new_diri of
        (None, iter) \<Rightarrow> (B_ERROR, vol)
      | (Some p, iter) \<Rightarrow> empty_loop env vol iter (if vn_vnid dir = vn_vnid (root_vnode vol) then 2 else 0) B_ERROR)"

definition strcasecmp0 :: "name \<Rightarrow> name \<Rightarrow> bool" where
  "strcasecmp0 a b \<longleftrightarrow> map lower8 a = map lower8 b"

text \<open>The search loop of \<^verbatim>\<open>findfile\<close>: the vnode id found so far and whether there are duplicates.\<close>

fun findfile_loop :: "nat \<Rightarrow> env \<Rightarrow> nspace \<Rightarrow> vnode \<Rightarrow> diri \<Rightarrow> name \<Rightarrow> bool \<Rightarrow> bool \<Rightarrow> ino_t option \<Rightarrow> bool \<Rightarrow>
    ino_t option \<times> bool \<times> nspace" where
  "findfile_loop 0 env vol dir iter file check_case check_dups found dups = (found, dups, vol\<lparr>fault := True\<rparr>)"
| "findfile_loop (Suc k) env vol dir iter file check_case check_dups found dups =
     (case get_next_dirent env vol dir iter 512 of
        (Inl result, vol, iter) \<Rightarrow> (found, dups, vol)
      | (Inr (vnid, filename), vol, iter) \<Rightarrow>
          let (found, dups) =
            (if check_case then
               if found = None \<and> filename = file then (Some vnid, dups)
               else (found, dups \<or> check_dups \<and> strcasecmp0 filename file)
             else if strcasecmp0 filename file then (Some vnid, dups \<or> check_dups \<and> found \<noteq> None)
             else (found, dups))
          in if found \<noteq> None \<and> (\<not> check_dups \<or> dups) then (found, dups, vol)
             else findfile_loop k env vol dir iter file check_case check_dups found dups)"

text \<open>\<open>findfile\<close> gives the vnode id or \<^verbatim>\<open>ENOENT\<close>, and the flag about duplicates. The flag \<open>check_dups\<close> says that the caller
  passes a pointer \<^verbatim>\<open>dups_exist\<close> and asks for them. A caller that wants the vnode calls \<^verbatim>\<open>get_vnode\<close> on the result.\<close>

definition findfile :: "env \<Rightarrow> nspace \<Rightarrow> vnode \<Rightarrow> name \<Rightarrow> bool \<Rightarrow> bool \<Rightarrow> (status_t + ino_t) \<times> bool \<times> nspace" where
  "findfile env vol dir file check_case check_dups =
     (if file = dot \<and> vn_vnid dir = vn_vnid (root_vnode vol) then (Inr (vn_vnid dir), False, vol)
      else if file = dotdot \<and> vn_vnid dir = vn_vnid (root_vnode vol) then (Inr (vn_dir_vnid dir), False, vol)
      else case diri_init vol (vn_cluster dir) 0 new_diri of
             (None, iter) \<Rightarrow> (Inl ENOENT, False, vol)
           | (Some p, iter) \<Rightarrow>
               (case findfile_loop (dir_fuel vol) env vol dir iter file check_case check_dups None False of (found, dups, vol) \<Rightarrow>
                  (case found of Some vnid \<Rightarrow> Inr vnid | None \<Rightarrow> Inl ENOENT, dups, vol)))"

definition findfile_case :: "env \<Rightarrow> nspace \<Rightarrow> vnode \<Rightarrow> name \<Rightarrow> (status_t + ino_t) \<times> bool \<times> nspace" where
  "findfile_case env vol dir file = findfile env vol dir file True False"

definition findfile_nocase :: "env \<Rightarrow> nspace \<Rightarrow> vnode \<Rightarrow> name \<Rightarrow> (status_t + ino_t) \<times> bool \<times> nspace" where
  "findfile_nocase env vol dir file = findfile env vol dir file False False"

definition findfile_nocase_duplicates :: "env \<Rightarrow> nspace \<Rightarrow> vnode \<Rightarrow> name \<Rightarrow> (status_t + ino_t) \<times> bool \<times> nspace" where
  "findfile_nocase_duplicates env vol dir file = findfile env vol dir file False True"

definition findfile_case_duplicates :: "env \<Rightarrow> nspace \<Rightarrow> vnode \<Rightarrow> name \<Rightarrow> (status_t + ino_t) \<times> bool \<times> nspace" where
  "findfile_case_duplicates env vol dir file = findfile env vol dir file True True"

text \<open>The second pass of \<^verbatim>\<open>erase_dir_entry\<close> over \<open>k\<close> entries.\<close>

fun erase_loop :: "nat \<Rightarrow> nspace \<Rightarrow> diri \<Rightarrow> ptr option \<Rightarrow> nspace" where
  "erase_loop 0 vol iter buffer = vol"
| "erase_loop (Suc k) vol iter None = vol"
| "erase_loop (Suc k) vol iter (Some p) =
     (let vol = entry_store vol p ((entry_data vol p)[0 := 0xe5])
      in case diri_next_entry vol iter of (q, iter) \<Rightarrow> erase_loop k vol iter q)"

definition erase_dir_entry :: "env \<Rightarrow> nspace \<Rightarrow> vnode \<Rightarrow> status_t \<times> nspace" where
  "erase_dir_entry env vol node =
     (case diri_init vol (VNODE_PARENT_DIR_CLUSTER node) (vn_sindex node) new_diri of
        (None, diri) \<Rightarrow> (ENOENT, vol)
      | (Some p, diri) \<Rightarrow>
          (case next_dirent env vol diri 512 of
             (Inl result, vol, diri) \<Rightarrow> (result, vol)
           | (Inr (info, filename), vol, diri) \<Rightarrow>
               if di_sindex info \<noteq> vn_sindex node \<or> di_eindex info \<noteq> vn_eindex node then (B_ERROR, vol)
               else case diri_init vol (VNODE_PARENT_DIR_CLUSTER node) (vn_sindex node) diri of (buffer, diri) \<Rightarrow>
                      (0, erase_loop (vn_eindex node + 1 - vn_sindex node) vol diri buffer)))"

text \<open>The search loop of \<^verbatim>\<open>compact_directory\<close>: the error it ends with and the index behind the last entry.\<close>

fun compact_loop :: "nat \<Rightarrow> env \<Rightarrow> nspace \<Rightarrow> vnode \<Rightarrow> diri \<Rightarrow> nat \<Rightarrow> status_t \<Rightarrow> status_t \<times> nat \<times> nspace" where
  "compact_loop 0 env vol dir iter lst error = (B_ERROR, lst, vol\<lparr>fault := True\<rparr>)"
| "compact_loop (Suc k) env vol dir iter lst error =
     (if current_block iter = None then (error, lst, vol)
      else case next_dirent env vol iter 512 of
             (Inl error, vol, iter) \<Rightarrow> (error, lst, vol)
           | (Inr (info, filename), vol, iter) \<Rightarrow>
               compact_loop k env vol dir iter
                 (if di_mode info AND FAT_VOLUME = 0 \<or> vn_vnid dir \<noteq> vn_vnid (root_vnode vol) then current_index iter else lst) B_OK)"

definition compact_directory :: "env \<Rightarrow> nspace \<Rightarrow> vnode \<Rightarrow> status_t \<times> nspace \<times> vnode" where
  "compact_directory env vol dir =
     (if IS_FIXED_ROOT (vn_cluster dir) then (0, vol, dir)
      else case diri_init vol (vn_cluster dir) 0 new_diri of
             (None, diri) \<Rightarrow> (EIO, vol, dir)
           | (Some p, diri) \<Rightarrow>
               (case compact_loop (dir_fuel vol) env vol dir diri 0 B_ERROR of (error, lst, vol) \<Rightarrow>
                  if error \<noteq> ENOENT then (error, vol, dir)
                  else
                    let clusters = u32_minus (u32 (lst + u32 (bytes_per_sector vol div 0x20 * sectors_per_cluster vol))) 1
                          div (bytes_per_sector vol div 0x20) div sectors_per_cluster vol;
                        clusters = (if clusters = 0 then 1 else clusters);
                        sz = u32 (u32 (clusters * bytes_per_sector vol) * sectors_per_cluster vol)
                    in if int sz < vn_st_size dir then
                         case set_fat_chain_length env vol dir clusters of (error, vol, dir) \<Rightarrow>
                           (error, vol, dir\<lparr>vn_st_size := int sz, vn_iteration := u32 (vn_iteration dir + 1)\<rparr>)
                       else (0, vol, dir)))"

section \<open>Theorems\<close>

subsection \<open>A directory as a list\<close>

text \<open>The reference definition of a directory's contents, on the list of its entries: where the next short entry is, with the
  long name in front of it, and what it says.\<close>

definition dir_entries :: "nspace \<Rightarrow> nat list \<Rightarrow> block list" where
  "dir_entries vol cs = map (dir_entry vol cs) [0..<node_entries vol cs]"

fun scan_entries :: "nat \<Rightarrow> block list \<Rightarrow> lfn \<Rightarrow> (nat \<times> block \<times> lfn) option option" where
  "scan_entries i [] l = Some None"
| "scan_entries i (b # bs) l =
     (if b ! 0 = 0 then Some None
      else if b ! 0 = 0xe5 then scan_entries (i + 1) bs (l\<lparr>start_index := 0xffff\<rparr>)
      else if b ! 0xb = 0xf then
        case lfn_step i b l of None \<Rightarrow> None | Some l \<Rightarrow> scan_entries (i + 1) bs l
      else Some (Some (i, b, l)))"

definition parse_name :: "env \<Rightarrow> nspace \<Rightarrow> nat \<Rightarrow> lfn \<Rightarrow> block \<Rightarrow> nat \<Rightarrow> status_t + dirent_info \<times> name" where
  "parse_name env vol i l b len =
     (let short = Inr (entry_info vol i i b, msdos_to_utf8 env (take 11 b) len (b ! 0xc AND 0x18 \<noteq> 0))
      in if start_index l = 0xffff \<or> lfn_count l \<noteq> 1 then short
         else case unicode_to_utf8 env (take (filename_len l) (uni l)) (filename_len l) len of (error, filename) \<Rightarrow>
           if error \<noteq> 0 then Inl ENAMETOOLONG
           else if hash_msdos_name (take 11 b) \<noteq> lfn_hash l then short
           else Inr (entry_info vol (start_index l) i b, filename))"

definition parse_dirent :: "env \<Rightarrow> nspace \<Rightarrow> block list \<Rightarrow> nat \<Rightarrow> nat \<Rightarrow> (status_t + dirent_info \<times> name) option" where
  "parse_dirent env vol es i len =
     (case scan_entries i (drop i es) no_lfn of
        None \<Rightarrow> None
      | Some None \<Rightarrow> Some (Inl ENOENT)
      | Some (Some (j, b, l)) \<Rightarrow> Some (parse_name env vol j l b len))"

text \<open>An iterator at the index \<open>i\<close>, which may be behind the last entry.\<close>

definition iter_at :: "nspace \<Rightarrow> nat \<Rightarrow> nat list \<Rightarrow> diri \<Rightarrow> nat \<Rightarrow> bool" where
  "iter_at vol cluster cs it i \<longleftrightarrow>
     (if i < node_entries vol cs then diri_at vol cluster cs it i else current_block it = None \<and> current_index it = i)"

lemma length_dir_entries [simp]: "length (dir_entries vol cs) = node_entries vol cs"
  by (simp add: dir_entries_def)

lemma nth_dir_entries: "i < node_entries vol cs \<Longrightarrow> dir_entries vol cs ! i = dir_entry vol cs i"
  by (simp add: dir_entries_def)

lemma drop_dir_entries:
  "i < node_entries vol cs \<Longrightarrow> drop i (dir_entries vol cs) = dir_entry vol cs i # drop (i + 1) (dir_entries vol cs)"
  using Cons_nth_drop_Suc[of i "dir_entries vol cs"] by (simp add: nth_dir_entries)

lemma dir_entries_frame: "dir_entries (vol\<lparr>fault := x\<rparr>) cs = dir_entries vol cs"
  by (simp add: dir_entries_def dir_entry_def node_entries_def node_sectors_def entries_per_block_def entry_data_def
      block_data_def node_ptr_def[abs_def] node_block_def[abs_def])

lemma node_entries_fuel:
  assumes "dir_ok vol cluster cs"
  shows "node_entries vol cs + 2 \<le> dir_fuel vol"
proof -
  have "node_sectors vol cs \<le> total_clusters vol * sectors_per_cluster vol + root_sectors vol"
  proof (cases "cs = []")
    case False
    have "fat_chain vol cs" using dir_okD(2)[OF assms] False by (simp add: node_layout_def)
    then have "length cs \<le> total_clusters vol"
      using ft.chain_length[OF vol_okD(1)[OF dir_okD(1)[OF assms]], of cs] fat_chain_eq[OF vol_okD(1)[OF dir_okD(1)[OF assms]]] by simp
    then show ?thesis using False mult_le_mono1[of "length cs" "total_clusters vol" "sectors_per_cluster vol"]
      by (simp add: node_sectors_def trans_le_add1)
  qed (simp add: node_sectors_def)
  then show ?thesis unfolding dir_fuel_def node_entries_def
    using mult_le_mono1[of "node_sectors vol cs" "total_clusters vol * sectors_per_cluster vol + root_sectors vol" "entries_per_block vol"]
    by linarith
qed

lemma iter_at_next:
  assumes "dir_ok vol cluster cs" "diri_at vol cluster cs d i"
  shows "\<exists>d'. diri_next_entry vol d = (if i + 1 < node_entries vol cs then Some (node_ptr vol cs (i + 1)) else None, d')
    \<and> iter_at vol cluster cs d' (i + 1)"
  using diri_next_node[OF assms] by (cases "i + 1 < node_entries vol cs") (auto simp: iter_at_def)

lemma iter_at_current:
  "iter_at vol cluster cs it i \<Longrightarrow> i < node_entries vol cs \<Longrightarrow> diri_current_entry vol it = Some (node_ptr vol cs i)"
  by (simp add: iter_at_def diri_at_def diri_current_entry_def diri_entry_def node_ptr_def)

subsection \<open>The search for the next short entry\<close>

lemma next_dirent_loop_scan:
  assumes "dir_ok vol cluster cs" "iter_at vol cluster cs it i" "node_entries vol cs - i < k"
  shows "case scan_entries i (drop i (dir_entries vol cs)) l of
      None \<Rightarrow> next_dirent_loop k vol it l (if i < node_entries vol cs then Some (node_ptr vol cs i) else None) = None
    | Some None \<Rightarrow> (\<exists>it' l'. next_dirent_loop k vol it l (if i < node_entries vol cs then Some (node_ptr vol cs i) else None)
        = Some (None, it', l'))
    | Some (Some (j, b, l')) \<Rightarrow> i \<le> j \<and> j < node_entries vol cs \<and> b = dir_entry vol cs j
        \<and> (\<exists>it'. next_dirent_loop k vol it l (if i < node_entries vol cs then Some (node_ptr vol cs i) else None)
             = Some (Some (node_ptr vol cs j), it', l') \<and> diri_at vol cluster cs it' j)"
  using assms(2,3)
proof (induction k arbitrary: it i l)
  case (Suc k)
  show ?case
  proof (cases "i < node_entries vol cs")
    case False
    then show ?thesis by simp
  next
    case True
    let ?b = "dir_entry vol cs i"
    have at: "diri_at vol cluster cs it i" using Suc.prems(1) True by (simp add: iter_at_def)
    then have idx: "current_index it = i" by (simp add: diri_at_def)
    have dat: "entry_data vol (node_ptr vol cs i) = ?b" by (simp add: dir_entry_def)
    obtain it' where nxt: "diri_next_entry vol it = (if i + 1 < node_entries vol cs then Some (node_ptr vol cs (i + 1)) else None, it')"
      and at': "iter_at vol cluster cs it' (i + 1)" using iter_at_next[OF assms(1) at] by blast
    have fuel: "node_entries vol cs - (i + 1) < k" using Suc.prems(2) True by linarith
    note IH = Suc.IH[OF at' fuel]
    consider "?b ! 0 = 0" | "?b ! 0 = 0xe5" | "?b ! 0 \<noteq> 0" "?b ! 0 \<noteq> 0xe5" "?b ! 0xb = 0xf" "lfn_step i ?b l = None"
      | l' where "?b ! 0 \<noteq> 0" "?b ! 0 \<noteq> 0xe5" "?b ! 0xb = 0xf" "lfn_step i ?b l = Some l'"
      | "?b ! 0 \<noteq> 0" "?b ! 0 \<noteq> 0xe5" "?b ! 0xb \<noteq> 0xf" by (cases "lfn_step i ?b l") auto
    then show ?thesis
    proof cases
      case 2
      then show ?thesis using IH[of "l\<lparr>start_index := 0xffff\<rparr>"] True nxt dat drop_dir_entries[OF True]
        by (auto simp: Let_def split: option.splits prod.splits)
    next
      case 4
      then show ?thesis using IH[of l'] True nxt dat drop_dir_entries[OF True] idx
        by (auto simp: Let_def split: option.splits prod.splits)
    qed (use True at dat drop_dir_entries[OF True] idx in \<open>auto simp: Let_def\<close>)
  qed
qed simp

lemma next_dirent_parse:
  assumes "dir_ok vol cluster cs" "iter_at vol cluster cs it i" "15 \<le> len"
  shows "case parse_dirent env vol (dir_entries vol cs) i (nat len) of
      None \<Rightarrow> next_dirent env vol it len = (Inl B_ERROR, vol\<lparr>fault := True\<rparr>, it)
    | Some (Inl e) \<Rightarrow> (\<exists>it'. next_dirent env vol it len = (Inl e, vol, it'))
    | Some (Inr (info, filename)) \<Rightarrow> i \<le> di_eindex info \<and> di_eindex info < node_entries vol cs
        \<and> (\<exists>it'. next_dirent env vol it len = (Inr (info, filename), vol, it') \<and> iter_at vol cluster cs it' (di_eindex info + 1))"
proof (cases "i < node_entries vol cs")
  case False
  then show ?thesis using assms(2) by (simp add: iter_at_def parse_dirent_def next_dirent_def)
next
  case True
  have cb: "current_block it \<noteq> None" using assms(2) True by (simp add: iter_at_def diri_at_def)
  have nd: "next_dirent env vol it len = (case next_dirent_loop (dir_fuel vol) vol it no_lfn (Some (node_ptr vol cs i)) of
             None \<Rightarrow> (Inl B_ERROR, vol\<lparr>fault := True\<rparr>, it)
           | Some (None, iter, l) \<Rightarrow> (Inl ENOENT, vol, iter)
           | Some (Some p, iter, l) \<Rightarrow> next_dirent_name env vol iter l (entry_data vol p) (nat len))"
    unfolding next_dirent_def if_not_P[OF cb] using assms(3) iter_at_current[OF assms(2) True] by simp
  have "node_entries vol cs - i < dir_fuel vol" using node_entries_fuel[OF assms(1)] by linarith
  note S = next_dirent_loop_scan[OF assms(1,2) this, of no_lfn]
  show ?thesis
  proof (cases "scan_entries i (drop i (dir_entries vol cs)) no_lfn")
    case None
    then show ?thesis using S True nd by (simp add: parse_dirent_def)
  next
    case (Some r)
    show ?thesis
    proof (cases r)
      case r: None
      then show ?thesis using S True nd Some by (auto simp: parse_dirent_def)
    next
      case r: (Some x)
      obtain j b l where x: "x = (j, b, l)" by (cases x)
      obtain it' where j: "i \<le> j" "j < node_entries vol cs" "b = dir_entry vol cs j"
        and lp: "next_dirent_loop (dir_fuel vol) vol it no_lfn (Some (node_ptr vol cs i)) = Some (Some (node_ptr vol cs j), it', l)"
        and at: "diri_at vol cluster cs it' j"
        using S True Some r x by auto
      have idx: "current_index it' = j" and ed: "entry_data vol (node_ptr vol cs j) = b"
        using at j by (simp_all add: diri_at_def dir_entry_def)
      obtain it2 where n: "snd (diri_next_entry vol it') = it2" "iter_at vol cluster cs it2 (j + 1)"
        using iter_at_next[OF assms(1) at] by auto
      have p: "parse_dirent env vol (dir_entries vol cs) i (nat len) = Some (parse_name env vol j l b (nat len))"
        using Some r x by (simp add: parse_dirent_def)
      have ei: "di_eindex (entry_info vol s j b) = j" for s by (simp add: entry_info_def)
      show ?thesis unfolding p nd lp
        using j n idx ed ei by (auto simp: parse_name_def next_dirent_name_def Let_def split: prod.splits)
    qed
  qed
qed

end
