(* ===== verification/Find_File.thy ===== *)
theory Find_File
  imports Dirent
begin

text \<open>
  What the search functions of \<^verbatim>\<open>fat/dir.c\<close> find: \<^verbatim>\<open>get_next_dirent\<close> and \<^verbatim>\<open>findfile\<close> refine a search in the list of
  a directory's files. The list is \<open>listing\<close>, the abstract contents of the directory.
\<close>

section \<open>Definitions\<close>

lemma scan_entries_bounds:
  "scan_entries i bs l = Some (Some (j, b, l')) \<Longrightarrow> i \<le> j \<and> j < i + length bs"
  by (induction i bs l rule: scan_entries.induct) (auto split: if_splits option.splits)

lemma parse_name_eindex: "parse_name env vol i l b len = Inr (info, filename) \<Longrightarrow> di_eindex info = i"
  by (auto simp: parse_name_def Let_def entry_info_def split: if_splits prod.splits)

lemma parse_dirent_bounds:
  assumes "parse_dirent env vol es i len = Some (Inr (info, filename))"
  shows "i \<le> di_eindex info \<and> di_eindex info < length es"
proof -
  obtain j b l where s: "scan_entries i (drop i es) no_lfn = Some (Some (j, b, l))"
    and p: "parse_name env vol j l b len = Inr (info, filename)"
    using assms by (auto simp: parse_dirent_def split: option.splits)
  have "i < length es" using s by (cases "i < length es") auto
  then show ?thesis using scan_entries_bounds[OF s] parse_name_eindex[OF p] by simp
qed

text \<open>The files of a directory from the index \<open>i\<close> on. There is none if a search runs into an entry with part number 0
  or into a name that does not fit.\<close>

function listing :: "env \<Rightarrow> nspace \<Rightarrow> block list \<Rightarrow> nat \<Rightarrow> (dirent_info \<times> name) list option" where
  "listing env vol es i =
     (case parse_dirent env vol es i 512 of
        None \<Rightarrow> None
      | Some (Inl e) \<Rightarrow> if e = ENOENT then Some [] else None
      | Some (Inr (info, filename)) \<Rightarrow> map_option ((#) (info, filename)) (listing env vol es (di_eindex info + 1)))"
  by pat_completeness auto
termination
  by (relation "measure (\<lambda>(env, vol, es, i). length es - i)") (auto dest: parse_dirent_bounds)

declare listing.simps [simp del]

text \<open>The files that \<^verbatim>\<open>get_next_dirent\<close> shows: no volume labels in the root directory.\<close>

definition is_label :: "nspace \<Rightarrow> vnode \<Rightarrow> dirent_info \<times> name \<Rightarrow> bool" where
  "is_label vol dir f \<longleftrightarrow> di_mode (fst f) AND FAT_VOLUME \<noteq> 0 \<and> vn_vnid dir = vn_vnid (root_vnode vol)"

definition dir_files :: "env \<Rightarrow> nspace \<Rightarrow> vnode \<Rightarrow> nat list \<Rightarrow> (dirent_info \<times> name) list option" where
  "dir_files env vol dir cs = map_option (filter (\<lambda>f. \<not> is_label vol dir f)) (listing env vol (dir_entries vol cs) 0)"

text \<open>The location of a file and what its vnode id has to satisfy.\<close>

definition file_loc :: "nspace \<Rightarrow> vnode \<Rightarrow> dirent_info \<Rightarrow> ino_t" where
  "file_loc vol dir info =
     (if IS_DATA_CLUSTER vol (int (di_cluster info)) then GENERATE_DIR_CLUSTER_VNID (vn_vnid dir) (di_cluster info)
      else GENERATE_DIR_INDEX_VNID (vn_vnid dir) (di_sindex info))"

definition file_vnid :: "nspace \<Rightarrow> vnode \<Rightarrow> dirent_info \<times> name \<Rightarrow> ino_t \<Rightarrow> bool" where
  "file_vnid vol dir f vnid \<longleftrightarrow>
     (if snd f = dot then vnid = vn_vnid dir else if snd f = dotdot then vnid = vn_dir_vnid dir
      else vloc (vol_vcache vol) vnid = file_loc vol dir (fst f))"

text \<open>The search on the list.\<close>

fun find_in :: "bool \<Rightarrow> bool \<Rightarrow> name \<Rightarrow> (dirent_info \<times> name) list \<Rightarrow> (dirent_info \<times> name) option \<Rightarrow> bool \<Rightarrow>
    (dirent_info \<times> name) option \<times> bool" where
  "find_in check_case check_dups file [] found dups = (found, dups)"
| "find_in check_case check_dups file (f # fs) found dups =
     (let (found, dups) =
        (if check_case then
           if found = None \<and> snd f = file then (Some f, dups) else (found, dups \<or> check_dups \<and> strcasecmp0 (snd f) file)
         else if strcasecmp0 (snd f) file then (Some f, dups \<or> check_dups \<and> found \<noteq> None)
         else (found, dups))
      in if found \<noteq> None \<and> (\<not> check_dups \<or> dups) then (found, dups)
         else find_in check_case check_dups file fs found dups)"

text \<open>The ids that \<^verbatim>\<open>generate_unique_vnid\<close> has not given out are not in use, and there are \<open>k\<close> of them.\<close>

definition new_vnids :: "vcache \<Rightarrow> ino_t set" where
  "new_vnids vc = (\<lambda>j. ARTIFICIAL_VNID_BITS + word_of_nat j) ` {unat (cur_vnid vc - ARTIFICIAL_VNID_BITS)..<2 ^ 60}"

definition vnids_ok :: "nat \<Rightarrow> vcache \<Rightarrow> bool" where
  "vnids_ok k vc \<longleftrightarrow> vcache_ok vc \<and> unat (cur_vnid vc - ARTIFICIAL_VNID_BITS) + k \<le> 2 ^ 60 \<and> (\<forall>v \<in> new_vnids vc. vmap vc v = None)"

text \<open>Two states that differ in the bookkeeping of vnode ids only.\<close>

definition same_disk :: "nspace \<Rightarrow> nspace \<Rightarrow> bool" where
  "same_disk vol vol' \<longleftrightarrow> vol' = vol\<lparr>vol_vcache := vol_vcache vol', vol_dlist := vol_dlist vol'\<rparr>"

definition env_ok :: "env \<Rightarrow> bool" where
  "env_ok env \<longleftrightarrow> env_mem env \<and> (\<forall>n. env_vnid_mem env n \<noteq> None)"

section \<open>Theorems\<close>

subsection \<open>States with the same disk\<close>

lemma same_disk_refl [simp]: "same_disk vol vol"
  by (simp add: same_disk_def)

lemma same_disk_trans: "same_disk a b \<Longrightarrow> same_disk b c \<Longrightarrow> same_disk a c"
  unfolding same_disk_def by (cases a; cases b; cases c) simp

lemma same_diskI [intro]: "same_disk vol (vol\<lparr>vol_vcache := vc\<rparr>)" "same_disk vol (vol\<lparr>vol_dlist := dl\<rparr>)"
  by (simp_all add: same_disk_def)

lemma same_disk_fields:
  assumes "same_disk vol vol'"
  shows "root_vnode vol' = root_vnode vol" "fat_bits vol' = fat_bits vol" "fBlockCache vol' = fBlockCache vol" "fault vol' = fault vol"
    "geometry vol' = geometry vol" "fat_kept vol vol'" "IS_DATA_CLUSTER vol' = IS_DATA_CLUSTER vol" "dir_fuel vol' = dir_fuel vol"
    "total_clusters vol' = total_clusters vol"
proof -
  obtain vc dl where v: "vol' = vol\<lparr>vol_vcache := vc, vol_dlist := dl\<rparr>" using assms unfolding same_disk_def by metis
  show "root_vnode vol' = root_vnode vol" "fat_bits vol' = fat_bits vol" "fBlockCache vol' = fBlockCache vol" "fault vol' = fault vol"
    "geometry vol' = geometry vol" "fat_kept vol vol'" "IS_DATA_CLUSTER vol' = IS_DATA_CLUSTER vol" "dir_fuel vol' = dir_fuel vol"
    "total_clusters vol' = total_clusters vol"
    by (simp_all add: v geometry_def fat_kept_def fun_eq_iff IS_DATA_CLUSTER_def dir_fuel_def entries_per_block_def)
qed

lemma same_disk_parse:
  assumes "same_disk vol vol'"
  shows "dir_entries vol' = dir_entries vol" "parse_dirent env vol' = parse_dirent env vol"
    "iter_at vol' cluster cs it i \<longleftrightarrow> iter_at vol cluster cs it i" "is_label vol' dir = is_label vol dir" "file_loc vol' dir = file_loc vol dir"
    "dir_ok vol cluster cs \<Longrightarrow> dir_ok vol' cluster cs"
proof -
  note f = same_disk_fields[OF assms] and ge = geometry_ext[OF same_disk_fields(5)[OF assms]]
  show "dir_entries vol' = dir_entries vol"
    by (simp add: fun_eq_iff dir_entries_def dir_entry_def entry_data_def block_data_def f ge)
  have e: "entry_info vol' = entry_info vol" by (simp add: fun_eq_iff entry_info_def f)
  have pn: "parse_name env vol' = parse_name env vol" unfolding parse_name_def[abs_def] e by (rule refl)
  show "parse_dirent env vol' = parse_dirent env vol" unfolding parse_dirent_def[abs_def] pn by (rule refl)
  show "iter_at vol' cluster cs it i \<longleftrightarrow> iter_at vol cluster cs it i" by (simp add: iter_at_def diri_at_def ge)
  show "is_label vol' dir = is_label vol dir" "file_loc vol' dir = file_loc vol dir"
    by (simp_all add: fun_eq_iff is_label_def file_loc_def f)
  show "dir_ok vol cluster cs \<Longrightarrow> dir_ok vol' cluster cs"
    using fat_kept_chain(3)[OF f(6)] dir_okD(1) vol_okD(1) by blast
qed

lemma same_disk_listing: "same_disk vol vol' \<Longrightarrow> listing env vol' es i = listing env vol es i"
proof (induction env vol es i rule: listing.induct)
  case (1 env vol es i)
  show ?case
    unfolding listing.simps[of env vol es i] listing.simps[of env vol' es i] same_disk_parse(2)[OF 1(2)]
    using 1 by (auto split: option.split sum.split)
qed

subsection \<open>Vnode ids\<close>

lemma file_loc_kind:
  assumes "CLUSTER_OF_DIR_CLUSTER_VNID (vn_vnid dir) < 2 ^ 28" "di_cluster info < 2 ^ 32" "di_sindex info < 2 ^ 32"
  shows "\<not> IS_ARTIFICIAL_VNID (file_loc vol dir info)" "\<not> IS_INVALID_VNID (file_loc vol dir info)"
    "DIR_OF_VNID (file_loc vol dir info) = CLUSTER_OF_DIR_CLUSTER_VNID (vn_vnid dir)"
    "IS_DIR_CLUSTER_VNID (file_loc vol dir info) \<longleftrightarrow> IS_DATA_CLUSTER vol (int (di_cluster info))"
    "IS_DATA_CLUSTER vol (int (di_cluster info)) \<Longrightarrow> CLUSTER_OF_DIR_CLUSTER_VNID (file_loc vol dir info) = di_cluster info"
    "\<not> IS_DATA_CLUSTER vol (int (di_cluster info)) \<Longrightarrow> INDEX_OF_DIR_INDEX_VNID (file_loc vol dir info) = di_sindex info"
proof -
  let ?d = "CLUSTER_OF_DIR_CLUSTER_VNID (vn_vnid dir)"
  have d: "word_of_nat ?d = take_bit 32 (vn_vnid dir)"
    by (simp add: CLUSTER_OF_DIR_CLUSTER_VNID_def take_bit_32_and)
  have push: "push_bit 32 (vn_vnid dir) = push_bit 32 (word_of_nat ?d)"
    unfolding d by (rule bit_eqI) (auto simp: bit_push_bit_iff bit_take_bit_iff)
  have l: "file_loc vol dir info = (if IS_DATA_CLUSTER vol (int (di_cluster info))
      then GENERATE_DIR_CLUSTER_VNID (word_of_nat ?d) (di_cluster info) else GENERATE_DIR_INDEX_VNID (word_of_nat ?d) (di_sindex info))"
    by (simp add: file_loc_def GENERATE_DIR_CLUSTER_VNID_def GENERATE_DIR_INDEX_VNID_def push)
  note c = dir_cluster_vnid[OF assms(1,2)] and i = dir_index_vnid[OF assms(1,3)]
  show "\<not> IS_ARTIFICIAL_VNID (file_loc vol dir info)" "\<not> IS_INVALID_VNID (file_loc vol dir info)"
    "DIR_OF_VNID (file_loc vol dir info) = ?d"
    "IS_DIR_CLUSTER_VNID (file_loc vol dir info) \<longleftrightarrow> IS_DATA_CLUSTER vol (int (di_cluster info))"
    "IS_DATA_CLUSTER vol (int (di_cluster info)) \<Longrightarrow> CLUSTER_OF_DIR_CLUSTER_VNID (file_loc vol dir info) = di_cluster info"
    "\<not> IS_DATA_CLUSTER vol (int (di_cluster info)) \<Longrightarrow> INDEX_OF_DIR_INDEX_VNID (file_loc vol dir info) = di_sindex info"
    using c i unfolding l by auto
qed

lemma new_vnids_artificial: "v \<in> new_vnids vc \<Longrightarrow> IS_ARTIFICIAL_VNID v"
  by (auto simp: new_vnids_def artificial_vnid(1))

lemma vnids_ok_generate:
  assumes "vnids_ok (Suc k) vc"
  shows "cur_vnid vc \<in> new_vnids vc" "new_vnids (vc\<lparr>cur_vnid := cur_vnid vc + 1\<rparr>) = new_vnids vc - {cur_vnid vc}"
    "unat (cur_vnid vc + 1 - ARTIFICIAL_VNID_BITS) = Suc (unat (cur_vnid vc - ARTIFICIAL_VNID_BITS))"
proof -
  define i where "i = unat (cur_vnid vc - ARTIFICIAL_VNID_BITS)"
  have i: "i < 2 ^ 60" using assms by (simp add: vnids_ok_def i_def)
  have cur: "cur_vnid vc = ARTIFICIAL_VNID_BITS + word_of_nat i" by (simp add: i_def)
  then show "cur_vnid vc \<in> new_vnids vc" unfolding new_vnids_def i_def[symmetric] using i by auto
  have n: "unat (word_of_nat j :: ino_t) = j" if "j \<le> 2 ^ 60" for j using that by (simp add: unat_of_nat)
  have e: "cur_vnid vc + 1 - ARTIFICIAL_VNID_BITS = word_of_nat (Suc i)" by (simp add: cur)
  show s: "unat (cur_vnid vc + 1 - ARTIFICIAL_VNID_BITS) = Suc (unat (cur_vnid vc - ARTIFICIAL_VNID_BITS))"
    unfolding e i_def[symmetric] using n[of "Suc i"] i by (simp del: of_nat_Suc)
  have inj: "inj_on (\<lambda>j. ARTIFICIAL_VNID_BITS + word_of_nat j) {..<2 ^ 60}"
    by (rule inj_onI) (metis add_left_cancel lessThan_iff less_imp_le n)
  have "{Suc i..<2 ^ 60} = {i..<2 ^ 60} - {i}" using i by auto
  then have "(\<lambda>j. ARTIFICIAL_VNID_BITS + word_of_nat j :: ino_t) ` {Suc i..<2 ^ 60}
      = (\<lambda>j. ARTIFICIAL_VNID_BITS + word_of_nat j) ` ({i..<2 ^ 60} - {i})" by (rule arg_cong)
  also have "\<dots> = (\<lambda>j. ARTIFICIAL_VNID_BITS + word_of_nat j) ` {i..<2 ^ 60} - (\<lambda>j. ARTIFICIAL_VNID_BITS + word_of_nat j) ` {i}"
    by (rule inj_on_image_set_diff[OF inj]) (use i in auto)
  finally show "new_vnids (vc\<lparr>cur_vnid := cur_vnid vc + 1\<rparr>) = new_vnids vc - {cur_vnid vc}"
    unfolding new_vnids_def using s cur n[of i] i by simp
qed

lemma vmap_inv_cur_vnid [simp]: "vmap_inv (vc\<lparr>cur_vnid := n\<rparr>) = vmap_inv vc"
  by (simp add: vmap_inv_def find_loc_in_vcache_def fun_eq_iff)

text \<open>Giving a vnode id to an entry.\<close>

lemma dirent_vnid_spec:
  assumes "vnids_ok (Suc k) (vol_vcache vol)" "env_ok env"
    and "CLUSTER_OF_DIR_CLUSTER_VNID (vn_vnid dir) < 2 ^ 28" "di_cluster info < 2 ^ 32" "di_sindex info < 2 ^ 32"
  shows "\<exists>vnid vol'. dirent_vnid env vol dir info = (Inr vnid, vol') \<and> same_disk vol vol' \<and> vnids_ok k (vol_vcache vol')
    \<and> vloc (vol_vcache vol') vnid = file_loc vol dir info \<and> vnid \<notin> new_vnids (vol_vcache vol')
    \<and> new_vnids (vol_vcache vol') \<subseteq> new_vnids (vol_vcache vol)
    \<and> (\<forall>v. v \<notin> new_vnids (vol_vcache vol) \<longrightarrow> vmap (vol_vcache vol') v = vmap (vol_vcache vol) v)"
proof -
  define vc where "vc = vol_vcache vol"
  define loc where "loc = file_loc vol dir info"
  have ok: "vcache_ok vc" and new: "\<And>v. v \<in> new_vnids vc \<Longrightarrow> vmap vc v = None" and vk: "vnids_ok (Suc k) vc"
    using assms(1) by (auto simp: vnids_ok_def vc_def)
  have locn: "loc \<notin> new_vnids vc"
    using file_loc_kind(1)[OF assms(3-5)] new_vnids_artificial unfolding loc_def by blast
  have k': "vnids_ok k vc" using vk by (simp add: vnids_ok_def)
  have id: "\<exists>vnid vc' added. dirent_id env vc loc = (Inr vnid, vc', added) \<and> vnids_ok k vc' \<and> vloc vc' vnid = loc \<and> vnid \<notin> new_vnids vc'
      \<and> new_vnids vc' \<subseteq> new_vnids vc \<and> (\<forall>v. v \<notin> new_vnids vc \<longrightarrow> vmap vc' v = vmap vc v)"
  proof (cases "vmap_inv vc loc")
    case (Some v)
    then have "vcache_loc_to_vnid vc loc = (B_OK, Some v)" by (auto simp: vmap_inv_def vcache_loc_to_vnid_def split: option.splits)
    moreover have "vmap vc v = Some loc" using vc.inverse[OF ok] Some by blast
    ultimately show ?thesis using k' new[of v] by (auto simp: dirent_id_def vloc_def errno_defs)
  next
    case None
    then have l: "vcache_loc_to_vnid vc loc = (ENOENT, None)" by (auto simp: vmap_inv_def vcache_loc_to_vnid_def split: option.splits)
    show ?thesis
    proof (cases "vmap vc loc")
      case n: None
      then have "find_vnid_in_vcache vc loc = None" by (simp add: vmap_def)
      then have "dirent_id env vc loc = (Inr loc, vc, False)" using l by (simp add: dirent_id_def)
      moreover have "vloc vc loc = loc" using n by (simp add: vloc_def)
      ultimately show ?thesis using k' locn by blast
    next
      case (Some x)
      let ?v = "cur_vnid vc" and ?c = "vc\<lparr>cur_vnid := cur_vnid vc + 1\<rparr>"
      note g = vnids_ok_generate[OF vk]
      have vn: "vmap ?c ?v = None" using new[OF g(1)] by simp
      have inv: "vmap_inv ?c loc = None" using None by simp
      have "?v \<noteq> loc" using g(1) locn by blast
      define vc' where "vc' = vcache_put ?c ?v loc"
      note P = vc.put[of ?c ?v loc, unfolded vc'_def[symmetric]]
      have p: "vcache_ok vc'" "vmap vc' = (vmap vc)(?v \<mapsto> loc)" using P ok vn inv \<open>?v \<noteq> loc\<close> by simp_all
      have cv: "cur_vnid vc' = cur_vnid vc + 1" by (simp add: vc'_def vcache_put_def do_add_to_vcache_def Let_def)
      then have nv: "new_vnids vc' = new_vnids vc - {?v}" using g(2) by (simp add: new_vnids_def)
      have "find_vnid_in_vcache vc loc \<noteq> None" using Some by (auto simp: vmap_def)
      moreover have "add_to_vcache (env_mem env) ?c ?v loc = (B_OK, vc')"
        using assms(2) by (simp add: env_ok_def add_to_vcache_def vc'_def vcache_put_def do_add_to_vcache_def Let_def)
      ultimately have "dirent_id env vc loc = (Inr ?v, vc', True)" using l by (simp add: dirent_id_def generate_unique_vnid_def errno_defs)
      moreover have "vnids_ok k vc'" using p new vk nv cv g(3) by (auto simp: vnids_ok_def)
      ultimately show ?thesis using p nv g(1) by (auto simp: vloc_def)
    qed
  qed
  then obtain vnid vc' added where idv: "dirent_id env vc loc = (Inr vnid, vc', added)" and I: "vnids_ok k vc'" "vloc vc' vnid = loc" "vnid \<notin> new_vnids vc'"
    "new_vnids vc' \<subseteq> new_vnids vc" "\<forall>v. v \<notin> new_vnids vc \<longrightarrow> vmap vc' v = vmap vc v" by blast
  have da: "\<exists>dl'. dlist_add (env_vnid_mem env) dl vnid = (B_OK, dl')" for dl
  proof -
    obtain xs where "env_vnid_mem env (u32 (dl_allocated dl + DLIST_ENTRY_QUANTUM)) = Some xs" using assms(2) by (auto simp: env_ok_def)
    then show ?thesis by (simp add: dlist_add_def dlist_realloc_def Let_def errno_defs)
  qed
  define vol1 where "vol1 = vol\<lparr>vol_vcache := vc'\<rparr>"
  obtain dl' where dl: "dlist_add (env_vnid_mem env) (vol_dlist vol1) vnid = (B_OK, dl')" using da by blast
  have r: "dirent_vnid env vol dir info = (Inr vnid,
      if di_mode info AND FAT_SUBDIR \<noteq> 0 \<and> dlist_find vc' (vol_dlist vol1) (di_cluster info) = - 1 then vol1\<lparr>vol_dlist := dl'\<rparr> else vol1)"
    using dl idv by (simp add: dirent_vnid_def file_loc_def[symmetric] loc_def[symmetric] vc_def[symmetric] vol1_def Let_def B_OK_def)
  have sd: "same_disk vol vol1" "same_disk vol (vol1\<lparr>vol_dlist := dl'\<rparr>)"
    by (simp_all add: vol1_def same_disk_def)
  show ?thesis unfolding r using I sd vol1_def by (auto simp: vc_def loc_def)
qed

subsection \<open>Walking through the files\<close>

lemma listing_Some:
  assumes "listing env vol es i = Some fs"
  shows "(case fs of [] \<Rightarrow> parse_dirent env vol es i 512 = Some (Inl ENOENT)
    | f # fs' \<Rightarrow> parse_dirent env vol es i 512 = Some (Inr f) \<and> listing env vol es (di_eindex (fst f) + 1) = Some fs')"
  using assms by (subst (asm) listing.simps) (auto split: option.splits sum.splits if_splits)

lemma listing_length: "listing env vol es i = Some fs \<Longrightarrow> i \<le> length es \<Longrightarrow> length fs \<le> length es - i"
proof (induction fs arbitrary: i)
  case (Cons f fs)
  have p: "parse_dirent env vol es i 512 = Some (Inr f)" and l: "listing env vol es (di_eindex (fst f) + 1) = Some fs"
    using listing_Some[OF Cons.prems(1)] by simp_all
  have "i \<le> di_eindex (fst f)" "di_eindex (fst f) < length es" using parse_dirent_bounds[of env vol es i 512 "fst f" "snd f"] p by simp_all
  then show ?case using Cons.IH[OF l] by simp
qed simp

lemma skip_labels_listing:
  assumes "dir_ok vol cluster cs" "iter_at vol cluster cs it i" "listing env vol (dir_entries vol cs) i = Some fs" "length fs < k"
  shows "case dropWhile (is_label vol dir) fs of
      [] \<Rightarrow> (\<exists>it'. skip_labels k env vol dir it 512 = (Inl ENOENT, vol, it'))
    | f # fs' \<Rightarrow> (\<exists>it'. skip_labels k env vol dir it 512 = (Inr f, vol, it') \<and> iter_at vol cluster cs it' (di_eindex (fst f) + 1))
        \<and> listing env vol (dir_entries vol cs) (di_eindex (fst f) + 1) = Some fs'"
  using assms(2-4)
proof (induction fs arbitrary: it i k)
  case Nil
  then obtain k' where "k = Suc k'" by (cases k) auto
  moreover obtain it' where "next_dirent env vol it 512 = (Inl ENOENT, vol, it')"
    using next_dirent_parse[OF assms(1) Nil(1), of 512 env] listing_Some[OF Nil(2)] by auto
  ultimately show ?case by simp
next
  case (Cons f fs)
  then obtain k' where k: "k = Suc k'" "length fs < k'" by (cases k) auto
  have p: "parse_dirent env vol (dir_entries vol cs) i 512 = Some (Inr f)"
    and l: "listing env vol (dir_entries vol cs) (di_eindex (fst f) + 1) = Some fs"
    using listing_Some[OF Cons.prems(2)] by simp_all
  obtain it' where n: "next_dirent env vol it 512 = (Inr f, vol, it')" and at: "iter_at vol cluster cs it' (di_eindex (fst f) + 1)"
    using next_dirent_parse[OF assms(1) Cons.prems(1), of 512 env] p by (cases f) auto
  show ?case
  proof (cases "is_label vol dir f")
    case True
    then have sk: "skip_labels k env vol dir it 512 = skip_labels k' env vol dir it' 512"
      using n k(1) by (cases f) (simp add: is_label_def)
    have dw: "dropWhile (is_label vol dir) (f # fs) = dropWhile (is_label vol dir) fs" using True by simp
    show ?thesis unfolding sk dw by (rule Cons.IH[OF at l k(2)])
  next
    case False
    then have "skip_labels k env vol dir it 512 = (Inr f, vol, it')"
      using n k(1) by (cases f) (auto simp: is_label_def)
    then show ?thesis using False at l by simp
  qed
qed

text \<open>Directories whose entries have fields in the range of a vnode id.\<close>

definition dir_id_ok :: "vnode \<Rightarrow> (dirent_info \<times> name) list \<Rightarrow> bool" where
  "dir_id_ok dir fs \<longleftrightarrow> CLUSTER_OF_DIR_CLUSTER_VNID (vn_vnid dir) < 2 ^ 28
     \<and> list_all (\<lambda>f. di_cluster (fst f) < 2 ^ 32 \<and> di_sindex (fst f) < 2 ^ 32) fs"

lemma file_vnid_later:
  assumes "file_vnid vol dir f v" "v \<notin> new_vnids (vol_vcache vol) \<or> snd f = dot \<or> snd f = dotdot" "same_disk vol vol'"
    "\<forall>v. v \<notin> new_vnids (vol_vcache vol) \<longrightarrow> vmap (vol_vcache vol') v = vmap (vol_vcache vol) v"
  shows "file_vnid vol' dir f v"
  using assms same_disk_parse(5)[OF assms(3), of dir] by (auto simp: file_vnid_def vloc_def)

text \<open>What a step keeps of the state of vnode ids.\<close>

definition ids_grow :: "nat \<Rightarrow> nspace \<Rightarrow> nspace \<Rightarrow> bool" where
  "ids_grow k vol vol' \<longleftrightarrow> same_disk vol vol' \<and> vnids_ok k (vol_vcache vol')
     \<and> new_vnids (vol_vcache vol') \<subseteq> new_vnids (vol_vcache vol)
     \<and> (\<forall>v. v \<notin> new_vnids (vol_vcache vol) \<longrightarrow> vmap (vol_vcache vol') v = vmap (vol_vcache vol) v)"

lemma ids_grow_trans: "ids_grow j a b \<Longrightarrow> ids_grow k b c \<Longrightarrow> ids_grow k a c"
  unfolding ids_grow_def using same_disk_trans by (metis subset_eq)

lemma ids_grow_refl: "vnids_ok k (vol_vcache vol) \<Longrightarrow> ids_grow k vol vol"
  by (simp add: ids_grow_def)

lemma get_next_dirent_listing:
  assumes "dir_ok vol cluster cs" "iter_at vol cluster cs it i" "listing env vol (dir_entries vol cs) i = Some fs"
    and "vnids_ok (Suc k) (vol_vcache vol)" "env_ok env" "dir_id_ok dir fs" "i \<le> node_entries vol cs"
  shows "case dropWhile (is_label vol dir) fs of
      [] \<Rightarrow> (\<exists>it'. get_next_dirent env vol dir it 512 = (Inl ENOENT, vol, it'))
    | f # fs' \<Rightarrow> (\<exists>vnid vol' it'. get_next_dirent env vol dir it 512 = (Inr (vnid, snd f), vol', it')
        \<and> ids_grow k vol vol' \<and> file_vnid vol' dir f vnid
        \<and> (vnid \<notin> new_vnids (vol_vcache vol') \<or> snd f = dot \<or> snd f = dotdot)
        \<and> iter_at vol cluster cs it' (di_eindex (fst f) + 1) \<and> di_eindex (fst f) < node_entries vol cs
        \<and> listing env vol (dir_entries vol cs) (di_eindex (fst f) + 1) = Some fs')"
proof -
  have "length fs < dir_fuel vol" using listing_length[OF assms(3)] assms(7) node_entries_fuel[OF assms(1)] by simp
  note S = skip_labels_listing[OF assms(1-3) this, of dir]
  show ?thesis
  proof (cases "dropWhile (is_label vol dir) fs")
    case Nil
    then obtain it' where "skip_labels (dir_fuel vol) env vol dir it 512 = (Inl ENOENT, vol, it')"
      using S unfolding Nil by auto
    then show ?thesis unfolding Nil by (simp add: get_next_dirent_def)
  next
    case (Cons f fs')
    obtain info name where f: "f = (info, name)" by (cases f)
    obtain it' where s: "skip_labels (dir_fuel vol) env vol dir it 512 = (Inr (info, name), vol, it')"
      and at: "iter_at vol cluster cs it' (di_eindex info + 1)" and l: "listing env vol (dir_entries vol cs) (di_eindex info + 1) = Some fs'"
      using S Cons f by auto
    have "f \<in> set fs" using Cons by (metis list.set_intros(1) set_dropWhileD)
    then have rng: "CLUSTER_OF_DIR_CLUSTER_VNID (vn_vnid dir) < 2 ^ 28" "di_cluster info < 2 ^ 32" "di_sindex info < 2 ^ 32"
      using assms(6) f by (auto simp: dir_id_ok_def list_all_iff)
    have e: "di_eindex info < node_entries vol cs"
    proof (rule ccontr)
      assume "\<not> di_eindex info < node_entries vol cs"
      moreover have "\<exists>j. parse_dirent env vol (dir_entries vol cs) j 512 = Some (Inr f)"
        using \<open>f \<in> set fs\<close> assms(3)
      proof (induction fs arbitrary: i)
        case (Cons g gs)
        then show ?case using listing_Some[OF Cons.prems(2)] by auto
      qed simp
      ultimately show False using parse_dirent_bounds[of env vol "dir_entries vol cs" _ 512 info name] f by auto
    qed
    have vk: "vnids_ok k (vol_vcache vol)" using assms(4) by (simp add: vnids_ok_def)
    show ?thesis
    proof (cases "name = dot \<or> name = dotdot")
      case True
      then have "\<exists>v. get_next_dirent env vol dir it 512 = (Inr (v, name), vol, it') \<and> file_vnid vol dir f v"
        using s by (auto simp: get_next_dirent_def file_vnid_def f)
      then show ?thesis using Cons f True at l e ids_grow_refl[OF vk] by auto
    next
      case False
      obtain v vol' where d: "dirent_vnid env vol dir info = (Inr v, vol')" and D: "same_disk vol vol'" "vnids_ok k (vol_vcache vol')"
        "vloc (vol_vcache vol') v = file_loc vol dir info" "v \<notin> new_vnids (vol_vcache vol')"
        "new_vnids (vol_vcache vol') \<subseteq> new_vnids (vol_vcache vol)"
        "\<forall>v. v \<notin> new_vnids (vol_vcache vol) \<longrightarrow> vmap (vol_vcache vol') v = vmap (vol_vcache vol) v"
        using dirent_vnid_spec[OF assms(4,5) rng] by blast
      have "get_next_dirent env vol dir it 512 = (Inr (v, name), vol', it')"
        using s False d by (simp add: get_next_dirent_def)
      moreover have "file_vnid vol' dir f v" using D(3) False same_disk_parse(5)[OF D(1), of dir] by (simp add: file_vnid_def f)
      moreover have "ids_grow k vol vol'" using D by (simp add: ids_grow_def)
      ultimately show ?thesis using Cons f D(4) at l e by auto
    qed
  qed
qed

subsection \<open>The search\<close>

definition found_vnid :: "nspace \<Rightarrow> vnode \<Rightarrow> (dirent_info \<times> name) option \<Rightarrow> ino_t option \<Rightarrow> bool" where
  "found_vnid vol dir ff fv \<longleftrightarrow>
     (case (ff, fv) of (None, None) \<Rightarrow> True
      | (Some f, Some v) \<Rightarrow> file_vnid vol dir f v \<and> (v \<notin> new_vnids (vol_vcache vol) \<or> snd f = dot \<or> snd f = dotdot)
      | _ \<Rightarrow> False)"

lemma found_vnid_cases:
  "found_vnid vol dir ff fv \<Longrightarrow> ff = None \<longleftrightarrow> fv = None"
  by (auto simp: found_vnid_def split: option.splits)

lemma found_vnid_later: "found_vnid vol dir ff fv \<Longrightarrow> ids_grow k vol vol' \<Longrightarrow> found_vnid vol' dir ff fv"
  using file_vnid_later[of vol dir _ _ vol'] unfolding found_vnid_def ids_grow_def by (auto split: option.splits)

lemma filter_dropWhile:
  "filter (\<lambda>x. \<not> P x) xs = (case dropWhile P xs of [] \<Rightarrow> [] | y # ys \<Rightarrow> y # filter (\<lambda>x. \<not> P x) ys)"
  by (induction xs) auto

lemma dropWhile_rest: "dropWhile P xs = y # ys \<Longrightarrow> length ys < length xs \<and> set ys \<subseteq> set xs"
proof -
  assume a: "dropWhile P xs = y # ys"
  then have x: "xs = takeWhile P xs @ y # ys" by (metis takeWhile_dropWhile_id)
  have "length ys < length (takeWhile P xs @ y # ys) \<and> set ys \<subseteq> set (takeWhile P xs @ y # ys)" by auto
  then show ?thesis unfolding x[symmetric] .
qed

lemma vnids_ok_mono: "vnids_ok k vc \<Longrightarrow> j \<le> k \<Longrightarrow> vnids_ok j vc"
  by (simp add: vnids_ok_def)

lemma findfile_loop_listing:
  assumes "dir_ok vol cluster cs" "iter_at vol cluster cs it i" "listing env vol (dir_entries vol cs) i = Some fs" "length fs < k"
    and "vnids_ok (Suc (length fs + m)) (vol_vcache vol)" "env_ok env" "dir_id_ok dir fs" "i \<le> node_entries vol cs" "found_vnid vol dir ff fv"
  shows "\<exists>v vol'. findfile_loop k env vol dir it file cc cd fv dups
        = (v, snd (find_in cc cd file (filter (\<lambda>f. \<not> is_label vol dir f) fs) ff dups), vol')
      \<and> ids_grow m vol vol' \<and> found_vnid vol' dir (fst (find_in cc cd file (filter (\<lambda>f. \<not> is_label vol dir f) fs) ff dups)) v"
  using assms(1-5,7-9)
proof (induction k arbitrary: vol it i fs ff fv dups)
  case (Suc k)
  note G = get_next_dirent_listing[OF Suc.prems(1-3,5) assms(6) Suc.prems(6,7)]
  show ?case
  proof (cases "dropWhile (is_label vol dir) fs")
    case Nil
    then have nil: "filter (\<lambda>f. \<not> is_label vol dir f) fs = []" by (simp add: filter_empty_conv)
    obtain it' where "get_next_dirent env vol dir it 512 = (Inl ENOENT, vol, it')" using G unfolding Nil by auto
    then have "findfile_loop (Suc k) env vol dir it file cc cd fv dups = (fv, dups, vol)" by simp
    moreover have "ids_grow m vol vol" using ids_grow_refl vnids_ok_mono[OF Suc.prems(5)] by simp
    ultimately show ?thesis unfolding nil using Suc.prems(8) by auto
  next
    case (Cons f fs')
    then have fl: "filter (\<lambda>f. \<not> is_label vol dir f) fs = f # filter (\<lambda>f. \<not> is_label vol dir f) fs'"
      by (simp add: filter_dropWhile)
    obtain vnid vol' it' where g: "get_next_dirent env vol dir it 512 = (Inr (vnid, snd f), vol', it')"
      and gr: "ids_grow (length fs + m) vol vol'" and fv: "file_vnid vol' dir f vnid" "vnid \<notin> new_vnids (vol_vcache vol') \<or> snd f = dot \<or> snd f = dotdot"
      and at: "iter_at vol cluster cs it' (di_eindex (fst f) + 1)" and e: "di_eindex (fst f) + 1 \<le> node_entries vol cs"
      and l: "listing env vol (dir_entries vol cs) (di_eindex (fst f) + 1) = Some fs'"
      using G unfolding Cons by auto
    have sd: "same_disk vol vol'" and vk: "vnids_ok (length fs + m) (vol_vcache vol')" using gr by (auto simp: ids_grow_def)
    note P = same_disk_parse[OF sd] and R = dropWhile_rest[OF Cons]
    define ff1 where "ff1 = (if cc then if ff = None \<and> snd f = file then Some f else ff else if strcasecmp0 (snd f) file then Some f else ff)"
    define fv1 where "fv1 = (if cc then if ff = None \<and> snd f = file then Some vnid else fv
        else if strcasecmp0 (snd f) file then Some vnid else fv)"
    define d1 where "d1 = (dups \<or> cd \<and> strcasecmp0 (snd f) file \<and> (if cc then \<not> (ff = None \<and> snd f = file) else ff \<noteq> None))"
    have fn: "fv = None \<longleftrightarrow> ff = None" using found_vnid_cases[OF Suc.prems(8)] by blast
    have rel: "found_vnid vol' dir ff1 fv1"
      using found_vnid_later[OF Suc.prems(8) gr] fv unfolding ff1_def fv1_def by (auto simp: found_vnid_def)
    have fn1: "fv1 = None \<longleftrightarrow> ff1 = None" using found_vnid_cases[OF rel] by blast
    have lp: "findfile_loop (Suc k) env vol dir it file cc cd fv dups
      = (if fv1 \<noteq> None \<and> (\<not> cd \<or> d1) then (fv1, d1, vol') else findfile_loop k env vol' dir it' file cc cd fv1 d1)"
      using g fn by (auto simp: fv1_def d1_def Let_def)
    have fi: "find_in cc cd file (f # gs) ff dups = (if ff1 \<noteq> None \<and> (\<not> cd \<or> d1) then (ff1, d1) else find_in cc cd file gs ff1 d1)" for gs
      by (auto simp: ff1_def d1_def Let_def)
    show ?thesis
    proof (cases "ff1 \<noteq> None \<and> (\<not> cd \<or> d1)")
      case True
      have "ids_grow m vol vol'" using gr vnids_ok_mono by (auto simp: ids_grow_def)
      then show ?thesis unfolding fl fi lp using True fn1 rel by auto
    next
      case False
      have st: "dir_ok vol' cluster cs" "iter_at vol' cluster cs it' (di_eindex (fst f) + 1)"
        "listing env vol' (dir_entries vol' cs) (di_eindex (fst f) + 1) = Some fs'" "length fs' < k"
        "vnids_ok (Suc (length fs' + m)) (vol_vcache vol')" "dir_id_ok dir fs'" "di_eindex (fst f) + 1 \<le> node_entries vol' cs"
        using P(1,3) P(6)[OF Suc.prems(1)] at l same_disk_listing[OF sd] R Suc.prems(4) vnids_ok_mono[OF vk] Suc.prems(6) e
          geometry_ext(9)[OF same_disk_fields(5)[OF sd]]
        by (auto simp: dir_id_ok_def list_all_iff)
      from Suc.IH[OF st(1-5) st(6,7) rel, of d1] P(4) obtain v vol2 where
        "findfile_loop k env vol' dir it' file cc cd fv1 d1
          = (v, snd (find_in cc cd file (filter (\<lambda>f. \<not> is_label vol dir f) fs') ff1 d1), vol2)"
        "ids_grow m vol' vol2" "found_vnid vol2 dir (fst (find_in cc cd file (filter (\<lambda>f. \<not> is_label vol dir f) fs') ff1 d1)) v" by auto
      then show ?thesis unfolding fl fi lp using False fn1 ids_grow_trans[OF gr] by auto
    qed
  qed
qed simp

text \<open>What the search on the list finds.\<close>

lemma find_in_found: "find_in cc False file fs None False
    = (List.find (\<lambda>f. if cc then snd f = file else strcasecmp0 (snd f) file) fs, False)"
  by (induction fs) auto

lemma find_in_dups_stop: "find_in True True file fs (Some g) dups
    = (Some g, dups \<or> (\<exists>f \<in> set fs. strcasecmp0 (snd f) file))"
  by (induction fs arbitrary: dups) auto

lemma find_in_nocase_stop: "find_in False True file fs (Some g) False
    = (case List.find (\<lambda>f. strcasecmp0 (snd f) file) fs of None \<Rightarrow> (Some g, False) | Some f \<Rightarrow> (Some f, True))"
  by (induction fs) auto

text \<open>The whole search.\<close>

lemma findfile_ids:
  fixes cc cd :: bool
  assumes "dir_ok vol (vn_cluster dir) cs" "0 < node_entries vol cs" "listing env vol (dir_entries vol cs) 0 = Some fs"
    and "vnids_ok (Suc (length fs + m)) (vol_vcache vol)" "env_ok env" "dir_id_ok dir fs"
    and "\<not> (vn_vnid dir = vn_vnid (root_vnode vol) \<and> (file = dot \<or> file = dotdot))"
  defines "r \<equiv> find_in cc cd file (filter (\<lambda>f. \<not> is_label vol dir f) fs) None False"
  shows "\<exists>v vol'. findfile env vol dir file cc cd = (case v of Some v \<Rightarrow> Inr v | None \<Rightarrow> Inl ENOENT, snd r, vol')
    \<and> ids_grow m vol vol' \<and> found_vnid vol' dir (fst r) v"
proof -
  obtain it where it: "diri_init vol (vn_cluster dir) 0 new_diri = (Some (node_ptr vol cs 0), it)" "iter_at vol (vn_cluster dir) cs it 0"
    using diri_init_node(1)[OF assms(1,2), of new_diri] assms(2) by (auto simp: iter_at_def)
  have "length fs < dir_fuel vol" using listing_length[OF assms(3)] node_entries_fuel[OF assms(1)] by simp
  moreover have "found_vnid vol dir None None" by (simp add: found_vnid_def)
  ultimately have "\<exists>v vol'. findfile_loop (dir_fuel vol) env vol dir it file cc cd None False = (v, snd r, vol')
      \<and> ids_grow m vol vol' \<and> found_vnid vol' dir (fst r) v"
    using findfile_loop_listing[OF assms(1) it(2) assms(3) _ assms(4-6), where k = "dir_fuel vol" and ff = None and fv = None and dups = False]
    unfolding r_def by blast
  moreover have "findfile env vol dir file cc cd = (case findfile_loop (dir_fuel vol) env vol dir it file cc cd None False of
      (found, dups, vol) \<Rightarrow> (case found of Some vnid \<Rightarrow> Inr vnid | None \<Rightarrow> Inl ENOENT, dups, vol))"
    using assms(7) it(1) by (auto simp: findfile_def)
  ultimately show ?thesis by auto
qed

lemmas findfile_listing = findfile_ids[where m = 0, unfolded add_0_right]

text \<open>The fields of the files of a directory.\<close>

lemma scan_entries_start:
  "scan_entries i bs l = Some (Some (j, b', l')) \<Longrightarrow> start_index l = 0xffff \<or> start_index l < i
   \<Longrightarrow> start_index l' = 0xffff \<or> start_index l' < j"
proof (induction i bs l rule: scan_entries.induct)
  case (2 i b bs l)
  have "start_index l2 = 0xffff \<or> start_index l2 < i + 1" if "lfn_step i b l = Some l2" for l2
    using that 2(4) by (auto simp: lfn_step_def Let_def split: if_splits prod.splits)
  note step = this
  consider "b ! 0 \<noteq> 0" "b ! 0 = 0xe5" "scan_entries (i + 1) bs (l\<lparr>start_index := 0xffff\<rparr>) = Some (Some (j, b', l'))"
    | l2 where "b ! 0 \<noteq> 0" "b ! 0 \<noteq> 0xe5" "b ! 0xb = 0xf" "lfn_step i b l = Some l2" "scan_entries (i + 1) bs l2 = Some (Some (j, b', l'))"
    | "i = j" "l' = l" using 2(3) by (auto split: if_splits option.splits)
  then show ?case
  proof cases
    case 1
    then show ?thesis using 2(1) by simp
  next
    case (2 l2)
    then show ?thesis using "2.IH"(2)[OF 2(1-4) 2(5)] step[OF 2(4)] by simp
  next
    case 3
    then show ?thesis using "2.prems"(2) by simp
  qed
qed simp

lemma parse_dirent_fields:
  assumes "parse_dirent env vol es i len = Some (Inr (info, filename))" "length es < 2 ^ 31"
  shows "di_cluster info < 2 ^ 32 \<and> di_sindex info < 2 ^ 32"
proof -
  obtain j b l where s: "scan_entries i (drop i es) no_lfn = Some (Some (j, b, l))"
    and p: "parse_name env vol j l b len = Inr (info, filename)"
    using assms by (auto simp: parse_dirent_def split: option.splits)
  have "j < length es" using scan_entries_bounds[OF s] s by (cases "i < length es") auto
  moreover have "start_index l = 0xffff \<or> start_index l < j" using scan_entries_start[OF s] by (simp add: no_lfn_def)
  moreover have "\<exists>k. info = entry_info vol k j b \<and> (k = j \<or> k = start_index l \<and> start_index l \<noteq> 0xffff)"
    using p by (auto simp: parse_name_def Let_def split: if_splits prod.splits)
  moreover have "read16 b 0x1a < 2 ^ 32" by (rule less_trans[OF Prelude.read16_less]) simp
  moreover have "u32 x < 4294967296" for x using u32_less[of x] by simp
  ultimately show ?thesis using assms(2) by (auto simp: entry_info_def)
qed

lemma listing_id_ok:
  assumes "listing env vol es i = Some fs" "length es < 2 ^ 31" "CLUSTER_OF_DIR_CLUSTER_VNID (vn_vnid dir) < 2 ^ 28"
  shows "dir_id_ok dir fs"
  using assms(1)
proof (induction fs arbitrary: i)
  case (Cons f fs)
  have p: "parse_dirent env vol es i 512 = Some (Inr f)" and l: "listing env vol es (di_eindex (fst f) + 1) = Some fs"
    using listing_Some[OF Cons.prems] by simp_all
  show ?case using Cons.IH[OF l] parse_dirent_fields[of env vol es i 512 "fst f" "snd f"] p assms(2) by (simp add: dir_id_ok_def)
qed (use assms(3) in \<open>simp add: dir_id_ok_def\<close>)

lemma findfile_files_ids:
  fixes cc cd :: bool
  assumes "dir_ok vol (vn_cluster dir) cs" "0 < node_entries vol cs" "dir_files env vol dir cs = Some files"
    and "vnids_ok (node_entries vol cs + 1 + m) (vol_vcache vol)" "env_ok env" "CLUSTER_OF_DIR_CLUSTER_VNID (vn_vnid dir) < 2 ^ 28"
    and "\<not> (vn_vnid dir = vn_vnid (root_vnode vol) \<and> (file = dot \<or> file = dotdot))"
  defines "r \<equiv> find_in cc cd file files None False"
  shows "\<exists>v vol'. findfile env vol dir file cc cd = (case v of Some v \<Rightarrow> Inr v | None \<Rightarrow> Inl ENOENT, snd r, vol')
    \<and> ids_grow m vol vol' \<and> found_vnid vol' dir (fst r) v"
proof -
  obtain fs where fs: "listing env vol (dir_entries vol cs) 0 = Some fs" "files = filter (\<lambda>f. \<not> is_label vol dir f) fs"
    using assms(3) by (auto simp: dir_files_def)
  have "length fs \<le> node_entries vol cs" using listing_length[OF fs(1)] by simp
  then have "vnids_ok (Suc (length fs + m)) (vol_vcache vol)" using vnids_ok_mono[OF assms(4)] by simp
  moreover have "dir_id_ok dir fs" using listing_id_ok[OF fs(1) _ assms(6)] dir_okD(3)[OF assms(1)] by simp
  ultimately show ?thesis
    using findfile_ids[OF assms(1,2) fs(1) _ assms(5) _ assms(7), where cc = cc and cd = cd] unfolding r_def fs(2) ids_grow_def by blast
qed

lemma findfile_files:
  fixes cc cd :: bool
  assumes "dir_ok vol (vn_cluster dir) cs" "0 < node_entries vol cs" "dir_files env vol dir cs = Some files"
    and "vnids_ok (node_entries vol cs + 1) (vol_vcache vol)" "env_ok env" "CLUSTER_OF_DIR_CLUSTER_VNID (vn_vnid dir) < 2 ^ 28"
    and "\<not> (vn_vnid dir = vn_vnid (root_vnode vol) \<and> (file = dot \<or> file = dotdot))"
  defines "r \<equiv> find_in cc cd file files None False"
  shows "\<exists>v vol'. findfile env vol dir file cc cd = (case v of Some v \<Rightarrow> Inr v | None \<Rightarrow> Inl ENOENT, snd r, vol')
    \<and> same_disk vol vol' \<and> found_vnid vol' dir (fst r) v"
  using findfile_files_ids[where m = 0, unfolded add_0_right, OF assms(1-7), of cc cd] unfolding r_def ids_grow_def by blast

subsection \<open>Properties\<close>

text \<open>C7: \<^verbatim>\<open>findfile_case\<close> and \<^verbatim>\<open>findfile_nocase\<close> are searches in the list of the directory's files. When a file of that name (up to
  the case of letters) is in the directory, the first one is found, and its vnode id is recorded at the
  file's location; otherwise the answer is \<^verbatim>\<open>ENOENT\<close>. The search ends, and leaves the disk as it is.\<close>

theorem findfile_finds:
  assumes "dir_ok vol (vn_cluster dir) cs" "0 < node_entries vol cs" "dir_files env vol dir cs = Some files"
    and "vnids_ok (node_entries vol cs + 1) (vol_vcache vol)" "env_ok env" "CLUSTER_OF_DIR_CLUSTER_VNID (vn_vnid dir) < 2 ^ 28"
    and "\<not> (vn_vnid dir = vn_vnid (root_vnode vol) \<and> (file = dot \<or> file = dotdot))"
  shows "(\<exists>vol'. same_disk vol vol' \<and> (case List.find (\<lambda>f. snd f = file) files of
        None \<Rightarrow> findfile_case env vol dir file = (Inl ENOENT, False, vol')
      | Some f \<Rightarrow> \<exists>v. findfile_case env vol dir file = (Inr v, False, vol') \<and> file_vnid vol' dir f v))
    \<and> (\<exists>vol'. same_disk vol vol' \<and> (case List.find (\<lambda>f. strcasecmp0 (snd f) file) files of
        None \<Rightarrow> findfile_nocase env vol dir file = (Inl ENOENT, False, vol')
      | Some f \<Rightarrow> \<exists>v. findfile_nocase env vol dir file = (Inr v, False, vol') \<and> file_vnid vol' dir f v))"
proof -
  note F = findfile_files[OF assms, where cd = False, unfolded find_in_found]
  have E: "\<exists>vol'. same_disk vol vol' \<and> (case r of None \<Rightarrow> x = (Inl ENOENT, False, vol')
      | Some f \<Rightarrow> \<exists>v. x = (Inr v, False, vol') \<and> file_vnid vol' dir f v)"
    if "\<exists>v vol'. x = (case v of Some v \<Rightarrow> Inr v | None \<Rightarrow> Inl ENOENT, snd (r, False), vol') \<and> same_disk vol vol' \<and> found_vnid vol' dir (fst (r, False)) v"
    for x :: "(status_t + ino_t) \<times> bool \<times> nspace" and r
    using that by (fastforce simp: found_vnid_def split: option.splits)
  show ?thesis
    unfolding findfile_case_def findfile_nocase_def using E[OF F[where cc = True]] E[OF F[where cc = False]] by simp
qed

text \<open>The searches that look for duplicates. \<^verbatim>\<open>findfile_case_duplicates\<close> finds the first file of exactly that name and reports
  a duplicate when any other file has the name up to the case of letters, also when there is no exact match. \<^verbatim>\<open>findfile_nocase_duplicates\<close>
  with more than one match gives the vnode id of the second match, not of the first.\<close>

theorem findfile_duplicates:
  assumes "dir_ok vol (vn_cluster dir) cs" "0 < node_entries vol cs" "dir_files env vol dir cs = Some (fs @ g # gs)"
    and "vnids_ok (node_entries vol cs + 1) (vol_vcache vol)" "env_ok env" "CLUSTER_OF_DIR_CLUSTER_VNID (vn_vnid dir) < 2 ^ 28"
    and "\<not> (vn_vnid dir = vn_vnid (root_vnode vol) \<and> (file = dot \<or> file = dotdot))"
  shows "(snd g = file \<longrightarrow> (\<forall>f \<in> set fs. snd f \<noteq> file) \<longrightarrow>
      (\<exists>v vol'. findfile_case_duplicates env vol dir file = (Inr v, \<exists>f \<in> set fs \<union> set gs. strcasecmp0 (snd f) file, vol')
        \<and> file_vnid vol' dir g v))
    \<and> ((\<forall>f \<in> set (fs @ g # gs). snd f \<noteq> file) \<longrightarrow>
      (\<exists>vol'. findfile_case_duplicates env vol dir file = (Inl ENOENT, \<exists>f \<in> set (fs @ g # gs). strcasecmp0 (snd f) file, vol')))
    \<and> (strcasecmp0 (snd g) file \<longrightarrow> (\<forall>f \<in> set fs. \<not> strcasecmp0 (snd f) file) \<longrightarrow>
      (\<exists>v vol'. findfile_nocase_duplicates env vol dir file = (Inr v, \<exists>f \<in> set gs. strcasecmp0 (snd f) file, vol')
        \<and> (case List.find (\<lambda>f. strcasecmp0 (snd f) file) gs of None \<Rightarrow> file_vnid vol' dir g v | Some f \<Rightarrow> file_vnid vol' dir f v)))"
proof -
  note F = findfile_files[OF assms, where cd = True]
  have pass: "find_in True True file (fs @ hs) None d = find_in True True file hs None (d \<or> (\<exists>f \<in> set fs. strcasecmp0 (snd f) file))"
    if "\<forall>f \<in> set fs. snd f \<noteq> file" for fs hs d using that by (induction fs arbitrary: d) auto
  have pass': "find_in False True file (fs @ hs) None d = find_in False True file hs None d"
    if "\<forall>f \<in> set fs. \<not> strcasecmp0 (snd f) file" for fs hs d using that by (induction fs arbitrary: d) auto
  have one: "\<exists>v vol'. findfile_case_duplicates env vol dir file = (Inr v, \<exists>f \<in> set fs \<union> set gs. strcasecmp0 (snd f) file, vol')
      \<and> file_vnid vol' dir g v" if g: "snd g = file" "\<forall>f \<in> set fs. snd f \<noteq> file"
  proof -
    have "find_in True True file (fs @ g # gs) None False = (Some g, \<exists>f \<in> set fs \<union> set gs. strcasecmp0 (snd f) file)"
      using g(1) by (auto simp: pass[OF g(2)] find_in_dups_stop Let_def)
    then show ?thesis using F[where cc = True]
      by (auto simp: findfile_case_duplicates_def found_vnid_def split: option.splits)
  qed
  have two: "\<exists>vol'. findfile_case_duplicates env vol dir file = (Inl ENOENT, \<exists>f \<in> set (fs @ g # gs). strcasecmp0 (snd f) file, vol')"
    if g: "\<forall>f \<in> set (fs @ g # gs). snd f \<noteq> file"
  proof -
    have "find_in True True file ((fs @ g # gs) @ []) None False = (None, \<exists>f \<in> set (fs @ g # gs). strcasecmp0 (snd f) file)"
      unfolding pass[OF g] by simp
    then show ?thesis using F[where cc = True]
      by (auto simp: findfile_case_duplicates_def found_vnid_def split: option.splits)
  qed
  have three: "\<exists>v vol'. findfile_nocase_duplicates env vol dir file = (Inr v, \<exists>f \<in> set gs. strcasecmp0 (snd f) file, vol')
      \<and> (case List.find (\<lambda>f. strcasecmp0 (snd f) file) gs of None \<Rightarrow> file_vnid vol' dir g v | Some f \<Rightarrow> file_vnid vol' dir f v)"
    if g: "strcasecmp0 (snd g) file" "\<forall>f \<in> set fs. \<not> strcasecmp0 (snd f) file"
  proof -
    define h where "h = List.find (\<lambda>f. strcasecmp0 (snd f) file) gs"
    have "find_in False True file (fs @ g # gs) None False
        = (case h of None \<Rightarrow> (Some g, False) | Some f \<Rightarrow> (Some f, True))"
      using g(1) by (simp add: pass'[OF g(2)] find_in_nocase_stop h_def)
    moreover have "(\<exists>f \<in> set gs. strcasecmp0 (snd f) file) \<longleftrightarrow> h \<noteq> None"
      unfolding h_def by (metis find_None_iff)
    ultimately show ?thesis unfolding h_def[symmetric] using F[where cc = False]
      by (auto simp: findfile_nocase_duplicates_def found_vnid_def split: option.splits)
  qed
  show ?thesis using one two three by blast
qed

subsection \<open>Witnesses\<close>

text \<open>The small disk with two files in the root directory, whose names differ in the case of a letter.\<close>

definition tiny_name :: "u8 \<Rightarrow> name" where
  "tiny_name c = c # replicate 10 0x20"

definition tiny_entry :: "u8 \<Rightarrow> block" where
  "tiny_entry c = tiny_name c @ replicate 21 0"

definition tiny_dir :: nspace where
  "tiny_dir = tiny_disk0\<lparr>fBlockCache := (fBlockCache tiny_disk0)(3 \<mapsto> tiny_entry 0x41 @ tiny_entry 0x61),
     vol_vcache := \<lparr>cur_vnid = ARTIFICIAL_VNID_BITS, cache_size = 1, by_vnid = [[]], by_loc = [[]]\<rparr>,
     root_vnode := tiny_vnode\<lparr>vn_vnid := 1, vn_dir_vnid := 1, vn_cluster := 1\<rparr>\<rparr>"

lemma tiny_dir_ok: "dir_ok tiny_dir 1 []" "node_entries tiny_dir [] = 4" "vnids_ok 5 (vol_vcache tiny_dir)" "env_ok tiny_env"
proof -
  have "fat_kept tiny_disk0 tiny_dir"
    by (simp add: fat_kept_def tiny_dir_def geometry_def tiny_disk0_simps fat_end_def tiny_entry_def tiny_name_def)
  then have "vol_ok tiny_dir" using fat_kept_ok(2) tiny_disk0_ok(2) by blast
  moreover show n: "node_entries tiny_dir [] = 4"
    by (simp add: node_entries_def node_sectors_def entries_per_block_def tiny_dir_def tiny_disk0_simps)
  ultimately show "dir_ok tiny_dir 1 []" by (simp add: dir_ok_def node_layout_def) (simp add: tiny_dir_def tiny_disk0_simps)
  have "vcache_ok (vol_vcache tiny_dir)" by (simp add: tiny_dir_def vcache_ok_def vtable_ok_def vtable_set_def)
  moreover have "vhash (vol_vcache tiny_dir) v = 0" for v by (simp add: tiny_dir_def vhash_def)
  then have "vmap (vol_vcache tiny_dir) v = None" for v
    by (simp add: vmap_def find_vnid_in_vcache_def) (simp add: tiny_dir_def)
  ultimately show "vnids_ok 5 (vol_vcache tiny_dir)" by (simp add: vnids_ok_def) (simp add: tiny_dir_def)
  show "env_ok tiny_env" by (simp add: env_ok_def tiny_env_def)
qed

lemma tiny_dir_entries: "dir_entries tiny_dir [] = [tiny_entry 0x41, tiny_entry 0x61, replicate 32 0, replicate 32 0]"
proof -
  have u: "[0..<4::nat] = [0, 1, 2, 3]" by (simp add: upt_conv_Cons)
  have l: "length (tiny_entry c) = 32" for c by (simp add: tiny_entry_def tiny_name_def)
  have p: "node_ptr tiny_dir [] i = (3 + i div 2, (i mod 2) * 32)" for i
    by (simp add: node_ptr_def node_block_def entries_per_block_def tiny_dir_def tiny_disk0_simps)
  have "block_data tiny_dir 3 = tiny_entry 0x41 @ tiny_entry 0x61" "block_data tiny_dir 4 = replicate 64 0"
    by (simp_all add: block_data_def tiny_dir_def tiny_disk0_simps)
  then show ?thesis unfolding dir_entries_def tiny_dir_ok(2) u by (simp add: dir_entry_def entry_data_def p l)
qed

lemma tiny_entry_bytes: "tiny_entry c ! 0 = c" "tiny_entry c ! 0xb = 0" "take 11 (tiny_entry c) = tiny_name c"
  by (simp_all add: tiny_entry_def tiny_name_def nth_append)

lemma tiny_dir_listing: "listing tiny_env tiny_dir (dir_entries tiny_dir []) 0
    = Some [(entry_info tiny_dir 0 0 (tiny_entry 0x41), tiny_name 0x41), (entry_info tiny_dir 1 1 (tiny_entry 0x61), tiny_name 0x61)]"
proof -
  note e = tiny_entry_bytes
  have p: "parse_dirent tiny_env tiny_dir (dir_entries tiny_dir []) 0 512
        = Some (Inr (entry_info tiny_dir 0 0 (tiny_entry 0x41), tiny_name 0x41))"
    "parse_dirent tiny_env tiny_dir (dir_entries tiny_dir []) 1 512
        = Some (Inr (entry_info tiny_dir 1 1 (tiny_entry 0x61), tiny_name 0x61))"
    "parse_dirent tiny_env tiny_dir (dir_entries tiny_dir []) 2 512 = Some (Inl ENOENT)"
    unfolding tiny_dir_entries
    by (simp_all add: parse_dirent_def e parse_name_def no_lfn_def tiny_env_def)
  have i: "di_eindex (entry_info vol i j b) = j" for vol i j b by (simp add: entry_info_def)
  show ?thesis
    by (subst listing.simps, subst listing.simps, subst listing.simps)
      (simp add: p p(2)[unfolded One_nat_def] p(3)[unfolded numeral_2_eq_2] i)
qed

lemma tiny_dir_files: "\<exists>a b. dir_files tiny_env tiny_dir (root_vnode tiny_dir) [] = Some [(a, tiny_name 0x41), (b, tiny_name 0x61)]"
  by (simp add: dir_files_def is_label_def tiny_dir_listing entry_info_def tiny_entry_bytes)

theorem findfile_finds_witness:
  "\<exists>v vol'. findfile_case tiny_env tiny_dir (root_vnode tiny_dir) (tiny_name 0x61) = (Inr v, False, vol')"
proof -
  obtain a b where f: "dir_files tiny_env tiny_dir (root_vnode tiny_dir) [] = Some [(a, tiny_name 0x41), (b, tiny_name 0x61)]"
    using tiny_dir_files by blast
  have r: "vn_cluster (root_vnode tiny_dir) = 1" "CLUSTER_OF_DIR_CLUSTER_VNID (vn_vnid (root_vnode tiny_dir)) < 2 ^ 28"
    by (simp_all add: tiny_dir_def CLUSTER_OF_DIR_CLUSTER_VNID_def)
  have n: "tiny_name c \<noteq> dot" "tiny_name c \<noteq> dotdot" "tiny_name c = tiny_name d \<longleftrightarrow> c = d" for c d
    by (auto simp: tiny_name_def dot_def dotdot_def dest: arg_cong[where f = length])
  show ?thesis
    using findfile_finds[of tiny_dir "root_vnode tiny_dir" "[]" tiny_env _ "tiny_name 0x61", unfolded r(1) tiny_dir_ok(2)]
      tiny_dir_ok f r(2) n by auto
qed

theorem findfile_duplicates_witness:
  "\<exists>v vol'. findfile_case_duplicates tiny_env tiny_dir (root_vnode tiny_dir) (tiny_name 0x41) = (Inr v, True, vol')"
proof -
  obtain a b where f: "dir_files tiny_env tiny_dir (root_vnode tiny_dir) [] = Some ([] @ (a, tiny_name 0x41) # [(b, tiny_name 0x61)])"
    using tiny_dir_files by auto
  have r: "vn_cluster (root_vnode tiny_dir) = 1" "CLUSTER_OF_DIR_CLUSTER_VNID (vn_vnid (root_vnode tiny_dir)) < 2 ^ 28"
    by (simp_all add: tiny_dir_def CLUSTER_OF_DIR_CLUSTER_VNID_def)
  have n: "tiny_name c \<noteq> dot" "tiny_name c \<noteq> dotdot" for c
    by (auto simp: tiny_name_def dot_def dotdot_def dest: arg_cong[where f = length])
  have c: "strcasecmp0 (tiny_name 0x61) (tiny_name 0x41)" by (simp add: tiny_name_def strcasecmp0_def lower8_def)
  show ?thesis
    using findfile_duplicates[of tiny_dir "root_vnode tiny_dir" "[]" tiny_env "[]" "(a, tiny_name 0x41)" "[(b, tiny_name 0x61)]" "tiny_name 0x41",
        unfolded r(1) tiny_dir_ok(2)] tiny_dir_ok f r(2) n c by auto
qed

end
