(* ===== verification/Dir_Laws.thy ===== *)
theory Dir_Laws
  imports Find_File Dir_Create
begin

text \<open>
  A directory as an abstract list of files: \<^verbatim>\<open>_create_dir_entry_\<close> inserts a file into the list and \<^verbatim>\<open>erase_dir_entry\<close>
  takes one out; what they write is read back by \<^verbatim>\<open>_next_dirent_\<close>, long names included, and no other file changes.
\<close>

section \<open>Theorems\<close>

subsection \<open>Locality of the search\<close>

lemma scan_entries_local:
  "scan_entries i bs l = Some (Some (j, b, l')) \<Longrightarrow> j - i < length bs' \<Longrightarrow> \<forall>x \<le> j - i. bs' ! x = bs ! x
   \<Longrightarrow> scan_entries i bs' l = Some (Some (j, b, l'))"
proof (induction i bs l arbitrary: bs' rule: scan_entries.induct)
  case (2 i c bs l)
  obtain c' cs' where c: "bs' = c' # cs'" using 2(4) by (cases bs') auto
  have eq: "c' = c" using 2(5) c by auto
  show ?case
  proof (cases "j = i")
    case True
    have "False" if "scan_entries (i + 1) bs l2 = Some (Some (j, b, l'))" for l2 using scan_entries_bounds[OF that] True by simp
    then show ?thesis using 2(3) c eq by (auto split: if_splits option.splits)
  next
    case False
    have ij: "i \<le> j" using scan_entries_bounds[OF 2(3)] by simp
    have "j - (i + 1) < length cs'" "\<forall>x \<le> j - (i + 1). cs' ! x = bs ! x"
    proof -
      show "j - (i + 1) < length cs'" using 2(4) c False ij by simp
      show "\<forall>x \<le> j - (i + 1). cs' ! x = bs ! x"
      proof (intro allI impI)
        fix x assume "x \<le> j - (i + 1)"
        then have "Suc x \<le> j - i" using False ij by linarith
        then show "cs' ! x = bs ! x" using 2(5) c by fastforce
      qed
    qed
    note IH = "2.IH"(1)[OF _ _ _ this] "2.IH"(2)[OF _ _ _ _ _ this]
    consider "c ! 0 \<noteq> 0" "c ! 0 = 0xe5" "scan_entries (i + 1) bs (l\<lparr>start_index := 0xffff\<rparr>) = Some (Some (j, b, l'))"
      | l2 where "c ! 0 \<noteq> 0" "c ! 0 \<noteq> 0xe5" "c ! 0xb = 0xf" "lfn_step i c l = Some l2" "scan_entries (i + 1) bs l2 = Some (Some (j, b, l'))"
      using "2.prems"(1) False by (auto split: if_splits option.splits)
    then show ?thesis
    proof cases
      case 1
      then show ?thesis using IH(1) c eq by simp
    next
      case (2 l2)
      then show ?thesis using IH(2)[OF 2] c eq by simp
    qed
  qed
qed simp

lemma parse_dirent_local:
  assumes "parse_dirent env vol es i len = Some (Inr (info, name))" "di_eindex info < length es'"
    "\<forall>x. i \<le> x \<and> x \<le> di_eindex info \<longrightarrow> es' ! x = es ! x" "fat_bits vol' = fat_bits vol"
  shows "parse_dirent env vol' es' i len = Some (Inr (info, name))"
proof -
  obtain j b l where s: "scan_entries i (drop i es) no_lfn = Some (Some (j, b, l))"
    and p: "parse_name env vol j l b len = Inr (info, name)"
    using assms(1) by (auto simp: parse_dirent_def split: option.splits)
  have e: "di_eindex info = j" by (rule parse_name_eindex[OF p])
  have ij: "i \<le> j" "j < i + length (drop i es)" using scan_entries_bounds[OF s] by auto
  have "scan_entries i (drop i es') no_lfn = Some (Some (j, b, l))"
    by (rule scan_entries_local[OF s]) (use assms(2,3) e ij in auto)
  moreover have ei: "entry_info vol' = entry_info vol" using assms(4) by (simp add: fun_eq_iff entry_info_def)
  have "parse_name env vol' j l b len = parse_name env vol j l b len" unfolding parse_name_def ei by (rule refl)
  ultimately show ?thesis using p by (simp add: parse_dirent_def)
qed

lemma parse_dirent_sindex:
  assumes "parse_dirent env vol es i len = Some (Inr (info, name))"
  shows "i \<le> di_sindex info \<and> di_sindex info \<le> di_eindex info"
proof -
  obtain j b l where s: "scan_entries i (drop i es) no_lfn = Some (Some (j, b, l))"
    and p: "parse_name env vol j l b len = Inr (info, name)"
    using assms(1) by (auto simp: parse_dirent_def split: option.splits)
  have lo: "start_index l2 = 0xffff \<or> k \<le> start_index l2" if "scan_entries i bs l1 = Some (Some (j, b, l2))"
      "start_index l1 = 0xffff \<or> k \<le> start_index l1" "k \<le> i" for i bs l1 j b l2 k
    using that
  proof (induction i bs l1 rule: scan_entries.induct)
    case (2 i b' bs l)
    have st: "start_index l2 = 0xffff \<or> k \<le> start_index l2" if "lfn_step i b' l = Some l2" for l2
      using that 2(4,5) by (auto simp: lfn_step_def Let_def split: if_splits prod.splits)
    consider "b' ! 0 \<noteq> 0" "b' ! 0 = 0xe5" "scan_entries (i + 1) bs (l\<lparr>start_index := 0xffff\<rparr>) = Some (Some (j, b, l2))"
      | l3 where "b' ! 0 \<noteq> 0" "b' ! 0 \<noteq> 0xe5" "b' ! 0xb = 0xf" "lfn_step i b' l = Some l3" "scan_entries (i + 1) bs l3 = Some (Some (j, b, l2))"
      | "l2 = l" using 2(3) by (auto split: if_splits option.splits)
    then show ?case
    proof cases
      case 1
      then show ?thesis using "2.IH"(1) "2.prems"(3) by simp
    next
      case (2 l3)
      then show ?thesis using "2.IH"(2)[OF 2(1-5)] st[OF 2(4)] "2.prems"(3) by simp
    qed (use "2.prems"(2) in simp)
  qed simp
  have "start_index l = 0xffff \<or> i \<le> start_index l" using lo[OF s, of i] by (simp add: no_lfn_def)
  moreover have "start_index l = 0xffff \<or> start_index l < j" using scan_entries_start[OF s] by (simp add: no_lfn_def)
  moreover have "\<exists>k. info = entry_info vol k j b \<and> (k = j \<or> k = start_index l \<and> start_index l \<noteq> 0xffff)"
    using p by (auto simp: parse_name_def Let_def split: if_splits prod.splits)
  ultimately show ?thesis using scan_entries_bounds[OF s] by (auto simp: entry_info_def)
qed

lemma scan_entries_erased:
  assumes "m \<le> length bs" "\<forall>x < m. bs ! x ! 0 = 0xe5"
  shows "scan_entries i bs no_lfn = scan_entries (i + m) (drop m bs) no_lfn"
  using assms
proof (induction m arbitrary: i bs)
  case (Suc m)
  then obtain b bs' where b: "bs = b # bs'" by (cases bs) auto
  have "b ! 0 = 0xe5" "m \<le> length bs'" "\<forall>x < m. bs' ! x ! 0 = 0xe5" using Suc.prems b by auto
  moreover have "no_lfn\<lparr>start_index := 0xffff\<rparr> = no_lfn" by (simp add: no_lfn_def)
  ultimately show ?case using Suc.IH[of bs' "i + 1"] b by simp
qed simp

lemma parse_dirent_erased:
  assumes "i \<le> k" "k \<le> length es" "\<forall>x. i \<le> x \<and> x < k \<longrightarrow> es ! x ! 0 = 0xe5"
  shows "parse_dirent env vol es i len = parse_dirent env vol es k len"
proof -
  have "scan_entries i (drop i es) no_lfn = scan_entries (i + (k - i)) (drop (k - i) (drop i es)) no_lfn"
    by (rule scan_entries_erased) (use assms in auto)
  then show ?thesis using assms(1) by (simp add: parse_dirent_def)
qed

lemma listing_erased:
  "i \<le> k \<Longrightarrow> k \<le> length es \<Longrightarrow> \<forall>x. i \<le> x \<and> x < k \<longrightarrow> es ! x ! 0 = 0xe5 \<Longrightarrow> listing env vol es i = listing env vol es k"
  by (subst listing.simps, subst (2) listing.simps) (simp add: parse_dirent_erased)

subsection \<open>Splitting a listing\<close>

text \<open>The index behind the files \<open>fs\<close> that are read from \<open>i\<close> on.\<close>

definition next_index :: "nat \<Rightarrow> (dirent_info \<times> name) list \<Rightarrow> nat" where
  "next_index i fs = (if fs = [] then i else di_eindex (fst (last fs)) + 1)"

lemma next_index_simps [simp]:
  "next_index i [] = i" "next_index i (f # fs) = next_index (di_eindex (fst f) + 1) fs"
  by (simp_all add: next_index_def)

lemma listing_next:
  "listing env vol es i = Some (fs @ gs) \<Longrightarrow> i \<le> length es \<Longrightarrow>
   listing env vol es (next_index i fs) = Some gs \<and> i \<le> next_index i fs \<and> next_index i fs \<le> length es"
proof (induction fs arbitrary: i)
  case (Cons f fs)
  have p: "parse_dirent env vol es i 512 = Some (Inr f)" and l: "listing env vol es (di_eindex (fst f) + 1) = Some (fs @ gs)"
    using listing_Some[OF Cons.prems(1)] by simp_all
  have "i \<le> di_eindex (fst f)" "di_eindex (fst f) < length es" using parse_dirent_bounds[of env vol es i 512 "fst f" "snd f"] p by simp_all
  then show ?case using Cons.IH[OF l] by simp
qed simp

lemma listing_local:
  "listing env vol es i = Some (fs @ gs) \<Longrightarrow> i \<le> length es \<Longrightarrow> next_index i fs \<le> length es' \<Longrightarrow> \<forall>x < next_index i fs. es' ! x = es ! x
   \<Longrightarrow> fat_bits vol' = fat_bits vol \<Longrightarrow> listing env vol' es' i = map_option ((@) fs) (listing env vol' es' (next_index i fs))"
proof (induction fs arbitrary: i)
  case (Cons f fs)
  have p: "parse_dirent env vol es i 512 = Some (Inr f)" and l: "listing env vol es (di_eindex (fst f) + 1) = Some (fs @ gs)"
    using listing_Some[OF Cons.prems(1)] by simp_all
  have e: "i \<le> di_eindex (fst f)" "di_eindex (fst f) < length es" using parse_dirent_bounds[of env vol es i 512 "fst f" "snd f"] p by simp_all
  have n: "di_eindex (fst f) + 1 \<le> next_index i (f # fs)" using listing_next[OF l] e by simp
  have "parse_dirent env vol' es' i 512 = Some (Inr (fst f, snd f))"
    by (rule parse_dirent_local[of env vol es]) (use p n Cons.prems(3-5) in auto)
  moreover have "listing env vol' es' (di_eindex (fst f) + 1) = map_option ((@) fs) (listing env vol' es' (next_index (di_eindex (fst f) + 1) fs))"
    by (rule Cons.IH[OF l]) (use Cons.prems e in auto)
  ultimately show ?case by (subst listing.simps) (cases "listing env vol' es' (next_index (di_eindex (fst f) + 1) fs)"; simp add: split_beta)
next
  case Nil
  then show ?case by (cases "listing env vol' es' i") simp_all
qed

subsection \<open>Changes of the entries on the disk\<close>

text \<open>The entries of the directory with the clusters \<open>cs\<close> become \<open>es\<close>, and nothing else changes.\<close>

definition dir_changed :: "nspace \<Rightarrow> nat list \<Rightarrow> block list \<Rightarrow> nspace \<Rightarrow> bool" where
  "dir_changed vol cs es vol' \<longleftrightarrow> fat_kept vol vol' \<and> vol' = vol\<lparr>fBlockCache := fBlockCache vol'\<rparr> \<and> dir_entries vol' cs = es
     \<and> (\<forall>bn. bn \<notin> node_block vol cs ` {..<node_sectors vol cs} \<longrightarrow> fBlockCache vol' bn = fBlockCache vol bn)"

lemma dir_changed_refl: "dir_changed vol cs (dir_entries vol cs) vol"
  by (simp add: dir_changed_def)

lemma dir_changed_trans:
  assumes "dir_changed vol cs es v1" "dir_changed v1 cs es' v2"
  shows "dir_changed vol cs es' v2"
proof -
  note k = assms[unfolded dir_changed_def] and ge = geometry_ext[OF fat_kept_geometry, of vol v1]
  have "v2 = vol\<lparr>fBlockCache := fBlockCache v2\<rparr>" using k by (cases vol; cases v1; cases v2) simp
  then show ?thesis using k fat_kept_trans[of vol v1 v2] ge by (simp add: dir_changed_def)
qed

lemma dir_changed_keeps:
  assumes "dir_changed vol cs es vol'" "dir_ok vol cluster cs"
  shows "dir_ok vol' cluster cs" "iter_at vol' cluster cs it i \<longleftrightarrow> iter_at vol cluster cs it i" "diri_at vol' cluster cs it i \<longleftrightarrow> diri_at vol cluster cs it i"
    "node_entries vol' cs = node_entries vol cs" "node_ptr vol' cs = node_ptr vol cs" "fat_bits vol' = fat_bits vol"
    "bytes_per_sector vol' = bytes_per_sector vol" "dir_fuel vol' = dir_fuel vol" "fault vol' = fault vol" "length es = node_entries vol cs"
proof -
  have k: "fat_kept vol vol'" and c: "vol' = vol\<lparr>fBlockCache := fBlockCache vol'\<rparr>" and e: "dir_entries vol' cs = es"
    using assms(1) by (auto simp: dir_changed_def)
  note g = geometryD[OF fat_kept_geometry[OF k]] and ge = geometry_ext[OF fat_kept_geometry[OF k]]
  show "dir_ok vol' cluster cs" using fat_kept_chain(3)[OF k vol_okD(1)[OF dir_okD(1)[OF assms(2)]]] assms(2) by blast
  show d: "diri_at vol' cluster cs it i \<longleftrightarrow> diri_at vol cluster cs it i" by (simp add: diri_at_def ge)
  then show "iter_at vol' cluster cs it i \<longleftrightarrow> iter_at vol cluster cs it i" by (simp add: iter_at_def ge)
  show "node_entries vol' cs = node_entries vol cs" "node_ptr vol' cs = node_ptr vol cs" "fat_bits vol' = fat_bits vol"
    "bytes_per_sector vol' = bytes_per_sector vol" "dir_fuel vol' = dir_fuel vol" by (simp_all add: g ge dir_fuel_def)
  show "fault vol' = fault vol" by (subst c) simp
  show "length es = node_entries vol cs" using ge(9) by (simp add: e[symmetric])
qed

lemma store_changed:
  assumes "dir_ok vol cluster cs" "i < node_entries vol cs" "length e = 0x20"
  shows "dir_changed vol cs ((dir_entries vol cs)[i := e]) (entry_store vol (node_ptr vol cs i) e)"
proof -
  let ?w = "entry_store vol (node_ptr vol cs i) e"
  note ok = dir_okD(1)[OF assms(1)] and p = node_ptr_ok[OF assms(1,2)]
  note k = entry_store_kept[OF ok p assms(3)]
  note ge = geometry_ext[OF fat_kept_geometry[OF k(1)]]
  have "dir_entries ?w cs = (dir_entries vol cs)[i := e]"
    by (rule nth_equalityI) (simp_all add: ge nth_dir_entries dir_entry_store[OF assms(1,2) _ assms(3)] nth_list_update)
  moreover have "fst (node_ptr vol cs i) \<in> node_block vol cs ` {..<node_sectors vol cs}"
    using dir_okD(5)[OF assms(1)] assms(2) by (simp add: node_ptr_def)
  then have "fBlockCache ?w bn = fBlockCache vol bn" if "bn \<notin> node_block vol cs ` {..<node_sectors vol cs}" for bn
    using k(3)[of bn] that by metis
  ultimately show ?thesis unfolding dir_changed_def using k(1,2) by blast
qed

lemma dir_entry_length: "dir_ok vol cluster cs \<Longrightarrow> i < node_entries vol cs \<Longrightarrow> length (dir_entries vol cs ! i) = 0x20"
  using entry_data_length[OF dir_okD(1) node_ptr_ok] by (simp add: nth_dir_entries dir_entry_def)

text \<open>The entries that the loops write.\<close>

lemma erase_loop_changed:
  assumes "dir_ok vol cluster cs" "diri_at vol cluster cs it i" "i + k < node_entries vol cs"
  shows "dir_changed vol cs (map (\<lambda>j. if i \<le> j \<and> j \<le> i + k then (dir_entries vol cs ! j)[0 := 0xe5] else dir_entries vol cs ! j)
      [0..<node_entries vol cs]) (erase_loop (Suc k) vol it (Some (node_ptr vol cs i)))"
  using assms
proof (induction k arbitrary: vol it i)
  case 0
  let ?e = "(entry_data vol (node_ptr vol cs i))[0 := 0xe5]"
  have i: "i < node_entries vol cs" using 0 by simp
  have e: "entry_data vol (node_ptr vol cs i) = dir_entries vol cs ! i" using i by (simp add: nth_dir_entries dir_entry_def)
  have "dir_changed vol cs ((dir_entries vol cs)[i := ?e]) (entry_store vol (node_ptr vol cs i) ?e)"
    by (rule store_changed[OF 0(1) i]) (use dir_entry_length[OF 0(1) i] e in simp)
  moreover have "erase_loop (Suc 0) vol it (Some (node_ptr vol cs i)) = entry_store vol (node_ptr vol cs i) ?e"
    by (simp add: Let_def split_beta)
  moreover have "(dir_entries vol cs)[i := ?e] = map (\<lambda>j. if i \<le> j \<and> j \<le> i + 0 then (dir_entries vol cs ! j)[0 := 0xe5] else dir_entries vol cs ! j)
      [0..<node_entries vol cs]"
    by (rule nth_equalityI) (auto simp: nth_list_update e)
  ultimately show ?case by simp
next
  case (Suc k)
  let ?e = "(entry_data vol (node_ptr vol cs i))[0 := 0xe5]" let ?w = "entry_store vol (node_ptr vol cs i) ?e"
  have i: "i < node_entries vol cs" "i + 1 < node_entries vol cs" using Suc.prems by simp_all
  have e: "entry_data vol (node_ptr vol cs i) = dir_entries vol cs ! i" using i by (simp add: nth_dir_entries dir_entry_def)
  have w: "dir_changed vol cs ((dir_entries vol cs)[i := ?e]) ?w"
    by (rule store_changed[OF Suc.prems(1) i(1)]) (use dir_entry_length[OF Suc.prems(1) i(1)] e in simp)
  note K = dir_changed_keeps[OF w Suc.prems(1)]
  obtain it' where n: "diri_next_entry ?w it = (Some (node_ptr ?w cs (i + 1)), it')" "diri_at ?w cluster cs it' (i + 1)"
    using diri_next_node(1)[OF K(1), of it i] Suc.prems(2) K(3,4) i(2) by auto
  have "dir_changed ?w cs (map (\<lambda>j. if i + 1 \<le> j \<and> j \<le> i + 1 + k then (dir_entries ?w cs ! j)[0 := 0xe5] else dir_entries ?w cs ! j)
      [0..<node_entries ?w cs]) (erase_loop (Suc k) ?w it' (Some (node_ptr ?w cs (i + 1))))"
    by (rule Suc.IH[OF K(1) n(2)]) (use Suc.prems(3) K(4) in simp)
  from dir_changed_trans[OF w this]
  have "dir_changed vol cs (map (\<lambda>j. if i + 1 \<le> j \<and> j \<le> i + 1 + k then (dir_entries ?w cs ! j)[0 := 0xe5] else dir_entries ?w cs ! j)
      [0..<node_entries vol cs]) (erase_loop (Suc k) ?w it' (Some (node_ptr ?w cs (i + 1))))" unfolding K(4) .
  moreover have "erase_loop (Suc (Suc k)) vol it (Some (node_ptr vol cs i)) = erase_loop (Suc k) ?w it' (Some (node_ptr ?w cs (i + 1)))"
    by (subst erase_loop.simps(3)) (simp add: Let_def n(1))
  moreover have "map (\<lambda>j. if i + 1 \<le> j \<and> j \<le> i + 1 + k then (dir_entries ?w cs ! j)[0 := 0xe5] else dir_entries ?w cs ! j) [0..<node_entries vol cs]
      = map (\<lambda>j. if i \<le> j \<and> j \<le> i + Suc k then (dir_entries vol cs ! j)[0 := 0xe5] else dir_entries vol cs ! j) [0..<node_entries vol cs]"
  proof (rule map_cong[OF refl])
    fix j assume "j \<in> set [0..<node_entries vol cs]"
    moreover have "dir_entries ?w cs = (dir_entries vol cs)[i := ?e]" using w by (simp add: dir_changed_def)
    ultimately show "(if i + 1 \<le> j \<and> j \<le> i + 1 + k then (dir_entries ?w cs ! j)[0 := 0xe5] else dir_entries ?w cs ! j)
      = (if i \<le> j \<and> j \<le> i + Suc k then (dir_entries vol cs ! j)[0 := 0xe5] else dir_entries vol cs ! j)"
      by (cases "j = i") (auto simp: nth_list_update e)
  qed
  ultimately show ?case by (simp only:)
qed

lemma listing_suffix:
  "drop i es = drop i es' \<Longrightarrow> fat_bits vol' = fat_bits vol \<Longrightarrow> listing env vol' es' i = listing env vol es i"
proof (induction env vol es i rule: listing.induct)
  case (1 env vol es i)
  have ei: "entry_info vol' = entry_info vol" using 1(3) by (simp add: fun_eq_iff entry_info_def)
  have pn: "parse_name env vol' = parse_name env vol" unfolding parse_name_def[abs_def] ei by (rule refl)
  have p: "parse_dirent env vol' es' i 512 = parse_dirent env vol es i 512" unfolding parse_dirent_def 1(2) pn by (rule refl)
  show ?case
  proof (cases "\<exists>f. parse_dirent env vol es i 512 = Some (Inr f)")
    case True
    then obtain info name where f: "parse_dirent env vol es i 512 = Some (Inr (info, name))" by auto
    have "i \<le> di_eindex info + 1" using parse_dirent_bounds[OF f] by simp
    then have "drop (di_eindex info + 1) es = drop (di_eindex info + 1) es'"
      by (metis 1(2) drop_drop le_add_diff_inverse2)
    from 1(1)[OF f refl refl this 1(3)] show ?thesis
      by (subst listing.simps, subst (2) listing.simps) (simp add: p f)
  next
    case False
    then show ?thesis by (subst listing.simps, subst (2) listing.simps) (auto simp: p split: option.splits sum.splits)
  qed
qed

subsection \<open>The characters of a long name\<close>

fun pairs :: "'a list \<Rightarrow> ('a \<times> 'a) list" where
  "pairs (x # y # xs) = (x, y) # pairs xs"
| "pairs _ = []"

definition units :: "block \<Rightarrow> (u8 \<times> u8) list" where
  "units b = map (\<lambda>i. (b ! i, b ! (i + 1))) [1, 3, 5, 7, 9, 0xe, 0x10, 0x12, 0x14, 0x16, 0x18, 0x1c, 0x1e]"

fun copy_units :: "(u8 \<times> u8) list \<Rightarrow> block \<Rightarrow> nat \<Rightarrow> block \<times> nat \<times> bool" where
  "copy_units [] u q = (u, q, False)"
| "copy_units ((x, y) # us) u q = (if x = 0xff \<and> y = 0xff then (u, q, True) else copy_units us (memcpy_at u q [x, y]) (q + 2))"

lemma lfn_units_step:
  "i < 0x20 \<Longrightarrow> (\<And>u q. lfn_units b (lfn_next i) u q = copy_units us u q)
   \<Longrightarrow> lfn_units b i u q = copy_units ((b ! i, b ! (i + 1)) # us) u q"
  by (subst lfn_units.simps) simp

lemma lfn_next_values:
  "lfn_next 1 = 3" "lfn_next 3 = 5" "lfn_next 5 = 7" "lfn_next 7 = 9" "lfn_next 9 = 0xe" "lfn_next 0xe = 0x10" "lfn_next 0x10 = 0x12"
  "lfn_next 0x12 = 0x14" "lfn_next 0x14 = 0x16" "lfn_next 0x16 = 0x18" "lfn_next 0x18 = 0x1c" "lfn_next 0x1c = 0x1e" "lfn_next 0x1e = 0x20"
  by (simp_all add: lfn_next_def)

lemma lfn_units_copy: "lfn_units b 1 u q = copy_units (units b) u q"
  unfolding units_def list.map
  by (rule lfn_units_step, simp, unfold lfn_next_values)+ (subst lfn_units.simps, simp)

lemma copy_units_pairs:
  "even (length r) \<Longrightarrow> (0xff, 0xff) \<notin> set (pairs r) \<Longrightarrow> q + length r \<le> length u
   \<Longrightarrow> copy_units (pairs r @ us) u q = copy_units us (memcpy_at u q r) (q + length r)"
proof (induction r arbitrary: u q rule: pairs.induct)
  case (1 x y xs)
  have "memcpy_at (memcpy_at u q [x, y]) (q + 2) xs = memcpy_at u q (x # y # xs)"
    using memcpy_at_append[of q "[x, y]" u xs] "1.prems"(3) by simp
  then show ?case using 1 by auto
qed (simp_all add: memcpy_at_def)

lemma pairs_append: "even (length r) \<Longrightarrow> pairs (r @ s) = pairs r @ pairs s"
  by (induction r rule: pairs.induct) auto

lemma set_pairs_take: "even n \<Longrightarrow> set (pairs (take n r)) \<subseteq> set (pairs r)"
proof (induction r arbitrary: n rule: pairs.induct)
  case (1 x y xs)
  then show ?case by (cases n; cases "n - 1") auto
qed (auto simp: take_Cons')

lemma set_pairs_drop: "even n \<Longrightarrow> set (pairs (drop n r)) \<subseteq> set (pairs r)"
proof (induction r arbitrary: n rule: pairs.induct)
  case (1 x y xs)
  then show ?case by (cases n; cases "n - 1") auto
qed (auto simp: drop_Cons')

lemma lfn_entry_bytes:
  assumes "length p = 26"
  shows "length (lfn_entry n first hash p) = 0x20" "lfn_entry n first hash p ! 0 = word_of_nat (n + (if first then 0x40 else 0))"
    "lfn_entry n first hash p ! 0xb = 0xf" "lfn_entry n first hash p ! 0xc = 0" "lfn_entry n first hash p ! 0xd = hash"
    "lfn_entry n first hash p ! 0x1a = 0" "lfn_entry n first hash p ! 0x1b = 0" "units (lfn_entry n first hash p) = pairs p"
proof -
  define a where "a = (replicate 0x20 (0::u8))[0 := word_of_nat (n + (if first then 0x40 else 0)), 0x0b := 0x0f, 0x0d := hash]"
  define b where "b = memcpy_at a 1 (take 10 p)"
  define c where "c = memcpy_at b 0x0e (take 12 (drop 10 p))"
  have e: "lfn_entry n first hash p = memcpy_at c 0x1c (take 4 (drop 22 p))"
    by (simp add: lfn_entry_def Let_def a_def b_def c_def)
  have la: "length a = 32" by (simp add: a_def)
  have lb: "length b = 32" using la assms by (simp add: b_def)
  have lc: "length c = 32" using lb assms by (simp add: c_def)
  show "length (lfn_entry n first hash p) = 0x20" using lc assms by (simp add: e)
  have nb: "i < 32 \<Longrightarrow> b ! i = (if i < 1 then a ! i else if i < 11 then p ! (i - 1) else a ! i)" for i
    using la assms by (auto simp: b_def nth_memcpy_at)
  have nc: "i < 32 \<Longrightarrow> c ! i = (if i < 14 then b ! i else if i < 26 then p ! (i - 4) else b ! i)" for i
    using lb assms by (auto simp: c_def nth_memcpy_at)
  have ne: "i < 32 \<Longrightarrow> lfn_entry n first hash p ! i = (if i < 28 then c ! i else p ! (i - 6))" for i
    using lc assms by (auto simp: e nth_memcpy_at)
  show "lfn_entry n first hash p ! 0 = word_of_nat (n + (if first then 0x40 else 0))"
    "lfn_entry n first hash p ! 0xb = 0xf" "lfn_entry n first hash p ! 0xc = 0" "lfn_entry n first hash p ! 0xd = hash"
    "lfn_entry n first hash p ! 0x1a = 0" "lfn_entry n first hash p ! 0x1b = 0"
    by (simp_all add: ne nc nb a_def)
  have u: "[0..<26::nat] = [0, 1, 2, 3, 4, 5, 6, 7, 8, 9, 10, 11, 12, 13, 14, 15, 16, 17, 18, 19, 20, 21, 22, 23, 24, 25]"
    by (simp add: upt_conv_Cons)
  have p: "p = map (\<lambda>i. p ! i) [0..<26]" using assms by (metis map_nth)
  have "pairs p = map (\<lambda>i. (p ! i, p ! (i + 1))) [0, 2, 4, 6, 8, 10, 12, 14, 16, 18, 20, 22, 24]"
    by (subst p, subst u) simp
  then show "units (lfn_entry n first hash p) = pairs p" by (simp add: units_def ne nc nb)
qed

text \<open>The entries of a long name, and what a search makes of them.\<close>

fun lfn_block :: "nat \<Rightarrow> bool \<Rightarrow> u8 \<Rightarrow> block \<Rightarrow> block list" where
  "lfn_block 0 first hash nlong = []"
| "lfn_block (Suc k) first hash nlong = lfn_entry (k + 1) first hash (take 26 (drop (k * 26) nlong)) # lfn_block k False hash nlong"

lemma length_lfn_block [simp]: "length (lfn_block k first hash nlong) = k"
  by (induction k arbitrary: first) auto

lemma byte_ne_0: "0 < m \<Longrightarrow> m < 256 \<Longrightarrow> (word_of_nat m :: u8) \<noteq> 0"
  by (metis mod_less nat_less_le unat_byte unat_0)

lemma byte_ne_e5: "m < 0xe5 \<Longrightarrow> (word_of_nat m :: u8) \<noteq> 0xe5"
  using unat_byte[of m] by (auto dest: arg_cong[of _ _ unat])

lemma scan_lfn_rest:
  assumes "26 * m \<le> length N" "(0xff, 0xff) \<notin> set (pairs N)" "m < 32" "start_index l \<noteq> 0xffff" "lfn_hash l = h" "lfn_count l = m + 1"
    "length (uni l) = 1024"
  shows "\<exists>u. scan_entries i (lfn_block m False h (N @ pad) @ bs) l = scan_entries (i + m) bs (l\<lparr>lfn_count := 1, uni := u\<rparr>)
    \<and> length u = 1024 \<and> (\<forall>x < 1024. u ! x = (if x < 26 * m then N ! x else uni l ! x))"
  using assms(1,3-)
proof (induction m arbitrary: i l)
  case 0
  then show ?case by (cases l) (auto intro!: exI[of _ "uni l"])
next
  case (Suc m)
  define p where "p = take 26 (drop (m * 26) (N @ pad))"
  let ?b = "lfn_entry (m + 1) False h p"
  have pN: "p = take 26 (drop (m * 26) N)" and lp: "length p = 26" using Suc.prems(1) by (simp_all add: p_def)
  have ff: "(0xff, 0xff) \<notin> set (pairs p)"
    using assms(2) set_pairs_take[of 26 "drop (m * 26) N"] set_pairs_drop[of "m * 26" N] unfolding pN by auto
  note B = lfn_entry_bytes[OF lp, of "m + 1" False h]
  let ?u = "memcpy_at (uni l) (26 * m) p" let ?l = "l\<lparr>lfn_count := m + 1, uni := ?u\<rparr>"
  have b0: "?b ! 0 \<noteq> 0" "?b ! 0 \<noteq> 0xe5" "unat (?b ! 0) = m + 1"
    using Suc.prems(2) unfolding B(2) by (auto simp: unat_byte byte_ne_0 byte_ne_e5 simp del: of_nat_add of_nat_Suc)
  have "26 * m + length p \<le> length (uni l)" using Suc.prems(2,6) unfolding lp by simp
  then have "lfn_units ?b 1 (uni l) (26 * m) = (?u, 26 * m + length p, False)"
    unfolding lfn_units_copy B(8) using copy_units_pairs[OF _ ff, of "26 * m" "uni l" "[]"] lp by simp
  moreover have "u32_minus (lfn_count l) 1 = m + 1" using Suc.prems(2,5) by (subst u32_minus_id) auto
  ultimately have st: "lfn_step i ?b l = Some ?l"
    using Suc.prems(3,4) b0(3) B(4-7) by (simp add: lfn_step_def Let_def del: One_nat_def)
  have "\<exists>u. scan_entries (i + 1) (lfn_block m False h (N @ pad) @ bs) ?l = scan_entries (i + 1 + m) bs (?l\<lparr>lfn_count := 1, uni := u\<rparr>)
    \<and> length u = 1024 \<and> (\<forall>x < 1024. u ! x = (if x < 26 * m then N ! x else uni ?l ! x))"
    by (rule Suc.IH) (use Suc.prems lp in auto)
  then obtain u where u: "scan_entries (i + 1) (lfn_block m False h (N @ pad) @ bs) ?l = scan_entries (i + 1 + m) bs (?l\<lparr>lfn_count := 1, uni := u\<rparr>)"
    "length u = 1024" "\<forall>x < 1024. u ! x = (if x < 26 * m then N ! x else ?u ! x)" by auto
  have "scan_entries i (lfn_block (Suc m) False h (N @ pad) @ bs) l = scan_entries (i + Suc m) bs (l\<lparr>lfn_count := 1, uni := u\<rparr>)"
    unfolding lfn_block.simps(2) p_def[symmetric] append_Cons scan_entries.simps(2) using b0(1,2) B(3) st u(1) by simp
  moreover have "u ! x = (if x < 26 * Suc m then N ! x else uni l ! x)" if "x < 1024" for x
  proof -
    have "?u ! x = (if x < 26 * m then uni l ! x else if x < 26 * m + 26 then p ! (x - 26 * m) else uni l ! x)"
      using that Suc.prems(2,6) lp by (subst nth_memcpy_at) auto
    then show ?thesis using u(3) that Suc.prems(1) by (auto simp: pN)
  qed
  ultimately show ?case using u(2) by blast
qed

lemma lfn_first_byte:
  assumes "k < 32"
  shows "(word_of_nat (k + 0x40) :: u8) AND 0x40 \<noteq> 0" "unat ((word_of_nat (k + 0x40) :: u8) AND 0x1f) = k"
proof -
  have "\<forall>k \<in> set [0..<32]. (word_of_nat (k + 0x40) :: u8) AND 0x40 \<noteq> 0 \<and> unat ((word_of_nat (k + 0x40) :: u8) AND 0x1f) = k"
    by code_simp
  then show "(word_of_nat (k + 0x40) :: u8) AND 0x40 \<noteq> 0" "unat ((word_of_nat (k + 0x40) :: u8) AND 0x1f) = k"
    using assms by auto
qed

lemma scan_lfn_first:
  assumes "26 * k < length N" "length N \<le> 26 * (k + 1)" "even (length N)" "(0xff, 0xff) \<notin> set (pairs N)" "k < 19"
    "nlong = N @ replicate (512 - length N) 0xff"
  shows "\<exists>u. lfn_step i (lfn_entry (k + 1) True h (take 26 (drop (k * 26) nlong))) no_lfn
      = Some \<lparr>start_index = i, lfn_hash = h, lfn_count = k + 1, filename_len = length N + 2, uni = u\<rparr>
    \<and> length u = 1024 \<and> (\<forall>x. 26 * k \<le> x \<and> x < length N + 2 \<longrightarrow> u ! x = (N @ [0, 0]) ! x)"
proof -
  let ?r = "drop (26 * k) N"
  define j where "j = 26 * (k + 1) - length N"
  have j: "j < 26" "even j" "length ?r + j = 26" using assms(1-3) by (auto simp: j_def)
  let ?p = "take 26 (drop (k * 26) nlong)" let ?b = "lfn_entry (k + 1) True h ?p"
  have p: "?p = ?r @ replicate j 0xff"
    using assms(1,2,5) by (simp add: assms(6) j_def mult.commute min_def)
  have lp: "length ?p = 26" unfolding p using j(3) by simp
  note B = lfn_entry_bytes[OF lp, of "k + 1" True h]
  have ev: "even (length ?r)" using assms(3) by simp
  have ff: "(0xff, 0xff) \<notin> set (pairs ?r)" using assms(4) set_pairs_drop[of "26 * k" N] by auto
  let ?u = "memcpy_at (uni no_lfn) (26 * k) ?r"
  have lu: "length (uni no_lfn) = 1024" by (simp add: no_lfn_def)
  have fit: "26 * k + length ?r \<le> length (uni no_lfn)" using assms(1,2,5) lu by simp
  have st: "\<exists>e. copy_units (pairs (replicate j (0xff :: u8))) u q = (u, q, e)" for u q
    by (cases j; cases "j - 1") auto
  have ub: "units ?b = pairs ?r @ pairs (replicate j 0xff)" unfolding p by (rule trans[OF B(8)[unfolded p] pairs_append[OF ev]])
  have un: "\<exists>e. lfn_units ?b 1 (uni no_lfn) (26 * k) = (?u, length N, e)"
    unfolding lfn_units_copy ub copy_units_pairs[OF ev ff fit] using st assms(1) by simp
  then obtain e where e: "lfn_units ?b 1 (uni no_lfn) (26 * k) = (?u, length N, e)" by blast
  have k: "k + 1 < 32" using assms(5) by simp
  have b0: "?b ! 0 AND 0x40 \<noteq> 0" "unat (?b ! 0 AND 0x1f) = k + 1"
    unfolding B(2) if_True by (rule lfn_first_byte[OF k])+
  let ?v = "memcpy_at ?u (length N) [0, 0]"
  have "lfn_step i ?b no_lfn
      = Some \<lparr>start_index = i, lfn_hash = h, lfn_count = k + 1, filename_len = length N + 2, uni = ?v\<rparr>"
    using e b0 B(4-7) by (simp add: lfn_step_def Let_def no_lfn_def)
  moreover have lu': "length ?u = 1024" using fit lu by simp
  moreover have lv: "length N + length [0, 0 :: u8] \<le> length ?u" using lu' assms(1,2,5) by simp
  moreover have "?v ! x = (N @ [0, 0]) ! x" if "26 * k \<le> x" "x < length N + 2" for x
  proof -
    have x: "x < length ?u" using that lv by simp
    have "?u ! x = (if x < 26 * k then uni no_lfn ! x else if x < 26 * k + length ?r then ?r ! (x - 26 * k) else uni no_lfn ! x)"
      by (rule nth_memcpy_at[OF fit]) (use x lu lu' in simp)
    then show ?thesis unfolding nth_memcpy_at[OF lv x] using that assms(1) by (auto simp: nth_append)
  qed
  ultimately show ?thesis using length_memcpy_at[OF lv] by (intro exI[of _ ?v]) auto
qed

text \<open>What a search reads from the entries written for a file.\<close>

definition long_name :: "env \<Rightarrow> name \<Rightarrow> block \<Rightarrow> bool" where
  "long_name env name N \<longleftrightarrow> even (length N) \<and> length N \<le> 494 \<and> (0xff, 0xff) \<notin> set (pairs N)
     \<and> unicode_to_utf8 env (N @ [0, 0]) (length N + 2) 512 = (0, name)"

lemma parse_written:
  assumes "drop ns es = lfn_block k True (hash_msdos_name (take 11 b)) nlong @ b # rest"
    and "b ! 0 \<noteq> 0" "b ! 0 \<noteq> 0xe5" "b ! 0xb \<noteq> 0xf" "ns \<noteq> 0xffff"
    and "k = (length N + 24) div 26" "N \<noteq> [] \<Longrightarrow> long_name env name N" "nlong = N @ replicate (512 - length N) 0xff"
    and "N = [] \<Longrightarrow> name = msdos_to_utf8 env (take 11 b) 512 (b ! 0xc AND 0x18 \<noteq> 0)"
  shows "parse_dirent env vol es ns 512 = Some (Inr (entry_info vol ns (ns + k) b, name))"
proof (cases "N = []")
  case True
  then show ?thesis using assms(1-4,6,9) by (simp add: parse_dirent_def parse_name_def no_lfn_def)
next
  case False
  have n: "long_name env name N" by (rule assms(7)[OF False])
  then have ev: "even (length N)" and len: "length N \<le> 494" and ff: "(0xff, 0xff) \<notin> set (pairs N)"
    and conv: "unicode_to_utf8 env (N @ [0, 0]) (length N + 2) 512 = (0, name)" by (auto simp: long_name_def)
  let ?h = "hash_msdos_name (take 11 b)"
  have "2 \<le> length N" using False ev by (metis dvd_imp_le length_greater_0_conv)
  moreover obtain c where "length N = 2 * c" using ev by (elim evenE)
  moreover have "26 * k \<le> length N + 24" "length N + 24 < 26 * k + 26"
    using times_div_less_eq_dividend[of 26 "length N + 24"] dividend_less_times_div[of 26 "length N + 24"] assms(6) by simp_all
  ultimately have "1 \<le> k" "26 * (k - 1) < length N" "length N \<le> 26 * k" "k < 20" using len by presburger+
  then obtain m where m: "k = m + 1" "26 * m < length N" "length N \<le> 26 * (m + 1)" "m < 19"
    using that[of "k - 1"] by simp
  obtain u where st: "lfn_step ns (lfn_entry (m + 1) True ?h (take 26 (drop (m * 26) nlong))) no_lfn
      = Some \<lparr>start_index = ns, lfn_hash = ?h, lfn_count = m + 1, filename_len = length N + 2, uni = u\<rparr>"
    and lu: "length u = 1024" and u: "\<forall>x. 26 * m \<le> x \<and> x < length N + 2 \<longrightarrow> u ! x = (N @ [0, 0]) ! x"
    using scan_lfn_first[OF m(2,3) ev ff m(4) assms(8)] by blast
  let ?l = "\<lparr>start_index = ns, lfn_hash = ?h, lfn_count = m + 1, filename_len = length N + 2, uni = u\<rparr>"
  obtain w where sc: "scan_entries (ns + 1) (lfn_block m False ?h nlong @ b # rest) ?l = scan_entries (ns + 1 + m) (b # rest) (?l\<lparr>lfn_count := 1, uni := w\<rparr>)"
    and lw: "length w = 1024" and w: "\<forall>x < 1024. w ! x = (if x < 26 * m then N ! x else u ! x)"
    using scan_lfn_rest[of m N ?l ?h "ns + 1" "replicate (512 - length N) 0xff" "b # rest"] m ff assms(5) lu unfolding assms(8) by auto
  have lp: "length (take 26 (drop (m * 26) nlong)) = 26" using m(4) by (simp add: assms(8))
  note B = lfn_entry_bytes[OF lp, of "m + 1" True ?h]
  have b0: "lfn_entry (m + 1) True ?h (take 26 (drop (m * 26) nlong)) ! 0 \<noteq> 0" "lfn_entry (m + 1) True ?h (take 26 (drop (m * 26) nlong)) ! 0 \<noteq> 0xe5"
    using m(4) unfolding B(2) by (auto simp: byte_ne_0 byte_ne_e5 simp del: of_nat_add of_nat_Suc)
  have "scan_entries ns (drop ns es) no_lfn = Some (Some (ns + 1 + m, b, ?l\<lparr>lfn_count := 1, uni := w\<rparr>))"
    using assms(2-4) b0 B(3) st sc unfolding assms(1) m(1) Suc_eq_plus1[symmetric] lfn_block.simps(2) append_Cons scan_entries.simps(2) by simp
  moreover have "take (length N + 2) w = N @ [0, 0]"
  proof (rule nth_equalityI)
    show "length (take (length N + 2) w) = length (N @ [0, 0])" using lw len by simp
    fix x assume "x < length (take (length N + 2) w)"
    then have x: "x < length N + 2" "x < 1024" using lw len by auto
    then show "take (length N + 2) w ! x = (N @ [0, 0]) ! x" using w u m(2) by (auto simp: nth_append)
  qed
  ultimately show ?thesis using conv assms(5) m(1) by (simp add: parse_dirent_def parse_name_def)
qed

subsection \<open>Writing the entries of a file\<close>

lemma take_update_Suc: "i < length xs \<Longrightarrow> take (i + 1) (xs[i := x]) = take i xs @ [x]"
  by (simp add: take_Suc_conv_app_nth)

lemma create_lfns_changed:
  assumes "dir_ok vol cluster cs" "diri_at vol cluster cs it i" "i + k < node_entries vol cs" "26 * k \<le> length nlong"
  shows "\<exists>vol' it'. create_lfns k first vol it (Some (node_ptr vol cs i)) hash nlong = (vol', it', Some (node_ptr vol cs (i + k)))
    \<and> diri_at vol cluster cs it' (i + k)
    \<and> dir_changed vol cs (take i (dir_entries vol cs) @ lfn_block k first hash nlong @ drop (i + k) (dir_entries vol cs)) vol'"
  using assms
proof (induction k arbitrary: vol it i first)
  case 0
  then show ?case using dir_changed_refl[of vol cs] by simp
next
  case (Suc k)
  let ?e = "lfn_entry (k + 1) first hash (take 26 (drop (k * 26) nlong))" let ?w = "entry_store vol (node_ptr vol cs i) ?e"
  have i: "i < node_entries vol cs" "i + 1 < node_entries vol cs" using Suc.prems by simp_all
  have le: "length ?e = 0x20" by (rule lfn_entry_bytes(1)) (use Suc.prems(4) in simp)
  note w = store_changed[OF Suc.prems(1) i(1) le]
  note K = dir_changed_keeps[OF w Suc.prems(1)]
  obtain it' where n: "diri_next_entry ?w it = (Some (node_ptr ?w cs (i + 1)), it')" "diri_at ?w cluster cs it' (i + 1)"
    using diri_next_node(1)[OF K(1), of it i] Suc.prems(2) K(3,4) i(2) by auto
  have "i + 1 + k < node_entries ?w cs" "26 * k \<le> length nlong" using Suc.prems(3,4) K(4) by simp_all
  from Suc.IH[OF K(1) n(2) this, of False] obtain vol' it2 where
    c: "create_lfns k False ?w it' (Some (node_ptr ?w cs (i + 1))) hash nlong = (vol', it2, Some (node_ptr ?w cs (i + 1 + k)))"
    and at: "diri_at ?w cluster cs it2 (i + 1 + k)"
    and ch: "dir_changed ?w cs (take (i + 1) (dir_entries ?w cs) @ lfn_block k False hash nlong @ drop (i + 1 + k) (dir_entries ?w cs)) vol'" by blast
  have e: "dir_entries ?w cs = (dir_entries vol cs)[i := ?e]" using w by (simp add: dir_changed_def)
  have "take (i + 1) (dir_entries ?w cs) @ lfn_block k False hash nlong @ drop (i + 1 + k) (dir_entries ?w cs)
      = take i (dir_entries vol cs) @ lfn_block (Suc k) first hash nlong @ drop (i + Suc k) (dir_entries vol cs)"
    unfolding e take_update_Suc[of i "dir_entries vol cs", unfolded length_dir_entries, OF i(1)] by simp
  note ch2 = dir_changed_trans[OF w ch[unfolded this]]
  have "create_lfns (Suc k) first vol it (Some (node_ptr vol cs i)) hash nlong = (vol', it2, Some (node_ptr vol cs (i + Suc k)))"
    using Suc.prems(4) n(1) c K(5) by (simp add: Let_def)
  moreover have "diri_at vol cluster cs it2 (i + Suc k)" using at K(3)[of it2 "i + 1 + k"] by simp
  ultimately show ?case using ch2 by blast
qed

lemma clear_rest_changed:
  assumes "dir_ok vol cluster cs" "diri_at vol cluster cs it i" "node_entries vol cs - i \<le> k" "i < node_entries vol cs"
  shows "dir_changed vol cs (take (i + 1) (dir_entries vol cs) @ replicate (node_entries vol cs - (i + 1)) (replicate 0x20 0)) (clear_rest k vol it)"
  using assms
proof (induction k arbitrary: vol it i)
  case (Suc k)
  show ?case
  proof (cases "i + 1 < node_entries vol cs")
    case False
    then obtain it' where "diri_next_entry vol it = (None, it')" using diri_next_node(2)[OF Suc.prems(1,2)] by auto
    then show ?thesis using dir_changed_refl[of vol cs] False Suc.prems(4) by simp
  next
    case True
    obtain it' where n: "diri_next_entry vol it = (Some (node_ptr vol cs (i + 1)), it')" "diri_at vol cluster cs it' (i + 1)"
      using diri_next_node(1)[OF Suc.prems(1,2) True] by auto
    let ?w = "entry_store vol (node_ptr vol cs (i + 1)) (replicate 0x20 0)"
    have w: "dir_changed vol cs ((dir_entries vol cs)[i + 1 := replicate 0x20 0]) ?w"
      by (rule store_changed[OF Suc.prems(1) True]) simp
    note K = dir_changed_keeps[OF w Suc.prems(1)]
    have "diri_at ?w cluster cs it' (i + 1)" "node_entries ?w cs - (i + 1) \<le> k" "i + 1 < node_entries ?w cs"
      using n(2) K(3,4) Suc.prems(3) True by auto
    from dir_changed_trans[OF w Suc.IH[OF K(1) this]] K(4)
    have "dir_changed vol cs (take (i + 1 + 1) (dir_entries ?w cs) @ replicate (node_entries vol cs - (i + 1 + 1)) (replicate 0x20 0)) (clear_rest k ?w it')"
      by simp
    moreover have e: "dir_entries ?w cs = (dir_entries vol cs)[i + 1 := replicate 0x20 0]" using w by (simp add: dir_changed_def)
    moreover have "replicate (node_entries vol cs - (i + 1)) (replicate 0x20 (0::u8))
        = replicate 0x20 0 # replicate (node_entries vol cs - (i + 1 + 1)) (replicate 0x20 0)"
      using True by (metis Suc_diff_Suc Suc_eq_plus1 replicate_Suc)
    ultimately show ?thesis
      using take_update_Suc[of "i + 1" "dir_entries vol cs" "replicate 0x20 0"] True n(1) by simp
  qed
qed simp

definition new_entries :: "nspace \<Rightarrow> env \<Rightarrow> entry_fields \<Rightarrow> block \<Rightarrow> block \<Rightarrow> nat \<Rightarrow> block \<Rightarrow> block list" where
  "new_entries vol env info nshort nlong k old =
     lfn_block k True (hash_msdos_name (take 11 nshort)) nlong @ [short_entry env vol info nshort old]"

lemma length_short_entry: "length old = 0x20 \<Longrightarrow> length nshort = 11 \<Longrightarrow> length (short_entry env vol info nshort old) = 0x20"
  unfolding short_entry_def by (rule length_put_entry_fields) simp

lemma short_entry_geometry: "fat_bits vol' = fat_bits vol \<Longrightarrow> short_entry env vol' = short_entry env vol"
  by (simp add: fun_eq_iff short_entry_def put_entry_fields_def)

lemma blit_entries_changed:
  assumes "dir_ok vol (vn_cluster dir) cs" "ns + k < node_entries vol cs" "26 * k \<le> length nlong" "length nshort = 11"
  shows "\<exists>vol'. blit_entries env vol dir info nshort nlong ns (k + 1) last_entry = (0, vol')
    \<and> dir_changed vol cs (take ns (dir_entries vol cs) @ new_entries vol env info nshort nlong k (dir_entries vol cs ! (ns + k))
        @ (if last_entry then replicate (node_entries vol cs - (ns + k + 1)) (replicate 0x20 0) else drop (ns + k + 1) (dir_entries vol cs))) vol'"
proof -
  let ?es = "dir_entries vol cs" and ?h = "hash_msdos_name (take 11 nshort)"
  have ns: "ns < node_entries vol cs" using assms(2) by simp
  obtain it where it: "diri_init vol (vn_cluster dir) ns new_diri = (Some (node_ptr vol cs ns), it)" "diri_at vol (vn_cluster dir) cs it ns"
    using diri_init_node(1)[OF assms(1) ns] by blast
  obtain v1 it1 where c: "create_lfns k True vol it (Some (node_ptr vol cs ns)) ?h nlong = (v1, it1, Some (node_ptr vol cs (ns + k)))"
    and at1: "diri_at vol (vn_cluster dir) cs it1 (ns + k)"
    and ch1: "dir_changed vol cs (take ns ?es @ lfn_block k True ?h nlong @ drop (ns + k) ?es) v1"
    using create_lfns_changed[OF assms(1) it(2) assms(2,3)] by blast
  note K1 = dir_changed_keeps[OF ch1 assms(1)]
  have e1: "dir_entries v1 cs = take ns ?es @ lfn_block k True ?h nlong @ drop (ns + k) ?es" using ch1 by (simp add: dir_changed_def)
  have nk: "ns + k < node_entries v1 cs" using assms(2) K1(4) by simp
  have old: "entry_data v1 (node_ptr vol cs (ns + k)) = ?es ! (ns + k)"
  proof -
    have "entry_data v1 (node_ptr vol cs (ns + k)) = dir_entries v1 cs ! (ns + k)" using nk K1(5) by (simp add: nth_dir_entries dir_entry_def)
    also have "\<dots> = ?es ! (ns + k)" unfolding e1 using assms(2) by (simp add: nth_append)
    finally show ?thesis .
  qed
  let ?s = "short_entry env v1 info nshort (?es ! (ns + k))" let ?w = "entry_store v1 (node_ptr v1 cs (ns + k)) ?s"
  have ls: "length ?s = 0x20" by (rule length_short_entry[OF dir_entry_length[OF assms(1,2)] assms(4)])
  note ch2 = store_changed[OF K1(1) nk ls]
  note K2 = dir_changed_keeps[OF ch2 K1(1)]
  have e2: "dir_entries ?w cs = take ns ?es @ lfn_block k True ?h nlong @ [?s] @ drop (ns + k + 1) ?es"
  proof -
    have "drop (ns + k) ?es = ?es ! (ns + k) # drop (ns + k + 1) ?es" using assms(2) by (metis Cons_nth_drop_Suc Suc_eq_plus1 length_dir_entries)
    then show ?thesis using ch2 assms(2) by (simp add: dir_changed_def e1 list_update_append)
  qed
  have s: "?s = short_entry env vol info nshort (?es ! (ns + k))" using short_entry_geometry[OF K1(6)] by simp
  have ch12: "dir_changed vol cs (dir_entries ?w cs) ?w"
    using dir_changed_trans[OF ch1 ch2] ch2 by (simp add: dir_changed_def)
  show ?thesis
  proof (cases last_entry)
    case False
    then have "blit_entries env vol dir info nshort nlong ns (k + 1) last_entry = (0, ?w)"
      using it(1) c K1(5) old by (simp add: blit_entries_def)
    then show ?thesis using ch12 e2 False unfolding s by (simp add: new_entries_def)
  next
    case True
    have at2: "diri_at ?w (vn_cluster dir) cs it1 (ns + k)" using at1 K1(3) K2(3) by simp
    have fu: "node_entries ?w cs - (ns + k) \<le> dir_fuel ?w" using node_entries_fuel[OF K2(1)] by linarith
    have nw: "ns + k < node_entries ?w cs" using nk K2(4) by simp
    note ch3 = dir_changed_trans[OF ch12 clear_rest_changed[OF K2(1) at2 fu nw]]
    have "blit_entries env vol dir info nshort nlong ns (k + 1) last_entry = (0, clear_rest (dir_fuel ?w) ?w it1)"
      using it(1) c K1(5) old True by (simp add: blit_entries_def Let_def)
    moreover have "take (ns + k + 1) (dir_entries ?w cs) = take ns ?es @ lfn_block k True ?h nlong @ [?s]"
      unfolding e2 using assms(2) by simp
    ultimately show ?thesis using ch3 K1(4) K2(4) True unfolding s by (simp add: new_entries_def)
  qed
qed

subsection \<open>The fields of a written entry\<close>

lemma put_entry_fields_bytes:
  fixes vol :: nspace and mode time cluster sz :: nat
  assumes "length e = 0x20"
  defines "w \<equiv> put_entry_fields vol mode time cluster sz e"
  shows "w ! 0xb = word_of_nat mode" "w ! 0xc = 0" "i < 0xb \<Longrightarrow> w ! i = e ! i"
    "read16 w 0x1a = cluster mod 65536" "read32 w 0x1c = sz mod 2 ^ 32" "read32 w 0x16 = time mod 2 ^ 32"
    "fat_bits vol = 32 \<Longrightarrow> read16 w 0x14 = cluster div 65536 mod 65536"
proof -
  define a where "a = memset_at (e[0x0b := word_of_nat mode]) 0xc 0 (0x16 - 0xc)"
  define b where "b = write16 (write32 a 0x16 time) 0x1a cluster"
  define c where "c = (if fat_bits vol = 32 then write16 b 0x14 (cluster div 65536) else b)"
  have w: "w = write32 c 0x1c sz" by (simp add: w_def put_entry_fields_def Let_def a_def b_def c_def)
  have la: "length a = 32" "length b = 32" "length c = 32" using assms(1) by (simp_all add: a_def b_def c_def)
  have na: "i < 32 \<Longrightarrow> a ! i = (if i < 0xc then e[0x0b := word_of_nat mode] ! i else if i < 0x16 then 0 else e ! i)" for i
    using assms(1) unfolding a_def memset_at_def by (subst nth_memcpy_at) auto
  have lo: "i < 0x14 \<Longrightarrow> w ! i = a ! i" for i
    by (simp add: w nth_write32_other nth_write16_other c_def b_def)
  show "w ! 0xb = word_of_nat mode" "w ! 0xc = 0" "i < 0xb \<Longrightarrow> w ! i = e ! i" using assms(1) by (auto simp: lo na)
  show "read32 w 0x1c = sz mod 2 ^ 32" unfolding w by (rule read32_write32) (simp add: la)
  have "read16 w 0x1a = read16 b 0x1a"
    by (rule read16_cong) (auto simp: w nth_write32_other nth_write16_other c_def)
  then show "read16 w 0x1a = cluster mod 65536" unfolding b_def using la(1) by (simp add: read16_write16)
  have "read32 w 0x16 = read32 (write32 a 0x16 time) 0x16"
    by (rule read32_cong) (auto simp: w nth_write32_other nth_write16_other c_def b_def)
  then show "read32 w 0x16 = time mod 2 ^ 32" using la(1) by (simp add: read32_write32)
  show "read16 w 0x14 = cluster div 65536 mod 65536" if "fat_bits vol = 32"
  proof -
    have "read16 w 0x14 = read16 c 0x14" by (rule read16_cong) (auto simp: w nth_write32_other)
    then show ?thesis using that la(2) by (simp add: c_def read16_write16)
  qed
qed

text \<open>What a search reads from a new entry.\<close>

definition new_info :: "env \<Rightarrow> entry_fields \<Rightarrow> nat \<Rightarrow> nat \<Rightarrow> dirent_info" where
  "new_info env info sindex eindex =
     \<lparr>di_sindex = sindex, di_eindex = eindex, di_mode = ei_mode info, di_cluster = (if ei_size info = 0 then 0 else ei_cluster info),
      di_size = (if ei_mode info AND FAT_SUBDIR \<noteq> 0 then 0 else ei_size info), di_time = time_t2dos (env_tz env) (ei_time info) mod 2 ^ 32\<rparr>"

lemma short_entry_info:
  fixes env :: env
  assumes "fat_ok vol" "length old = 0x20" "length nshort = 11" "ei_mode info < 256" "ei_size info < 2 ^ 32"
    "ei_cluster info = 0 \<or> IS_DATA_CLUSTER vol (int (ei_cluster info))" "ei_cluster info < 2 ^ 32"
  defines "w \<equiv> short_entry env vol info nshort old"
  shows "take 11 w = nshort" "w ! 0xb = word_of_nat (ei_mode info)" "w ! 0xc = 0" "w ! 0 = nshort ! 0"
    "entry_info vol s e w = new_info env info s e"
proof -
  let ?e = "memcpy_at old 0 (take 11 nshort)"
  have le: "length ?e = 0x20" using assms(2,3) by simp
  note P = put_entry_fields_bytes[OF le, where vol = vol and mode = "ei_mode info" and time = "time_t2dos (env_tz env) (ei_time info)"
      and cluster = "if ei_size info = 0 then 0 else ei_cluster info" and sz = "if ei_mode info AND FAT_SUBDIR \<noteq> 0 then 0 else ei_size info", folded short_entry_def, folded w_def]
  have lw: "length w = 0x20" unfolding w_def by (rule length_short_entry[OF assms(2,3)])
  have ne: "i < 11 \<Longrightarrow> ?e ! i = nshort ! i" for i using assms(2,3) by (simp add: nth_memcpy_at)
  show "take 11 w = nshort"
    by (rule nth_equalityI) (use lw assms(3) P(3) ne in auto)
  show "w ! 0 = nshort ! 0" using P(3)[of 0] ne[of 0] by simp
  show "w ! 0xb = word_of_nat (ei_mode info)" "w ! 0xc = 0" by (rule P)+
  have cl: "ei_cluster info < (if fat_bits vol = 32 then 2 ^ 32 else 65536)"
    using assms(1,6,7) fat_okD(8,9)[OF assms(1)] fat_okD(1)[OF assms(1)] fat_clusters_bound(1)[OF assms(1)] by auto
  have sz: "(if ei_mode info AND FAT_SUBDIR \<noteq> 0 then 0 else ei_size info) mod 2 ^ 32
      = (if ei_mode info AND FAT_SUBDIR \<noteq> 0 then 0 else ei_size info)" using assms(5) by simp
  define c where "c = (if ei_size info = 0 then 0 else ei_cluster info)"
  have c: "c < (if fat_bits vol = 32 then 2 ^ 32 else 65536)" using cl by (auto simp: c_def)
  have "(if fat_bits vol = 32 then u32 (read16 w 0x1a + 0x10000 * read16 w 0x14) else read16 w 0x1a) = c"
  proof (cases "fat_bits vol = 32")
    case True
    have "c div 65536 < 65536" using c True by (simp add: div_less_iff_less_mult)
    then have "c mod 65536 + 65536 * (c div 65536 mod 65536) = c" by simp
    then show ?thesis using True P(4) P(7)[OF True] c unfolding c_def[symmetric] by simp
  next
    case False
    then show ?thesis using P(4) c unfolding c_def[symmetric] by simp
  qed
  then show "entry_info vol s e w = new_info env info s e"
    unfolding entry_info_def new_info_def c_def P(1,5,6) sz using assms(4) by (simp add: unat_byte)
qed

subsection \<open>Finding room\<close>

fun place_in :: "nat \<Rightarrow> nat \<Rightarrow> (dirent_info \<times> name) list \<Rightarrow> nat \<times> bool" where
  "place_in required ns [] = (ns, True)"
| "place_in required ns (f # fs) =
     (if required \<le> di_sindex (fst f) - ns then (ns, False) else place_in required (di_eindex (fst f) + 1) fs)"

lemma place_loop_listing:
  assumes "dir_ok vol cluster cs" "iter_at vol cluster cs it i" "listing env vol (dir_entries vol cs) i = Some fs" "length fs < k"
    "i < node_entries vol cs \<or> e0 = B_OK"
  shows "\<exists>e. place_loop k env vol it required i e0 = (e, fst (place_in required i fs), snd (place_in required i fs), vol) \<and> (e = B_OK \<or> e = ENOENT)"
  using assms(2-5)
proof (induction fs arbitrary: it i k e0)
  case Nil
  then obtain k' where k: "k = Suc k'" by (cases k) auto
  show ?case
  proof (cases "i < node_entries vol cs")
    case True
    then obtain bn where "current_block it = Some bn" using Nil(1) by (auto simp: iter_at_def diri_at_def)
    moreover obtain it' where "next_dirent env vol it 512 = (Inl ENOENT, vol, it')"
      using next_dirent_parse[OF assms(1) Nil(1), of 512 env] listing_Some[OF Nil(2)] by auto
    ultimately show ?thesis using k by simp
  next
    case False
    then show ?thesis using Nil k by (simp add: iter_at_def)
  qed
next
  case (Cons f fs)
  then obtain k' where k: "k = Suc k'" "length fs < k'" by (cases k) auto
  have p: "parse_dirent env vol (dir_entries vol cs) i 512 = Some (Inr f)"
    and l: "listing env vol (dir_entries vol cs) (di_eindex (fst f) + 1) = Some fs"
    using listing_Some[OF Cons.prems(2)] by simp_all
  obtain it' where n: "next_dirent env vol it 512 = (Inr f, vol, it')" and at: "iter_at vol cluster cs it' (di_eindex (fst f) + 1)"
    and e: "i \<le> di_eindex (fst f)" "di_eindex (fst f) < node_entries vol cs"
    using next_dirent_parse[OF assms(1) Cons.prems(1), of 512 env] p by (cases f) auto
  have cb: "current_block it \<noteq> None" using Cons.prems(1) e by (simp add: iter_at_def diri_at_def)
  have idx: "current_index it' = di_eindex (fst f) + 1" using at by (auto simp: iter_at_def diri_at_def split: if_splits)
  have s: "i \<le> di_sindex (fst f)" "di_sindex (fst f) \<le> di_eindex (fst f)"
    using parse_dirent_sindex[of env vol "dir_entries vol cs" i 512 "fst f" "snd f"] p by simp_all
  have "di_sindex (fst f) < 2 ^ 32" using s(2) e(2) dir_okD(3)[OF assms(1)] by simp
  then have u: "u32_minus (di_sindex (fst f)) i = di_sindex (fst f) - i" using s(1) by (rule u32_minus_id[rotated])
  have "\<exists>e. place_loop k' env vol it' required (di_eindex (fst f) + 1) B_OK
      = (e, fst (place_in required (di_eindex (fst f) + 1) fs), snd (place_in required (di_eindex (fst f) + 1) fs), vol) \<and> (e = B_OK \<or> e = ENOENT)"
    by (rule Cons.IH[OF at l k(2)]) simp
  then show ?case using cb n u idx k(1) by (cases f) auto
qed

lemma place_in_split:
  assumes "place_in required i fs = (ns, l)"
  shows "\<exists>fs1 fs2. fs = fs1 @ fs2 \<and> ns = next_index i fs1
    \<and> (if l then fs2 = [] else fs2 \<noteq> [] \<and> required \<le> di_sindex (fst (hd fs2)) - ns)"
  using assms
proof (induction fs arbitrary: i)
  case (Cons f fs)
  show ?case
  proof (cases "required \<le> di_sindex (fst f) - i")
    case True
    then show ?thesis using Cons.prems by (intro exI[of _ "[]"] exI[of _ "f # fs"]) auto
  next
    case False
    then obtain fs1 fs2 where "fs = fs1 @ fs2" "ns = next_index (di_eindex (fst f) + 1) fs1"
      "if l then fs2 = [] else fs2 \<noteq> [] \<and> required \<le> di_sindex (fst (hd fs2)) - ns"
      using Cons.IH[of "di_eindex (fst f) + 1"] Cons.prems by auto
    then show ?thesis by (intro exI[of _ "f # fs1"] exI[of _ fs2]) simp
  qed
qed simp

subsection \<open>Tidy directories\<close>

text \<open>Between the files there are erased entries only, no parts of long names without a short entry.\<close>

fun dir_tidy :: "block list \<Rightarrow> nat \<Rightarrow> (dirent_info \<times> name) list \<Rightarrow> bool" where
  "dir_tidy es i [] \<longleftrightarrow> True"
| "dir_tidy es i (f # fs) \<longleftrightarrow> (\<forall>x \<in> {i..<di_sindex (fst f)}. es ! x ! 0 = 0xe5) \<and> dir_tidy es (di_eindex (fst f) + 1) fs"

lemma dir_tidy_append: "dir_tidy es i (fs @ gs) \<longleftrightarrow> dir_tidy es i fs \<and> dir_tidy es (next_index i fs) gs"
  by (induction fs arbitrary: i) auto

lemma dir_tidy_cong:
  assumes "listing env vol es i = Some (fs @ gs)" "i \<le> length es" "\<forall>x. i \<le> x \<and> x < next_index i fs \<longrightarrow> es' ! x = es ! x"
  shows "dir_tidy es' i fs \<longleftrightarrow> dir_tidy es i fs"
  using assms
proof (induction fs arbitrary: i)
  case (Cons f fs)
  have p: "parse_dirent env vol es i 512 = Some (Inr f)" and l: "listing env vol es (di_eindex (fst f) + 1) = Some (fs @ gs)"
    using listing_Some[OF Cons.prems(1)] by simp_all
  have e: "i \<le> di_eindex (fst f)" "di_eindex (fst f) < length es" "di_sindex (fst f) \<le> di_eindex (fst f)"
    using parse_dirent_bounds[of env vol es i 512 "fst f" "snd f"] parse_dirent_sindex[of env vol es i 512 "fst f" "snd f"] p by simp_all
  have "di_eindex (fst f) + 1 \<le> next_index i (f # fs)" using listing_next[OF l] e by simp
  then have "(\<forall>x \<in> {i..<di_sindex (fst f)}. es' ! x ! 0 = 0xe5) \<longleftrightarrow> (\<forall>x \<in> {i..<di_sindex (fst f)}. es ! x ! 0 = 0xe5)"
    using Cons.prems(3) e(3) by (intro ball_cong) auto
  moreover have "dir_tidy es' (di_eindex (fst f) + 1) fs \<longleftrightarrow> dir_tidy es (di_eindex (fst f) + 1) fs"
    by (rule Cons.IH[OF l]) (use Cons.prems e in auto)
  ultimately show ?case by simp
qed simp

lemma dir_tidy_suffix:
  "\<forall>x \<ge> i. es' ! x = es ! x \<Longrightarrow> dir_tidy es i fs \<Longrightarrow> listing env vol es i = Some fs \<Longrightarrow> dir_tidy es' i fs"
proof (induction fs arbitrary: i)
  case (Cons f fs)
  have p: "parse_dirent env vol es i 512 = Some (Inr f)" and l: "listing env vol es (di_eindex (fst f) + 1) = Some fs"
    using listing_Some[OF Cons.prems(3)] by simp_all
  have "i \<le> di_eindex (fst f)" using parse_dirent_bounds[of env vol es i 512 "fst f" "snd f"] p by simp
  then show ?case using Cons.IH[OF _ _ l] Cons.prems(1,2) by simp
qed simp

text \<open>The abstract state of a directory: its files, tidily on the disk.\<close>

definition dir_state :: "env \<Rightarrow> nspace \<Rightarrow> nat list \<Rightarrow> (dirent_info \<times> name) list \<Rightarrow> bool" where
  "dir_state env vol cs fs \<longleftrightarrow> listing env vol (dir_entries vol cs) 0 = Some fs \<and> dir_tidy (dir_entries vol cs) 0 fs"

lemma listing_zeros: "drop i es = replicate n (replicate 0x20 0) \<Longrightarrow> listing env vol es i = Some []"
  by (subst listing.simps, cases n) (simp_all add: parse_dirent_def)

text \<open>New entries between the files \<open>fs1\<close> and \<open>fs2\<close>.\<close>

lemma insert_file:
  assumes "dir_state env vol cs (fs1 @ fs2)" "node_entries vol cs = n" "ns = next_index 0 fs1" "m = length new" "0 < m" "ns + m \<le> n"
    and "dir_entries vol' cs = take ns (dir_entries vol cs) @ new
      @ (if lst then replicate (n - (ns + m)) (replicate 0x20 0) else drop (ns + m) (dir_entries vol cs))"
    and "if lst then fs2 = [] else fs2 \<noteq> [] \<and> m \<le> di_sindex (fst (hd fs2)) - ns"
    and "parse_dirent env vol' (dir_entries vol' cs) ns 512 = Some (Inr (info, name))" "di_sindex info = ns" "di_eindex info = ns + m - 1"
    and "fat_bits vol' = fat_bits vol"
  shows "dir_state env vol' cs (fs1 @ (info, name) # fs2)"
proof -
  let ?es = "dir_entries vol cs" and ?es' = "dir_entries vol' cs"
  have L: "listing env vol ?es 0 = Some (fs1 @ fs2)" and T: "dir_tidy ?es 0 (fs1 @ fs2)" using assms(1) by (auto simp: dir_state_def)
  have nx: "listing env vol ?es ns = Some fs2" "ns \<le> n" using listing_next[OF L] assms(2,3) by simp_all
  have len: "length ?es = n" "length ?es' = n" using assms(2,4,6) unfolding assms(7) by auto
  have lo: "x < ns \<Longrightarrow> ?es' ! x = ?es ! x" for x using nx(2) len by (simp add: assms(7) nth_append)
  have hi: "?es' ! x = ?es ! x" if "ns + m \<le> x" "\<not> lst" for x
    using that len nx(2) assms(4) unfolding assms(7) by (auto simp: nth_append)
  have m: "ns + m - 1 + 1 = ns + m" using assms(5) by simp
  have gap: "\<forall>x. ns \<le> x \<and> x < di_sindex (fst (hd fs2)) \<longrightarrow> ?es ! x ! 0 = 0xe5" if "\<not> lst"
    using T assms(3,8) that by (cases fs2) (auto simp: dir_tidy_append)
  have sm: "ns + m \<le> di_sindex (fst (hd fs2))" if "\<not> lst" using assms(5,8) that by auto
  have rest: "listing env vol' ?es' (ns + m) = Some fs2"
  proof (cases lst)
    case True
    have "drop (ns + m) ?es' = replicate (n - (ns + m)) (replicate 0x20 0)" using True nx(2) len assms(4) by (simp add: assms(7))
    then show ?thesis using listing_zeros assms(8) True by simp
  next
    case False
    have "drop (ns + m) ?es = drop (ns + m) ?es'" using False nx(2) len assms(4) by (simp add: assms(7))
    then have "listing env vol' ?es' (ns + m) = listing env vol ?es (ns + m)" by (rule listing_suffix) (rule assms(12))
    also have "\<dots> = listing env vol ?es ns"
      by (rule listing_erased[symmetric]) (use assms(6) len gap[OF False] sm[OF False] in auto)
    finally show ?thesis using nx(1) by simp
  qed
  have "listing env vol' ?es' ns = Some ((info, name) # fs2)"
    unfolding listing.simps[of env vol' ?es' ns] assms(9) option.case sum.case prod.case assms(11) m rest by simp
  moreover have "listing env vol' ?es' 0 = map_option ((@) fs1) (listing env vol' ?es' (next_index 0 fs1))"
    by (rule listing_local[OF L]) (use lo len nx(2) assms(3,12) in auto)
  ultimately have "listing env vol' ?es' 0 = Some (fs1 @ (info, name) # fs2)" by (simp add: assms(3)[symmetric])
  moreover have "dir_tidy ?es' 0 fs1"
    using dir_tidy_cong[OF L, of ?es'] lo T by (simp add: assms(3)[symmetric] dir_tidy_append)
  moreover have "dir_tidy ?es' (ns + m) fs2"
  proof (cases lst)
    case False
    obtain f gs where f: "fs2 = f # gs" using assms(8) False by (cases fs2) auto
    have l2: "listing env vol ?es (di_eindex (fst f) + 1) = Some gs" "dir_tidy ?es (di_eindex (fst f) + 1) gs"
      using nx(1) T listing_Some[of env vol ?es ns fs2] f by (auto simp: dir_tidy_append assms(3)[symmetric])
    have "parse_dirent env vol ?es ns 512 = Some (Inr (fst f, snd f))" using nx(1) listing_Some[of env vol ?es ns fs2] f by simp
    from parse_dirent_sindex[OF this] have "ns + m \<le> di_eindex (fst f) + 1" using sm[OF False] f by simp
    then have "dir_tidy ?es' (di_eindex (fst f) + 1) gs"
      by (intro dir_tidy_suffix[OF _ l2(2,1)]) (use hi[OF _ False] in auto)
    moreover have "\<forall>x \<in> {ns + m..<di_sindex (fst f)}. ?es' ! x ! 0 = 0xe5" using gap[OF False] hi[OF _ False] f by auto
    ultimately show ?thesis using f by simp
  qed (use assms(8) in simp)
  ultimately show ?thesis using assms(10,11) m by (simp add: dir_state_def dir_tidy_append assms(3)[symmetric])
qed

subsection \<open>Properties\<close>

text \<open>What \<^verbatim>\<open>_create_dir_entry_\<close> is given: a short name of 11 characters that is no device, and a long name, or none.\<close>

definition names_ok :: "env \<Rightarrow> name \<Rightarrow> block \<Rightarrow> block \<Rightarrow> bool" where
  "names_ok env name nshort N \<longleftrightarrow> length nshort = 11 \<and> nshort ! 0 \<noteq> 0 \<and> nshort ! 0 \<noteq> 0xe5 \<and> take 8 nshort \<notin> set (map (take 8) device_names)
     \<and> (if N = [] then name = msdos_to_utf8 env nshort 512 False else long_name env name N)"

definition fields_ok :: "nspace \<Rightarrow> entry_fields \<Rightarrow> bool" where
  "fields_ok vol info \<longleftrightarrow> ei_mode info < 256 \<and> ei_mode info \<noteq> 0xf \<and> ei_size info < 2 ^ 32 \<and> ei_cluster info < 2 ^ 32
     \<and> (ei_cluster info = 0 \<or> IS_DATA_CLUSTER vol (int (ei_cluster info)))"

lemma create_run:
  fixes N :: block
  assumes "dir_ok vol (vn_cluster dir) cs" "0 < node_entries vol cs" "node_entries vol cs < 2 ^ 26"
    and "vn_st_size dir = int (node_entries vol cs * 0x20)" "dir_state env vol cs fs"
    and "names_ok env name nshort N" "fields_ok vol info"
  defines "k \<equiv> (length N + 24) div 26"
  assumes "place_in (k + 1) 0 fs = (ns, lst)" "ns + k < node_entries vol cs" "ns \<noteq> 0xffff"
  shows "\<exists>vol' fs1 fs2. do_create_dir_entry env vol dir info nshort (N @ replicate (512 - length N) 0xff) (length N) = (0, ns, ns + k, vol', dir)
    \<and> fs = fs1 @ fs2 \<and> dir_state env vol' cs (fs1 @ (new_info env info ns (ns + k), name) # fs2)
    \<and> dir_changed vol cs (dir_entries vol' cs) vol'"
proof -
  let ?es = "dir_entries vol cs" and ?n = "node_entries vol cs" and ?nlong = "N @ replicate (512 - length N) 0xff"
  note ok = dir_okD(1)[OF assms(1)]
  have nm: "length nshort = 11" "nshort ! 0 \<noteq> 0" "nshort ! 0 \<noteq> 0xe5" "take 8 nshort \<notin> set (map (take 8) device_names)"
    using assms(6) by (auto simp: names_ok_def)
  have lN: "length N \<le> 494" using assms(6) by (auto simp: names_ok_def long_name_def split: if_splits)
  then have k19: "k \<le> 19" "26 * k \<le> length ?nlong" using div_le_mono[of "length N + 24" 518 26] by (auto simp: k_def)
  obtain it where it: "diri_init vol (vn_cluster dir) 0 new_diri = (Some (node_ptr vol cs 0), it)" "iter_at vol (vn_cluster dir) cs it 0"
    using diri_init_node(1)[OF assms(1,2), of new_diri] assms(2) by (auto simp: iter_at_def)
  have L: "listing env vol ?es 0 = Some fs" using assms(5) by (simp add: dir_state_def)
  have "length fs < dir_fuel vol" using listing_length[OF L] node_entries_fuel[OF assms(1)] by simp
  then obtain e where pl: "place_loop (dir_fuel vol) env vol it (k + 1) 0 B_ERROR = (e, ns, lst, vol)" "e = B_OK \<or> e = ENOENT"
    using place_loop_listing[OF assms(1) it(2) L, of "dir_fuel vol" B_ERROR "k + 1"] assms(2,9) by auto
  obtain fs1 fs2 where sp: "fs = fs1 @ fs2" "ns = next_index 0 fs1"
    "if lst then fs2 = [] else fs2 \<noteq> [] \<and> k + 1 \<le> di_sindex (fst (hd fs2)) - ns"
    using place_in_split[OF assms(9)] by blast
  let ?old = "?es ! (ns + k)" let ?b = "short_entry env vol info nshort ?old"
  have lo: "length ?old = 0x20" by (rule dir_entry_length[OF assms(1,10)])
  have fi: "ei_mode info < 256" "ei_mode info \<noteq> 0xf" "ei_size info < 2 ^ 32" "ei_cluster info < 2 ^ 32"
    "ei_cluster info = 0 \<or> IS_DATA_CLUSTER vol (int (ei_cluster info))" using assms(7) by (auto simp: fields_ok_def)
  note S = short_entry_info[OF vol_okD(1)[OF ok] lo nm(1) fi(1,3,5,4), where env = env]
  obtain vol' where bl: "blit_entries env vol dir info nshort ?nlong ns (k + 1) lst = (0, vol')"
    and ch: "dir_changed vol cs (take ns ?es @ new_entries vol env info nshort ?nlong k ?old
        @ (if lst then replicate (?n - (ns + k + 1)) (replicate 0x20 0) else drop (ns + k + 1) ?es)) vol'"
    using blit_entries_changed[OF assms(1,10) k19(2) nm(1), of env info lst] by blast
  note K = dir_changed_keeps[OF ch assms(1)]
  define es' where "es' = dir_entries vol' cs"
  have es': "es' = take ns ?es @ new_entries vol env info nshort ?nlong k ?old
        @ (if lst then replicate (?n - (ns + (k + 1))) (replicate 0x20 0) else drop (ns + (k + 1)) ?es)"
    using ch by (simp add: dir_changed_def es'_def)
  have "fst (place_in (k + 1) 0 fs) = ns" "ns < ?n" using assms(9,10) by simp_all
  then have dr: "drop ns es' = lfn_block k True (hash_msdos_name (take 11 ?b)) ?nlong @ ?b
      # (if lst then replicate (?n - (ns + (k + 1))) (replicate 0x20 0) else drop (ns + (k + 1)) ?es)"
    unfolding es' new_entries_def S(1) using nm(1) by simp
  have b: "?b ! 0 \<noteq> 0" "?b ! 0 \<noteq> 0xe5" "?b ! 0xb \<noteq> 0xf"
  proof -
    show "?b ! 0 \<noteq> 0" "?b ! 0 \<noteq> 0xe5" using S(4) nm(2,3) by simp_all
    show "?b ! 0xb \<noteq> 0xf" unfolding S(2) using fi(1,2) unat_byte[of "ei_mode info"] by auto
  qed
  have pr: "parse_dirent env vol' es' ns 512 = Some (Inr (entry_info vol' ns (ns + k) ?b, name))"
    by (rule parse_written[OF dr b assms(11) meta_eq_to_obj_eq[OF k_def] _ refl]) (use assms(6) S(1,3) nm(1) in \<open>auto simp: names_ok_def split: if_splits\<close>)
  moreover have "entry_info vol' ns (ns + k) ?b = new_info env info ns (ns + k)" using S(5) K(6) by (simp add: entry_info_def)
  ultimately have pn: "parse_dirent env vol' es' ns 512 = Some (Inr (new_info env info ns (ns + k), name))" by simp
  have st: "dir_state env vol' cs (fs1 @ (new_info env info ns (ns + k), name) # fs2)"
    by (rule insert_file[OF _ refl sp(2), where m = "k + 1" and new = "new_entries vol env info nshort ?nlong k ?old" and vol = vol and lst = lst])
      (use assms(5,10) sp pn es' K(6) in \<open>auto simp: es'_def new_entries_def new_info_def\<close>)
  have ne: "u32_minus (u32 (ns + (k + 1))) 1 = ns + k" using assms(3,10) k19(1) by (subst u32_minus_id) auto
  have rq: "u32 (length N + 24) div 26 + 1 = k + 1" using lN by (simp add: k_def)
  have sz: "\<not> vn_st_size dir \<le> int (u32 ((ns + k) * 0x20))" using assms(3,4,10) by simp
  have "do_create_dir_entry env vol dir info nshort ?nlong (length N) = (0, ns, ns + k, vol', dir)"
    unfolding do_create_dir_entry_def Let_def rq if_not_P[OF nm(4)] it(1) prod.case option.case pl(1) ne if_not_P[OF sz] bl
    using fi(5) pl(2) by auto
  moreover have "dir_changed vol cs (dir_entries vol' cs) vol'" using ch by (simp add: dir_changed_def)
  ultimately show ?thesis using sp(1) st by blast
qed

text \<open>Taking out the file \<open>f\<close> between \<open>fs\<close> and \<open>gs\<close>.\<close>

lemma remove_file:
  assumes "dir_state env vol cs (fs @ f # gs)" "fat_bits vol' = fat_bits vol" "node_entries vol cs = n" "\<forall>x < n. 0 < length (dir_entries vol cs ! x)"
    and "dir_entries vol' cs = map (\<lambda>j. if di_sindex (fst f) \<le> j \<and> j \<le> di_eindex (fst f) then (dir_entries vol cs ! j)[0 := 0xe5]
      else dir_entries vol cs ! j) [0..<n]"
  shows "dir_state env vol' cs (fs @ gs)"
proof -
  let ?es = "dir_entries vol cs" and ?es' = "dir_entries vol' cs" let ?i = "next_index 0 fs" and ?j = "di_eindex (fst f) + 1"
  have L: "listing env vol ?es 0 = Some (fs @ f # gs)" and T: "dir_tidy ?es 0 (fs @ f # gs)" using assms(1) by (auto simp: dir_state_def)
  have len: "length ?es = n" "length ?es' = n" using assms(3) unfolding assms(5) by auto
  have nx: "listing env vol ?es ?i = Some (f # gs)" "?i \<le> n" using listing_next[OF L] len by simp_all
  have p: "parse_dirent env vol ?es ?i 512 = Some (Inr f)" and l: "listing env vol ?es ?j = Some gs" using listing_Some[OF nx(1)] by simp_all
  have b: "?i \<le> di_sindex (fst f)" "di_sindex (fst f) \<le> di_eindex (fst f)" "?j \<le> n"
    using parse_dirent_bounds[of env vol ?es ?i 512 "fst f" "snd f"] parse_dirent_sindex[of env vol ?es ?i 512 "fst f" "snd f"] p len by simp_all
  have lo: "x < ?i \<Longrightarrow> ?es' ! x = ?es ! x" for x using b nx(2) unfolding assms(5) by simp
  have hi: "x \<ge> ?j \<Longrightarrow> x < n \<Longrightarrow> ?es' ! x = ?es ! x" for x unfolding assms(5) by simp
  have er: "?es' ! x ! 0 = 0xe5" if "?i \<le> x" "x < ?j" for x
  proof (cases "x < di_sindex (fst f)")
    case True
    then show ?thesis using T that b unfolding assms(5) by (auto simp: dir_tidy_append)
  next
    case False
    then show ?thesis using that b assms(4) unfolding assms(5) by simp
  qed
  have dr: "drop ?j ?es = drop ?j ?es'" by (rule nth_equalityI) (use len hi in auto)
  have "listing env vol' ?es' ?i = listing env vol' ?es' ?j"
    by (rule listing_erased) (use b len er in auto)
  also have "\<dots> = Some gs" using listing_suffix[OF dr assms(2)] l by simp
  finally have "listing env vol' ?es' 0 = Some (fs @ gs)"
    using listing_local[OF L, of ?es' vol' ] lo len nx(2) assms(2) by simp
  moreover have "dir_tidy ?es' 0 fs"
    using dir_tidy_cong[OF L, of ?es'] lo T by (simp add: dir_tidy_append)
  moreover have "dir_tidy ?es' ?i gs"
  proof (cases gs)
    case (Cons g hs)
    have pg: "parse_dirent env vol ?es ?j 512 = Some (Inr g)" and lg: "listing env vol ?es (di_eindex (fst g) + 1) = Some hs"
      using listing_Some[OF l] Cons by simp_all
    have bg: "?j \<le> di_sindex (fst g)" "di_sindex (fst g) \<le> di_eindex (fst g)" "di_eindex (fst g) < n"
      using parse_dirent_bounds[of env vol ?es ?j 512 "fst g" "snd g"] parse_dirent_sindex[of env vol ?es ?j 512 "fst g" "snd g"] pg len by simp_all
    have tg: "\<forall>x \<in> {?j..<di_sindex (fst g)}. ?es ! x ! 0 = 0xe5" "dir_tidy ?es (di_eindex (fst g) + 1) hs"
      using T Cons by (auto simp: dir_tidy_append)
    have "\<forall>x \<in> {?i..<di_sindex (fst g)}. ?es' ! x ! 0 = 0xe5"
    proof
      fix x assume "x \<in> {?i..<di_sindex (fst g)}"
      then show "?es' ! x ! 0 = 0xe5" using er[of x] hi[of x] tg(1) bg by (cases "x < ?j") auto
    qed
    moreover have "dir_tidy ?es' (di_eindex (fst g) + 1) hs"
    proof -
      have "\<forall>x. di_eindex (fst g) + 1 \<le> x \<and> x < next_index (di_eindex (fst g) + 1) hs \<longrightarrow> ?es' ! x = ?es ! x"
      proof (intro allI impI)
        fix x assume x: "di_eindex (fst g) + 1 \<le> x \<and> x < next_index (di_eindex (fst g) + 1) hs"
        have "next_index (di_eindex (fst g) + 1) hs \<le> n" using listing_next[of env vol ?es "di_eindex (fst g) + 1" hs "[]"] lg bg len by simp
        then show "?es' ! x = ?es ! x" using hi[of x] x bg by simp
      qed
      then show ?thesis using dir_tidy_cong[of env vol ?es "di_eindex (fst g) + 1" hs "[]" ?es'] lg bg len tg(2) by simp
    qed
    ultimately show ?thesis using Cons by simp
  qed simp
  ultimately show ?thesis by (simp add: dir_state_def dir_tidy_append)
qed

lemma erase_run:
  assumes "dir_ok vol (VNODE_PARENT_DIR_CLUSTER node) cs" "dir_state env vol cs (fs @ f # gs)"
    and "vn_sindex node = di_sindex (fst f)" "vn_eindex node = di_eindex (fst f)"
  shows "\<exists>vol'. erase_dir_entry env vol node = (0, vol') \<and> dir_state env vol' cs (fs @ gs) \<and> dir_changed vol cs (dir_entries vol' cs) vol'"
proof -
  let ?es = "dir_entries vol cs" and ?n = "node_entries vol cs" let ?s = "di_sindex (fst f)" and ?e = "di_eindex (fst f)"
  let ?c = "VNODE_PARENT_DIR_CLUSTER node"
  have L: "listing env vol ?es 0 = Some (fs @ f # gs)" and T: "dir_tidy ?es 0 (fs @ f # gs)" using assms(2) by (auto simp: dir_state_def)
  have nx: "listing env vol ?es (next_index 0 fs) = Some (f # gs)" using listing_next[OF L] by simp
  have p: "parse_dirent env vol ?es (next_index 0 fs) 512 = Some (Inr f)" using listing_Some[OF nx] by simp
  have b: "next_index 0 fs \<le> ?s" "?s \<le> ?e" "?e < ?n"
    using parse_dirent_bounds[of env vol ?es "next_index 0 fs" 512 "fst f" "snd f"]
      parse_dirent_sindex[of env vol ?es "next_index 0 fs" 512 "fst f" "snd f"] p by simp_all
  have "parse_dirent env vol ?es (next_index 0 fs) 512 = parse_dirent env vol ?es ?s 512"
    by (rule parse_dirent_erased) (use b T in \<open>auto simp: dir_tidy_append\<close>)
  then have ps: "parse_dirent env vol ?es ?s 512 = Some (Inr (fst f, snd f))" using p by simp
  have sn: "?s < ?n" using b by simp
  obtain it where it: "diri_init vol ?c ?s new_diri = (Some (node_ptr vol cs ?s), it)" "diri_at vol ?c cs it ?s"
    using diri_init_node(1)[OF assms(1) sn] by blast
  have "iter_at vol ?c cs it ?s" using it(2) sn by (simp add: iter_at_def)
  then obtain it1 where nd: "next_dirent env vol it 512 = (Inr (fst f, snd f), vol, it1)"
    using next_dirent_parse[OF assms(1), of it ?s 512 env] ps by auto
  obtain it2 where it2: "diri_init vol ?c ?s it1 = (Some (node_ptr vol cs ?s), it2)" "diri_at vol ?c cs it2 ?s"
    using diri_init_node(1)[OF assms(1) sn] by blast
  have cnt: "?e + 1 - ?s = Suc (?e - ?s)" "?s + (?e - ?s) = ?e" using b by simp_all
  define vol' where "vol' = erase_loop (Suc (?e - ?s)) vol it2 (Some (node_ptr vol cs ?s))"
  have "?s + (?e - ?s) < ?n" using cnt(2) b(3) by simp
  note ch = erase_loop_changed[OF assms(1) it2(2) this, folded vol'_def, unfolded cnt(2)]
  have "erase_dir_entry env vol node = (0, vol')"
    unfolding erase_dir_entry_def assms(3,4) it(1) prod.case option.case nd sum.case it2(1) cnt(1) vol'_def by simp
  moreover have "dir_state env vol' cs (fs @ gs)"
    by (rule remove_file[OF assms(2) dir_changed_keeps(6)[OF ch assms(1)] refl])
      (use ch dir_entry_length[OF assms(1)] in \<open>auto simp: dir_changed_def\<close>)
  ultimately show ?thesis using ch by (auto simp: dir_changed_def)
qed

end
