(* ===== verification/Dir_Files.thy ===== *)
theory Dir_Files
  imports Dir_Laws
begin

text \<open>
  A directory as an abstract list of files: what \<^verbatim>\<open>_create_dir_entry_\<close> and
  \<^verbatim>\<open>erase_dir_entry\<close> promise to the code that calls them, as a locale that is interpreted on the
  model of the two operations.
\<close>

subsection \<open>A directory as an abstract list of files\<close>

text \<open>What a directory promises: it has one list of files, without duplicates; a file can be put in somewhere, and taken
  out again.\<close>

locale file_list =
  fixes has_files :: "'d \<Rightarrow> 'f list \<Rightarrow> bool"
    and inserts :: "'d \<Rightarrow> 'f \<Rightarrow> 'd \<Rightarrow> bool" and removes :: "'d \<Rightarrow> 'f \<Rightarrow> 'd \<Rightarrow> bool"
  assumes unique: "has_files d fs \<Longrightarrow> has_files d gs \<Longrightarrow> fs = gs"
    and no_dups: "has_files d fs \<Longrightarrow> distinct fs"
    and inserts: "has_files d fs \<Longrightarrow> inserts d f d' \<Longrightarrow> \<exists>fs1 fs2. fs = fs1 @ fs2 \<and> has_files d' (fs1 @ f # fs2)"
    and removes: "has_files d (fs @ f # gs) \<Longrightarrow> removes d f d' \<Longrightarrow> has_files d' (fs @ gs)"
begin

lemma inserts_set:
  assumes "has_files d fs" "inserts d f d'" "has_files d' gs"
  shows "f \<notin> set fs \<and> set gs = insert f (set fs)"
proof -
  obtain fs1 fs2 where "fs = fs1 @ fs2" "has_files d' (fs1 @ f # fs2)" using inserts[OF assms(1,2)] by blast
  then show ?thesis using unique[OF assms(3)] no_dups by fastforce
qed

lemma removes_set:
  assumes "has_files d fs" "f \<in> set fs" "removes d f d'" "has_files d' gs"
  shows "set gs = set fs - {f}"
proof -
  obtain fs1 fs2 where f: "fs = fs1 @ f # fs2" using split_list[OF assms(2)] by blast
  then have "has_files d' (fs1 @ fs2)" using removes assms(1,3) by blast
  then show ?thesis using unique[OF assms(4)] no_dups[OF assms(1)] f by auto
qed

lemma insert_remove:
  assumes "has_files d fs" "inserts d f d1" "removes d1 f d2"
  shows "has_files d2 fs"
  using inserts[OF assms(1,2)] removes[OF _ assms(3)] by blast

end

lemma listing_sorted: "listing env vol es i = Some fs \<Longrightarrow> sorted_wrt (<) (map (\<lambda>f. di_eindex (fst f)) fs) \<and> (\<forall>f \<in> set fs. i \<le> di_eindex (fst f))"
proof (induction fs arbitrary: i)
  case (Cons f fs)
  have p: "parse_dirent env vol es i 512 = Some (Inr f)" and l: "listing env vol es (di_eindex (fst f) + 1) = Some fs"
    using listing_Some[OF Cons.prems] by simp_all
  have "i \<le> di_eindex (fst f)" using parse_dirent_bounds[of env vol es i 512 "fst f" "snd f"] p by simp
  then show ?case using Cons.IH[OF l] by fastforce
qed simp

lemma dir_state_distinct:
  assumes "dir_state env vol cs fs"
  shows "distinct fs"
proof -
  have "sorted_wrt (<) (map (\<lambda>f. di_eindex (fst f)) fs)" using listing_sorted assms by (auto simp: dir_state_def)
  then have "distinct (map (\<lambda>f. di_eindex (fst f)) fs)" by (rule strict_sorted_iff[THEN iffD1, THEN conjunct2])
  then show ?thesis by (simp add: distinct_map)
qed

text \<open>The directory with the first cluster \<open>c\<close> and the clusters \<open>cs\<close>, and the two operations on it.\<close>

definition dir_has_files :: "env \<Rightarrow> nat \<Rightarrow> nat list \<Rightarrow> nspace \<Rightarrow> (dirent_info \<times> name) list \<Rightarrow> bool" where
  "dir_has_files env c cs vol fs \<longleftrightarrow> dir_ok vol c cs \<and> 0 < node_entries vol cs \<and> node_entries vol cs < 2 ^ 26 \<and> dir_state env vol cs fs"

definition dir_inserts :: "env \<Rightarrow> nat \<Rightarrow> nat list \<Rightarrow> nspace \<Rightarrow> dirent_info \<times> name \<Rightarrow> nspace \<Rightarrow> bool" where
  "dir_inserts env c cs vol f vol' \<longleftrightarrow> (\<exists>dir dir' info nshort N ns ne.
     vn_cluster dir = c \<and> vn_st_size dir = int (node_entries vol cs * 0x20) \<and> names_ok env (snd f) nshort N \<and> fields_ok vol info
     \<and> do_create_dir_entry env vol dir info nshort (N @ replicate (512 - length N) 0xff) (length N) = (0, ns, ne, vol', dir')
     \<and> ns \<noteq> 0xffff \<and> ne < node_entries vol cs \<and> fst f = new_info env info ns ne)"

definition dir_removes :: "env \<Rightarrow> nat \<Rightarrow> nspace \<Rightarrow> dirent_info \<times> name \<Rightarrow> nspace \<Rightarrow> bool" where
  "dir_removes env c vol f vol' \<longleftrightarrow> (\<exists>node. VNODE_PARENT_DIR_CLUSTER node = c \<and> vn_sindex node = di_sindex (fst f)
     \<and> vn_eindex node = di_eindex (fst f) \<and> erase_dir_entry env vol node = (0, vol'))"

lemma place_in_le: "place_in r i fs = (ns, lst) \<Longrightarrow> listing env vol es i = Some fs \<Longrightarrow> i \<le> length es \<Longrightarrow> ns \<le> length es"
  using place_in_split[of r i fs ns lst] listing_next by blast

lemma create_place:
  assumes "dir_ok vol (vn_cluster dir) cs" "0 < node_entries vol cs" "node_entries vol cs < 2 ^ 26" "dir_state env vol cs fs"
    and "length N \<le> 494" "place_in ((length N + 24) div 26 + 1) 0 fs = (ns, lst)"
    and "do_create_dir_entry env vol dir info nshort (N @ replicate (512 - length N) 0xff) (length N) = (e, ns', ne', vol', dir')"
  shows "e = 0 \<Longrightarrow> ns' = ns \<and> ne' = ns + (length N + 24) div 26"
    "take 8 nshort \<notin> set (map (take 8) device_names) \<Longrightarrow> fields_ok vol info \<Longrightarrow> vn_st_size dir = int (node_entries vol cs * 0x20)
      \<Longrightarrow> IS_FIXED_ROOT (vn_cluster dir) \<Longrightarrow> node_entries vol cs \<le> ns + (length N + 24) div 26
      \<Longrightarrow> (e, ns', ne', vol', dir') = (ENOSPC, ns, ns + (length N + 24) div 26, vol, dir)"
proof -
  let ?es = "dir_entries vol cs" and ?k = "(length N + 24) div 26"
  obtain it where it: "diri_init vol (vn_cluster dir) 0 new_diri = (Some (node_ptr vol cs 0), it)" "iter_at vol (vn_cluster dir) cs it 0"
    using diri_init_node(1)[OF assms(1,2), of new_diri] assms(2) by (auto simp: iter_at_def)
  have L: "listing env vol ?es 0 = Some fs" using assms(4) by (simp add: dir_state_def)
  have "length fs < dir_fuel vol" using listing_length[OF L] node_entries_fuel[OF assms(1)] by simp
  then obtain e0 where pl: "place_loop (dir_fuel vol) env vol it (?k + 1) 0 B_ERROR = (e0, ns, lst, vol)" "e0 = B_OK \<or> e0 = ENOENT"
    using place_loop_listing[OF assms(1) it(2) L, of "dir_fuel vol" B_ERROR "?k + 1"] assms(2,6) by auto
  have ns: "ns \<le> node_entries vol cs" using place_in_le[OF assms(6) L] by simp
  have k: "?k \<le> 19" using assms(5) div_le_mono[of "length N + 24" 518 26] by simp
  have ne: "u32_minus (u32 (ns + (?k + 1))) 1 = ns + ?k" using assms(3) ns k by (subst u32_minus_id) auto
  have rq: "u32 (length N + 24) div 26 + 1 = ?k + 1" using assms(5) by simp
  note R = assms(7)[unfolded do_create_dir_entry_def Let_def rq it(1) prod.case option.case pl(1) ne]
  have nz: "EPERM \<noteq> 0" "EINVAL \<noteq> 0" by (simp_all add: errno_defs)
  have e0: "\<not> (e0 \<noteq> B_OK \<and> e0 \<noteq> ENOENT)" using pl(2) by blast
  show "ns' = ns \<and> ne' = ns + ?k" if "e = 0"
    using R that nz unfolding if_not_P[OF e0]
    by (simp add: Let_def split: if_split_asm prod.split_asm)
  show "(e, ns', ne', vol', dir') = (ENOSPC, ns, ns + ?k, vol, dir)"
    if h: "take 8 nshort \<notin> set (map (take 8) device_names)" "fields_ok vol info" "vn_st_size dir = int (node_entries vol cs * 0x20)"
      "IS_FIXED_ROOT (vn_cluster dir)" "node_entries vol cs \<le> ns + ?k"
  proof -
    have "u32 ((ns + ?k) * 0x20) = (ns + ?k) * 0x20" using ns k assms(3) by simp
    then have "vn_st_size dir \<le> int (u32 ((ns + ?k) * 0x20))" using h(3,5) by simp
    moreover have "\<not> (ei_cluster info \<noteq> 0 \<and> \<not> IS_DATA_CLUSTER vol (int (ei_cluster info)))" using h(2) by (auto simp: fields_ok_def)
    ultimately show ?thesis using R h(1,4) unfolding if_not_P[OF e0] by (simp only: if_True if_False refl)
  qed
qed

lemma names_ok_length: "names_ok env name nshort N \<Longrightarrow> length N \<le> 494"
  by (auto simp: names_ok_def long_name_def split: if_splits)

lemma dir_inserts_run:
  assumes "dir_has_files env c cs vol fs" "dir_inserts env c cs vol f vol'"
  shows "\<exists>fs1 fs2. fs = fs1 @ fs2 \<and> dir_has_files env c cs vol' (fs1 @ f # fs2)"
proof -
  note F = assms(1)[unfolded dir_has_files_def]
  obtain dir dir' info nshort N ns ne where D: "vn_cluster dir = c" "vn_st_size dir = int (node_entries vol cs * 0x20)"
    "names_ok env (snd f) nshort N" "fields_ok vol info"
    "do_create_dir_entry env vol dir info nshort (N @ replicate (512 - length N) 0xff) (length N) = (0, ns, ne, vol', dir')"
    "ns \<noteq> 0xffff" "ne < node_entries vol cs" "fst f = new_info env info ns ne"
    using assms(2) unfolding dir_inserts_def by blast
  have ok: "dir_ok vol (vn_cluster dir) cs" using F D(1) by simp
  obtain ns0 lst where pl: "place_in ((length N + 24) div 26 + 1) 0 fs = (ns0, lst)" by fastforce
  have n: "ns = ns0" "ne = ns0 + (length N + 24) div 26"
    using create_place(1)[OF ok _ _ _ names_ok_length[OF D(3)] pl D(5) refl] F by auto
  have "ns0 + (length N + 24) div 26 < node_entries vol cs" "ns0 \<noteq> 0xffff" using D(6,7) n by simp_all
  note C = create_run[OF ok _ _ D(2) _ D(3,4) pl this]
  have F': "0 < node_entries vol cs" "node_entries vol cs < 2 ^ 26" "dir_state env vol cs fs" using F by blast+
  obtain fs1 fs2 where r: "fs = fs1 @ fs2" "dir_state env vol' cs (fs1 @ (new_info env info ns ne, snd f) # fs2)"
    "dir_changed vol cs (dir_entries vol' cs) vol'"
    using C[OF F'] unfolding D(5) n by blast
  note K = dir_changed_keeps[OF r(3) ok]
  have "(new_info env info ns ne, snd f) = f" by (simp flip: D(8))
  then have "dir_has_files env c cs vol' (fs1 @ f # fs2)" using r(2) K(1,4) F' D(1) by (simp add: dir_has_files_def)
  then show ?thesis using r(1) by blast
qed

lemma dir_removes_run:
  assumes "dir_has_files env c cs vol (fs @ f # gs)" "dir_removes env c vol f vol'"
  shows "dir_has_files env c cs vol' (fs @ gs)"
proof -
  note F = assms(1)[unfolded dir_has_files_def]
  obtain node where D: "VNODE_PARENT_DIR_CLUSTER node = c" "vn_sindex node = di_sindex (fst f)" "vn_eindex node = di_eindex (fst f)"
    "erase_dir_entry env vol node = (0, vol')" using assms(2) unfolding dir_removes_def by blast
  have ok: "dir_ok vol (VNODE_PARENT_DIR_CLUSTER node) cs" using F D(1) by simp
  from erase_run[OF ok _ D(2,3), of env fs gs] F D(4)
  have r: "dir_state env vol' cs (fs @ gs)" "dir_changed vol cs (dir_entries vol' cs) vol'" by auto
  note K = dir_changed_keeps[OF r(2) ok]
  show ?thesis using r(1) K(1,4) F D(1) by (simp add: dir_has_files_def)
qed

interpretation fl: file_list "dir_has_files env c cs" "dir_inserts env c cs" "dir_removes env c" for env c cs
proof
  show "fs = gs" if "dir_has_files env c cs d fs" "dir_has_files env c cs d gs" for d fs gs
    using that by (simp add: dir_has_files_def dir_state_def)
  show "distinct fs" if "dir_has_files env c cs d fs" for d fs using that dir_state_distinct by (auto simp: dir_has_files_def)
qed (rule dir_inserts_run dir_removes_run; assumption)+

subsection \<open>Properties\<close>

text \<open>C3: \<^verbatim>\<open>_create_dir_entry_\<close> inserts a file into the list of files of a directory that has room. The new file has the given
  name, long or short, attributes, first cluster, size and time; it is found at the entries the code reports; every other file is as before, and in
  the same order. The place is the first gap between two files that is large enough, or the end.\<close>

theorem create_dir_entry_inserts:
  assumes "dir_has_files env (vn_cluster dir) cs vol fs" "vn_st_size dir = int (node_entries vol cs * 0x20)"
    and "names_ok env name nshort N" "fields_ok vol info"
    and "place_in ((length N + 24) div 26 + 1) 0 fs = (ns, at_end)" "ns + (length N + 24) div 26 < node_entries vol cs" "ns \<noteq> 0xffff"
  shows "\<exists>vol' fs1 fs2. do_create_dir_entry env vol dir info nshort (N @ replicate (512 - length N) 0xff) (length N)
        = (0, ns, ns + (length N + 24) div 26, vol', dir)
    \<and> fs = fs1 @ fs2 \<and> dir_has_files env (vn_cluster dir) cs vol' (fs1 @ (new_info env info ns (ns + (length N + 24) div 26), name) # fs2)
    \<and> fault vol' = fault vol"
proof -
  have F: "dir_ok vol (vn_cluster dir) cs" "0 < node_entries vol cs" "node_entries vol cs < 2 ^ 26" "dir_state env vol cs fs"
    using assms(1) by (simp_all add: dir_has_files_def)
  obtain vol' fs1 fs2 where r: "do_create_dir_entry env vol dir info nshort (N @ replicate (512 - length N) 0xff) (length N)
        = (0, ns, ns + (length N + 24) div 26, vol', dir)" "fs = fs1 @ fs2"
    "dir_state env vol' cs (fs1 @ (new_info env info ns (ns + (length N + 24) div 26), name) # fs2)"
    "dir_changed vol cs (dir_entries vol' cs) vol'"
    using create_run[OF F(1,2,3) assms(2) F(4) assms(3-7)] by blast
  note K = dir_changed_keeps[OF r(4) F(1)]
  have "dir_has_files env (vn_cluster dir) cs vol' (fs1 @ (new_info env info ns (ns + (length N + 24) div 26), name) # fs2)"
    using r(3) K(1,4) F(2,3) by (simp add: dir_has_files_def)
  then show ?thesis using r(1,2) K(9) by blast
qed

text \<open>C12: \<^verbatim>\<open>erase_dir_entry\<close> takes the file whose entries the vnode names out of the list of files of its directory, and
  leaves every other file as it is.\<close>

theorem erase_dir_entry_removes:
  assumes "dir_has_files env (VNODE_PARENT_DIR_CLUSTER node) cs vol (fs @ f # gs)"
    and "vn_sindex node = di_sindex (fst f)" "vn_eindex node = di_eindex (fst f)"
  shows "\<exists>vol'. erase_dir_entry env vol node = (0, vol') \<and> dir_has_files env (VNODE_PARENT_DIR_CLUSTER node) cs vol' (fs @ gs)
    \<and> f \<notin> set (fs @ gs)"
proof -
  have F: "dir_ok vol (VNODE_PARENT_DIR_CLUSTER node) cs" "dir_state env vol cs (fs @ f # gs)" using assms(1) by (simp_all add: dir_has_files_def)
  obtain vol' where r: "erase_dir_entry env vol node = (0, vol')" using erase_run[OF F assms(2,3)] by blast
  then have "dir_removes env (VNODE_PARENT_DIR_CLUSTER node) vol f vol'" using assms(2,3) by (auto simp: dir_removes_def)
  from fl.removes[OF assms(1) this] show ?thesis using r fl.no_dups[OF assms(1)] by auto
qed

text \<open>Erasing what was just created. After a successful \<^verbatim>\<open>_create_dir_entry_\<close> that did not extend the directory,
  \<^verbatim>\<open>erase_dir_entry\<close> of a vnode at the reported entries succeeds and gives the list of files that was there before.\<close>

theorem create_erase_restores:
  assumes "dir_has_files env (vn_cluster dir) cs vol fs" "vn_st_size dir = int (node_entries vol cs * 0x20)"
    and "names_ok env name nshort N" "fields_ok vol info"
    and "do_create_dir_entry env vol dir info nshort (N @ replicate (512 - length N) 0xff) (length N) = (0, ns, ne, vol1, dir1)"
    and "ns \<noteq> 0xffff" "ne < node_entries vol cs"
    and "VNODE_PARENT_DIR_CLUSTER node = vn_cluster dir" "vn_sindex node = ns" "vn_eindex node = ne"
  shows "\<exists>vol2. erase_dir_entry env vol1 node = (0, vol2) \<and> dir_has_files env (vn_cluster dir) cs vol2 fs"
proof -
  define f where "f = (new_info env info ns ne, name)"
  have I: "dir_inserts env (vn_cluster dir) cs vol f vol1"
    unfolding dir_inserts_def f_def using assms(2-7)
    by (intro exI[of _ dir] exI[of _ dir1] exI[of _ info] exI[of _ nshort] exI[of _ N] exI[of _ ns] exI[of _ ne]) simp
  obtain fs1 fs2 where "dir_has_files env (vn_cluster dir) cs vol1 (fs1 @ f # fs2)" using fl.inserts[OF assms(1) I] by blast
  then have F: "dir_ok vol1 (VNODE_PARENT_DIR_CLUSTER node) cs" "dir_state env vol1 cs (fs1 @ f # fs2)"
    using assms(8) by (simp_all add: dir_has_files_def)
  have i: "vn_sindex node = di_sindex (fst f)" "vn_eindex node = di_eindex (fst f)" using assms(9,10) by (simp_all add: f_def new_info_def)
  obtain vol2 where r: "erase_dir_entry env vol1 node = (0, vol2)" using erase_run[OF F i] by blast
  then have "dir_removes env (vn_cluster dir) vol1 f vol2" using i assms(8) by (auto simp: dir_removes_def)
  from fl.insert_remove[OF assms(1) I this] show ?thesis using r by blast
qed

text \<open>The root directory of a 12 or 16 bit volume cannot grow: when the first gap that is large enough is none and the entries do not fit behind the
  last file, \<^verbatim>\<open>_create_dir_entry_\<close> reports \<^verbatim>\<open>ENOSPC\<close> and writes nothing.\<close>

theorem create_root_full:
  assumes "dir_has_files env (vn_cluster dir) cs vol fs" "vn_st_size dir = int (node_entries vol cs * 0x20)" "IS_FIXED_ROOT (vn_cluster dir)"
    and "names_ok env name nshort N" "fields_ok vol info"
    and "place_in ((length N + 24) div 26 + 1) 0 fs = (ns, at_end)" "node_entries vol cs \<le> ns + (length N + 24) div 26"
  shows "do_create_dir_entry env vol dir info nshort (N @ replicate (512 - length N) 0xff) (length N)
      = (ENOSPC, ns, ns + (length N + 24) div 26, vol, dir)"
proof -
  have F: "dir_ok vol (vn_cluster dir) cs" "0 < node_entries vol cs" "node_entries vol cs < 2 ^ 26" "dir_state env vol cs fs"
    using assms(1) by (simp_all add: dir_has_files_def)
  have d: "take 8 nshort \<notin> set (map (take 8) device_names)" using assms(4) by (simp add: names_ok_def)
  obtain e ns' ne' vol' dir' where r: "do_create_dir_entry env vol dir info nshort (N @ replicate (512 - length N) 0xff) (length N) = (e, ns', ne', vol', dir')"
    by (rule prod_cases5)
  show ?thesis unfolding r by (rule create_place(2)[OF F names_ok_length[OF assms(4)] assms(6) r d assms(5,2,3,7)])
qed

subsection \<open>Witnesses\<close>

definition tiny_root :: vnode where
  "tiny_root = (root_vnode tiny_dir)\<lparr>vn_st_size := 128\<rparr>"

definition tiny_fields :: entry_fields where
  "tiny_fields = \<lparr>ei_mode = FAT_ARCHIVE, ei_cluster = 0, ei_size = 0, ei_time = 1000000000\<rparr>"

definition tiny_long :: "block" where
  "tiny_long = [0x62, 0, 0x63, 0]"

lemma tiny_dir_has_files:
  "dir_has_files tiny_env 1 [] tiny_dir [(entry_info tiny_dir 0 0 (tiny_entry 0x41), tiny_name 0x41), (entry_info tiny_dir 1 1 (tiny_entry 0x61), tiny_name 0x61)]"
  unfolding dir_has_files_def dir_state_def tiny_dir_listing using tiny_dir_ok by (simp add: entry_info_def)

lemma tiny_root_cluster: "vn_cluster tiny_root = 1" "vn_st_size tiny_root = 128"
  by (simp_all add: tiny_root_def tiny_dir_def)

lemma tiny_names_ok: "names_ok tiny_env [0x62, 0, 0x63] (tiny_name 0x42) tiny_long"
  by (simp add: names_ok_def long_name_def tiny_long_def tiny_env_def tiny_name_def device_names_def short_name_of_def B_OK_def)

lemma tiny_fields_ok: "fields_ok tiny_dir tiny_fields"
  by (simp add: fields_ok_def tiny_fields_def FAT_ARCHIVE_def)

lemma tiny_place:
  "place_in ((length tiny_long + 24) div 26 + 1) 0
     [(entry_info tiny_dir 0 0 (tiny_entry 0x41), tiny_name 0x41), (entry_info tiny_dir 1 1 (tiny_entry 0x61), tiny_name 0x61)] = (2, True)"
  by (simp add: tiny_long_def entry_info_def)


theorem create_dir_entry_inserts_witness:
  "\<exists>vol' fs. do_create_dir_entry tiny_env tiny_dir tiny_root tiny_fields (tiny_name 0x42) (tiny_long @ replicate 508 0xff) 4 = (0, 2, 3, vol', tiny_root)
     \<and> dir_has_files tiny_env 1 [] vol' fs \<and> length fs = 3"
proof -
  have l: "length tiny_long = 4" by (simp add: tiny_long_def)
  have "(2::nat) + (length tiny_long + 24) div 26 < node_entries tiny_dir []" unfolding l tiny_dir_ok(2) by simp
  from create_dir_entry_inserts[where dir = tiny_root, unfolded tiny_root_cluster, OF tiny_dir_has_files _ tiny_names_ok tiny_fields_ok tiny_place this]
  obtain vol' fs1 fs2 where r: "do_create_dir_entry tiny_env tiny_dir tiny_root tiny_fields (tiny_name 0x42) (tiny_long @ replicate (512 - 4) 0xff) 4
      = (0, 2, 2 + (4 + 24) div 26, vol', tiny_root)"
    "[(entry_info tiny_dir 0 0 (tiny_entry 0x41), tiny_name 0x41), (entry_info tiny_dir 1 1 (tiny_entry 0x61), tiny_name 0x61)] = fs1 @ fs2"
    "dir_has_files tiny_env 1 [] vol' (fs1 @ (new_info tiny_env tiny_fields 2 (2 + (4 + 24) div 26), [0x62, 0, 0x63]) # fs2)"
    unfolding l tiny_dir_ok(2) by auto
  have "length (fs1 @ (new_info tiny_env tiny_fields 2 (2 + (4 + 24) div 26), [0x62, 0, 0x63]) # fs2) = 3"
    using arg_cong[OF r(2), of length] by simp
  then show ?thesis using r(1,3) by auto
qed

definition tiny_child :: "nat \<Rightarrow> nat \<Rightarrow> vnode" where
  "tiny_child s e = tiny_vnode\<lparr>vn_dir_vnid := 1, vn_sindex := s, vn_eindex := e\<rparr>"

lemma tiny_child_parent: "VNODE_PARENT_DIR_CLUSTER (tiny_child s e) = 1"
  by (simp add: VNODE_PARENT_DIR_CLUSTER_def tiny_child_def CLUSTER_OF_DIR_CLUSTER_VNID_def)

theorem erase_dir_entry_removes_witness:
  "\<exists>vol' f. erase_dir_entry tiny_env tiny_dir (tiny_child 0 0) = (0, vol') \<and> dir_has_files tiny_env 1 [] vol' [f]"
  using erase_dir_entry_removes[where node = "tiny_child 0 0" and fs = "[]", unfolded tiny_child_parent append_Nil, OF tiny_dir_has_files]
  by (fastforce simp: tiny_child_def entry_info_def)

theorem create_erase_restores_witness:
  "\<exists>vol1 vol2. do_create_dir_entry tiny_env tiny_dir tiny_root tiny_fields (tiny_name 0x42) (replicate 512 0xff) 0 = (0, 2, 2, vol1, tiny_root)
     \<and> erase_dir_entry tiny_env vol1 (tiny_child 2 2) = (0, vol2)
     \<and> dir_has_files tiny_env 1 [] vol2 [(entry_info tiny_dir 0 0 (tiny_entry 0x41), tiny_name 0x41), (entry_info tiny_dir 1 1 (tiny_entry 0x61), tiny_name 0x61)]"
proof -
  let ?fs = "[(entry_info tiny_dir 0 0 (tiny_entry 0x41), tiny_name 0x41), (entry_info tiny_dir 1 1 (tiny_entry 0x61), tiny_name 0x61)]"
  have n: "names_ok tiny_env (tiny_name 0x42) (tiny_name 0x42) []"
    using tiny_names_ok by (simp add: names_ok_def tiny_long_def) (simp add: tiny_env_def tiny_name_def)
  have pl: "place_in ((length ([]::block) + 24) div 26 + 1) 0 ?fs = (2, True)" by (simp add: entry_info_def)
  have F: "dir_ok tiny_dir (vn_cluster tiny_root) []" "0 < node_entries tiny_dir []" "node_entries tiny_dir [] < 2 ^ 26"
    "vn_st_size tiny_root = int (node_entries tiny_dir [] * 0x20)" "dir_state tiny_env tiny_dir [] ?fs"
    using tiny_dir_ok(1,2) tiny_root_cluster tiny_dir_has_files by (simp_all add: dir_has_files_def)
  obtain vol1 where c: "do_create_dir_entry tiny_env tiny_dir tiny_root tiny_fields (tiny_name 0x42) (replicate 512 0xff) 0 = (0, 2, 2, vol1, tiny_root)"
    using create_run[OF F n tiny_fields_ok pl, unfolded tiny_dir_ok(2)] by auto
  have "\<exists>vol2. erase_dir_entry tiny_env vol1 (tiny_child 2 2) = (0, vol2) \<and> dir_has_files tiny_env (vn_cluster tiny_root) [] vol2 ?fs"
    by (rule create_erase_restores[OF _ F(4) n tiny_fields_ok, where ns = 2 and ne = 2])
      (use c tiny_dir_has_files tiny_child_parent[of 2 2] in \<open>simp_all add: tiny_root_cluster tiny_dir_ok(2) tiny_child_def\<close>)
  then show ?thesis using c unfolding tiny_root_cluster by blast
qed

theorem create_root_full_witness:
  "\<exists>name N. names_ok tiny_env name (tiny_name 0x42) N
     \<and> do_create_dir_entry tiny_env tiny_dir tiny_root tiny_fields (tiny_name 0x42) (N @ replicate (512 - length N) 0xff) (length N) = (ENOSPC, 2, 4, tiny_dir, tiny_root)"
proof -
  define N :: block where "N = replicate 30 0x62"
  have p: "pairs (replicate (2 * n) c) = replicate n (c, c)" for n and c :: u8 by (induction n) simp_all
  have "set (pairs N) = {(0x62, 0x62)}" using p[of 15] by (simp add: N_def)
  then have n: "names_ok tiny_env (replicate 16 0x62) (tiny_name 0x42) N" if "(0xff::u8) \<noteq> 0x62"
    using tiny_names_ok that by (simp add: names_ok_def tiny_long_def long_name_def) (simp add: N_def tiny_env_def B_OK_def take_replicate)
  show ?thesis
    by (rule exI[of _ "replicate 16 0x62"], rule exI[of _ N], rule conjI[OF n],
        simp, subst create_root_full[where dir = tiny_root, unfolded tiny_root_cluster, OF tiny_dir_has_files _ _ n tiny_fields_ok])
      (simp_all add: tiny_dir_ok(2) IS_FIXED_ROOT_def N_def entry_info_def)
qed

end
