(* ===== verification/Encodings.thy ===== *)
theory Encodings
  imports Dir_Create Code_Page
begin

text \<open>
  The conversions of names: \<^verbatim>\<open>fat/encodings.cpp\<close>. A name is UTF-8 in the system, UTF-16 in the long name entries and a string of
  11 characters of a code page in the short name entry.

  An array of bytes is a list; the bytes behind its end read as 0, which is the terminator of a C string. The model
  is that of a little-endian host. The functions that store through pointers return what they store.
  \<open>with_encodings\<close> puts the conversions into the record \<open>env\<close> that the directory operations use.
\<close>

section \<open>Definitions\<close>

definition MS_DOS_CONVERSION :: int where "MS_DOS_CONVERSION = 1"
definition SJIS_CONVERSION :: int where "SJIS_CONVERSION = 2"

definition BEGINS_UTF8CHAR :: "u8 \<Rightarrow> bool" where
  "BEGINS_UTF8CHAR byte \<longleftrightarrow> byte AND 0xc0 \<noteq> 0x80"

definition byte_at :: "block \<Rightarrow> nat \<Rightarrow> u8" where
  "byte_at b i = (if i < length b then b ! i else 0)"

definition unit_at :: "block \<Rightarrow> nat \<Rightarrow> u16" where
  "unit_at b i = ucast (byte_at b i) OR push_bit 8 (ucast (byte_at b (i + 1)))"

subsection \<open>One character\<close>

text \<open>The macros \<^verbatim>\<open>u_lendian_to_utf8\<close> and \<^verbatim>\<open>u_hostendian_to_utf8\<close>: the bytes for the unit \<open>u\<close>, or for
  the surrogates \<open>u\<close> and \<open>v\<close>.\<close>

definition u_to_utf8 :: "u16 \<Rightarrow> u16 \<Rightarrow> block" where
  "u_to_utf8 u v =
     (if u AND 0xff80 = 0 then [ucast u]
      else if u AND 0xf800 = 0 then [0xc0 OR ucast (drop_bit 6 u), 0x80 OR ucast (u AND 0x3f)]
      else if u AND 0xfc00 \<noteq> 0xd800 then
        [0xe0 OR ucast (drop_bit 12 u), 0x80 OR ucast (drop_bit 6 u AND 0x3f), 0x80 OR ucast (u AND 0x3f)]
      else
        let val = push_bit 10 (ucast u - 0xd7c0) OR ucast (v AND 0x3ff) :: 32 word
        in [0xf0 OR ucast (drop_bit 18 val), 0x80 OR ucast (drop_bit 12 val AND 0x3f),
            0x80 OR ucast (drop_bit 6 val AND 0x3f), 0x80 OR ucast (val AND 0x3f)])"

text \<open>The macro \<^verbatim>\<open>utf8_to_u_hostendian\<close>: the unit and the number of bytes read, none for \<^verbatim>\<open>err_flag\<close>.\<close>

definition utf8_to_u :: "u8 \<Rightarrow> u8 \<Rightarrow> u8 \<Rightarrow> u8 \<Rightarrow> (u16 \<times> nat) option" where
  "utf8_to_u a b c d =
     (if a AND 0x80 = 0 then Some (ucast a, 1)
      else if b AND 0xC0 \<noteq> 0x80 then Some (0xfffd, 1)
      else if a AND 0x20 = 0 then Some (push_bit 6 (ucast (a AND 31)) OR ucast (b AND 63), 2)
      else if c AND 0xC0 \<noteq> 0x80 then Some (0xfffd, 2)
      else if a AND 0x10 = 0 then
        Some (push_bit 12 (ucast (a AND 15)) OR push_bit 6 (ucast (b AND 63)) OR ucast (c AND 63), 3)
      else if d AND 0xC0 \<noteq> 0x80 then Some (0xfffd, 3)
      else None)"

definition utf8_to_u_at :: "block \<Rightarrow> nat \<Rightarrow> (u16 \<times> nat) option" where
  "utf8_to_u_at src i = utf8_to_u (byte_at src i) (byte_at src (i + 1)) (byte_at src (i + 2)) (byte_at src (i + 3))"

definition utf8_char_len :: "u8 \<Rightarrow> nat" where
  "utf8_char_len c = unat (signed_drop_bit (unat (drop_bit 3 c AND 0x1E)) (0xE5000000 :: 32 word) AND 3) + 1"

lemma utf8_to_u_count: "utf8_to_u a b c d = Some (u, n) \<Longrightarrow> 0 < n"
  by (auto simp: utf8_to_u_def split: if_splits)

subsection \<open>Strings\<close>

text \<open>The loops have the counts of bytes read and the bytes stored so far.\<close>

function lendian_loop :: "block \<Rightarrow> nat \<Rightarrow> nat \<Rightarrow> nat \<Rightarrow> block \<Rightarrow> nat \<times> block" where
  "lendian_loop src srcLimit dstLimit srcCount dst =
     (if srcCount < srcLimit then
        let utf8 = u_to_utf8 (unit_at src srcCount) (unit_at src (srcCount + 2))
        in if length dst + length utf8 > dstLimit then (srcCount, dst)
           else lendian_loop src srcLimit dstLimit (srcCount + 2) (dst @ utf8)
      else (srcCount, dst))"
  by pat_completeness auto
termination
  by (relation "measure (\<lambda>(src, srcLimit, dstLimit, srcCount, dst). srcLimit - srcCount)") auto

declare lendian_loop.simps [simp del]

definition lendian_unicode_to_utf8 :: "block \<Rightarrow> nat \<Rightarrow> nat \<Rightarrow> status_t \<times> nat \<times> block" where
  "lendian_unicode_to_utf8 src srcLen dstLen =
     (case lendian_loop src srcLen dstLen 0 [] of (srcCount, dst) \<Rightarrow>
        (if length dst > 0 then B_OK else B_ERROR, srcCount, dst))"

function utf8_lendian_loop :: "block \<Rightarrow> nat \<Rightarrow> nat \<Rightarrow> nat \<Rightarrow> block \<Rightarrow> (nat \<times> block) option" where
  "utf8_lendian_loop src srcLimit dstLimit srcCount dst =
     (if srcCount < srcLimit \<and> length dst < dstLimit then
        if srcCount + utf8_char_len (byte_at src srcCount) > srcLimit then Some (srcCount, dst)
        else case utf8_to_u_at src srcCount of
               None \<Rightarrow> None
             | Some (unicode, n) \<Rightarrow>
                 utf8_lendian_loop src srcLimit dstLimit (srcCount + n) (dst @ [ucast (unicode AND 0xFF), ucast (drop_bit 8 unicode)])
      else Some (srcCount, dst))"
  by pat_completeness auto
termination
  by (relation "measure (\<lambda>(src, srcLimit, dstLimit, srcCount, dst). srcLimit - srcCount)")
    (auto simp: utf8_to_u_at_def dest: utf8_to_u_count)

declare utf8_lendian_loop.simps [simp del]

definition utf8_to_lendian_unicode :: "block \<Rightarrow> nat \<Rightarrow> nat \<Rightarrow> status_t \<times> nat \<times> block" where
  "utf8_to_lendian_unicode src srcLen dstLen =
     (case utf8_lendian_loop src srcLen (dstLen - 1) 0 [] of
        None \<Rightarrow> (EINVAL, srcLen, [])
      | Some (srcCount, dst) \<Rightarrow> (if length dst > 0 then B_OK else B_ERROR, srcCount, dst))"

function one_loop :: "u16 list \<Rightarrow> block \<Rightarrow> nat \<Rightarrow> nat \<Rightarrow> nat \<Rightarrow> block \<Rightarrow> nat \<times> block" where
  "one_loop tab src srcLimit dstLimit srcCount dst =
     (if srcCount < srcLimit then
        let utf8 = u_to_utf8 (tab ! unat (byte_at src srcCount)) 0
        in if length dst + length utf8 > dstLimit then (srcCount, dst)
           else one_loop tab src srcLimit dstLimit (srcCount + 1) (dst @ utf8)
      else (srcCount, dst))"
  by pat_completeness auto
termination
  by (relation "measure (\<lambda>(tab, src, srcLimit, dstLimit, srcCount, dst). srcLimit - srcCount)") auto

declare one_loop.simps [simp del]

definition one_to_utf8 :: "u16 list \<Rightarrow> block \<Rightarrow> nat \<Rightarrow> nat \<Rightarrow> status_t \<times> nat \<times> block" where
  "one_to_utf8 tab src srcLen dstLen =
     (case one_loop tab src srcLen dstLen 0 [] of (srcCount, dst) \<Rightarrow>
        (if length dst > 0 then B_OK else B_ERROR, srcCount, dst))"

text \<open>The index of the first \<open>x\<close> in a list, counted from \<open>i\<close>; behind the list if there is none.\<close>

fun index_of :: "'a list \<Rightarrow> 'a \<Rightarrow> nat \<Rightarrow> nat" where
  "index_of [] x i = i"
| "index_of (y # ys) x i = (if y = x then i else index_of ys x (i + 1))"

text \<open>The search in the shift-JIS tables: the offset of the table and the index in it.\<close>

fun sjis_find :: "(u16 list \<times> u16) list \<Rightarrow> u16 \<Rightarrow> (u16 \<times> nat) option" where
  "sjis_find [] unicode = None"
| "sjis_find ((tab, offset) # tabs) unicode =
     (let t = takeWhile (\<lambda>c. c \<noteq> 0xFFFF) tab; i = index_of t unicode 0
      in if i < length t then Some (offset, i) else sjis_find tabs unicode)"

function sjis_loop :: "block \<Rightarrow> nat \<Rightarrow> nat \<Rightarrow> nat \<Rightarrow> block \<Rightarrow> (nat \<times> block) option" where
  "sjis_loop src srcLimit dstLimit srcCount dst =
     (if srcCount < srcLimit \<and> length dst < dstLimit then
        if srcCount + utf8_char_len (byte_at src srcCount) > srcLimit then Some (srcCount, dst)
        else case utf8_to_u_at src srcCount of
               None \<Rightarrow> None
             | Some (unicode, n) \<Rightarrow>
                 (case sjis_find sjistables unicode of
                    None \<Rightarrow> sjis_loop src srcLimit dstLimit (srcCount + n) (dst @ [0x1a])
                  | Some (offset, i) \<Rightarrow>
                      if offset = 0 then sjis_loop src srcLimit dstLimit (srcCount + n) (dst @ [word_of_nat i])
                      else if length dst + 1 < dstLimit then
                        let sjis = offset + word_of_nat i
                        in sjis_loop src srcLimit dstLimit (srcCount + n) (dst @ [ucast (drop_bit 8 sjis), ucast sjis])
                      else Some (srcCount, dst))
      else Some (srcCount, dst))"
  by pat_completeness auto
termination
  by (relation "measure (\<lambda>(src, srcLimit, dstLimit, srcCount, dst). srcLimit - srcCount)")
    (auto simp: utf8_to_u_at_def dest: utf8_to_u_count)

declare sjis_loop.simps [simp del]

definition utf8_to_sjis_bendian :: "block \<Rightarrow> nat \<Rightarrow> nat \<Rightarrow> status_t \<times> nat \<times> block" where
  "utf8_to_sjis_bendian src srcLen dstLen =
     (case sjis_loop src srcLen dstLen 0 [] of
        None \<Rightarrow> (EINVAL, srcLen, [])
      | Some (srcCount, dst) \<Rightarrow> (if length dst > 0 then B_OK else B_ERROR, srcCount, dst))"

definition is_unicode_japanese :: "u16 \<Rightarrow> bool" where
  "is_unicode_japanese c \<longleftrightarrow> 0x3000 \<le> c \<and> c \<le> 0x30ff \<or> 0x3200 \<le> c \<and> c \<le> 0x3400 \<or> 0x4e00 \<le> c \<and> c \<le> 0x9fff
     \<or> 0xf900 \<le> c \<and> c \<le> 0xfaff \<or> 0xfe30 \<le> c \<and> c \<le> 0xfe6f \<or> 0xff00 \<le> c \<and> c \<le> 0xffef"

definition is_initial_sjis_byte :: "u8 \<Rightarrow> bool" where
  "is_initial_sjis_byte c \<longleftrightarrow> 0x81 \<le> c \<and> c \<le> 0x9F \<or> 0xE0 \<le> c \<and> c \<le> 0xEF"

definition enc_unicode_to_utf8 :: "block \<Rightarrow> nat \<Rightarrow> nat \<Rightarrow> status_t \<times> block" where
  "enc_unicode_to_utf8 wname unilen utf8len =
     (case lendian_unicode_to_utf8 wname unilen utf8len of (result, n, utf8) \<Rightarrow>
        if n < unilen then (B_ERROR, utf8) else (result, utf8))"

text \<open>The name is without the terminator, which the function counts and converts too.\<close>

definition enc_utf8_to_unicode :: "name \<Rightarrow> nat \<Rightarrow> status_t \<times> block" where
  "enc_utf8_to_unicode utf8 unilen =
     (let origlen = length utf8 + 1
      in case utf8_to_lendian_unicode (utf8 @ [0]) origlen unilen of (result, utf8len, wname) \<Rightarrow>
           if origlen < utf8len then (B_ERROR, wname)
           else (if result = B_OK then int (length wname) else result, wname))"

subsection \<open>Short names\<close>

definition underbar :: "u8 list" where
  "underbar = [0x2b, 0x2c, 0x3b, 0x3d, 0x5b, 0x5d, 0x83, 0x85, 0x88, 0x89, 0x8A, 0x8B, 0x8C, 0x8D,
     0x93, 0x95, 0x96, 0x97, 0x98, 0xA0, 0xA1, 0xA2, 0xA3]"

definition capitalize_from :: "u8 list" where
  "capitalize_from = [0x81, 0x82, 0x84, 0x86, 0x87, 0x91, 0x94, 0xA4]"

definition capitalize_to :: "u8 list" where
  "capitalize_to = [0x9A, 0x90, 0x8E, 0x8F, 0x80, 0x92, 0x99, 0xA5]"

text \<open>The loop over \<^verbatim>\<open>unicode\<close> up to its terminator.\<close>

fun japanese_loop :: "block \<Rightarrow> bool" where
  "japanese_loop (a # b # wname) =
     (if a \<noteq> 0 \<or> b \<noteq> 0 then if is_unicode_japanese (push_bit 8 (ucast b) OR ucast a) then True else japanese_loop wname else False)"
| "japanese_loop wname = False"

text \<open>The loop over the characters before the dot, from \<open>i\<close> on: the answer, or where the loop was left.\<close>

function base_loop :: "name \<Rightarrow> nat \<Rightarrow> bool + nat" where
  "base_loop utf8 i =
     (if i < 8 then
        if byte_at utf8 i = 0 then Inl False
        else if byte_at utf8 i = 0x2e then Inr i
        else if byte_at utf8 i \<notin> set acceptable then Inl True
        else base_loop utf8 (i + 1)
      else Inr i)"
  by pat_completeness auto
termination
  by (relation "measure (\<lambda>(utf8, i). 8 - i)") auto

declare base_loop.simps [simp del]

fun ext_loop :: "name \<Rightarrow> nat \<Rightarrow> nat \<Rightarrow> bool" where
  "ext_loop utf8 0 i = (byte_at utf8 i \<noteq> 0)"
| "ext_loop utf8 (Suc j) i =
     (if byte_at utf8 i = 0 then False
      else if byte_at utf8 i \<notin> set acceptable then True
      else ext_loop utf8 j (i + 1))"

definition enc_requires_long_name :: "name \<Rightarrow> block \<Rightarrow> bool" where
  "enc_requires_long_name utf8 unicode =
     (if japanese_loop unicode then True
      else case base_loop utf8 0 of
             Inl answer \<Rightarrow> answer
           | Inr i \<Rightarrow>
               if byte_at utf8 i = 0 then False
               else if i = 8 \<and> byte_at utf8 i \<noteq> 0x2e then True
               else if byte_at utf8 (i + 1) = 0 then True
               else ext_loop utf8 3 (i + 1))"

text \<open>The digits that \<^verbatim>\<open>sprintf\<close> prints.\<close>

fun decimal :: "nat \<Rightarrow> block" where
  "decimal n = (if n < 10 then [word_of_nat (0x30 + n)] else decimal (n div 10) @ [word_of_nat (0x30 + n mod 10)])"

declare decimal.simps [simp del]

fun blank_back :: "block \<Rightarrow> nat \<Rightarrow> nat" where
  "blank_back nshort 0 = 0"
| "blank_back nshort (Suc i) = (if nshort ! Suc i = 0x20 then blank_back nshort i else Suc i)"

definition munge_short_name_english :: "block \<Rightarrow> nat \<Rightarrow> block" where
  "munge_short_name_english nshort value =
     (let buffer = 0x7e # decimal value; i = blank_back nshort (7 - length buffer) + 1
      in memcpy_at nshort i buffer)"

function munge_sjis_last :: "block \<Rightarrow> nat \<Rightarrow> nat \<Rightarrow> nat \<Rightarrow> nat" where
  "munge_sjis_last nshort len i lst =
     (if i + len \<le> 8 then
        if nshort ! i = 0x20 then i
        else munge_sjis_last nshort len (if is_initial_sjis_byte (nshort ! i) then i + 2 else i + 1) i
      else lst)"
  by pat_completeness auto
termination
  by (relation "measure (\<lambda>(nshort, len, i, lst). 9 - i)") auto

declare munge_sjis_last.simps [simp del]

definition munge_short_name_sjis :: "block \<Rightarrow> nat \<Rightarrow> block" where
  "munge_short_name_sjis nshort value =
     (let buffer = 0x7e # decimal value; len = length buffer; lst = munge_sjis_last nshort len 0 0
      in memset_at (memcpy_at nshort lst buffer) (lst + len) 0x20 (8 - (lst + len)))"

text \<open>\<open>time\<close> is the result of \<^verbatim>\<open>system_time()\<close>.\<close>

definition enc_munge_short_name2 :: "nat \<Rightarrow> block \<Rightarrow> int \<Rightarrow> status_t \<times> block" where
  "enc_munge_short_name2 time nshort encoding =
     (let value = time mod 100000; value = (if value = 0 then value + 1 else value)
      in if encoding = MS_DOS_CONVERSION then (B_OK, munge_short_name_english nshort value)
         else if encoding = SJIS_CONVERSION then (B_OK, munge_short_name_sjis nshort value)
         else (EINVAL, nshort))"

definition enc_munge_short_name1 :: "block \<Rightarrow> nat \<Rightarrow> int \<Rightarrow> status_t \<times> block" where
  "enc_munge_short_name1 nshort iteration encoding =
     (if encoding = MS_DOS_CONVERSION then (B_OK, munge_short_name_english nshort iteration)
      else if encoding = SJIS_CONVERSION then (B_OK, munge_short_name_sjis nshort iteration)
      else (EINVAL, nshort))"

text \<open>What the two loops of \<^verbatim>\<open>generate_short_name_msdos\<close> store for the character \<open>c\<close> of the code page: one byte,
  none, or an error. It is not called for 0, which the loops stop at.\<close>

definition short_char :: "nat \<Rightarrow> status_t + u8 option" where
  "short_char c =
     (let b = word_of_nat c
      in if b \<in> set illegal then Inl EINVAL
         else if 0x61 \<le> c \<and> c \<le> 0x7a then Inr (Some (word_of_nat (c - 0x61 + 0x41)))
         else if b \<in> set underbar then Inr (Some 0x5f)
         else if b \<in> set capitalize_from then Inr (Some (capitalize_to ! index_of capitalize_from b 0))
         else if b \<in> set acceptable \<or> b \<in> set capitalize_to then Inr (Some b)
         else Inr None)"

definition msdos_index :: "u16 \<Rightarrow> nat" where
  "msdos_index match = index_of (take 0x100 msdostou) match 0"

text \<open>The first loop: the short name and whether the function returns, with which status.\<close>

fun short_base :: "u16 list \<Rightarrow> nat \<Rightarrow> block \<Rightarrow> status_t option \<times> block" where
  "short_base [] i nshort = (None, nshort)"
| "short_base (match # us) i nshort =
     (if \<not> i < 8 then (None, nshort)
      else if match = 0 then (Some B_OK, nshort)
      else if match = 0x2e then if i = 0 then short_base us i nshort else (None, nshort)
      else
        let c = msdos_index match
        in if c < 0x100 then
             case short_char c of
               Inl error \<Rightarrow> (Some error, nshort)
             | Inr None \<Rightarrow> short_base us i nshort
             | Inr (Some b) \<Rightarrow> short_base us (i + 1) (nshort[i := b])
           else short_base us i nshort)"

fun short_ext :: "u16 list \<Rightarrow> nat \<Rightarrow> block \<Rightarrow> status_t \<times> block" where
  "short_ext [] i nshort = (B_OK, nshort)"
| "short_ext (match # us) i nshort =
     (if \<not> i < 11 then (B_OK, nshort)
      else if match = 0 then (B_OK, nshort)
      else
        let c = msdos_index match
        in if c < 0x100 then
             case short_char c of
               Inl error \<Rightarrow> (error, nshort)
             | Inr None \<Rightarrow> short_ext us i nshort
             | Inr (Some b) \<Rightarrow> short_ext us (i + 1) (nshort[i := b])
           else short_ext us i nshort)"

text \<open>The last \<open>d\<close> before the index \<open>k\<close> and not before \<open>s\<close>.\<close>

fun find_back :: "'a \<Rightarrow> 'a list \<Rightarrow> nat \<Rightarrow> nat \<Rightarrow> nat option" where
  "find_back d xs s 0 = None"
| "find_back d xs s (Suc t) = (if t < s then None else if xs ! t = d then Some t else find_back d xs s t)"

definition generate_short_name_msdos :: "u16 list \<Rightarrow> block \<Rightarrow> status_t \<times> block" where
  "generate_short_name_msdos wname nshort =
     (case short_base wname 0 nshort of
        (Some result, nshort) \<Rightarrow> (result, nshort)
      | (None, nshort) \<Rightarrow>
          (case find_back 0x2e wname 0 (length wname) of
             None \<Rightarrow> (B_OK, nshort)
           | Some puni \<Rightarrow> short_ext (drop (puni + 1) wname) 8 nshort))"

definition sjis_upper :: "u8 \<Rightarrow> u8" where
  "sjis_upper c = (if 0x61 \<le> c \<and> c \<le> 0x7a then c - 0x61 + 0x41 else c)"

text \<open>The loops of \<^verbatim>\<open>generate_short_name_sjis\<close>. The first gives the place where it is left, none for the jump to the
  end of the function.\<close>

function sjis_base :: "block \<Rightarrow> nat \<Rightarrow> nat \<Rightarrow> block \<Rightarrow> nat option \<times> block" where
  "sjis_base sjis s state nshort =
     (if state < 8 then
        if is_initial_sjis_byte (byte_at sjis s) then
          if state < 7 then sjis_base sjis (s + 2) (state + 2) (nshort[state := byte_at sjis s, state + 1 := byte_at sjis (s + 1)])
          else (Some s, nshort)
        else if byte_at sjis s = 0x2e then (Some s, nshort)
        else if byte_at sjis s = 0 then (None, nshort)
        else sjis_base sjis (s + 1) (state + 1) (nshort[state := sjis_upper (byte_at sjis s)])
      else (Some s, nshort))"
  by pat_completeness auto
termination
  by (relation "measure (\<lambda>(sjis, s, state, nshort). 8 - state)") auto

declare sjis_base.simps [simp del]

function sjis_ext :: "block \<Rightarrow> nat \<Rightarrow> nat \<Rightarrow> block \<Rightarrow> block" where
  "sjis_ext sjis s state nshort =
     (if state < 11 then
        if is_initial_sjis_byte (byte_at sjis s) then
          if state < 10 then sjis_ext sjis (s + 2) (state + 2) (nshort[state := byte_at sjis s, state + 1 := byte_at sjis (s + 1)])
          else nshort
        else if byte_at sjis s = 0 then nshort
        else sjis_ext sjis (s + 1) (state + 1) (nshort[state := sjis_upper (byte_at sjis s)])
      else nshort)"
  by pat_completeness auto
termination
  by (relation "measure (\<lambda>(sjis, s, state, nshort). 11 - state)") auto

declare sjis_ext.simps [simp del]

text \<open>\<open>mem\<close> says whether \<^verbatim>\<open>malloc\<close> succeeds.\<close>

definition generate_short_name_sjis :: "bool \<Rightarrow> name \<Rightarrow> nat \<Rightarrow> block \<Rightarrow> status_t \<times> block" where
  "generate_short_name_sjis mem utf8 unilen nshort =
     (if \<not> mem then (ENOMEM, nshort)
      else case utf8_to_sjis_bendian (utf8 @ [0]) (length utf8 + 1) unilen of (result, utf8len, sjis) \<Rightarrow>
        if result < 0 then (result, nshort)
        else if utf8len < length utf8 + 1 then (EINVAL, nshort)
        else
          let s = length (takeWhile (\<lambda>c. c = 0x2e) sjis)
          in (case sjis_base sjis s 0 nshort of
                (None, nshort) \<Rightarrow> (B_OK, nshort)
              | (Some s, nshort) \<Rightarrow>
                  (case find_back 0x2e sjis s (length (takeWhile (\<lambda>c. c \<noteq> 0) sjis)) of
                     None \<Rightarrow> (B_OK, nshort)
                   | Some t \<Rightarrow> (B_OK, sjis_ext sjis (t + 1) 8 nshort))))"

text \<open>The units of the first \<open>n\<close> bytes.\<close>

definition name_units :: "block \<Rightarrow> nat \<Rightarrow> u16 list" where
  "name_units wname n = map (\<lambda>k. unit_at wname (2 * k)) [0..<n div 2]"

definition enc_generate_short_name :: "bool \<Rightarrow> name \<Rightarrow> block \<Rightarrow> nat \<Rightarrow> status_t \<times> block \<times> int" where
  "enc_generate_short_name mem name wname unilen =
     (let nshort = replicate 11 0x20;
          encoding = (if \<exists>u \<in> set (name_units wname (unilen + 1)). is_unicode_japanese u then SJIS_CONVERSION else MS_DOS_CONVERSION);
          (result, nshort) = (if encoding = MS_DOS_CONVERSION then generate_short_name_msdos (name_units wname unilen) nshort
                              else generate_short_name_sjis mem name unilen nshort);
          nshort = (if result = B_OK \<and> nshort = replicate 11 0x20 then nshort[0 := 0x5f] else nshort)
      in (result, nshort, encoding))"

text \<open>The status and the bytes stored, with the terminator.\<close>

definition enc_msdos_to_utf8 :: "block \<Rightarrow> nat \<Rightarrow> bool \<Rightarrow> status_t \<times> block" where
  "enc_msdos_to_utf8 msdos utf8len toLower =
     (let low = (\<lambda>c. if toLower then lower8 c else c);
          base = (case takeWhile (\<lambda>c. c \<noteq> 0x20) (take 8 msdos) of
                    [] \<Rightarrow> []
                  | c # cs \<Rightarrow> (if c = 5 then 0xe5 else low c) # map low cs);
          ext = (if msdos ! 8 \<noteq> 0x20 then 0x2e # map low (takeWhile (\<lambda>c. c \<noteq> 0x20) (take 3 (drop 8 msdos))) else []);
          normalized = base @ ext @ [0]
      in case one_to_utf8 msdostou normalized (length normalized) utf8len of (result, n, utf8) \<Rightarrow> (result, utf8))"

text \<open>The loops of \<^verbatim>\<open>requires_munged_short_name\<close>; none when it returns \<^verbatim>\<open>true\<close>.\<close>

fun munged_base :: "name \<Rightarrow> block \<Rightarrow> nat \<Rightarrow> (name \<times> nat) option" where
  "munged_base [] nshort leading = Some ([], leading)"
| "munged_base (c # utf8name) nshort leading =
     (if \<not> BEGINS_UTF8CHAR c then munged_base utf8name nshort leading
      else if c = 0x2e then Some (c # utf8name, leading)
      else if leading + 1 > 8 then None
      else if nshort ! leading = 0x5f \<and> c \<noteq> 0x5f then None
      else munged_base utf8name nshort (leading + 1))"

fun munged_ext :: "name \<Rightarrow> block \<Rightarrow> nat \<Rightarrow> nat \<Rightarrow> nat option" where
  "munged_ext [] nshort leading trailing = Some trailing"
| "munged_ext (c # utf8name) nshort leading trailing =
     (if \<not> BEGINS_UTF8CHAR c then munged_ext utf8name nshort leading trailing
      else if c = 0x2e then None
      else if trailing + 1 > 3 then None
      else if nshort ! (leading + trailing) = 0x5f \<and> c \<noteq> 0x5f then None
      else munged_ext utf8name nshort leading (trailing + 1))"

definition enc_requires_munged_short_name :: "name \<Rightarrow> block \<Rightarrow> int \<Rightarrow> bool" where
  "enc_requires_munged_short_name utf8name nshort encoding =
     (if encoding \<noteq> MS_DOS_CONVERSION then True
      else case munged_base utf8name nshort 0 of
             None \<Rightarrow> True
           | Some (rest, leading) \<Rightarrow>
               (case (if rest \<noteq> [] then munged_ext (tl rest) nshort leading 0 else Some 0) of
                  None \<Rightarrow> True
                | Some trailing \<Rightarrow>
                    if length (filter (\<lambda>c. c \<noteq> 0x20) (take 8 nshort)) \<noteq> leading then True
                    else if length (filter (\<lambda>c. c \<noteq> 0x20) (take 3 (drop 8 nshort))) \<noteq> trailing then True
                    else False))"

subsection \<open>The conversions for the directory operations\<close>

text \<open>The names that callers get are the C strings that the functions store. \<open>clock k\<close> is the system time when
  \<^verbatim>\<open>munge_short_name2\<close> is called for the \<open>k\<close>-th time.\<close>

definition with_encodings :: "(nat \<Rightarrow> nat) \<Rightarrow> env \<Rightarrow> env" where
  "with_encodings clock env = env\<lparr>
     unicode_to_utf8 := \<lambda>wname unilen utf8len. map_prod (\<lambda>e. e) (takeWhile (\<lambda>c. c \<noteq> 0)) (enc_unicode_to_utf8 wname unilen utf8len),
     msdos_to_utf8 := \<lambda>msdos utf8len toLower. takeWhile (\<lambda>c. c \<noteq> 0) (snd (enc_msdos_to_utf8 msdos utf8len toLower)),
     utf8_to_unicode := enc_utf8_to_unicode,
     generate_short_name := enc_generate_short_name (env_mem env),
     requires_long_name := enc_requires_long_name,
     requires_munged_short_name := enc_requires_munged_short_name,
     munge_short_name1 := \<lambda>nshort iteration encoding. snd (enc_munge_short_name1 nshort (nat iteration) encoding),
     munge_short_name2 := \<lambda>k nshort encoding. snd (enc_munge_short_name2 (clock k) nshort encoding)\<rparr>"

section \<open>Theorems\<close>

end
