(* ===== verification/Encoding_Laws.thy ===== *)
theory Encoding_Laws
  imports Encodings Dir_Files
begin

text \<open>
  What the conversions of \<^verbatim>\<open>encodings.cpp\<close> compute: UTF-8 to UTF-16 and back gives the name, short names are made of legal
  characters, names that need no long name survive in the short entry.
\<close>

subsection \<open>Bits\<close>

lemma less8_cases:
  fixes pos :: nat
  shows "pos < 8 \<Longrightarrow> ((pos = 7 \<or> pos = 6) \<or> (pos = 5 \<or> pos = 4)) \<or> ((pos = 3 \<or> pos = 2) \<or> (pos = 1 \<or> pos = 0))"
  by arith

lemma less16_cases:
  fixes pos :: nat
  shows "pos < 16 \<Longrightarrow> ((pos = 15 \<or> pos = 14) \<or> (pos = 13 \<or> pos = 12) \<or> (pos = 11 \<or> pos = 10) \<or> (pos = 9 \<or> pos = 8))
     \<or> ((pos = 7 \<or> pos = 6) \<or> (pos = 5 \<or> pos = 4) \<or> (pos = 3 \<or> pos = 2) \<or> (pos = 1 \<or> pos = 0))"
  by arith

lemma bits8_eqI: "(\<And>n. n < 8 \<Longrightarrow> bit (v::u8) n = bit w n) \<Longrightarrow> v = w"
  by (rule bit_word_eqI) simp

lemma bits16_eqI: "(\<And>n. n < 16 \<Longrightarrow> bit (v::u16) n = bit w n) \<Longrightarrow> v = w"
  by (rule bit_word_eqI) simp

lemma and_0_bit: "w AND m = (0::'a::len word) \<Longrightarrow> bit m k \<Longrightarrow> \<not> bit w k"
  by (metis bit_and_iff bit_0_eq bot_apply bot_bool_def)

lemma unat_less: "unat (w::'a::len word) < 2 ^ LENGTH('a)"
  by (rule unsigned_less)

lemma unat_push_drop: "unat (push_bit n (drop_bit n (u::'a::len word))) = unat u div 2 ^ n * 2 ^ n"
proof -
  have "unat u div 2 ^ n * 2 ^ n \<le> unat u" by simp
  then have "unat u div 2 ^ n * 2 ^ n < 2 ^ LENGTH('a)" using unat_less[of u] by linarith
  then show ?thesis unfolding unsigned_push_bit_eq unat_drop_bit_eq by (simp add: push_bit_eq_mult drop_bit_eq_div take_bit_nat_eq_self)
qed

lemma bit_u16_high: "\<not> bit (u::u16) 16" "\<not> bit (u::u16) 17" "\<not> bit (u::u16) 18" "\<not> bit (u::u16) 19"
  by (auto dest: bit_imp_le_length)

lemma push_drop_0: "push_bit n (drop_bit n (u::'a::len word)) = 0 \<longleftrightarrow> unat u < 2 ^ n"
  unfolding unat_eq_0[symmetric] unat_push_drop by (simp add: div_eq_0_iff)

lemma unit_masks: "u AND 0xff80 = (0::u16) \<longleftrightarrow> unat u < 0x80" "u AND 0xf800 = (0::u16) \<longleftrightarrow> unat u < 0x800"
proof -
  have "u AND 0xff80 = push_bit 7 (drop_bit 7 u)" "u AND 0xf800 = push_bit 11 (drop_bit 11 u)"
    by (rule bits16_eqI, drule less16_cases, elim disjE, simp_all add: bit_simps)+
  then show "u AND 0xff80 = (0::u16) \<longleftrightarrow> unat u < 0x80" "u AND 0xf800 = (0::u16) \<longleftrightarrow> unat u < 0x800"
    by (simp_all add: push_drop_0)
qed

lemma surrogate_mask: "u AND 0xfc00 = (0xd800::u16) \<longleftrightarrow> 0xd800 \<le> unat u \<and> unat u \<le> 0xdbff"
proof -
  have e: "u AND 0xfc00 = push_bit 10 (drop_bit 10 u)"
    by (rule bits16_eqI, drule less16_cases, elim disjE) (simp_all add: bit_simps)
  have "u AND 0xfc00 = 0xd800 \<longleftrightarrow> unat (u AND 0xfc00) = 0xd800" by (simp add: word_unat_eq_iff)
  also have "unat (u AND 0xfc00) = unat u div 1024 * 1024" unfolding e unat_push_drop by simp
  finally show ?thesis by auto
qed

lemma utf8_char_len_div:
  "utf8_char_len c = unat (signed_drop_bit (2 * (unat c div 16)) (0xE5000000 :: 32 word) AND 3) + 1"
proof -
  have "drop_bit 3 c AND 0x1E = drop_bit 3 (c AND 0xf0)"
    by (rule bits8_eqI, drule less8_cases, elim disjE) (simp_all add: bit_simps)
  then have "unat (drop_bit 3 c AND 0x1E) = 2 * (unat c div 16)"
    using unat_high_nibble[of c] unat_drop_bit_eq[of 3 "c AND 0xf0"] by (simp add: drop_bit_eq_div[where ?'a = nat])
  then show ?thesis by (simp add: utf8_char_len_def)
qed

lemma utf8_char_len_cases:
  "unat c < 0xc0 \<Longrightarrow> utf8_char_len c = 1" "0xc0 \<le> unat c \<Longrightarrow> unat c < 0xe0 \<Longrightarrow> utf8_char_len c = 2"
  "0xe0 \<le> unat c \<Longrightarrow> unat c < 0xf0 \<Longrightarrow> utf8_char_len c = 3" "0xf0 \<le> unat c \<Longrightarrow> utf8_char_len c = 4"
proof -
  define k where "k = unat c div 16"
  have "unat c < 256" by simp
  then have "k < 16" unfolding k_def by linarith
  then have "utf8_char_len c = (if k < 12 then 1 else if k < 14 then 2 else if k = 14 then 3 else 4)"
    unfolding utf8_char_len_div k_def[symmetric] by (drule_tac less16_cases, elim disjE) (hypsubst, code_simp)+
  moreover have "k < 12 \<longleftrightarrow> unat c < 0xc0" "k < 14 \<longleftrightarrow> unat c < 0xe0" "k = 14 \<longleftrightarrow> 0xe0 \<le> unat c \<and> unat c < 0xf0"
    unfolding k_def by auto
  ultimately show "unat c < 0xc0 \<Longrightarrow> utf8_char_len c = 1" "0xc0 \<le> unat c \<Longrightarrow> unat c < 0xe0 \<Longrightarrow> utf8_char_len c = 2"
    "0xe0 \<le> unat c \<Longrightarrow> unat c < 0xf0 \<Longrightarrow> utf8_char_len c = 3" "0xf0 \<le> unat c \<Longrightarrow> utf8_char_len c = 4" by auto
qed

subsection \<open>UTF-8 and UTF-16\<close>

text \<open>The reference: UTF-8 of a code point below \<^verbatim>\<open>0x10000\<close>, which is one unit of UTF-16, and both forms of a name.\<close>

definition utf8_bytes :: "nat \<Rightarrow> nat list" where
  "utf8_bytes c =
     (if c < 0x80 then [c]
      else if c < 0x800 then [0xc0 + c div 64, 0x80 + c mod 64]
      else [0xe0 + c div 4096, 0x80 + c div 64 mod 64, 0x80 + c mod 64])"

definition utf8_of :: "u16 list \<Rightarrow> name" where
  "utf8_of us = concat (map (\<lambda>u. map word_of_nat (utf8_bytes (unat u))) us)"

definition utf16_of :: "u16 list \<Rightarrow> block" where
  "utf16_of us = concat (map (\<lambda>u. [word_of_nat (unat u mod 256), word_of_nat (unat u div 256)]) us)"

text \<open>The units that the conversion keeps: not 0, which ends a name, and no high surrogate.\<close>

definition unit_ok :: "u16 \<Rightarrow> bool" where
  "unit_ok u \<longleftrightarrow> u \<noteq> 0 \<and> \<not> (0xd800 \<le> unat u \<and> unat u \<le> 0xdbff)"

lemma utf_simps [simp]: "utf8_of [] = []" "utf16_of [] = []"
  "utf8_of (u # us) = map word_of_nat (utf8_bytes (unat u)) @ utf8_of us" "utf8_of (us @ vs) = utf8_of us @ utf8_of vs"
  "utf16_of (u # us) = word_of_nat (unat u mod 256) # word_of_nat (unat u div 256) # utf16_of us" "utf16_of (us @ vs) = utf16_of us @ utf16_of vs"
  by (simp_all add: utf8_of_def utf16_of_def)

lemma utf16_length [simp]: "length (utf16_of us) = 2 * length us"
  by (induction us) simp_all

lemma disjoint_or: "(x::'a::len word) AND y = 0 \<Longrightarrow> x OR y = x + y"
  by (simp add: disjunctive_add_eq_or)

lemma u8_and_0: "(\<And>n. n < 8 \<Longrightarrow> bit (x::u8) n \<Longrightarrow> \<not> bit y n) \<Longrightarrow> x AND y = 0"
  by (rule bits8_eqI) (auto simp: bit_simps)

lemma low6: "(0x80::u8) OR ucast (u AND (0x3f::u16)) = word_of_nat (0x80 + unat u mod 64)"
proof -
  have e: "u AND 0x3f = word_of_nat (unat u mod 64)"
  proof -
    have "u AND 0x3f = take_bit 6 u" by (rule bits16_eqI, drule less16_cases, elim disjE) (simp_all add: bit_simps)
    moreover have "unat (take_bit 6 u) = unat u mod 64" unfolding unsigned_take_bit_eq by (simp add: take_bit_eq_mod)
    ultimately show ?thesis by (metis of_nat_unat ucast_id)
  qed
  have a: "(0x80::u8) OR ucast (u AND (0x3f::u16)) = 0x80 + ucast (u AND 0x3f)"
    by (rule disjoint_or, rule u8_and_0, drule less8_cases, elim disjE) (simp_all add: bit_simps)
  have b: "ucast (u AND 0x3f) = (word_of_nat (unat u mod 64) :: u8)"
    unfolding e by (simp add: unsigned_of_nat take_bit_eq_mod)
  show ?thesis by (rule trans[OF a]) (simp only: b of_nat_add of_nat_numeral)
qed

lemma ucast_unat: "ucast (w::'a::len word) = (word_of_nat (unat w) :: 'b::len word)"
  by simp

lemma lead2:
  assumes "unat (u::u16) < 0x800"
  shows "(0xc0::u8) OR ucast (drop_bit 6 u) = word_of_nat (0xc0 + unat u div 64)"
proof -
  have "u AND 0xf800 = 0" using assms unit_masks(2) by simp
  note k = and_0_bit[OF this, of 12] and_0_bit[OF this, of 13]
  have "(0xc0::u8) OR ucast (drop_bit 6 u) = 0xc0 + ucast (drop_bit 6 u)"
    by (rule disjoint_or, rule u8_and_0, drule less8_cases, elim disjE) (use k in \<open>simp_all add: bit_simps\<close>)
  then show ?thesis unfolding ucast_unat[of "drop_bit 6 u"] unat_drop_bit_eq by (simp add: drop_bit_eq_div)
qed

lemma lead3: "(0xe0::u8) OR ucast (drop_bit 12 (u::u16)) = word_of_nat (0xe0 + unat u div 4096)"
proof -
  have "(0xe0::u8) OR ucast (drop_bit 12 u) = 0xe0 + ucast (drop_bit 12 u)"
    by (rule disjoint_or, rule u8_and_0, drule less8_cases, elim disjE) (simp_all add: bit_simps bit_u16_high)
  then show ?thesis unfolding ucast_unat[of "drop_bit 12 u"] unat_drop_bit_eq by (simp add: drop_bit_eq_div)
qed

lemma low6_drop: "(0x80::u8) OR ucast (drop_bit 6 u AND (0x3f::u16)) = word_of_nat (0x80 + unat u div 64 mod 64)"
  unfolding low6 unat_drop_bit_eq by (simp add: drop_bit_eq_div)

lemma u_to_utf8_eq:
  assumes "\<not> (0xd800 \<le> unat u \<and> unat u \<le> 0xdbff)"
  shows "u_to_utf8 u v = map word_of_nat (utf8_bytes (unat u))"
proof -
  have m: "u AND 0xfc00 \<noteq> 0xd800" using assms surrogate_mask by simp
  show ?thesis
    unfolding u_to_utf8_def utf8_bytes_def unit_masks
    using m lead2[of u] lead3[of u] low6[of u] low6_drop[of u] ucast_unat[of u, where 'b = 8] by (simp del: of_nat_unat of_nat_add)
qed

text \<open>Reading the bytes back.\<close>

lemma utf8_2_back:
  assumes "u AND 0xf800 = (0::u16)"
  shows "push_bit 6 (ucast (((0xc0::u8) OR ucast (drop_bit 6 u)) AND 31)) OR ucast (((0x80::u8) OR ucast (u AND 0x3f)) AND 63) = u"
  by (rule bits16_eqI, drule less16_cases, elim disjE)
    (use and_0_bit[OF assms, of 11] and_0_bit[OF assms, of 12] and_0_bit[OF assms, of 13] and_0_bit[OF assms, of 14]
       and_0_bit[OF assms, of 15] in \<open>simp_all add: bit_simps\<close>)

lemma utf8_3_back:
  "push_bit 12 (ucast (((0xe0::u8) OR ucast (drop_bit 12 u)) AND 15)) OR push_bit 6 (ucast (((0x80::u8) OR ucast (drop_bit 6 u AND 0x3f)) AND 63))
     OR ucast (((0x80::u8) OR ucast (u AND 0x3f)) AND 63) = (u::u16)"
  by (rule bits16_eqI, drule less16_cases, elim disjE) (simp_all add: bit_simps)

lemma continuation: "((0x80::u8) OR ucast (w AND (0x3f::u16))) AND 0xC0 = 0x80"
  by (rule bits8_eqI, drule less8_cases, elim disjE) (simp_all add: bit_simps)

lemma lead_bits:
  "unat (u::u16) < 0x80 \<Longrightarrow> ucast u AND (0x80::u8) = 0"
  "unat (u::u16) < 0x800 \<Longrightarrow> ((0xc0::u8) OR ucast (drop_bit 6 u)) AND 0x80 \<noteq> 0 \<and> ((0xc0::u8) OR ucast (drop_bit 6 u)) AND 0x20 = 0"
  "((0xe0::u8) OR ucast (drop_bit 12 u)) AND 0x80 \<noteq> 0" "((0xe0::u8) OR ucast (drop_bit 12 u)) AND 0x20 \<noteq> 0"
  "((0xe0::u8) OR ucast (drop_bit 12 u)) AND 0x10 = 0"
proof -
  have hi: "x AND m \<noteq> 0" if "bit x k" "bit m k" for x m :: u8 and k using that and_0_bit by blast
  show "ucast u AND (0x80::u8) = 0" if "unat u < 0x80"
    using and_0_bit[of u "0xff80" 7] that unit_masks(1)[of u]
    by (intro bits8_eqI, drule_tac less8_cases, elim disjE) (simp_all add: bit_simps)
  show "((0xc0::u8) OR ucast (drop_bit 6 u)) AND 0x80 \<noteq> 0 \<and> ((0xc0::u8) OR ucast (drop_bit 6 u)) AND 0x20 = 0" if "unat u < 0x800"
  proof
    show "((0xc0::u8) OR ucast (drop_bit 6 u)) AND 0x80 \<noteq> 0" by (rule hi[of _ 7]) (simp_all add: bit_simps)
    show "((0xc0::u8) OR ucast (drop_bit 6 u)) AND 0x20 = 0"
      using and_0_bit[of u "0xf800" 11] that unit_masks(2)[of u]
      by (intro bits8_eqI, drule_tac less8_cases, elim disjE) (simp_all add: bit_simps)
  qed
  show "((0xe0::u8) OR ucast (drop_bit 12 u)) AND 0x80 \<noteq> 0" by (rule hi[of _ 7]) (simp_all add: bit_simps)
  show "((0xe0::u8) OR ucast (drop_bit 12 u)) AND 0x20 \<noteq> 0" by (rule hi[of _ 5]) (simp_all add: bit_simps)
  show "((0xe0::u8) OR ucast (drop_bit 12 u)) AND 0x10 = 0"
    by (intro bits8_eqI, drule_tac less8_cases, elim disjE) (simp_all add: bit_simps bit_u16_high)
qed

lemma utf8_to_u_utf8:
  assumes "u_to_utf8 u v @ rest = a # b # c # d # xs" "\<not> (0xd800 \<le> unat u \<and> unat u \<le> 0xdbff)"
  shows "utf8_to_u a b c d = Some (u, length (u_to_utf8 u v)) \<and> utf8_char_len a = length (u_to_utf8 u v)"
proof -
  have m: "u AND 0xfc00 \<noteq> 0xd800" using assms(2) surrogate_mask by simp
  have c: "unat u < 65536" using unat_less[of u] by simp
  consider (one) "unat u < 0x80" | (two) "0x80 \<le> unat u" "unat u < 0x800" | (three) "0x800 \<le> unat u" by linarith
  then show ?thesis
  proof cases
    case one
    then have "u_to_utf8 u v = [ucast u]" by (simp add: u_to_utf8_def unit_masks)
    moreover from this have a: "a = ucast u" using assms(1) by simp
    moreover have ua: "unat (ucast u :: u8) = unat u"
      unfolding ucast_unat[of u] unat_byte using one by simp
    moreover have "ucast (ucast u :: u8) = u" unfolding ucast_unat[of "ucast u :: u8"] ua by simp
    ultimately show ?thesis using lead_bits(1)[OF one] utf8_char_len_cases(1)[of a] one by (simp add: utf8_to_u_def)
  next
    case two
    then have e: "u_to_utf8 u v = [0xc0 OR ucast (drop_bit 6 u), 0x80 OR ucast (u AND 0x3f)]" by (simp add: u_to_utf8_def unit_masks)
    then have ab: "a = 0xc0 OR ucast (drop_bit 6 u)" "b = 0x80 OR ucast (u AND 0x3f)" using assms(1) by simp_all
    have "unat a = 0xc0 + unat u div 64" unfolding ab lead2[OF two(2)] unat_byte using two(2) by auto
    then have "utf8_char_len a = 2" using two by (intro utf8_char_len_cases(2)) auto
    then show ?thesis
      unfolding utf8_to_u_def e using lead_bits(2)[OF two(2)] continuation[of u] utf8_2_back[of u] two unit_masks(2)[of u] ab by simp
  next
    case three
    then have e: "u_to_utf8 u v = [0xe0 OR ucast (drop_bit 12 u), 0x80 OR ucast (drop_bit 6 u AND 0x3f), 0x80 OR ucast (u AND 0x3f)]"
      using m by (simp add: u_to_utf8_def unit_masks)
    then have abc: "a = 0xe0 OR ucast (drop_bit 12 u)" "b = 0x80 OR ucast (drop_bit 6 u AND 0x3f)" "c = 0x80 OR ucast (u AND 0x3f)"
      using assms(1) by simp_all
    have "unat a = 0xe0 + unat u div 4096" unfolding abc lead3 unat_byte using c by auto
    then have "utf8_char_len a = 3" using c by (intro utf8_char_len_cases(3)) auto
    then show ?thesis
      unfolding utf8_to_u_def e using lead_bits(3-5)[of u] continuation[of u] continuation[of "drop_bit 6 u"] utf8_3_back[of u] abc by simp
  qed
qed

lemma byte_at_append: "byte_at (xs @ ys) (length xs + k) = byte_at ys k" "byte_at (xs @ ys) (length xs) = byte_at ys 0"
  by (auto simp: byte_at_def nth_append)

lemma byte_at_Cons [simp]: "byte_at (x # xs) 0 = x" "byte_at (x # xs) (Suc k) = byte_at xs k" "byte_at [] k = 0"
  by (auto simp: byte_at_def)

lemma unit_bytes: "[ucast (u AND (0xFF::u16)), ucast (drop_bit 8 u)] = [word_of_nat (unat u mod 256), word_of_nat (unat u div 256) :: u8]"
proof -
  have "ucast (u AND 0xFF) = (ucast u :: u8)"
    by (rule bits8_eqI, drule less8_cases, elim disjE) (simp_all add: bit_simps)
  also have "\<dots> = word_of_nat (unat u mod 256)"
    by (simp add: word_unat_eq_iff unat_byte unsigned_ucast_eq take_bit_eq_mod)
  finally show ?thesis
    unfolding ucast_unat[of "drop_bit 8 u"] unat_drop_bit_eq by (simp add: drop_bit_eq_div)
qed

lemma first4_bytes: "\<exists>xs. zs @ replicate 4 0 = byte_at zs 0 # byte_at zs 1 # byte_at zs 2 # byte_at zs 3 # xs"
  by (cases zs; cases "tl zs"; cases "tl (tl zs)"; cases "tl (tl (tl zs))") (auto simp: numeral_eq_Suc)

text \<open>One round of the loop to UTF-16 on a character of at most three bytes.\<close>

lemma utf8_lendian_step:
  assumes "length dst < dstLimit" "\<not> (0xd800 \<le> unat u \<and> unat u \<le> 0xdbff)"
  shows "utf8_lendian_loop (pre @ utf8_of [u] @ rest) (length (pre @ utf8_of [u] @ rest)) dstLimit (length pre) dst
    = utf8_lendian_loop ((pre @ utf8_of [u]) @ rest) (length ((pre @ utf8_of [u]) @ rest)) dstLimit (length (pre @ utf8_of [u])) (dst @ utf16_of [u])"
proof -
  define src where "src = pre @ utf8_of [u] @ rest"
  define B where "B = u_to_utf8 u 0"
  have B: "utf8_of [u] = B" using u_to_utf8_eq[OF assms(2)] by (simp add: B_def)
  have n: "0 < length B" unfolding B[symmetric] by (simp add: utf8_bytes_def)
  let ?b = "\<lambda>k. byte_at src (length pre + k)"
  have b: "?b k = byte_at (B @ rest) k" "byte_at src (length pre) = ?b 0" for k
    using byte_at_append(1)[of pre "B @ rest" k] unfolding src_def B by simp_all
  have "\<exists>xs. u_to_utf8 u 0 @ rest @ replicate 4 0 = ?b 0 # ?b 1 # ?b 2 # ?b 3 # xs"
    using first4_bytes[of "B @ rest"] unfolding b(1) B_def by simp
  then obtain xs where "u_to_utf8 u 0 @ rest @ replicate 4 0 = ?b 0 # ?b 1 # ?b 2 # ?b 3 # xs" ..
  from utf8_to_u_utf8[OF this assms(2)] have d: "utf8_to_u_at src (length pre) = Some (u, length B)" "utf8_char_len (byte_at src (length pre)) = length B"
    by (simp_all add: utf8_to_u_at_def B_def)
  have l: "length src = length pre + length B + length rest" unfolding src_def B by simp
  have "utf8_lendian_loop src (length src) dstLimit (length pre) dst
      = utf8_lendian_loop src (length src) dstLimit (length pre + length B) (dst @ utf16_of [u])"
    by (subst utf8_lendian_loop.simps) (use d assms(1) l n unit_bytes[of u] in simp)
  then show ?thesis unfolding src_def B by simp
qed

lemma utf8_lendian_utf8:
  assumes "length dst + 2 * length us \<le> dstLimit" "odd dstLimit" "even (length dst)" "list_all unit_ok us"
  shows "utf8_lendian_loop (pre @ utf8_of us @ rest) (length (pre @ utf8_of us @ rest)) dstLimit (length pre) dst
    = utf8_lendian_loop ((pre @ utf8_of us) @ rest) (length ((pre @ utf8_of us) @ rest)) dstLimit (length (pre @ utf8_of us)) (dst @ utf16_of us)"
  using assms
proof (induction us arbitrary: pre dst)
  case (Cons u us)
  have u: "\<not> (0xd800 \<le> unat u \<and> unat u \<le> 0xdbff)" using Cons.prems(4) by (simp add: unit_ok_def)
  have "length dst < dstLimit" using Cons.prems(1) by simp
  note s = utf8_lendian_step[OF this u, of pre "utf8_of us @ rest"]
  note i = Cons.IH[of "dst @ utf16_of [u]" "pre @ utf8_of [u]"]
  show ?case using s i Cons.prems by simp
qed simp

lemma utf8_lendian_end: "\<not> (srcCount < srcLimit \<and> length dst < dstLimit) \<Longrightarrow> utf8_lendian_loop src srcLimit dstLimit srcCount dst = Some (srcCount, dst)"
  by (subst utf8_lendian_loop.simps) (rule if_not_P)

lemma utf_nul: "utf8_of [0] = [0]" "utf16_of [0] = [0, 0]"
  by (simp_all add: utf8_bytes_def)

lemma utf8_to_unicode_run:
  assumes "list_all unit_ok us" "length us \<le> 255"
  shows "enc_utf8_to_unicode (utf8_of us) 512 = (int (2 * length us + 2), utf16_of us @ [0, 0])"
proof -
  have "utf8_lendian_loop (utf8_of us @ [0]) (length (utf8_of us @ [0])) 511 0 []
      = utf8_lendian_loop (utf8_of us @ [0]) (length (utf8_of us @ [0])) 511 (length (utf8_of us)) (utf16_of us)"
    using utf8_lendian_utf8[of "[]" us 511 "[]" "[0]"] assms by simp
  also have "\<dots> = utf8_lendian_loop (utf8_of us @ [0]) (length (utf8_of us @ [0])) 511 (length (utf8_of us @ [0])) (utf16_of us @ [0, 0])"
    using utf8_lendian_step[of "utf16_of us" 511 0 "utf8_of us" "[]", unfolded utf_nul] assms by simp
  also have "\<dots> = Some (length (utf8_of us @ [0]), utf16_of us @ [0, 0])" by (rule utf8_lendian_end) simp
  finally show ?thesis by (simp add: enc_utf8_to_unicode_def utf8_to_lendian_unicode_def B_OK_def)
qed

text \<open>The way back.\<close>

lemma unit_at_bytes: "unit_at (pre @ utf16_of (u # us) @ rest) (length pre) = u"
proof -
  have "unit_at (pre @ utf16_of (u # us) @ rest) (length pre) = ucast (word_of_nat (unat u mod 256) :: u8) OR push_bit 8 (ucast (word_of_nat (unat u div 256) :: u8))"
    using byte_at_append(1)[of pre "utf16_of (u # us) @ rest" 1] byte_at_append(2)[of pre "utf16_of (u # us) @ rest"] by (simp add: unit_at_def)
  also have "\<dots> = ucast (ucast (u AND 0xFF) :: u8) OR push_bit 8 (ucast (ucast (drop_bit 8 u) :: u8))" using unit_bytes[of u] by simp
  also have "\<dots> = u" by (rule bits16_eqI, drule less16_cases, elim disjE) (simp_all add: bit_simps)
  finally show ?thesis .
qed

lemma lendian_utf16:
  assumes "list_all (\<lambda>u. \<not> (0xd800 \<le> unat u \<and> unat u \<le> 0xdbff)) us" "length dst + length (utf8_of us) \<le> dstLimit" "length pre + 2 * length us \<le> srcLimit"
  shows "lendian_loop (pre @ utf16_of us @ rest) srcLimit dstLimit (length pre) dst
    = lendian_loop ((pre @ utf16_of us) @ rest) srcLimit dstLimit (length (pre @ utf16_of us)) (dst @ utf8_of us)"
  using assms
proof (induction us arbitrary: pre dst)
  case (Cons u us)
  have "u_to_utf8 u v = utf8_of [u]" for v using u_to_utf8_eq Cons.prems(1) by simp
  then have "lendian_loop (pre @ utf16_of (u # us) @ rest) srcLimit dstLimit (length pre) dst
      = lendian_loop (pre @ utf16_of (u # us) @ rest) srcLimit dstLimit (length pre + 2) (dst @ utf8_of [u])"
    by (subst lendian_loop.simps, unfold unit_at_bytes Let_def) (use Cons.prems(2,3) in simp)
  also have "\<dots> = lendian_loop ((pre @ utf16_of [u]) @ utf16_of us @ rest) srcLimit dstLimit (length (pre @ utf16_of [u])) (dst @ utf8_of [u])" by simp
  also have "\<dots> = lendian_loop (((pre @ utf16_of [u]) @ utf16_of us) @ rest) srcLimit dstLimit (length ((pre @ utf16_of [u]) @ utf16_of us)) ((dst @ utf8_of [u]) @ utf8_of us)"
    by (rule Cons.IH) (use Cons.prems in simp_all)
  finally show ?case by simp
qed simp

lemma unicode_to_utf8_run:
  assumes "list_all (\<lambda>u. \<not> (0xd800 \<le> unat u \<and> unat u \<le> 0xdbff)) us" "us \<noteq> []" "length (utf8_of us) \<le> len"
  shows "enc_unicode_to_utf8 (utf16_of us @ rest) (2 * length us) len = (B_OK, utf8_of us)"
proof -
  have "lendian_loop (utf16_of us @ rest) (2 * length us) len 0 [] = lendian_loop (utf16_of us @ rest) (2 * length us) len (2 * length us) (utf8_of us)"
    using lendian_utf16[of us "[]" len "[]" "2 * length us" rest] assms by simp
  also have "\<dots> = (2 * length us, utf8_of us)" by (subst lendian_loop.simps) simp
  finally have l: "lendian_loop (utf16_of us @ rest) (2 * length us) len 0 [] = (2 * length us, utf8_of us)" .
  have "utf8_of us \<noteq> []" using assms(2) by (cases us) (auto simp: utf8_bytes_def)
  then show ?thesis using l by (simp add: enc_unicode_to_utf8_def lendian_unicode_to_utf8_def)
qed

lemma utf8_bytes_nonzero: "u \<noteq> 0 \<Longrightarrow> 0 \<notin> set (map (word_of_nat :: nat \<Rightarrow> u8) (utf8_bytes (unat (u::u16))))"
proof -
  assume "u \<noteq> 0"
  moreover have "unat u < 65536" using unat_less[of u] by simp
  moreover have z: "word_of_nat n = (0::u8) \<Longrightarrow> n mod 256 = 0" for n by (metis unat_byte unsigned_0)
  moreover have "unat u \<noteq> 0" using \<open>u \<noteq> 0\<close> by (simp only: unat_eq_0 not_False_eq_True)
  ultimately have "\<forall>n \<in> set (utf8_bytes (unat u)). n mod 256 \<noteq> 0" unfolding utf8_bytes_def by auto
  then show ?thesis using z by fastforce
qed

lemma utf8_of_nonzero: "list_all unit_ok us \<Longrightarrow> 0 \<notin> set (utf8_of us)"
  by (induction us) (use utf8_bytes_nonzero in \<open>auto simp: unit_ok_def\<close>)

lemma utf8_of_string: "list_all unit_ok us \<Longrightarrow> takeWhile (\<lambda>c. c \<noteq> 0) (utf8_of us @ 0 # rest) = utf8_of us"
  using utf8_of_nonzero by (subst takeWhile_append2) auto

lemma unit_ok_no_surrogate: "list_all unit_ok us \<Longrightarrow> list_all (\<lambda>u. \<not> (0xd800 \<le> unat u \<and> unat u \<le> 0xdbff)) (us @ replicate n 0)"
  by (auto simp: list_all_iff unit_ok_def)

subsection \<open>The code page\<close>

lemma index_of_takeWhile: "index_of xs x i = i + length (takeWhile (\<lambda>y. y \<noteq> x) xs)"
  by (induction xs arbitrary: i) auto

lemma msdostou_ascii: "take 0x100 msdostou = map word_of_nat [0..<128] @ take 128 (drop 128 msdostou)"
  unfolding msdostou_def by (simp add: upt_rec)

lemma msdos_index_ascii:
  assumes "c < 128"
  shows "msdos_index (word_of_nat c) = c" "msdostou ! c = word_of_nat c"
proof -
  have u: "word_of_nat a \<noteq> (word_of_nat c :: u16)" if "a < c" for a
  proof
    assume "word_of_nat a = (word_of_nat c :: u16)"
    then have "unat (word_of_nat a :: u16) = unat (word_of_nat c :: u16)" by simp
    then show False using that assms by (simp add: unsigned_of_nat take_bit_nat_eq_self)
  qed
  have "[0..<128] = [0..<c] @ c # [c + 1..<128]" using assms by (metis add.commute le_add1 le_add_same_cancel1 less_imp_le_nat plus_1_eq_Suc upt_add_eq_append upt_conv_Cons le_iff_add)
  then have t: "takeWhile (\<lambda>y. y \<noteq> word_of_nat c) (map word_of_nat [0..<128] @ rest) = map (word_of_nat :: nat \<Rightarrow> u16) [0..<c]" for rest
  proof -
    have "takeWhile (\<lambda>y. y \<noteq> word_of_nat c) (map word_of_nat [0..<c] @ word_of_nat c # xs) = map (word_of_nat :: nat \<Rightarrow> u16) [0..<c]" for xs
      using u by (subst takeWhile_append2) auto
    then show ?thesis using \<open>[0..<128] = _\<close> by simp
  qed
  show "msdos_index (word_of_nat c) = c" unfolding msdos_index_def index_of_takeWhile msdostou_ascii t by simp
  have "msdostou ! c = take 0x100 msdostou ! c" using assms by simp
  then show "msdostou ! c = word_of_nat c" unfolding msdostou_ascii using assms by (simp add: nth_append)
qed

lemma acceptable_less: "b \<in> set acceptable \<Longrightarrow> unat b < 128 \<and> b \<notin> set illegal \<and> b \<notin> set underbar \<and> b \<notin> set capitalize_from
    \<and> \<not> (0x61 \<le> unat b \<and> unat b \<le> 0x7a) \<and> b \<noteq> 0 \<and> b \<noteq> 0x2e \<and> b \<noteq> 0x20 \<and> b \<noteq> 0xe5 \<and> b \<noteq> 5"
  unfolding acceptable_def illegal_def underbar_def capitalize_from_def set_simps(2) by (elim insertE emptyE) simp_all

lemma short_char_acceptable: "b \<in> set acceptable \<Longrightarrow> short_char (unat b) = Inr (Some b)"
  using acceptable_less[of b] by (auto simp: short_char_def Let_def)

text \<open>The characters that a short name can have.\<close>

definition short_chars :: "u8 set" where
  "short_chars = set acceptable \<union> set capitalize_to"

lemma short_char_in:
  assumes "short_char c = Inr (Some b)"
  shows "b \<in> short_chars"
proof -
  consider (low) "0x61 \<le> c" "c \<le> 0x7a" "b = word_of_nat (c - 0x61 + 0x41)" | (under) "b = 0x5f"
    | (cap) "word_of_nat c \<in> set capitalize_from" "b = capitalize_to ! index_of capitalize_from (word_of_nat c) 0"
    | (same) "b \<in> set acceptable \<or> b \<in> set capitalize_to"
    using assms by (auto simp: short_char_def Let_def split: if_splits)
  then show ?thesis
  proof cases
    case low
    then have "c - 0x61 < 26" by simp
    moreover have "list_all (\<lambda>k. word_of_nat (k + 0x41) \<in> set acceptable) [0..<26]"
      by (simp add: acceptable_def upt_rec)
    ultimately show ?thesis using low(3) by (auto simp: short_chars_def list_all_iff)
  next
    case cap
    then have "index_of capitalize_from (word_of_nat c) 0 < 8" by (auto simp: capitalize_from_def)
    then have "b \<in> set capitalize_to" unfolding cap(2) by (intro nth_mem) (simp add: capitalize_to_def)
    then show ?thesis by (simp add: short_chars_def)
  qed (auto simp: short_chars_def acceptable_def)
qed

lemma short_chars_not: "b \<in> short_chars \<Longrightarrow> b \<noteq> 0 \<and> b \<noteq> 0xe5 \<and> b \<noteq> 0x20 \<and> b \<noteq> 0x2e"
  unfolding short_chars_def acceptable_def capitalize_to_def set_simps(2) Un_insert_left by (elim insertE UnE emptyE) simp_all

text \<open>A field of 11 characters that are legal or blank. The two loops store such characters only.\<close>

definition short_ok :: "block \<Rightarrow> bool" where
  "short_ok nshort \<longleftrightarrow> length nshort = 11 \<and> set nshort \<subseteq> insert 0x20 short_chars"

lemma short_ok_update: "short_ok xs \<Longrightarrow> b \<in> short_chars \<Longrightarrow> short_ok (xs[i := b])"
  using set_update_subset_insert[of xs i b] by (auto simp: short_ok_def)

lemma short_base_ok: "short_base us i nshort = (r, nshort') \<Longrightarrow> short_ok nshort \<Longrightarrow> short_ok nshort'"
proof (induction us arbitrary: i nshort)
  case (Cons u us)
  from Cons.prems show ?case
    by (auto simp: Let_def split: if_splits sum.splits option.splits dest: Cons.IH dest!: short_char_in intro: short_ok_update)
qed simp

lemma short_ext_ok: "short_ext us i nshort = (r, nshort') \<Longrightarrow> short_ok nshort \<Longrightarrow> short_ok nshort'"
proof (induction us arbitrary: i nshort)
  case (Cons u us)
  from Cons.prems show ?case
    by (auto simp: Let_def split: if_splits sum.splits option.splits dest: Cons.IH dest!: short_char_in intro: short_ok_update)
qed simp

lemma generate_msdos_ok: "generate_short_name_msdos us nshort = (r, nshort') \<Longrightarrow> short_ok nshort \<Longrightarrow> short_ok nshort'"
  using short_base_ok short_ext_ok by (fastforce simp: generate_short_name_msdos_def split: prod.splits option.splits)

lemma generate_short_ok:
  assumes "enc_generate_short_name mem name w n = (B_OK, nshort, MS_DOS_CONVERSION)"
  shows "short_ok nshort" "nshort \<noteq> replicate 11 0x20"
    "\<exists>ns. generate_short_name_msdos (name_units w n) (replicate 11 0x20) = (B_OK, ns) \<and> nshort = (if ns = replicate 11 0x20 then ns[0 := 0x5f] else ns)"
proof -
  have b: "short_ok (replicate 11 0x20)" by (simp add: short_ok_def)
  obtain r ns where g: "generate_short_name_msdos (name_units w n) (replicate 11 0x20) = (r, ns)" by fastforce
  then have n: "r = B_OK" "nshort = (if ns = replicate 11 0x20 then ns[0 := 0x5f] else ns)"
    using assms by (auto simp: enc_generate_short_name_def Let_def MS_DOS_CONVERSION_def SJIS_CONVERSION_def split: if_splits prod.splits)
  have "(0x5f::u8) \<in> short_chars" by (simp add: short_chars_def acceptable_def)
  then show "short_ok nshort" using n(2) generate_msdos_ok[OF g b] short_ok_update[OF b] by auto
  show "nshort \<noteq> replicate 11 0x20"
  proof
    assume "nshort = replicate 11 0x20"
    then have "(replicate 11 0x20)[0 := 0x5f :: u8] = replicate 11 0x20" using n(2) by (simp split: if_splits)
    from arg_cong[OF this, of "\<lambda>x. x ! 0"] show False by simp
  qed
  show "\<exists>ns. generate_short_name_msdos (name_units w n) (replicate 11 0x20) = (B_OK, ns) \<and> nshort = (if ns = replicate 11 0x20 then ns[0 := 0x5f] else ns)"
    using g n by blast
qed

text \<open>Numbers in short names.\<close>

lemma decimal_digits: "set (decimal n) \<subseteq> (\<lambda>d. word_of_nat (0x30 + d)) ` {..<10}"
proof (induction n rule: decimal.induct)
  case (1 n)
  have "n mod 10 < 10" by simp
  then show ?case using 1 unfolding decimal.simps[of n] by (auto simp del: of_nat_add)
qed

lemma decimal_length: "n < 10 \<Longrightarrow> length (decimal n) = 1" "n < 100000 \<Longrightarrow> length (decimal n) \<le> 5" "1 \<le> length (decimal n)"
proof -
  show "n < 10 \<Longrightarrow> length (decimal n) = 1" by (simp add: decimal.simps)
  have "n < 10 ^ k \<Longrightarrow> 0 < k \<Longrightarrow> length (decimal n) \<le> k" for k n
  proof (induction k arbitrary: n)
    case (Suc k)
    show ?case
    proof (cases "n < 10")
      case False
      have "0 < k" using False Suc.prems(1) by (cases k) auto
      moreover have "n div 10 < 10 ^ k" using Suc.prems(1) by (simp add: div_less_iff_less_mult mult.commute)
      ultimately show ?thesis using Suc.IH[of "n div 10"] False by (simp add: decimal.simps[of n])
    qed (simp add: decimal.simps)
  qed simp
  from this[of n 5] show "n < 100000 \<Longrightarrow> length (decimal n) \<le> 5" by simp
  show "1 \<le> length (decimal n)" by (subst decimal.simps) simp
qed

lemma digits_short: "set (0x7e # decimal n) \<subseteq> short_chars"
proof -
  have "list_all (\<lambda>d. word_of_nat (0x30 + d) \<in> short_chars) [0..<10]" by (simp add: short_chars_def acceptable_def upt_rec)
  moreover have "(0x7e::u8) \<in> short_chars" by (simp add: short_chars_def acceptable_def)
  ultimately show ?thesis using decimal_digits[of n] by (auto simp: list_all_iff simp del: of_nat_add)
qed

lemma blank_back_le: "blank_back nshort i \<le> i"
  by (induction i) auto

lemma munge_english:
  assumes "short_ok nshort" "n < 100000"
  defines "i \<equiv> blank_back nshort (6 - length (decimal n)) + 1"
  shows "munge_short_name_english nshort n = take i nshort @ (0x7e # decimal n) @ drop (i + 1 + length (decimal n)) nshort"
    "0 < i" "i + 1 + length (decimal n) \<le> 8" "short_ok (munge_short_name_english nshort n)"
proof -
  have l: "length (decimal n) \<le> 5" "1 \<le> length (decimal n)" using decimal_length assms(2) by simp_all
  have "i \<le> 7 - length (decimal n)" using blank_back_le[of nshort "6 - length (decimal n)"] l by (simp add: i_def)
  then show le: "i + 1 + length (decimal n) \<le> 8" using l by linarith
  show "0 < i" by (simp add: i_def)
  show m: "munge_short_name_english nshort n = take i nshort @ (0x7e # decimal n) @ drop (i + 1 + length (decimal n)) nshort"
    by (simp add: munge_short_name_english_def memcpy_at_def i_def Let_def)
  have "set (munge_short_name_english nshort n) \<subseteq> set nshort \<union> set (0x7e # decimal n)"
    unfolding m using set_take_subset[of i nshort] set_drop_subset[of "i + 1 + length (decimal n)" nshort] by auto
  then show "short_ok (munge_short_name_english nshort n)"
    unfolding short_ok_def using assms(1) digits_short[of n] le l m by (auto simp: short_ok_def)
qed

lemma munge_tilde: "short_ok nshort \<Longrightarrow> n < 100000 \<Longrightarrow> 0x7e \<in> set (take 8 (munge_short_name_english nshort n))"
proof -
  assume h: "short_ok nshort" "n < 100000"
  define i where "i = blank_back nshort (6 - length (decimal n)) + 1"
  note m = munge_english[OF h, folded i_def]
  have "i < 8" using m(3) by simp
  moreover have "length nshort = 11" using h(1) by (simp add: short_ok_def)
  ultimately have "take 8 (munge_short_name_english nshort n) ! i = 0x7e" "i < length (take 8 (munge_short_name_english nshort n))"
    using m(4) unfolding m(1) by (auto simp: nth_append short_ok_def)
  then show ?thesis by (metis nth_mem)
qed

lemma munged_no_device:
  assumes "short_ok nshort" "n < 100000"
  shows "take 8 (munge_short_name_english nshort n) \<notin> set (map (take 8) device_names)"
proof -
  have "\<forall>d \<in> set (map (take 8) device_names). 0x7e \<notin> set d" by (simp add: device_names_def short_name_of_def)
  then show ?thesis using munge_tilde[OF assms] by blast
qed

lemma munge_english_small:
  assumes "short_ok nshort" "n < 10"
  shows "munge_short_name_english nshort n = take (blank_back nshort 5 + 1) nshort @ [0x7e, word_of_nat (0x30 + n)] @ drop (blank_back nshort 5 + 3) nshort"
    "blank_back nshort 5 + 3 \<le> 8"
  using munge_english(1,3)[OF assms(1), of n] assms(2) decimal_length(1)[OF assms(2)] by (simp_all add: decimal.simps[of n] numeral_3_eq_3)

lemma munge_distinct:
  assumes "short_ok nshort" "m < 10" "n < 10" "munge_short_name_english nshort m = munge_short_name_english nshort n"
  shows "m = n"
proof -
  have "length nshort = 11" using assms(1) by (simp add: short_ok_def)
  have "[0x7e, word_of_nat (0x30 + m)] = [0x7e, word_of_nat (0x30 + n) :: u8]"
    using assms(4) unfolding munge_english_small(1)[OF assms(1,2)] munge_english_small(1)[OF assms(1,3)] by simp
  then have "unat (word_of_nat (0x30 + m) :: u8) = unat (word_of_nat (0x30 + n) :: u8)" by simp
  then show ?thesis unfolding unat_byte using assms(2,3) by simp
qed

subsection \<open>Names that need no long name\<close>

lemma byte_at_0: "0 \<notin> set xs \<Longrightarrow> byte_at xs i = 0 \<longleftrightarrow> length xs \<le> i"
  by (auto simp: byte_at_def) (metis nth_mem)

lemma drop_byte_at: "i < length xs \<Longrightarrow> drop i xs = byte_at xs i # drop (i + 1) xs"
  by (simp add: byte_at_def Cons_nth_drop_Suc)

lemma base_loop_cases:
  assumes "0 \<notin> set utf8" "i \<le> 8" "i \<le> length utf8" "base_loop utf8 i \<noteq> Inl True"
  shows "\<exists>b rest. drop i utf8 = b @ rest \<and> set b \<subseteq> set acceptable \<and> i + length b \<le> 8
    \<and> (base_loop utf8 i = Inl False \<and> rest = [] \<or> base_loop utf8 i = Inr (i + length b) \<and> (i + length b < 8 \<longrightarrow> (\<exists>r. rest = 0x2e # r)))"
  using assms
proof (induction utf8 i rule: base_loop.induct)
  case (1 utf8 i)
  note b0 = byte_at_0[OF 1(2), of i]
  consider (stop) "i = 8" | (nul) "i < 8" "length utf8 \<le> i" | (dot) "i < 8" "i < length utf8" "byte_at utf8 i = 0x2e"
    | (bad) "i < 8" "i < length utf8" "byte_at utf8 i \<noteq> 0x2e" "byte_at utf8 i \<notin> set acceptable"
    | (good) "i < 8" "i < length utf8" "byte_at utf8 i \<noteq> 0x2e" "byte_at utf8 i \<in> set acceptable"
    using 1(3) by linarith
  then show ?case
  proof cases
    case stop
    then show ?thesis by (intro exI[of _ "[]"] exI[of _ "drop i utf8"]) (simp add: base_loop.simps)
  next
    case nul
    then show ?thesis using b0 by (intro exI[of _ "[]"]) (simp add: base_loop.simps)
  next
    case dot
    then have "base_loop utf8 i = Inr i" using b0 by (simp add: base_loop.simps)
    then show ?thesis using dot drop_byte_at[of i utf8] by (intro exI[of _ "[]"] exI[of _ "drop i utf8"]) simp
  next
    case bad
    then show ?thesis using b0 1(5) by (simp add: base_loop.simps)
  next
    case good
    then have e: "base_loop utf8 i = base_loop utf8 (i + 1)" using b0 by (subst base_loop.simps) simp
    obtain b rest where "drop (i + 1) utf8 = b @ rest" "set b \<subseteq> set acceptable" "i + 1 + length b \<le> 8"
      "base_loop utf8 (i + 1) = Inl False \<and> rest = [] \<or> base_loop utf8 (i + 1) = Inr (i + 1 + length b) \<and> (i + 1 + length b < 8 \<longrightarrow> (\<exists>r. rest = 0x2e # r))"
      using 1(1) b0 good 1(2,5) e by (metis Suc_eq_plus1 Suc_leI not_le)
    then show ?thesis using e good drop_byte_at[OF good(2)]
      by (intro exI[of _ "byte_at utf8 i # b"] exI[of _ rest]) simp
  qed
qed

lemma ext_loop_False: "0 \<notin> set utf8 \<Longrightarrow> \<not> ext_loop utf8 j i \<Longrightarrow> set (drop i utf8) \<subseteq> set acceptable \<and> length (drop i utf8) \<le> j"
proof (induction j arbitrary: i)
  case 0
  then show ?case by (simp add: byte_at_0)
next
  case (Suc j)
  show ?case
  proof (cases "length utf8 \<le> i")
    case False
    then have "drop i utf8 = byte_at utf8 i # drop (i + 1) utf8" "byte_at utf8 i \<noteq> 0"
      using drop_byte_at[of i utf8] byte_at_0[OF Suc.prems(1)] by simp_all
    then show ?thesis using Suc.IH[OF Suc.prems(1), of "i + 1"] Suc.prems(2) by (auto split: if_splits)
  qed simp
qed

text \<open>They are the names in 8.3 format.\<close>

definition dos_name :: "block \<Rightarrow> block \<Rightarrow> name" where
  "dos_name base ext = (if ext = [] then base else base @ 0x2e # ext)"

lemma short_form:
  assumes "0 \<notin> set name" "\<not> enc_requires_long_name name w"
  shows "\<exists>base ext. name = dos_name base ext \<and> set base \<subseteq> set acceptable \<and> set ext \<subseteq> set acceptable \<and> length base \<le> 8 \<and> length ext \<le> 3"
proof -
  have j: "\<not> japanese_loop w" and nt: "base_loop name 0 \<noteq> Inl True"
    using assms(2) by (auto simp: enc_requires_long_name_def split: if_splits sum.splits)
  obtain b rest where b: "name = b @ rest" "set b \<subseteq> set acceptable" "length b \<le> 8"
    "base_loop name 0 = Inl False \<and> rest = [] \<or> base_loop name 0 = Inr (length b) \<and> (length b < 8 \<longrightarrow> (\<exists>r. rest = 0x2e # r))"
    using base_loop_cases[OF assms(1) _ _ nt] by auto
  show ?thesis
  proof (cases "rest = []")
    case True
    then show ?thesis using b by (intro exI[of _ b] exI[of _ "[]"]) (simp add: dos_name_def)
  next
    case False
    then have i: "base_loop name 0 = Inr (length b)" and ln: "length b < length name" using b by auto
    have e: "byte_at name (length b) = hd rest" using False b(1) byte_at_append(2)[of b rest] by (cases rest) auto
    have n0: "byte_at name (length b) \<noteq> 0" using byte_at_0[OF assms(1)] ln by simp
    have "hd rest = 0x2e" using assms(2) j i b(3,4) n0 e False by (auto simp: enc_requires_long_name_def split: if_splits)
    then obtain r where r: "rest = 0x2e # r" using False by (cases rest) auto
    have x: "byte_at name (length b + 1) \<noteq> 0" "\<not> ext_loop name 3 (length b + 1)"
      using assms(2) j i n0 e r by (auto simp: enc_requires_long_name_def split: if_splits)
    have d: "drop (length b + 1) name = r" using b(1) r by simp
    have "r \<noteq> []" using x(1) byte_at_0[OF assms(1)] b(1) r by auto
    moreover have "set r \<subseteq> set acceptable" "length r \<le> 3" using ext_loop_False[OF assms(1) x(2)] unfolding d by simp_all
    ultimately have "set r \<subseteq> set acceptable" "length r \<le> 3" "r \<noteq> []" by simp_all
    then show ?thesis using b r by (intro exI[of _ b] exI[of _ r]) (simp add: dos_name_def)
  qed
qed

text \<open>The UTF-16 form of a string of ASCII characters.\<close>

definition ascii_units :: "block \<Rightarrow> u16 list" where
  "ascii_units bs = map ucast bs"

lemma unat_unit: "unat (word_of_nat n :: u16) = n mod 65536"
  by (simp add: unsigned_of_nat take_bit_eq_mod)

lemma ascii_unit: "unat (b::u8) < 128 \<Longrightarrow> unat (ucast b :: u16) = unat b \<and> (b \<noteq> 0 \<longrightarrow> unit_ok (ucast b))"
proof -
  assume b: "unat b < 128"
  have u: "unat (ucast b :: u16) = unat b" unfolding ucast_unat[of b] unat_unit using b by simp
  moreover have "b \<noteq> 0 \<Longrightarrow> (ucast b :: u16) \<noteq> 0" using u by (metis unat_eq_zero unsigned_0)
  ultimately show ?thesis using b by (auto simp: unit_ok_def)
qed

lemma ascii_utf8: "\<forall>b \<in> set bs. unat b < 128 \<Longrightarrow> utf8_of (ascii_units bs) = bs"
proof (induction bs)
  case (Cons b bs)
  then have "unat (ucast b :: u16) = unat b" "unat b < 128" using ascii_unit by simp_all
  then show ?case using Cons by (simp add: ascii_units_def utf8_bytes_def)
qed (simp add: ascii_units_def)

lemma ascii_units_ok: "\<forall>b \<in> set bs. unat b < 128 \<and> b \<noteq> 0 \<Longrightarrow> list_all unit_ok (ascii_units bs)"
  using ascii_unit by (auto simp: list_all_iff ascii_units_def)

lemma name_units_utf16: "name_units (utf16_of us @ rest) (2 * length us) = us"
proof (rule nth_equalityI)
  show l: "length (name_units (utf16_of us @ rest) (2 * length us)) = length us" by (simp add: name_units_def)
  fix k assume "k < length (name_units (utf16_of us @ rest) (2 * length us))"
  then have k: "k < length us" using l by simp
  then have us: "us = take k us @ us ! k # drop (Suc k) us" by (rule id_take_nth_drop)
  have "unit_at (utf16_of us @ rest) (2 * k) = us ! k"
  proof -
    have "utf16_of us @ rest = utf16_of (take k us) @ utf16_of (us ! k # drop (Suc k) us) @ rest"
      using arg_cong[OF us, of utf16_of] by (simp only: utf_simps(6) append.assoc)
    moreover have "length (utf16_of (take k us)) = 2 * k" using k by simp
    ultimately show ?thesis using unit_at_bytes[of "utf16_of (take k us)" "us ! k" "drop (Suc k) us" rest] by simp
  qed
  then show "name_units (utf16_of us @ rest) (2 * length us) ! k = us ! k" using k by (simp add: name_units_def)
qed

lemma msdos_index_acceptable: "b \<in> set acceptable \<Longrightarrow> msdos_index (ucast b) = unat b"
  using msdos_index_ascii(1)[of "unat b"] acceptable_less[of b] by simp

lemma ucast_ascii_eq: "b \<in> set acceptable \<Longrightarrow> ucast b \<noteq> (0::u16) \<and> ucast b \<noteq> (0x2e::u16)"
proof -
  assume "b \<in> set acceptable"
  then have b: "unat b < 128" "b \<noteq> 0" "b \<noteq> 0x2e" using acceptable_less by blast+
  then have "unat (ucast b :: u16) = unat b" using ascii_unit by blast
  moreover have "unat b \<noteq> unat (0x2e::u8)" "unat b \<noteq> unat (0::u8)" using b(2,3) by (metis word_unat_eq_iff)+
  ultimately show ?thesis by auto
qed

lemma memcpy_Cons: "i < length ns \<Longrightarrow> memcpy_at (ns[i := x]) (i + 1) b = memcpy_at ns i (x # b)"
  by (simp add: memcpy_at_def take_Suc_conv_app_nth)

lemma short_base_acceptable:
  assumes "set b \<subseteq> set acceptable" "i + length b \<le> 8" "length ns = 11"
  shows "short_base (ascii_units b @ us) i ns = short_base us (i + length b) (memcpy_at ns i b)"
  using assms
proof (induction b arbitrary: i ns)
  case (Cons x b)
  have "x \<in> set acceptable" using Cons.prems by simp
  note x = msdos_index_acceptable[OF this] ucast_ascii_eq[OF this] short_char_acceptable[OF this] acceptable_less[OF this]
  have m: "memcpy_at (ns[i := x]) (i + 1) b = memcpy_at ns i (x # b)" using Cons.prems by (intro memcpy_Cons) simp
  show ?case using Cons.IH[of "i + 1" "ns[i := x]"] Cons.prems x m by (simp add: ascii_units_def)
qed (simp add: ascii_units_def memcpy_at_def)

lemma short_ext_acceptable:
  assumes "set b \<subseteq> set acceptable" "i + length b \<le> 11" "length ns = 11"
  shows "short_ext (ascii_units b @ 0 # us) i ns = (B_OK, memcpy_at ns i b)"
  using assms
proof (induction b arbitrary: i ns)
  case (Cons x b)
  have "x \<in> set acceptable" using Cons.prems by simp
  note x = msdos_index_acceptable[OF this] ucast_ascii_eq[OF this] short_char_acceptable[OF this] acceptable_less[OF this]
  have m: "memcpy_at (ns[i := x]) (i + 1) b = memcpy_at ns i (x # b)" using Cons.prems by (intro memcpy_Cons) simp
  show ?case using Cons.IH[of "i + 1" "ns[i := x]"] Cons.prems x m by (simp add: ascii_units_def)
qed (simp add: ascii_units_def memcpy_at_def)

lemma find_back_skip: "d \<notin> set ys \<Longrightarrow> s \<le> length xs \<Longrightarrow> find_back d (xs @ ys) s (length xs + length ys) = find_back d xs s (length xs)"
proof (induction ys rule: rev_induct)
  case (snoc y ys)
  have p: "find_back d (zs @ w) s k = find_back d zs s k" if "k \<le> length zs" for zs w k
    using that by (induction k) (auto simp: nth_append)
  have "find_back d ((xs @ ys) @ [y]) s (Suc (length (xs @ ys))) = find_back d ((xs @ ys) @ [y]) s (length (xs @ ys))"
    using snoc.prems by (auto simp: nth_append)
  also have "\<dots> = find_back d (xs @ ys) s (length xs + length ys)" using p[of "length (xs @ ys)" "xs @ ys"] by simp
  finally show ?case using snoc by simp
qed simp

text \<open>The 11 characters for a name in 8.3 format.\<close>

definition dos_field :: "block \<Rightarrow> block \<Rightarrow> block" where
  "dos_field base ext = base @ replicate (8 - length base) 0x20 @ ext @ replicate (3 - length ext) 0x20"

lemma dos_field_memcpy:
  "length base \<le> 8 \<Longrightarrow> length ext \<le> 3 \<Longrightarrow> memcpy_at (memcpy_at (replicate 11 0x20) 0 base) 8 ext = dos_field base ext"
  by (simp add: memcpy_at_def dos_field_def)

lemma dos_field_nonblank:
  assumes "set base \<subseteq> set acceptable" "base \<noteq> []"
  shows "dos_field base ext \<noteq> replicate 11 0x20"
proof
  assume "dos_field base ext = replicate 11 0x20"
  then have "dos_field base ext ! 0 = 0x20" by simp
  then have "hd base = 0x20" using assms(2) by (simp add: dos_field_def nth_append hd_conv_nth)
  then show False using assms hd_in_set[of base] acceptable_less[of "hd base"] by auto
qed

lemma ascii_units_simps [simp]: "ascii_units [] = []" "ascii_units (b # bs) = ucast b # ascii_units bs" "ascii_units (as @ bs) = ascii_units as @ ascii_units bs"
  "length (ascii_units bs) = length bs"
  by (simp_all add: ascii_units_def)

lemma ascii_no_dot: "set b \<subseteq> set acceptable \<Longrightarrow> 0x2e \<notin> set (ascii_units b)"
  using ucast_ascii_eq by (fastforce simp: ascii_units_def)

lemma generate_dos:
  assumes "set base \<subseteq> set acceptable" "set ext \<subseteq> set acceptable" "length base \<le> 8" "length ext \<le> 3" "base \<noteq> []"
  shows "generate_short_name_msdos (ascii_units (dos_name base ext) @ [0]) (replicate 11 0x20) = (B_OK, dos_field base ext)"
proof -
  let ?ns = "memcpy_at (replicate 11 0x20) 0 base"
  have l: "length ?ns = 11" using assms(3) by (simp add: memcpy_at_def)
  have b: "short_base (ascii_units base @ us) 0 (replicate 11 0x20) = short_base us (length base) ?ns" for us
    using short_base_acceptable[OF assms(1), of 0 "replicate 11 0x20" us] assms(3) by simp
  note f = dos_field_memcpy[OF assms(3,4)]
  show ?thesis
  proof (cases "ext = []")
    case True
    have "find_back (0x2e::u16) (ascii_units base @ [0]) 0 (length base + 1) = None"
      using find_back_skip[of "0x2e::u16" "ascii_units base @ [0]" 0 "[]"] ascii_no_dot[OF assms(1)] by simp
    moreover have "?ns = dos_field base ext" using f True l by (simp add: memcpy_at_def[of ?ns])
    ultimately show ?thesis using True b[of "[0]"] by (simp add: generate_short_name_msdos_def dos_name_def)
  next
    case False
    have "find_back (0x2e::u16) ((ascii_units base @ [0x2e]) @ ascii_units ext @ [0]) 0 (length (ascii_units base @ [0x2e :: u16]) + length (ascii_units ext @ [0]))
        = find_back 0x2e (ascii_units base @ [0x2e]) 0 (length (ascii_units base @ [0x2e :: u16]))"
      by (rule find_back_skip) (use ascii_no_dot[OF assms(2)] in auto)
    then have "find_back (0x2e::u16) (ascii_units base @ 0x2e # ascii_units ext @ [0]) 0 (Suc (Suc (length base + length ext))) = Some (length base)"
      by (simp add: nth_append)
    moreover have "short_base (0x2e # ascii_units ext @ [0]) (length base) ?ns = (None, ?ns)" using assms(5) by simp
    moreover have "short_ext (ascii_units ext @ [0]) 8 ?ns = (B_OK, dos_field base ext)"
      using short_ext_acceptable[OF assms(2), of 8 ?ns "[]"] assms(4) l f by simp
    ultimately show ?thesis using False b[of "0x2e # ascii_units ext @ [0]"] by (simp add: generate_short_name_msdos_def dos_name_def)
  qed
qed

lemma ascii_not_japanese: "unat u < 0x3000 \<Longrightarrow> \<not> is_unicode_japanese u"
  by (auto simp: is_unicode_japanese_def word_le_nat_alt)

lemma dos_name_ascii:
  assumes "set base \<subseteq> set acceptable" "set ext \<subseteq> set acceptable"
  shows "\<forall>b \<in> set (dos_name base ext). unat b < 128 \<and> b \<noteq> 0"
proof
  fix b assume "b \<in> set (dos_name base ext)"
  then have "b \<in> set acceptable \<or> b = 0x2e" using assms by (auto simp: dos_name_def split: if_splits)
  then show "unat b < 128 \<and> b \<noteq> 0" using acceptable_less[of b] by auto
qed

lemma enc_generate_dos:
  assumes "set base \<subseteq> set acceptable" "set ext \<subseteq> set acceptable" "length base \<le> 8" "length ext \<le> 3" "base \<noteq> []"
  shows "enc_generate_short_name mem name (utf16_of (ascii_units (dos_name base ext)) @ [0, 0] @ rest) (2 * length (dos_name base ext) + 2)
    = (B_OK, dos_field base ext, MS_DOS_CONVERSION)"
proof -
  let ?us = "ascii_units (dos_name base ext) @ [0]"
  have w: "utf16_of (ascii_units (dos_name base ext)) @ [0, 0] @ rest = utf16_of ?us @ rest" by simp
  have u: "name_units (utf16_of ?us @ rest) (2 * length (dos_name base ext) + 2) = ?us"
    using name_units_utf16[of ?us rest] by simp
  moreover have "name_units x (2 * n + 2 + 1) = name_units x (2 * n + 2)" for x n by (simp add: name_units_def)
  moreover have "\<not> (\<exists>u \<in> set ?us. is_unicode_japanese u)"
  proof -
    have "unat (ucast b :: u16) < 0x3000" if "b \<in> set (dos_name base ext)" for b
      using dos_name_ascii[OF assms(1,2)] that ascii_unit[of b] by force
    then show ?thesis using ascii_not_japanese by (auto simp: ascii_units_def)
  qed
  moreover note dos_field_nonblank[OF assms(1,5), of ext]
  ultimately show ?thesis
    unfolding enc_generate_short_name_def w Let_def using generate_dos[OF assms] by simp
qed

lemma one_loop_ascii:
  assumes "\<forall>b \<in> set bs. unat b < 128" "length dst + length bs \<le> dstLimit"
  shows "one_loop msdostou (pre @ bs) (length (pre @ bs)) dstLimit (length pre) dst = (length (pre @ bs), dst @ bs)"
  using assms
proof (induction bs arbitrary: pre dst)
  case Nil
  then show ?case by (subst one_loop.simps) simp
next
  case (Cons b bs)
  have b: "unat b < 128" using Cons.prems by simp
  then have "u_to_utf8 (word_of_nat (unat b)) 0 = [b]"
    using u_to_utf8_eq[of "word_of_nat (unat b)" 0] unat_unit[of "unat b"] by (simp add: utf8_bytes_def)
  then have u: "u_to_utf8 (msdostou ! unat b) 0 = [b]" using msdos_index_ascii(2)[OF b] by simp
  have "one_loop msdostou (pre @ b # bs) (length (pre @ b # bs)) dstLimit (length pre) dst
      = one_loop msdostou (pre @ b # bs) (length (pre @ b # bs)) dstLimit (length pre + 1) (dst @ [b])"
    by (subst one_loop.simps, unfold byte_at_append(2)) (use u Cons.prems(2) in simp)
  then show ?case using Cons.IH[of "dst @ [b]" "pre @ [b]"] Cons.prems by simp
qed

lemma takeWhile_blank: "set b \<subseteq> set acceptable \<Longrightarrow> takeWhile (\<lambda>c. c \<noteq> 0x20) (b @ replicate n 0x20) = b"
  using acceptable_less by (subst takeWhile_append2) (auto simp: takeWhile_replicate)

lemma msdos_to_utf8_dos:
  assumes "set base \<subseteq> set acceptable" "set ext \<subseteq> set acceptable" "length base \<le> 8" "length ext \<le> 3" "base \<noteq> []"
  shows "enc_msdos_to_utf8 (dos_field base ext) 512 False = (B_OK, dos_name base ext @ [0])"
proof -
  let ?f = "dos_field base ext" and ?n = "dos_name base ext"
  have t: "take 8 ?f = base @ replicate (8 - length base) 0x20" using assms(3) by (simp add: dos_field_def)
  have d: "take 3 (drop 8 ?f) = ext @ replicate (3 - length ext) 0x20" using assms(3,4) by (simp add: dos_field_def)
  have b: "takeWhile (\<lambda>c. c \<noteq> 0x20) (take 8 ?f) = base" unfolding t by (rule takeWhile_blank[OF assms(1)])
  have e: "takeWhile (\<lambda>c. c \<noteq> 0x20) (take 3 (drop 8 ?f)) = ext" unfolding d by (rule takeWhile_blank[OF assms(2)])
  have e8: "?f ! 8 \<noteq> 0x20 \<longleftrightarrow> ext \<noteq> []"
  proof -
    have l: "0 < length (take 3 (drop 8 ?f))" unfolding d by simp
    then have "?f ! 8 = take 3 (drop 8 ?f) ! 0" by simp
    also have "\<dots> = (if ext = [] then 0x20 else hd ext)" unfolding d by (simp add: hd_conv_nth nth_append)
    finally show ?thesis using assms(2) acceptable_less[of "hd ext"] by (cases ext) auto
  qed
  obtain c cs where c: "base = c # cs" using assms(5) by (cases base) auto
  have c5: "c \<noteq> 5" using assms(1) acceptable_less[of c] c by auto
  have n: "(case base of [] \<Rightarrow> [] | c # cs \<Rightarrow> (if c = 5 then 0xe5 else c) # map (\<lambda>c. c) cs) @ (if ?f ! 8 \<noteq> 0x20 then 0x2e # map (\<lambda>c. c) ext else []) @ [0] = ?n @ [0]"
    using c c5 e8 by (simp add: dos_name_def)
  have "length ?n + 1 \<le> 512" using assms(3,4) by (simp add: dos_name_def)
  then have "one_loop msdostou (?n @ [0]) (length (?n @ [0])) 512 0 [] = (length (?n @ [0]), ?n @ [0])"
    using one_loop_ascii[of "?n @ [0]" "[]" 512 "[]"] dos_name_ascii[OF assms(1,2)] by auto
  then show ?thesis
    unfolding enc_msdos_to_utf8_def Let_def b e if_False n one_to_utf8_def by simp
qed

subsection \<open>Shift-JIS\<close>

text \<open>What an entry needs of a short name: 11 bytes, of which the first is neither the end of the directory nor the mark of a deleted
  entry. A munged name also has to differ from the names of devices.\<close>

definition field_ok :: "block \<Rightarrow> bool" where
  "field_ok nshort \<longleftrightarrow> length nshort = 11 \<and> nshort ! 0 \<noteq> 0 \<and> nshort ! 0 \<noteq> 0xe5"

definition munged_ok :: "block \<Rightarrow> bool" where
  "munged_ok nshort \<longleftrightarrow> field_ok nshort \<and> take 8 nshort \<notin> set (map (take 8) device_names)"

lemma short_ok_field: "short_ok nshort \<Longrightarrow> field_ok nshort"
proof -
  assume "short_ok nshort"
  then have "length nshort = 11" "set nshort \<subseteq> insert 0x20 short_chars" by (simp_all add: short_ok_def)
  moreover from this have "nshort ! 0 \<in> set nshort" by (intro nth_mem) simp
  ultimately have "length nshort = 11" "nshort ! 0 \<in> insert 0x20 short_chars" by blast+
  then show ?thesis using short_chars_not[of "nshort ! 0"] by (auto simp: field_ok_def)
qed

lemma munge_english_ok: "short_ok nshort \<Longrightarrow> n < 100000 \<Longrightarrow> munged_ok (munge_short_name_english nshort n)"
  using munge_english(4) short_ok_field munged_no_device unfolding munged_ok_def by blast

lemma sjis_upper_0: "sjis_upper c = 0 \<longleftrightarrow> c = 0"
proof -
  have "c - 0x61 + 0x41 \<noteq> 0" if "0x61 \<le> c" "c \<le> 0x7a"
  proof
    assume "c - 0x61 + 0x41 = 0"
    then have "c - 0x20 = 0" by (simp add: diff_add_eq)
    then have "c = 0x20" by simp
    then show False using that by simp
  qed
  then show ?thesis by (auto simp: sjis_upper_def)
qed

lemma sjis_base_first: "length (snd (sjis_base sjis s state nshort)) = length nshort \<and> (0 < state \<longrightarrow> snd (sjis_base sjis s state nshort) ! 0 = nshort ! 0)"
proof (induction sjis s state nshort rule: sjis_base.induct)
  case (1 sjis s state nshort)
  show ?case unfolding sjis_base.simps[of sjis s state nshort] using 1 by auto
qed

lemma sjis_ext_first: "length (sjis_ext sjis s state nshort) = length nshort \<and> (0 < state \<longrightarrow> sjis_ext sjis s state nshort ! 0 = nshort ! 0)"
proof (induction sjis s state nshort rule: sjis_ext.induct)
  case (1 sjis s state nshort)
  show ?case unfolding sjis_ext.simps[of sjis s state nshort] using 1 by auto
qed

lemma sjis_base_nonzero:
  assumes "nshort ! 0 \<noteq> 0" "length nshort = 11"
  shows "snd (sjis_base sjis s 0 nshort) ! 0 \<noteq> 0"
proof -
  have i: "is_initial_sjis_byte c \<Longrightarrow> c \<noteq> 0" for c by (auto simp: is_initial_sjis_byte_def)
  show ?thesis
    using assms i[of "byte_at sjis s"] sjis_upper_0[of "byte_at sjis s"]
      sjis_base_first[of sjis "s + 2" 2 "nshort[0 := byte_at sjis s, 1 := byte_at sjis (s + 1)]"]
      sjis_base_first[of sjis "s + 1" 1 "nshort[0 := sjis_upper (byte_at sjis s)]"]
    by (subst sjis_base.simps) (auto simp: numeral_2_eq_2)
qed

lemma generate_sjis_field:
  assumes "generate_short_name_sjis mem name n (replicate 11 0x20) = (r, nshort)"
  shows "length nshort = 11 \<and> nshort ! 0 \<noteq> 0"
proof -
  let ?b = "replicate 11 0x20 :: block"
  have blank: "length ?b = 11 \<and> ?b ! 0 \<noteq> 0" by simp
  have base: "length ns = 11 \<and> ns ! 0 \<noteq> 0" if "sjis_base sjis s 0 ?b = (x, ns)" for sjis s x ns
    using sjis_base_first[of sjis s 0 ?b] sjis_base_nonzero[of ?b sjis s] that by simp
  have ext: "length (sjis_ext sjis s 8 ns) = 11 \<and> sjis_ext sjis s 8 ns ! 0 \<noteq> 0" if "length ns = 11 \<and> ns ! 0 \<noteq> 0" for sjis s ns
    using sjis_ext_first[of sjis s 8 ns] that by simp
  show ?thesis
    using assms unfolding generate_short_name_sjis_def Let_def
    by (auto split: if_splits prod.splits option.splits dest!: base dest: ext[THEN conjunct1] ext[THEN conjunct2] simp: ext)
qed

lemma munge_sjis_last_le: "lst + len \<le> 8 \<Longrightarrow> munge_sjis_last nshort len i lst + len \<le> 8"
proof (induction nshort len i lst rule: munge_sjis_last.induct)
  case (1 nshort len i lst)
  then show ?case by (subst munge_sjis_last.simps) auto
qed

lemma memset_rest: "length p \<le> 8 \<Longrightarrow> memset_at (p @ drop (length p) ns) (length p) x (8 - length p) = p @ replicate (8 - length p) x @ drop 8 ns"
  by (simp add: memset_at_def memcpy_at_def)

lemma munge_sjis_ok:
  assumes "length nshort = 11" "nshort ! 0 \<noteq> 0" "nshort ! 0 \<noteq> 0xe5" "n < 100000"
  shows "munged_ok (munge_short_name_sjis nshort n)"
proof -
  let ?b = "0x7e # decimal n"
  define k where "k = munge_sjis_last nshort (length ?b) 0 0"
  have "length ?b \<le> 8" using decimal_length(2)[OF assms(4)] by simp
  then have k: "k + length ?b \<le> 8" using munge_sjis_last_le[of 0 "length ?b" nshort 0] by (simp add: k_def)
  have m: "munge_short_name_sjis nshort n = take k nshort @ ?b @ replicate (8 - (k + length ?b)) 0x20 @ drop 8 nshort"
  proof -
    have "munge_short_name_sjis nshort n = memset_at (memcpy_at nshort k ?b) (k + length ?b) 0x20 (8 - (k + length ?b))"
      unfolding munge_short_name_sjis_def Let_def k_def ..
    moreover have "memcpy_at nshort k ?b = (take k nshort @ ?b) @ drop (k + length ?b) nshort" "length (take k nshort @ ?b) = k + length ?b"
      using k assms(1) by (simp_all add: memcpy_at_def)
    ultimately show ?thesis using k memset_rest[where p = "take k nshort @ ?b" and ns = nshort and x = "0x20"] by simp
  qed
  have t: "munge_short_name_sjis nshort n ! k = 0x7e" "k < 8" using k assms(1) unfolding m by (simp_all add: nth_append)
  have l: "length (munge_short_name_sjis nshort n) = 11" unfolding m using k assms(1) by simp
  have "munge_short_name_sjis nshort n ! 0 = (if k = 0 then 0x7e else nshort ! 0)"
    using t assms(1) unfolding m by (auto simp: nth_append)
  then have f: "field_ok (munge_short_name_sjis nshort n)" using l assms(2,3) by (simp add: field_ok_def)
  have "take 8 (munge_short_name_sjis nshort n) ! k \<in> set (take 8 (munge_short_name_sjis nshort n))" using t l by (intro nth_mem) simp
  then have "0x7e \<in> set (take 8 (munge_short_name_sjis nshort n))" using t by simp
  moreover have "\<forall>d \<in> set (map (take 8) device_names). 0x7e \<notin> set d" by (simp add: device_names_def short_name_of_def)
  ultimately show ?thesis using f unfolding munged_ok_def by blast
qed

text \<open>Japanese names need a long name.\<close>

lemma japanese_utf16: "list_all (\<lambda>u. u \<noteq> 0) us \<Longrightarrow> japanese_loop (utf16_of us @ [0, 0] @ rest) \<longleftrightarrow> (\<exists>u \<in> set us. is_unicode_japanese u)"
proof (induction us)
  case (Cons u us)
  have b: "push_bit 8 (ucast (word_of_nat (unat u div 256) :: u8)) OR ucast (word_of_nat (unat u mod 256) :: u8) = u"
    using unit_at_bytes[of "[]" u "[]" "[]"] by (simp add: unit_at_def or.commute)
  have "u \<noteq> 0" using Cons.prems by simp
  then have "\<not> (word_of_nat (unat u mod 256) = (0::u8) \<and> word_of_nat (unat u div 256) = (0::u8))" using b by auto
  then show ?case using Cons b by auto
qed simp

text \<open>The array \<^verbatim>\<open>nlong\<close> of \<^verbatim>\<open>create_dir_entry\<close>: the name in UTF-16, padded with \<^verbatim>\<open>0xff\<close>.\<close>

definition padded :: "block \<Rightarrow> block" where
  "padded N = N @ replicate (512 - length N) 0xff"

lemma utf8_lendian_stop: "\<not> length dst < dstLimit \<Longrightarrow> utf8_lendian_loop src srcLimit dstLimit srcCount dst = Some (srcCount, dst)"
  by (rule utf8_lendian_end) simp

lemma utf8_to_u_four:
  assumes "f AND 0xf0 = 0xf0" "a AND 0xC0 = 0x80" "b AND 0xC0 = 0x80" "c AND 0xC0 = 0x80"
  shows "utf8_to_u f a b c = None"
proof -
  have "bit f k" if "bit (0xf0::u8) k" for k using that by (metis assms(1) bit_and_iff)
  then have "bit f 4" "bit f 5" "bit f 7" by simp_all
  then have "f AND 0x10 \<noteq> 0" "f AND 0x20 \<noteq> 0" "f AND 0x80 \<noteq> 0"
    using and_0_bit[of f "0x10" 4] and_0_bit[of f "0x20" 5] and_0_bit[of f "0x80" 7] by auto
  then show ?thesis using assms by (simp add: utf8_to_u_def)
qed

lemma utf8_char_len_le: "utf8_char_len c \<le> 4"
  using utf8_char_len_cases[of c] by linarith

lemma ext_loop_good: "set (drop i utf8) \<subseteq> set acceptable \<Longrightarrow> length (drop i utf8) \<le> j \<Longrightarrow> \<not> ext_loop utf8 j i"
proof (induction j arbitrary: i)
  case 0
  then show ?case by (simp add: byte_at_def)
next
  case (Suc j)
  show ?case
  proof (cases "i < length utf8")
    case True
    then have d: "drop i utf8 = byte_at utf8 i # drop (i + 1) utf8" by (rule drop_byte_at)
    have "set (drop (i + 1) utf8) \<subseteq> set acceptable" "length (drop (i + 1) utf8) \<le> j" "byte_at utf8 i \<in> set acceptable"
      using Suc.prems unfolding d by simp_all
    then show ?thesis using Suc.IH[of "i + 1"] by simp
  qed (simp add: byte_at_def)
qed

lemma short_name_back:
  assumes "0 \<notin> set name" "name \<noteq> []" "hd name \<noteq> 0x2e" "enc_utf8_to_unicode name 512 = (len, N)" "\<not> enc_requires_long_name name (padded N)"
  shows "\<exists>nshort. enc_generate_short_name mem name (padded N) (nat len) = (B_OK, nshort, MS_DOS_CONVERSION)
    \<and> enc_msdos_to_utf8 nshort 512 False = (B_OK, name @ [0])"
proof -
  obtain base ext where n: "name = dos_name base ext" "set base \<subseteq> set acceptable" "set ext \<subseteq> set acceptable" "length base \<le> 8" "length ext \<le> 3"
    using short_form[OF assms(1,5)] by blast
  have b: "base \<noteq> []" using assms(2,3) n(1) by (auto simp: dos_name_def split: if_splits)
  note A = dos_name_ascii[OF n(2,3), folded n(1)]
  have "utf8_of (ascii_units name) = name" using A by (intro ascii_utf8) auto
  moreover have "length name \<le> 12" using n by (simp add: dos_name_def)
  ultimately have "enc_utf8_to_unicode name 512 = (int (2 * length name + 2), utf16_of (ascii_units name) @ [0, 0])"
    using utf8_to_unicode_run[OF ascii_units_ok[OF A]] by simp
  then have N: "N = utf16_of (ascii_units name) @ [0, 0]" "nat len = 2 * length name + 2" using assms(4) by simp_all
  then have "padded N = utf16_of (ascii_units (dos_name base ext)) @ [0, 0] @ replicate (512 - length N) 0xff" using n(1) by (simp add: padded_def)
  then show ?thesis using enc_generate_dos[OF n(2-5) b, of mem name] msdos_to_utf8_dos[OF n(2-5) b] N(2) n(1) by simp
qed

subsection \<open>Properties\<close>

text \<open>C21: UTF-8 to UTF-16 and back. For a name of at most 255 characters of one to three bytes that fits into the buffers, \<^verbatim>\<open>utf8_to_unicode\<close> stores its
  UTF-16 with the terminator and returns the number of bytes, and \<^verbatim>\<open>unicode_to_utf8\<close> turns this into the name again.\<close>

theorem utf8_unicode_roundtrip:
  assumes "list_all unit_ok us" "length us \<le> 255" "length (utf8_of us) \<le> 511"
  shows "enc_utf8_to_unicode (utf8_of us) 512 = (int (2 * length us + 2), utf16_of us @ [0, 0])
    \<and> enc_unicode_to_utf8 (utf16_of us @ [0, 0]) (2 * length us + 2) 512 = (B_OK, utf8_of us @ [0])"
proof
  show "enc_utf8_to_unicode (utf8_of us) 512 = (int (2 * length us + 2), utf16_of us @ [0, 0])" by (rule utf8_to_unicode_run[OF assms(1,2)])
  have "list_all (\<lambda>u. \<not> (0xd800 \<le> unat u \<and> unat u \<le> 0xdbff)) (us @ [0])" using unit_ok_no_surrogate[OF assms(1), of 1] by simp
  from unicode_to_utf8_run[OF this, of 512 "[]"] show "enc_unicode_to_utf8 (utf16_of us @ [0, 0]) (2 * length us + 2) 512 = (B_OK, utf8_of us @ [0])"
    using assms(3) by (simp add: utf8_bytes_def)
qed

text \<open>C40: the limits of \<^verbatim>\<open>utf8_to_unicode\<close>. A character of four bytes makes it fail with \<^verbatim>\<open>EINVAL\<close>. A name
  of more than 255 characters is cut after 256 characters, without a terminator and without an error.\<close>

theorem utf8_to_unicode_limits:
  assumes "list_all unit_ok us"
  shows "(length us \<le> 255 \<and> f AND 0xf0 = 0xf0 \<and> a AND 0xC0 = 0x80 \<and> b AND 0xC0 = 0x80 \<and> c AND 0xC0 = 0x80
      \<longrightarrow> enc_utf8_to_unicode (utf8_of us @ [f, a, b, c] @ rest) 512 = (EINVAL, []))
    \<and> (255 < length us \<longrightarrow> enc_utf8_to_unicode (utf8_of us) 512 = (512, utf16_of (take 256 us)))"
proof (intro conjI impI)
  assume h: "length us \<le> 255 \<and> f AND 0xf0 = 0xf0 \<and> a AND 0xC0 = 0x80 \<and> b AND 0xC0 = 0x80 \<and> c AND 0xC0 = 0x80"
  let ?r = "[f, a, b, c] @ rest @ [0]"
  have "utf8_lendian_loop (utf8_of us @ ?r) (length (utf8_of us @ ?r)) 511 0 []
      = utf8_lendian_loop (utf8_of us @ ?r) (length (utf8_of us @ ?r)) 511 (length (utf8_of us)) (utf16_of us)"
    using utf8_lendian_utf8[of "[]" us 511 "[]" ?r] assms h by simp
  also have "\<dots> = None"
  proof -
    have "utf8_to_u_at (utf8_of us @ ?r) (length (utf8_of us)) = None"
      unfolding utf8_to_u_at_def byte_at_append by (simp add: numeral_2_eq_2 numeral_3_eq_3 utf8_to_u_four[OF h[THEN conjunct2, THEN conjunct1]] h)
    then show ?thesis using h utf8_char_len_le[of f] by (subst utf8_lendian_loop.simps) (simp add: byte_at_append(2))
  qed
  finally show "enc_utf8_to_unicode (utf8_of us @ [f, a, b, c] @ rest) 512 = (EINVAL, [])"
    by (simp add: enc_utf8_to_unicode_def utf8_to_lendian_unicode_def B_BAD_VALUE_def B_GENERAL_ERROR_BASE_def B_OK_def)
next
  assume h: "255 < length us"
  let ?us = "take 256 us"
  have us: "utf8_of us = utf8_of ?us @ utf8_of (drop 256 us)" by (simp flip: utf_simps(4))
  have ok: "list_all unit_ok (take 255 us)" "\<not> (0xd800 \<le> unat (us ! 255) \<and> unat (us ! 255) \<le> 0xdbff)"
    using assms h by (auto simp: list_all_iff unit_ok_def dest: in_set_takeD)
  have t: "?us = take 255 us @ [us ! 255]" using h take_Suc_conv_app_nth[of 255 us] by simp
  let ?p = "utf8_of (take 255 us)" and ?r = "utf8_of (drop 256 us) @ [0]"
  have e: "utf8_of us @ [0] = ?p @ utf8_of [us ! 255] @ ?r" unfolding us t utf_simps(4) append.assoc ..
  have "utf8_lendian_loop (utf8_of us @ [0]) (length (utf8_of us @ [0])) 511 0 []
      = utf8_lendian_loop (utf8_of us @ [0]) (length (utf8_of us @ [0])) 511 (length ?p) (utf16_of (take 255 us))"
    unfolding e using utf8_lendian_utf8[of "[]" "take 255 us" 511 "[]" "utf8_of [us ! 255] @ ?r"] ok h by simp
  also have "\<dots> = utf8_lendian_loop (utf8_of us @ [0]) (length (utf8_of us @ [0])) 511 (length (?p @ utf8_of [us ! 255])) (utf16_of ?us)"
    unfolding e t utf_simps(6) using utf8_lendian_step[of "utf16_of (take 255 us)" 511 "us ! 255" ?p ?r] ok(2) h by simp
  also have "\<dots> = Some (length (?p @ utf8_of [us ! 255]), utf16_of ?us)" using h by (intro utf8_lendian_stop) simp
  finally have r: "utf8_lendian_loop (utf8_of us @ [0]) (length (utf8_of us @ [0])) 511 0 [] = Some (length (?p @ utf8_of [us ! 255]), utf16_of ?us)" .
  have l: "length (utf16_of ?us) = 512" using h by simp
  then have "utf16_of ?us \<noteq> []" by (metis list.size(3) zero_neq_numeral)
  then show "enc_utf8_to_unicode (utf8_of us) 512 = (512, utf16_of ?us)"
    using r l arg_cong[OF e, of length] by (simp add: enc_utf8_to_unicode_def utf8_to_lendian_unicode_def B_OK_def)
qed

text \<open>C22: the short names of \<^verbatim>\<open>generate_short_name\<close> for the US code page and what \<^verbatim>\<open>munge_short_name1\<close> makes of them are legal: 11
  characters, each acceptable, an upper case letter of the code page or a blank, and not all blank. A munged name has a tilde before the extension and keeps the extension, and
  different numbers below 10 give different names.\<close>

theorem short_names_legal:
  assumes "enc_generate_short_name mem name w n = (B_OK, nshort, MS_DOS_CONVERSION)" "i < 10" "j < 10"
    and "enc_munge_short_name1 nshort i MS_DOS_CONVERSION = (e, ni)" "enc_munge_short_name1 nshort j MS_DOS_CONVERSION = (e', nj)"
  shows "length nshort = 11 \<and> set nshort \<subseteq> {0x20} \<union> set acceptable \<union> set capitalize_to \<and> nshort \<noteq> replicate 11 0x20
    \<and> length ni = 11 \<and> set ni \<subseteq> {0x20} \<union> set acceptable \<union> set capitalize_to \<and> 0x7e \<in> set (take 8 ni) \<and> drop 8 ni = drop 8 nshort
    \<and> e = B_OK \<and> (ni = nj \<longleftrightarrow> i = j)"
proof -
  note S = generate_short_ok[OF assms(1)]
  have m: "ni = munge_short_name_english nshort i" "nj = munge_short_name_english nshort j" "e = B_OK"
    using assms(4,5) by (auto simp: enc_munge_short_name1_def)
  have i: "i < 100000" using assms(2) by simp
  note M = munge_english[OF S(1) i] and E = munge_english_small[OF S(1) assms(2)]
  have "drop 8 ni = drop 8 nshort"
  proof -
    define p where "p = take (blank_back nshort 5 + 1) nshort @ [0x7e, word_of_nat (0x30 + i)]"
    have l: "length p = blank_back nshort 5 + 3" using E(2) S(1) by (simp add: p_def short_ok_def)
    have "ni = p @ drop (blank_back nshort 5 + 3) nshort" unfolding m E(1) p_def by simp
    then show ?thesis using l E(2) by simp
  qed
  moreover have "ni = nj \<longleftrightarrow> i = j" using munge_distinct[OF S(1) assms(2,3)] m by auto
  ultimately show ?thesis using S(1,2) M(4) munge_tilde[OF S(1) i] m by (auto simp: short_ok_def short_chars_def)
qed

text \<open>C23: a name that \<^verbatim>\<open>requires_long_name\<close> finds short enough is the one that the short entry alone gives back, unless it starts with a dot: the short name
  that \<^verbatim>\<open>generate_short_name\<close> makes is converted to the name by \<^verbatim>\<open>msdos_to_utf8\<close>.\<close>

theorem short_name_roundtrip:
  assumes "0 \<notin> set name" "name \<noteq> []" "hd name \<noteq> 0x2e" "enc_utf8_to_unicode name 512 = (len, N)" "\<not> enc_requires_long_name name (padded N)"
  shows "\<exists>nshort. enc_generate_short_name mem name (padded N) (nat len) = (B_OK, nshort, MS_DOS_CONVERSION)
    \<and> enc_msdos_to_utf8 nshort 512 False = (B_OK, name @ [0])"
  by (rule short_name_back[OF assms])

text \<open>The exception. A dot followed by one to three acceptable characters needs no long name, but the short name that is
  generated for it is that of the characters behind the dot: the file is created with another name.\<close>

theorem leading_dot_lost:
  assumes "set ext \<subseteq> set acceptable" "ext \<noteq> []" "length ext \<le> 3"
  defines "N \<equiv> snd (enc_utf8_to_unicode (0x2e # ext) 512)"
  shows "\<not> enc_requires_long_name (0x2e # ext) (padded N)
    \<and> enc_generate_short_name mem (0x2e # ext) (padded N) (length N) = (B_OK, dos_field ext [], MS_DOS_CONVERSION)
    \<and> enc_msdos_to_utf8 (dos_field ext []) 512 False = (B_OK, ext @ [0])"
proof -
  let ?n = "0x2e # ext"
  have A: "\<forall>b \<in> set ?n. unat b < 128 \<and> b \<noteq> 0" using dos_name_ascii[of "[]" ext] assms(1,2) by (simp add: dos_name_def)
  have "utf8_of (ascii_units ?n) = ?n" using A by (intro ascii_utf8) auto
  then have "enc_utf8_to_unicode ?n 512 = (int (2 * length ?n + 2), utf16_of (ascii_units ?n) @ [0, 0])"
    using utf8_to_unicode_run[OF ascii_units_ok[OF A]] assms(3) by simp
  then have N: "N = utf16_of (ascii_units ?n @ [0])" by (simp add: N_def)
  have p: "padded N = utf16_of (ascii_units ?n @ [0]) @ replicate (512 - length N) 0xff" by (simp add: padded_def N)
  have j: "\<not> (\<exists>u \<in> set (ascii_units ?n @ [0]). is_unicode_japanese u)"
  proof -
    have "unat (ucast b :: u16) < 0x3000" if "b \<in> set ?n" for b using A that ascii_unit[of b] by force
    then show ?thesis using ascii_not_japanese by (auto simp: ascii_units_def)
  qed
  have nz: "list_all (\<lambda>u. u \<noteq> 0) (ascii_units ?n)" using ascii_units_ok[OF A] by (auto simp: list_all_iff unit_ok_def)
  have "\<not> japanese_loop (padded N)" unfolding p using japanese_utf16[OF nz] j by simp
  moreover have "base_loop ?n 0 = Inr 0" by (subst base_loop.simps) simp
  moreover have "byte_at ?n 1 \<noteq> 0" using assms(1,2) acceptable_less[of "hd ext"] by (cases ext) auto
  moreover have "\<not> ext_loop ?n 3 1" using ext_loop_good[of 1 ?n 3] assms(1,3) by simp
  ultimately have r: "\<not> enc_requires_long_name ?n (padded N)" by (simp add: enc_requires_long_name_def)
  have d: "dos_name ext [] = ext" "length ext \<le> 8" using assms(3) by (simp_all add: dos_name_def)
  have f: "memcpy_at (replicate 11 0x20) 0 ext = dos_field ext []"
    using dos_field_memcpy[of ext "[]"] d(2) by (simp add: memcpy_at_def[of _ 8])
  have "short_base (ascii_units ?n @ [0]) 0 (replicate 11 0x20) = (Some B_OK, dos_field ext [])"
    using short_base_acceptable[OF assms(1), of 0 "replicate 11 0x20" "[0]"] f assms(3) by simp
  then have g: "generate_short_name_msdos (ascii_units ?n @ [0]) (replicate 11 0x20) = (B_OK, dos_field ext [])"
    by (simp add: generate_short_name_msdos_def)
  have u: "name_units (padded N) (length N) = ascii_units ?n @ [0]" "name_units (padded N) (length N + 1) = ascii_units ?n @ [0]"
    using name_units_utf16[of "ascii_units ?n @ [0]" "replicate (512 - length N) 0xff"] unfolding p by (simp_all add: N name_units_def)
  have "enc_generate_short_name mem ?n (padded N) (length N) = (B_OK, dos_field ext [], MS_DOS_CONVERSION)"
    unfolding enc_generate_short_name_def u Let_def using g j dos_field_nonblank[OF assms(1,2), of "[]"] by simp
  moreover have "enc_msdos_to_utf8 (dos_field ext []) 512 False = (B_OK, ext @ [0])"
    using msdos_to_utf8_dos[OF assms(1) _ d(2) _ assms(2), of "[]"] d(1) by simp
  ultimately show ?thesis using r by blast
qed

subsection \<open>Witnesses\<close>

theorem utf8_unicode_roundtrip_witness:
  "enc_utf8_to_unicode [0x41, 0xc3, 0xa9, 0xe2, 0x82, 0xac] 512 = (8, [0x41, 0, 0xe9, 0, 0xac, 0x20, 0, 0])
    \<and> enc_unicode_to_utf8 [0x41, 0, 0xe9, 0, 0xac, 0x20, 0, 0] 8 512 = (B_OK, [0x41, 0xc3, 0xa9, 0xe2, 0x82, 0xac, 0])"
  using utf8_unicode_roundtrip[of "[0x41, 0xe9, 0x20ac]"] by (simp add: unit_ok_def utf8_bytes_def)

theorem utf8_to_unicode_limits_witness:
  "enc_utf8_to_unicode [0x41, 0xf0, 0x9f, 0x98, 0x80] 512 = (EINVAL, [])
    \<and> enc_utf8_to_unicode (utf8_of (replicate 300 0x41)) 512 = (512, utf16_of (replicate 256 0x41))"
  using utf8_to_unicode_limits[of "[0x41]" "0xf0" "0x9f" "0x98" "0x80" "[]"] utf8_to_unicode_limits[of "replicate 300 0x41"]
  by (simp add: unit_ok_def utf8_bytes_def list_all_iff take_replicate)

theorem short_names_legal_witness:
  "enc_generate_short_name True [0x41, 0x42] (utf16_of [0x41, 0x42] @ [0, 0] @ []) 6 = (B_OK, dos_field [0x41, 0x42] [], MS_DOS_CONVERSION)
    \<and> enc_munge_short_name1 (dos_field [0x41, 0x42] []) 1 MS_DOS_CONVERSION \<noteq> enc_munge_short_name1 (dos_field [0x41, 0x42] []) 2 MS_DOS_CONVERSION"
proof -
  have g: "enc_generate_short_name True [0x41, 0x42] (utf16_of [0x41, 0x42] @ [0, 0] @ []) 6 = (B_OK, dos_field [0x41, 0x42] [], MS_DOS_CONVERSION)"
    using enc_generate_dos[of "[0x41, 0x42]" "[]" True "[0x41, 0x42]" "[]"] by (simp add: dos_name_def acceptable_def)
  obtain e1 n1 e2 n2 where m: "enc_munge_short_name1 (dos_field [0x41, 0x42] []) 1 MS_DOS_CONVERSION = (e1, n1)"
    "enc_munge_short_name1 (dos_field [0x41, 0x42] []) 2 MS_DOS_CONVERSION = (e2, n2)" by fastforce
  have "n1 \<noteq> n2" using short_names_legal[OF g _ _ m] by simp
  then show ?thesis using g m by simp
qed

lemma ab_c_units: "enc_utf8_to_unicode [0x41, 0x42, 0x2e, 0x43] 512 = (10, [0x41, 0, 0x42, 0, 0x2e, 0, 0x43, 0, 0, 0])"
  using utf8_to_unicode_run[of "[0x41, 0x42, 0x2e, 0x43]"] by (simp add: unit_ok_def utf8_bytes_def)

theorem short_name_roundtrip_witness:
  "\<exists>nshort. enc_generate_short_name True [0x41, 0x42, 0x2e, 0x43] (padded [0x41, 0, 0x42, 0, 0x2e, 0, 0x43, 0, 0, 0]) 10 = (B_OK, nshort, MS_DOS_CONVERSION)
    \<and> enc_msdos_to_utf8 nshort 512 False = (B_OK, [0x41, 0x42, 0x2e, 0x43, 0])"
proof -
  have "\<not> enc_requires_long_name [0x41, 0x42, 0x2e, 0x43] (padded [0x41, 0, 0x42, 0, 0x2e, 0, 0x43, 0, 0, 0])"
    by (simp add: enc_requires_long_name_def padded_def is_unicode_japanese_def base_loop.simps numeral_3_eq_3 acceptable_def)
  from short_name_roundtrip[OF _ _ _ ab_c_units this, of True] show ?thesis by simp
qed

theorem leading_dot_lost_witness:
  "\<not> enc_requires_long_name [0x2e, 0x41] (padded [0x2e, 0, 0x41, 0, 0, 0]) \<and> enc_msdos_to_utf8 (dos_field [0x41] []) 512 False = (B_OK, [0x41, 0])"
proof -
  have "enc_utf8_to_unicode [0x2e, 0x41] 512 = (6, [0x2e, 0, 0x41, 0, 0, 0])"
    using utf8_to_unicode_run[of "[0x2e, 0x41]"] by (simp add: unit_ok_def utf8_bytes_def)
  then show ?thesis using leading_dot_lost[of "[0x41]"] by (simp add: acceptable_def)
qed

end
