(* ===== verification/Create_Laws.thy ===== *)
theory Create_Laws
  imports Encoding_Laws
begin

text \<open>
  Creating a file by its name: \<^verbatim>\<open>create_dir_entry\<close> of \<^verbatim>\<open>fat/dir.c\<close> composes the search for the name, the conversions of
  \<^verbatim>\<open>encodings.cpp\<close>, the search for a short name that is not in use and \<^verbatim>\<open>_create_dir_entry_\<close>. What it relies on in the
  conversions is the locale \<open>name_conversions\<close>, which is interpreted on the model of \<^verbatim>\<open>encodings.cpp\<close>.
\<close>

subsection \<open>Short names in use\<close>

text \<open>The short names of the entries before the end of a directory.\<close>

definition short_names :: "block list \<Rightarrow> block list" where
  "short_names es = map (take 11) (filter (\<lambda>b. b ! 0xb \<noteq> 0xf) (takeWhile (\<lambda>b. b ! 0 \<noteq> 0) es))"

definition taken :: "nspace \<Rightarrow> nat list \<Rightarrow> block \<Rightarrow> bool" where
  "taken vol cs nshort \<longleftrightarrow> take 11 nshort \<in> set (short_names (dir_entries vol cs))"

lemma find_short_loop_spec:
  assumes "dir_ok vol cluster cs" "iter_at vol cluster cs it i" "node_entries vol cs - i < k"
  shows "find_short_loop k vol it name (if i < node_entries vol cs then Some (node_ptr vol cs i) else None)
    = (if take 11 name \<in> set (short_names (drop i (dir_entries vol cs))) then B_OK else ENOENT, vol)"
  using assms(2,3)
proof (induction k arbitrary: it i)
  case (Suc k)
  show ?case
  proof (cases "i < node_entries vol cs")
    case False
    then show ?thesis by (simp add: short_names_def)
  next
    case True
    let ?b = "dir_entry vol cs i"
    have at: "diri_at vol cluster cs it i" using Suc.prems(1) True by (simp add: iter_at_def)
    have dat: "entry_data vol (node_ptr vol cs i) = ?b" by (simp add: dir_entry_def)
    obtain it' where nxt: "diri_next_entry vol it = (if i + 1 < node_entries vol cs then Some (node_ptr vol cs (i + 1)) else None, it')"
      and at': "iter_at vol cluster cs it' (i + 1)" using iter_at_next[OF assms(1) at] by blast
    have fuel: "node_entries vol cs - (i + 1) < k" using Suc.prems(2) True by linarith
    note IH = Suc.IH[OF at' fuel]
    show ?thesis
      using True IH nxt dat drop_dir_entries[OF True] by (auto simp: Let_def short_names_def simp del: One_nat_def)
  qed
qed simp

lemma find_short_name_spec:
  assumes "dir_ok vol (vn_cluster dir) cs" "0 < node_entries vol cs"
  shows "find_short_name vol dir name = (if taken vol cs name then B_OK else ENOENT, vol)"
proof -
  obtain it where it: "diri_init vol (vn_cluster dir) 0 new_diri = (Some (node_ptr vol cs 0), it)" "iter_at vol (vn_cluster dir) cs it 0"
    using diri_init_node(1)[OF assms(1,2), of new_diri] assms(2) by (auto simp: iter_at_def)
  have "node_entries vol cs - 0 < dir_fuel vol" using node_entries_fuel[OF assms(1)] by simp
  from find_short_loop_spec[OF assms(1) it(2) this, of name] show ?thesis
    using it(1) assms(2) by (simp add: find_short_name_def taken_def)
qed

lemma B_OK_ENOENT: "B_OK \<noteq> ENOENT" "ENOENT \<noteq> B_OK"
  by (simp_all add: errno_defs)

lemma munge1_loop_spec:
  assumes "dir_ok vol (vn_cluster dir) cs" "0 < node_entries vol cs" "i < 10"
  shows "\<exists>j. i \<le> j \<and> j < 10 \<and> munge1_loop env vol dir tshort encoding i
      = (if taken vol cs (munge_short_name1 env tshort (int j) encoding) then B_OK else ENOENT, munge_short_name1 env tshort (int j) encoding, vol)
    \<and> (taken vol cs (munge_short_name1 env tshort (int j) encoding) \<longrightarrow> (\<forall>m. i \<le> m \<and> m < 10 \<longrightarrow> taken vol cs (munge_short_name1 env tshort (int m) encoding)))"
  using assms(3)
proof (induction "10 - i" arbitrary: i)
  case (Suc d)
  note F = find_short_name_spec[OF assms(1,2)]
  let ?m = "\<lambda>j. munge_short_name1 env tshort (int j) encoding"
  show ?case
  proof (cases "taken vol cs (?m i) \<and> i + 1 < 10")
    case True
    then have e: "munge1_loop env vol dir tshort encoding i = munge1_loop env vol dir tshort encoding (i + 1)"
      by (subst munge1_loop.simps) (simp add: F Let_def)
    have d1: "d = 10 - (i + 1)" using Suc.hyps(2) by simp
    have split: "m = i \<or> i + 1 \<le> m" if "i \<le> m" for m using that by linarith
    obtain j where j: "i + 1 \<le> j" "j < 10" "munge1_loop env vol dir tshort encoding (i + 1) = (if taken vol cs (?m j) then B_OK else ENOENT, ?m j, vol)"
      "taken vol cs (?m j) \<longrightarrow> (\<forall>m. i + 1 \<le> m \<and> m < 10 \<longrightarrow> taken vol cs (?m m))" using Suc.hyps(1)[OF d1] True by blast
    have "taken vol cs (?m j) \<longrightarrow> (\<forall>m. i \<le> m \<and> m < 10 \<longrightarrow> taken vol cs (?m m))"
    proof (intro impI allI)
      fix m assume m: "taken vol cs (?m j)" "i \<le> m \<and> m < 10"
      show "taken vol cs (?m m)" using True m j(4) split[of m] by (cases "m = i") simp_all
    qed
    moreover have "i \<le> j" using j(1) by simp
    ultimately show ?thesis using j(2) trans[OF e j(3)] by blast
  next
    case False
    then have "munge1_loop env vol dir tshort encoding i = (if taken vol cs (?m i) then B_OK else ENOENT, ?m i, vol)"
      using B_OK_ENOENT by (subst munge1_loop.simps) (auto simp: F Let_def)
    moreover have "taken vol cs (?m i) \<longrightarrow> (\<forall>m. i \<le> m \<and> m < 10 \<longrightarrow> m = i)" using False by auto
    ultimately show ?thesis using Suc.prems by (intro exI[of _ i]) auto
  qed
qed simp

lemma munge2_loop_spec:
  assumes "dir_ok vol (vn_cluster dir) cs" "0 < node_entries vol cs" "\<not> taken vol cs (munge_short_name2 env (k + d) tshort encoding)"
  shows "\<exists>j. \<not> taken vol cs (munge_short_name2 env j tshort encoding)
    \<and> munge2_loop env vol dir tshort encoding k = Some (ENOENT, munge_short_name2 env j tshort encoding, vol)"
  using assms(3)
proof (induction d arbitrary: k)
  case 0
  then show ?case
    by (intro exI[of _ k]) (subst munge2_loop.simps, simp add: find_short_name_spec[OF assms(1,2)] Let_def B_OK_ENOENT)
next
  case (Suc d)
  show ?case
  proof (cases "taken vol cs (munge_short_name2 env k tshort encoding)")
    case True
    then have "munge2_loop env vol dir tshort encoding k = munge2_loop env vol dir tshort encoding (k + 1)"
      by (subst munge2_loop.simps) (simp add: find_short_name_spec[OF assms(1,2)] Let_def)
    then show ?thesis using Suc.IH[of "k + 1"] Suc.prems by simp
  next
    case False
    then show ?thesis
      by (intro exI[of _ k]) (subst munge2_loop.simps, simp add: find_short_name_spec[OF assms(1,2)] Let_def B_OK_ENOENT)
  qed
qed

text \<open>A short name that is not in use, and where it comes from.\<close>

definition short_candidate :: "env \<Rightarrow> name \<Rightarrow> block \<Rightarrow> int \<Rightarrow> block \<Rightarrow> bool" where
  "short_candidate env name tshort encoding nshort \<longleftrightarrow>
     \<not> requires_munged_short_name env name tshort encoding \<and> nshort = tshort
     \<or> (\<exists>j. 1 \<le> j \<and> j < 10 \<and> nshort = munge_short_name1 env tshort (int j) encoding)
     \<or> (\<exists>k. nshort = munge_short_name2 env k tshort encoding)"

lemma unique_short_name_spec:
  assumes "dir_ok vol (vn_cluster dir) cs" "0 < node_entries vol cs"
    and "short_candidate env name tshort encoding free" "\<not> taken vol cs free"
  shows "\<exists>nshort. unique_short_name env vol dir name tshort encoding = Some (ENOENT, nshort, vol)
    \<and> short_candidate env name tshort encoding nshort \<and> \<not> taken vol cs nshort"
proof -
  note F = find_short_name_spec[OF assms(1,2)]
  let ?m = "\<lambda>j. munge_short_name1 env tshort (int j) encoding"
  let ?r = "requires_munged_short_name env name tshort encoding"
  show ?thesis
  proof (cases "\<not> ?r \<and> \<not> taken vol cs tshort")
    case True
    then show ?thesis using B_OK_ENOENT by (auto simp: unique_short_name_def F Let_def short_candidate_def)
  next
    case False
    then have start: "(if ?r then (B_OK, vol) else find_short_name vol dir tshort) = (B_OK, vol)" by (auto simp: F)
    obtain j where j: "1 \<le> j" "j < 10" "munge1_loop env vol dir tshort encoding 1 = (if taken vol cs (?m j) then B_OK else ENOENT, ?m j, vol)"
      "taken vol cs (?m j) \<longrightarrow> (\<forall>m. 1 \<le> m \<and> m < 10 \<longrightarrow> taken vol cs (?m m))" using munge1_loop_spec[OF assms(1,2), of 1 env tshort encoding] by auto
    show ?thesis
    proof (cases "taken vol cs (?m j)")
      case True
      then obtain k where "\<not> taken vol cs (munge_short_name2 env k tshort encoding)"
        using assms(3,4) j(4) False unfolding short_candidate_def by blast
      then show ?thesis
        using munge2_loop_spec[OF assms(1,2), of env 0 k tshort encoding] j(3) start True
        by (auto simp: unique_short_name_def Let_def short_candidate_def)
    next
      case False
      then have "unique_short_name env vol dir name tshort encoding = Some (ENOENT, ?m j, vol)"
        using j(3) start B_OK_ENOENT by (simp add: unique_short_name_def Let_def)
      then show ?thesis using False j(1,2) by (auto simp: short_candidate_def)
    qed
  qed
qed

subsection \<open>What creating a file relies on\<close>

text \<open>\<open>good name N\<close> says that \<open>name\<close> is a name that the conversions handle, with the UTF-16 form \<open>N\<close>, which includes the terminator.
  Then the conversion to UTF-16 gives \<open>N\<close>, a search reads the name from the entries of a long name \<open>N\<close>, and a short
  name that is generated fits into an entry, also when it is munged, and stands for the name if no long name is required.\<close>

locale name_conversions =
  fixes env :: env and good :: "name \<Rightarrow> block \<Rightarrow> bool"
  assumes unicode: "good name N \<Longrightarrow> utf8_to_unicode env name 512 = (int (length N), N)"
    and nonempty: "good name N \<Longrightarrow> N \<noteq> []"
    and long: "good name N \<Longrightarrow> long_name env name N"
    and short: "good name N \<Longrightarrow> generate_short_name env name (padded N) (length N) = (0, nshort, encoding) \<Longrightarrow> field_ok nshort"
    and munge1: "good name N \<Longrightarrow> generate_short_name env name (padded N) (length N) = (0, nshort, encoding)
      \<Longrightarrow> 1 \<le> j \<Longrightarrow> j < 10 \<Longrightarrow> munged_ok (munge_short_name1 env nshort (int j) encoding)"
    and munge2: "good name N \<Longrightarrow> generate_short_name env name (padded N) (length N) = (0, nshort, encoding)
      \<Longrightarrow> munged_ok (munge_short_name2 env k nshort encoding)"
    and alone: "good name N \<Longrightarrow> generate_short_name env name (padded N) (length N) = (0, nshort, encoding)
      \<Longrightarrow> \<not> requires_long_name env name (padded N) \<Longrightarrow> msdos_to_utf8 env nshort 512 False = name"
begin

lemma names_ok_long:
  assumes "good name N" "generate_short_name env name (padded N) (length N) = (0, tshort, encoding)"
    and "take 8 tshort \<notin> set (map (take 8) device_names)" "short_candidate env name tshort encoding nshort"
  shows "names_ok env name nshort N"
proof -
  have "munged_ok nshort"
    using assms(3,4) short[OF assms(1,2)] munge1[OF assms(1,2)] munge2[OF assms(1,2)] unfolding short_candidate_def munged_ok_def by blast
  then show ?thesis using long[OF assms(1)] nonempty[OF assms(1)] by (simp add: names_ok_def munged_ok_def field_ok_def)
qed

lemma names_ok_short:
  assumes "good name N" "generate_short_name env name (padded N) (length N) = (0, tshort, encoding)"
    and "take 8 tshort \<notin> set (map (take 8) device_names)" "\<not> requires_long_name env name (padded N)"
  shows "names_ok env name tshort []"
  using short[OF assms(1,2)] alone[OF assms(1,2,4)] assms(3) by (simp add: names_ok_def field_ok_def)

end

text \<open>Without a long name, the array of the long name is not used.\<close>

lemma blit_no_long: "blit_entries env vol dir info nshort nlong ns 1 l = blit_entries env vol dir info nshort nlong' ns 1 l"
  unfolding blit_entries_def diff_self_eq_0 create_lfns.simps(1) ..

lemma do_create_no_long: "do_create_dir_entry env vol dir info nshort nlong 0 = do_create_dir_entry env vol dir info nshort nlong' 0"
proof -
  have r: "u32 (0 + 24) div 26 + 1 = 1" by simp
  show ?thesis unfolding do_create_dir_entry_def Let_def r blit_no_long[where nlong = nlong and nlong' = nlong'] ..
qed

lemma legal_not_dot: "is_filename_legal name \<Longrightarrow> name \<noteq> dot \<and> name \<noteq> dotdot"
  by (auto simp: is_filename_legal_def dot_def dotdot_def)

lemma same_disk_has_files: "same_disk vol vol' \<Longrightarrow> dir_has_files env c cs vol fs \<Longrightarrow> dir_has_files env c cs vol' fs"
  using same_disk_parse(1,6) same_disk_listing geometry_ext[OF same_disk_fields(5)]
  by (auto simp: dir_has_files_def dir_state_def)

text \<open>The fields of the new entry.\<close>

definition node_fields :: "vnode \<Rightarrow> entry_fields" where
  "node_fields node = \<lparr>ei_mode = vn_mode node, ei_cluster = vn_cluster node, ei_size = u32_of_int (vn_st_size node), ei_time = vn_st_time node\<rparr>"

lemma find_nocase_none:
  assumes "dir_has_files env (vn_cluster dir) cs vol fs" "is_filename_legal name" "\<forall>f \<in> set fs. \<not> is_label vol dir f \<longrightarrow> \<not> strcasecmp0 (snd f) name"
    and "vnids_ok (node_entries vol cs + 1) (vol_vcache vol)" "env_ok env" "CLUSTER_OF_DIR_CLUSTER_VNID (vn_vnid dir) < 2 ^ 28"
  shows "\<exists>vol'. findfile_nocase env vol dir name = (Inl ENOENT, False, vol') \<and> ids_grow 0 vol vol'"
proof -
  have F: "dir_ok vol (vn_cluster dir) cs" "0 < node_entries vol cs" "listing env vol (dir_entries vol cs) 0 = Some fs"
    using assms(1) by (simp_all add: dir_has_files_def dir_state_def)
  have "dir_files env vol dir cs = Some (filter (\<lambda>f. \<not> is_label vol dir f) fs)" by (simp add: dir_files_def F(3))
  note R = findfile_files_ids[where m = 0, unfolded add_0_right, OF F(1,2) this assms(4-6), of name False False, unfolded find_in_found]
  have "List.find (\<lambda>f. strcasecmp0 (snd f) name) (filter (\<lambda>f. \<not> is_label vol dir f) fs) = None" using assms(3) by (auto simp: find_None_iff)
  then show ?thesis using R legal_not_dot[OF assms(2)] by (auto simp: findfile_nocase_def found_vnid_def split: option.splits)
qed

context name_conversions
begin

lemma create_inserts:
  fixes N :: block
  assumes "dir_has_files env (vn_cluster dir) cs vol fs" "vn_st_size dir = int (node_entries vol cs * 0x20)"
    and "is_filename_legal name" "\<forall>f \<in> set fs. \<not> is_label vol dir f \<longrightarrow> \<not> strcasecmp0 (snd f) name"
    and "vnids_ok (node_entries vol cs + 1) (vol_vcache vol)" "env_ok env" "CLUSTER_OF_DIR_CLUSTER_VNID (vn_vnid dir) < 2 ^ 28"
    and "good name N" "generate_short_name env name (padded N) (length N) = (0, tshort, encoding)"
    and "take 8 tshort \<notin> set (map (take 8) device_names)" "fields_ok vol (node_fields node)"
    and "requires_long_name env name (padded N) \<Longrightarrow> \<exists>free. short_candidate env name tshort encoding free \<and> \<not> taken vol cs free"
  defines "k \<equiv> (if requires_long_name env name (padded N) then (length N + 24) div 26 else 0)"
  assumes "place_in (k + 1) 0 fs = (ns, at_end)" "ns + k < node_entries vol cs" "ns \<noteq> 0xffff"
  shows "\<exists>vol' fs1 fs2. create_dir_entry env vol dir node name = (0, ns, ns + k, vol', dir) \<and> fs = fs1 @ fs2
    \<and> dir_has_files env (vn_cluster dir) cs vol' (fs1 @ (new_info env (node_fields node) ns (ns + k), name) # fs2)
    \<and> (\<exists>vol1. ids_grow 0 vol vol1 \<and> vol' = vol1\<lparr>fBlockCache := fBlockCache vol'\<rparr>)"
proof -
  obtain vol1 where f: "findfile_nocase env vol dir name = (Inl ENOENT, False, vol1)" and ig: "ids_grow 0 vol vol1"
    using find_nocase_none[OF assms(1,3-7)] by blast
  then have sd: "same_disk vol vol1" by (simp add: ids_grow_def)
  have H: "dir_has_files env (vn_cluster dir) cs vol1 fs" by (rule same_disk_has_files[OF sd assms(1)])
  then have F: "dir_ok vol1 (vn_cluster dir) cs" "0 < node_entries vol1 cs" "node_entries vol1 cs < 2 ^ 26" "dir_state env vol1 cs fs"
    by (simp_all add: dir_has_files_def)
  note sf = same_disk_fields[OF sd]
  have ne: "node_entries vol1 = node_entries vol" by (rule geometry_ext(9)[OF sf(5)])
  have fo: "fields_ok vol1 (node_fields node)" using assms(11) by (simp add: fields_ok_def sf(7))
  have tk: "taken vol1 cs = taken vol cs" by (simp add: fun_eq_iff taken_def same_disk_parse(1)[OF sd])
  have lN: "0 < length N" using nonempty[OF assms(8)] by simp
  let ?w = "requires_long_name env name (padded N)"
  define M where "M = (if ?w then N else [])"
  have k: "(length M + 24) div 26 = k" by (simp add: M_def k_def)
  obtain nshort where nm: "names_ok env name nshort M"
    and c: "create_dir_entry env vol dir node name = do_create_dir_entry env vol1 dir (node_fields node) nshort (M @ replicate (512 - length M) 0xff) (length M)"
  proof (cases ?w)
    case True
    then obtain nshort where u: "unique_short_name env vol1 dir name tshort encoding = Some (ENOENT, nshort, vol1)"
      "short_candidate env name tshort encoding nshort" using unique_short_name_spec[OF F(1,2)] assms(12) tk by metis
    have "create_dir_entry env vol dir node name = do_create_dir_entry env vol1 dir (node_fields node) nshort (padded N) (length N)"
      unfolding create_dir_entry_def f unicode[OF assms(8)] using assms(3,9) lN True u(1)
      by (simp add: node_fields_def flip: padded_def)
    then show thesis using that[of nshort] names_ok_long[OF assms(8-10) u(2)] True by (simp add: M_def padded_def)
  next
    case False
    have "create_dir_entry env vol dir node name = do_create_dir_entry env vol1 dir (node_fields node) tshort (padded N) 0"
      unfolding create_dir_entry_def f unicode[OF assms(8)] using assms(3,9) lN False
      by (simp add: node_fields_def flip: padded_def)
    then show thesis
      using that[of tshort] names_ok_short[OF assms(8-10) False] False do_create_no_long[where nlong = "padded N" and nlong' = "replicate 512 0xff"]
      by (simp add: M_def)
  qed
  have st: "vn_st_size dir = int (node_entries vol1 cs * 0x20)" "place_in ((length M + 24) div 26 + 1) 0 fs = (ns, at_end)"
    "ns + (length M + 24) div 26 < node_entries vol1 cs" using assms(2,14,15) k ne by simp_all
  obtain vol' fs1 fs2 where r: "do_create_dir_entry env vol1 dir (node_fields node) nshort (M @ replicate (512 - length M) 0xff) (length M) = (0, ns, ns + k, vol', dir)"
    "fs = fs1 @ fs2" "dir_state env vol' cs (fs1 @ (new_info env (node_fields node) ns (ns + k), name) # fs2)" "dir_changed vol1 cs (dir_entries vol' cs) vol'"
    using create_run[OF F(1-3) st(1) F(4) nm fo st(2,3) assms(16)] unfolding k by blast
  note K = dir_changed_keeps[OF r(4) F(1)]
  have "dir_has_files env (vn_cluster dir) cs vol' (fs1 @ (new_info env (node_fields node) ns (ns + k), name) # fs2)"
    using r(3) K(1,4) F(2,3) by (simp add: dir_has_files_def)
  moreover have "vol' = vol1\<lparr>fBlockCache := fBlockCache vol'\<rparr>" using r(4) by (simp only: dir_changed_def)
  ultimately show ?thesis using r(1,2) c ig by auto
qed

end

subsection \<open>The conversions of the add-on\<close>

text \<open>The names that can be created: at most 246 characters of one to three bytes. Left out are the names that
  consist of a dot and at most three acceptable characters, and Japanese names whose short name would start with the mark of a deleted entry.\<close>

definition good_name :: "name \<Rightarrow> block \<Rightarrow> bool" where
  "good_name name N \<longleftrightarrow> (\<exists>us. us \<noteq> [] \<and> list_all unit_ok us \<and> 0xffff \<notin> set us \<and> length us \<le> 246 \<and> length (utf8_of us) \<le> 510
        \<and> name = utf8_of us \<and> N = utf16_of us @ [0, 0])
     \<and> (hd name = 0x2e \<longrightarrow> enc_requires_long_name name (padded N))
     \<and> (\<forall>nshort. enc_generate_short_name True name (padded N) (length N) = (B_OK, nshort, SJIS_CONVERSION) \<longrightarrow> nshort ! 0 \<noteq> 0xe5)"

lemma with_encodings_simps:
  "unicode_to_utf8 (with_encodings clock env) w n len = map_prod (\<lambda>e. e) (takeWhile (\<lambda>c. c \<noteq> 0)) (enc_unicode_to_utf8 w n len)"
  "msdos_to_utf8 (with_encodings clock env) b len l = takeWhile (\<lambda>c. c \<noteq> 0) (snd (enc_msdos_to_utf8 b len l))"
  "utf8_to_unicode (with_encodings clock env) = enc_utf8_to_unicode" "generate_short_name (with_encodings clock env) = enc_generate_short_name (env_mem env)"
  "requires_long_name (with_encodings clock env) = enc_requires_long_name" "requires_munged_short_name (with_encodings clock env) = enc_requires_munged_short_name"
  "munge_short_name1 (with_encodings clock env) nshort (int j) encoding = snd (enc_munge_short_name1 nshort j encoding)"
  "munge_short_name2 (with_encodings clock env) k nshort encoding = snd (enc_munge_short_name2 (clock k) nshort encoding)"
  "env_ok (with_encodings clock env) = env_ok env"
  by (simp_all add: with_encodings_def env_ok_def)

lemma pairs_utf16: "0xffff \<notin> set us \<Longrightarrow> (0xff, 0xff) \<notin> set (pairs (utf16_of us @ [0, 0]))"
proof (induction us)
  case (Cons u us)
  have "\<not> (word_of_nat (unat u mod 256) = (0xff::u8) \<and> word_of_nat (unat u div 256) = (0xff::u8))"
  proof
    assume h: "word_of_nat (unat u mod 256) = (0xff::u8) \<and> word_of_nat (unat u div 256) = (0xff::u8)"
    then have "unat (word_of_nat (unat u mod 256) :: u8) = 0xff" "unat (word_of_nat (unat u div 256) :: u8) = 0xff" by simp_all
    then have "unat u mod 256 = 0xff" "unat u div 256 = 0xff" using unat_less[of u] unfolding unat_byte by auto
    then have "unat u = unat (0xffff::u16)" using div_mult_mod_eq[of "unat u" 256] by simp
    then have "u = 0xffff" by (simp only: word_unat_eq_iff)
    then show False using Cons.prems by simp
  qed
  then show ?case using Cons by auto
qed simp

lemma good_long_name:
  assumes "good_name name N"
  shows "long_name (with_encodings clock env) name N"
proof -
  obtain us where us: "list_all unit_ok us" "0xffff \<notin> set us" "length us \<le> 246" "length (utf8_of us) \<le> 510" "name = utf8_of us" "N = utf16_of us @ [0, 0]"
    using assms by (auto simp: good_name_def)
  have "list_all (\<lambda>u. \<not> (0xd800 \<le> unat u \<and> unat u \<le> 0xdbff)) (us @ [0, 0])" using unit_ok_no_surrogate[OF us(1), of 2] by (simp add: numeral_2_eq_2)
  from unicode_to_utf8_run[OF this, of 512 "[]"] have "enc_unicode_to_utf8 (N @ [0, 0]) (length N + 2) 512 = (B_OK, utf8_of us @ [0, 0])"
    using us(4,6) by (simp add: utf8_bytes_def)
  then have "unicode_to_utf8 (with_encodings clock env) (N @ [0, 0]) (length N + 2) 512 = (0, name)"
    using utf8_of_string[OF us(1), of "[0]"] us(5) by (simp add: with_encodings_simps B_OK_def)
  then show ?thesis using us(3,6) pairs_utf16[OF us(2)] by (simp add: long_name_def)
qed

text \<open>A short name that has been generated comes from one of the two code pages.\<close>

lemma generated_cases:
  assumes "good_name name N" "enc_generate_short_name mem name (padded N) (length N) = (0, nshort, encoding)"
  shows "encoding = MS_DOS_CONVERSION \<and> short_ok nshort
    \<or> encoding = SJIS_CONVERSION \<and> length nshort = 11 \<and> nshort ! 0 \<noteq> 0 \<and> nshort ! 0 \<noteq> 0xe5 \<and> enc_requires_long_name name (padded N)"
proof -
  obtain us where us: "us \<noteq> []" "list_all unit_ok us" "name = utf8_of us" "N = utf16_of us @ [0, 0]" using assms(1) by (auto simp: good_name_def)
  have ne: "MS_DOS_CONVERSION \<noteq> SJIS_CONVERSION" by (simp add: MS_DOS_CONVERSION_def SJIS_CONVERSION_def)
  show ?thesis
  proof (cases "encoding = MS_DOS_CONVERSION")
    case True
    then show ?thesis using generate_short_ok(1)[of mem name "padded N" "length N" nshort] assms(2) by (simp add: B_OK_def)
  next
    case False
    then have e: "encoding = SJIS_CONVERSION" "\<exists>u \<in> set (name_units (padded N) (length N + 1)). is_unicode_japanese u"
      using assms(2) by (auto simp: enc_generate_short_name_def Let_def split: if_splits prod.splits)
    obtain ns where ns: "generate_short_name_sjis mem name (length N) (replicate 11 0x20) = (0, ns)"
      "nshort = (if ns = replicate 11 0x20 then ns[0 := 0x5f] else ns)"
      using assms(2) e ne by (auto simp: enc_generate_short_name_def Let_def B_OK_def split: if_splits prod.splits)
    have m: mem using ns(1) by (auto simp: generate_short_name_sjis_def ENOMEM_def B_GENERAL_ERROR_BASE_def split: if_splits)
    have nz: "length nshort = 11 \<and> nshort ! 0 \<noteq> 0" using generate_sjis_field[OF ns(1)] ns(2) by auto
    have "nshort ! 0 \<noteq> 0xe5" using assms m e(1) by (auto simp: good_name_def B_OK_def)
    moreover have "enc_requires_long_name name (padded N)"
    proof -
      have "name_units (padded N) (length N + 1) = us @ [0]"
        using name_units_utf16[of "us @ [0]" "replicate (512 - length N) 0xff"] us(4) by (simp add: padded_def name_units_def)
      moreover have "\<not> is_unicode_japanese 0" by (simp add: ascii_not_japanese)
      ultimately have "\<exists>u \<in> set us. is_unicode_japanese u" using e(2) by auto
      moreover have "list_all (\<lambda>u. u \<noteq> 0) us" using us(2) by (auto simp: list_all_iff unit_ok_def)
      ultimately have "japanese_loop (padded N)" using japanese_utf16[of us "replicate (512 - length N) 0xff"] us(4) by (simp add: padded_def)
      then show ?thesis by (simp add: enc_requires_long_name_def)
    qed
    ultimately show ?thesis using e(1) nz by blast
  qed
qed

interpretation enc: name_conversions "with_encodings clock env" good_name for clock env
proof
  fix name N nshort encoding and j k :: nat
  assume g: "good_name name N"
  then obtain us where us: "us \<noteq> []" "list_all unit_ok us" "length us \<le> 246" "name = utf8_of us" "N = utf16_of us @ [0, 0]" by (auto simp: good_name_def)
  have run: "enc_utf8_to_unicode name 512 = (int (length N), N)" using utf8_to_unicode_run[OF us(2)] us(3-5) by simp
  show "utf8_to_unicode (with_encodings clock env) name 512 = (int (length N), N)" using run by (simp add: with_encodings_simps)
  show "N \<noteq> []" using us(5) by simp
  show "long_name (with_encodings clock env) name N" by (rule good_long_name[OF g])
  assume "generate_short_name (with_encodings clock env) name (padded N) (length N) = (0, nshort, encoding)"
  then have s: "enc_generate_short_name (env_mem env) name (padded N) (length N) = (0, nshort, encoding)" by (simp add: with_encodings_simps)
  note C = generated_cases[OF g s]
  show "field_ok nshort" using C short_ok_field[of nshort] by (auto simp: field_ok_def)
  have ne: "MS_DOS_CONVERSION \<noteq> SJIS_CONVERSION" by (simp add: MS_DOS_CONVERSION_def SJIS_CONVERSION_def)
  show "munged_ok (munge_short_name1 (with_encodings clock env) nshort (int j) encoding)" if "1 \<le> j" "j < 10"
    using C that munge_english_ok[of nshort j] munge_sjis_ok[of nshort j] ne by (auto simp: with_encodings_simps enc_munge_short_name1_def)
  have "(if clock k mod 100000 = 0 then clock k mod 100000 + 1 else clock k mod 100000) < 100000" by simp
  then show "munged_ok (munge_short_name2 (with_encodings clock env) k nshort encoding)"
    using C munge_english_ok[of nshort] munge_sjis_ok[of nshort] ne unfolding with_encodings_simps enc_munge_short_name2_def Let_def by auto
  assume "\<not> requires_long_name (with_encodings clock env) name (padded N)"
  then have nl: "\<not> enc_requires_long_name name (padded N)" by (simp add: with_encodings_simps)
  have h: "0 \<notin> set name" "name \<noteq> []" "hd name \<noteq> 0x2e"
    using utf8_of_nonzero[OF us(2)] us(1,4) g nl by (auto simp: good_name_def utf8_of_def utf8_bytes_def neq_Nil_conv)
  obtain ns where "enc_generate_short_name (env_mem env) name (padded N) (nat (int (length N))) = (B_OK, ns, MS_DOS_CONVERSION)"
    "enc_msdos_to_utf8 ns 512 False = (B_OK, name @ [0])" using short_name_back[OF h run nl] by blast
  then show "msdos_to_utf8 (with_encodings clock env) nshort 512 False = name"
    using s utf8_of_string[OF us(2), of "[]"] us(4) by (simp add: with_encodings_simps)
qed

subsection \<open>Properties\<close>

text \<open>C1: \<^verbatim>\<open>create_dir_entry\<close> with the conversions of \<^verbatim>\<open>encodings.cpp\<close> creates the file under its name. For a legal name that no file of the directory has, also not
  in other case, for which a short name can be generated that is no device, and with room for the entries, it
  succeeds: a search reads the new file with exactly that name and with the fields of the vnode, and every other file as before. If the name needs a long name, one of the short names
  that the code tries has to be free; then the search for it ends.\<close>

theorem create_dir_entry_creates:
  fixes name N :: block
  assumes "dir_has_files (with_encodings clock env) (vn_cluster dir) cs vol fs" "vn_st_size dir = int (node_entries vol cs * 0x20)"
    and "is_filename_legal name" "\<forall>f \<in> set fs. \<not> is_label vol dir f \<longrightarrow> \<not> strcasecmp0 (snd f) name"
    and "vnids_ok (node_entries vol cs + 1) (vol_vcache vol)" "env_ok env" "CLUSTER_OF_DIR_CLUSTER_VNID (vn_vnid dir) < 2 ^ 28"
    and "good_name name N" "enc_generate_short_name True name (padded N) (length N) = (0, tshort, encoding)"
    and "take 8 tshort \<notin> set (map (take 8) device_names)" "fields_ok vol (node_fields node)"
    and "enc_requires_long_name name (padded N) \<Longrightarrow> \<exists>free. short_candidate (with_encodings clock env) name tshort encoding free \<and> \<not> taken vol cs free"
    and "k = (if enc_requires_long_name name (padded N) then (length N + 24) div 26 else 0)"
    and "place_in (k + 1) 0 fs = (ns, at_end)" "ns + k < node_entries vol cs" "ns \<noteq> 0xffff"
  shows "\<exists>vol' fs1 fs2. create_dir_entry (with_encodings clock env) vol dir node name = (0, ns, ns + k, vol', dir) \<and> fs = fs1 @ fs2
    \<and> dir_has_files (with_encodings clock env) (vn_cluster dir) cs vol'
        (fs1 @ (new_info (with_encodings clock env) (node_fields node) ns (ns + k), name) # fs2)"
proof -
  have m: "env_mem env" using assms(6) by (simp add: env_ok_def)
  note A = enc.create_inserts[of clock env dir cs vol fs name N tshort encoding node ns at_end, unfolded with_encodings_simps]
  have "\<exists>vol' fs1 fs2. create_dir_entry (with_encodings clock env) vol dir node name = (0, ns, ns + k, vol', dir) \<and> fs = fs1 @ fs2
    \<and> dir_has_files (with_encodings clock env) (vn_cluster dir) cs vol' (fs1 @ (new_info (with_encodings clock env) (node_fields node) ns (ns + k), name) # fs2)
    \<and> (\<exists>vol1. ids_grow 0 vol vol1 \<and> vol' = vol1\<lparr>fBlockCache := fBlockCache vol'\<rparr>)"
    unfolding assms(13) by (rule A) (use assms m in simp_all)
  then show ?thesis by blast
qed

text \<open>C24: what \<^verbatim>\<open>create_dir_entry\<close> refuses. A name that is not legal is \<^verbatim>\<open>EINVAL\<close>; the name of a file that is in the directory, in any
  case of letters, is \<^verbatim>\<open>EEXIST\<close>. Nothing is written.\<close>

theorem create_dir_entry_refuses:
  assumes "dir_has_files env (vn_cluster dir) cs vol fs"
    and "vnids_ok (node_entries vol cs + 1) (vol_vcache vol)" "env_ok env" "CLUSTER_OF_DIR_CLUSTER_VNID (vn_vnid dir) < 2 ^ 28"
  shows "(\<not> is_filename_legal name \<longrightarrow> create_dir_entry env vol dir node name = (EINVAL, 0, 0, vol, dir))
    \<and> (is_filename_legal name \<and> (\<exists>f \<in> set fs. \<not> is_label vol dir f \<and> strcasecmp0 (snd f) name)
        \<longrightarrow> (\<exists>vol'. create_dir_entry env vol dir node name = (EEXIST, 0, 0, vol', dir) \<and> same_disk vol vol'))"
proof (intro conjI impI)
  show "create_dir_entry env vol dir node name = (EINVAL, 0, 0, vol, dir)" if "\<not> is_filename_legal name"
    using that by (simp add: create_dir_entry_def)
  assume h: "is_filename_legal name \<and> (\<exists>f \<in> set fs. \<not> is_label vol dir f \<and> strcasecmp0 (snd f) name)"
  have F: "dir_ok vol (vn_cluster dir) cs" "0 < node_entries vol cs" "listing env vol (dir_entries vol cs) 0 = Some fs"
    using assms(1) by (simp_all add: dir_has_files_def dir_state_def)
  have "dir_files env vol dir cs = Some (filter (\<lambda>f. \<not> is_label vol dir f) fs)" by (simp add: dir_files_def F(3))
  note R = findfile_files[OF F(1,2) this assms(2-4), of name False False, unfolded find_in_found]
  have "List.find (\<lambda>f. strcasecmp0 (snd f) name) (filter (\<lambda>f. \<not> is_label vol dir f) fs) \<noteq> None"
    using h unfolding find_None_iff set_filter by blast
  then obtain v vol' where "findfile_nocase env vol dir name = (Inr v, False, vol')" "same_disk vol vol'"
    using R legal_not_dot h by (auto simp: findfile_nocase_def found_vnid_def split: option.splits)
  then show "\<exists>vol'. create_dir_entry env vol dir node name = (EEXIST, 0, 0, vol', dir) \<and> same_disk vol vol'"
    using h by (simp add: create_dir_entry_def)
qed

text \<open>C25: the search for a short name. When the generated name does not need to be changed or one of the numbered or random variants is not in use in the directory, the
  search ends with a short name that is not in use; it tries the nine numbers first, and nothing is written.\<close>

theorem unique_short_name_finds:
  assumes "dir_has_files env (vn_cluster dir) cs vol fs" "short_candidate env name tshort encoding free" "\<not> taken vol cs free"
  shows "\<exists>nshort. unique_short_name env vol dir name tshort encoding = Some (ENOENT, nshort, vol) \<and> \<not> taken vol cs nshort
    \<and> short_candidate env name tshort encoding nshort"
proof -
  have "dir_ok vol (vn_cluster dir) cs" "0 < node_entries vol cs" using assms(1) by (simp_all add: dir_has_files_def)
  from unique_short_name_spec[OF this assms(2,3)] show ?thesis by blast
qed

subsection \<open>Witnesses\<close>

text \<open>The small root directory, read with the conversions, and the new name \<^verbatim>\<open>bc\<close>, which gets the short name \<^verbatim>\<open>BC\<close>.\<close>

definition tiny_bc :: name where
  "tiny_bc = [0x62, 0x63]"

definition tiny_bc16 :: block where
  "tiny_bc16 = [0x62, 0, 0x63, 0, 0, 0]"

definition tiny_BC :: block where
  "tiny_BC = [0x42, 0x43, 0x20, 0x20, 0x20, 0x20, 0x20, 0x20, 0x20, 0x20, 0x20]"

lemma tiny_short_name: "takeWhile (\<lambda>c. c \<noteq> 0) (snd (enc_msdos_to_utf8 (tiny_name c) 512 False)) = [c]" if "c = 0x41 \<or> c = 0x61"
proof -
  have "unat c < 128" using that by auto
  then have "one_loop msdostou [c, 0] (Suc (Suc 0)) 512 0 [] = (Suc (Suc 0), [c, 0])" using one_loop_ascii[of "[c, 0]" "[]" 512 "[]"] by simp
  then show ?thesis using that by (auto simp: enc_msdos_to_utf8_def tiny_name_def one_to_utf8_def)
qed

lemma tiny_real_listing: "dir_has_files (with_encodings clock tiny_env) 1 [] tiny_dir
    [(entry_info tiny_dir 0 0 (tiny_entry 0x41), [0x41]), (entry_info tiny_dir 1 1 (tiny_entry 0x61), [0x61])]"
proof -
  note e = tiny_entry_bytes and n = tiny_short_name
  have c: "tiny_entry c ! 0xc = 0" for c by (simp add: tiny_entry_def tiny_name_def nth_append)
  have p: "parse_dirent (with_encodings clock tiny_env) tiny_dir (dir_entries tiny_dir []) 0 512 = Some (Inr (entry_info tiny_dir 0 0 (tiny_entry 0x41), [0x41]))"
    "parse_dirent (with_encodings clock tiny_env) tiny_dir (dir_entries tiny_dir []) 1 512 = Some (Inr (entry_info tiny_dir 1 1 (tiny_entry 0x61), [0x61]))"
    "parse_dirent (with_encodings clock tiny_env) tiny_dir (dir_entries tiny_dir []) 2 512 = Some (Inl ENOENT)"
    unfolding tiny_dir_entries by (simp_all add: parse_dirent_def e c parse_name_def no_lfn_def with_encodings_simps n)
  have i: "di_eindex (entry_info vol i j b) = j" for vol i j b by (simp add: entry_info_def)
  have "listing (with_encodings clock tiny_env) tiny_dir (dir_entries tiny_dir []) 0
      = Some [(entry_info tiny_dir 0 0 (tiny_entry 0x41), [0x41]), (entry_info tiny_dir 1 1 (tiny_entry 0x61), [0x61])]"
    by (subst listing.simps, subst listing.simps, subst listing.simps)
      (simp add: p p(2)[unfolded One_nat_def] p(3)[unfolded numeral_2_eq_2] i)
  then show ?thesis unfolding dir_has_files_def dir_state_def using tiny_dir_ok by (simp add: entry_info_def)
qed

lemma tiny_bc_short: "enc_generate_short_name True tiny_bc (padded tiny_bc16) (length tiny_bc16) = (0, tiny_BC, MS_DOS_CONVERSION)"
proof -
  have b: "msdos_index 0x62 = 0x62" "msdos_index 0x63 = 0x63" using msdos_index_ascii(1)[of "0x62"] msdos_index_ascii(1)[of "0x63"] by simp_all
  have s: "short_char 0x62 = Inr (Some 0x42)" "short_char 0x63 = Inr (Some 0x43)" by (simp_all add: short_char_def illegal_def)
  have u: "name_units (padded tiny_bc16) (length tiny_bc16) = [0x62, 0x63, 0]" "name_units (padded tiny_bc16) (length tiny_bc16 + 1) = [0x62, 0x63, 0]"
  proof -
    have "padded tiny_bc16 = utf16_of [0x62, 0x63, 0] @ replicate 506 0xff" by (simp add: tiny_bc16_def padded_def)
    then have n: "name_units (padded tiny_bc16) 6 = [0x62, 0x63, 0]" using name_units_utf16[of "[0x62, 0x63, 0]" "replicate 506 0xff"] by simp
    have "name_units w 7 = name_units w 6" for w by (simp add: name_units_def)
    moreover have "length tiny_bc16 = 6" by (simp add: tiny_bc16_def)
    ultimately show "name_units (padded tiny_bc16) (length tiny_bc16) = [0x62, 0x63, 0]" "name_units (padded tiny_bc16) (length tiny_bc16 + 1) = [0x62, 0x63, 0]"
      using n by simp_all
  qed
  have j: "\<not> is_unicode_japanese 0x62" "\<not> is_unicode_japanese 0x63" "\<not> is_unicode_japanese 0" by (simp_all add: ascii_not_japanese)
  have R: "replicate 11 c = [c, c, c, c, c, c, c, c, c, c, c]" for c :: u8 by (simp add: numeral_eq_Suc)
  have "generate_short_name_msdos [0x62, 0x63, 0] (replicate 11 0x20) = (B_OK, tiny_BC)"
    unfolding R by (simp add: generate_short_name_msdos_def b s tiny_BC_def)
  then show ?thesis unfolding enc_generate_short_name_def u Let_def R using j by (simp add: tiny_BC_def B_OK_def)
qed

lemma tiny_bc_long: "enc_requires_long_name tiny_bc (padded tiny_bc16)"
  by (simp add: enc_requires_long_name_def padded_def tiny_bc_def tiny_bc16_def is_unicode_japanese_def base_loop.simps acceptable_def)

lemma tiny_bc_good: "good_name tiny_bc tiny_bc16"
proof -
  have "tiny_bc = utf8_of [0x62, 0x63]" "tiny_bc16 = utf16_of [0x62, 0x63] @ [0, 0]" by (simp_all add: tiny_bc_def tiny_bc16_def utf8_bytes_def)
  moreover have "list_all unit_ok [0x62, 0x63]" by (simp add: unit_ok_def)
  ultimately show ?thesis
    using tiny_bc_short tiny_bc_long unfolding good_name_def
    by (intro conjI exI[of _ "[0x62, 0x63]"]) (auto simp: tiny_bc_def MS_DOS_CONVERSION_def SJIS_CONVERSION_def utf8_bytes_def)
qed

lemma tiny_bc_candidate:
  "short_candidate (with_encodings clock tiny_env) tiny_bc tiny_BC MS_DOS_CONVERSION tiny_BC" "\<not> taken tiny_dir [] tiny_BC"
  "take 8 tiny_BC \<notin> set (map (take 8) device_names)"
proof -
  have "\<not> enc_requires_munged_short_name tiny_bc tiny_BC MS_DOS_CONVERSION"
    by (simp add: enc_requires_munged_short_name_def tiny_bc_def tiny_BC_def BEGINS_UTF8CHAR_def)
  then show "short_candidate (with_encodings clock tiny_env) tiny_bc tiny_BC MS_DOS_CONVERSION tiny_BC" by (simp add: short_candidate_def with_encodings_simps)
  show "\<not> taken tiny_dir [] tiny_BC"
    unfolding taken_def tiny_dir_entries short_names_def by (simp add: tiny_entry_bytes) (simp add: tiny_BC_def tiny_name_def)
  show "take 8 tiny_BC \<notin> set (map (take 8) device_names)" by (simp add: tiny_BC_def device_names_def short_name_of_def)
qed

lemma tiny_root_id: "CLUSTER_OF_DIR_CLUSTER_VNID (vn_vnid tiny_root) < 2 ^ 28"
  by (simp add: tiny_root_def tiny_dir_def CLUSTER_OF_DIR_CLUSTER_VNID_def)

theorem create_dir_entry_creates_witness:
  "\<exists>vol' fs. create_dir_entry (with_encodings (\<lambda>k. k) tiny_env) tiny_dir tiny_root tiny_vnode tiny_bc = (0, 2, 3, vol', tiny_root)
     \<and> dir_has_files (with_encodings (\<lambda>k. k) tiny_env) 1 [] vol' fs \<and> tiny_bc \<in> snd ` set fs"
proof -
  let ?fs = "[(entry_info tiny_dir 0 0 (tiny_entry 0x41), [0x41]), (entry_info tiny_dir 1 1 (tiny_entry 0x61), [0x61])]"
  have l: "is_filename_legal tiny_bc" by (simp add: is_filename_legal_def tiny_bc_def illegal_def)
  have no: "\<forall>f \<in> set ?fs. \<not> is_label tiny_dir tiny_root f \<longrightarrow> \<not> strcasecmp0 (snd f) tiny_bc" by (simp add: strcasecmp0_def tiny_bc_def)
  have fl: "fields_ok tiny_dir (node_fields tiny_vnode)" by (simp add: fields_ok_def node_fields_def tiny_vnode_def u32_of_int_def)
  have k: "1 = (if enc_requires_long_name tiny_bc (padded tiny_bc16) then (length tiny_bc16 + 24) div 26 else 0)"
    using tiny_bc_long by (simp add: tiny_bc16_def)
  have pl: "place_in (1 + 1) 0 ?fs = (2, True)" by (simp add: entry_info_def)
  have h: "dir_has_files (with_encodings (\<lambda>k. k) tiny_env) (vn_cluster tiny_root) [] tiny_dir ?fs" "vn_st_size tiny_root = int (node_entries tiny_dir [] * 0x20)"
    "vnids_ok (node_entries tiny_dir [] + 1) (vol_vcache tiny_dir)" "2 + 1 < node_entries tiny_dir []" "(2::nat) \<noteq> 0xffff"
    using tiny_real_listing tiny_dir_ok(2,3) by (simp_all add: tiny_root_cluster)
  have c: "\<exists>free. short_candidate (with_encodings (\<lambda>k. k) tiny_env) tiny_bc tiny_BC MS_DOS_CONVERSION free \<and> \<not> taken tiny_dir [] free"
    using tiny_bc_candidate(1,2) by blast
  obtain vol' fs1 fs2 where r: "create_dir_entry (with_encodings (\<lambda>k. k) tiny_env) tiny_dir tiny_root tiny_vnode tiny_bc = (0, 2, 2 + 1, vol', tiny_root)"
    "dir_has_files (with_encodings (\<lambda>k. k) tiny_env) (vn_cluster tiny_root) [] vol'
       (fs1 @ (new_info (with_encodings (\<lambda>k. k) tiny_env) (node_fields tiny_vnode) 2 (2 + 1), tiny_bc) # fs2)"
    using create_dir_entry_creates[OF h(1,2) l no h(3) tiny_dir_ok(4) tiny_root_id tiny_bc_good tiny_bc_short tiny_bc_candidate(3) fl c k pl h(4,5)] by blast
  then show ?thesis unfolding tiny_root_cluster by force
qed

theorem create_dir_entry_refuses_witness:
  "create_dir_entry tiny_env tiny_dir tiny_root tiny_vnode [0x3f] = (EINVAL, 0, 0, tiny_dir, tiny_root)
    \<and> (\<exists>vol'. create_dir_entry (with_encodings (\<lambda>k. k) tiny_env) tiny_dir tiny_root tiny_vnode [0x41] = (EEXIST, 0, 0, vol', tiny_root))"
proof -
  have l: "\<not> is_filename_legal [0x3f]" "is_filename_legal [0x41]" by (simp_all add: is_filename_legal_def illegal_def)
  have nl: "\<not> is_label tiny_dir tiny_root (entry_info tiny_dir 0 0 (tiny_entry 0x41), [0x41])" by (simp add: is_label_def entry_info_def tiny_entry_bytes)
  have v: "vnids_ok (node_entries tiny_dir [] + 1) (vol_vcache tiny_dir)" using tiny_dir_ok(2,3) by simp
  have e: "env_ok (with_encodings (\<lambda>k. k) tiny_env)" using tiny_dir_ok(4) by (simp add: with_encodings_simps)
  have "create_dir_entry tiny_env tiny_dir tiny_root tiny_vnode [0x3f] = (EINVAL, 0, 0, tiny_dir, tiny_root)"
    using create_dir_entry_refuses[where dir = tiny_root and cs = "[]", unfolded tiny_root_cluster, OF tiny_dir_has_files v tiny_dir_ok(4) tiny_root_id] l(1) by blast
  moreover have "\<exists>vol'. create_dir_entry (with_encodings (\<lambda>k. k) tiny_env) tiny_dir tiny_root tiny_vnode [0x41] = (EEXIST, 0, 0, vol', tiny_root)"
    using create_dir_entry_refuses[where dir = tiny_root and cs = "[]" and name = "[0x41]" and node = tiny_vnode, unfolded tiny_root_cluster,
        OF tiny_real_listing[of "\<lambda>k. k"] v e tiny_root_id] l(2) nl
    by (auto simp: strcasecmp0_def)
  ultimately show ?thesis by blast
qed

theorem unique_short_name_finds_witness:
  "\<exists>nshort. unique_short_name (with_encodings (\<lambda>k. k) tiny_env) tiny_dir tiny_root tiny_bc tiny_BC MS_DOS_CONVERSION = Some (ENOENT, nshort, tiny_dir)
     \<and> \<not> taken tiny_dir [] nshort"
  using unique_short_name_finds[where dir = tiny_root, unfolded tiny_root_cluster, OF tiny_real_listing tiny_bc_candidate(1,2)] by blast

end
