(* ===== verification/Attr.thy ===== *)
theory Attr
  imports Dirent
begin

text \<open>
  The only attribute of a file, its MIME type: \<^verbatim>\<open>fat/attr.c\<close> and the table of \<^verbatim>\<open>fat/mime_table.c\<close>.

  A cookie of the attribute directory is its \<^verbatim>\<open>int32\<close>, a missing one \<open>None\<close>. A cookie of an attribute is the
  address of \<^verbatim>\<open>kBeOSTypeCookie\<close> or another one. MIME types are strings without the terminator.
\<close>

section \<open>Definitions\<close>

definition mimes :: "(string \<times> string) list" where
  "mimes =
    [(''gz'', ''application/x-gzip''), (''hqx'', ''application/x-binhex40''), (''lha'', ''application/x-lharc''),
     (''lzh'', ''application/x-lharc''), (''pcl'', ''application/x-pcl''), (''pdf'', ''application/pdf''),
     (''ps'', ''application/postscript''), (''sit'', ''application/x-stuff-it''), (''tar'', ''application/x-tar''),
     (''tgz'', ''application/x-gzip''), (''uue'', ''application/x-uuencode''), (''z'', ''application/x-compress''),
     (''zip'', ''application/zip''), (''zoo'', ''application/x-zoo''), (''pkg'', ''application/x-scode-UPkg''),
     (''vdwn'', ''application/x-scode-UPkg''), (''proj'', ''application/x-mw-project''), (''swf'', ''application/x-shockwave-flash''),
     (''clp'', ''application/x-codeliege-project''), (''aif'', ''audio/x-aiff''), (''aifc'', ''audio/x-aifc''),
     (''aiff'', ''audio/x-aiff''), (''au'', ''audio/basic''), (''mid'', ''audio/x-midi''), (''midi'', ''audio/x-midi''),
     (''mod'', ''audio/mod''), (''ra'', ''audio/x-real-audio''), (''wav'', ''audio/x-wav''), (''mp2'', ''audio/x-mpeg''),
     (''mp3'', ''audio/x-mpeg''), (''ogg'', ''audio/x-vorbis''), (''mpc'', ''audio/x-mpc''), (''asf'', ''application/x-asf''),
     (''riff'', ''application/x-riff''), (''wma'', ''audio/x-ms-wma''), (''bmp'', ''image/x-bmp''), (''fax'', ''image/g3fax''),
     (''gif'', ''image/gif''), (''iff'', ''image/x-iff''), (''jpg'', ''image/jpeg''), (''jpeg'', ''image/jpeg''),
     (''pbm'', ''image/x-portable-bitmap''), (''pcx'', ''image/x-pcx''), (''pgm'', ''image/x-portable-graymap''), (''png'', ''image/png''),
     (''ppm'', ''image/x-portable-pixmap''), (''rgb'', ''image/x-rgb''), (''tga'', ''image/x-targa''), (''tif'', ''image/tiff''),
     (''tiff'', ''image/tiff''), (''xbm'', ''image/x-xbitmap''), (''txt'', ''text/plain''), (''ini'', ''text/plain''),
     (''log'', ''text/plain''), (''bat'', ''text/plain''), (''doc'', ''text/plain''), (''cfg'', ''text/plain''), (''inf'', ''text/plain''),
     (''htm'', ''text/html''), (''html'', ''text/html''), (''rtf'', ''text/rtf''), (''c'', ''text/x-source-code''),
     (''cc'', ''text/x-source-code''), (''c++'', ''text/x-source-code''), (''h'', ''text/x-source-code''),
     (''h++'', ''text/x-source-code''), (''hh'', ''text/x-source-code''), (''hpp'', ''text/x-source-code''),
     (''pl'', ''text/x-source-code''), (''py'', ''text/x-source-code''), (''cxx'', ''text/x-source-code''),
     (''cpp'', ''text/x-source-code''), (''S'', ''text/x-source-code''), (''asm'', ''text/x-source-code''),
     (''bas'', ''text/x-source-code''), (''pas'', ''text/x-source-code''), (''java'', ''text/x-source-code''),
     (''avi'', ''video/x-msvideo''), (''mov'', ''video/quicktime''), (''mpg'', ''video/mpeg''), (''mpeg'', ''video/mpeg''),
     (''ogm'', ''video/x-ogm''), (''wmv'', ''video/x-ms-wmv''), (''rm'', ''application/vnd.rn-realmedia''),
     (''rn'', ''application/vnd.rn-realmedia'')]"

text \<open>The bytes of a string literal.\<close>

definition name_of :: "string \<Rightarrow> name" where
  "name_of s = map of_char s"

text \<open>The loop over the table from \<open>p\<close> on: the MIME type of the entry where it stops. The last entry has none.\<close>

fun mime_loop :: "(string \<times> string) list \<Rightarrow> name \<Rightarrow> string option" where
  "mime_loop [] filename = None"
| "mime_loop ((extension, mime) # p) filename =
     (let namelen = length filename; ext_len = length extension
      in if namelen \<le> ext_len then mime_loop p filename
         else if filename ! (namelen - ext_len - 1) \<noteq> 0x2e then mime_loop p filename
         else if strcasecmp0 (drop (namelen - ext_len) filename) (name_of extension) then Some mime
         else mime_loop p filename)"

definition set_mime_type :: "vnode \<Rightarrow> name \<Rightarrow> status_t \<times> vnode" where
  "set_mime_type node filename = (B_OK, node\<lparr>vn_mime := mime_loop mimes filename\<rparr>)"

record dirent =
  d_dev :: int
  d_ino :: ino_t
  d_reclen :: nat
  d_name :: name

definition dosfs_open_attrdir :: "env \<Rightarrow> status_t \<times> int option" where
  "dosfs_open_attrdir env = (if env_mem env then (0, Some 0) else (ENOMEM, None))"

definition dosfs_close_attrdir :: "int \<Rightarrow> status_t \<times> int" where
  "dosfs_close_attrdir cookie = (0, 1)"

definition dosfs_free_attrdir_cookie :: "int option \<Rightarrow> status_t" where
  "dosfs_free_attrdir_cookie cookie = (if cookie = None then EINVAL else 0)"

definition dosfs_rewind_attrdir :: "int option \<Rightarrow> status_t \<times> int option" where
  "dosfs_rewind_attrdir cookie = (if cookie = None then (EINVAL, None) else (0, Some 0))"

text \<open>\<^verbatim>\<open>*num\<close> is 1 when there is an entry.\<close>

definition dosfs_read_attrdir :: "nspace \<Rightarrow> vnode \<Rightarrow> int \<Rightarrow> status_t \<times> dirent option \<times> int" where
  "dosfs_read_attrdir vol node cookie =
     (0, if cookie = 0 \<and> vn_mime node \<noteq> None
         then Some \<lparr>d_dev = vol_id vol, d_ino = vn_vnid node, d_reclen = 10, d_name = name_of ''BEOS:TYPE''\<rparr> else None, 1)"

datatype attr_cookie = kBeOSTypeCookie | other_cookie

definition dosfs_open_attr :: "vnode \<Rightarrow> name \<Rightarrow> status_t \<times> attr_cookie option" where
  "dosfs_open_attr node name =
     (if name \<noteq> name_of ''BEOS:TYPE'' then (ENOENT, None)
      else if vn_mime node = None then (ENOENT, None)
      else (B_OK, Some kBeOSTypeCookie))"

definition dosfs_close_attr :: status_t where
  "dosfs_close_attr = B_OK"

definition dosfs_free_attr_cookie :: status_t where
  "dosfs_free_attr_cookie = B_OK"

text \<open>The type and the size of the attribute. \<^verbatim>\<open>'MIMS'\<close> is a character constant of four bytes.\<close>

definition MIME_STRING_TYPE :: nat where
  "MIME_STRING_TYPE = 0x4d494d53"

definition dosfs_read_attr_stat :: "vnode \<Rightarrow> attr_cookie \<Rightarrow> status_t + nat \<times> nat" where
  "dosfs_read_attr_stat node cookie =
     (if cookie \<noteq> kBeOSTypeCookie then Inl ENOENT
      else case vn_mime node of None \<Rightarrow> Inl ENOENT | Some mime \<Rightarrow> Inr (MIME_STRING_TYPE, length mime + 1))"

text \<open>\<^verbatim>\<open>strlen\<close>, \<^verbatim>\<open>strncpy\<close> into a buffer that has at least \<open>n\<close> bytes.\<close>

definition strlen0 :: "string \<Rightarrow> nat" where
  "strlen0 s = length (takeWhile (\<lambda>c. c \<noteq> CHR 0x00) s)"

definition strncpy0 :: "string \<Rightarrow> string \<Rightarrow> nat \<Rightarrow> string" where
  "strncpy0 dst src n = take n src @ replicate (n - length src) (CHR 0x00) @ drop n dst"

text \<open>The result is the buffer and \<^verbatim>\<open>*_length\<close>. With length 0 the code writes in front of the buffer, and all over the memory
  behind it: that is \<open>None\<close>.\<close>

definition dosfs_read_attr :: "vnode \<Rightarrow> attr_cookie \<Rightarrow> int \<Rightarrow> string \<Rightarrow> nat \<Rightarrow> (status_t + string \<times> nat) option" where
  "dosfs_read_attr node cookie pos buffer len =
     (if cookie \<noteq> kBeOSTypeCookie then Some (Inl ENOENT)
      else case vn_mime node of
             None \<Rightarrow> Some (Inl ENOENT)
           | Some mime \<Rightarrow>
               if pos < 0 \<or> pos > int (length mime) then Some (Inl EINVAL)
               else if len = 0 then None
               else let buffer = (strncpy0 buffer (drop (nat pos) mime) (len - 1))[len - 1 := CHR 0x00]
                    in Some (Inr (buffer, strlen0 buffer + 1)))"

definition dosfs_write_attr :: "attr_cookie \<Rightarrow> status_t \<times> nat" where
  "dosfs_write_attr cookie = (if cookie \<noteq> kBeOSTypeCookie then ENOSYS else B_OK, 0)"

section \<open>Theorems\<close>

text \<open>The extension of a name: what is behind the last dot.\<close>

definition extension_of :: "name \<Rightarrow> name option" where
  "extension_of filename =
     (if 0x2e \<in> set filename then Some (rev (takeWhile (\<lambda>c. c \<noteq> 0x2e) (rev filename))) else None)"

lemma extension_of_split: "0x2e \<notin> set ext \<Longrightarrow> extension_of (base @ 0x2e # ext) = Some ext"
proof -
  assume "0x2e \<notin> set ext"
  then have "takeWhile (\<lambda>c. c \<noteq> 0x2e) (rev ext) = rev ext" by (auto simp: takeWhile_eq_all_conv)
  then show ?thesis using \<open>0x2e \<notin> set ext\<close> by (simp add: extension_of_def takeWhile_append takeWhile_tail)
qed

lemma extension_of_None: "extension_of filename = None \<longleftrightarrow> 0x2e \<notin> set filename"
  by (simp add: extension_of_def)

lemma lower8_dot: "lower8 c = 0x2e \<longleftrightarrow> c = 0x2e"
proof
  assume l: "lower8 c = 0x2e"
  show "c = 0x2e"
  proof (rule ccontr)
    assume n: "c \<noteq> 0x2e"
    then have r: "0x41 \<le> c" "c \<le> 0x5a" using l by (auto simp: lower8_def split: if_splits)
    then have "c = 0x2e - 0x20" using l by (simp add: lower8_def eq_diff_eq)
    then show False using r by simp
  qed
qed (simp add: lower8_def)

lemma strcasecmp0_dot: "strcasecmp0 a b \<Longrightarrow> 0x2e \<in> set a \<longleftrightarrow> 0x2e \<in> set b"
proof -
  have d: "0x2e \<in> set x \<longleftrightarrow> 0x2e \<in> set (map lower8 x)" for x using lower8_dot by (auto simp: image_iff)
  show "strcasecmp0 a b \<Longrightarrow> 0x2e \<in> set a \<longleftrightarrow> 0x2e \<in> set b" unfolding strcasecmp0_def using d by metis
qed

lemma mime_match:
  fixes base :: name
  assumes "0x2e \<notin> set e" "0x2e \<notin> set (name_of x)"
  defines "f \<equiv> base @ 0x2e # e"
  shows "(length x < length f \<and> f ! (length f - length x - 1) = 0x2e \<and> strcasecmp0 (drop (length f - length x) f) (name_of x))
    \<longleftrightarrow> strcasecmp0 e (name_of x)"
proof
  assume "strcasecmp0 e (name_of x)"
  moreover from this have "length e = length x" unfolding strcasecmp0_def by (metis length_map name_of_def)
  ultimately show "length x < length f \<and> f ! (length f - length x - 1) = 0x2e \<and> strcasecmp0 (drop (length f - length x) f) (name_of x)"
    by (simp add: f_def nth_append)
next
  assume a: "length x < length f \<and> f ! (length f - length x - 1) = 0x2e \<and> strcasecmp0 (drop (length f - length x) f) (name_of x)"
  have "\<not> length x < length e"
  proof
    assume l: "length x < length e"
    then have i: "length f - length x - 1 = Suc (length base) + (length e - length x - 1)" by (simp add: f_def)
    have "f ! (length f - length x - 1) = e ! (length e - length x - 1)" unfolding i by (simp add: f_def nth_append)
    then have "0x2e \<in> set e" using a l nth_mem[of "length e - length x - 1" e] by simp
    then show False using assms(1) by blast
  qed
  moreover have "\<not> length e < length x"
  proof
    assume "length e < length x"
    then have "0x2e \<in> set (drop (length f - length x) f)" by (simp add: f_def)
    then show False using strcasecmp0_dot a assms(2) by blast
  qed
  ultimately have "length x = length e" by simp
  then show "strcasecmp0 e (name_of x)" using a by (simp add: f_def)
qed

lemma mime_loop_no_dot: "0x2e \<notin> set f \<Longrightarrow> mime_loop p f = None"
proof (induction p f rule: mime_loop.induct)
  case (2 e m p f)
  have "f ! (length f - length e - 1) \<noteq> 0x2e" if "length e < length f" 
    using 2(4) that nth_mem[of "length f - length e - 1" f] by (metis diff_diff_left diff_less add_pos_pos less_nat_zero_code neq0_conv zero_less_one trans_less_add2)
  then show ?case using 2 by (cases "length f \<le> length e") (simp_all add: Let_def)
qed simp

lemma mime_loop_extension:
  assumes "0x2e \<notin> set e" "\<forall>(x, m) \<in> set p. 0x2e \<notin> set (name_of x)"
  shows "mime_loop p (base @ 0x2e # e) = map_option snd (List.find (\<lambda>(x, m). strcasecmp0 e (name_of x)) p)"
  using assms(2)
proof (induction p)
  case (Cons q p)
  obtain x m where q: "q = (x, m)" by fastforce
  then have "0x2e \<notin> set (name_of x)" using Cons.prems by simp
  note M = mime_match[OF assms(1) this, of base]
  show ?case
  proof (cases "strcasecmp0 e (name_of x)")
    case True
    then show ?thesis using M q by (simp add: Let_def)
  next
    case False
    then have "mime_loop (q # p) (base @ 0x2e # e) = mime_loop p (base @ 0x2e # e)" using M q by (auto simp: Let_def)
    then show ?thesis using Cons False q by simp
  qed
qed simp

lemma mime_no_dots: "\<forall>(e, m) \<in> set mimes. 0x2e \<notin> set (name_of e)"
  by (simp add: mimes_def name_of_def)

text \<open>C38: the MIME type of a file is a table look-up of the extension of its name, whatever the case of its letters; a
  name without a dot has none.\<close>

theorem set_mime_type_extension:
  "fst (set_mime_type node filename) = B_OK \<and> vn_mime (snd (set_mime_type node filename)) = (case extension_of filename of None \<Rightarrow> None
     | Some ext \<Rightarrow> map_option snd (List.find (\<lambda>(x, m). strcasecmp0 ext (name_of x)) mimes))"
proof
  show "fst (set_mime_type node filename) = B_OK" by (simp add: set_mime_type_def)
  show "vn_mime (snd (set_mime_type node filename)) = (case extension_of filename of None \<Rightarrow> None
     | Some ext \<Rightarrow> map_option snd (List.find (\<lambda>(x, m). strcasecmp0 ext (name_of x)) mimes))"
  proof (cases "0x2e \<in> set filename")
    case True
    then obtain base ext where f: "filename = base @ 0x2e # ext" "0x2e \<notin> set ext" using split_list_last by fastforce
    show ?thesis unfolding f(1) extension_of_split[OF f(2)] set_mime_type_def
      using mime_loop_extension[OF f(2) mime_no_dots] by simp
  next
    case False
    then show ?thesis using mime_loop_no_dot extension_of_None[of filename] by (simp add: set_mime_type_def)
  qed
qed

lemma strlen0_app: "CHR 0x00 \<notin> set s \<Longrightarrow> strlen0 (s @ CHR 0x00 # t) = length s"
  by (simp add: strlen0_def takeWhile_append takeWhile_eq_all_conv[THEN iffD2])

text \<open>The attribute protocol. A file with a MIME type lists one attribute and lets it be opened; reading it into a buffer of the size
  that \<^verbatim>\<open>dosfs_read_attr_stat\<close> reports gives the whole type with its terminator, and reading into a shorter buffer a prefix of it.\<close>

theorem read_attr_reads_type:
  assumes "vn_mime node = Some mime" "CHR 0x00 \<notin> set mime" "length buffer = len" "0 < len"
  shows "fst (snd (dosfs_read_attrdir vol node 0)) \<noteq> None \<and> dosfs_open_attr node (name_of ''BEOS:TYPE'') = (B_OK, Some kBeOSTypeCookie)
    \<and> dosfs_read_attr_stat node kBeOSTypeCookie = Inr (MIME_STRING_TYPE, length mime + 1)
    \<and> (\<exists>out. dosfs_read_attr node kBeOSTypeCookie 0 buffer len = Some (Inr (out, min (len - 1) (length mime) + 1))
        \<and> length out = len \<and> take (min (len - 1) (length mime) + 1) out = take (len - 1) mime @ [CHR 0x00])"
proof -
  define k where "k = min (len - 1) (length mime)"
  let ?b = "(strncpy0 buffer mime (len - 1))[len - 1 := CHR 0x00]"
  have l: "length (strncpy0 buffer mime (len - 1)) = len" using assms(3,4) by (simp add: strncpy0_def)
  have b: "?b = take (len - 1) mime @ CHR 0x00 # replicate (len - 1 - k) (CHR 0x00)"
  proof (rule nth_equalityI)
    show "length ?b = length (take (len - 1) mime @ CHR 0x00 # replicate (len - 1 - k) (CHR 0x00))"
      using l assms(4) by (auto simp: k_def min_def)
  next
    fix i assume "i < length ?b"
    then show "?b ! i = (take (len - 1) mime @ CHR 0x00 # replicate (len - 1 - k) (CHR 0x00)) ! i"
      using l assms(3,4) by (auto simp: strncpy0_def k_def nth_append nth_list_update nth_Cons' min_def)
  qed
  have "CHR 0x00 \<notin> set (take (len - 1) mime)" using assms(2) in_set_takeD by fastforce
  then have s: "strlen0 ?b = k" unfolding b using strlen0_app by (simp add: k_def min.commute)
  have t: "take (k + 1) ?b = take (len - 1) mime @ [CHR 0x00]"
  proof -
    have "length (take (len - 1) mime @ [CHR 0x00]) = k + 1" by (simp add: k_def min.commute)
    then have "take (k + 1) ((take (len - 1) mime @ [CHR 0x00]) @ replicate (len - 1 - k) (CHR 0x00)) = take (len - 1) mime @ [CHR 0x00]"
      by (metis append_eq_conv_conj)
    then show ?thesis unfolding b by (simp only: append_assoc append_Cons append_Nil)
  qed
  have "dosfs_read_attr node kBeOSTypeCookie 0 buffer len = Some (Inr (?b, k + 1))"
    using assms(1,4) s by (simp add: dosfs_read_attr_def Let_def)
  then show ?thesis unfolding k_def[symmetric]
    using assms(1) t l by (simp add: dosfs_read_attrdir_def dosfs_open_attr_def dosfs_read_attr_stat_def)
qed

subsection \<open>Witnesses\<close>

definition mime_vnode :: vnode where
  "mime_vnode = \<lparr>vn_vnid = 5, vn_dir_vnid = 1, vn_disk_image = 0, vn_iteration = 0, vn_sindex = 0, vn_eindex = 0, vn_cluster = 0, vn_mode = 0,
     vn_st_size = 0, vn_st_time = 0, vn_end_cluster = 0, vn_mime = None, vn_dirty = False, vn_filename = None, vn_cache = False\<rparr>"

theorem read_attr_reads_type_witness:
  "vn_mime (snd (set_mime_type mime_vnode (name_of ''A.Gz''))) = Some ''application/x-gzip''
   \<and> (\<exists>out. dosfs_read_attr (snd (set_mime_type mime_vnode (name_of ''A.Gz''))) kBeOSTypeCookie 0 (replicate 19 CHR ''x'') 19 = Some (Inr (out, 19))
        \<and> take 19 out = ''application/x-gzip'' @ [CHR 0x00])"
proof -
  have v: "vn_mime (snd (set_mime_type mime_vnode (name_of ''A.Gz''))) = Some ''application/x-gzip''"
    by (simp add: set_mime_type_def mimes_def name_of_def strcasecmp0_def lower8_def)
  have l: "min (19 - 1) (length ''application/x-gzip'') + 1 = (19::nat)" "take (19 - 1) ''application/x-gzip'' = ''application/x-gzip''" by simp_all
  from read_attr_reads_type[OF v, of "replicate 19 CHR ''x''" 19 undefined, unfolded l] show ?thesis using v by auto
qed

end
