(* ===== verification/Fsinfo.thy ===== *)
theory Fsinfo
  imports Fat_Alloc
begin

text \<open>
  The file system information sector of a 32 bit volume: \<^verbatim>\<open>update_fsinfo\<close>, \<^verbatim>\<open>get_fsinfo\<close>, \<^verbatim>\<open>volume_count_free_cluster\<close> and
  \<^verbatim>\<open>_dosfs_sync\<close> of \<^verbatim>\<open>fat/dosfs.c\<close>. Writing the block cache back to the device changes nothing that the add-on sees.
\<close>

section \<open>Definitions\<close>

definition B_FS_IS_READONLY :: nat where "B_FS_IS_READONLY = 1"
definition B_FS_IS_REMOVABLE :: nat where "B_FS_IS_REMOVABLE = 2"
definition FS_FLAGS_OP_SYNC :: nat where "FS_FLAGS_OP_SYNC = 1"
definition FS_FLAGS_LOCK_DOOR :: nat where "FS_FLAGS_LOCK_DOOR = 2"

text \<open>The test for the three magic numbers.\<close>

definition fsinfo_magic :: "block \<Rightarrow> bool" where
  "fsinfo_magic buffer \<longleftrightarrow> read32 buffer 0 = 0x41615252 \<and> read32 buffer 0x1e4 = 0x61417272 \<and> read16 buffer 0x1fe = 0xaa55"

definition update_fsinfo :: "nspace \<Rightarrow> nspace" where
  "update_fsinfo vol =
     (if fat_bits vol = 32 \<and> fsinfo_sector vol \<noteq> 0xffff \<and> vol_flags vol AND B_FS_IS_READONLY = 0 then
        case block_cache_get vol (fsinfo_sector vol) of
          None \<Rightarrow> vol
        | Some bn \<Rightarrow>
            let buffer = block_data vol bn
            in if fsinfo_magic buffer then
                 block_store vol bn (write32 (write32 buffer 0x1e8 (free_clusters vol)) 0x1ec (last_allocated vol))
               else vol
      else vol)"

definition get_fsinfo :: "nspace \<Rightarrow> status_t + nat \<times> nat" where
  "get_fsinfo vol =
     (if fat_bits vol \<noteq> 32 \<or> fsinfo_sector vol = 0xffff then Inl B_ERROR
      else case block_cache_get vol (fsinfo_sector vol) of
             None \<Rightarrow> Inl EIO
           | Some bn \<Rightarrow>
               let buffer = block_data vol bn
               in if fsinfo_magic buffer then Inr (read32 buffer 0x1e8, read32 buffer 0x1ec) else Inl B_ERROR)"

text \<open>\<open>err\<close> is the status after the sector has been looked at.\<close>

definition volume_count_free_cluster :: "nspace \<Rightarrow> nspace" where
  "volume_count_free_cluster vol =
     (if vol_flags vol AND B_FS_IS_READONLY \<noteq> 0 then vol\<lparr>free_clusters := 0\<rparr>
      else
        let (err, vol) =
          (case get_fsinfo vol of
             Inl err \<Rightarrow> (err, vol)
           | Inr (count, hint) \<Rightarrow>
               let (err, vol) = (if count < total_clusters vol then (B_OK, vol\<lparr>free_clusters := count\<rparr>) else (- 1, vol))
               in (err, if hint < total_clusters vol then vol\<lparr>last_allocated := hint\<rparr> else vol))
        in if err < 0 then
             let err = count_free_clusters vol
             in if err < 0 then vol else vol\<lparr>free_clusters := u32_of_int err\<rparr>
           else vol)"

definition do_dosfs_sync :: "nspace \<Rightarrow> status_t \<times> nspace" where
  "do_dosfs_sync vol = (B_OK, update_fsinfo vol)"

definition dosfs_sync :: "nspace \<Rightarrow> status_t \<times> nspace" where
  "dosfs_sync vol = do_dosfs_sync vol"

text \<open>What the operations do at their end when the volume is mounted with synchronous operations.\<close>

definition op_sync :: "nspace \<Rightarrow> nspace" where
  "op_sync vol = (if fs_flags vol AND FS_FLAGS_OP_SYNC \<noteq> 0 then snd (do_dosfs_sync vol) else vol)"

section \<open>Theorems\<close>

lemma fsinfo_magic_write:
  assumes "length b \<ge> 0x200"
  shows "fsinfo_magic (write32 (write32 b 0x1e8 x) 0x1ec y) \<longleftrightarrow> fsinfo_magic b"
proof -
  have n: "write32 (write32 b 0x1e8 x) 0x1ec y ! i = b ! i" if "i < 0x1e8 \<or> 0x1f0 \<le> i" for i
    using that by (subst nth_write32_other, simp, auto intro: nth_write32_other)
  show ?thesis unfolding fsinfo_magic_def read32_def read16_def by (simp add: n)
qed

lemma fsinfo_read_back:
  assumes "length b \<ge> 0x200"
  shows "read32 (write32 (write32 b 0x1e8 x) 0x1ec y) 0x1e8 = x mod 2 ^ 32" "read32 (write32 (write32 b 0x1e8 x) 0x1ec y) 0x1ec = y mod 2 ^ 32"
proof -
  have "read32 (write32 (write32 b 0x1e8 x) 0x1ec y) 0x1e8 = read32 (write32 b 0x1e8 x) 0x1e8"
    by (rule read32_cong) (simp_all add: nth_write32_other)
  then show "read32 (write32 (write32 b 0x1e8 x) 0x1ec y) 0x1e8 = x mod 2 ^ 32" using assms by (simp add: read32_write32)
  show "read32 (write32 (write32 b 0x1e8 x) 0x1ec y) 0x1ec = y mod 2 ^ 32" using assms by (simp add: read32_write32)
qed

lemma update_fsinfo_only_cache: "update_fsinfo vol = vol\<lparr>fBlockCache := fBlockCache (update_fsinfo vol)\<rparr>"
  by (auto simp: update_fsinfo_def block_store_def Let_def split: option.splits)

lemma update_fsinfo_other_blocks: "bn \<noteq> fsinfo_sector vol \<Longrightarrow> fBlockCache (update_fsinfo vol) bn = fBlockCache vol bn"
  by (auto simp: update_fsinfo_def block_store_def Let_def block_cache_get_Some split: option.splits)

lemma update_fsinfo_unchanged: "fat_bits vol \<noteq> 32 \<Longrightarrow> update_fsinfo vol = vol"
  by (simp add: update_fsinfo_def)

text \<open>C39: the counters in the file system information sector. What \<^verbatim>\<open>update_fsinfo\<close> writes to a writable 32 bit volume with a valid sector is
  what \<^verbatim>\<open>get_fsinfo\<close> reads, and what mounting the volume again takes over, as long as the counters are below the number of clusters. No other sector
  changes, and of this one only the eight bytes of the counters.\<close>

theorem fsinfo_roundtrip:
  assumes "fat_bits vol = 32" "fsinfo_sector vol \<noteq> 0xffff" "vol_flags vol AND B_FS_IS_READONLY = 0"
    and "fBlockCache vol (fsinfo_sector vol) = Some b" "length b = bytes_per_sector vol" "0x200 \<le> bytes_per_sector vol" "fsinfo_magic b"
    and "free_clusters vol < total_clusters vol" "last_allocated vol < total_clusters vol" "total_clusters vol < 2 ^ 32"
  shows "get_fsinfo (snd (dosfs_sync vol)) = Inr (free_clusters vol, last_allocated vol)
    \<and> volume_count_free_cluster ((snd (dosfs_sync vol))\<lparr>free_clusters := f, last_allocated := l\<rparr>) = snd (dosfs_sync vol)
    \<and> (\<forall>bn. bn \<noteq> fsinfo_sector vol \<longrightarrow> fBlockCache (snd (dosfs_sync vol)) bn = fBlockCache vol bn)
    \<and> (\<forall>i. i < 0x1e8 \<or> 0x1f0 \<le> i \<longrightarrow> block_data (snd (dosfs_sync vol)) (fsinfo_sector vol) ! i = b ! i)"
proof -
  let ?b = "write32 (write32 b 0x1e8 (free_clusters vol)) 0x1ec (last_allocated vol)"
  have u: "snd (dosfs_sync vol) = block_store vol (fsinfo_sector vol) ?b"
    using assms(1-4,7) by (simp add: dosfs_sync_def do_dosfs_sync_def update_fsinfo_def block_data_def)
  have "0x200 \<le> length b" using assms(5,6) by simp
  note m = fsinfo_magic_write[OF this] fsinfo_read_back[OF this]
  have g: "get_fsinfo (v\<lparr>free_clusters := f, last_allocated := l\<rparr>) = get_fsinfo v" for v f l
    by (simp add: get_fsinfo_def block_cache_get_def block_data_def)
  have r: "get_fsinfo (block_store vol (fsinfo_sector vol) ?b) = Inr (free_clusters vol, last_allocated vol)"
    using assms m by (simp add: get_fsinfo_def block_cache_get_def block_store_def block_data_def)
  define v where "v = block_store vol (fsinfo_sector vol) ?b"
  have f: "vol_flags v = vol_flags vol" "total_clusters v = total_clusters vol" "free_clusters v = free_clusters vol" "last_allocated v = last_allocated vol"
    by (simp_all add: v_def block_store_def)
  have c: "volume_count_free_cluster (v\<lparr>free_clusters := f, last_allocated := l\<rparr>) = v"
  proof -
    have "volume_count_free_cluster (v\<lparr>free_clusters := f, last_allocated := l\<rparr>)
        = v\<lparr>free_clusters := f, last_allocated := l\<rparr>\<lparr>free_clusters := free_clusters vol\<rparr>\<lparr>last_allocated := last_allocated vol\<rparr>"
      unfolding volume_count_free_cluster_def g r[folded v_def] sum.case prod.case Let_def using f assms(3,8,9) by (simp add: B_OK_def)
    also have "\<dots> = v" by (simp flip: f(3,4))
    finally show ?thesis .
  qed
  have "?b ! i = b ! i" if "i < 0x1e8 \<or> 0x1f0 \<le> i" for i
    using that by (subst nth_write32_other, simp, auto intro: nth_write32_other)
  then show ?thesis unfolding u using r c[unfolded v_def] by simp
qed

subsection \<open>Witnesses\<close>

definition tiny_fsinfo :: block where
  "tiny_fsinfo = [0x52, 0x52, 0x61, 0x41] @ replicate 480 0 @ [0x72, 0x72, 0x41, 0x61] @ replicate 22 0 @ [0x55, 0xaa]"

definition tiny_fat32 :: nspace where
  "tiny_fat32 = tiny_volume\<lparr>fat_bits := 32, fsinfo_sector := 1, bytes_per_sector := 512, vol_flags := 0, total_clusters := 100, free_clusters := 7,
     last_allocated := 5, fBlockCache := [1 \<mapsto> tiny_fsinfo]\<rparr>"

theorem fsinfo_roundtrip_witness:
  "get_fsinfo (snd (dosfs_sync tiny_fat32)) = Inr (7, 5)"
proof -
  have m: "fsinfo_magic tiny_fsinfo" by (simp add: fsinfo_magic_def tiny_fsinfo_def read32_def read16_def nth_append)
  show ?thesis using fsinfo_roundtrip[of tiny_fat32 tiny_fsinfo] m by (simp add: tiny_fat32_def tiny_fsinfo_def)
qed

end
