(* ===== verification/Vnode_Ops.thy ===== *)
theory Vnode_Ops
  imports Dir_Create Attr Fsinfo
begin

text \<open>
  Vnodes in core: \<^verbatim>\<open>make_mode\<close>, \<^verbatim>\<open>dosfs_get_vnode_name\<close>, \<^verbatim>\<open>dosfs_release_vnode\<close> and \<^verbatim>\<open>dosfs_remove_vnode\<close> of \<^verbatim>\<open>fat/file.c\<close>,
  \<^verbatim>\<open>dosfs_read_vnode\<close>, \<^verbatim>\<open>dosfs_walk\<close>, \<^verbatim>\<open>dosfs_access\<close> and the operations on open directories of \<^verbatim>\<open>fat/dir.c\<close>.

  The table of vnodes in core belongs to the virtual file system of the kernel. A \<open>mount\<close> is a volume together with
  that table: the add-on's private structure of each vnode, the number of references to it, and whether
  \<^verbatim>\<open>remove_vnode\<close> was called for it. \<^verbatim>\<open>get_vnode\<close> gives the structure in the table, or reads it with \<^verbatim>\<open>dosfs_read_vnode\<close>;
  \<^verbatim>\<open>put_vnode\<close> calls \<^verbatim>\<open>dosfs_remove_vnode\<close> when the last reference to a removed vnode goes away. The root vnode
  is part of the volume, is always in core, and its references are not counted. Vnodes that are covered by another volume or not yet
  published are left out.
\<close>

section \<open>Definitions\<close>

subsection \<open>File modes\<close>

definition S_IFMT :: nat where "S_IFMT = 0xf000"
definition S_IFREG :: nat where "S_IFREG = 0x8000"
definition S_IFDIR :: nat where "S_IFDIR = 0x4000"
definition S_IRUSR :: nat where "S_IRUSR = 0x100"
definition S_IWUSR :: nat where "S_IWUSR = 0x80"
definition S_IXUSR :: nat where "S_IXUSR = 0x40"
definition S_IRGRP :: nat where "S_IRGRP = 0x20"
definition S_IWGRP :: nat where "S_IWGRP = 0x10"
definition S_IXGRP :: nat where "S_IXGRP = 8"
definition S_IROTH :: nat where "S_IROTH = 4"
definition S_IWOTH :: nat where "S_IWOTH = 2"
definition S_IXOTH :: nat where "S_IXOTH = 1"

lemmas mode_defs = S_IFMT_def S_IFREG_def S_IFDIR_def S_IRUSR_def S_IWUSR_def S_IXUSR_def S_IRGRP_def S_IWGRP_def S_IXGRP_def
  S_IROTH_def S_IWOTH_def S_IXOTH_def

text \<open>\<^verbatim>\<open>x & ~m\<close>.\<close>

definition and_not :: "nat \<Rightarrow> nat \<Rightarrow> nat" where
  "and_not x m = nat (int x AND NOT (int m))"

definition make_mode :: "nspace \<Rightarrow> vnode \<Rightarrow> nat" where
  "make_mode volume node =
     (let result = S_IFREG OR S_IRUSR OR S_IRGRP OR S_IROTH OR S_IWUSR OR S_IWGRP OR S_IWOTH;
          result = (if vn_mode node AND FAT_SUBDIR \<noteq> 0
                    then and_not result S_IFREG OR S_IFDIR OR S_IXUSR OR S_IXGRP OR S_IXOTH else result)
      in if vol_flags volume AND B_FS_IS_READONLY \<noteq> 0 \<or> vn_mode node AND FAT_READ_ONLY \<noteq> 0
         then and_not result (S_IWUSR OR S_IWGRP OR S_IWOTH) else result)"

text \<open>\<^verbatim>\<open>strlcpy\<close> copies at most \<open>size - 1\<close> characters. The root vnode has no name: the copy is from the \<^verbatim>\<open>NULL\<close> pointer.\<close>

definition dosfs_get_vnode_name :: "vnode \<Rightarrow> nat \<Rightarrow> (status_t \<times> name) option" where
  "dosfs_get_vnode_name node sz = map_option (\<lambda>filename. (B_OK, take (sz - 1) filename)) (vn_filename node)"

subsection \<open>Reading and removing vnodes\<close>

text \<open>The search loop of \<^verbatim>\<open>dosfs_read_vnode\<close>.\<close>

fun read_vnode_loop :: "nat \<Rightarrow> env \<Rightarrow> nspace \<Rightarrow> diri \<Rightarrow> ino_t \<Rightarrow> (status_t + dirent_info \<times> name) \<times> nspace" where
  "read_vnode_loop 0 env vol iter loc = (Inl B_ERROR, vol\<lparr>fault := True\<rparr>)"
| "read_vnode_loop (Suc k) env vol iter loc =
     (case next_dirent env vol iter 512 of
        (Inl result, vol, iter) \<Rightarrow> (Inl result, vol)
      | (Inr (info, filename), vol, iter) \<Rightarrow>
          if IS_DIR_CLUSTER_VNID loc then
            if di_cluster info = CLUSTER_OF_DIR_CLUSTER_VNID loc then (Inr (info, filename), vol)
            else read_vnode_loop k env vol iter loc
          else if di_sindex info = INDEX_OF_DIR_INDEX_VNID loc then (Inr (info, filename), vol)
          else (Inl ENOENT, vol))"

text \<open>The vnode for an entry, as \<^verbatim>\<open>dosfs_read_vnode\<close> fills it in. The copy of its name and its file cache and file map can be created.\<close>

definition entry_vnode :: "env \<Rightarrow> nspace \<Rightarrow> ino_t \<Rightarrow> ino_t \<Rightarrow> nat \<Rightarrow> dirent_info \<Rightarrow> name \<Rightarrow> vnode" where
  "entry_vnode env vol vnid dir_vnid disk_image info filename =
     (let st_size = (if di_mode info AND FAT_SUBDIR \<noteq> 0
                     then int (u32 (u32 (count_clusters vol (s32 (int (di_cluster info))) * sectors_per_cluster vol) * bytes_per_sector vol))
                     else int (di_size info));
          entry = \<lparr>vn_vnid = vnid, vn_dir_vnid = dir_vnid, vn_disk_image = disk_image, vn_iteration = 0,
                   vn_sindex = di_sindex info, vn_eindex = di_eindex info, vn_cluster = di_cluster info, vn_mode = di_mode info,
                   vn_st_size = st_size, vn_st_time = dos2time_t (env_tz env) (di_time info),
                   vn_end_cluster =
                     (if di_cluster info \<noteq> 0
                      then u32_of_int (get_nth_fat_entry vol (s32 (int (di_cluster info))) (u32_of_int (size_clusters vol st_size - 1)))
                      else 0),
                   vn_mime = None, vn_dirty = False, vn_filename = Some filename, vn_cache = True\<rparr>
      in if vn_mode entry AND FAT_SUBDIR = 0 then snd (set_mime_type entry filename) else entry)"

text \<open>The marks of the disk image and its directory, and the volume with the directory's id.\<close>

definition disk_image_mark :: "nspace \<Rightarrow> ino_t \<Rightarrow> ino_t \<Rightarrow> name \<Rightarrow> nat \<times> nspace" where
  "disk_image_mark vol vnid dir_vnid filename =
     (if respect_disk_image vol then
        let (mark, vol) = (if dir_vnid = vn_vnid (root_vnode vol) \<and> filename = name_of ''BEOS'' then (1, vol\<lparr>beos_vnid := vnid\<rparr>) else (0, vol))
        in (if dir_vnid = beos_vnid vol \<and> filename = name_of ''IMAGE.BE'' then 2 else mark, vol)
      else (0, vol))"

definition dosfs_read_vnode :: "env \<Rightarrow> nspace \<Rightarrow> ino_t \<Rightarrow> (status_t + vnode \<times> nat) \<times> nspace" where
  "dosfs_read_vnode env vol vnid =
     (if vnid = vn_vnid (root_vnode vol) then (Inr (root_vnode vol, make_mode vol (root_vnode vol)), vol)
      else
        let loc = (case vcache_vnid_to_loc (vol_vcache vol) vnid of (result, loc) \<Rightarrow> if result \<noteq> B_OK then vnid else the loc)
        in if IS_ARTIFICIAL_VNID loc \<or> IS_INVALID_VNID loc then (Inl ENOENT, vol)
           else
             let dir_vnid = dlist_find (vol_vcache vol) (vol_dlist vol) (DIR_OF_VNID loc)
             in if dir_vnid = - 1 then (Inl ENOENT, vol)
                else case diri_init vol (DIR_OF_VNID loc) (if IS_DIR_CLUSTER_VNID loc then 0 else INDEX_OF_DIR_INDEX_VNID loc) new_diri of
                       (None, iter) \<Rightarrow> (Inl ENOENT, vol)
                     | (Some p, iter) \<Rightarrow>
                         (case read_vnode_loop (dir_fuel vol) env vol iter loc of
                            (Inl result, vol) \<Rightarrow> (Inl result, vol)
                          | (Inr (info, filename), vol) \<Rightarrow>
                              if \<not> env_mem env then (Inl ENOMEM, vol)
                              else case disk_image_mark vol vnid dir_vnid filename of (disk_image, vol) \<Rightarrow>
                                     let entry = entry_vnode env vol vnid dir_vnid disk_image info filename
                                     in (Inr (entry, make_mode vol entry), vol)))"

definition dosfs_release_vnode :: "nspace \<Rightarrow> vnode \<Rightarrow> status_t \<times> nspace" where
  "dosfs_release_vnode vol node =
     (0, if fs_flags vol AND FS_FLAGS_OP_SYNC \<noteq> 0 \<and> vn_dirty node then snd (do_dosfs_sync vol) else vol)"

definition dosfs_remove_vnode :: "env \<Rightarrow> nspace \<Rightarrow> vnode \<Rightarrow> bool \<Rightarrow> status_t \<times> nspace" where
  "dosfs_remove_vnode env vol node reenter =
     (if vol_flags vol AND B_FS_IS_READONLY \<noteq> 0 then (EROFS, vol)
      else
        let vol = (if vn_cluster node \<noteq> 0 then snd (clear_fat_chain vol (vn_cluster node)) else vol);
            vol = (if find_vnid_in_vcache (vol_vcache vol) (vn_vnid node) \<noteq> None
                   then vol\<lparr>vol_vcache := snd (remove_from_vcache (vol_vcache vol) (vn_vnid node))\<rparr> else vol);
            vol = (if vn_mode node AND FAT_SUBDIR \<noteq> 0
                   then vol\<lparr>vol_dlist := snd (dlist_remove (env_vnid_mem env) (vol_dlist vol) (vn_vnid node))\<rparr> else vol)
        in (B_OK, if \<not> reenter \<and> fs_flags vol AND FS_FLAGS_OP_SYNC \<noteq> 0 then snd (do_dosfs_sync vol) else vol))"

subsection \<open>The table of vnodes\<close>

record core_node =
  cn_node :: vnode
  cn_refs :: nat
  cn_removed :: bool

record mount =
  mt_vol :: nspace
  mt_nodes :: "ino_t \<Rightarrow> core_node option"

definition mt_root :: "mount \<Rightarrow> ino_t" where
  "mt_root mt = vn_vnid (root_vnode (mt_vol mt))"

definition node_at :: "mount \<Rightarrow> ino_t \<Rightarrow> vnode option" where
  "node_at mt vnid = (if vnid = mt_root mt then Some (root_vnode (mt_vol mt)) else map_option cn_node (mt_nodes mt vnid))"

text \<open>The kernel calls an operation with vnodes that are in core.\<close>

definition node_of :: "mount \<Rightarrow> ino_t \<Rightarrow> vnode" where
  "node_of mt vnid = (case node_at mt vnid of Some node \<Rightarrow> node | None \<Rightarrow> root_vnode (mt_vol mt))"

text \<open>Stores through a pointer to a vnode.\<close>

definition set_node :: "mount \<Rightarrow> ino_t \<Rightarrow> vnode \<Rightarrow> mount" where
  "set_node mt vnid node =
     (if vnid = mt_root mt then mt\<lparr>mt_vol := (mt_vol mt)\<lparr>root_vnode := node\<rparr>\<rparr>
      else case mt_nodes mt vnid of
             None \<Rightarrow> mt
           | Some c \<Rightarrow> mt\<lparr>mt_nodes := (mt_nodes mt)(vnid \<mapsto> c\<lparr>cn_node := node\<rparr>)\<rparr>)"

definition get_vnode :: "env \<Rightarrow> mount \<Rightarrow> ino_t \<Rightarrow> (status_t + vnode) \<times> mount" where
  "get_vnode env mt vnid =
     (if vnid = mt_root mt then (Inr (root_vnode (mt_vol mt)), mt)
      else case mt_nodes mt vnid of
             Some c \<Rightarrow> (Inr (cn_node c), mt\<lparr>mt_nodes := (mt_nodes mt)(vnid \<mapsto> c\<lparr>cn_refs := cn_refs c + 1\<rparr>)\<rparr>)
           | None \<Rightarrow>
               (case dosfs_read_vnode env (mt_vol mt) vnid of
                  (Inl result, vol) \<Rightarrow> (Inl result, mt\<lparr>mt_vol := vol\<rparr>)
                | (Inr (node, mode), vol) \<Rightarrow>
                    (Inr node, \<lparr>mt_vol = vol, mt_nodes = (mt_nodes mt)(vnid \<mapsto> \<lparr>cn_node = node, cn_refs = 1, cn_removed = False\<rparr>)\<rparr>)))"

definition put_vnode :: "env \<Rightarrow> mount \<Rightarrow> ino_t \<Rightarrow> mount" where
  "put_vnode env mt vnid =
     (if vnid = mt_root mt then mt
      else case mt_nodes mt vnid of
             None \<Rightarrow> mt
           | Some c \<Rightarrow>
               if cn_refs c \<le> 1 \<and> cn_removed c
               then \<lparr>mt_vol = snd (dosfs_remove_vnode env (mt_vol mt) (cn_node c) True), mt_nodes = (mt_nodes mt)(vnid := None)\<rparr>
               else mt\<lparr>mt_nodes := (mt_nodes mt)(vnid \<mapsto> c\<lparr>cn_refs := cn_refs c - 1\<rparr>)\<rparr>)"

definition remove_vnode :: "mount \<Rightarrow> ino_t \<Rightarrow> mount" where
  "remove_vnode mt vnid =
     (case mt_nodes mt vnid of
        None \<Rightarrow> mt
      | Some c \<Rightarrow> mt\<lparr>mt_nodes := (mt_nodes mt)(vnid \<mapsto> c\<lparr>cn_removed := True\<rparr>)\<rparr>)"

text \<open>The end of \<^verbatim>\<open>findfile\<close> for a caller that wants the vnode: its result is \<^verbatim>\<open>B_OK\<close> also when \<^verbatim>\<open>get_vnode\<close> fails, and the
  caller's pointer is then not set.\<close>

definition findfile_node :: "env \<Rightarrow> mount \<Rightarrow> vnode \<Rightarrow> name \<Rightarrow> bool \<Rightarrow> bool \<Rightarrow> (status_t + ino_t \<times> vnode option) \<times> bool \<times> mount" where
  "findfile_node env mt dir file check_case check_dups =
     (case findfile env (mt_vol mt) dir file check_case check_dups of
        (Inl result, dups, vol) \<Rightarrow> (Inl result, dups, mt\<lparr>mt_vol := vol\<rparr>)
      | (Inr vnid, dups, vol) \<Rightarrow>
          (case get_vnode env (mt\<lparr>mt_vol := vol\<rparr>) vnid of
             (Inl result, mt) \<Rightarrow> (Inr (vnid, None), dups, mt)
           | (Inr node, mt) \<Rightarrow> (Inr (vnid, Some node), dups, mt)))"

subsection \<open>Looking up and listing\<close>

definition dosfs_walk :: "env \<Rightarrow> mount \<Rightarrow> ino_t \<Rightarrow> name \<Rightarrow> (status_t + ino_t) \<times> mount" where
  "dosfs_walk env mt dir file =
     (case findfile_node env mt (node_of mt dir) file True False of
        (Inl result, dups, mt) \<Rightarrow> (Inl result, mt)
      | (Inr (vnid, vnode), dups, mt) \<Rightarrow> (Inr vnid, mt))"

definition W_OK :: nat where "W_OK = 2"

definition dosfs_access :: "nspace \<Rightarrow> vnode \<Rightarrow> nat \<Rightarrow> status_t" where
  "dosfs_access vol node mode =
     (if mode AND W_OK \<noteq> 0 then
        if vol_flags vol AND B_FS_IS_READONLY \<noteq> 0 then EROFS
        else if vn_mode node AND FAT_READ_ONLY \<noteq> 0 then EPERM
        else if vn_disk_image node \<noteq> 0 then EPERM
        else B_OK
      else B_OK)"

definition dosfs_readlink :: status_t where
  "dosfs_readlink = EINVAL"

record dircookie =
  dc_index :: nat

definition dosfs_opendir :: "env \<Rightarrow> vnode \<Rightarrow> status_t + dircookie" where
  "dosfs_opendir env node =
     (if vn_mode node AND FAT_SUBDIR = 0 then Inl ENOTDIR
      else if \<not> env_mem env then Inl ENOMEM
      else Inr \<lparr>dc_index = 0\<rparr>)"

text \<open>\<^verbatim>\<open>sizeof(struct dirent)\<close> on 32 bit x86: two devices, two ids, the length, the first character of the name and a padding byte.\<close>

definition sizeof_dirent :: nat where "sizeof_dirent = 28"

text \<open>The result is the entry read, if there is one; \<^verbatim>\<open>*num\<close> says whether. The buffer has \<open>bufsize\<close> bytes, a \<^verbatim>\<open>size_t\<close> of 32 bits.\<close>

definition dosfs_readdir :: "env \<Rightarrow> nspace \<Rightarrow> vnode \<Rightarrow> dircookie \<Rightarrow> nat \<Rightarrow> (status_t + dirent option) \<times> nspace \<times> dircookie" where
  "dosfs_readdir env vol dir cookie bufsize =
     (let root = (vn_vnid dir = vn_vnid (root_vnode vol)); i = dc_index cookie
      in if root \<and> i < 2 then
           (Inr (Some \<lparr>d_dev = vol_id vol, d_ino = vn_vnid (root_vnode vol), d_reclen = sizeof_dirent + (if i = 0 then 1 else 2),
                       d_name = (if i = 0 then dot else dotdot)\<rparr>), vol, cookie\<lparr>dc_index := i + 1\<rparr>)
         else
           let i = (if root then i - 2 else i)
           in case diri_init vol (vn_cluster dir) i new_diri of
                (None, diri) \<Rightarrow> (Inr None, vol, cookie\<lparr>dc_index := i\<rparr>)
              | (Some p, diri) \<Rightarrow>
                  (case get_next_dirent env vol dir diri (s32 (int (u32_minus bufsize (sizeof_dirent + 1)))) of (result, vol, diri) \<Rightarrow>
                     let cookie = cookie\<lparr>dc_index := (if root then u32 (current_index diri + 2) else current_index diri)\<rparr>
                     in case result of
                          Inr (vnid, name) \<Rightarrow>
                            (Inr (Some \<lparr>d_dev = vol_id vol, d_ino = vnid, d_reclen = sizeof_dirent + length name, d_name = name\<rparr>), vol, cookie)
                        | Inl result \<Rightarrow> (if result = ENOENT then Inr None else Inl result, vol, cookie)))"

definition dosfs_rewinddir :: "dircookie \<Rightarrow> status_t \<times> dircookie" where
  "dosfs_rewinddir cookie = (B_OK, cookie\<lparr>dc_index := 0\<rparr>)"

definition dosfs_closedir :: status_t where
  "dosfs_closedir = 0"

definition dosfs_free_dircookie :: "dircookie \<Rightarrow> status_t" where
  "dosfs_free_dircookie cookie = 0"

end
