(* ===== verification/Dir_Read.thy ===== *)
theory Dir_Read
  imports Vnode_Ops Find_File
begin

text \<open>
  What callers see of a directory: \<^verbatim>\<open>dosfs_readdir\<close>, called again and again, lists its files, and \<^verbatim>\<open>check_dir_empty\<close> says whether
  there is any besides the two entries for the directory and its parent.
\<close>

section \<open>Definitions\<close>

text \<open>A caller that reads a directory to its end, with at most \<open>k\<close> calls: the entries it gets.\<close>

fun readdir_all :: "nat \<Rightarrow> env \<Rightarrow> nspace \<Rightarrow> vnode \<Rightarrow> dircookie \<Rightarrow> nat \<Rightarrow> (dirent list \<times> nspace) option" where
  "readdir_all 0 env vol dir cookie bufsize = None"
| "readdir_all (Suc k) env vol dir cookie bufsize =
     (case dosfs_readdir env vol dir cookie bufsize of
        (Inl e, vol, cookie) \<Rightarrow> None
      | (Inr None, vol, cookie) \<Rightarrow> Some ([], vol)
      | (Inr (Some e), vol, cookie) \<Rightarrow> map_option (map_prod ((#) e) (\<lambda>vol. vol)) (readdir_all k env vol dir cookie bufsize))"

text \<open>The names of the directory are read with a buffer of \<open>len\<close> bytes as with the 512 bytes that the add-on uses itself.\<close>

definition entries_fit :: "env \<Rightarrow> nspace \<Rightarrow> block list \<Rightarrow> int \<Rightarrow> bool" where
  "entries_fit env vol es len \<longleftrightarrow> 15 \<le> len
     \<and> (\<forall>i < length es. \<forall>f. parse_dirent env vol es i 512 = Some (Inr f) \<longrightarrow> parse_dirent env vol es i (nat len) = Some (Inr f))"

text \<open>What is listed for a file.\<close>

definition lists_file :: "nspace \<Rightarrow> vnode \<Rightarrow> dirent_info \<times> name \<Rightarrow> dirent \<Rightarrow> bool" where
  "lists_file vol dir f e \<longleftrightarrow> d_name e = snd f \<and> file_vnid vol dir f (d_ino e) \<and> d_reclen e = sizeof_dirent + length (snd f)"

definition is_root :: "nspace \<Rightarrow> vnode \<Rightarrow> bool" where
  "is_root vol dir \<longleftrightarrow> vn_vnid dir = vn_vnid (root_vnode vol)"

section \<open>Theorems\<close>

subsection \<open>Listing\<close>

lemma next_dirent_fit:
  assumes "dir_ok vol cluster cs" "iter_at vol cluster cs it i" "listing env vol (dir_entries vol cs) i = Some fs"
    and "entries_fit env vol (dir_entries vol cs) len"
  shows "next_dirent env vol it len = next_dirent env vol it 512"
proof (cases "i < node_entries vol cs")
  case False
  then show ?thesis using assms(2) by (simp add: iter_at_def next_dirent_def)
next
  case True
  let ?es = "dir_entries vol cs"
  have len: "15 \<le> len" and fit: "parse_dirent env vol ?es i 512 = Some (Inr f) \<Longrightarrow> parse_dirent env vol ?es i (nat len) = Some (Inr f)" for f
    using assms(4) True by (cases f; simp add: entries_fit_def)+
  have "current_block it \<noteq> None" using assms(2) True by (simp add: iter_at_def diri_at_def)
  then have nd: "next_dirent env vol it l = (case next_dirent_loop (dir_fuel vol) vol it no_lfn (Some (node_ptr vol cs i)) of
             None \<Rightarrow> (Inl B_ERROR, vol\<lparr>fault := True\<rparr>, it)
           | Some (None, iter, l') \<Rightarrow> (Inl ENOENT, vol, iter)
           | Some (Some p, iter, l') \<Rightarrow> next_dirent_name env vol iter l' (entry_data vol p) (nat l))" if "15 \<le> l" for l
    using that iter_at_current[OF assms(2) True] by (auto simp: next_dirent_def)
  have "node_entries vol cs - i < dir_fuel vol" using node_entries_fuel[OF assms(1)] by linarith
  note S = next_dirent_loop_scan[OF assms(1,2) this, of no_lfn] and L = listing_Some[OF assms(3)]
  show ?thesis
  proof (cases "scan_entries i (drop i ?es) no_lfn")
    case None
    then show ?thesis using L by (simp add: parse_dirent_def split: list.splits)
  next
    case (Some r)
    show ?thesis
    proof (cases r)
      case r: None
      then show ?thesis using S True nd[of len] nd[of 512] len Some by auto
    next
      case r: (Some x)
      obtain j b l where x: "x = (j, b, l)" by (cases x)
      have p: "parse_dirent env vol ?es i k = Some (parse_name env vol j l b k)" for k using Some r x by (simp add: parse_dirent_def)
      obtain f where f: "parse_name env vol j l b 512 = Inr f"
        using L p[of 512] by (cases fs) (auto simp: parse_name_def errno_defs Let_def split: if_splits prod.splits)
      then have g: "parse_name env vol j l b (nat len) = Inr f" using fit p by simp
      obtain it' where lp: "next_dirent_loop (dir_fuel vol) vol it no_lfn (Some (node_ptr vol cs i)) = Some (Some (node_ptr vol cs j), it', l)"
        and j: "b = dir_entry vol cs j" "current_index it' = j" using S True Some r x by (auto simp: diri_at_def)
      have "entry_data vol (node_ptr vol cs j) = b" using j(1) by (simp add: dir_entry_def)
      moreover have "next_dirent_name env vol it' l b (nat len) = next_dirent_name env vol it' l b (nat 512)"
        using f g j(2) by (auto simp: parse_name_def next_dirent_name_def Let_def split: prod.splits if_splits)
      ultimately show ?thesis using nd[of len] nd[of 512] len by (simp add: lp)
    qed
  qed
qed

lemma skip_labels_fit:
  assumes "dir_ok vol cluster cs" "iter_at vol cluster cs it i" "listing env vol (dir_entries vol cs) i = Some fs"
    and "entries_fit env vol (dir_entries vol cs) len"
  shows "skip_labels k env vol dir it len = skip_labels k env vol dir it 512"
  using assms(2,3)
proof (induction k arbitrary: it i fs)
  case (Suc k)
  have n: "next_dirent env vol it len = next_dirent env vol it 512" by (rule next_dirent_fit[OF assms(1) Suc.prems assms(4)])
  show ?case
  proof (cases fs)
    case Nil
    then have "parse_dirent env vol (dir_entries vol cs) i 512 = Some (Inl ENOENT)" using listing_Some[OF Suc.prems(2)] by simp
    then obtain it' where "next_dirent env vol it 512 = (Inl ENOENT, vol, it')" using next_dirent_parse[OF assms(1) Suc.prems(1), of 512 env] by auto
    then show ?thesis using n by simp
  next
    case (Cons f fs')
    have p: "parse_dirent env vol (dir_entries vol cs) i 512 = Some (Inr f)" "listing env vol (dir_entries vol cs) (di_eindex (fst f) + 1) = Some fs'"
      using listing_Some[OF Suc.prems(2)] Cons by simp_all
    then obtain it' where f: "next_dirent env vol it 512 = (Inr f, vol, it')" "iter_at vol cluster cs it' (di_eindex (fst f) + 1)"
      using next_dirent_parse[OF assms(1) Suc.prems(1), of 512 env] by (cases f) auto
    show ?thesis using n f(1) Suc.IH[OF f(2) p(2)] by (cases f) simp
  qed
qed simp

lemma get_next_dirent_fit:
  assumes "dir_ok vol cluster cs" "iter_at vol cluster cs it i" "listing env vol (dir_entries vol cs) i = Some fs"
    and "entries_fit env vol (dir_entries vol cs) len"
  shows "get_next_dirent env vol dir it len = get_next_dirent env vol dir it 512"
  by (simp add: get_next_dirent_def skip_labels_fit[OF assms])

lemma listing_end: "length es \<le> i \<Longrightarrow> listing env vol es i = Some []"
  by (subst listing.simps) (simp add: parse_dirent_def)

lemma iter_at_index: "iter_at vol cluster cs it i \<Longrightarrow> current_index it = i"
  by (auto simp: iter_at_def diri_at_def split: if_splits)

lemma readdir_step:
  assumes "dir_ok vol (vn_cluster dir) cs" "listing env vol (dir_entries vol cs) i = Some fs"
    and "vnids_ok (Suc k) (vol_vcache vol)" "env_ok env" "dir_id_ok dir fs" "i \<le> node_entries vol cs"
    and "entries_fit env vol (dir_entries vol cs) (s32 (int (u32_minus bufsize (sizeof_dirent + 1))))"
    and "dc_index cookie = (if is_root vol dir then i + 2 else i)"
  shows "case dropWhile (is_label vol dir) fs of
      [] \<Rightarrow> \<exists>cookie'. dosfs_readdir env vol dir cookie bufsize = (Inr None, vol, cookie')
    | f # fs' \<Rightarrow> \<exists>e vol' j cookie'. dosfs_readdir env vol dir cookie bufsize = (Inr (Some e), vol', cookie')
        \<and> ids_grow k vol vol' \<and> lists_file vol' dir f e \<and> (d_ino e \<notin> new_vnids (vol_vcache vol') \<or> snd f = dot \<or> snd f = dotdot)
        \<and> j \<le> node_entries vol cs \<and> dc_index cookie' = (if is_root vol dir then j + 2 else j)
        \<and> listing env vol (dir_entries vol cs) j = Some fs'"
proof (cases "i < node_entries vol cs")
  case False
  then have fs: "fs = []" using listing_end[of "dir_entries vol cs" i env vol] assms(2) by simp
  obtain d where "diri_init vol (vn_cluster dir) i new_diri = (None, d)"
    using diri_init_node(2)[OF assms(1), of i new_diri] False assms(6) dir_okD(3)[OF assms(1)] by auto
  then show ?thesis using assms(8) by (simp add: fs dosfs_readdir_def is_root_def Let_def)
next
  case True
  obtain it where it: "diri_init vol (vn_cluster dir) i new_diri = (Some (node_ptr vol cs i), it)" "iter_at vol (vn_cluster dir) cs it i"
    using diri_init_node(1)[OF assms(1) True, of new_diri] True by (auto simp: iter_at_def)
  have R: "dosfs_readdir env vol dir cookie bufsize = (case get_next_dirent env vol dir it 512 of (result, vol', diri) \<Rightarrow>
      let cookie = cookie\<lparr>dc_index := (if is_root vol dir then u32 (current_index diri + 2) else current_index diri)\<rparr>
      in case result of
           Inr (vnid, name) \<Rightarrow> (Inr (Some \<lparr>d_dev = vol_id vol', d_ino = vnid, d_reclen = sizeof_dirent + length name, d_name = name\<rparr>), vol', cookie)
         | Inl result \<Rightarrow> (if result = ENOENT then Inr None else Inl result, vol', cookie))"
    using assms(8) it(1) get_next_dirent_fit[OF assms(1) it(2) assms(2,7)] by (auto simp: dosfs_readdir_def Let_def is_root_def split: prod.split sum.split)
  note G = get_next_dirent_listing[OF assms(1) it(2) assms(2-6)]
  show ?thesis
  proof (cases "dropWhile (is_label vol dir) fs")
    case Nil
    then show ?thesis using G unfolding Nil R by auto
  next
    case (Cons f fs')
    obtain v vol' it' where g: "get_next_dirent env vol dir it 512 = (Inr (v, snd f), vol', it')" "ids_grow k vol vol'" "file_vnid vol' dir f v"
      "v \<notin> new_vnids (vol_vcache vol') \<or> snd f = dot \<or> snd f = dotdot" "iter_at vol (vn_cluster dir) cs it' (di_eindex (fst f) + 1)"
      "di_eindex (fst f) < node_entries vol cs" "listing env vol (dir_entries vol cs) (di_eindex (fst f) + 1) = Some fs'"
      using G unfolding Cons by auto
    have "u32 (di_eindex (fst f) + 1 + 2) = di_eindex (fst f) + 1 + 2" using g(6) dir_okD(3)[OF assms(1)] by simp
    then show ?thesis unfolding Cons R g(1) using g(2-7) iter_at_index[OF g(5)]
      by (simp add: Let_def lists_file_def)
  qed
qed

lemma lists_file_later:
  assumes "lists_file vol dir f e" "d_ino e \<notin> new_vnids (vol_vcache vol) \<or> snd f = dot \<or> snd f = dotdot" "ids_grow k vol vol'"
  shows "lists_file vol' dir f e"
  using assms file_vnid_later[of vol dir f "d_ino e" vol'] by (simp add: lists_file_def ids_grow_def)

lemma readdir_all_from:
  assumes "dir_ok vol (vn_cluster dir) cs" "listing env vol (dir_entries vol cs) i = Some fs" "length fs < k"
    and "vnids_ok (Suc (length fs)) (vol_vcache vol)" "env_ok env" "dir_id_ok dir fs" "i \<le> node_entries vol cs"
    and "entries_fit env vol (dir_entries vol cs) (s32 (int (u32_minus bufsize (sizeof_dirent + 1))))"
    and "dc_index cookie = (if is_root vol dir then i + 2 else i)"
  shows "\<exists>es vol'. readdir_all k env vol dir cookie bufsize = Some (es, vol') \<and> ids_grow 0 vol vol'
    \<and> list_all2 (lists_file vol' dir) (filter (\<lambda>f. \<not> is_label vol dir f) fs) es"
  using assms(1-4,6-9)
proof (induction k arbitrary: vol i fs cookie)
  case (Suc k)
  note S = readdir_step[OF Suc.prems(1,2,4) assms(5) Suc.prems(5-8)]
  show ?case
  proof (cases "dropWhile (is_label vol dir) fs")
    case Nil
    then have "filter (\<lambda>f. \<not> is_label vol dir f) fs = []" by (simp add: filter_empty_conv)
    moreover have "ids_grow 0 vol vol" using ids_grow_refl vnids_ok_mono[OF Suc.prems(4)] by blast
    ultimately show ?thesis using S unfolding Nil by auto
  next
    case (Cons f fs')
    obtain e vol1 j cookie' where r: "dosfs_readdir env vol dir cookie bufsize = (Inr (Some e), vol1, cookie')" "ids_grow (length fs) vol vol1"
      "lists_file vol1 dir f e" "d_ino e \<notin> new_vnids (vol_vcache vol1) \<or> snd f = dot \<or> snd f = dotdot" "j \<le> node_entries vol cs"
      "dc_index cookie' = (if is_root vol dir then j + 2 else j)" "listing env vol (dir_entries vol cs) j = Some fs'"
      using S unfolding Cons by auto
    have sd: "same_disk vol vol1" and vk: "vnids_ok (length fs) (vol_vcache vol1)" using r(2) by (auto simp: ids_grow_def)
    note P = same_disk_parse[OF sd]
    have len: "length fs' < length fs" and sub: "set fs' \<subseteq> set fs" using dropWhile_rest[OF Cons] by auto
    have ne: "node_entries vol1 cs = node_entries vol cs" by (metis length_dir_entries P(1))
    have l: "listing env vol1 (dir_entries vol1 cs) j = Some fs'" using r(7) P(1) same_disk_listing[OF sd] by simp
    have "\<exists>es vol'. readdir_all k env vol1 dir cookie' bufsize = Some (es, vol') \<and> ids_grow 0 vol1 vol'
      \<and> list_all2 (lists_file vol' dir) (filter (\<lambda>f. \<not> is_label vol1 dir f) fs') es"
    proof (rule Suc.IH[OF P(6)[OF Suc.prems(1)] l])
      show "length fs' < k" using len Suc.prems(3) by simp
      show "vnids_ok (Suc (length fs')) (vol_vcache vol1)" using vnids_ok_mono[OF vk] len by simp
      show "dir_id_ok dir fs'" using Suc.prems(5) sub by (auto simp: dir_id_ok_def list_all_iff)
      show "j \<le> node_entries vol1 cs" using r(5) ne by simp
      show "entries_fit env vol1 (dir_entries vol1 cs) (s32 (int (u32_minus bufsize (sizeof_dirent + 1))))"
        using Suc.prems(7) by (simp add: entries_fit_def P(1,2))
      show "dc_index cookie' = (if is_root vol1 dir then j + 2 else j)" using r(6) same_disk_fields(1)[OF sd] by (simp add: is_root_def)
    qed
    then obtain es vol' where a: "readdir_all k env vol1 dir cookie' bufsize = Some (es, vol')" "ids_grow 0 vol1 vol'"
      "list_all2 (lists_file vol' dir) (filter (\<lambda>f. \<not> is_label vol dir f) fs') es" unfolding P(4) by blast
    have "lists_file vol' dir f e" using lists_file_later[OF r(3,4) a(2)] .
    moreover have "filter (\<lambda>f. \<not> is_label vol dir f) fs = f # filter (\<lambda>f. \<not> is_label vol dir f) fs'" using Cons by (simp add: filter_dropWhile)
    ultimately show ?thesis using r(1) a ids_grow_trans[OF r(2) a(2)] by simp
  qed
qed simp

lemma readdir_lists:
  assumes "dir_ok vol (vn_cluster dir) cs" "dir_files env vol dir cs = Some files"
    and "vnids_ok (node_entries vol cs + 1) (vol_vcache vol)" "env_ok env" "CLUSTER_OF_DIR_CLUSTER_VNID (vn_vnid dir) < 2 ^ 28"
    and "entries_fit env vol (dir_entries vol cs) (s32 (int (u32_minus bufsize (sizeof_dirent + 1))))"
  shows "\<exists>es vol'. readdir_all (node_entries vol cs + 3) env vol dir \<lparr>dc_index = 0\<rparr> bufsize = Some (es, vol') \<and> same_disk vol vol'
    \<and> (if is_root vol dir then map d_name (take 2 es) = [dot, dotdot] \<and> list_all2 (lists_file vol' dir) files (drop 2 es)
       else list_all2 (lists_file vol' dir) files es)"
proof -
  obtain fs where fs: "listing env vol (dir_entries vol cs) 0 = Some fs" "files = filter (\<lambda>f. \<not> is_label vol dir f) fs"
    using assms(2) by (auto simp: dir_files_def)
  have l: "length fs \<le> node_entries vol cs" using listing_length[OF fs(1)] by simp
  have v: "vnids_ok (Suc (length fs)) (vol_vcache vol)" using vnids_ok_mono[OF assms(3)] l by simp
  have i: "dir_id_ok dir fs" using listing_id_ok[OF fs(1) _ assms(5)] dir_okD(3)[OF assms(1)] by simp
  have A: "\<exists>es vol'. readdir_all k env vol dir cookie bufsize = Some (es, vol') \<and> same_disk vol vol' \<and> list_all2 (lists_file vol' dir) files es"
    if "length fs < k" "dc_index cookie = (if is_root vol dir then 2 else 0)" for k cookie
  proof -
    have "dc_index cookie = (if is_root vol dir then 0 + 2 else 0)" using that(2) by simp
    from readdir_all_from[OF assms(1) fs(1) that(1) v assms(4) i _ assms(6) this] show ?thesis unfolding fs(2) ids_grow_def by auto
  qed
  show ?thesis
  proof (cases "is_root vol dir")
    case False
    then show ?thesis using A[of "node_entries vol cs + 3" "\<lparr>dc_index = 0\<rparr>"] l by simp
  next
    case True
    obtain es vol' where es: "readdir_all (node_entries vol cs + 1) env vol dir \<lparr>dc_index = 2\<rparr> bufsize = Some (es, vol')" "same_disk vol vol'"
      "list_all2 (lists_file vol' dir) files es" using A[of "node_entries vol cs + 1" "\<lparr>dc_index = 2\<rparr>"] l True by auto
    have "readdir_all (node_entries vol cs + 3) env vol dir \<lparr>dc_index = 0\<rparr> bufsize
      = Some (\<lparr>d_dev = vol_id vol, d_ino = vn_vnid dir, d_reclen = sizeof_dirent + 1, d_name = dot\<rparr>
          # \<lparr>d_dev = vol_id vol, d_ino = vn_vnid dir, d_reclen = sizeof_dirent + 2, d_name = dotdot\<rparr> # es, vol')"
    proof -
      have d: "dosfs_readdir env vol dir \<lparr>dc_index = 0\<rparr> bufsize = (Inr (Some \<lparr>d_dev = vol_id vol, d_ino = vn_vnid dir, d_reclen = sizeof_dirent + 1, d_name = dot\<rparr>), vol, \<lparr>dc_index = 1\<rparr>)"
        "dosfs_readdir env vol dir \<lparr>dc_index = 1\<rparr> bufsize = (Inr (Some \<lparr>d_dev = vol_id vol, d_ino = vn_vnid dir, d_reclen = sizeof_dirent + 2, d_name = dotdot\<rparr>), vol, \<lparr>dc_index = 2\<rparr>)"
        using True by (simp_all add: dosfs_readdir_def is_root_def)
      have "node_entries vol cs + 3 = Suc (Suc (node_entries vol cs + 1))" by simp
      then show ?thesis by (simp only: readdir_all.simps(2) d es(1) prod.case sum.case option.case option.map map_prod_simp)
    qed
    then show ?thesis using es(2,3) True by auto
  qed
qed

text \<open>When the root directory has no end marker and all of its entries have been listed, the call that reports the end leaves the cookie two entries back:
  the next call starts to list again.\<close>

lemma readdir_root_end:
  assumes "dir_ok vol (vn_cluster dir) cs" "is_root vol dir" "dc_index cookie = node_entries vol cs + 2"
  shows "dosfs_readdir env vol dir cookie bufsize = (Inr None, vol, cookie\<lparr>dc_index := node_entries vol cs\<rparr>)"
proof -
  obtain d where "diri_init vol (vn_cluster dir) (node_entries vol cs) new_diri = (None, d)"
    using diri_init_node(2)[OF assms(1), of "node_entries vol cs" new_diri] dir_okD(3)[OF assms(1)] by auto
  then show ?thesis using assms(2,3) by (simp add: dosfs_readdir_def is_root_def Let_def)
qed

subsection \<open>Empty directories\<close>

lemma next_dirent_listing:
  assumes "dir_ok vol cluster cs" "iter_at vol cluster cs it i" "listing env vol (dir_entries vol cs) i = Some fs"
  shows "case fs of [] \<Rightarrow> \<exists>it'. next_dirent env vol it 512 = (Inl ENOENT, vol, it')
    | f # fs' \<Rightarrow> \<exists>it'. next_dirent env vol it 512 = (Inr f, vol, it') \<and> iter_at vol cluster cs it' (di_eindex (fst f) + 1)
        \<and> listing env vol (dir_entries vol cs) (di_eindex (fst f) + 1) = Some fs'"
  using listing_Some[OF assms(3)] next_dirent_parse[OF assms(1,2), of 512 env] by (auto split: list.splits)

text \<open>The answer for the files that the loop finds from the round \<open>i\<close> on.\<close>

definition first_two :: "nat \<Rightarrow> dirent_info \<times> name \<Rightarrow> bool" where
  "first_two i f \<longleftrightarrow> snd f = (if i = 0 then dot else dotdot) \<and> di_eindex (fst f) = i"

definition empty_status :: "nat \<Rightarrow> (dirent_info \<times> name) list \<Rightarrow> status_t" where
  "empty_status i fs =
     (if i = 2 then if fs = [] then B_OK else ENOTEMPTY
      else case fs of [] \<Rightarrow> ENOENT | f # fs \<Rightarrow>
        if \<not> first_two i f then ENOTDIR
        else if i = 1 then if fs = [] then B_OK else ENOTEMPTY
        else case fs of [] \<Rightarrow> ENOENT | g # fs \<Rightarrow> if \<not> first_two 1 g then ENOTDIR else if fs = [] then B_OK else ENOTEMPTY)"

lemma empty_loop_two:
  assumes "dir_ok vol cluster cs" "iter_at vol cluster cs it i" "listing env vol (dir_entries vol cs) i = Some fs"
  shows "empty_loop env vol it 2 r = (empty_status 2 fs, vol)"
  using next_dirent_listing[OF assms] by (cases fs) (auto simp: empty_loop.simps empty_status_def)

lemma empty_loop_step:
  assumes "dir_ok vol cluster cs" "iter_at vol cluster cs it i" "listing env vol (dir_entries vol cs) i = Some fs" "n < 2"
  shows "case fs of [] \<Rightarrow> empty_loop env vol it n r = (ENOENT, vol)
    | f # fs' \<Rightarrow> if \<not> first_two n f then empty_loop env vol it n r = (ENOTDIR, vol)
        else \<exists>it'. empty_loop env vol it n r = empty_loop env vol it' (n + 1) ENOTEMPTY \<and> iter_at vol cluster cs it' (n + 1)
          \<and> listing env vol (dir_entries vol cs) (n + 1) = Some fs'"
proof (cases fs)
  case Nil
  then show ?thesis using next_dirent_listing[OF assms(1-3)] assms(4) by (auto simp: empty_loop.simps)
next
  case (Cons f fs')
  obtain it' where n: "next_dirent env vol it 512 = (Inr f, vol, it')" "iter_at vol cluster cs it' (di_eindex (fst f) + 1)"
    "listing env vol (dir_entries vol cs) (di_eindex (fst f) + 1) = Some fs'" using next_dirent_listing[OF assms(1-3)] unfolding Cons by auto
  have "n = 0 \<or> n = 1" using assms(4) by auto
  then show ?thesis using n iter_at_index[OF n(2)] unfolding Cons
    by (cases f) (auto simp: first_two_def empty_loop.simps[of env vol it])
qed

lemma check_dir_empty_status:
  assumes "dir_ok vol (vn_cluster dir) cs" "0 < node_entries vol cs" "listing env vol (dir_entries vol cs) 0 = Some fs"
  shows "check_dir_empty env vol dir = (empty_status (if is_root vol dir then 2 else 0) fs, vol)"
proof -
  obtain it where it: "diri_init vol (vn_cluster dir) 0 new_diri = (Some (node_ptr vol cs 0), it)" "iter_at vol (vn_cluster dir) cs it 0"
    using diri_init_node(1)[OF assms(1,2), of new_diri] assms(2) by (auto simp: iter_at_def)
  have c: "check_dir_empty env vol dir = empty_loop env vol it (if is_root vol dir then 2 else 0) B_ERROR"
    by (simp add: check_dir_empty_def it(1) is_root_def)
  note S0 = empty_loop_step[OF assms(1) it(2) assms(3), of 0 B_ERROR]
  show ?thesis
  proof (cases "is_root vol dir \<or> fs = [] \<or> \<not> first_two 0 (hd fs)")
    case True
    then show ?thesis unfolding c using empty_loop_two[OF assms(1) it(2) assms(3)] S0 by (auto simp: empty_status_def split: list.splits)
  next
    case False
    then obtain f fs1 where f: "fs = f # fs1" "first_two 0 f" by (cases fs) auto
    obtain it1 where 1: "empty_loop env vol it 0 B_ERROR = empty_loop env vol it1 1 ENOTEMPTY" "iter_at vol (vn_cluster dir) cs it1 1"
      "listing env vol (dir_entries vol cs) 1 = Some fs1" using S0 f by auto
    note S1 = empty_loop_step[OF assms(1) 1(2,3), of 1 ENOTEMPTY]
    show ?thesis
    proof (cases "fs1 = [] \<or> \<not> first_two 1 (hd fs1)")
      case True
      then show ?thesis unfolding c using S1 f False 1(1) by (auto simp: empty_status_def split: list.splits)
    next
      case F2: False
      then obtain g fs2 where g: "fs1 = g # fs2" "first_two 1 g" by (cases fs1) auto
      obtain it2 where "empty_loop env vol it1 1 ENOTEMPTY = empty_loop env vol it2 2 ENOTEMPTY" "iter_at vol (vn_cluster dir) cs it2 2"
        "listing env vol (dir_entries vol cs) 2 = Some fs2" using S1 g by (auto simp: numeral_2_eq_2)
      then show ?thesis unfolding c using empty_loop_two[OF assms(1), of it2 2 env fs2] f g 1(1) False by (simp add: empty_status_def)
    qed
  qed
qed

end
