(* ===== verification/Readdir_Laws.thy ===== *)
theory Readdir_Laws
  imports Create_Laws Dir_Read
begin

text \<open>
  Listing directories with the conversions of \<^verbatim>\<open>encodings.cpp\<close>: a caller's buffer that the names fit into gives the same names as the 512
  bytes that the add-on uses itself.
\<close>

section \<open>Theorems\<close>

subsection \<open>Conversions into a shorter or longer buffer\<close>

lemma lendian_loop_length:
  "lendian_loop src srcLimit d k dst = (n, r) \<Longrightarrow> length dst \<le> length r \<and> (length dst \<le> d \<longrightarrow> length r \<le> d)"
proof (induction src srcLimit d k dst rule: lendian_loop.induct)
  case (1 src srcLimit d k dst)
  show ?case using 1(1)[OF _ refl] 1(2) by (fastforce simp: lendian_loop.simps[of src srcLimit d k dst] Let_def split: if_splits)
qed

lemma one_loop_length:
  "one_loop tab src srcLimit d k dst = (n, r) \<Longrightarrow> length dst \<le> length r \<and> (length dst \<le> d \<longrightarrow> length r \<le> d)"
proof (induction tab src srcLimit d k dst rule: one_loop.induct)
  case (1 tab src srcLimit d k dst)
  show ?case using 1(1)[OF _ refl] 1(2) by (fastforce simp: one_loop.simps[of tab src srcLimit d k dst] Let_def split: if_splits)
qed

text \<open>A conversion that has read all of its input gives the same with any buffer that the output fits into.\<close>

lemma lendian_loop_fits:
  "lendian_loop src srcLimit d k dst = (n, r) \<Longrightarrow> srcLimit \<le> n \<Longrightarrow> length r \<le> d' \<Longrightarrow> lendian_loop src srcLimit d' k dst = (n, r)"
proof (induction src srcLimit d k dst rule: lendian_loop.induct)
  case (1 src srcLimit d k dst)
  let ?u = "u_to_utf8 (unit_at src k) (unit_at src (k + 2))"
  note eq = lendian_loop.simps[of src srcLimit _ k dst]
  show ?case
  proof (cases "k < srcLimit")
    case True
    then have a: "\<not> length dst + length ?u > d" using 1(2,3) by (auto simp: eq Let_def)
    then have l: "lendian_loop src srcLimit d (k + 2) (dst @ ?u) = (n, r)" using 1(2) True by (simp add: eq Let_def)
    then have "length dst + length ?u \<le> d'" using lendian_loop_length[OF l] 1(4) by simp
    then show ?thesis using 1(1)[OF True refl a l 1(3,4)] True by (simp add: eq Let_def)
  qed (use 1(2) in \<open>simp add: eq lendian_loop.simps[of src srcLimit d' n r]\<close>)
qed

lemma one_loop_fits:
  "one_loop tab src srcLimit d k dst = (n, r) \<Longrightarrow> srcLimit \<le> n \<Longrightarrow> length r \<le> d' \<Longrightarrow> one_loop tab src srcLimit d' k dst = (n, r)"
proof (induction tab src srcLimit d k dst rule: one_loop.induct)
  case (1 tab src srcLimit d k dst)
  let ?u = "u_to_utf8 (tab ! unat (byte_at src k)) 0"
  note eq = one_loop.simps[of tab src srcLimit _ k dst]
  show ?case
  proof (cases "k < srcLimit")
    case True
    then have a: "\<not> length dst + length ?u > d" using 1(2,3) by (auto simp: eq Let_def)
    then have l: "one_loop tab src srcLimit d (k + 1) (dst @ ?u) = (n, r)" using 1(2) True by (simp add: eq Let_def)
    then have "length dst + length ?u \<le> d'" using one_loop_length[OF l] 1(4) by simp
    then show ?thesis using 1(1)[OF True refl a l 1(3,4)] True by (simp add: eq Let_def)
  qed (use 1(2) in \<open>simp add: eq one_loop.simps[of tab src srcLimit d' n r]\<close>)
qed

text \<open>512 bytes are enough for a short name.\<close>

lemma u_to_utf8_length: "length (u_to_utf8 u v) \<le> 4"
  by (simp add: u_to_utf8_def Let_def)

lemma one_loop_all:
  "length dst + 4 * (srcLimit - k) \<le> d \<Longrightarrow> srcLimit \<le> fst (one_loop tab src srcLimit d k dst)"
proof (induction tab src srcLimit d k dst rule: one_loop.induct)
  case (1 tab src srcLimit d k dst)
  let ?u = "u_to_utf8 (tab ! unat (byte_at src k)) 0"
  have u: "length ?u \<le> 4" by (rule u_to_utf8_length)
  show ?case
  proof (cases "k < srcLimit")
    case True
    then have "\<not> length dst + length ?u > d" "length (dst @ ?u) + 4 * (srcLimit - (k + 1)) \<le> d" using 1(2) u by auto
    then show ?thesis using 1(1)[OF True refl] True by (simp add: one_loop.simps[of tab src srcLimit d k dst] Let_def)
  qed (simp add: one_loop.simps)
qed

text \<open>The bytes of the names of a directory, terminators included, are at most \<open>len\<close>, also of long names that do not belong to their short
  entry any more. The code converts those before it compares the check sums.\<close>

definition short_bytes :: "block \<Rightarrow> nat" where
  "short_bytes b = length (snd (enc_msdos_to_utf8 (take 11 b) 512 (b ! 0xc AND 0x18 \<noteq> 0)))"

definition long_bytes :: "lfn \<Rightarrow> nat" where
  "long_bytes l = (if start_index l = 0xffff \<or> lfn_count l \<noteq> 1 then 0
     else length (snd (enc_unicode_to_utf8 (take (filename_len l) (uni l)) (filename_len l) 512)))"

definition names_fit :: "block list \<Rightarrow> nat \<Rightarrow> bool" where
  "names_fit es len \<longleftrightarrow> (\<forall>i < length es. \<forall>j b l. scan_entries i (drop i es) no_lfn = Some (Some (j, b, l)) \<longrightarrow> short_bytes b \<le> len \<and> long_bytes l \<le> len)"

lemma enc_unicode_fits:
  assumes "fst (enc_unicode_to_utf8 w n 512) = 0" "length (snd (enc_unicode_to_utf8 w n 512)) \<le> len"
  shows "enc_unicode_to_utf8 w n len = enc_unicode_to_utf8 w n 512"
proof -
  obtain m r where l: "lendian_loop w n 512 0 [] = (m, r)" by fastforce
  then have "n \<le> m" "length r \<le> len" using assms by (auto simp: enc_unicode_to_utf8_def lendian_unicode_to_utf8_def B_ERROR_def split: if_splits)
  then show ?thesis using l lendian_loop_fits[OF l] by (simp add: enc_unicode_to_utf8_def lendian_unicode_to_utf8_def)
qed

lemma enc_msdos_fits:
  assumes "length (snd (enc_msdos_to_utf8 b 512 lower)) \<le> len"
  shows "enc_msdos_to_utf8 b len lower = enc_msdos_to_utf8 b 512 lower"
proof -
  define src where "src = (let low = (\<lambda>c. if lower then lower8 c else c) in
    (case takeWhile (\<lambda>c. c \<noteq> 0x20) (take 8 b) of [] \<Rightarrow> [] | c # cs \<Rightarrow> (if c = 5 then 0xe5 else low c) # map low cs)
    @ (if b ! 8 \<noteq> 0x20 then 0x2e # map low (takeWhile (\<lambda>c. c \<noteq> 0x20) (take 3 (drop 8 b))) else []) @ [0])"
  have e: "enc_msdos_to_utf8 b d lower = (case one_loop msdostou src (length src) d 0 [] of (n, r) \<Rightarrow> (if length r > 0 then B_OK else B_ERROR, r))" for d
    by (simp add: enc_msdos_to_utf8_def src_def Let_def one_to_utf8_def split: prod.split)
  have "length (takeWhile (\<lambda>c. c \<noteq> 0x20) (take 8 b)) \<le> 8" "length (takeWhile (\<lambda>c. c \<noteq> 0x20) (take 3 (drop 8 b))) \<le> 3"
    by (rule order_trans[OF length_takeWhile_le], simp)+
  then have "length src \<le> 13" by (auto simp: src_def Let_def split: list.split)
  then have "length src \<le> fst (one_loop msdostou src (length src) 512 0 [])" by (intro one_loop_all) simp
  moreover obtain n r where l: "one_loop msdostou src (length src) 512 0 [] = (n, r)" by fastforce
  ultimately show ?thesis using assms one_loop_fits[OF l] by (simp add: e l)
qed

lemma names_fit_512:
  assumes "512 \<le> len"
  shows "names_fit es len"
proof -
  have "length (snd (enc_unicode_to_utf8 w n 512)) \<le> 512" for w n
    using lendian_loop_length[of w n 512 0 "[]"]
    by (cases "lendian_loop w n 512 0 []") (simp add: enc_unicode_to_utf8_def lendian_unicode_to_utf8_def)
  moreover have "length (snd (snd (one_to_utf8 tab w n 512))) \<le> 512" for tab w n
    using one_loop_length[of tab w n 512 0 "[]"] by (cases "one_loop tab w n 512 0 []") (simp add: one_to_utf8_def)
  then have "length (snd (enc_msdos_to_utf8 b 512 lower)) \<le> 512" for b lower
    by (simp add: enc_msdos_to_utf8_def Let_def split_beta)
  ultimately show ?thesis using assms order_trans by (fastforce simp: names_fit_def short_bytes_def long_bytes_def)
qed

lemma names_fit_entries:
  assumes "names_fit es (nat len)" "15 \<le> len"
  shows "entries_fit (with_encodings clock env) vol es len"
  unfolding entries_fit_def
proof (intro conjI allI impI assms(2))
  fix i f assume i: "i < length es" "parse_dirent (with_encodings clock env) vol es i 512 = Some (Inr f)"
  then obtain j b l where s: "scan_entries i (drop i es) no_lfn = Some (Some (j, b, l))" "parse_name (with_encodings clock env) vol j l b 512 = Inr f"
    by (auto simp: parse_dirent_def split: option.splits)
  then have f: "short_bytes b \<le> nat len" "long_bytes l \<le> nat len" using assms(1) i(1) by (auto simp: names_fit_def)
  note S = enc_msdos_fits[OF f(1)[unfolded short_bytes_def]]
  let ?w = "take (filename_len l) (uni l)" let ?n = "filename_len l"
  have "parse_name (with_encodings clock env) vol j l b (nat len) = Inr f"
  proof (cases "start_index l = 0xffff \<or> lfn_count l \<noteq> 1")
    case True
    then show ?thesis using s(2) by (simp add: parse_name_def with_encodings_simps S)
  next
    case False
    then have e: "fst (enc_unicode_to_utf8 ?w ?n 512) = 0" using s(2)
      by (cases "enc_unicode_to_utf8 ?w ?n 512") (auto simp: parse_name_def with_encodings_simps Let_def split: if_splits)
    have u: "enc_unicode_to_utf8 ?w ?n (nat len) = enc_unicode_to_utf8 ?w ?n 512"
      using f(2) False by (intro enc_unicode_fits[OF e]) (simp add: long_bytes_def)
    show ?thesis using s(2) unfolding parse_name_def with_encodings_simps S u .
  qed
  then show "parse_dirent (with_encodings clock env) vol es i (nat len) = Some (Inr f)" using s(1) by (simp add: parse_dirent_def)
qed

subsection \<open>Listing\<close>

text \<open>C16: listing a directory, with the conversions of \<^verbatim>\<open>encodings.cpp\<close>. The caller's buffer has room for the record and for all names of the directory, or for 512
  bytes. Called from the start until it reports no more entries, \<^verbatim>\<open>dosfs_readdir\<close> gives exactly the files of the directory, each once
  and in the order of their entries, with their names, with vnode ids that are recorded at the files' locations, and with the length of the
  record; in the root directory the two entries that are not on the disk come first. The listing ends and leaves the disk as it is.\<close>

theorem readdir_lists_directory:
  assumes "dir_ok vol (vn_cluster dir) cs" "dir_files (with_encodings clock env) vol dir cs = Some files"
    and "vnids_ok (node_entries vol cs + 1) (vol_vcache vol)" "env_ok env" "CLUSTER_OF_DIR_CLUSTER_VNID (vn_vnid dir) < 2 ^ 28"
    and "bufsize = sizeof_dirent + 1 + len" "15 \<le> len" "bufsize < 2 ^ 31" "512 \<le> len \<or> names_fit (dir_entries vol cs) len"
  shows "\<exists>es vol'. readdir_all (node_entries vol cs + 3) (with_encodings clock env) vol dir \<lparr>dc_index = 0\<rparr> bufsize = Some (es, vol') \<and> same_disk vol vol'
    \<and> (if is_root vol dir then map d_name (take 2 es) = [dot, dotdot] \<and> list_all2 (lists_file vol' dir) files (drop 2 es)
       else list_all2 (lists_file vol' dir) files es)"
proof -
  have "s32 (int (u32_minus bufsize (sizeof_dirent + 1))) = int len" using assms(6,8) by simp
  moreover have "names_fit (dir_entries vol cs) len" using assms(9) names_fit_512 by blast
  ultimately have f: "entries_fit (with_encodings clock env) vol (dir_entries vol cs) (s32 (int (u32_minus bufsize (sizeof_dirent + 1))))"
    using assms(7) names_fit_entries[of "dir_entries vol cs" "int len"] by simp
  have "env_ok (with_encodings clock env)" using assms(4) by (simp add: with_encodings_simps)
  from readdir_lists[OF assms(1-3) this assms(5) f] show ?thesis .
qed

subsection \<open>Witness\<close>

text \<open>The small root directory, with a buffer for names of at most 19 bytes.\<close>

theorem readdir_lists_directory_witness:
  "\<exists>es vol'. readdir_all 7 (with_encodings (\<lambda>k. k) tiny_env) tiny_dir tiny_root \<lparr>dc_index = 0\<rparr> 49 = Some (es, vol') \<and> map d_name es = [dot, dotdot, [0x41], [0x61]]"
proof -
  let ?env = "with_encodings (\<lambda>k. k) tiny_env"
  have k: "tiny_entry c ! 0xc = 0" for c by (simp add: tiny_entry_def tiny_name_def nth_append)
  have b: "short_bytes (tiny_entry c) \<le> 20" if "c = 0x41 \<or> c = 0x61" for c
  proof -
    have "unat c < 128" using that by auto
    then have "one_loop msdostou [c, 0] (Suc (Suc 0)) 512 0 [] = (Suc (Suc 0), [c, 0])" using one_loop_ascii[of "[c, 0]" "[]" 512 "[]"] by simp
    then show ?thesis using that by (auto simp: short_bytes_def k tiny_entry_bytes enc_msdos_to_utf8_def tiny_name_def one_to_utf8_def)
  qed
  have l: "long_bytes no_lfn = 0" by (simp add: long_bytes_def no_lfn_def)
  have fit: "names_fit (dir_entries tiny_dir []) 20"
    unfolding names_fit_def
  proof (intro allI impI)
    fix i j c m assume i: "i < length (dir_entries tiny_dir [])" and s: "scan_entries i (drop i (dir_entries tiny_dir [])) no_lfn = Some (Some (j, c, m))"
    have "i = 0 \<or> i = 1 \<or> i = 2 \<or> i = 3" using i by (auto simp: tiny_dir_entries)
    then show "short_bytes c \<le> 20 \<and> long_bytes m \<le> 20" using s b by (auto simp: tiny_dir_entries tiny_entry_bytes l)
  qed
  let ?fs = "[(entry_info tiny_dir 0 0 (tiny_entry 0x41), [0x41]), (entry_info tiny_dir 1 1 (tiny_entry 0x61), [0x61])]"
  have h: "dir_ok tiny_dir (vn_cluster tiny_root) []" "listing ?env tiny_dir (dir_entries tiny_dir []) 0 = Some ?fs"
    using tiny_real_listing[of "\<lambda>k. k"] by (simp_all add: dir_has_files_def dir_state_def tiny_root_cluster)
  have "filter (\<lambda>f. \<not> is_label tiny_dir tiny_root f) ?fs = ?fs" by (simp add: is_label_def entry_info_def tiny_entry_bytes)
  then have f: "dir_files ?env tiny_dir tiny_root [] = Some ?fs" unfolding dir_files_def h(2) by simp
  have v: "vnids_ok (node_entries tiny_dir [] + 1) (vol_vcache tiny_dir)" using tiny_dir_ok(2,3) by simp
  have r: "is_root tiny_dir tiny_root" "node_entries tiny_dir [] + 3 = 7" using tiny_dir_ok(2) by (simp_all add: is_root_def tiny_root_def)
  obtain es vol' where e: "readdir_all 7 ?env tiny_dir tiny_root \<lparr>dc_index = 0\<rparr> 49 = Some (es, vol')"
    "map d_name (take 2 es) = [dot, dotdot]" "list_all2 (lists_file vol' tiny_root) ?fs (drop 2 es)"
    using readdir_lists_directory[OF h(1) f v tiny_dir_ok(4) tiny_root_id, of 49 20] fit r by (auto simp: sizeof_dirent_def)
  have "map d_name (drop 2 es) = [[0x41], [0x61]]" using e(3) by (auto simp: list_all2_Cons1 lists_file_def)
  then have "map d_name (take 2 es @ drop 2 es) = [dot, dotdot, [0x41], [0x61]]" using e(2) by (simp only: map_append) simp
  then show ?thesis using e(1) by simp
qed

end
