(* ===== verification/File_Ops.thy ===== *)
theory File_Ops
  imports Vnode_Ops
begin

text \<open>
  Operations on files: \<^verbatim>\<open>dosfs_rstat\<close>, \<^verbatim>\<open>dosfs_wstat\<close>, \<^verbatim>\<open>dosfs_open\<close>, \<^verbatim>\<open>dosfs_read\<close>, \<^verbatim>\<open>dosfs_write\<close>, \<^verbatim>\<open>dosfs_close\<close>, \<^verbatim>\<open>dosfs_free_cookie\<close>,
  \<^verbatim>\<open>dosfs_can_page\<close>, \<^verbatim>\<open>dosfs_read_pages\<close>, \<^verbatim>\<open>dosfs_write_pages\<close> and \<^verbatim>\<open>dosfs_get_file_map\<close> of \<^verbatim>\<open>fat/file.c\<close>.

  File contents go through the file cache of the kernel, which asks \<^verbatim>\<open>dosfs_get_file_map\<close> where they are on the disk. The
  file cache's reading and writing are arguments. Code under \<^verbatim>\<open>#if 0\<close> is not modelled.
\<close>

section \<open>Definitions\<close>

definition MAX_FILE_SIZE :: int where "MAX_FILE_SIZE = 0xffffffff"

record filecookie =
  fc_mode :: nat
  fc_iteration :: nat
  fc_index :: nat
  fc_cluster :: nat

record stat =
  st_dev :: int
  st_ino :: ino_t
  st_mode :: nat
  st_nlink :: nat
  st_uid :: nat
  st_gid :: nat
  st_size :: int
  st_blocks :: int
  st_blksize :: nat
  st_atime :: int
  st_mtime :: int
  st_ctime :: int
  st_crtime :: int

definition dosfs_rstat :: "nspace \<Rightarrow> vnode \<Rightarrow> status_t \<times> stat" where
  "dosfs_rstat vol node =
     (B_OK, \<lparr>st_dev = vol_id vol, st_ino = vn_vnid node, st_mode = make_mode vol node, st_nlink = 1, st_uid = 0, st_gid = 0,
             st_size = vn_st_size node, st_blocks = (vn_st_size node + 511) sdiv 512, st_blksize = 0x10000,
             st_atime = vn_st_time node, st_mtime = vn_st_time node, st_ctime = vn_st_time node, st_crtime = vn_st_time node\<rparr>)"

definition B_STAT_MODE :: nat where "B_STAT_MODE = 1"
definition B_STAT_SIZE :: nat where "B_STAT_SIZE = 8"
definition B_STAT_MODIFICATION_TIME :: nat where "B_STAT_MODIFICATION_TIME = 0x20"

text \<open>The part of \<^verbatim>\<open>dosfs_wstat\<close> for the size: the status, and whether the vnode is changed.\<close>

definition wstat_size :: "env \<Rightarrow> nspace \<Rightarrow> vnode \<Rightarrow> int \<Rightarrow> status_t \<times> nspace \<times> vnode \<times> bool" where
  "wstat_size env vol node sz =
     (if vn_mode node AND FAT_SUBDIR \<noteq> 0 then (EISDIR, vol, node, False)
      else if sz > MAX_FILE_SIZE then (E2BIG, vol, node, False)
      else
        let clusters = u32_of_int (size_clusters vol sz)
        in case set_fat_chain_length env vol node clusters of (err, vol, node) \<Rightarrow>
             if err = B_OK then (err, vol, node\<lparr>vn_st_size := sz, vn_iteration := u32 (vn_iteration node + 1)\<rparr>, True)
             else (err, vol, node, False))"

definition dosfs_wstat :: "env \<Rightarrow> nspace \<Rightarrow> vnode \<Rightarrow> stat \<Rightarrow> nat \<Rightarrow> status_t \<times> nspace \<times> vnode" where
  "dosfs_wstat env vol node st stat_mask =
     (if vol_flags vol AND B_FS_IS_READONLY \<noteq> 0 then (EROFS, vol, node)
      else if vn_disk_image node = 2 then (EPERM, vol, node)
      else
        let (node, dirty) =
              (if stat_mask AND B_STAT_MODE \<noteq> 0 then
                 (node\<lparr>vn_mode := (if st_mode st AND S_IWUSR \<noteq> 0 then and_not (vn_mode node) FAT_READ_ONLY else vn_mode node OR FAT_READ_ONLY)\<rparr>, True)
               else (node, False));
            (err, vol, node, dirty) =
              (if stat_mask AND B_STAT_SIZE \<noteq> 0 then
                 case wstat_size env vol node (st_size st) of (err, vol, node, changed) \<Rightarrow> (err, vol, node, dirty \<or> changed)
               else (B_OK, vol, node, dirty));
            (node, dirty) =
              (if stat_mask AND B_STAT_MODIFICATION_TIME \<noteq> 0 then (node\<lparr>vn_st_time := st_mtime st\<rparr>, True) else (node, dirty));
            (vol, node) =
              (if dirty then
                 let vol = snd (write_vnode_entry env vol node)
                 in if fs_flags vol AND FS_FLAGS_OP_SYNC \<noteq> 0 then (snd (do_dosfs_sync vol), node\<lparr>vn_dirty := False\<rparr>) else (vol, node)
               else (vol, node))
        in (err, vol, node))"

definition O_RDONLY :: nat where "O_RDONLY = 0"
definition O_RWMASK :: nat where "O_RWMASK = 3"
definition O_EXCL :: nat where "O_EXCL = 0x100"
definition O_CREAT :: nat where "O_CREAT = 0x200"
definition O_TRUNC :: nat where "O_TRUNC = 0x400"
definition O_APPEND :: nat where "O_APPEND = 0x800"

text \<open>The cookie is what is stored through \<^verbatim>\<open>_cookie\<close>.\<close>

definition dosfs_open :: "env \<Rightarrow> nspace \<Rightarrow> vnode \<Rightarrow> nat \<Rightarrow> status_t \<times> filecookie option \<times> nspace \<times> vnode" where
  "dosfs_open env vol node omode =
     (if omode AND O_CREAT \<noteq> 0 then (EINVAL, None, vol, node)
      else
        let omode = (if vol_flags vol AND B_FS_IS_READONLY \<noteq> 0 \<or> vn_mode node AND FAT_READ_ONLY \<noteq> 0 \<or> vn_disk_image node \<noteq> 0
                        \<or> vn_mode node AND FAT_SUBDIR \<noteq> 0
                     then and_not omode O_RWMASK OR O_RDONLY else omode)
        in if omode AND O_TRUNC \<noteq> 0 \<and> omode AND O_RWMASK = O_RDONLY then (EPERM, None, vol, node)
           else
             let (result, vol, node) =
                   (if omode AND O_TRUNC \<noteq> 0 then
                      case set_fat_chain_length env vol node 0 of (result, vol, node) \<Rightarrow>
                        if result \<noteq> B_OK then (result, vol, node)
                        else (result, vol, node\<lparr>vn_mode := 0, vn_st_size := 0, vn_iteration := u32 (vn_iteration node + 1)\<rparr>)
                    else (B_OK, vol, node))
             in if result \<noteq> B_OK then (result, None, vol, node)
                else if \<not> env_mem env then (ENOMEM, None, vol, node)
                else (B_OK, Some \<lparr>fc_mode = omode, fc_iteration = vn_iteration node, fc_index = 0, fc_cluster = vn_cluster node\<rparr>, vol, node))"

text \<open>The file cache reads \<open>len\<close> bytes at a position of a vnode: its status and the bytes it got.\<close>

definition dosfs_read :: "(vnode \<Rightarrow> int \<Rightarrow> nat \<Rightarrow> status_t \<times> block) \<Rightarrow> vnode \<Rightarrow> int \<Rightarrow> nat \<Rightarrow> status_t \<times> block" where
  "dosfs_read file_cache_read node pos len =
     (if vn_mode node AND FAT_SUBDIR \<noteq> 0 then (EISDIR, [])
      else
        let pos = (if pos < 0 then 0 else pos)
        in if vn_st_size node = 0 \<or> len = 0 \<or> pos \<ge> vn_st_size node then (B_OK, [])
           else
             let len = (if pos + int len \<ge> vn_st_size node then nat (vn_st_size node - pos) else len)
             in file_cache_read node pos len)"

text \<open>The part of \<^verbatim>\<open>dosfs_write\<close> that extends the file. The product of the comparison is computed in 32 bits.\<close>

definition write_extend :: "env \<Rightarrow> nspace \<Rightarrow> vnode \<Rightarrow> int \<Rightarrow> nat \<Rightarrow> status_t \<times> nspace \<times> vnode" where
  "write_extend env vol node pos len =
     (if pos + int len > vn_st_size node then
        let clusters = u32_of_int (size_clusters vol (pos + int len));
            (result, vol, node) =
              (if vn_st_size node \<le> int (u32 (u32 (u32_minus clusters 1 * sectors_per_cluster vol) * bytes_per_sector vol)) then
                 case set_fat_chain_length env vol node clusters of (result, vol, node) \<Rightarrow>
                   if result \<noteq> B_OK then (result, vol, node) else (result, vol, node\<lparr>vn_iteration := u32 (vn_iteration node + 1)\<rparr>)
               else (B_OK, vol, node))
        in if result \<noteq> B_OK then (result, vol, node)
           else
             let node = node\<lparr>vn_st_size := pos + int len\<rparr>;
                 vol = snd (write_vnode_entry env vol node)
             in (B_OK, vol, node\<lparr>vn_dirty := True\<rparr>)
      else (B_OK, vol, node))"

text \<open>The file cache writes bytes: its status and how many it took. \<^verbatim>\<open>size_t\<close> has 32 bits.\<close>

definition dosfs_write :: "env \<Rightarrow> (vnode \<Rightarrow> int \<Rightarrow> block \<Rightarrow> status_t \<times> nat) \<Rightarrow> nspace \<Rightarrow> vnode \<Rightarrow> filecookie \<Rightarrow> int \<Rightarrow> block \<Rightarrow>
    status_t \<times> nat \<times> nspace \<times> vnode" where
  "dosfs_write env file_cache_write vol node cookie pos buf =
     (if vn_mode node AND FAT_SUBDIR \<noteq> 0 then (EISDIR, 0, vol, node)
      else if fc_mode cookie AND O_RWMASK = O_RDONLY then (EPERM, 0, vol, node)
      else
        let pos = (if pos < 0 then 0 else pos);
            pos = (if fc_mode cookie AND O_APPEND \<noteq> 0 then vn_st_size node else pos)
        in if pos \<ge> MAX_FILE_SIZE then (E2BIG, 0, vol, node)
           else
             let len = (if pos + int (length buf) \<ge> MAX_FILE_SIZE then nat (MAX_FILE_SIZE - pos) else length buf)
             in case write_extend env vol node pos len of (result, vol, node) \<Rightarrow>
                  if result \<noteq> B_OK then (result, len, vol, node)
                  else case file_cache_write node pos (take len buf) of (result, len) \<Rightarrow> (result, len, vol, node))"

definition dosfs_close :: "nspace \<Rightarrow> vnode \<Rightarrow> status_t \<times> nspace \<times> vnode" where
  "dosfs_close vol node =
     (if fs_flags vol AND FS_FLAGS_OP_SYNC \<noteq> 0 \<and> vn_dirty node
      then (0, snd (do_dosfs_sync vol), node\<lparr>vn_dirty := False\<rparr>) else (0, vol, node))"

definition dosfs_free_cookie :: "filecookie \<Rightarrow> status_t" where
  "dosfs_free_cookie cookie = 0"

subsection \<open>Where a file is on the disk\<close>

definition dosfs_can_page :: bool where
  "dosfs_can_page = False"

type_synonym io_vec = "int \<times> nat"

text \<open>The inner loop over whole sectors, with fuel: how many sectors from \<open>block\<close> on follow each other on the disk, and the iterator at
  the last of them.\<close>

fun map_run :: "nat \<Rightarrow> nspace \<Rightarrow> nat \<Rightarrow> nat \<Rightarrow> int \<Rightarrow> nat \<Rightarrow> csi \<Rightarrow> nat \<times> csi" where
  "map_run 0 vol len bytes_read block sectors iter = (sectors, iter)"
| "map_run (Suc k) vol len bytes_read block sectors iter =
     (let old_csi = iter; (err, iter) = iter_csi vol iter 1
      in if len - bytes_read < u32 ((sectors + 1) * bytes_per_sector vol) then (sectors, old_csi)
         else if err < B_OK \<or> block + int sectors \<noteq> csi_to_block vol iter then (sectors, old_csi)
         else map_run k vol len bytes_read block (sectors + 1) iter)"

text \<open>The status, the vectors and the number of bytes mapped so far. The loop over whole sectors, with fuel. The state is \<open>bytes_read\<close>, the
  vectors in reverse, and the iterator.\<close>

fun map_sectors :: "nat \<Rightarrow> nspace \<Rightarrow> nat \<Rightarrow> nat \<Rightarrow> nat \<Rightarrow> io_vec list \<Rightarrow> csi \<Rightarrow> (status_t \<times> io_vec list) + (nat \<times> io_vec list \<times> csi)" where
  "map_sectors 0 vol len count bytes_read vecs iter = Inl (B_ERROR, vecs)"
| "map_sectors (Suc k) vol len count bytes_read vecs iter =
     (if u32 (bytes_read + bytes_per_sector vol) \<le> len then
        let block = csi_to_block vol iter;
            (sectors, iter) = map_run (len div bytes_per_sector vol + 1) vol len bytes_read block 1 iter;
            vecs = vecs @ [(block * int (bytes_per_sector vol), u32 (sectors * bytes_per_sector vol))];
            bytes_read = u32 (bytes_read + sectors * bytes_per_sector vol)
        in if length vecs \<ge> count then Inl (B_BUFFER_OVERFLOW, vecs)
           else if bytes_read < len then
             case iter_csi vol iter 1 of (result, iter) \<Rightarrow>
               if result \<noteq> B_OK then Inl (EIO, vecs) else map_sectors k vol len count bytes_read vecs iter
           else map_sectors k vol len count bytes_read vecs iter
      else Inr (bytes_read, vecs, iter))"

text \<open>The part for the sector that \<open>pos\<close> is in the middle of.\<close>

definition map_first :: "nspace \<Rightarrow> int \<Rightarrow> nat \<Rightarrow> nat \<Rightarrow> csi \<Rightarrow> (status_t \<times> io_vec list) + (nat \<times> io_vec list \<times> csi)" where
  "map_first vol pos len count iter =
     (let off = nat (pos mod int (bytes_per_sector vol))
      in if off \<noteq> 0 then
           let amt = min (bytes_per_sector vol - off) len;
               vecs = [(csi_to_block vol iter * int (bytes_per_sector vol) + int off, amt)]
           in if 1 \<ge> count then Inl (B_BUFFER_OVERFLOW, vecs)
              else if amt < len then
                case iter_csi vol iter 1 of (result, iter) \<Rightarrow> if result \<noteq> B_OK then Inl (EIO, vecs) else Inr (amt, vecs, iter)
              else Inr (amt, vecs, iter)
         else Inr (0, [], iter))"

text \<open>\<open>count\<close> is \<^verbatim>\<open>*_count\<close>, which is at least 1. The code stores into \<^verbatim>\<open>vecs\<close> before it tests the index.\<close>

definition dosfs_get_file_map :: "nspace \<Rightarrow> vnode \<Rightarrow> int \<Rightarrow> nat \<Rightarrow> nat \<Rightarrow> status_t \<times> io_vec list" where
  "dosfs_get_file_map vol node pos len count =
     (if vn_mode node AND FAT_SUBDIR \<noteq> 0 then (EISDIR, [])
      else
        let pos = (if pos < 0 then 0 else pos)
        in if vn_st_size node = 0 \<or> len = 0 \<or> pos \<ge> vn_st_size node then (B_OK, [])
           else
             let len = (if pos + int len \<ge> vn_st_size node then nat (vn_st_size node - pos) else len);
                 diff = pos div int (bytes_per_sector vol);
                 csi0 = \<lparr>csi_cluster = 0, csi_sector = 0\<rparr>
             in case init_csi vol (vn_cluster node) 0 csi0 of (result, iter) \<Rightarrow>
                  if result \<noteq> B_OK then (result, [])
                  else case (if diff \<noteq> 0 then iter_csi vol iter (s32 diff) else (B_OK, iter)) of (result, iter) \<Rightarrow>
                    if result \<noteq> B_OK then (EIO, [])
                    else case map_first vol pos len count iter of
                           Inl r \<Rightarrow> r
                         | Inr (bytes_read, vecs, iter) \<Rightarrow>
                             (case map_sectors (len div bytes_per_sector vol + 1) vol len count bytes_read vecs iter of
                                Inl r \<Rightarrow> r
                              | Inr (bytes_read, vecs, iter) \<Rightarrow>
                                  if bytes_read < len then
                                    let vecs = vecs @ [(csi_to_block vol iter * int (bytes_per_sector vol), len - bytes_read)]
                                    in if length vecs \<ge> count then (B_BUFFER_OVERFLOW, vecs) else (B_OK, vecs)
                                  else (B_OK, vecs)))"

subsection \<open>Paging\<close>

text \<open>The loop of \<^verbatim>\<open>dosfs_read_pages\<close> and \<^verbatim>\<open>dosfs_write_pages\<close>. The kernel's \<^verbatim>\<open>file_map_translate\<close> gives at most eight
  vectors for a range of the file, and \<^verbatim>\<open>B_BUFFER_OVERFLOW\<close> when the range has more; \<open>io\<close> transfers them and says how many bytes it did, the
  state \<open>s\<close> is the position in the caller's vectors and the memory. \<open>None\<close> is a loop that does not end.\<close>

partial_function (option) pages_loop :: "(int \<Rightarrow> nat \<Rightarrow> status_t \<times> io_vec list) \<Rightarrow> (io_vec list \<Rightarrow> 's \<Rightarrow> nat \<Rightarrow> status_t \<times> nat \<times> 's) \<Rightarrow>
    int \<Rightarrow> nat \<Rightarrow> 's \<Rightarrow> (status_t \<times> 's) option" where
  "pages_loop translate io pos bytesLeft s =
     (case translate pos bytesLeft of (status, fileVecs) \<Rightarrow>
        if status \<noteq> B_OK \<and> status \<noteq> B_BUFFER_OVERFLOW then Some (status, s)
        else
          let bufferOverflow = (status = B_BUFFER_OVERFLOW)
          in case io fileVecs s bytesLeft of (status, bytes, s) \<Rightarrow>
               if status \<noteq> B_OK \<or> \<not> bufferOverflow then Some (status, s)
               else pages_loop translate io (pos + int bytes) (u32_minus bytesLeft bytes) s)"

definition dosfs_read_pages :: "(int \<Rightarrow> nat \<Rightarrow> status_t \<times> io_vec list) \<Rightarrow> (io_vec list \<Rightarrow> 's \<Rightarrow> nat \<Rightarrow> status_t \<times> nat \<times> 's) \<Rightarrow>
    vnode \<Rightarrow> int \<Rightarrow> nat \<Rightarrow> 's \<Rightarrow> (status_t \<times> 's) option" where
  "dosfs_read_pages translate read_vecs node pos numBytes s =
     (if \<not> vn_cache node then Some (B_BAD_VALUE, s) else pages_loop translate read_vecs pos numBytes s)"

definition dosfs_write_pages :: "(int \<Rightarrow> nat \<Rightarrow> status_t \<times> io_vec list) \<Rightarrow> (io_vec list \<Rightarrow> 's \<Rightarrow> nat \<Rightarrow> status_t \<times> nat \<times> 's) \<Rightarrow>
    vnode \<Rightarrow> int \<Rightarrow> nat \<Rightarrow> 's \<Rightarrow> (status_t \<times> 's) option" where
  "dosfs_write_pages translate write_vecs node pos numBytes s =
     (if \<not> vn_cache node then Some (B_BAD_VALUE, s) else pages_loop translate write_vecs pos numBytes s)"

section \<open>Theorems\<close>

text \<open>The paging loop does not end when a transfer for a range with more than eight vectors succeeds without transferring a byte.\<close>

lemma pages_loop_stuck:
  assumes "translate pos bytesLeft = (B_BUFFER_OVERFLOW, vecs)" "io vecs s bytesLeft = (B_OK, 0, s)" "bytesLeft < 2 ^ 32"
  shows "pages_loop translate io pos bytesLeft s = None"
proof -
  have False if "pages_loop translate io pos bytesLeft s = Some r" for r
    using pages_loop.raw_induct[OF _ that, of "\<lambda>tr i p n t r. \<not> (tr = translate \<and> i = io \<and> p = pos \<and> n = bytesLeft \<and> t = s)"] assms
    by (fastforce simp: Let_def errno_defs split: if_splits prod.splits)
  then show ?thesis by (cases "pages_loop translate io pos bytesLeft s") blast+
qed

end
