(* ===== verification/File_Map.thy ===== *)
theory File_Map
  imports File_Ops Chain_Length
begin

text \<open>
  Where the bytes of a file are: the vectors of \<^verbatim>\<open>dosfs_get_file_map\<close> name exactly the positions on the device that hold the requested
  bytes of the file, in order.
\<close>

section \<open>Definitions\<close>

text \<open>The position on the device of the \<open>j\<close>-th byte of the file with the clusters \<open>cs\<close>, and the positions that a vector names.\<close>

definition file_pos :: "nspace \<Rightarrow> nat list \<Rightarrow> nat \<Rightarrow> nat" where
  "file_pos vol cs j = node_block vol cs (j div bytes_per_sector vol) * bytes_per_sector vol + j mod bytes_per_sector vol"

definition vec_bytes :: "io_vec \<Rightarrow> int list" where
  "vec_bytes v = map (\<lambda>i. fst v + int i) [0..<snd v]"

definition covers :: "nspace \<Rightarrow> nat list \<Rightarrow> nat \<Rightarrow> io_vec list \<Rightarrow> nat \<Rightarrow> bool" where
  "covers vol cs pos vecs m \<longleftrightarrow> concat (map vec_bytes vecs) = map (\<lambda>i. int (file_pos vol cs (pos + i))) [0..<m]"

section \<open>Theorems\<close>

lemma covers_Nil [simp]: "covers vol cs pos [] 0"
  by (simp add: covers_def)

lemma covers_snoc:
  assumes "covers vol cs pos vecs m" "\<And>i. i < k \<Longrightarrow> int (file_pos vol cs (pos + m + i)) = off + int i"
  shows "covers vol cs pos (vecs @ [(off, k)]) (m + k)"
proof -
  have "[0..<m + k] = [0..<m] @ map (\<lambda>i. m + i) [0..<k]"
    by (rule nth_equalityI) (auto simp: nth_append)
  then have "map (\<lambda>i. int (file_pos vol cs (pos + i))) [0..<m + k]
      = map (\<lambda>i. int (file_pos vol cs (pos + i))) [0..<m] @ map (\<lambda>i. int (file_pos vol cs (pos + m + i))) [0..<k]"
    by (simp add: comp_def add.assoc)
  also have "map (\<lambda>i. int (file_pos vol cs (pos + m + i))) [0..<k] = vec_bytes (off, k)" using assms(2) by (simp add: vec_bytes_def)
  finally show ?thesis using assms(1) by (simp add: covers_def)
qed

lemma file_pos_sector:
  assumes "j mod bytes_per_sector vol + i < bytes_per_sector vol"
  shows "file_pos vol cs (j + i) = file_pos vol cs j + i"
proof -
  let ?b = "bytes_per_sector vol"
  have "j + i = j div ?b * ?b + (j mod ?b + i)" using div_mult_mod_eq[of j ?b] by linarith
  then have "(j + i) div ?b = j div ?b \<and> (j + i) mod ?b = j mod ?b + i" using assms by (metis div_mult_self3 div_less add_0_right mod_mult_self3 mod_less less_nat_zero_code)
  then show ?thesis by (simp add: file_pos_def)
qed

lemma file_pos_contiguous:
  assumes "contiguous vol cs p n" "i < n * bytes_per_sector vol"
  shows "file_pos vol cs (p * bytes_per_sector vol + i) = node_block vol cs p * bytes_per_sector vol + i"
proof -
  let ?b = "bytes_per_sector vol"
  have "i div ?b < n" using assms(2) by (simp add: less_mult_imp_div_less)
  then have "node_block vol cs (p + i div ?b) = node_block vol cs p + i div ?b" using assms(1) by (simp add: contiguous_def)
  moreover have "0 < ?b" using assms(2) by (cases ?b) auto
  ultimately have "file_pos vol cs (p * ?b + i) = (node_block vol cs p + i div ?b) * ?b + i mod ?b" by (simp add: file_pos_def)
  also have "\<dots> = node_block vol cs p * ?b + i" using div_mult_mod_eq[of i ?b] by (simp add: distrib_right)
  finally show ?thesis .
qed

lemma map_run_csi:
  assumes "sectors * bytes_per_sector vol \<le> len - bytes_read" "len + bytes_per_sector vol < 2 ^ 32"
  shows "map_run k vol len bytes_read block sectors iter = csi_run k vol (len - bytes_read) block sectors iter"
  using assms(1)
proof (induction k arbitrary: sectors iter)
  case (Suc k)
  have "(sectors + 1) * bytes_per_sector vol < 2 ^ 32" using Suc.prems assms(2) by simp
  then have u: "u32 ((sectors + 1) * bytes_per_sector vol) = (sectors + 1) * bytes_per_sector vol" by simp
  obtain e it where i: "iter_csi vol iter 1 = (e, it)" by fastforce
  show ?case
  proof (cases "len - bytes_read < (sectors + 1) * bytes_per_sector vol")
    case False
    then have "map_run k vol len bytes_read block (sectors + 1) it = csi_run k vol (len - bytes_read) block (sectors + 1) it"
      by (intro Suc.IH) simp
    then show ?thesis using u i False by (simp add: Let_def)
  qed (use u i in \<open>simp add: Let_def\<close>)
qed simp

text \<open>The state of the loops: \<open>m\<close> bytes of \<open>n\<close> are mapped, and the iterator is at the next sector.\<close>

definition map_state :: "nspace \<Rightarrow> nat list \<Rightarrow> nat \<Rightarrow> nat \<Rightarrow> nat \<Rightarrow> nat \<times> io_vec list \<times> csi \<Rightarrow> bool" where
  "map_state vol cs pos n count st \<longleftrightarrow> (case st of (m, vecs, iter) \<Rightarrow> covers vol cs pos vecs m \<and> m \<le> n \<and> length vecs < count
     \<and> (m < n \<longrightarrow> (pos + m) mod bytes_per_sector vol = 0 \<and> iter = node_csi vol cs ((pos + m) div bytes_per_sector vol)))"

text \<open>What the loops give when they end early.\<close>

definition map_full :: "nspace \<Rightarrow> nat list \<Rightarrow> nat \<Rightarrow> nat \<Rightarrow> nat \<Rightarrow> status_t \<times> io_vec list \<Rightarrow> bool" where
  "map_full vol cs pos n count r \<longleftrightarrow> fst r = B_BUFFER_OVERFLOW \<and> length (snd r) = count \<and> (\<exists>m \<le> n. covers vol cs pos (snd r) m)"

lemma map_sectors_step:
  assumes "vol_ok vol" "node_layout vol cluster cs" "n + bytes_per_sector vol < 2 ^ 32"
    and "pos + n \<le> node_sectors vol cs * bytes_per_sector vol"
    and "map_state vol cs pos n count (m, vecs, iter)" "m + bytes_per_sector vol \<le> n"
  shows "\<exists>s. 0 < s \<and> m + s * bytes_per_sector vol \<le> n
    \<and> map_run (n div bytes_per_sector vol + 1) vol n m (csi_to_block vol iter) 1 iter = (s, node_csi vol cs ((pos + m) div bytes_per_sector vol + s - 1))
    \<and> covers vol cs pos (vecs @ [(csi_to_block vol iter * int (bytes_per_sector vol), s * bytes_per_sector vol)]) (m + s * bytes_per_sector vol)"
proof -
  let ?b = "bytes_per_sector vol" let ?p = "(pos + m) div ?b"
  have b: "0 < ?b" using vol_okD(4,5)[OF assms(1)] by simp
  have mn: "m < n" using assms(6) b by simp
  have st: "covers vol cs pos vecs m" "(pos + m) mod ?b = 0" "iter = node_csi vol cs ?p" using assms(5) mn by (auto simp: map_state_def)
  have pm: "pos + m = ?p * ?b" using st(2) by (metis add_0_right div_mult_mod_eq)
  have "?p * ?b + ?b \<le> node_sectors vol cs * ?b" using assms(4,6) pm by linarith
  then have pn: "?p < node_sectors vol cs" using b by (metis add_mult_distrib mult_1 mult_le_cancel2 Suc_eq_plus1 Suc_le_eq)
  have tb: "csi_to_block vol iter = int (node_block vol cs ?p)" using node_csi_valid(2)[OF assms(1,2) pn] st(3) by simp
  have c1: "contiguous vol cs ?p 1" using pn by (simp add: contiguous_def)
  have l1: "1 * ?b \<le> n - m" using assms(6) by simp
  obtain s where s: "csi_run (n div ?b + 1) vol (n - m) (int (node_block vol cs ?p)) 1 (node_csi vol cs (?p + 1 - 1)) = (s, node_csi vol cs (?p + s - 1))"
    "1 \<le> s" "contiguous vol cs ?p s" "s * ?b \<le> n - m"
    using csi_run_node[OF assms(1,2) c1 _ l1, of "n div ?b + 1"] by auto
  have "map_run (n div ?b + 1) vol n m (csi_to_block vol iter) 1 iter = (s, node_csi vol cs (?p + s - 1))"
    using map_run_csi[OF l1 assms(3)] s(1) st(3) tb by simp
  moreover have "covers vol cs pos (vecs @ [(csi_to_block vol iter * int ?b, s * ?b)]) (m + s * ?b)"
  proof (rule covers_snoc[OF st(1)])
    fix i assume "i < s * ?b"
    then show "int (file_pos vol cs (pos + m + i)) = csi_to_block vol iter * int ?b + int i"
      using file_pos_contiguous[OF s(3)] tb pm by simp
  qed
  ultimately show ?thesis using s(2,4) mn by (intro exI[of _ s]) auto
qed

lemma map_sectors_covers:
  assumes "vol_ok vol" "node_layout vol cluster cs" "n + 2 * bytes_per_sector vol < 2 ^ 32"
    and "pos + n \<le> node_sectors vol cs * bytes_per_sector vol"
  shows "map_state vol cs pos n count (m, vecs, iter) \<Longrightarrow> (n - m) div bytes_per_sector vol < k \<Longrightarrow>
    (case map_sectors k vol n count m vecs iter of Inl r \<Rightarrow> map_full vol cs pos n count r
     | Inr (m', vecs', iter') \<Rightarrow> map_state vol cs pos n count (m', vecs', iter') \<and> n < m' + bytes_per_sector vol)"
proof (induction k arbitrary: m vecs iter)
  case (Suc k)
  let ?b = "bytes_per_sector vol" let ?p = "(pos + m) div ?b"
  have b: "0 < ?b" using vol_okD(4,5)[OF assms(1)] by simp
  have mn: "m \<le> n" using Suc.prems(1) by (simp add: map_state_def)
  have u: "u32 (m + ?b) = m + ?b" using mn assms(3) by simp
  show ?case
  proof (cases "m + ?b \<le> n")
    case False
    then show ?thesis using Suc.prems(1) u by simp
  next
    case True
    have n1: "n + ?b < 2 ^ 32" using assms(3) by simp
    obtain s where s: "0 < s" "m + s * ?b \<le> n"
      "map_run (n div ?b + 1) vol n m (csi_to_block vol iter) 1 iter = (s, node_csi vol cs (?p + s - 1))"
      "covers vol cs pos (vecs @ [(csi_to_block vol iter * int ?b, s * ?b)]) (m + s * ?b)"
      using map_sectors_step[OF assms(1,2) n1 assms(4) Suc.prems(1) True] by blast
    let ?m = "m + s * ?b" and ?v = "vecs @ [(csi_to_block vol iter * int ?b, s * ?b)]"
    have us: "u32 (s * ?b) = s * ?b" "u32 ?m = ?m" using s(2) assms(3) by simp_all
    have lv: "length vecs < count" using Suc.prems(1) by (simp add: map_state_def)
    show ?thesis
    proof (cases "length ?v \<ge> count")
      case full: True
      then have "map_sectors (Suc k) vol n count m vecs iter = Inl (B_BUFFER_OVERFLOW, ?v)"
        unfolding map_sectors.simps u if_P[OF True] Let_def s(3) prod.case us by simp
      then show ?thesis using full lv s(2,4) by (auto simp: map_full_def intro!: exI[of _ ?m])
    next
      case room: False
      have fuel: "(n - ?m) div ?b < k"
      proof -
        have "(n - ?m) div ?b < (n - m) div ?b"
        proof -
          have "n - m = (n - ?m) + s * ?b" using s(2) by simp
          then have "(n - m) div ?b = (n - ?m) div ?b + s" using b by simp
          then show ?thesis using s(1) by simp
        qed
        then show ?thesis using Suc.prems(2) by simp
      qed
      show ?thesis
      proof (cases "?m < n")
        case more: True
        have pm: "pos + m = ?p * ?b" using Suc.prems(1) True b by (simp add: map_state_def) (metis add_0_right div_mult_mod_eq)
        then have al: "pos + ?m = (?p + s) * ?b" by (simp add: distrib_right)
        then have d: "(pos + ?m) div ?b = ?p + s" "(pos + ?m) mod ?b = 0" using b by simp_all
        have "(?p + s) * ?b < node_sectors vol cs * ?b" using al more assms(4) by linarith
        then have ps: "?p + s < node_sectors vol cs" using b by simp
        then have "iter_csi vol (node_csi vol cs (?p + s - 1)) 1 = (0, node_csi vol cs (?p + s))"
          using iter_csi_node(1)[OF assms(1,2), of "?p + s - 1" 1] s(1) by simp
        then have e: "map_sectors (Suc k) vol n count m vecs iter = map_sectors k vol n count ?m ?v (node_csi vol cs (?p + s))"
          unfolding map_sectors.simps u if_P[OF True] Let_def s(3) prod.case us if_not_P[OF room] if_P[OF more] by (simp add: B_OK_def)
        have "map_state vol cs pos n count (?m, ?v, node_csi vol cs (?p + s))"
          using s(2,4) room d by (simp add: map_state_def)
        then show ?thesis unfolding e by (rule Suc.IH) (rule fuel)
      next
        case all: False
        then have e: "map_sectors (Suc k) vol n count m vecs iter = map_sectors k vol n count ?m ?v (node_csi vol cs (?p + s - 1))"
          unfolding map_sectors.simps u if_P[OF True] Let_def s(3) prod.case us if_not_P[OF room] by simp
        have "map_state vol cs pos n count (?m, ?v, node_csi vol cs (?p + s - 1))"
          using s(2,4) room all by (simp add: map_state_def)
        then show ?thesis unfolding e by (rule Suc.IH) (rule fuel)
      qed
    qed
  qed
qed simp

lemma map_first_covers:
  assumes "vol_ok vol" "node_layout vol cluster cs" "0 < n" "pos + n \<le> node_sectors vol cs * bytes_per_sector vol" "0 < count"
  shows "case map_first vol (int pos) n count (node_csi vol cs (pos div bytes_per_sector vol)) of
      Inl r \<Rightarrow> map_full vol cs pos n count r | Inr st \<Rightarrow> map_state vol cs pos n count st"
proof -
  let ?b = "bytes_per_sector vol" let ?p = "pos div ?b" and ?o = "pos mod ?b" let ?a = "min (?b - ?o) n"
  let ?v = "[(csi_to_block vol (node_csi vol cs ?p) * int ?b + int ?o, ?a)]"
  have b: "0 < ?b" using vol_okD(4,5)[OF assms(1)] by simp
  have o: "nat (int pos mod int ?b) = ?o" by (simp add: nat_mod_distrib)
  have ob: "?o < ?b" using b by simp
  have "?p * ?b < node_sectors vol cs * ?b" using assms(3,4) div_mult_mod_eq[of pos ?b] by linarith
  then have pn: "?p < node_sectors vol cs" using b by simp
  have tb: "csi_to_block vol (node_csi vol cs ?p) = int (node_block vol cs ?p)" using node_csi_valid(2)[OF assms(1,2) pn] .
  show ?thesis
  proof (cases "?o = 0")
    case True
    then show ?thesis using o assms(3,5) by (simp add: map_first_def map_state_def)
  next
    case False
    have "covers vol cs pos ([] @ ?v) (0 + ?a)"
    proof (rule covers_snoc)
      fix i assume "i < ?a"
      then have "file_pos vol cs (pos + i) = file_pos vol cs pos + i" by (intro file_pos_sector) linarith
      then show "int (file_pos vol cs (pos + 0 + i)) = csi_to_block vol (node_csi vol cs ?p) * int ?b + int ?o + int i"
        using tb by (simp add: file_pos_def)
    qed simp
    then have cv: "covers vol cs pos ?v ?a" by simp
    have M: "map_first vol (int pos) n count (node_csi vol cs ?p) =
        (if 1 \<ge> count then Inl (B_BUFFER_OVERFLOW, ?v)
         else if ?a < n then case iter_csi vol (node_csi vol cs ?p) 1 of (result, iter) \<Rightarrow> if result \<noteq> B_OK then Inl (EIO, ?v) else Inr (?a, ?v, iter)
         else Inr (?a, ?v, node_csi vol cs ?p))"
      unfolding map_first_def o Let_def if_P[OF False] by (rule refl)
    consider "1 \<ge> count" | "\<not> 1 \<ge> count" "?a < n" | "\<not> 1 \<ge> count" "\<not> ?a < n" by blast
    then show ?thesis
    proof cases
      case 1
      then have "map_full vol cs pos n count (B_BUFFER_OVERFLOW, ?v)"
        using cv assms(5) by (auto simp: map_full_def intro!: exI[of _ ?a])
      then show ?thesis unfolding M if_P[OF 1] by simp
    next
      case 2
      then have a: "?a = ?b - ?o" by simp
      have e: "pos + ?a = (?p + 1) * ?b" unfolding a distrib_right mult_1 using ob div_mult_mod_eq[of pos ?b] by linarith
      then have "(?p + 1) * ?b < node_sectors vol cs * ?b" using 2(2) assms(4) by linarith
      then have "?p + 1 < node_sectors vol cs" by (rule mult_right_less_imp_less) simp
      then have it: "iter_csi vol (node_csi vol cs ?p) 1 = (0, node_csi vol cs (?p + 1))" using iter_csi_node(1)[OF assms(1,2) pn, of 1] by simp
      have "(pos + ?a) mod ?b = 0" "(pos + ?a) div ?b = ?p + 1" unfolding e using b by simp_all
      then have "map_state vol cs pos n count (?a, ?v, node_csi vol cs (?p + 1))" using cv 2 by (simp add: map_state_def)
      then show ?thesis unfolding M if_not_P[OF 2(1)] if_P[OF 2(2)] it by (simp add: B_OK_def)
    next
      case 3
      then have "map_state vol cs pos n count (?a, ?v, node_csi vol cs ?p)" using cv by (simp add: map_state_def)
      then show ?thesis unfolding M if_not_P[OF 3(1)] if_not_P[OF 3(2)] by simp
    qed
  qed
qed

text \<open>The end of the map: the bytes of the last, partial sector.\<close>

definition map_last :: "nspace \<Rightarrow> nat \<Rightarrow> nat \<Rightarrow> nat \<times> (int \<times> nat) list \<times> csi \<Rightarrow> status_t \<times> (int \<times> nat) list" where
  "map_last vol n count = (\<lambda>(m, vecs, iter).
     if m < n then let vecs = vecs @ [(csi_to_block vol iter * int (bytes_per_sector vol), n - m)]
                   in if length vecs \<ge> count then (B_BUFFER_OVERFLOW, vecs) else (B_OK, vecs)
     else (B_OK, vecs))"

text \<open>What a result of the map covers.\<close>

definition map_result :: "nspace \<Rightarrow> nat list \<Rightarrow> nat \<Rightarrow> nat \<Rightarrow> nat \<Rightarrow> status_t \<times> (int \<times> nat) list \<Rightarrow> bool" where
  "map_result vol cs pos n count r \<longleftrightarrow> (\<exists>e vecs m. r = (e, vecs) \<and> covers vol cs pos vecs m \<and> m \<le> n
     \<and> (e = B_OK \<and> m = n \<and> length vecs < count \<or> e = B_BUFFER_OVERFLOW \<and> length vecs = count))"

lemma map_full_result: "map_full vol cs pos n count r \<Longrightarrow> map_result vol cs pos n count r"
  unfolding map_full_def map_result_def by (metis prod.collapse)

lemma map_last_covers:
  assumes "vol_ok vol" "node_layout vol cl cs" "pos + n \<le> node_sectors vol cs * bytes_per_sector vol"
    and "map_state vol cs pos n count (m, vecs, iter)" "n < m + bytes_per_sector vol"
  shows "map_result vol cs pos n count (map_last vol n count (m, vecs, iter))"
proof (cases "m < n")
  case False
  then have "m = n" using assms(4) by (simp add: map_state_def)
  then show ?thesis using assms(4) by (simp add: map_state_def map_last_def map_result_def)
next
  case True
  let ?b = "bytes_per_sector vol" let ?q = "(pos + m) div ?b" let ?v = "vecs @ [(csi_to_block vol iter * int ?b, n - m)]"
  have i: "covers vol cs pos vecs m" "(pos + m) mod ?b = 0" "iter = node_csi vol cs ?q" "length vecs < count" using assms(4) True by (auto simp: map_state_def)
  have "?q * ?b < node_sectors vol cs * ?b" using True assms(3) div_mult_mod_eq[of "pos + m" ?b] by linarith
  then have tb: "csi_to_block vol iter = int (node_block vol cs ?q)" using node_csi_valid(2)[OF assms(1,2)] i(3) by simp
  have "covers vol cs pos ?v (m + (n - m))"
  proof (rule covers_snoc[OF i(1)])
    fix j assume "j < n - m"
    then have "file_pos vol cs (pos + m + j) = file_pos vol cs (pos + m) + j" using assms(5) i(2) by (intro file_pos_sector) simp
    then show "int (file_pos vol cs (pos + m + j)) = csi_to_block vol iter * int ?b + int j" using tb i(2) by (simp add: file_pos_def)
  qed
  then have "covers vol cs pos ?v n" using True by simp
  moreover have "map_last vol n count (m, vecs, iter) = (if length ?v \<ge> count then B_BUFFER_OVERFLOW else B_OK, ?v)"
    using True by (simp add: map_last_def Let_def)
  ultimately show ?thesis unfolding map_result_def using i(4) by auto
qed

text \<open>The position of the first sector.\<close>

lemma map_iter_start:
  assumes "vol_ok vol" "node_layout vol cl cs" "pos div bytes_per_sector vol < node_sectors vol cs" "pos < 2 ^ 32"
  shows "init_csi vol cl 0 \<lparr>csi_cluster = 0, csi_sector = 0\<rparr> = (0, node_csi vol cs 0)"
    and "(if int pos div int (bytes_per_sector vol) \<noteq> 0 then iter_csi vol (node_csi vol cs 0) (s32 (int pos div int (bytes_per_sector vol))) else (B_OK, node_csi vol cs 0))
      = (B_OK, node_csi vol cs (pos div bytes_per_sector vol))"
proof -
  let ?b = "bytes_per_sector vol"
  have p0: "0 < node_sectors vol cs" using assms(3) by simp
  show "init_csi vol cl 0 \<lparr>csi_cluster = 0, csi_sector = 0\<rparr> = (0, node_csi vol cs 0)"
    using node_cluster_first(2,3)[OF assms(1,2)] p0 by (simp add: init_csi_def Let_def)
  have b5: "0x20 \<le> ?b" using vol_okD(4,5)[OF assms(1)] by simp
  have d31: "pos div ?b < 2 ^ 31" using div_le_mono2[OF _ b5, of pos] assms(4) by simp
  show "(if int pos div int ?b \<noteq> 0 then iter_csi vol (node_csi vol cs 0) (s32 (int pos div int ?b)) else (B_OK, node_csi vol cs 0))
      = (B_OK, node_csi vol cs (pos div ?b))"
  proof (cases "pos div ?b = 0")
    case False
    have "s32 (int pos div int ?b) = int (pos div ?b)" using d31 by (simp flip: of_nat_div)
    then show ?thesis using iter_csi_node(1)[OF assms(1,2) p0, of "pos div ?b"] False d31 assms(3) by (simp add: B_OK_def flip: of_nat_div)
  qed (simp flip: of_nat_div)
qed

lemma get_file_map_eq:
  assumes "vol_ok vol" "node_layout vol (vn_cluster node) cs" "vn_mode node AND FAT_SUBDIR = 0"
    and "int pos < vn_st_size node" "0 < len" "pos div bytes_per_sector vol < node_sectors vol cs" "pos < 2 ^ 32"
    and "n = min len (nat (vn_st_size node) - pos)"
  shows "dosfs_get_file_map vol node (int pos) len count =
    (case map_first vol (int pos) n count (node_csi vol cs (pos div bytes_per_sector vol)) of
       Inl r \<Rightarrow> r
     | Inr (m, vecs, iter) \<Rightarrow> (case map_sectors (n div bytes_per_sector vol + 1) vol n count m vecs iter of Inl r \<Rightarrow> r | Inr st \<Rightarrow> map_last vol n count st))"
proof -
  have len: "(if int pos + int len \<ge> vn_st_size node then nat (vn_st_size node - int pos) else len) = n"
    using assms(4,8) by (auto simp: min_def)
  note I = map_iter_start[OF assms(1,2,6,7)]
  have c: "\<not> (vn_st_size node = 0 \<or> len = 0 \<or> int pos \<ge> vn_st_size node)" using assms(4,5) by auto
  have z: "\<not> int pos < 0" "\<not> (vn_mode node AND FAT_SUBDIR \<noteq> 0)" "\<not> (0::int) \<noteq> B_OK" "\<not> B_OK \<noteq> B_OK" using assms(3) by (simp_all add: B_OK_def)
  show ?thesis
    unfolding dosfs_get_file_map_def map_last_def Let_def if_not_P[OF z(1)] if_not_P[OF z(2)] if_not_P[OF c] len I prod.case if_not_P[OF z(3)] if_not_P[OF z(4)]
    by (rule refl)
qed

text \<open>C6: the vectors of \<^verbatim>\<open>dosfs_get_file_map\<close>. For a range that starts inside a regular file, they name the positions on the device of the file's bytes
  from \<open>pos\<close> on, each byte once and in order: all bytes up to the end of the range or of the file when the status is \<^verbatim>\<open>B_OK\<close>, and as many as
  \<open>count\<close> vectors hold when it is \<^verbatim>\<open>B_BUFFER_OVERFLOW\<close>. There is no other status.\<close>

theorem get_file_map_covers:
  assumes "vol_ok vol" "node_layout vol (vn_cluster node) cs" "vn_mode node AND FAT_SUBDIR = 0"
    and "vn_st_size node \<le> int (node_sectors vol cs * bytes_per_sector vol)" "vn_st_size node \<le> MAX_FILE_SIZE - 2 * int (bytes_per_sector vol)"
    and "int pos < vn_st_size node" "0 < len" "0 < count"
  shows "\<exists>e vecs m. dosfs_get_file_map vol node (int pos) len count = (e, vecs)
    \<and> concat (map vec_bytes vecs) = map (\<lambda>i. int (file_pos vol cs (pos + i))) [0..<m]
    \<and> m \<le> min len (nat (vn_st_size node) - pos)
    \<and> (e = B_OK \<and> m = min len (nat (vn_st_size node) - pos) \<and> length vecs < count \<or> e = B_BUFFER_OVERFLOW \<and> length vecs = count)"
proof -
  let ?b = "bytes_per_sector vol" define n where "n = min len (nat (vn_st_size node) - pos)"
  have "nat (vn_st_size node) \<le> node_sectors vol cs * ?b" "nat (vn_st_size node) + 2 * ?b < 2 ^ 32" "pos < nat (vn_st_size node)"
    using assms(4)[folded nat_le_iff] assms(5,6) by (auto simp: MAX_FILE_SIZE_def)
  then have n: "0 < n" "pos + n \<le> node_sectors vol cs * ?b" "n + 2 * ?b < 2 ^ 32" "pos < 2 ^ 32" using assms(7) by (auto simp: n_def)
  have "pos div ?b * ?b < node_sectors vol cs * ?b" using n(1,2) div_mult_mod_eq[of pos ?b] by linarith
  then have "pos div ?b < node_sectors vol cs" by simp
  note G = get_file_map_eq[OF assms(1-3,6,7) this n(4) n_def, of count] and M = map_first_covers[OF assms(1,2) n(1,2) assms(8)]
  have "map_result vol cs pos n count (dosfs_get_file_map vol node (int pos) len count)"
  proof (cases "map_first vol (int pos) n count (node_csi vol cs (pos div ?b))")
    case (Inl r)
    then show ?thesis using M map_full_result G by simp
  next
    case (Inr st)
    obtain m1 v1 i1 where st: "st = (m1, v1, i1)" by (rule prod_cases3)
    have S1: "map_state vol cs pos n count (m1, v1, i1)" using M Inr st by simp
    have "(n - m1) div ?b < n div ?b + 1" using div_le_mono[of "n - m1" n ?b] by simp
    note S = map_sectors_covers[OF assms(1,2) n(3,2) S1 this]
    show ?thesis
      using S G Inr st map_full_result map_last_covers[OF assms(1,2) n(2)]
      by (cases "map_sectors (n div ?b + 1) vol n count m1 v1 i1") auto
  qed
  then show ?thesis unfolding n_def covers_def map_result_def by blast
qed

subsection \<open>Witness\<close>

text \<open>A file of 200 bytes in the clusters 2 and 4 of a volume with two sectors of 64 bytes per cluster, mapped from byte 10 on.\<close>

theorem get_file_map_covers_witness:
  "\<exists>vecs. dosfs_get_file_map tiny_disk tiny_file 10 100 8 = (B_OK, vecs)
     \<and> concat (map vec_bytes vecs) = map (\<lambda>i. int (file_pos tiny_disk [2, 4] (10 + i))) [0..<100]
   \<or> dosfs_get_file_map tiny_disk tiny_file 10 100 8 = (B_BUFFER_OVERFLOW, vecs) \<and> length vecs = 8"
proof -
  have l: "node_layout tiny_disk (vn_cluster tiny_file) [2, 4]" using tiny_disk_ok(4) by (simp add: dir_ok_def tiny_file_def)
  have b: "bytes_per_sector tiny_disk = 64" by (simp add: geometryD[OF tiny_disk_ok(1)] tiny_disk0_simps)
  have f: "vn_mode tiny_file AND FAT_SUBDIR = 0" "vn_st_size tiny_file = 200" by (simp_all add: tiny_file_def tiny_vnode_def)
  show ?thesis
    using get_file_map_covers[OF tiny_disk_ok(2) l f(1), of 10 100 8] by (auto simp: f b tiny_disk_ok(6) MAX_FILE_SIZE_def)
qed

end
