(* ===== verification/Fat_Frame.thy ===== *)
theory Fat_Frame
  imports Node_Entry
begin

text \<open>
  What the operations on the allocation tables and on vnodes leave alone, on volumes of any content: they change sectors, counters and the
  vnode id cache, but no parameter, flag or label of the volume.
\<close>

section \<open>Definitions\<close>

definition same_params :: "nspace \<Rightarrow> nspace \<Rightarrow> bool" where
  "same_params vol vol' \<longleftrightarrow> vol' = vol\<lparr>fBlockCache := fBlockCache vol', free_clusters := free_clusters vol', last_allocated := last_allocated vol',
     vol_vcache := vol_vcache vol', fault := fault vol'\<rparr>"

named_theorems params

section \<open>Theorems\<close>

lemma same_params_refl [simp]: "same_params vol vol"
  by (simp add: same_params_def)

lemma same_params_trans: "same_params a b \<Longrightarrow> same_params b c \<Longrightarrow> same_params a c"
  unfolding same_params_def by (cases a; cases b; cases c) simp

lemma same_params_fields:
  assumes "same_params vol vol'"
  shows "fs_flags vol' = fs_flags vol" "vol_flags vol' = vol_flags vol" "fsinfo_sector vol' = fsinfo_sector vol" "fat_bits vol' = fat_bits vol"
    "root_vnode vol' = root_vnode vol" "vol_dlist vol' = vol_dlist vol" "total_sectors vol' = total_sectors vol" "vol_label vol' = vol_label vol"
proof -
  have e: "vol' = vol\<lparr>fBlockCache := fBlockCache vol', free_clusters := free_clusters vol', last_allocated := last_allocated vol',
     vol_vcache := vol_vcache vol', fault := fault vol'\<rparr>" using assms by (simp add: same_params_def)
  show "fs_flags vol' = fs_flags vol" "vol_flags vol' = vol_flags vol" "fsinfo_sector vol' = fsinfo_sector vol" "fat_bits vol' = fat_bits vol"
    "root_vnode vol' = root_vnode vol" "vol_dlist vol' = vol_dlist vol" "total_sectors vol' = total_sectors vol" "vol_label vol' = vol_label vol"
    by (subst e, simp)+
qed

lemma same_params_update [params, simp]:
  "same_params vol (vol\<lparr>fBlockCache := b\<rparr>)" "same_params vol (vol\<lparr>free_clusters := n\<rparr>)" "same_params vol (vol\<lparr>last_allocated := n\<rparr>)"
  "same_params vol (vol\<lparr>vol_vcache := vc\<rparr>)" "same_params vol (vol\<lparr>fault := x\<rparr>)" "same_params vol (block_store vol bn bl)" "same_params vol (entry_store vol p e)"
  by (simp_all add: same_params_def block_store_def entry_store_def)

lemma fat_put_params [params]: "same_params vol (fat_put vol c v)"
proof -
  have p: "same_params u (put_fat_sector u i b)" for u i b by (simp add: put_fat_sector_def)
  show ?thesis unfolding fat_put_def Let_def using p same_params_trans[OF p p] by simp
qed

lemma mirror_fat_params: "same_params vol (mirror_fat sector buffer i vol)"
  by (auto simp: mirror_fat_def split: option.split)

lemma mirror_fats_params [params, simp]: "same_params vol (snd (mirror_fats vol sector buffer))"
proof -
  have "same_params vol (fold (mirror_fat s buffer) xs vol)" for s xs
  proof (induction xs arbitrary: vol)
    case (Cons x xs)
    show ?case using same_params_trans[OF mirror_fat_params Cons.IH] by simp
  qed simp
  then show ?thesis by (simp add: mirror_fats_def Let_def)
qed

lemma fat12_store_params [simp]: "same_params vol (fat12_store vol st m straddle sector block2)"
proof -
  have "same_params vol (block_store (snd (mirror_fats (block_store vol b1 x) s b)) b2 y)" for b1 x s b b2 y
    using same_params_trans[OF same_params_trans[OF same_params_update(6) mirror_fats_params] same_params_update(6)] .
  moreover have "same_params vol (block_store (block_store vol b1 x) b2 y)" for b1 x b2 y
    using same_params_trans[OF same_params_update(6) same_params_update(6)] .
  ultimately show ?thesis unfolding fat12_store_def Let_def by simp
qed

lemma fat_io_params: "fat_io action m vol st = (vol', st', bi) \<Longrightarrow> same_params vol vol'"
  by (auto simp: fat_io_def fat12_io_def fat16_io_def fat32_io_def Let_def split: if_split_asm option.splits)

lemma fat_dispatch_params:
  assumes "\<And>vol c v. same_params vol (snd (set_entry vol c v))" "fat_dispatch set_entry action N vol st = (vol', st', bi)"
  shows "same_params vol vol'"
proof (cases action)
  case ALLOCATE_N_ENTRIES
  let ?v = "snd (mirror_fats (vol\<lparr>free_clusters := u32_minus (free_clusters vol) 1\<rparr>) (f_sector st) (f_block1 st))"
  have v: "same_params vol ?v" using same_params_trans[OF same_params_update(2) mirror_fats_params] .
  then have "same_params vol (snd (set_entry ?v c x))" for c x using same_params_trans assms(1) by blast
  then show ?thesis using assms(2) v ALLOCATE_N_ENTRIES
    by (auto simp: fat_dispatch_def Let_def split: if_split_asm prod.splits) (metis snd_conv)+
qed (use assms in \<open>auto simp: fat_dispatch_def\<close>)

lemma fat_loop_params:
  assumes "\<And>vol c v. same_params vol (snd (set_entry vol c v))"
  shows "same_params vol (fst (fat_loop set_entry action m N k vol st))"
proof (induction k arbitrary: vol st)
  case (Suc k)
  obtain v1 s1 b1 where i: "fat_io action m vol st = (v1, s1, b1)" using prod_cases3 by blast
  obtain v2 s2 b2 where d: "fat_dispatch set_entry action N v1 s1 = (v2, s2, b2)" using prod_cases3 by blast
  obtain s3 b3 where t: "fat_iterate v2 s2 = (s3, b3)" by fastforce
  have q: "same_params vol v1" "same_params vol v2" using fat_io_params[OF i] fat_dispatch_params[OF assms d] same_params_trans by blast+
  then show ?case using same_params_trans[OF q(2) Suc.IH] by (simp add: i d t)
qed simp

lemma fat_ioctl_params:
  assumes "\<And>vol c v. same_params vol (snd (set_entry vol c v))" "\<And>vol c. same_params vol (snd (clear_chain vol c))"
  shows "same_params vol (snd (fat_ioctl_gen set_entry clear_chain vol action cluster N))"
proof -
  have f: "same_params v (snd (fat_finish clear_chain action N v st))" for v st using assms(2) by (simp add: fat_finish_def)
  have "same_params vol (snd (case fat_loop set_entry action m N k vol st of (v, st) \<Rightarrow> fat_finish clear_chain action N v st))" for m k st
    using same_params_trans[OF fat_loop_params[OF assms(1)] f] by (simp add: case_prod_beta)
  then show ?thesis unfolding fat_ioctl_gen_def Let_def by (auto split: option.split)
qed

lemma set_fat_entry_params [params, simp]: "same_params vol (snd (set_fat_entry vol c v))"
  unfolding set_fat_entry_def fat_ioctl_base_def by (rule fat_ioctl_params) simp_all

lemma clear_fat_chain_params [params, simp]: "same_params vol (snd (clear_fat_chain vol c))"
proof -
  have "same_params vol (snd (clear_fat_chain_loop k vol c))" for k and c :: int
  proof (induction k arbitrary: vol c)
    case (Suc k)
    obtain r v where s: "set_fat_entry vol (u32_of_int c) 0 = (r, v)" by fastforce
    have v: "same_params vol v" using set_fat_entry_params s by (metis snd_conv)
    have "same_params vol (snd (clear_fat_chain_loop k (v\<lparr>free_clusters := n\<rparr>) d))" for n d
      using same_params_trans[OF same_params_trans[OF v same_params_update(2)] Suc.IH] .
    then show ?case using v s by (simp add: clear_fat_chain_loop.simps Let_def)
  qed (simp add: clear_fat_chain_loop.simps)
  then show ?thesis by (simp add: clear_fat_chain_def)
qed

lemma allocate_params [params, simp]: "same_params vol (snd (snd (allocate_n_fat_entries vol n)))"
proof -
  have "same_params vol (snd (fat_ioctl vol ALLOCATE_N_ENTRIES 0 n))" unfolding fat_ioctl_def by (rule fat_ioctl_params) simp_all
  then show ?thesis by (simp add: allocate_n_fat_entries_def case_prod_beta)
qed

lemma write_vnode_entry_params [params, simp]: "same_params vol (snd (write_vnode_entry env vol node))"
  by (auto simp: write_vnode_entry_def split: prod.split option.split)

lemma vol_set_entry_params [params, simp]: "same_params vol (snd (vol_set_entry env vol vnid loc))"
  by (simp add: vol_set_entry_def split: prod.split)

theorem set_fat_chain_length_params:
  assumes "set_fat_chain_length env vol node clusters = (r, vol', node')"
  shows "same_params vol vol'"
proof -
  have W: "same_params v (snd (write_vnode_entry env w n))" if "vol_set_entry env v i l = (a, w)" for a v w i l n
    using same_params_trans[OF vol_set_entry_params write_vnode_entry_params] that by (metis snd_conv)
  have A: "same_params vol v" if "allocate_n_fat_entries vol n = (a, b, v)" for a b n v using allocate_params[of vol n] that by simp
  have S: "same_params v w" if "set_fat_entry v c x = (a, w)" for a c x v w using set_fat_entry_params[of v c x] that by simp
  have C: "same_params v w" if "clear_fat_chain v c = (a, w)" for a c v w using clear_fat_chain_params[of v c] that by simp
  show ?thesis using assms unfolding set_fat_chain_length_def Let_def
    by (auto split: if_split_asm prod.splits dest!: A S C intro: same_params_trans W)
qed

end
