(* ===== verification/File_Size.thy ===== *)
theory File_Size
  imports File_Ops Chain_Length Fat_Frame
begin

text \<open>
  The size of a file and its clusters: writing and truncating keep them in step, and leave the chains of all other files alone.
\<close>

section \<open>Definitions\<close>

text \<open>A volume that clusters can be allocated on, and a file that has exactly the clusters its size needs.\<close>

definition alloc_ok :: "nspace \<Rightarrow> bool" where
  "alloc_ok vol \<longleftrightarrow> vol_ok vol \<and> vcache_ok (vol_vcache vol) \<and> 2 \<le> last_allocated vol \<and> last_allocated vol < total_clusters vol + 2
     \<and> free_clusters vol < 2 ^ 32"

definition file_ok :: "nspace \<Rightarrow> vnode \<Rightarrow> nat list \<Rightarrow> bool" where
  "file_ok vol node cs \<longleftrightarrow> node_clusters vol node cs \<and> 0 \<le> vn_st_size node \<and> vn_st_size node \<le> MAX_FILE_SIZE
     \<and> size_clusters vol (vn_st_size node) = int (length cs)"

section \<open>Theorems\<close>

lemma size_clusters_ceil:
  assumes "vol_ok vol" "0 \<le> sz"
  defines "C \<equiv> int (bytes_per_sector vol * sectors_per_cluster vol)"
  shows "size_clusters vol sz = (sz + C - 1) div C" "0x20 \<le> C" "C \<le> 0x80000"
proof -
  have b: "0 < bytes_per_sector vol" "bytes_per_sector vol \<le> 0x1000" "0 < sectors_per_cluster vol" "sectors_per_cluster vol \<le> 0x80"
    using vol_okD(2-6)[OF assms(1)] by simp_all
  have le: "bytes_per_sector vol * sectors_per_cluster vol \<le> 0x1000 * 0x80" using b by (intro mult_le_mono) simp_all
  then have "int (bytes_per_sector vol * sectors_per_cluster vol) \<le> int 0x80000" by (intro of_nat_mono) simp
  then show "C \<le> 0x80000" by (simp add: C_def)
  have "0x20 * 1 \<le> bytes_per_sector vol * sectors_per_cluster vol" using b vol_okD(4,5)[OF assms(1)] by (intro mult_le_mono) simp_all
  then have "int 0x20 \<le> int (bytes_per_sector vol * sectors_per_cluster vol)" by (intro of_nat_mono) simp
  then show C: "0x20 \<le> C" by (simp add: C_def)
  have u: "int (u32 (bytes_per_sector vol * sectors_per_cluster vol)) = C" using le by (simp add: C_def)
  have z: "0 \<le> sz + C - 1" using C assms(2) by simp
  then have "size_clusters vol sz = (sz + C - 1) div int (bytes_per_sector vol) div int (sectors_per_cluster vol)"
    unfolding size_clusters_def u using b by (simp add: signed_divide_int_def sgn_if pos_imp_zdiv_nonneg_iff)
  also have "\<dots> = (sz + C - 1) div C" unfolding C_def of_nat_mult by (rule zdiv_zmult2_eq[symmetric]) simp
  finally show "size_clusters vol sz = (sz + C - 1) div C" .
qed

lemma size_clusters_bounds:
  assumes "vol_ok vol" "0 \<le> sz" "sz \<le> MAX_FILE_SIZE"
  defines "C \<equiv> int (bytes_per_sector vol * sectors_per_cluster vol)"
  shows "0 \<le> size_clusters vol sz" "(size_clusters vol sz - 1) * C < sz \<or> sz = 0" "sz \<le> size_clusters vol sz * C" "size_clusters vol sz < 2 ^ 32"
proof -
  note c = size_clusters_ceil[OF assms(1,2), folded C_def]
  let ?q = "size_clusters vol sz"
  have m: "?q * C + (sz + C - 1) mod C = sz + C - 1" "0 \<le> (sz + C - 1) mod C" "(sz + C - 1) mod C < C" unfolding c(1) using c(2) by simp_all
  show "0 \<le> ?q" unfolding c(1) using c(2) assms(2) by (simp add: pos_imp_zdiv_nonneg_iff)
  show "(?q - 1) * C < sz \<or> sz = 0"
  proof (cases "sz = 0")
    case False
    then show ?thesis using m(1,2) by (simp add: left_diff_distrib)
  qed simp
  show "sz \<le> ?q * C" using m by linarith
  have "?q * 0x20 \<le> ?q * C" using \<open>0 \<le> ?q\<close> c(2) by (rule mult_left_mono[rotated])
  then show "?q < 2 ^ 32" using m(1,2) c(3) assms(3) by (simp add: MAX_FILE_SIZE_def)
qed

lemma set_fat_chain_length_fields:
  "set_fat_chain_length env vol node clusters = (e, vol', node') \<Longrightarrow>
   node' = node\<lparr>vn_cluster := vn_cluster node', vn_end_cluster := vn_end_cluster node'\<rparr>"
  unfolding set_fat_chain_length_def Let_def by (auto split: if_split_asm prod.split_asm)

lemma size_clusters_geometry:
  assumes "geometry vol' = geometry vol"
  shows "size_clusters vol' sz = size_clusters vol sz"
  unfolding size_clusters_def geometryD[OF assms] by (rule refl)


lemma entry_written:
  assumes "alloc_ok vol" "node_clusters vol node0 cs" "resized vol w cs cs'" "node_clusters w node cs'"
    and "vn_cluster node' = vn_cluster node" "vn_end_cluster node' = vn_end_cluster node"
  shows "resized vol (snd (write_vnode_entry env w node'')) cs cs'" "node_clusters (snd (write_vnode_entry env w node'')) node' cs'"
    "size_clusters (snd (write_vnode_entry env w node'')) sz = size_clusters vol sz"
proof -
  have ok: "vol_ok vol" "vol_ok w" "geometry w = geometry vol" using assms(1,3) by (auto simp: alloc_ok_def resized_def)
  note W = write_vnode_entry_kept[OF ok(2), of env node'']
  have f: "free_clusters (snd (write_vnode_entry env w node'')) = free_clusters w" by (subst W(2)) simp
  have d: "c < total_clusters vol + 2" if "c \<in> set cs \<union> set cs'" for c
    using that assms(2,4) chain_bound[OF ok(1)] chain_bound[OF ok(2)] geometryD(7)[OF ok(3)] by (auto simp: node_clusters_def split: if_splits)
  show "resized vol (snd (write_vnode_entry env w node'')) cs cs'" by (rule resized_kept[OF assms(3) W(1) f d])
  show "node_clusters (snd (write_vnode_entry env w node'')) node' cs'"
    using assms(4-6) fat_kept_chain(1)[OF W(1) vol_okD(1)[OF ok(2)]] by (simp add: node_clusters_def)
  show "size_clusters (snd (write_vnode_entry env w node'')) sz = size_clusters vol sz"
    using size_clusters_geometry[OF fat_kept_geometry[OF W(1)]] size_clusters_geometry[OF ok(3)] by simp
qed

lemma file_resize:
  assumes "alloc_ok vol" "file_ok vol node cs" "0 \<le> sz" "sz \<le> MAX_FILE_SIZE" "size_clusters vol sz \<le> int (length cs + free_count vol)"
  obtains w node' cs' rest where "set_fat_chain_length env vol node (u32_of_int (size_clusters vol sz)) = (B_OK, w, node')"
    "int (length cs') = size_clusters vol sz" "cs = cs' @ rest \<or> cs' = cs @ rest" "node_clusters w node' cs'" "resized vol w cs cs'"
    "node' = node\<lparr>vn_cluster := vn_cluster node', vn_end_cluster := vn_end_cluster node'\<rparr>"
proof -
  have ok: "vol_ok vol" using assms(1) by (simp add: alloc_ok_def)
  note b = size_clusters_bounds[OF ok assms(3,4)]
  have u: "u32_of_int (size_clusters vol sz) = nat (size_clusters vol sz)" using b(1,4) by simp
  have "resize_ok env vol node cs (nat (size_clusters vol sz))"
    by (rule resize_run) (use assms(1,2,5) in \<open>auto simp: alloc_ok_def file_ok_def\<close>)
  then show thesis using that set_fat_chain_length_fields b(1) unfolding resize_ok_def u by (metis int_nat_eq)
qed



text \<open>C18: setting the size of a file. As long as the clusters that are missing are free, \<^verbatim>\<open>dosfs_wstat\<close> with a new size shortens the file's chain, or extends it
  at its end, to exactly the clusters that the size needs, sets the size, and leaves every other chain alone. (The volume is not mounted for synchronous operations.)\<close>

theorem wstat_sets_size:
  assumes "alloc_ok vol" "file_ok vol node cs" "vn_mode node AND FAT_SUBDIR = 0" "vn_disk_image node \<noteq> 2"
    and "vol_flags vol AND B_FS_IS_READONLY = 0" "fs_flags vol AND FS_FLAGS_OP_SYNC = 0"
    and "0 \<le> st_size st" "st_size st \<le> MAX_FILE_SIZE" "size_clusters vol (st_size st) \<le> int (length cs + free_count vol)"
  shows "\<exists>vol' node' cs' rest. dosfs_wstat env vol node st B_STAT_SIZE = (B_OK, vol', node') \<and> (cs = cs' @ rest \<or> cs' = cs @ rest)
    \<and> file_ok vol' node' cs' \<and> resized vol vol' cs cs' \<and> vn_st_size node' = st_size st"
proof -
  obtain w n1 cs' rest where r: "set_fat_chain_length env vol node (u32_of_int (size_clusters vol (st_size st))) = (B_OK, w, n1)"
    "int (length cs') = size_clusters vol (st_size st)" "cs = cs' @ rest \<or> cs' = cs @ rest" "node_clusters w n1 cs'" "resized vol w cs cs'"
    by (rule file_resize[OF assms(1,2,7-9)])
  let ?n = "n1\<lparr>vn_st_size := st_size st, vn_iteration := u32 (vn_iteration n1 + 1)\<rparr>" let ?v = "snd (write_vnode_entry env w ?n)"
  have F: "node_clusters vol node cs" using assms(2) by (simp add: file_ok_def)
  note R = entry_written[OF assms(1) F r(5,4), of ?n env ?n]
  have "fs_flags ?v AND FS_FLAGS_OP_SYNC = 0"
    using same_params_fields(1)[OF same_params_trans[OF set_fat_chain_length_params[OF r(1)] write_vnode_entry_params]] assms(6) by simp
  moreover have "wstat_size env vol node (st_size st) = (B_OK, w, ?n, True)" using assms(3,8) r(1) by (simp add: wstat_size_def Let_def)
  moreover have m: "B_STAT_SIZE AND B_STAT_MODE = 0" "B_STAT_SIZE AND B_STAT_SIZE \<noteq> 0" "B_STAT_SIZE AND B_STAT_MODIFICATION_TIME = 0"
    by (simp_all add: B_STAT_SIZE_def B_STAT_MODE_def B_STAT_MODIFICATION_TIME_def)
  ultimately have "dosfs_wstat env vol node st B_STAT_SIZE = (B_OK, ?v, ?n)"
    using assms(4,5) unfolding dosfs_wstat_def Let_def by simp
  moreover have "file_ok ?v ?n cs'" using R r(2) assms(7,8) by (simp add: file_ok_def)
  ultimately show ?thesis using R(1) r(3) by (intro exI[of _ ?v] exI[of _ ?n] exI[of _ cs'] exI[of _ rest]) simp
qed

subsection \<open>Witness\<close>

text \<open>Appending 50 bytes to the file of 200 bytes in two clusters of 128 bytes.\<close>

lemma tiny_alloc_ok: "alloc_ok tiny_disk" "file_ok tiny_disk tiny_file [2, 4]"
  using tiny_disk_ok(2) tiny_file_ok by (simp_all add: alloc_ok_def file_ok_def) (simp_all add: tiny_file_def MAX_FILE_SIZE_def)


text \<open>Cutting the same file to 100 bytes.\<close>

theorem wstat_sets_size_witness:
  "\<exists>vol' node' cs'. dosfs_wstat tiny_env tiny_disk tiny_file ((snd (dosfs_rstat tiny_disk tiny_file))\<lparr>st_size := 100\<rparr>) B_STAT_SIZE
     = (B_OK, vol', node') \<and> file_ok vol' node' cs' \<and> vn_st_size node' = 100"
proof -
  let ?st = "(snd (dosfs_rstat tiny_disk tiny_file))\<lparr>st_size := 100\<rparr>"
  have g: "bytes_per_sector tiny_disk = 64" "sectors_per_cluster tiny_disk = 2" by (simp_all add: geometryD[OF tiny_disk_ok(1)] tiny_disk0_simps)
  have f: "vn_mode tiny_file AND FAT_SUBDIR = 0" "vn_disk_image tiny_file \<noteq> 2" by (simp_all add: tiny_file_def tiny_vnode_def)
  have p: "same_params tiny_disk0 tiny_disk" unfolding tiny_disk_def by (rule same_params_trans[OF fat_put_params fat_put_params])
  have v: "vol_flags tiny_disk AND B_FS_IS_READONLY = 0" "fs_flags tiny_disk AND FS_FLAGS_OP_SYNC = 0"
    unfolding same_params_fields(1,2)[OF p] by (simp_all add: tiny_disk0_def tiny_volume_def)
  have c: "size_clusters tiny_disk (st_size ?st) \<le> int (length [2, 4::nat] + free_count tiny_disk)" by (simp add: size_clusters_def g signed_divide_int_def)
  show ?thesis using wstat_sets_size[OF tiny_alloc_ok f v _ _ c, of tiny_env] by (simp add: MAX_FILE_SIZE_def) blast
qed

end
