(* ===== verification/Dir_Compact.thy ===== *)
theory Dir_Compact
  imports Dir_Files File_Size
begin

text \<open>
  \<^verbatim>\<open>compact_directory\<close>: a directory whose last clusters hold no file gives them back and lists the same files.
\<close>

section \<open>Theorems\<close>

subsection \<open>The search for the last file\<close>

text \<open>The index behind the last file that counts; volume labels in the root directory do not.\<close>

fun last_used :: "nspace \<Rightarrow> vnode \<Rightarrow> nat \<Rightarrow> (dirent_info \<times> name) list \<Rightarrow> nat" where
  "last_used vol dir lst [] = lst"
| "last_used vol dir lst (f # fs) = last_used vol dir (if is_label vol dir f then lst else di_eindex (fst f) + 1) fs"

lemma last_used_next: "fs = [] \<or> \<not> is_label vol dir (last fs) \<Longrightarrow> last_used vol dir i fs = next_index i fs"
  by (induction fs arbitrary: i) (auto simp: next_index_def)

lemma compact_loop_listing:
  assumes "dir_ok vol cluster cs" "iter_at vol cluster cs it i" "listing env vol (dir_entries vol cs) i = Some fs" "length fs < k"
    "i < node_entries vol cs \<or> e0 = B_OK"
  shows "compact_loop k env vol dir it lst e0 = (if next_index i fs < node_entries vol cs then ENOENT else B_OK, last_used vol dir lst fs, vol)"
  using assms(2-5)
proof (induction fs arbitrary: it i k e0 lst)
  case Nil
  then obtain k' where k: "k = Suc k'" by (cases k) auto
  show ?case
  proof (cases "i < node_entries vol cs")
    case True
    then obtain bn where "current_block it = Some bn" using Nil(1) by (auto simp: iter_at_def diri_at_def)
    moreover obtain it' where "next_dirent env vol it 512 = (Inl ENOENT, vol, it')"
      using next_dirent_parse[OF assms(1) Nil(1), of 512 env] listing_Some[OF Nil(2)] by auto
    ultimately show ?thesis using True k by simp
  next
    case False
    then show ?thesis using Nil k by (simp add: iter_at_def)
  qed
next
  case (Cons f fs)
  then obtain k' where k: "k = Suc k'" "length fs < k'" by (cases k) auto
  have p: "parse_dirent env vol (dir_entries vol cs) i 512 = Some (Inr f)"
    and l: "listing env vol (dir_entries vol cs) (di_eindex (fst f) + 1) = Some fs"
    using listing_Some[OF Cons.prems(2)] by simp_all
  obtain it' where n: "next_dirent env vol it 512 = (Inr f, vol, it')" and at: "iter_at vol cluster cs it' (di_eindex (fst f) + 1)"
    and e: "i \<le> di_eindex (fst f)" "di_eindex (fst f) < node_entries vol cs"
    using next_dirent_parse[OF assms(1) Cons.prems(1), of 512 env] p by (cases f) auto
  have cb: "current_block it \<noteq> None" using Cons.prems(1) e by (simp add: iter_at_def diri_at_def)
  have idx: "current_index it' = di_eindex (fst f) + 1" using at by (auto simp: iter_at_def diri_at_def split: if_splits)
  show ?case using Cons.IH[OF at l k(2), of B_OK] cb n idx k(1) by (cases f) (auto simp: is_label_def)
qed

subsection \<open>The beginning of a directory\<close>

lemma scan_entries_take: "scan_entries i es l = Some None \<Longrightarrow> scan_entries i (take n es) l = Some None"
  by (induction i es l arbitrary: n rule: scan_entries.induct)
    (case_tac n; auto split: if_splits option.splits)+

lemma listing_take_end:
  assumes "listing env vol es i = Some []" "i \<le> n"
  shows "listing env vol' (take n es) i = Some []"
proof -
  have "scan_entries i (drop i es) no_lfn = Some None"
    using listing_Some[OF assms(1)] by (auto simp: parse_dirent_def parse_name_def Let_def errno_defs split: option.splits prod.splits if_splits)
  then have "scan_entries i (drop i (take n es)) no_lfn = Some None" by (simp add: drop_take scan_entries_take)
  then show ?thesis by (subst listing.simps) (simp add: parse_dirent_def)
qed

lemma listing_take:
  assumes "listing env vol es 0 = Some fs" "next_index 0 fs \<le> n" "n \<le> length es" "fat_bits vol' = fat_bits vol"
  shows "listing env vol' (take n es) 0 = Some fs"
proof -
  note L = listing_local[of env vol es 0 fs "[]" "take n es" vol'] and N = listing_next[of env vol es 0 fs "[]"]
  have "listing env vol es (next_index 0 fs) = Some []" using N assms(1) by simp
  then have "listing env vol' (take n es) (next_index 0 fs) = Some []" using assms(2) by (rule listing_take_end)
  then show ?thesis using L assms by simp
qed

lemma dir_entries_prefix:
  assumes "resized vol vol' cs (take n cs)" "fat_same vol vol'" "dir_ok vol c cs" "0 < n" "n \<le> length cs"
  shows "dir_entries vol' (take n cs) = take (n * sectors_per_cluster vol * entries_per_block vol) (dir_entries vol cs)"
    "node_entries vol' (take n cs) = n * sectors_per_cluster vol * entries_per_block vol"
    "node_entries vol' (take n cs) \<le> node_entries vol cs"
proof -
  have g: "geometry vol' = geometry vol" using assms(1) by (simp add: resized_def)
  note G = geometry_ext[OF g] geometryD[OF g]
  have ne: "cs \<noteq> []" using assms(4,5) by auto
  show n: "node_entries vol' (take n cs) = n * sectors_per_cluster vol * entries_per_block vol"
    using assms(4,5) ne by (simp add: node_entries_def node_sectors_def G)
  show le: "node_entries vol' (take n cs) \<le> node_entries vol cs"
    unfolding n using assms(5) ne by (simp add: node_entries_def node_sectors_def)
  have e: "dir_entry vol' (take n cs) i = dir_entry vol cs i" if i: "i < node_entries vol' (take n cs)" for i
  proof -
    let ?p = "i div entries_per_block vol"
    have "?p div sectors_per_cluster vol < n"
      using i unfolding n by (simp add: div_less_iff_less_mult less_mult_imp_div_less)
    then have "node_block vol' (take n cs) ?p = node_block vol cs ?p" using assms(4) ne by (auto simp: node_block_def G)
    moreover have "fat_end vol \<le> node_block vol cs ?p"
      using dir_okD(5)[OF assms(3), of i] i le by (intro node_block_bounds(1)[OF dir_okD(1,2)[OF assms(3)]]) simp
    then have "fBlockCache vol' (node_block vol cs ?p) = fBlockCache vol (node_block vol cs ?p)" using assms(2) unfolding fat_same_def by blast
    ultimately show ?thesis by (simp add: dir_entry_def node_ptr_def entry_data_def block_data_def G(1))
  qed
  have "dir_entries vol' (take n cs) = map (dir_entry vol cs) [0..<node_entries vol' (take n cs)]"
    unfolding dir_entries_def using e by (intro map_cong) auto
  also have "\<dots> = take (node_entries vol' (take n cs)) (dir_entries vol cs)" using le by (simp add: dir_entries_def take_map)
  finally show "dir_entries vol' (take n cs) = take (n * sectors_per_cluster vol * entries_per_block vol) (dir_entries vol cs)" unfolding n .
qed

subsection \<open>Giving clusters back\<close>

definition cluster_entries :: "nspace \<Rightarrow> nat" where
  "cluster_entries vol = sectors_per_cluster vol * entries_per_block vol"

text \<open>The clusters that the files of a directory need; one at least.\<close>

definition needed_clusters :: "nspace \<Rightarrow> (dirent_info \<times> name) list \<Rightarrow> nat" where
  "needed_clusters vol fs = max 1 ((next_index 0 fs + cluster_entries vol - 1) div cluster_entries vol)"

lemma cluster_entries_bounds:
  assumes "vol_ok vol"
  shows "0 < cluster_entries vol" "cluster_entries vol \<le> 0x4000"
  using vol_okD(2,4)[OF assms] mult_le_mono[OF vol_okD(3,6)[OF assms]] by (simp_all add: cluster_entries_def)

lemma needed_clusters_bounds:
  assumes "0 < cluster_entries vol" "next_index 0 fs \<le> m * cluster_entries vol" "0 < m"
  shows "0 < needed_clusters vol fs" "needed_clusters vol fs \<le> m" "next_index 0 fs \<le> needed_clusters vol fs * cluster_entries vol"
proof -
  let ?C = "cluster_entries vol" and ?l = "next_index 0 fs"
  let ?q = "(?l + ?C - 1) div ?C"
  show "0 < needed_clusters vol fs" by (simp add: needed_clusters_def)
  have "?q < m + 1" using assms(1,2) by (subst div_less_iff_less_mult) auto
  then show "needed_clusters vol fs \<le> m" using assms(3) by (simp add: needed_clusters_def)
  have "?l + ?C - 1 < (?q + 1) * ?C" using assms(1) div_less_iff_less_mult[of ?C "?l + ?C - 1" "?q + 1"] by linarith
  then have "?l \<le> ?q * ?C" by simp
  also have "\<dots> \<le> needed_clusters vol fs * ?C" by (rule mult_le_mono1) (simp add: needed_clusters_def)
  finally show "?l \<le> needed_clusters vol fs * ?C" .
qed

lemma compact_clusters:
  assumes "vol_ok vol" "next_index 0 fs < 2 ^ 31"
  defines "q \<equiv> u32_minus (u32 (next_index 0 fs + u32 (bytes_per_sector vol div 0x20 * sectors_per_cluster vol))) 1
      div (bytes_per_sector vol div 0x20) div sectors_per_cluster vol"
  shows "(if q = 0 then 1 else q) = needed_clusters vol fs"
proof -
  note C = cluster_entries_bounds[OF assms(1)]
  have u: "u32 (bytes_per_sector vol div 0x20 * sectors_per_cluster vol) = cluster_entries vol"
    using C(2) vol_okD(5)[OF assms(1)] by (simp add: cluster_entries_def mult.commute)
  have "u32_minus (u32 (next_index 0 fs + cluster_entries vol)) 1 = next_index 0 fs + cluster_entries vol - 1"
    using C assms(2) by (simp add: u32_minus_id)
  then have "q = (next_index 0 fs + cluster_entries vol - 1) div entries_per_block vol div sectors_per_cluster vol"
    using vol_okD(5)[OF assms(1)] unfolding q_def u by simp
  also have "\<dots> = (next_index 0 fs + cluster_entries vol - 1) div cluster_entries vol"
    by (simp add: cluster_entries_def div_mult2_eq[symmetric] mult.commute)
  finally show ?thesis by (simp add: needed_clusters_def)
qed

text \<open>The directory \<open>dir\<close> with its clusters: the volume has them as a chain, the vnode knows the first, the last and the size.\<close>

definition dir_node :: "env \<Rightarrow> nspace \<Rightarrow> vnode \<Rightarrow> nat list \<Rightarrow> (dirent_info \<times> name) list \<Rightarrow> bool" where
  "dir_node env vol dir cs fs \<longleftrightarrow> dir_has_files env (vn_cluster dir) cs vol fs \<and> cs \<noteq> [] \<and> node_clusters vol dir cs
     \<and> vn_st_size dir = int (node_entries vol cs * 0x20)"

lemma dir_node_size:
  assumes "dir_node env vol dir cs fs"
  shows "size_clusters vol (vn_st_size dir) = int (length cs)" "node_entries vol cs = length cs * cluster_entries vol"
    "vol_ok vol" "0 < length cs" "next_index 0 fs \<le> node_entries vol cs" "node_entries vol cs < 2 ^ 26"
proof -
  have D: "dir_ok vol (vn_cluster dir) cs" "node_entries vol cs < 2 ^ 26" "cs \<noteq> []" "vn_st_size dir = int (node_entries vol cs * 0x20)"
    "listing env vol (dir_entries vol cs) 0 = Some fs"
    using assms by (simp_all add: dir_node_def dir_has_files_def dir_state_def)
  show v: "vol_ok vol" by (rule dir_okD(1)[OF D(1)])
  show n: "node_entries vol cs = length cs * cluster_entries vol"
    using D(3) by (simp add: node_entries_def node_sectors_def cluster_entries_def)
  show "next_index 0 fs \<le> node_entries vol cs" using listing_next[of env vol "dir_entries vol cs" 0 fs "[]"] D(5) by simp
  show "0 < length cs" "node_entries vol cs < 2 ^ 26" using D by simp_all
  let ?C = "int (bytes_per_sector vol * sectors_per_cluster vol)"
  have "vn_st_size dir = int (length cs) * ?C" using vol_okD(5)[OF v] by (simp add: D(4) n cluster_entries_def)
  moreover have "(int (length cs) * ?C + ?C - 1) div ?C = int (length cs)"
    using vol_okD(2,4,5)[OF v] div_mult_self3[of ?C "int (length cs)" "?C - 1"] by (simp add: add_diff_eq div_pos_pos_trivial)
  ultimately show "size_clusters vol (vn_st_size dir) = int (length cs)"
    using size_clusters_ceil(1)[OF v, of "vn_st_size dir"] by (simp add: D(4))
qed

lemma shrunk_dir:
  assumes "dir_node env vol dir cs fs" "0 < n" "n < length cs" "next_index 0 fs \<le> n * cluster_entries vol"
    and "resized vol vol' cs (take n cs)" "fat_chain vol' (take n cs)" "fat_same vol vol'"
    and "dir' = dir\<lparr>vn_end_cluster := cs ! (n - 1), vn_st_size := int (n * cluster_entries vol * 0x20), vn_iteration := k\<rparr>"
  shows "dir_node env vol' dir' (take n cs) fs"
proof -
  note S = dir_node_size[OF assms(1)]
  have D: "dir_ok vol (vn_cluster dir) cs" "dir_state env vol cs fs" "node_clusters vol dir cs" "cs \<noteq> []"
    using assms(1) by (simp_all add: dir_node_def dir_has_files_def)
  note P = dir_entries_prefix[OF assms(5,7) D(1) assms(2) less_imp_le[OF assms(3)]]
  let ?m = "n * sectors_per_cluster vol * entries_per_block vol"
  have m: "?m = n * cluster_entries vol" by (simp add: cluster_entries_def)
  have hd: "hd (take n cs) = vn_cluster dir" "take n cs \<noteq> []" using D(3,4) assms(2) by (simp_all add: node_clusters_def)
  have L: "listing env vol (dir_entries vol cs) 0 = Some fs" "dir_tidy (dir_entries vol cs) 0 fs" using D(2) by (simp_all add: dir_state_def)
  have le: "?m \<le> length (dir_entries vol cs)" using P(2,3) by simp
  have g: "geometry vol' = geometry vol" and "vol_ok vol'" using assms(5) by (simp_all only: resized_def)
  have i: "next_index 0 fs \<le> ?m" unfolding m by (rule assms(4))
  have "listing env vol' (take ?m (dir_entries vol cs)) 0 = Some fs" by (rule listing_take[OF L(1) i le geometryD(1)[OF g]])
  moreover have "dir_tidy (take ?m (dir_entries vol cs)) 0 fs"
    using dir_tidy_cong[of env vol "dir_entries vol cs" 0 fs "[]" "take ?m (dir_entries vol cs)"] L i by simp
  ultimately have "dir_state env vol' (take n cs) fs" unfolding dir_state_def P(1) by blast
  moreover have "dir_ok vol' (vn_cluster dir) (take n cs)"
    using \<open>vol_ok vol'\<close> assms(6) hd P(3) dir_okD(3)[OF D(1)] by (simp add: dir_ok_def node_layout_def)
  moreover have "0 < node_entries vol' (take n cs)" using assms(2) cluster_entries_bounds(1)[OF S(3)] unfolding P(2) m by simp
  moreover have "node_clusters vol' dir' (take n cs)"
    using assms(2,3,6,8) hd by (simp add: node_clusters_def last_conv_nth)
  ultimately show ?thesis
    using P(3) S(6) hd(2) assms(8) by (simp add: dir_node_def dir_has_files_def P(2) m)
qed

text \<open>What a directory operation leaves of the vnode of its directory.\<close>

definition dir_resized :: "vnode \<Rightarrow> vnode \<Rightarrow> bool" where
  "dir_resized dir dir' \<longleftrightarrow> dir' = dir\<lparr>vn_end_cluster := vn_end_cluster dir', vn_st_size := vn_st_size dir', vn_iteration := vn_iteration dir'\<rparr>"

lemma compact_run:
  assumes "dir_node env vol dir cs fs" "fs = [] \<or> \<not> is_label vol dir (last fs)" "free_clusters vol < 2 ^ 32"
  defines "n \<equiv> needed_clusters vol fs"
  shows "\<exists>vol' dir'. compact_directory env vol dir = (0, vol', dir') \<and> dir_node env vol' dir' (take n cs) fs
    \<and> resized vol vol' cs (take n cs) \<and> fat_same vol vol' \<and> dir_resized dir dir'"
proof -
  note S = dir_node_size[OF assms(1)]
  have D: "dir_ok vol (vn_cluster dir) cs" "0 < node_entries vol cs" "node_clusters vol dir cs" "cs \<noteq> []"
    "listing env vol (dir_entries vol cs) 0 = Some fs" "vn_st_size dir = int (node_entries vol cs * 0x20)"
    using assms(1) by (simp_all add: dir_node_def dir_has_files_def dir_state_def)
  have C: "0 < cluster_entries vol" "cluster_entries vol \<le> 0x4000" by (rule cluster_entries_bounds[OF S(3)])+
  note N = needed_clusters_bounds[OF C(1), of fs "length cs", folded n_def, unfolded S(2)[symmetric], OF S(5,4)]
  obtain it where it: "diri_init vol (vn_cluster dir) 0 new_diri = (Some (node_ptr vol cs 0), it)" "iter_at vol (vn_cluster dir) cs it 0"
    using diri_init_node(1)[OF D(1,2), of new_diri] D(2) by (auto simp: iter_at_def)
  have "length fs < dir_fuel vol" using listing_length[OF D(5)] node_entries_fuel[OF D(1)] by simp
  note loop = compact_loop_listing[OF D(1) it(2) D(5) this, of B_ERROR dir 0, unfolded last_used_next[OF assms(2)], OF disjI1[OF D(2)]]
  have i31: "next_index 0 fs < 2 ^ 31" using S(5,6) by simp
  note Q = compact_clusters[OF S(3) i31, folded n_def]
  have "n * cluster_entries vol \<le> node_entries vol cs" using N(2) by (simp add: S(2))
  then have le: "n * cluster_entries vol * 0x20 < 2 ^ 32" using S(6) by simp
  have eq: "n * bytes_per_sector vol * sectors_per_cluster vol = n * cluster_entries vol * 0x20"
    using vol_okD(5)[OF S(3)] by (simp add: cluster_entries_def)
  have lt: "n * bytes_per_sector vol * sectors_per_cluster vol < 2 ^ 32" unfolding eq by (rule le)
  have "n * bytes_per_sector vol * 1 \<le> n * bytes_per_sector vol * sectors_per_cluster vol" using vol_okD(2)[OF S(3)] by (intro mult_le_mono2) simp
  then have "u32 (n * bytes_per_sector vol) = n * bytes_per_sector vol" using lt by (intro u32_id) linarith
  then have size: "u32 (u32 (n * bytes_per_sector vol) * sectors_per_cluster vol) = n * cluster_entries vol * 0x20"
    using u32_id[OF lt] by (simp add: eq)
  note fixed = node_guard(1)[OF S(3) D(3)]
  have R: "compact_directory env vol dir =
    (if next_index 0 fs < node_entries vol cs then
       if int (n * cluster_entries vol * 0x20) < vn_st_size dir then
         case set_fat_chain_length env vol dir n of (error, vol', dir) \<Rightarrow>
           (error, vol', dir\<lparr>vn_st_size := int (n * cluster_entries vol * 0x20), vn_iteration := u32 (vn_iteration dir + 1)\<rparr>)
       else (0, vol, dir)
     else (0, vol, dir))"
    unfolding compact_directory_def if_not_P[OF fixed] it(1) prod.case option.case loop Let_def Q size by (simp add: errno_defs)
  show ?thesis
  proof (cases "n = length cs")
    case True
    then have "compact_directory env vol dir = (0, vol, dir)" unfolding R by (simp add: D(6) S(2))
    then show ?thesis using assms(1,3) True S(3) by (simp add: resized_refl dir_resized_def fat_same_def)
  next
    case False
    then have nl: "n < length cs" using N(2) by simp
    have "n * cluster_entries vol < node_entries vol cs" using nl C(1) unfolding S(2) by simp
    then have e: "next_index 0 fs < node_entries vol cs" using N(3) by linarith
    obtain vol' where v: "set_fat_chain_length env vol dir n = (B_OK, vol', dir\<lparr>vn_end_cluster := cs ! (n - 1)\<rparr>)"
      "resized vol vol' cs (take n cs)" "fat_chain vol' (take n cs)" "fat_same vol vol'"
      using shrink_run[OF S(3) D(3) S(1) N(1) nl] by blast
    let ?d = "dir\<lparr>vn_end_cluster := cs ! (n - 1), vn_st_size := int (n * cluster_entries vol * 0x20), vn_iteration := u32 (vn_iteration dir + 1)\<rparr>"
    have "compact_directory env vol dir = (0, vol', ?d)"
      unfolding R using e nl C(1) v(1) by (simp add: D(6) S(2) B_OK_def)
    moreover have "dir_node env vol' ?d (take n cs) fs" by (rule shrunk_dir[OF assms(1) N(1) nl N(3) v(2-4) refl])
    ultimately show ?thesis using v(2,4) by (intro exI[of _ vol'] exI[of _ ?d]) (simp add: dir_resized_def)
  qed
qed

subsection \<open>Directories with their vnodes\<close>

text \<open>The fixed root directory has no clusters, and its vnode is of no use for the length of it.\<close>

definition dir_core :: "env \<Rightarrow> nspace \<Rightarrow> vnode \<Rightarrow> nat list \<Rightarrow> (dirent_info \<times> name) list \<Rightarrow> bool" where
  "dir_core env vol dir cs fs \<longleftrightarrow> (if cs = [] then dir_has_files env (vn_cluster dir) cs vol fs else dir_node env vol dir cs fs)"

lemma dir_core_files: "dir_core env vol dir cs fs \<Longrightarrow> dir_has_files env (vn_cluster dir) cs vol fs"
  by (simp add: dir_core_def dir_node_def split: if_splits)

lemma compact_core:
  assumes "dir_core env vol dir cs fs" "fs = [] \<or> \<not> is_label vol dir (last fs)" "free_clusters vol < 2 ^ 32"
  defines "n \<equiv> needed_clusters vol fs"
  shows "\<exists>vol' dir'. compact_directory env vol dir = (0, vol', dir') \<and> dir_core env vol' dir' (take n cs) fs
    \<and> resized vol vol' cs (take n cs) \<and> fat_same vol vol' \<and> dir_resized dir dir'"
proof (cases "cs = []")
  case True
  have "vol_ok vol" "vn_cluster dir = 1" using dir_core_files[OF assms(1)] True by (simp_all add: dir_has_files_def dir_ok_def node_layout_def)
  then show ?thesis
    using assms(1,3) True by (simp add: compact_directory_def IS_FIXED_ROOT_def resized_refl fat_same_def dir_resized_def)
next
  case False
  have "0 < n" by (simp add: n_def needed_clusters_def)
  then show ?thesis using compact_run[of env vol dir cs fs] False assms by (simp add: dir_core_def)
qed

text \<open>What a directory is depends on the blocks that hold its entries and on its chain.\<close>

lemma has_files_cong:
  assumes "dir_has_files env c cs vol fs" "dir_ok vol' c cs" "geometry vol' = geometry vol" "dir_entries vol' cs = dir_entries vol cs"
  shows "dir_has_files env c cs vol' fs"
proof -
  have F: "0 < node_entries vol cs" "node_entries vol cs < 2 ^ 26" "listing env vol (dir_entries vol cs) 0 = Some fs" "dir_tidy (dir_entries vol cs) 0 fs"
    using assms(1) by (simp_all add: dir_has_files_def dir_state_def)
  have "next_index 0 fs \<le> length (dir_entries vol cs)" using listing_next[of env vol "dir_entries vol cs" 0 fs "[]"] F(3) by simp
  then have "listing env vol' (dir_entries vol cs) 0 = Some fs"
    using listing_take[OF F(3) _ order_refl geometryD(1)[OF assms(3)]] by simp
  then show ?thesis using F assms(2,4) geometry_ext(9)[OF assms(3)] by (simp add: dir_has_files_def dir_state_def)
qed

lemma chain_kept:
  assumes "fat_chain vol xs" "resized vol vol' cs cs'" "set xs \<inter> (set cs \<union> set cs') = {}"
  shows "fat_chain vol' xs"
proof -
  have "geometry vol' = geometry vol" using assms(2) by (simp add: resized_def)
  then have g: "total_clusters vol' = total_clusters vol" by (rule geometryD(7))
  have e: "get_fat_entry vol' c = get_fat_entry vol c" if "2 \<le> c" "c < total_clusters vol + 2" "c \<notin> set cs" "c \<notin> set cs'" for c
    using assms(2) that unfolding resized_def by blast
  show ?thesis using assms(1,3) by (induction xs rule: induct_list012) (auto simp: g e)
qed

lemma has_files_resized:
  assumes "dir_has_files env c cs vol fs" "resized vol vol' ks ks'" "fat_same vol vol'" "set cs \<inter> (set ks \<union> set ks') = {}"
  shows "dir_has_files env c cs vol' fs"
proof (rule has_files_cong[OF assms(1)])
  have d: "dir_ok vol c cs" using assms(1) by (simp add: dir_has_files_def)
  show g: "geometry vol' = geometry vol" using assms(2) by (simp add: resized_def)
  note G = geometry_ext[OF g] geometryD[OF g]
  have "node_layout vol' c cs" using dir_okD(2)[OF d] chain_kept[OF _ assms(2,4)] by (auto simp: node_layout_def G split: if_splits)
  then show "dir_ok vol' c cs" using d assms(2) by (simp add: dir_ok_def G(9) resized_def)
  have "dir_entry vol' cs i = dir_entry vol cs i" if i: "i < node_entries vol cs" for i
  proof -
    let ?b = "node_block vol cs (i div entries_per_block vol)"
    have "fat_end vol \<le> ?b" using dir_okD(5)[OF d, of i] i by (intro node_block_bounds(1)[OF dir_okD(1,2)[OF d]]) simp
    then have "fBlockCache vol' ?b = fBlockCache vol ?b" using assms(3) unfolding fat_same_def by blast
    then show ?thesis by (simp add: dir_entry_def node_ptr_def entry_data_def block_data_def G(1,8))
  qed
  then show "dir_entries vol' cs = dir_entries vol cs" unfolding dir_entries_def G(9) by (intro map_cong) auto
qed

lemma dir_core_resized:
  assumes "dir_core env vol dir cs fs" "resized vol vol' ks ks'" "fat_same vol vol'" "set cs \<inter> (set ks \<union> set ks') = {}"
  shows "dir_core env vol' dir cs fs"
proof -
  have g: "geometry vol' = geometry vol" using assms(2) by (simp add: resized_def)
  show ?thesis
    using assms(1) has_files_resized[OF dir_core_files[OF assms(1)] assms(2-4)] chain_kept[OF _ assms(2,4)] geometry_ext(9)[OF g]
    by (auto simp: dir_core_def dir_node_def node_clusters_def split: if_splits)
qed

text \<open>Two states with the same blocks.\<close>

definition same_blocks :: "nspace \<Rightarrow> nspace \<Rightarrow> bool" where
  "same_blocks vol vol' \<longleftrightarrow> geometry vol' = geometry vol \<and> fBlockCache vol' = fBlockCache vol"

lemma same_blocks_kept: "same_blocks vol vol' \<Longrightarrow> fat_kept vol vol'"
  by (simp add: same_blocks_def fat_kept_def)

lemma dir_core_blocks:
  assumes "dir_core env vol dir cs fs" "same_blocks vol vol'"
  shows "dir_core env vol' dir cs fs"
proof -
  have F: "dir_has_files env (vn_cluster dir) cs vol fs" by (rule dir_core_files[OF assms(1)])
  then have d: "dir_ok vol (vn_cluster dir) cs" by (simp add: dir_has_files_def)
  note K = fat_kept_chain[OF same_blocks_kept[OF assms(2)] vol_okD(1)[OF dir_okD(1)[OF d]]]
  have g: "geometry vol' = geometry vol" and b: "fBlockCache vol' = fBlockCache vol" using assms(2) by (simp_all only: same_blocks_def)
  note G = geometry_ext[OF g]
  have "dir_entries vol' cs = dir_entries vol cs"
    by (simp add: dir_entries_def dir_entry_def entry_data_def node_ptr_def block_data_def b G(1,8,9))
  then have "dir_has_files env (vn_cluster dir) cs vol' fs" using has_files_cong[OF F _ g] K(3) d by blast
  then show ?thesis using assms(1) by (simp add: dir_core_def dir_node_def node_clusters_def K(1) G(9) split: if_splits)
qed

subsection \<open>Properties\<close>

text \<open>C14: \<^verbatim>\<open>compact_directory\<close> gives back the clusters behind the last file of a directory, all but one when there is none, and the directory lists the same files. The
  vnode knows its new length, the clusters that are given back are free and counted as free, and every other chain stays as it is. (A volume label that is the last file of the root
  directory does not count.)\<close>

theorem compact_directory_shrinks:
  assumes "dir_node env vol dir cs fs" "fs = [] \<or> \<not> is_label vol dir (last fs)" "free_clusters vol < 2 ^ 32"
    and "n = max 1 ((next_index 0 fs + cluster_entries vol - 1) div cluster_entries vol)"
  shows "\<exists>vol' dir'. compact_directory env vol dir = (0, vol', dir') \<and> dir_node env vol' dir' (take n cs) fs
    \<and> (\<forall>c \<in> set (drop n cs). get_fat_entry vol' c = 0) \<and> free_clusters vol' = u32 (free_clusters vol + length (drop n cs))
    \<and> (\<forall>xs. fat_chain vol xs \<and> set xs \<inter> set cs = {} \<longrightarrow> fat_chain vol' xs)"
proof -
  have n: "n = needed_clusters vol fs" using assms(4) by (simp add: needed_clusters_def)
  obtain vol' dir' where r: "compact_directory env vol dir = (0, vol', dir')" "dir_node env vol' dir' (take n cs) fs" "resized vol vol' cs (take n cs)"
    using compact_run[OF assms(1-3)] unfolding n by blast
  have "fat_chain vol cs" using assms(1) by (simp add: dir_node_def node_clusters_def)
  then have "distinct cs" using ft.chain_distinct fat_chain_eq vol_okD(1)[OF dir_node_size(3)[OF assms(1)]] by blast
  then have "set (drop n cs) \<subseteq> set cs - set (take n cs)" by (auto dest: in_set_dropD set_take_disj_set_drop_if_distinct[of cs n n])
  then have a: "\<forall>c \<in> set (drop n cs). get_fat_entry vol' c = 0" using r(3) unfolding resized_def by blast
  have "int (free_clusters vol) + int (length cs) - int (length (take n cs)) = int (free_clusters vol + length (drop n cs))" by simp
  then have b: "free_clusters vol' = u32 (free_clusters vol + length (drop n cs))"
    using r(3) unfolding resized_def by (metis u32_of_int_nat)
  have "fat_chain vol' xs" if "fat_chain vol xs" "set xs \<inter> set cs = {}" for xs
    by (rule chain_kept[OF that(1) r(3)]) (use that(2) set_take_subset[of n cs] in blast)
  then show ?thesis using r(1,2) a b by blast
qed

subsection \<open>Witness\<close>

text \<open>An empty directory with two clusters.\<close>

definition tiny_empty_dir :: vnode where
  "tiny_empty_dir = tiny_vnode\<lparr>vn_vnid := 2, vn_cluster := 2, vn_end_cluster := 4, vn_st_size := 256\<rparr>"

lemma tiny_empty_dir_ok: "dir_node tiny_env tiny_disk tiny_empty_dir [2, 4] []"
proof -
  have same: "fat_same tiny_disk0 tiny_disk" 
    unfolding tiny_disk_def using fat_same_trans[OF fat_same_put[OF tiny_disk0_ok(1)] fat_same_put] fat_put_ok(1)[OF tiny_disk0_ok(1), of 4] by (simp add: tiny_disk0_simps)
  note G = geometryD[OF tiny_disk_ok(1)]
  have "dir_entry tiny_disk [2, 4] i = replicate 0x20 0" if i: "i < 8" for i
  proof -
    let ?b = "node_block tiny_disk [2, 4] (i div entries_per_block tiny_disk)"
    have p: "i div entries_per_block tiny_disk < node_sectors tiny_disk [2, 4]" using dir_okD(5)[OF tiny_disk_ok(4), of i] i tiny_disk_ok(7) by simp
    note B = node_block_bounds[OF tiny_disk_ok(2) dir_okD(2)[OF tiny_disk_ok(4)] p]
    have "fat_end tiny_disk0 \<le> ?b" "?b < 13" using B by (simp_all add: fat_end_def vol_end_def G tiny_disk0_simps)
    then have "fBlockCache tiny_disk ?b = Some (replicate 64 0)" using same by (simp add: fat_same_def tiny_disk0_simps)
    moreover have "(i mod entries_per_block tiny_disk) * 0x20 \<le> 0x20" by (simp add: entries_per_block_def G tiny_disk0_simps)
    ultimately show ?thesis by (simp add: dir_entry_def node_ptr_def entry_data_def block_data_def min_def)
  qed
  then have "dir_entries tiny_disk [2, 4] = replicate 8 (replicate 0x20 0)"
    unfolding dir_entries_def tiny_disk_ok(7) by (intro nth_equalityI) simp_all
  then have "listing tiny_env tiny_disk (dir_entries tiny_disk [2, 4]) 0 = Some []" using listing_zeros[of 0 "dir_entries tiny_disk [2, 4]" 8] by simp
  then show ?thesis
    using tiny_disk_ok(3,4,7) by (simp add: dir_node_def dir_has_files_def dir_state_def tiny_empty_dir_def node_clusters_def)
qed

theorem compact_directory_shrinks_witness:
  "\<exists>vol' dir'. compact_directory tiny_env tiny_disk tiny_empty_dir = (0, vol', dir') \<and> dir_node tiny_env vol' dir' [2] [] \<and> get_fat_entry vol' 4 = 0"
proof -
  have "free_clusters tiny_disk < 2 ^ 32" unfolding tiny_disk_def by (simp add: fat_put_frame tiny_disk0_def tiny_volume_def)
  from compact_directory_shrinks[OF tiny_empty_dir_ok _ this refl] show ?thesis
    by (auto simp: cluster_entries_def entries_per_block_def geometryD[OF tiny_disk_ok(1)] tiny_disk0_simps)
qed

end
