(* ===== verification/Name_Ops.thy ===== *)
theory Name_Ops
  imports Vnode_Ops File_Ops
begin

text \<open>
  Operations on names: \<^verbatim>\<open>dosfs_create\<close>, \<^verbatim>\<open>dosfs_mkdir\<close>, \<^verbatim>\<open>dosfs_rename\<close>, \<^verbatim>\<open>dosfs_unlink\<close> and \<^verbatim>\<open>dosfs_rmdir\<close> of \<^verbatim>\<open>fat/file.c\<close>. They work
  on several vnodes of one volume, so they take the ids of vnodes and change the table of vnodes in core.

  Where \<^verbatim>\<open>findfile\<close> reports success without a vnode, the callers go on with a pointer that is not set: \<open>fault\<close>. The loop
  of \<^verbatim>\<open>dosfs_rename\<close> over the parents of a directory may run forever when they form a circle; it is a partial function, and not ending is
  \<open>fault\<close> too.
\<close>

section \<open>Definitions\<close>

definition mt_fault :: "mount \<Rightarrow> mount" where
  "mt_fault mt = mt\<lparr>mt_vol := (mt_vol mt)\<lparr>fault := True\<rparr>\<rparr>"

definition mt_sync :: "mount \<Rightarrow> mount" where
  "mt_sync mt = mt\<lparr>mt_vol := op_sync (mt_vol mt)\<rparr>"

text \<open>The vnode \<^verbatim>\<open>dummy\<close> that only serves to create a directory entry.\<close>

definition dummy_vnode :: "env \<Rightarrow> ino_t \<Rightarrow> nat \<Rightarrow> nat \<Rightarrow> int \<Rightarrow> vnode" where
  "dummy_vnode env dir_vnid cluster mode sz =
     \<lparr>vn_vnid = 0, vn_dir_vnid = dir_vnid, vn_disk_image = 0, vn_iteration = 0, vn_sindex = 0, vn_eindex = 0, vn_cluster = cluster,
      vn_mode = mode, vn_st_size = sz, vn_st_time = env_time env, vn_end_cluster = cluster, vn_mime = None, vn_dirty = False,
      vn_filename = None, vn_cache = False\<rparr>"

text \<open>An id for a new entry at the location \<open>loc\<close>: the location itself, or a new id when it is taken.\<close>

definition fresh_vnid :: "env \<Rightarrow> nspace \<Rightarrow> ino_t \<Rightarrow> (status_t + ino_t) \<times> nspace" where
  "fresh_vnid env vol loc =
     (if find_vnid_in_vcache (vol_vcache vol) loc \<noteq> None then
        case generate_unique_vnid (vol_vcache vol) of (vnid, vc) \<Rightarrow>
          (case add_to_vcache (env_mem env) vc vnid loc of (result, vc) \<Rightarrow>
             (if result < 0 then Inl result else Inr vnid, vol\<lparr>vol_vcache := vc\<rparr>))
      else (Inr loc, vol))"

text \<open>The part of \<^verbatim>\<open>dosfs_create\<close> for a name that is new.\<close>

definition create_new :: "env \<Rightarrow> mount \<Rightarrow> ino_t \<Rightarrow> name \<Rightarrow> (status_t + ino_t \<times> vnode) \<times> mount" where
  "create_new env mt dir name =
     (case create_dir_entry env (mt_vol mt) (node_of mt dir) (dummy_vnode env dir 0 0 0) name of (result, sindex, eindex, vol, dnode) \<Rightarrow>
        let mt = set_node (mt\<lparr>mt_vol := vol\<rparr>) dir dnode
        in if result \<noteq> B_OK then (Inl result, mt)
           else case fresh_vnid env (mt_vol mt) (GENERATE_DIR_INDEX_VNID dir sindex) of
                  (Inl result, vol) \<Rightarrow> (Inl result, mt_sync (mt\<lparr>mt_vol := vol\<rparr>))
                | (Inr vnid, vol) \<Rightarrow>
                    (case get_vnode env (mt\<lparr>mt_vol := vol\<rparr>) vnid of
                       (Inl result, mt) \<Rightarrow> (Inl result, mt_sync mt)
                     | (Inr file, mt) \<Rightarrow> (Inr (vnid, file), mt)))"

text \<open>The part for a file that exists.\<close>

definition create_existing :: "env \<Rightarrow> mount \<Rightarrow> nat \<Rightarrow> vnode \<Rightarrow> (status_t + vnode) \<times> mount" where
  "create_existing env mt omode file =
     (if omode AND O_EXCL \<noteq> 0 then (Inl EEXIST, put_vnode env mt (vn_vnid file))
      else if vn_mode file AND FAT_SUBDIR \<noteq> 0 then (Inl EPERM, put_vnode env mt (vn_vnid file))
      else if vn_disk_image file \<noteq> 0 then (Inl EPERM, put_vnode env mt (vn_vnid file))
      else if omode AND O_TRUNC \<noteq> 0 then
        case set_fat_chain_length env (mt_vol mt) file 0 of (result, vol, file) \<Rightarrow>
          let file = file\<lparr>vn_st_size := 0, vn_iteration := u32 (vn_iteration file + 1)\<rparr>
          in (Inr file, set_node (mt\<lparr>mt_vol := vol\<rparr>) (vn_vnid file) file)
      else (Inr file, mt))"

definition dosfs_create :: "env \<Rightarrow> mount \<Rightarrow> ino_t \<Rightarrow> name \<Rightarrow> nat \<Rightarrow> (status_t + filecookie \<times> ino_t) \<times> mount" where
  "dosfs_create env mt dir name omode =
     (if vol_flags (mt_vol mt) AND B_FS_IS_READONLY \<noteq> 0 then (Inl EROFS, mt)
      else if omode AND O_RWMASK = O_RDONLY then (Inl EPERM, mt)
      else if \<not> env_mem env then (Inl ENOMEM, mt)
      else
        let done = (\<lambda>mt vnid file. (Inr (\<lparr>fc_mode = omode, fc_iteration = vn_iteration file, fc_index = 0, fc_cluster = vn_cluster file\<rparr>, vnid), mt_sync mt))
        in case findfile_node env mt (node_of mt dir) name True True of
             (Inr (vnid, None), dups_exist, mt) \<Rightarrow> (Inl B_ERROR, mt_fault mt)
           | (Inr (vnid, Some file), dups_exist, mt) \<Rightarrow>
               (case create_existing env mt omode file of (Inl result, mt) \<Rightarrow> (Inl result, mt) | (Inr file, mt) \<Rightarrow> done mt vnid file)
           | (Inl result, dups_exist, mt) \<Rightarrow>
               if result = ENOENT \<and> dups_exist then (Inl EEXIST, mt)
               else if result = ENOENT then
                 (case create_new env mt dir name of (Inl result, mt) \<Rightarrow> (Inl result, mt) | (Inr (vnid, file), mt) \<Rightarrow> done mt vnid file)
               else (Inl result, mt))"

subsection \<open>Directories\<close>

text \<open>The first sector of a new directory, with the entries for itself and its parent.\<close>

definition new_dir_block :: "env \<Rightarrow> nspace \<Rightarrow> vnode \<Rightarrow> nat \<Rightarrow> block" where
  "new_dir_block env vol dir cluster =
     (let b = replicate (bytes_per_sector vol) 0;
          b = memset_at b 0 0x20 11;
          b = memset_at b 0x20 0x20 11;
          b = b[0 := 0x2e, 0x20 := 0x2e, 0x21 := 0x2e];
          b = b[0x0b := 0x30, 0x2b := 0x30];
          b = write32 b 0x16 (time_t2dos (env_tz env) (env_time env));
          b = write32 b 0x36 (time_t2dos (env_tz env) (vn_st_time dir));
          b = write16 b 0x1a cluster;
          b = (if fat_bits vol = 32 then write16 b 0x14 (cluster div 65536) else b)
      in if vn_vnid dir \<noteq> vn_vnid (root_vnode vol) then
           let b = write16 b 0x3a (vn_cluster dir)
           in if fat_bits vol = 32 then write16 b 0x34 (vn_cluster dir div 65536) else b
         else b)"

text \<open>The loop that clears the other \<open>k\<close> sectors of the cluster.\<close>

fun clear_cluster :: "nat \<Rightarrow> nspace \<Rightarrow> csi \<Rightarrow> nspace" where
  "clear_cluster 0 vol csi = vol"
| "clear_cluster (Suc k) vol csi =
     (case iter_csi vol csi 1 of (result, csi) \<Rightarrow>
        if result \<noteq> B_OK then vol
        else clear_cluster k (snd (csi_write_block vol csi (replicate (bytes_per_sector vol) 0))) csi)"

text \<open>What \<^verbatim>\<open>dosfs_mkdir\<close> undoes when it fails, from the label \<^verbatim>\<open>bi2\<close> and from \<^verbatim>\<open>bi3\<close> on.\<close>

definition mkdir_bi2 :: "nspace \<Rightarrow> nat \<Rightarrow> nspace" where
  "mkdir_bi2 vol cluster = op_sync (snd (clear_fat_chain vol cluster))"

definition mkdir_bi3 :: "nspace \<Rightarrow> nat \<Rightarrow> ino_t \<Rightarrow> nspace" where
  "mkdir_bi3 vol cluster vnid =
     mkdir_bi2 (if IS_ARTIFICIAL_VNID vnid then vol\<lparr>vol_vcache := snd (remove_from_vcache (vol_vcache vol) vnid)\<rparr> else vol) cluster"

definition dosfs_mkdir :: "env \<Rightarrow> mount \<Rightarrow> ino_t \<Rightarrow> name \<Rightarrow> nat \<Rightarrow> status_t \<times> mount" where
  "dosfs_mkdir env mt dir name perms =
     (let dnode = node_of mt dir; vol = mt_vol mt
      in if vn_mode dnode AND FAT_SUBDIR = 0 then (EINVAL, mt)
         else if vol_flags vol AND B_FS_IS_READONLY \<noteq> 0 then (EROFS, mt)
         else
           let perms = and_not perms S_IFMT OR S_IFDIR
           in case allocate_n_fat_entries vol 1 of (result, cluster, vol) \<Rightarrow>
                if result < 0 then (result, mt\<lparr>mt_vol := vol\<rparr>)
                else
                  let mode = (if perms AND (S_IWUSR OR S_IWGRP OR S_IWGRP) = 0 then FAT_SUBDIR OR FAT_READ_ONLY else FAT_SUBDIR);
                      dummy = dummy_vnode env dir cluster mode (int (u32 (bytes_per_sector vol * sectors_per_cluster vol)))
                  in case fresh_vnid env vol (GENERATE_DIR_CLUSTER_VNID dir cluster) of
                       (Inl result, vol) \<Rightarrow> (result, mt\<lparr>mt_vol := mkdir_bi2 vol cluster\<rparr>)
                     | (Inr vnid, vol) \<Rightarrow>
                         (case dlist_add (env_vnid_mem env) (vol_dlist vol) vnid of (result, dl) \<Rightarrow>
                            let vol = vol\<lparr>vol_dlist := dl\<rparr>;
                                undo = (\<lambda>vol. mkdir_bi3 (vol\<lparr>vol_dlist := snd (dlist_remove (env_vnid_mem env) (vol_dlist vol) vnid)\<rparr>) cluster vnid)
                            in if result < 0 then (result, mt\<lparr>mt_vol := mkdir_bi3 vol cluster vnid\<rparr>)
                               else if \<not> env_mem env then (ENOMEM, mt\<lparr>mt_vol := undo vol\<rparr>)
                               else case create_dir_entry env vol dnode dummy name of (result, sindex, eindex, vol, dnode) \<Rightarrow>
                                      if result \<noteq> B_OK then (result, set_node (mt\<lparr>mt_vol := undo vol\<rparr>) dir dnode)
                                      else
                                        let csi = snd (init_csi vol cluster 0 \<lparr>csi_cluster = 0, csi_sector = 0\<rparr>);
                                            vol = snd (csi_write_block vol csi (new_dir_block env vol dnode cluster));
                                            vol = clear_cluster (sectors_per_cluster vol - 1) vol csi
                                        in (B_OK, mt_sync (set_node (mt\<lparr>mt_vol := vol\<rparr>) dir dnode))))"

subsection \<open>Renaming\<close>

text \<open>The loop that looks for the directory \<open>file\<close> among the parents of \<open>vnid\<close>.\<close>

partial_function (option) parents_loop :: "env \<Rightarrow> mount \<Rightarrow> ino_t \<Rightarrow> ino_t \<Rightarrow> (status_t \<times> mount) option" where
  "parents_loop env mt file vnid =
     (if vnid = file then Some (EINVAL, mt)
      else if vnid = mt_root mt then Some (B_OK, mt)
      else case get_vnode env mt vnid of
             (Inl result, mt) \<Rightarrow> Some (result, mt)
           | (Inr dir, mt) \<Rightarrow> parents_loop env (put_vnode env mt vnid) file (vn_dir_vnid dir))"

text \<open>Giving the id of a removed file a location of its own.\<close>

definition forget_loc :: "env \<Rightarrow> mount \<Rightarrow> ino_t \<Rightarrow> mount" where
  "forget_loc env mt vnid =
     (case generate_unique_vnid (vol_vcache (mt_vol mt)) of (loc, vc) \<Rightarrow>
        mt\<lparr>mt_vol := (mt_vol mt)\<lparr>vol_vcache := snd (vcache_set_entry (env_mem env) vc vnid loc)\<rparr>\<rparr>)"

text \<open>The part of \<^verbatim>\<open>dosfs_rename\<close> that makes room for the new name and gives the entries of it: a status, the volume's state, and whether
  it is dirty.\<close>

definition rename_target :: "env \<Rightarrow> mount \<Rightarrow> ino_t \<Rightarrow> name \<Rightarrow> ino_t \<Rightarrow> name \<Rightarrow> vnode \<Rightarrow> (status_t + nat \<times> nat) \<times> bool \<times> mount" where
  "rename_target env mt odir oldname ndir newname file =
     (case findfile_node env mt (node_of mt ndir) newname True True of
        (Inr (vnid2, None), dups_exist, mt) \<Rightarrow> (Inl B_ERROR, False, mt_fault mt)
      | (Inr (vnid2, Some file2), dups_exist, mt) \<Rightarrow>
          if vn_mode file2 AND FAT_SUBDIR \<noteq> 0 then (Inl EPERM, False, put_vnode env mt (vn_vnid file2))
          else if vn_disk_image file2 \<noteq> 0 then (Inl EPERM, False, put_vnode env mt (vn_vnid file2))
          else
            let mt = forget_loc env mt (vn_vnid file2);
                mt = put_vnode env (remove_vnode mt (vn_vnid file2)) (vn_vnid file2)
            in case erase_dir_entry env (mt_vol mt) file of (result, vol) \<Rightarrow>
                 (if result \<noteq> B_OK then Inl result else Inr (vn_sindex file2, vn_eindex file2), True, mt\<lparr>mt_vol := vol\<rparr>)
      | (Inl result, dups_exist, mt) \<Rightarrow>
          if result = ENOENT \<and> (\<not> dups_exist \<or> odir = ndir \<and> strcasecmp0 oldname newname) then
            case erase_dir_entry env (mt_vol mt) file of (result, vol) \<Rightarrow>
              let mt = mt\<lparr>mt_vol := vol\<rparr>
              in if result \<noteq> B_OK then (Inl result, False, mt)
                 else case create_dir_entry env vol (node_of mt ndir) file newname of (result, ns, ne, vol, dnode) \<Rightarrow>
                        (if result \<noteq> B_OK then Inl result else Inr (ns, ne), True, set_node (mt\<lparr>mt_vol := vol\<rparr>) ndir dnode)
          else if result = ENOENT then (Inl EEXIST, False, mt)
          else (Inl result, False, mt))"

text \<open>The first eleven bytes of the entry of the parent.\<close>

definition dotdot_entry_name :: block where
  "dotdot_entry_name = [0x2e, 0x2e] @ replicate 9 0x20"

text \<open>The part that writes the parent's cluster into a directory that has moved. When it fails, the code puts back the vnode
  \<^verbatim>\<open>file2\<close>, which is not set or no longer held.\<close>

definition rename_parent :: "nspace \<Rightarrow> vnode \<Rightarrow> vnode \<Rightarrow> status_t \<times> nspace" where
  "rename_parent vol file ndir =
     (case diri_init vol (vn_cluster file) 1 new_diri of
        (None, diri) \<Rightarrow> (EIO, vol\<lparr>fault := True\<rparr>)
      | (Some p, diri) \<Rightarrow>
          let buffer = entry_data vol p
          in if take 11 buffer \<noteq> dotdot_entry_name then (EIO, vol\<lparr>fault := True\<rparr>)
             else if vn_vnid ndir = vn_vnid (root_vnode vol) then (B_OK, entry_store vol p (write16 buffer 0x1a 0))
             else
               let buffer = write16 buffer 0x1a (vn_cluster ndir);
                   buffer = (if fat_bits vol = 32 then write16 buffer 0x14 (vn_cluster ndir div 65536) else buffer)
               in (B_OK, entry_store vol p buffer))"

text \<open>The part from \<^verbatim>\<open>compact_directory\<close> on.\<close>

definition rename_finish :: "env \<Rightarrow> mount \<Rightarrow> ino_t \<Rightarrow> ino_t \<Rightarrow> name \<Rightarrow> ino_t \<Rightarrow> nat \<Rightarrow> nat \<Rightarrow> status_t \<times> mount" where
  "rename_finish env mt odir ndir newname vnid ns ne =
     (case compact_directory env (mt_vol mt) (node_of mt odir) of (result, vol, dnode) \<Rightarrow>
        let mt = set_node (mt\<lparr>mt_vol := vol\<rparr>) odir dnode;
            file = (node_of mt vnid)\<lparr>vn_dir_vnid := ndir, vn_sindex := ns, vn_eindex := ne\<rparr>;
            mt = set_node mt vnid file;
            loc = (if vn_st_size file \<noteq> 0 then GENERATE_DIR_CLUSTER_VNID ndir (vn_cluster file) else GENERATE_DIR_INDEX_VNID ndir ns);
            vol = (mt_vol mt)\<lparr>vol_vcache := snd (vcache_set_entry (env_mem env) (vol_vcache (mt_vol mt)) vnid loc)\<rparr>;
            vol = snd (write_vnode_entry env vol file);
            (result, vol) = (if vn_mode file AND FAT_SUBDIR \<noteq> 0 then rename_parent vol file (node_of mt ndir) else (B_OK, vol));
            mt = mt\<lparr>mt_vol := vol\<rparr>
        in if result \<noteq> B_OK then (result, mt)
           else
             let file = file\<lparr>vn_filename := (if env_mem env then Some newname else None)\<rparr>;
                 file = (if vn_mode file AND FAT_SUBDIR = 0 then snd (set_mime_type file newname) else file)
             in (B_OK, set_node mt vnid file))"

definition dosfs_rename :: "env \<Rightarrow> mount \<Rightarrow> ino_t \<Rightarrow> name \<Rightarrow> ino_t \<Rightarrow> name \<Rightarrow> status_t \<times> mount" where
  "dosfs_rename env mt odir oldname ndir newname =
     (if \<not> is_filename_legal newname then (EINVAL, mt)
      else if vol_flags (mt_vol mt) AND B_FS_IS_READONLY \<noteq> 0 then (EROFS, mt)
      else if oldname = [] \<or> newname = [] then (EINVAL, mt)
      else if odir = ndir \<and> oldname = newname then (EPERM, mt)
      else case findfile_node env mt (node_of mt odir) oldname True False of
             (Inl result, dups, mt) \<Rightarrow> (result, mt)
           | (Inr (vnid, None), dups, mt) \<Rightarrow> (B_ERROR, mt_fault mt)
           | (Inr (vnid, Some file), dups, mt) \<Rightarrow>
               if vn_disk_image file \<noteq> 0 then (EPERM, put_vnode env mt (vn_vnid file))
               else case (if vn_mode file AND FAT_SUBDIR \<noteq> 0 then parents_loop env mt (vn_vnid file) ndir else Some (B_OK, mt)) of
                      None \<Rightarrow> (B_ERROR, mt_fault mt)
                    | Some (result, mt) \<Rightarrow>
                        if result \<noteq> B_OK then (result, put_vnode env mt (vn_vnid file))
                        else case rename_target env mt odir oldname ndir newname file of
                               (Inl result, dirty, mt) \<Rightarrow>
                                 let mt = put_vnode env mt (vn_vnid file) in (result, if dirty then mt_sync mt else mt)
                             | (Inr (ns, ne), dirty, mt) \<Rightarrow>
                                 (case rename_finish env mt odir ndir newname (vn_vnid file) ns ne of (result, mt) \<Rightarrow>
                                    (result, mt_sync (put_vnode env mt (vn_vnid file)))))"

subsection \<open>Removing\<close>

text \<open>The tests on the file that is to be removed.\<close>

definition unlink_check :: "env \<Rightarrow> mount \<Rightarrow> vnode \<Rightarrow> bool \<Rightarrow> status_t \<times> mount" where
  "unlink_check env mt file is_file =
     (if vn_disk_image file \<noteq> 0 then (EPERM, mt)
      else if is_file then (if vn_mode file AND FAT_SUBDIR \<noteq> 0 then EISDIR else B_OK, mt)
      else if vn_mode file AND FAT_SUBDIR = 0 then (ENOTDIR, mt)
      else if vn_vnid file = mt_root mt then (EPERM, mt)
      else case check_dir_empty env (mt_vol mt) file of (result, vol) \<Rightarrow> (if result < 0 then result else B_OK, mt\<lparr>mt_vol := vol\<rparr>))"

definition do_unlink :: "env \<Rightarrow> mount \<Rightarrow> ino_t \<Rightarrow> name \<Rightarrow> bool \<Rightarrow> status_t \<times> mount" where
  "do_unlink env mt dir name is_file =
     (if name = dot then (EPERM, mt)
      else if name = dotdot then (EPERM, mt)
      else if vol_flags (mt_vol mt) AND B_FS_IS_READONLY \<noteq> 0 then (EROFS, mt)
      else case findfile_node env mt (node_of mt dir) name True False of
             (Inl result, dups, mt) \<Rightarrow> (ENOENT, mt)
           | (Inr (vnid, None), dups, mt) \<Rightarrow> (B_ERROR, mt_fault mt)
           | (Inr (vnid, Some file), dups, mt) \<Rightarrow>
               (case unlink_check env mt file is_file of (result, mt) \<Rightarrow>
                  if result \<noteq> B_OK then (result, put_vnode env mt vnid)
                  else case erase_dir_entry env (mt_vol mt) file of (result, vol) \<Rightarrow>
                    if result \<noteq> B_OK then (result, put_vnode env (mt\<lparr>mt_vol := vol\<rparr>) vnid)
                    else case compact_directory env vol (node_of (mt\<lparr>mt_vol := vol\<rparr>) dir) of (result, vol, dnode) \<Rightarrow>
                      let mt = set_node (mt\<lparr>mt_vol := vol\<rparr>) dir dnode;
                          mt = forget_loc env mt (vn_vnid file);
                          mt = remove_vnode mt (vn_vnid file)
                      in (0, put_vnode env (mt_sync mt) vnid)))"

definition dosfs_unlink :: "env \<Rightarrow> mount \<Rightarrow> ino_t \<Rightarrow> name \<Rightarrow> status_t \<times> mount" where
  "dosfs_unlink env mt dir name = do_unlink env mt dir name True"

definition dosfs_rmdir :: "env \<Rightarrow> mount \<Rightarrow> ino_t \<Rightarrow> name \<Rightarrow> status_t \<times> mount" where
  "dosfs_rmdir env mt dir name = do_unlink env mt dir name False"

end
