(* ===== verification/Name_Laws.thy ===== *)
theory Name_Laws
  imports Name_Ops Dir_Read
begin

text \<open>
  What \<^verbatim>\<open>dosfs_rmdir\<close> checks before it removes a directory.
\<close>

section \<open>Theorems\<close>

lemma empty_status_ok:
  "empty_status 0 fs = B_OK \<longleftrightarrow> (\<exists>d p. fs = [d, p] \<and> first_two 0 d \<and> first_two 1 p)"
  by (auto simp: empty_status_def errno_defs split: list.split)

lemma empty_status_nonpos: "empty_status i fs = B_OK \<or> empty_status i fs < 0"
  by (auto simp: empty_status_def errno_defs split: list.split)

text \<open>The check of \<^verbatim>\<open>dosfs_rmdir\<close> on a directory whose entries give the files \<open>fs\<close>.\<close>

lemma rmdir_check:
  assumes "vn_disk_image file = 0" "vn_mode file AND FAT_SUBDIR \<noteq> 0" "vn_vnid file \<noteq> mt_root mt"
    and "dir_ok (mt_vol mt) (vn_cluster file) cs" "0 < node_entries (mt_vol mt) cs" "listing env (mt_vol mt) (dir_entries (mt_vol mt) cs) 0 = Some fs"
  shows "unlink_check env mt file False = (empty_status 0 fs, mt)"
proof -
  have "\<not> is_root (mt_vol mt) file" using assms(3) by (simp add: is_root_def mt_root_def)
  then have "check_dir_empty env (mt_vol mt) file = (empty_status 0 fs, mt_vol mt)" using check_dir_empty_status[OF assms(4-6)] by simp
  then show ?thesis using assms(1-3) empty_status_nonpos[of 0 fs] by (auto simp: unlink_check_def errno_defs)
qed

subsection \<open>The small directory\<close>

lemma tiny_dir_found:
  "\<exists>v vol'. findfile tiny_env tiny_dir (root_vnode tiny_dir) (tiny_name 0x61) True False = (Inr v, False, vol') \<and> same_disk tiny_dir vol' \<and> v \<noteq> 1"
proof -
  let ?r = "root_vnode tiny_dir"
  have r: "vn_cluster ?r = 1" "vn_vnid ?r = 1" "CLUSTER_OF_DIR_CLUSTER_VNID (vn_vnid ?r) < 2 ^ 28"
    by (simp_all add: tiny_dir_def CLUSTER_OF_DIR_CLUSTER_VNID_def)
  have n: "tiny_name c \<noteq> dot" "tiny_name c \<noteq> dotdot" "tiny_name c = tiny_name d \<longleftrightarrow> c = d" for c d
    by (auto simp: tiny_name_def dot_def dotdot_def dest: arg_cong[where f = length])
  let ?fs = "[(entry_info tiny_dir 0 0 (tiny_entry 0x41), tiny_name 0x41), (entry_info tiny_dir 1 1 (tiny_entry 0x61), tiny_name 0x61)]"
  let ?f = "(entry_info tiny_dir 1 1 (tiny_entry 0x61), tiny_name 0x61)"
  have d: "dir_ok tiny_dir (vn_cluster ?r) []" "0 < node_entries tiny_dir []" using tiny_dir_ok r(1) by simp_all
  have i: "dir_id_ok ?r ?fs" using listing_id_ok[OF tiny_dir_listing _ r(3)] by (simp add: tiny_dir_ok(2))
  have k: "vnids_ok (Suc (length ?fs)) (vol_vcache tiny_dir)" using vnids_ok_mono[OF tiny_dir_ok(3)] by simp
  have l: "filter (\<lambda>f. \<not> is_label tiny_dir ?r f) ?fs = ?fs" by (simp add: is_label_def entry_info_def tiny_entry_bytes)
  have fi: "find_in True False (tiny_name 0x61) ?fs None False = (Some ?f, False)" by (simp add: n)
  obtain v vol' where v: "findfile tiny_env tiny_dir ?r (tiny_name 0x61) True False = (case v of Some v \<Rightarrow> Inr v | None \<Rightarrow> Inl ENOENT, False, vol')"
    "ids_grow 0 tiny_dir vol'" "found_vnid vol' ?r (Some ?f) v"
    using findfile_listing[OF d tiny_dir_listing k tiny_dir_ok(4) i, of "tiny_name 0x61" True False] n(1,2) unfolding l fi by auto
  obtain u where u: "v = Some u" "file_vnid vol' ?r ?f u" using v(3) n(1,2) by (auto simp: found_vnid_def split: option.splits)
  have "u \<noteq> 1"
  proof
    assume u1: "u = 1"
    have "\<not> IS_ARTIFICIAL_VNID 1" by code_simp
    then have "1 \<notin> new_vnids (vol_vcache tiny_dir)" 
    proof (intro notI)
      assume a: "\<not> IS_ARTIFICIAL_VNID 1" "1 \<in> new_vnids (vol_vcache tiny_dir)"
      then obtain j where j: "1 = ARTIFICIAL_VNID_BITS + word_of_nat j" "j < 2 ^ 60" unfolding new_vnids_def by auto
      show False using a(1) artificial_vnid(1)[OF j(2)] unfolding j(1)[symmetric] by blast
    qed
    then have "vmap (vol_vcache vol') 1 = vmap (vol_vcache tiny_dir) 1" using v(2) by (simp add: ids_grow_def)
    moreover have "vmap (vol_vcache tiny_dir) 1 = None" by (simp add: vmap_def find_vnid_in_vcache_def vhash_def tiny_dir_def)
    ultimately have "file_loc vol' ?r (fst ?f) = 1" using u(2) u1 n(1,2) by (simp add: file_vnid_def vloc_def)
    then have "file_loc tiny_dir ?r (entry_info tiny_dir 1 1 (tiny_entry 0x61)) = 1"
      using v(2) same_disk_parse(5)[of tiny_dir vol' ?r] by (simp add: ids_grow_def)
    moreover have "\<not> IS_DATA_CLUSTER tiny_dir (int (di_cluster (entry_info tiny_dir 1 1 (tiny_entry 0x61))))"
      by (simp add: IS_DATA_CLUSTER_def entry_info_def read16_def tiny_entry_def tiny_name_def nth_append tiny_dir_def tiny_disk0_simps)
    ultimately have "GENERATE_DIR_INDEX_VNID 1 1 = 1" by (simp add: file_loc_def r(2) entry_info_def)
    moreover have "GENERATE_DIR_INDEX_VNID 1 1 \<noteq> 1" by code_simp
    ultimately show False by simp
  qed
  then show ?thesis using v u by (auto simp: ids_grow_def)
qed

end
