(* ===== verification/Vnode_Laws.thy ===== *)
theory Vnode_Laws
  imports Dir_Files Vnode_Ops
begin

text \<open>
  Reading vnodes: \<^verbatim>\<open>dosfs_read_vnode\<close> takes an id apart, finds the directory and in it the entry that the id stands for.
\<close>

section \<open>Theorems\<close>

subsection \<open>The directory list during a search\<close>

text \<open>Room for \<open>k\<close> more directories.\<close>

definition dlist_room :: "nat \<Rightarrow> dlist \<Rightarrow> bool" where
  "dlist_room k dl \<longleftrightarrow> dlist_ok dl \<and> dl_allocated dl + (k + 2) * DLIST_ENTRY_QUANTUM < 2 ^ 32"

text \<open>Directories are only appended.\<close>

definition dirs_grow :: "nat \<Rightarrow> nspace \<Rightarrow> nspace \<Rightarrow> bool" where
  "dirs_grow k vol vol' \<longleftrightarrow> (\<exists>ds. dlist_abs (vol_dlist vol') = dlist_abs (vol_dlist vol) @ ds) \<and> dlist_room k (vol_dlist vol')"

lemma dlist_room_mono: "dlist_room k dl \<Longrightarrow> j \<le> k \<Longrightarrow> dlist_room j dl"
  unfolding dlist_room_def using mult_le_mono1[of "j + 2" "k + 2" DLIST_ENTRY_QUANTUM] by linarith

lemma dirs_grow_refl: "dlist_room k (vol_dlist vol) \<Longrightarrow> dirs_grow k vol vol"
  by (simp add: dirs_grow_def)

lemma dirs_grow_trans: "dirs_grow j a b \<Longrightarrow> dirs_grow k b c \<Longrightarrow> dirs_grow k a c"
  by (auto simp: dirs_grow_def)

lemma dlist_add_room:
  assumes "malloc_ok mem" "dlist_room (Suc k) dl" "dlist_add mem dl v = (res, dl')"
  shows "dlist_room k dl' \<and> (\<exists>ds. dlist_abs dl' = dlist_abs dl @ ds)"
proof -
  have r: "dlist_ok dl" "dl_allocated dl + (k + 3) * DLIST_ENTRY_QUANTUM < 2 ^ 32" using assms(2) by (simp_all add: dlist_room_def algebra_simps)
  then have "dl_allocated dl < 2 ^ 32 - 2 * DLIST_ENTRY_QUANTUM" by (simp add: DLIST_ENTRY_QUANTUM_def)
  note A = dlist_add_spec[OF assms(1) r(1) this assms(3)]
  have "dl_allocated dl' \<le> dl_allocated dl + DLIST_ENTRY_QUANTUM"
    using assms(3) r(2) by (auto simp: dlist_add_def dlist_realloc_def DLIST_ENTRY_QUANTUM_def Let_def errno_defs split: if_splits option.splits)
  then have "dlist_room k dl'" using A r(2) by (auto simp: dlist_room_def DLIST_ENTRY_QUANTUM_def)
  then show ?thesis using A by auto
qed

lemma dirent_vnid_dirs:
  assumes "malloc_ok (env_vnid_mem env)" "dlist_room (Suc k) (vol_dlist vol)" "dirent_vnid env vol dir info = (r, vol')"
  shows "dirs_grow k vol vol'"
proof -
  have "dlist_room k (vol_dlist vol)" using dlist_room_mono[OF assms(2)] by simp
  then have same: "dirs_grow k vol (vol\<lparr>vol_vcache := vc\<rparr>)" for vc by (simp add: dirs_grow_def)
  have add: "dirs_grow k vol (vol\<lparr>vol_vcache := vc, vol_dlist := dl\<rparr>)" "dirs_grow k vol (vol\<lparr>vol_dlist := dl, vol_vcache := vc\<rparr>)"
    if "dlist_add (env_vnid_mem env) (vol_dlist vol) v = (res, dl)" for v res dl vc
    using dlist_add_room[OF assms(1,2) that] by (simp_all add: dirs_grow_def)
  show ?thesis
    using assms(3) same add by (auto simp: dirent_vnid_def Let_def split: prod.splits sum.splits if_splits)
qed

lemma next_dirent_dlist: "next_dirent env vol it len = (r, vol', it') \<Longrightarrow> vol_dlist vol' = vol_dlist vol"
  by (auto simp: next_dirent_def next_dirent_name_def Let_def split: if_splits option.splits prod.splits sum.splits)

lemma skip_labels_dlist: "skip_labels k env vol dir it len = (r, vol', it') \<Longrightarrow> vol_dlist vol' = vol_dlist vol"
proof (induction k arbitrary: vol it)
  case (Suc k)
  then show ?case by (auto split: if_splits prod.splits sum.splits dest!: next_dirent_dlist)
qed auto

lemma get_next_dirs:
  assumes "malloc_ok (env_vnid_mem env)" "dlist_room (Suc k) (vol_dlist vol)" "get_next_dirent env vol dir it len = (r, vol', it')"
  shows "dirs_grow k vol vol'"
proof -
  obtain s w it1 where s: "skip_labels (dir_fuel vol) env vol dir it len = (s, w, it1)" by (rule prod_cases3)
  have d: "vol_dlist w = vol_dlist vol" by (rule skip_labels_dlist[OF s])
  have same: "dirs_grow k vol w" using dlist_room_mono[OF assms(2), of k] d by (simp add: dirs_grow_def)
  have "dirs_grow k vol v" if "dirent_vnid env w dir info = (x, v)" for info x v
    using dirent_vnid_dirs[OF assms(1) _ that, of k] assms(2) d by (simp add: dirs_grow_def)
  then show ?thesis using assms(3) same by (auto simp: get_next_dirent_def s split: sum.splits prod.splits if_splits)
qed

lemma findfile_loop_dirs:
  assumes "dir_ok vol cluster cs" "iter_at vol cluster cs it i" "listing env vol (dir_entries vol cs) i = Some fs" "length fs < k"
    and "vnids_ok (Suc (length fs)) (vol_vcache vol)" "env_ok env" "dir_id_ok dir fs" "i \<le> node_entries vol cs"
    and "malloc_ok (env_vnid_mem env)" "dlist_room (Suc (length fs + m)) (vol_dlist vol)"
    and "findfile_loop k env vol dir it file cc cd fv dups = (r, dups', vol')"
  shows "dirs_grow m vol vol'"
  using assms(1-5,7,8,10,11)
proof (induction k arbitrary: vol it i fs fv dups)
  case (Suc k)
  note G = get_next_dirent_listing[OF Suc.prems(1-3,5) assms(6) Suc.prems(6,7)]
  show ?case
  proof (cases "dropWhile (is_label vol dir) fs")
    case Nil
    obtain it' where "get_next_dirent env vol dir it 512 = (Inl ENOENT, vol, it')" using G unfolding Nil by auto
    then have "vol' = vol" using Suc.prems(9) by simp
    then show ?thesis using dlist_room_mono[OF Suc.prems(8), of m] dirs_grow_refl by simp
  next
    case (Cons f fs')
    obtain vnid w it' where g: "get_next_dirent env vol dir it 512 = (Inr (vnid, snd f), w, it')" and gr: "ids_grow (length fs) vol w"
      and at: "iter_at vol cluster cs it' (di_eindex (fst f) + 1)" and e: "di_eindex (fst f) + 1 \<le> node_entries vol cs"
      and l: "listing env vol (dir_entries vol cs) (di_eindex (fst f) + 1) = Some fs'"
      using G unfolding Cons by auto
    have d: "dirs_grow (length fs + m) vol w" by (rule get_next_dirs[OF assms(9) Suc.prems(8) g])
    have sd: "same_disk vol w" and vk: "vnids_ok (length fs) (vol_vcache w)" using gr by (auto simp: ids_grow_def)
    note P = same_disk_parse[OF sd] and R = dropWhile_rest[OF Cons]
    have rm: "dlist_room (length fs + m) (vol_dlist w)" using d by (simp add: dirs_grow_def)
    have st: "dir_ok w cluster cs" "iter_at w cluster cs it' (di_eindex (fst f) + 1)"
      "listing env w (dir_entries w cs) (di_eindex (fst f) + 1) = Some fs'" "length fs' < k"
      "vnids_ok (Suc (length fs')) (vol_vcache w)" "dir_id_ok dir fs'" "di_eindex (fst f) + 1 \<le> node_entries w cs"
      "dlist_room (Suc (length fs' + m)) (vol_dlist w)"
      using P(1,3) P(6)[OF Suc.prems(1)] at l same_disk_listing[OF sd] R Suc.prems(4) vnids_ok_mono[OF vk] Suc.prems(6) e
        geometry_ext(9)[OF same_disk_fields(5)[OF sd]] dlist_room_mono[OF rm]
      by (auto simp: dir_id_ok_def list_all_iff)
    have "vol' = w \<or> (\<exists>fv dups. findfile_loop k env w dir it' file cc cd fv dups = (r, dups', vol'))"
      using Suc.prems(9) g by (auto simp: Let_def split: if_splits)
    then show ?thesis
    proof
      assume "vol' = w"
      then show ?thesis using d dlist_room_mono[OF rm, of m] by (auto simp: dirs_grow_def)
    next
      assume "\<exists>fv dups. findfile_loop k env w dir it' file cc cd fv dups = (r, dups', vol')"
      then have "dirs_grow m w vol'" using Suc.IH[OF st] by blast
      then show ?thesis using dirs_grow_trans[OF d] by blast
    qed
  qed
qed simp

subsection \<open>Reading\<close>

lemma read_loop_listing:
  assumes "dir_ok vol cluster cs" "iter_at vol cluster cs it i" "listing env vol (dir_entries vol cs) i = Some (fs @ f # gs)" "length fs < k"
    and "IS_DIR_CLUSTER_VNID loc" "CLUSTER_OF_DIR_CLUSTER_VNID loc = di_cluster (fst f)" "\<forall>g \<in> set fs. di_cluster (fst g) \<noteq> di_cluster (fst f)"
  shows "read_vnode_loop k env vol it loc = (Inr f, vol)"
  using assms(2-4,7)
proof (induction fs arbitrary: it i k)
  case Nil
  then obtain k' where k: "k = Suc k'" by (cases k) auto
  have p: "parse_dirent env vol (dir_entries vol cs) i 512 = Some (Inr f)" using listing_Some[OF Nil.prems(2)] by simp
  obtain it' where "next_dirent env vol it 512 = (Inr f, vol, it')"
    using next_dirent_parse[OF assms(1) Nil.prems(1), of 512 env] p by (cases f) auto
  then show ?case using assms(5,6) k by (cases f) simp
next
  case (Cons g fs)
  then obtain k' where k: "k = Suc k'" "length fs < k'" by (cases k) auto
  have p: "parse_dirent env vol (dir_entries vol cs) i 512 = Some (Inr g)"
    and l: "listing env vol (dir_entries vol cs) (di_eindex (fst g) + 1) = Some (fs @ f # gs)"
    using listing_Some[OF Cons.prems(2)] by simp_all
  obtain it' where n: "next_dirent env vol it 512 = (Inr g, vol, it')" and at: "iter_at vol cluster cs it' (di_eindex (fst g) + 1)"
    using next_dirent_parse[OF assms(1) Cons.prems(1), of 512 env] p by (cases g) auto
  then show ?case using Cons.IH[OF at l k(2)] Cons.prems(4) assms(5,6) k(1) by (cases g) simp
qed

lemma read_loop_index:
  assumes "dir_ok vol cluster cs" "dir_state env vol cs (fs @ f # gs)" "diri_at vol cluster cs it (di_sindex (fst f))" "0 < k"
    and "\<not> IS_DIR_CLUSTER_VNID loc" "INDEX_OF_DIR_INDEX_VNID loc = di_sindex (fst f)"
  shows "read_vnode_loop k env vol it loc = (Inr f, vol)"
proof -
  let ?es = "dir_entries vol cs" and ?s = "di_sindex (fst f)"
  obtain k' where k: "k = Suc k'" using assms(4) by (cases k) auto
  have L: "listing env vol ?es 0 = Some (fs @ f # gs)" and T: "dir_tidy ?es 0 (fs @ f # gs)" using assms(2) by (auto simp: dir_state_def)
  have "listing env vol ?es (next_index 0 fs) = Some (f # gs)" using listing_next[OF L] by simp
  then have p: "parse_dirent env vol ?es (next_index 0 fs) 512 = Some (Inr f)" using listing_Some by fastforce
  have b: "next_index 0 fs \<le> ?s" "?s \<le> di_eindex (fst f)" "di_eindex (fst f) < node_entries vol cs"
    using parse_dirent_bounds[of env vol ?es "next_index 0 fs" 512 "fst f" "snd f"]
      parse_dirent_sindex[of env vol ?es "next_index 0 fs" 512 "fst f" "snd f"] p by simp_all
  have "parse_dirent env vol ?es (next_index 0 fs) 512 = parse_dirent env vol ?es ?s 512"
    by (rule parse_dirent_erased) (use b T in \<open>auto simp: dir_tidy_append\<close>)
  then have "parse_dirent env vol ?es ?s 512 = Some (Inr (fst f, snd f))" using p by simp
  moreover have "iter_at vol cluster cs it ?s" using assms(3) b by (simp add: iter_at_def)
  ultimately obtain it1 where "next_dirent env vol it 512 = (Inr (fst f, snd f), vol, it1)"
    using next_dirent_parse[OF assms(1), of it ?s 512 env] by auto
  then show ?thesis using assms(5,6) k by (cases f) simp
qed

text \<open>The id \<open>v\<close> is recorded at the place of the file \<open>f\<close>, the directory is in the directory list, and no file before \<open>f\<close> has
  the same first cluster.\<close>

lemma read_vnode_run:
  assumes "dir_has_files env (vn_cluster dir) cs vol (fs @ f # gs)" "file_vnid vol dir f v" "snd f \<noteq> dot" "snd f \<noteq> dotdot"
    and "CLUSTER_OF_DIR_CLUSTER_VNID (vn_vnid dir) = vn_cluster dir" "vn_cluster dir < 2 ^ 28" "v \<noteq> vn_vnid (root_vnode vol)"
    and "dlist_find (vol_vcache vol) (vol_dlist vol) (vn_cluster dir) = vn_vnid dir" "vn_vnid dir \<noteq> - 1" "env_mem env" "\<not> respect_disk_image vol"
    and "IS_DATA_CLUSTER vol (int (di_cluster (fst f))) \<Longrightarrow> \<forall>g \<in> set fs. di_cluster (fst g) \<noteq> di_cluster (fst f)"
  defines "node \<equiv> entry_vnode env vol v (vn_vnid dir) 0 (fst f) (snd f)"
  shows "dosfs_read_vnode env vol v = (Inr (node, make_mode vol node), vol)"
proof -
  have D: "dir_ok vol (vn_cluster dir) cs" "0 < node_entries vol cs" "dir_state env vol cs (fs @ f # gs)" using assms(1) by (simp_all add: dir_has_files_def)
  have L: "listing env vol (dir_entries vol cs) 0 = Some (fs @ f # gs)" using D(3) by (simp add: dir_state_def)
  let ?loc = "file_loc vol dir (fst f)"
  have ids: "dir_id_ok dir (fs @ f # gs)" using listing_id_ok[OF L] assms(5,6) dir_okD(3)[OF D(1)] by simp
  then have c: "di_cluster (fst f) < 2 ^ 32" "di_sindex (fst f) < 2 ^ 32" by (simp_all add: dir_id_ok_def)
  note K = file_loc_kind[of dir "fst f" vol, unfolded assms(5), OF assms(6) c]
  have l: "(case vcache_vnid_to_loc (vol_vcache vol) v of (result, loc) \<Rightarrow> if result \<noteq> B_OK then v else the loc) = ?loc"
    using assms(2-4) by (auto simp: file_vnid_def vloc_def vmap_def vcache_vnid_to_loc_def errno_defs split: option.splits)
  have fuel: "length fs < dir_fuel vol" using listing_length[OF L] node_entries_fuel[OF D(1)] by simp
  let ?i = "if IS_DIR_CLUSTER_VNID ?loc then 0 else INDEX_OF_DIR_INDEX_VNID ?loc"
  obtain p it where it: "diri_init vol (vn_cluster dir) ?i new_diri = (Some p, it)" and rl: "read_vnode_loop (dir_fuel vol) env vol it ?loc = (Inr f, vol)"
  proof (cases "IS_DATA_CLUSTER vol (int (di_cluster (fst f)))")
    case True
    then have k: "IS_DIR_CLUSTER_VNID ?loc" "CLUSTER_OF_DIR_CLUSTER_VNID ?loc = di_cluster (fst f)" using K(4,5) by blast+
    obtain it where it: "diri_init vol (vn_cluster dir) 0 new_diri = (Some (node_ptr vol cs 0), it)" "iter_at vol (vn_cluster dir) cs it 0"
      using diri_init_node(1)[OF D(1,2), of new_diri] D(2) by (auto simp: iter_at_def)
    show thesis by (rule that[of "node_ptr vol cs 0" it]) (use it k read_loop_listing[OF D(1) it(2) L fuel k assms(12)[OF True]] in simp_all)
  next
    case False
    then have k: "\<not> IS_DIR_CLUSTER_VNID ?loc" "INDEX_OF_DIR_INDEX_VNID ?loc = di_sindex (fst f)" using K(4,6) by blast+
    have s: "di_sindex (fst f) < node_entries vol cs"
    proof -
      have "listing env vol (dir_entries vol cs) (next_index 0 fs) = Some (f # gs)" using listing_next[OF L] by simp
      then have "parse_dirent env vol (dir_entries vol cs) (next_index 0 fs) 512 = Some (Inr f)" using listing_Some by fastforce
      then show ?thesis
        using parse_dirent_bounds[of env vol "dir_entries vol cs" "next_index 0 fs" 512 "fst f" "snd f"]
          parse_dirent_sindex[of env vol "dir_entries vol cs" "next_index 0 fs" 512 "fst f" "snd f"] by simp
    qed
    obtain it where it: "diri_init vol (vn_cluster dir) (di_sindex (fst f)) new_diri = (Some (node_ptr vol cs (di_sindex (fst f))), it)"
      "diri_at vol (vn_cluster dir) cs it (di_sindex (fst f))" using diri_init_node(1)[OF D(1) s] by blast
    have f0: "0 < dir_fuel vol" using fuel by simp
    show thesis by (rule that[of "node_ptr vol cs (di_sindex (fst f))" it]) (use it k read_loop_index[OF D(1,3) it(2) f0 k] in simp_all)
  qed
  have dm: "disk_image_mark vol v (vn_vnid dir) (snd f) = (0, vol)" using assms(11) by (simp add: disk_image_mark_def)
  have "\<not> (IS_ARTIFICIAL_VNID ?loc \<or> IS_INVALID_VNID ?loc)" using K(1,2) by blast
  then show ?thesis
    unfolding dosfs_read_vnode_def l Let_def K(3) assms(8) it node_def using assms(7,9,10) rl dm by (cases f) simp
qed

lemma entry_vnode_fields [simp]:
  "vn_vnid (entry_vnode env vol v d m info name) = v" "vn_dir_vnid (entry_vnode env vol v d m info name) = d"
  "vn_disk_image (entry_vnode env vol v d m info name) = m" "vn_iteration (entry_vnode env vol v d m info name) = 0"
  "vn_sindex (entry_vnode env vol v d m info name) = di_sindex info" "vn_eindex (entry_vnode env vol v d m info name) = di_eindex info"
  "vn_cluster (entry_vnode env vol v d m info name) = di_cluster info" "vn_mode (entry_vnode env vol v d m info name) = di_mode info"
  "vn_filename (entry_vnode env vol v d m info name) = Some name"
  "di_mode info AND FAT_SUBDIR = 0 \<Longrightarrow> vn_st_size (entry_vnode env vol v d m info name) = int (di_size info)"
  "di_cluster info = 0 \<Longrightarrow> vn_end_cluster (entry_vnode env vol v d m info name) = 0"
  by (simp_all add: entry_vnode_def set_mime_type_def Let_def)

text \<open>A directory in the directory list, with room in the list for the directories that a search adds.\<close>

definition dir_listed :: "env \<Rightarrow> nat \<Rightarrow> nspace \<Rightarrow> vnode \<Rightarrow> bool" where
  "dir_listed env k vol dir \<longleftrightarrow> dlist_find (vol_vcache vol) (vol_dlist vol) (vn_cluster dir) = vn_vnid dir \<and> vn_vnid dir \<noteq> - 1
     \<and> CLUSTER_OF_DIR_CLUSTER_VNID (vn_vnid dir) = vn_cluster dir \<and> vn_cluster dir < 2 ^ 28
     \<and> malloc_ok (env_vnid_mem env) \<and> dlist_room k (vol_dlist vol) \<and> set (dlist_abs (vol_dlist vol)) \<inter> new_vnids (vol_vcache vol) = {}"

lemma dlist_find_grow:
  assumes "dir_listed env j vol dir" "ids_grow k vol vol'" "dirs_grow m vol vol'"
  shows "dlist_find (vol_vcache vol') (vol_dlist vol') (vn_cluster dir) = vn_vnid dir"
proof -
  obtain ds where ds: "dlist_abs (vol_dlist vol') = dlist_abs (vol_dlist vol) @ ds" using assms(3) by (auto simp: dirs_grow_def)
  let ?P = "\<lambda>vc v. dir_cluster vc v = vn_cluster dir"
  have c: "dir_cluster (vol_vcache vol') v = dir_cluster (vol_vcache vol) v" if "v \<in> set (dlist_abs (vol_dlist vol))" for v
    using assms(1,2) that by (auto simp: dir_listed_def ids_grow_def dir_cluster_def vloc_def)
  have f: "dlist_find vc dl (vn_cluster dir) = (case List.find (?P vc) (dlist_abs dl) of Some v \<Rightarrow> v | None \<Rightarrow> - 1)" for vc dl
    by (simp add: dlist_find_def dlist_search_find dlist_abs_def)
  have "List.find (?P (vol_vcache vol)) (dlist_abs (vol_dlist vol)) = Some (vn_vnid dir)"
    using assms(1) unfolding dir_listed_def f by (auto split: option.splits)
  then have "List.find (?P (vol_vcache vol')) (dlist_abs (vol_dlist vol)) = Some (vn_vnid dir)" using c by (simp cong: find_cong)
  moreover have "List.find P (xs @ ys) = Some x" if "List.find P xs = Some x" for P xs ys and x :: ino_t
    using that by (induction xs) (auto split: if_splits)
  ultimately show ?thesis unfolding f ds by simp
qed

text \<open>The vnode that \<^verbatim>\<open>get_vnode\<close> gives for the id \<open>v\<close> of the file \<open>f\<close>, after a search that has left the volume as \<open>vol\<close>: the one in core, or
  the one that is read from the entry. No file before \<open>f\<close> has the same first cluster.\<close>

definition core_or_disk :: "env \<Rightarrow> mount \<Rightarrow> nspace \<Rightarrow> vnode \<Rightarrow> nat list \<Rightarrow> (dirent_info \<times> name) list \<Rightarrow> dirent_info \<times> name \<Rightarrow> ino_t \<Rightarrow> core_node \<Rightarrow> bool" where
  "core_or_disk env mt vol dir cs fs f v c \<longleftrightarrow> mt_nodes mt v = Some c
     \<or> mt_nodes mt v = None \<and> c = \<lparr>cn_node = entry_vnode env vol v (vn_vnid dir) 0 (fst f) (snd f), cn_refs = 0, cn_removed = False\<rparr>
       \<and> dir_listed env (node_entries (mt_vol mt) cs + 1) (mt_vol mt) dir \<and> \<not> respect_disk_image (mt_vol mt)
       \<and> (IS_DATA_CLUSTER (mt_vol mt) (int (di_cluster (fst f))) \<longrightarrow> (\<forall>g \<in> set fs. di_cluster (fst g) \<noteq> di_cluster (fst f)))"

lemma same_disk_files:
  assumes "same_disk vol vol'" "dir_has_files env c cs vol fs"
  shows "dir_has_files env c cs vol' fs"
  using same_disk_parse(1,6)[OF assms(1)] same_disk_listing[OF assms(1)] geometry_ext(9)[OF same_disk_fields(5)[OF assms(1)]] assms(2)
  by (auto simp: dir_has_files_def dir_state_def)

lemma get_vnode_gets:
  assumes "core_or_disk env mt vol1 dir cs fs f v c" "ids_grow k (mt_vol mt) vol1" "file_vnid vol1 dir f v" "snd f \<noteq> dot" "snd f \<noteq> dotdot"
    and "dir_has_files env (vn_cluster dir) cs (mt_vol mt) (fs @ f # gs)" "v \<noteq> mt_root mt" "env_mem env"
    and "dir_listed env (node_entries (mt_vol mt) cs + 1) (mt_vol mt) dir \<Longrightarrow> dirs_grow m (mt_vol mt) vol1"
  shows "get_vnode env (mt\<lparr>mt_vol := vol1\<rparr>) v = (Inr (cn_node c), mt\<lparr>mt_vol := vol1, mt_nodes := (mt_nodes mt)(v \<mapsto> c\<lparr>cn_refs := Suc (cn_refs c)\<rparr>)\<rparr>)"
proof -
  have sd: "same_disk (mt_vol mt) vol1" using assms(2) by (simp add: ids_grow_def)
  then obtain vc dl where vol1: "vol1 = (mt_vol mt)\<lparr>vol_vcache := vc, vol_dlist := dl\<rparr>" unfolding same_disk_def by metis
  have r: "v \<noteq> mt_root (mt\<lparr>mt_vol := vol1\<rparr>)" using assms(7) same_disk_fields(1)[OF sd] by (simp add: mt_root_def)
  then have r1: "v \<noteq> vn_vnid (root_vnode vol1)" by (simp add: mt_root_def)
  show ?thesis
  proof (cases "mt_nodes mt v")
    case (Some c')
    then show ?thesis using assms(1) r by (simp add: get_vnode_def core_or_disk_def)
  next
    case None
    then have C: "c = \<lparr>cn_node = entry_vnode env vol1 v (vn_vnid dir) 0 (fst f) (snd f), cn_refs = 0, cn_removed = False\<rparr>"
      "dir_listed env (node_entries (mt_vol mt) cs + 1) (mt_vol mt) dir" "\<not> respect_disk_image (mt_vol mt)"
      "IS_DATA_CLUSTER (mt_vol mt) (int (di_cluster (fst f))) \<Longrightarrow> \<forall>g \<in> set fs. di_cluster (fst g) \<noteq> di_cluster (fst f)"
      using assms(1) by (simp_all add: core_or_disk_def)
    have L: "vn_vnid dir \<noteq> - 1" "CLUSTER_OF_DIR_CLUSTER_VNID (vn_vnid dir) = vn_cluster dir" "vn_cluster dir < 2 ^ 28"
      using C(2) by (simp_all add: dir_listed_def)
    have d: "IS_DATA_CLUSTER vol1 (int (di_cluster (fst f))) \<Longrightarrow> \<forall>g \<in> set fs. di_cluster (fst g) \<noteq> di_cluster (fst f)" "\<not> respect_disk_image vol1"
      using C(3,4) same_disk_fields(7)[OF sd] by (simp_all add: vol1)
    show ?thesis
      using r None C(1) read_vnode_run[OF same_disk_files[OF sd assms(6)] assms(3-5) L(2,3) r1 dlist_find_grow[OF C(2) assms(2) assms(9)[OF C(2)]] L(1) assms(8) d(2,1)]
      by (simp add: get_vnode_def)
  qed
qed

lemma findfile_dirs:
  assumes "dir_has_files env (vn_cluster dir) cs vol fs" "vnids_ok (node_entries vol cs + 1) (vol_vcache vol)" "env_ok env"
    and "CLUSTER_OF_DIR_CLUSTER_VNID (vn_vnid dir) < 2 ^ 28" "dir_listed env (node_entries vol cs + 1 + m) vol dir"
    and "findfile env vol dir file cc cd = (r, dups, vol')" "file \<noteq> dot" "file \<noteq> dotdot"
  shows "dirs_grow m vol vol'"
proof -
  have F: "dir_ok vol (vn_cluster dir) cs" "0 < node_entries vol cs" "listing env vol (dir_entries vol cs) 0 = Some fs"
    using assms(1) by (simp_all add: dir_has_files_def dir_state_def)
  obtain it where it: "diri_init vol (vn_cluster dir) 0 new_diri = (Some (node_ptr vol cs 0), it)" "iter_at vol (vn_cluster dir) cs it 0"
    using diri_init_node(1)[OF F(1,2), of new_diri] F(2) by (auto simp: iter_at_def)
  have l: "length fs \<le> node_entries vol cs" using listing_length[OF F(3)] by simp
  have k: "length fs < dir_fuel vol" using l node_entries_fuel[OF F(1)] by simp
  have vk: "vnids_ok (Suc (length fs)) (vol_vcache vol)" using vnids_ok_mono[OF assms(2)] l by simp
  have id: "dir_id_ok dir fs" using listing_id_ok[OF F(3) _ assms(4)] dir_okD(3)[OF F(1)] by simp
  have rm: "malloc_ok (env_vnid_mem env)" "dlist_room (Suc (length fs + m)) (vol_dlist vol)"
    using assms(5) dlist_room_mono[of "node_entries vol cs + 1 + m" "vol_dlist vol" "Suc (length fs + m)"] l by (auto simp: dir_listed_def)
  obtain x d where "findfile_loop (dir_fuel vol) env vol dir it file cc cd None False = (x, d, vol')"
    using assms(6-8) it(1) by (auto simp: findfile_def split: prod.splits)
  from findfile_loop_dirs[OF F(1) it(2) F(3) k vk assms(3) id _ rm this] show ?thesis by simp
qed

lemma findfile_first:
  assumes "dir_has_files env (vn_cluster dir) cs vol (fs @ f # gs)"
    and "snd f = name" "\<not> is_label vol dir f" "\<forall>g \<in> set fs. is_label vol dir g \<or> snd g \<noteq> name" "name \<noteq> dot" "name \<noteq> dotdot"
    and "vnids_ok (node_entries vol cs + 1) (vol_vcache vol)" "env_ok env" "CLUSTER_OF_DIR_CLUSTER_VNID (vn_vnid dir) < 2 ^ 28"
  obtains v vol1 where "findfile env vol dir name True False = (Inr v, False, vol1)" "ids_grow 0 vol vol1" "file_vnid vol1 dir f v"
    "dir_listed env (node_entries vol cs + 1) vol dir \<longrightarrow> dirs_grow 0 vol vol1"
proof -
  have F: "dir_ok vol (vn_cluster dir) cs" "0 < node_entries vol cs" "listing env vol (dir_entries vol cs) 0 = Some (fs @ f # gs)"
    using assms(1) by (simp_all add: dir_has_files_def dir_state_def)
  have files: "dir_files env vol dir cs = Some (filter (\<lambda>f. \<not> is_label vol dir f) (fs @ f # gs))" by (simp add: dir_files_def F(3))
  have "List.find (\<lambda>f. snd f = name) (filter (\<lambda>f. \<not> is_label vol dir f) (fs @ f # gs)) = Some f"
    using assms(2-4) by (induction fs) auto
  then obtain v vol1 where v: "findfile env vol dir name True False = (Inr v, False, vol1)" "ids_grow 0 vol vol1" "file_vnid vol1 dir f v"
    using findfile_files_ids[where m = 0, unfolded add_0_right, OF F(1,2) files assms(7-9), of name True False, unfolded find_in_found] assms(5,6)
    by (auto simp: found_vnid_def split: option.splits)
  show thesis by (rule that[OF v]) (use findfile_dirs[OF assms(1,7-9) _ v(1) assms(5,6), of 0] in simp)
qed

subsection \<open>Properties\<close>

text \<open>C13: \<^verbatim>\<open>dosfs_walk\<close> looks a name up. In a directory in core it finds the first file \<open>f\<close> of that name and takes a reference to the vnode of its id. A vnode that is in core stays
  what it is; a vnode that is not is read from the entry of \<open>f\<close>, if the directory is in the directory list and \<open>f\<close> is the first file with its first
  cluster: it gets the directory, the place of the entry, the mode, the size, the time, the first and the last cluster and the name.\<close>

theorem walk_gets_vnode:
  assumes "dir_has_files env (vn_cluster (node_of mt d)) cs (mt_vol mt) (fs @ f # gs)"
    and "snd f = name" "\<not> is_label (mt_vol mt) (node_of mt d) f" "\<forall>g \<in> set fs. is_label (mt_vol mt) (node_of mt d) g \<or> snd g \<noteq> name"
    and "name \<noteq> dot" "name \<noteq> dotdot" "vnids_ok (node_entries (mt_vol mt) cs + 1) (vol_vcache (mt_vol mt))" "env_ok env"
    and "CLUSTER_OF_DIR_CLUSTER_VNID (vn_vnid (node_of mt d)) < 2 ^ 28"
  shows "\<exists>v vol1. ids_grow 0 (mt_vol mt) vol1 \<and> file_vnid vol1 (node_of mt d) f v
    \<and> (\<forall>c. v \<noteq> mt_root mt \<and> core_or_disk env mt vol1 (node_of mt d) cs fs f v c
        \<longrightarrow> dosfs_walk env mt d name = (Inr v, mt\<lparr>mt_vol := vol1, mt_nodes := (mt_nodes mt)(v \<mapsto> c\<lparr>cn_refs := cn_refs c + 1\<rparr>)\<rparr>))"
proof -
  obtain v vol1 where v: "findfile env (mt_vol mt) (node_of mt d) name True False = (Inr v, False, vol1)" "ids_grow 0 (mt_vol mt) vol1"
    "file_vnid vol1 (node_of mt d) f v" "dir_listed env (node_entries (mt_vol mt) cs + 1) (mt_vol mt) (node_of mt d) \<longrightarrow> dirs_grow 0 (mt_vol mt) vol1"
    by (rule findfile_first[OF assms])
  have m: "env_mem env" using assms(8) by (simp add: env_ok_def)
  have n: "snd f \<noteq> dot" "snd f \<noteq> dotdot" using assms(2,5,6) by simp_all
  have "dosfs_walk env mt d name = (Inr v, mt\<lparr>mt_vol := vol1, mt_nodes := (mt_nodes mt)(v \<mapsto> c\<lparr>cn_refs := cn_refs c + 1\<rparr>)\<rparr>)"
    if "v \<noteq> mt_root mt" "core_or_disk env mt vol1 (node_of mt d) cs fs f v c" for c
    using get_vnode_gets[OF that(2) v(2,3) n assms(1) that(1) m v(4)[rule_format]] v(1) by (simp add: dosfs_walk_def findfile_node_def)
  then show ?thesis using v(2,3) by blast
qed

subsection \<open>Witness\<close>

text \<open>The small root directory in the directory list; no vnode but the root is in core.\<close>

definition tiny_listed :: nspace where
  "tiny_listed = tiny_dir\<lparr>vol_dlist := \<lparr>dl_entries = 1, dl_allocated = 1, vnid_list = [1]\<rparr>\<rparr>"

definition tiny_cold :: mount where
  "tiny_cold = \<lparr>mt_vol = tiny_listed, mt_nodes = (\<lambda>v. None)\<rparr>"

lemma tiny_not_new: "1 \<notin> new_vnids vc"
proof -
  have "\<not> IS_ARTIFICIAL_VNID 1" by code_simp
  then show ?thesis using new_vnids_artificial by blast
qed

lemma tiny_listed_root: "vn_vnid (root_vnode tiny_listed) = 1" "vn_cluster (root_vnode tiny_listed) = 1" "root_vnode tiny_listed = root_vnode tiny_dir"
  "vol_vcache tiny_listed = vol_vcache tiny_dir" "CLUSTER_OF_DIR_CLUSTER_VNID 1 = 1" "same_disk tiny_dir tiny_listed"
  by (simp_all add: tiny_listed_def tiny_dir_def CLUSTER_OF_DIR_CLUSTER_VNID_def same_disk_def)

lemma tiny_dir_listed: "dir_listed tiny_env k tiny_listed (root_vnode tiny_listed)" if "k < 2 ^ 20"
proof -
  have "vmap (vol_vcache tiny_dir) 1 = None" by (simp add: vmap_def find_vnid_in_vcache_def vhash_def tiny_dir_def)
  then have "dir_cluster (vol_vcache tiny_listed) 1 = 1" by (simp add: dir_cluster_def vloc_def tiny_listed_root)
  moreover have "dlist_abs (vol_dlist tiny_listed) = [1]" by (simp add: dlist_abs_def tiny_listed_def)
  moreover have "dlist_room k (vol_dlist tiny_listed)" using that by (simp add: dlist_room_def dlist_ok_def tiny_listed_def DLIST_ENTRY_QUANTUM_def)
  moreover have "malloc_ok (env_vnid_mem tiny_env)" by (auto simp: malloc_ok_def tiny_env_def)
  ultimately show ?thesis
    using tiny_not_new by (simp add: dir_listed_def tiny_listed_root(1,2,5) dlist_find_def dlist_search_find flip: dlist_abs_def)
qed

lemma tiny_file_id:
  assumes "ids_grow k tiny_listed vol'" "file_vnid vol' (root_vnode tiny_listed) (entry_info tiny_dir 1 1 (tiny_entry 0x61), tiny_name 0x61) v"
  shows "v \<noteq> 1"
proof
  assume "v = 1"
  have n: "tiny_name 0x61 \<noteq> dot" "tiny_name 0x61 \<noteq> dotdot" by (auto simp: tiny_name_def dot_def dotdot_def dest: arg_cong[where f = length])
  have "vmap (vol_vcache vol') 1 = vmap (vol_vcache tiny_dir) 1" using assms(1) tiny_not_new by (simp add: ids_grow_def tiny_listed_root)
  also have "\<dots> = None" by (simp add: vmap_def find_vnid_in_vcache_def vhash_def tiny_dir_def)
  finally have "file_loc vol' (root_vnode tiny_listed) (entry_info tiny_dir 1 1 (tiny_entry 0x61)) = 1"
    using assms(2) n \<open>v = 1\<close> by (simp add: file_vnid_def vloc_def)
  moreover have "\<not> IS_DATA_CLUSTER vol' (int (di_cluster (entry_info tiny_dir 1 1 (tiny_entry 0x61))))"
    by (simp add: IS_DATA_CLUSTER_def entry_info_def read16_def tiny_entry_def tiny_name_def nth_append tiny_dir_def tiny_disk0_simps)
  ultimately have "GENERATE_DIR_INDEX_VNID 1 1 = 1" by (simp add: file_loc_def tiny_listed_root(1) entry_info_def)
  moreover have "GENERATE_DIR_INDEX_VNID 1 1 \<noteq> 1" by code_simp
  ultimately show False by simp
qed

theorem walk_gets_vnode_witness:
  "\<exists>v vol1 c. dosfs_walk tiny_env tiny_cold 1 (tiny_name 0x61) = (Inr v, tiny_cold\<lparr>mt_vol := vol1, mt_nodes := [v \<mapsto> c]\<rparr>)
     \<and> vn_filename (cn_node c) = Some (tiny_name 0x61) \<and> vn_sindex (cn_node c) = 1 \<and> cn_refs c = 1"
proof -
  let ?f = "(entry_info tiny_dir 0 0 (tiny_entry 0x41), tiny_name 0x41)" and ?g = "(entry_info tiny_dir 1 1 (tiny_entry 0x61), tiny_name 0x61)"
  note R = tiny_listed_root and P = same_disk_parse[OF tiny_listed_root(6)]
  have o: "node_of tiny_cold 1 = root_vnode tiny_listed" "mt_vol tiny_cold = tiny_listed" "mt_root tiny_cold = 1" "mt_nodes tiny_cold = Map.empty"
    by (simp_all add: tiny_cold_def node_of_def node_at_def mt_root_def R(1))
  have h: "dir_has_files tiny_env (vn_cluster (node_of tiny_cold 1)) [] (mt_vol tiny_cold) ([?f] @ ?g # [])"
    using same_disk_files[OF R(6) tiny_dir_has_files] by (simp add: o R(2))
  have n: "tiny_name 0x61 \<noteq> dot" "tiny_name 0x61 \<noteq> dotdot" "tiny_name 0x41 \<noteq> tiny_name 0x61"
    by (auto simp: tiny_name_def dot_def dotdot_def dest: arg_cong[where f = length])
  have e: "node_entries tiny_listed [] = 4" using P(1) tiny_dir_ok(2) length_dir_entries by metis
  have k: "vnids_ok (node_entries (mt_vol tiny_cold) [] + 1) (vol_vcache (mt_vol tiny_cold))" "CLUSTER_OF_DIR_CLUSTER_VNID (vn_vnid (node_of tiny_cold 1)) < 2 ^ 28"
    using tiny_dir_ok(3) by (simp_all add: o e R(1,4,5))
  have l: "\<not> is_label (mt_vol tiny_cold) (node_of tiny_cold 1) ?g" "\<forall>g \<in> set [?f]. is_label (mt_vol tiny_cold) (node_of tiny_cold 1) g \<or> snd g \<noteq> tiny_name 0x61"
    using n by (simp_all add: is_label_def entry_info_def tiny_entry_bytes)
  obtain v vol1 where v: "ids_grow 0 tiny_listed vol1" "file_vnid vol1 (root_vnode tiny_listed) ?g v"
    and W: "\<And>c. v \<noteq> mt_root tiny_cold \<and> core_or_disk tiny_env tiny_cold vol1 (node_of tiny_cold 1) [] [?f] ?g v c
      \<Longrightarrow> dosfs_walk tiny_env tiny_cold 1 (tiny_name 0x61) = (Inr v, tiny_cold\<lparr>mt_vol := vol1, mt_nodes := (mt_nodes tiny_cold)(v \<mapsto> c\<lparr>cn_refs := cn_refs c + 1\<rparr>)\<rparr>)"
    using walk_gets_vnode[OF h _ l n(1,2) k(1) tiny_dir_ok(4) k(2)] unfolding o(1,2) by auto
  let ?c = "\<lparr>cn_node = entry_vnode tiny_env vol1 v 1 0 (fst ?g) (snd ?g), cn_refs = 0, cn_removed = False\<rparr>"
  have "\<not> IS_DATA_CLUSTER tiny_listed (int (di_cluster (fst ?g)))" "\<not> respect_disk_image tiny_listed"
    by (simp_all add: tiny_listed_def tiny_dir_def tiny_disk0_def tiny_volume_def IS_DATA_CLUSTER_def entry_info_def read16_def tiny_entry_def tiny_name_def nth_append)
  then have "core_or_disk tiny_env tiny_cold vol1 (node_of tiny_cold 1) [] [?f] ?g v ?c"
    using tiny_dir_listed[of 5] by (simp add: core_or_disk_def o e R(1))
  from W[OF conjI[OF _ this]] tiny_file_id[OF v]
  have "dosfs_walk tiny_env tiny_cold 1 (tiny_name 0x61) = (Inr v, tiny_cold\<lparr>mt_vol := vol1, mt_nodes := [v \<mapsto> ?c\<lparr>cn_refs := 1\<rparr>]\<rparr>)" by (simp add: o)
  then show ?thesis by (intro exI[of _ v] exI[of _ vol1] exI[of _ "?c\<lparr>cn_refs := 1\<rparr>"]) (simp add: entry_info_def)
qed

end
