(* ===== verification/Unlink_Laws.thy ===== *)
theory Unlink_Laws
  imports Dir_Compact Name_Laws Vnode_Laws
begin

text \<open>
  \<^verbatim>\<open>dosfs_unlink\<close> on the table of vnodes: searching the directory, erasing the entry, compacting the directory and
  giving back the clusters of the file when the last reference is gone.
\<close>

section \<open>Theorems\<close>

subsection \<open>Directories and files in core\<close>

definition mt_dir :: "env \<Rightarrow> mount \<Rightarrow> ino_t \<Rightarrow> nat list \<Rightarrow> (dirent_info \<times> name) list \<Rightarrow> bool" where
  "mt_dir env mt d cs fs \<longleftrightarrow> node_at mt d \<noteq> None \<and> dir_core env (mt_vol mt) (node_of mt d) cs fs"

text \<open>The vnode in core agrees with the entry \<open>f\<close> of the directory: it names the entries, and has the clusters \<open>ks\<close>.\<close>

definition core_file :: "nspace \<Rightarrow> vnode \<Rightarrow> dirent_info \<times> name \<Rightarrow> ino_t \<Rightarrow> vnode \<Rightarrow> nat list \<Rightarrow> bool" where
  "core_file vol dir f v file ks \<longleftrightarrow> vn_vnid file = v \<and> VNODE_PARENT_DIR_CLUSTER file = vn_cluster dir
     \<and> vn_sindex file = di_sindex (fst f) \<and> vn_eindex file = di_eindex (fst f) \<and> node_clusters vol file ks"

lemma node_of_vol: "root_vnode vol' = root_vnode (mt_vol mt) \<Longrightarrow> node_at (mt\<lparr>mt_vol := vol'\<rparr>) = node_at mt"
  by (simp add: fun_eq_iff node_at_def mt_root_def)

lemma set_node_at:
  assumes "node_at mt d \<noteq> None" "vn_vnid x = d"
  shows "node_at (set_node mt d x) d = Some x" "\<exists>r. mt_vol (set_node mt d x) = (mt_vol mt)\<lparr>root_vnode := r\<rparr>"
    "mt_root (set_node mt d x) = mt_root mt" "v \<noteq> d \<Longrightarrow> mt_nodes (set_node mt d x) v = mt_nodes mt v"
proof -
  show "node_at (set_node mt d x) d = Some x"
    using assms by (auto simp: set_node_def node_at_def mt_root_def split: if_splits option.splits)
  have "mt_vol (set_node mt d x) = (mt_vol mt)\<lparr>root_vnode := if d = mt_root mt then x else root_vnode (mt_vol mt)\<rparr>"
    by (simp add: set_node_def split: option.split)
  then show "\<exists>r. mt_vol (set_node mt d x) = (mt_vol mt)\<lparr>root_vnode := r\<rparr>" by blast
  show "mt_root (set_node mt d x) = mt_root mt" using assms by (auto simp: set_node_def mt_root_def split: option.splits)
  show "v \<noteq> d \<Longrightarrow> mt_nodes (set_node mt d x) v = mt_nodes mt v" by (auto simp: set_node_def split: option.splits)
qed

subsection \<open>Giving back the file\<close>

lemma removed_clusters:
  assumes "vol_ok vol" "node_clusters vol file ks" "vol_flags vol AND B_FS_IS_READONLY = 0" "free_clusters vol < 2 ^ 32"
  shows "\<exists>vol1 vol'. dosfs_remove_vnode env vol file True = (B_OK, vol') \<and> resized vol vol1 ks [] \<and> fat_same vol vol1 \<and> same_blocks vol1 vol'
    \<and> root_vnode vol' = root_vnode vol"
proof (cases ks)
  case Nil
  then have "vn_cluster file = 0" using assms(2) by (simp add: node_clusters_def)
  then have "\<exists>vol'. dosfs_remove_vnode env vol file True = (B_OK, vol') \<and> same_blocks vol vol' \<and> root_vnode vol' = root_vnode vol"
    using assms(3) by (simp add: dosfs_remove_vnode_def Let_def same_blocks_def geometry_def)
  moreover have "fat_same vol vol" by (simp add: fat_same_def)
  ultimately show ?thesis using resized_refl[OF assms(1,4), of "[]"] Nil by blast
next
  case (Cons k ks')
  have c: "fat_chain vol (k # ks')" "vn_cluster file = k" using assms(2) Cons by (simp_all add: node_clusters_def)
  have k: "k \<noteq> 0" using chain_bound[OF assms(1) c(1), of k] by auto
  obtain vol1 where v: "clear_fat_chain vol k = (B_OK, vol1)" "resized vol vol1 (k # ks') []" "fat_same vol vol1"
    using clear_resized[OF assms(1) c(1)] by blast
  have "\<exists>vol'. dosfs_remove_vnode env vol file True = (B_OK, vol') \<and> same_blocks vol1 vol' \<and> root_vnode vol' = root_vnode vol1"
    using assms(3) c(2) k v(1) by (simp add: dosfs_remove_vnode_def Let_def same_blocks_def geometry_def)
  moreover have "root_vnode vol1 = root_vnode vol" using v(3) by (cases vol; cases vol1) (simp add: fat_same_def)
  ultimately show ?thesis using v(2,3) Cons by metis
qed

lemma put_removed:
  assumes "mt_nodes mt v = Some c" "v \<noteq> mt_root mt" "cn_refs c = Suc r" "cn_removed c" "dir_core env (mt_vol mt) (node_of mt d) cs fs" "node_at mt d \<noteq> None" "v \<noteq> d"
    and "node_clusters (mt_vol mt) (cn_node c) ks" "set ks \<inter> set cs = {}" "vol_flags (mt_vol mt) AND B_FS_IS_READONLY = 0" "free_clusters (mt_vol mt) < 2 ^ 32"
  shows "mt_dir env (put_vnode env mt v) d cs fs"
    "if r = 0 then mt_nodes (put_vnode env mt v) v = None \<and> (\<forall>k \<in> set ks. get_fat_entry (mt_vol (put_vnode env mt v)) k = 0)
     else mt_nodes (put_vnode env mt v) v = Some (c\<lparr>cn_refs := r\<rparr>) \<and> node_clusters (mt_vol (put_vnode env mt v)) (cn_node c) ks"
proof -
  have "mt_dir env (put_vnode env mt v) d cs fs \<and> (if r = 0 then mt_nodes (put_vnode env mt v) v = None \<and> (\<forall>k \<in> set ks. get_fat_entry (mt_vol (put_vnode env mt v)) k = 0)
     else mt_nodes (put_vnode env mt v) v = Some (c\<lparr>cn_refs := r\<rparr>) \<and> node_clusters (mt_vol (put_vnode env mt v)) (cn_node c) ks)"
  proof (cases "r = 0")
    case True
    have ok: "vol_ok (mt_vol mt)" using dir_core_files[OF assms(5)] by (simp add: dir_has_files_def dir_ok_def)
    obtain vol1 vol' where r: "dosfs_remove_vnode env (mt_vol mt) (cn_node c) True = (B_OK, vol')" "resized (mt_vol mt) vol1 ks []"
      "fat_same (mt_vol mt) vol1" "same_blocks vol1 vol'" "root_vnode vol' = root_vnode (mt_vol mt)"
      using removed_clusters[OF ok assms(8,10,11)] by blast
    have p: "put_vnode env mt v = \<lparr>mt_vol = vol', mt_nodes = (mt_nodes mt)(v := None)\<rparr>" using assms(1-4) True r(1) by (simp add: put_vnode_def)
    have n: "node_at (put_vnode env mt v) d = node_at mt d" using assms(2,7) r(5) by (simp add: p node_at_def mt_root_def)
    have c: "dir_core env vol' (node_of mt d) cs fs"
      using dir_core_blocks[OF dir_core_resized[OF assms(5) r(2,3)] r(4)] assms(9) by (simp add: Int_commute)
    have ok1: "vol_ok vol1" and g: "geometry vol1 = geometry (mt_vol mt)" using r(2) by (simp_all add: resized_def)
    have "get_fat_entry vol' k = 0" if k: "k \<in> set ks" for k
    proof -
      have "k < total_clusters (mt_vol mt) + 2" using chain_bound[OF ok, of ks k] assms(8) k by (auto simp: node_clusters_def split: if_splits)
      then have "k < 2 ^ 32" using fat_clusters_bound(1)[OF vol_okD(1)[OF ok]] by simp
      then have "get_fat_entry vol' k = get_fat_entry vol1 k" by (rule fat_kept_get[OF same_blocks_kept[OF r(4)] vol_okD(1)[OF ok1]])
      then show ?thesis using r(2) k by (simp add: resized_def)
    qed
    then show ?thesis using True c n assms(6) by (auto simp: p mt_dir_def node_of_def)
  next
    case False
    have p: "put_vnode env mt v = mt\<lparr>mt_nodes := (mt_nodes mt)(v \<mapsto> c\<lparr>cn_refs := r\<rparr>)\<rparr>" using assms(1-4) False by (simp add: put_vnode_def)
    have n: "node_at (put_vnode env mt v) d = node_at mt d" using assms(7) by (simp add: p node_at_def mt_root_def)
    then show ?thesis using False assms(5,6,8) by (auto simp: p mt_dir_def node_of_def)
  qed
  then show "mt_dir env (put_vnode env mt v) d cs fs"
    "if r = 0 then mt_nodes (put_vnode env mt v) v = None \<and> (\<forall>k \<in> set ks. get_fat_entry (mt_vol (put_vnode env mt v)) k = 0)
     else mt_nodes (put_vnode env mt v) v = Some (c\<lparr>cn_refs := r\<rparr>) \<and> node_clusters (mt_vol (put_vnode env mt v)) (cn_node c) ks"
    by blast+
qed

subsection \<open>Unlinking\<close>

definition no_sync :: "nspace \<Rightarrow> bool" where
  "no_sync vol \<longleftrightarrow> vol_flags vol AND B_FS_IS_READONLY = 0 \<and> fs_flags vol AND FS_FLAGS_OP_SYNC = 0 \<and> free_clusters vol < 2 ^ 32"

lemma erase_core:
  assumes "dir_core env vol dir cs (fs @ f # gs)" "core_file vol dir f v file ks"
  shows "\<exists>vol'. erase_dir_entry env vol file = (0, vol') \<and> dir_core env vol' dir cs (fs @ gs) \<and> node_clusters vol' file ks
    \<and> vol' = vol\<lparr>fBlockCache := fBlockCache vol'\<rparr>"
proof -
  have F: "dir_has_files env (vn_cluster dir) cs vol (fs @ f # gs)" by (rule dir_core_files[OF assms(1)])
  have C: "VNODE_PARENT_DIR_CLUSTER file = vn_cluster dir" "vn_sindex file = di_sindex (fst f)" "vn_eindex file = di_eindex (fst f)"
    using assms(2) by (simp_all add: core_file_def)
  have d: "dir_ok vol (VNODE_PARENT_DIR_CLUSTER file) cs" "dir_state env vol cs (fs @ f # gs)" using F C(1) by (simp_all add: dir_has_files_def)
  obtain vol' where r: "erase_dir_entry env vol file = (0, vol')" "dir_changed vol cs (dir_entries vol' cs) vol'"
    using erase_run[OF d C(2,3)] by blast
  then have "dir_removes env (vn_cluster dir) vol f vol'" using C by (auto simp: dir_removes_def)
  note R = fl.removes[OF F this] and D = dir_changed_keeps[OF r(2) d(1)]
  have k: "fat_kept vol vol'" "vol' = vol\<lparr>fBlockCache := fBlockCache vol'\<rparr>" using r(2) by (simp_all only: dir_changed_def)
  note K = fat_kept_chain[OF k(1) vol_okD(1)[OF dir_okD(1)[OF d(1)]]]
  have "dir_core env vol' dir cs (fs @ gs)"
    using R assms(1) by (simp add: dir_core_def dir_node_def node_clusters_def K(1) D(4) split: if_splits)
  moreover have "node_clusters vol' file ks" using assms(2) by (simp add: core_file_def node_clusters_def K(1))
  ultimately show ?thesis using r(1) k(2) by blast
qed

lemma unlink_run:
  assumes "mt_dir env mt1 d cs (fs @ f # gs)" "vn_vnid (node_of mt1 d) = d" "v \<noteq> d" "v \<noteq> mt_root mt1"
    and "mt_nodes mt1 v = Some c" "cn_refs c = Suc r" "core_file (mt_vol mt1) (node_of mt1 d) f v (cn_node c) ks" "set ks \<inter> set cs = {}"
    and "unlink_check env mt1 (cn_node c) is_file = (B_OK, mt1)" "no_sync (mt_vol mt1)"
    and "fs @ gs = [] \<or> \<not> is_label (mt_vol mt1) (node_of mt1 d) (last (fs @ gs))"
    and "findfile_node env mt (node_of mt d) name True False = (Inr (v, Some (cn_node c)), dups, mt1)"
    and "name \<noteq> dot" "name \<noteq> dotdot" "vol_flags (mt_vol mt) AND B_FS_IS_READONLY = 0"
  shows "\<exists>mt'. do_unlink env mt d name is_file = (0, mt') \<and> mt_dir env mt' d (take (needed_clusters (mt_vol mt1) (fs @ gs)) cs) (fs @ gs)
    \<and> (if r = 0 then mt_nodes mt' v = None \<and> (\<forall>k \<in> set ks. get_fat_entry (mt_vol mt') k = 0)
       else mt_nodes mt' v = Some (c\<lparr>cn_refs := r, cn_removed := True\<rparr>) \<and> node_clusters (mt_vol mt') (cn_node c) ks)"
proof -
  let ?D = "node_of mt1 d" and ?n = "needed_clusters (mt_vol mt1) (fs @ gs)"
  have D: "dir_core env (mt_vol mt1) ?D cs (fs @ f # gs)" "node_at mt1 d \<noteq> None" using assms(1) by (simp_all add: mt_dir_def)
  obtain vol2 where e: "erase_dir_entry env (mt_vol mt1) (cn_node c) = (0, vol2)" "dir_core env vol2 ?D cs (fs @ gs)" "node_clusters vol2 (cn_node c) ks"
    "vol2 = (mt_vol mt1)\<lparr>fBlockCache := fBlockCache vol2\<rparr>"
    using erase_core[OF D(1) assms(7)] by blast
  obtain bc where bc: "vol2 = (mt_vol mt1)\<lparr>fBlockCache := bc\<rparr>" using e(4) by blast
  have n: "needed_clusters vol2 (fs @ gs) = ?n" by (simp add: bc needed_clusters_def cluster_entries_def entries_per_block_def)
  have l: "fs @ gs = [] \<or> \<not> is_label vol2 ?D (last (fs @ gs))" "free_clusters vol2 < 2 ^ 32"
    using assms(10,11) by (auto simp: bc is_label_def no_sync_def)
  obtain vol3 D3 where p: "compact_directory env vol2 ?D = (0, vol3, D3)" "dir_core env vol3 D3 (take ?n cs) (fs @ gs)" 
    "resized vol2 vol3 cs (take ?n cs)" "fat_same vol2 vol3" "dir_resized ?D D3"
    using compact_core[OF e(2) l] unfolding n by blast
  have v3: "root_vnode vol3 = root_vnode (mt_vol mt1)" "vol_flags vol3 = vol_flags (mt_vol mt1)" "fs_flags vol3 = fs_flags (mt_vol mt1)"
    using p(4) bc by (cases vol3; simp add: fat_same_def)+
  have free: "free_clusters vol3 < 2 ^ 32" using p(3) by (simp add: resized_def u32_of_int_def)
  let ?mt = "mt1\<lparr>mt_vol := vol3\<rparr>"
  have at: "node_at ?mt = node_at mt1" using v3(1) by (rule node_of_vol)
  have d3: "vn_vnid D3 = d" using p(5) assms(2) by (cases ?D; cases D3) (simp add: dir_resized_def)
  define m3 where "m3 = set_node ?mt d D3"
  have S: "node_at m3 d = Some D3" "mt_root m3 = mt_root mt1" "mt_nodes m3 v = Some c" "\<exists>r. mt_vol m3 = vol3\<lparr>root_vnode := r\<rparr>"
    using set_node_at[of ?mt d D3, OF _ d3] D(2) at v3(1) assms(3,5) by (simp_all add: m3_def mt_root_def)
  obtain rv where rv: "mt_vol m3 = vol3\<lparr>root_vnode := rv\<rparr>" using S(4) by blast
  obtain vc where m4: "forget_loc env m3 v = m3\<lparr>mt_vol := vol3\<lparr>root_vnode := rv, vol_vcache := vc\<rparr>\<rparr>"
    by (cases "generate_unique_vnid (vol_vcache vol3)") (auto simp: forget_loc_def rv)
  let ?c = "c\<lparr>cn_removed := True\<rparr>"
  define m5 where "m5 = remove_vnode (forget_loc env m3 v) v"
  have m5: "m5 = m3\<lparr>mt_vol := vol3\<lparr>root_vnode := rv, vol_vcache := vc\<rparr>, mt_nodes := (mt_nodes m3)(v \<mapsto> ?c)\<rparr>"
    using S(3) by (simp add: m5_def m4 remove_vnode_def)
  have vol5: "mt_vol m5 = vol3\<lparr>root_vnode := rv, vol_vcache := vc\<rparr>" by (simp add: m5)
  have root5: "mt_root m5 = mt_root m3" by (simp add: mt_root_def vol5 rv)
  have "node_at m5 d = node_at m3 d" using assms(3) unfolding node_at_def root5 by (simp add: m5 rv)
  then have n5: "node_at m5 d = Some D3" using S(1) by simp
  then have o5: "node_of m5 d = D3" by (simp add: node_of_def)
  have sb: "same_blocks vol3 (mt_vol m5)" unfolding vol5 by (simp add: same_blocks_def geometry_def)
  have c5: "dir_core env (mt_vol m5) (node_of m5 d) (take ?n cs) (fs @ gs)" unfolding o5 by (rule dir_core_blocks[OF p(2) sb])
  have ok3: "vol_ok vol3" using p(3) by (simp add: resized_def)
  have "set ks \<inter> (set cs \<union> set (take ?n cs)) = {}" using assms(8) set_take_subset[of ?n cs] by blast
  then have "node_clusters vol3 (cn_node c) ks" using e(3) chain_kept[OF _ p(3), of ks] by (auto simp: node_clusters_def)
  then have k5: "node_clusters (mt_vol m5) (cn_node ?c) ks"
    using fat_kept_chain(1)[OF same_blocks_kept[OF sb] vol_okD(1)[OF ok3]] by (simp add: node_clusters_def)
  have dj: "set ks \<inter> set (take ?n cs) = {}" using assms(8) set_take_subset[of ?n cs] by blast
  note P = put_removed[of m5 v ?c r env d "take ?n cs" "fs @ gs" ks, OF _ _ _ _ c5 _ assms(3) k5 dj]
  have fl: "vol_flags (mt_vol m5) AND B_FS_IS_READONLY = 0" "free_clusters (mt_vol m5) < 2 ^ 32" "op_sync (mt_vol m5) = mt_vol m5"
    using assms(10) v3 free by (simp_all add: vol5 no_sync_def op_sync_def)
  have Q: "mt_nodes m5 v = Some ?c" "v \<noteq> mt_root m5" "cn_refs ?c = Suc r" "cn_removed ?c" "node_at m5 d \<noteq> None"
    using assms(4,6) root5 S(2) n5 by (simp_all add: m5)
  note R = P[OF Q fl(1,2)]
  have vv: "vn_vnid (cn_node c) = v" using assms(7) by (simp add: core_file_def)
  have o2: "node_of (mt1\<lparr>mt_vol := vol2\<rparr>) d = ?D" using node_of_vol[of vol2 mt1] D(2) by (auto simp: bc node_of_def)
  have "do_unlink env mt d name is_file = (0, put_vnode env m5 v)"
    unfolding do_unlink_def using assms(9,12-15)
    by (simp add: e(1) o2 p(1) vv Let_def mt_sync_def fl(3) B_OK_def flip: m3_def m5_def)
  then show ?thesis using R by (intro exI[of _ "put_vnode env m5 v"]) (auto split: if_splits)
qed

subsection \<open>Finding and removing\<close>

text \<open>The state after a search that has left the volume as \<open>vol1\<close> and holds the vnode \<open>c\<close> of the id \<open>v\<close>.\<close>

definition held :: "mount \<Rightarrow> nspace \<Rightarrow> ino_t \<Rightarrow> core_node \<Rightarrow> mount" where
  "held mt vol1 v c = mt\<lparr>mt_vol := vol1, mt_nodes := (mt_nodes mt)(v \<mapsto> c\<lparr>cn_refs := Suc (cn_refs c)\<rparr>)\<rparr>"

lemma search_holds:
  assumes "dir_has_files env (vn_cluster (node_of mt d)) cs (mt_vol mt) (fs @ f # gs)"
    and "snd f = name" "\<not> is_label (mt_vol mt) (node_of mt d) f" "\<forall>g \<in> set fs. is_label (mt_vol mt) (node_of mt d) g \<or> snd g \<noteq> name"
    and "name \<noteq> dot" "name \<noteq> dotdot" "vnids_ok (node_entries (mt_vol mt) cs + 1) (vol_vcache (mt_vol mt))" "env_ok env"
    and "CLUSTER_OF_DIR_CLUSTER_VNID (vn_vnid (node_of mt d)) < 2 ^ 28"
  obtains v vol1 where "findfile_case env (mt_vol mt) (node_of mt d) name = (Inr v, False, vol1)" "same_disk (mt_vol mt) vol1" "file_vnid vol1 (node_of mt d) f v"
    "ids_grow 0 (mt_vol mt) vol1"
    "\<forall>c. core_or_disk env mt vol1 (node_of mt d) cs fs f v c \<and> v \<noteq> mt_root mt
      \<longrightarrow> findfile_node env mt (node_of mt d) name True False = (Inr (v, Some (cn_node c)), False, held mt vol1 v c)"
proof -
  obtain v vol1 where f: "findfile env (mt_vol mt) (node_of mt d) name True False = (Inr v, False, vol1)" "ids_grow 0 (mt_vol mt) vol1"
    "file_vnid vol1 (node_of mt d) f v" "dir_listed env (node_entries (mt_vol mt) cs + 1) (mt_vol mt) (node_of mt d) \<longrightarrow> dirs_grow 0 (mt_vol mt) vol1"
    by (rule findfile_first[OF assms])
  have n: "snd f \<noteq> dot" "snd f \<noteq> dotdot" "env_mem env" using assms(2,5,6,8) by (simp_all add: env_ok_def)
  have "findfile_node env mt (node_of mt d) name True False = (Inr (v, Some (cn_node c)), False, held mt vol1 v c)"
    if "core_or_disk env mt vol1 (node_of mt d) cs fs f v c" "v \<noteq> mt_root mt" for c
    using get_vnode_gets[OF that(1) f(2,3) n(1,2) assms(1) that(2) n(3) f(4)[rule_format]] f(1) by (simp add: findfile_node_def held_def)
  then show thesis using that f(1-3) by (simp add: findfile_case_def ids_grow_def)
qed

lemma held_unlink:
  assumes "mt_dir env mt d cs (fs @ f # gs)" "vn_vnid (node_of mt d) = d" "no_sync (mt_vol mt)"
    and "fs @ gs = [] \<or> \<not> is_label (mt_vol mt) (node_of mt d) (last (fs @ gs))" "name \<noteq> dot" "name \<noteq> dotdot" "same_disk (mt_vol mt) vol1"
    and "findfile_node env mt (node_of mt d) name True False = (Inr (v, Some (cn_node c)), False, held mt vol1 v c)" "v \<noteq> d" "v \<noteq> mt_root mt"
    and "core_file (mt_vol mt) (node_of mt d) f v (cn_node c) ks" "set ks \<inter> set cs = {}"
    and "unlink_check env (held mt vol1 v c) (cn_node c) is_file = (B_OK, held mt vol1 v c)"
  shows "\<exists>mt'. do_unlink env mt d name is_file = (0, mt') \<and> mt_dir env mt' d (take (needed_clusters (mt_vol mt) (fs @ gs)) cs) (fs @ gs)
       \<and> (if cn_refs c = 0 then mt_nodes mt' v = None \<and> (\<forall>k \<in> set ks. get_fat_entry (mt_vol mt') k = 0)
          else mt_nodes mt' v = Some (c\<lparr>cn_removed := True\<rparr>) \<and> node_clusters (mt_vol mt') (cn_node c) ks)"
proof -
  let ?D = "node_of mt d" and ?vol = "mt_vol mt" let ?c = "c\<lparr>cn_refs := Suc (cn_refs c)\<rparr>" let ?m1 = "held mt vol1 v c"
  have D: "dir_core env ?vol ?D cs (fs @ f # gs)" "node_at mt d \<noteq> None" using assms(1) by (simp_all add: mt_dir_def)
  have ok: "vol_ok ?vol" using dir_core_files[OF D(1)] by (simp add: dir_has_files_def dir_ok_def)
  note P = same_disk_fields[OF assms(7)] and L = same_disk_parse[OF assms(7)]
  obtain vc dl where vol1: "vol1 = ?vol\<lparr>vol_vcache := vc, vol_dlist := dl\<rparr>" using assms(7) unfolding same_disk_def by metis
  have a: "node_at ?m1 d = node_at mt d" using assms(9) P(1) by (auto simp: node_at_def held_def mt_root_def)
  then have o: "node_of ?m1 d = ?D" using D(2) by (auto simp: node_of_def)
  have sb: "same_blocks ?vol vol1" using P(3,5) by (simp add: same_blocks_def)
  have m: "mt_dir env ?m1 d cs (fs @ f # gs)" using dir_core_blocks[OF D(1) sb] D(2) a o by (simp add: mt_dir_def held_def)
  have k: "core_file (mt_vol ?m1) (node_of ?m1 d) f v (cn_node ?c) ks"
    using assms(11) fat_kept_chain(1)[OF P(6) vol_okD(1)[OF ok]] o by (simp add: core_file_def node_clusters_def held_def)
  have s: "no_sync (mt_vol ?m1)" using assms(3) by (simp add: no_sync_def held_def vol1)
  have l: "fs @ gs = [] \<or> \<not> is_label (mt_vol ?m1) (node_of ?m1 d) (last (fs @ gs))" using assms(4) L(4) o by (simp add: held_def)
  have n: "needed_clusters (mt_vol ?m1) (fs @ gs) = needed_clusters ?vol (fs @ gs)"
    by (simp add: held_def vol1 needed_clusters_def cluster_entries_def entries_per_block_def)
  have h: "vn_vnid (node_of ?m1 d) = d" "v \<noteq> mt_root ?m1" "mt_nodes ?m1 v = Some ?c" "cn_refs ?c = Suc (cn_refs c)" "vol_flags ?vol AND B_FS_IS_READONLY = 0"
    "unlink_check env ?m1 (cn_node ?c) is_file = (B_OK, ?m1)" "findfile_node env mt ?D name True False = (Inr (v, Some (cn_node ?c)), False, ?m1)"
    using assms(2,3,8,10,13) o P(1) by (simp_all add: held_def mt_root_def no_sync_def)
  show ?thesis
    using unlink_run[OF m h(1) assms(9) h(2-4) k assms(12) h(6) s l h(7) assms(5,6) h(5)] unfolding n by (auto split: if_splits)
qed

subsection \<open>Properties\<close>

text \<open>C2: \<^verbatim>\<open>dosfs_unlink\<close> removes a file. In a directory in core, the search of the operation finds the first file \<open>f\<close> of that name. If the vnode of \<open>f\<close>, in core or read
  from the entry, agrees with the entry, the operation succeeds: the directory has the other files, in the same order, in the clusters that they need. When
  nobody else holds the vnode, it is gone and its clusters are free; otherwise it is marked as removed and keeps its clusters.\<close>

theorem unlink_removes_file:
  assumes "mt_dir env mt d cs (fs @ f # gs)" "vn_vnid (node_of mt d) = d" "no_sync (mt_vol mt)"
    and "snd f = name" "\<not> is_label (mt_vol mt) (node_of mt d) f" "\<forall>g \<in> set fs. is_label (mt_vol mt) (node_of mt d) g \<or> snd g \<noteq> name"
    and "fs @ gs = [] \<or> \<not> is_label (mt_vol mt) (node_of mt d) (last (fs @ gs))" "name \<noteq> dot" "name \<noteq> dotdot"
    and "vnids_ok (node_entries (mt_vol mt) cs + 1) (vol_vcache (mt_vol mt))" "env_ok env" "CLUSTER_OF_DIR_CLUSTER_VNID d < 2 ^ 28"
  shows "\<exists>v vol1. findfile_case env (mt_vol mt) (node_of mt d) name = (Inr v, False, vol1) \<and> file_vnid vol1 (node_of mt d) f v
    \<and> (\<forall>c ks. core_or_disk env mt vol1 (node_of mt d) cs fs f v c \<and> v \<noteq> d \<and> v \<noteq> mt_root mt
          \<and> core_file (mt_vol mt) (node_of mt d) f v (cn_node c) ks \<and> set ks \<inter> set cs = {}
          \<and> vn_mode (cn_node c) AND FAT_SUBDIR = 0 \<and> vn_disk_image (cn_node c) = 0
        \<longrightarrow> (\<exists>mt'. dosfs_unlink env mt d name = (0, mt') \<and> mt_dir env mt' d (take (needed_clusters (mt_vol mt) (fs @ gs)) cs) (fs @ gs)
             \<and> (if cn_refs c = 0 then mt_nodes mt' v = None \<and> (\<forall>k \<in> set ks. get_fat_entry (mt_vol mt') k = 0)
                else mt_nodes mt' v = Some (c\<lparr>cn_removed := True\<rparr>) \<and> node_clusters (mt_vol mt') (cn_node c) ks)))"
proof -
  have F: "dir_has_files env (vn_cluster (node_of mt d)) cs (mt_vol mt) (fs @ f # gs)" using assms(1) dir_core_files by (simp add: mt_dir_def)
  have cl: "CLUSTER_OF_DIR_CLUSTER_VNID (vn_vnid (node_of mt d)) < 2 ^ 28" using assms(2,12) by simp
  obtain v vol1 where v: "findfile_case env (mt_vol mt) (node_of mt d) name = (Inr v, False, vol1)" "same_disk (mt_vol mt) vol1"
    "file_vnid vol1 (node_of mt d) f v" "ids_grow 0 (mt_vol mt) vol1" "\<forall>c. core_or_disk env mt vol1 (node_of mt d) cs fs f v c \<and> v \<noteq> mt_root mt
      \<longrightarrow> findfile_node env mt (node_of mt d) name True False = (Inr (v, Some (cn_node c)), False, held mt vol1 v c)"
    by (rule search_holds[OF F assms(4-6,8-11) cl])
  note U = held_unlink[where is_file = True, folded dosfs_unlink_def, OF assms(1-3,7-9) v(2) v(5)[rule_format]]
  show ?thesis by (rule exI[of _ v], rule exI[of _ vol1]) (use v(1,3) U in \<open>auto simp: unlink_check_def\<close>)
qed

subsection \<open>Witness\<close>

text \<open>The small root directory with two files. Every id has a vnode in core, which names the second entry; nobody holds it.\<close>

definition tiny_core :: mount where
  "tiny_core = \<lparr>mt_vol = tiny_dir, mt_nodes = (\<lambda>v. Some \<lparr>cn_node = (tiny_child 1 1)\<lparr>vn_vnid := v\<rparr>, cn_refs = 0, cn_removed = False\<rparr>)\<rparr>"

theorem unlink_removes_file_witness:
  "\<exists>mt' f. dosfs_unlink tiny_env tiny_core 1 (tiny_name 0x61) = (0, mt') \<and> mt_dir tiny_env mt' 1 [] [f] \<and> snd f = tiny_name 0x41"
proof -
  let ?f = "(entry_info tiny_dir 0 0 (tiny_entry 0x41), tiny_name 0x41)" and ?g = "(entry_info tiny_dir 1 1 (tiny_entry 0x61), tiny_name 0x61)"
  have r: "mt_root tiny_core = 1" "mt_vol tiny_core = tiny_dir" by (simp_all add: tiny_core_def mt_root_def tiny_dir_def)
  then have o: "node_of tiny_core 1 = root_vnode tiny_dir" "node_at tiny_core 1 \<noteq> None" by (simp_all add: node_of_def node_at_def)
  have R: "vn_cluster (root_vnode tiny_dir) = 1" "vn_vnid (root_vnode tiny_dir) = 1" by (simp_all add: tiny_dir_def)
  have d: "mt_dir tiny_env tiny_core 1 [] ([?f] @ ?g # [])" using tiny_dir_has_files o R by (simp add: mt_dir_def dir_core_def r(2))
  have s: "no_sync (mt_vol tiny_core)" by (simp add: r(2) no_sync_def tiny_dir_def tiny_disk0_def tiny_volume_def)
  have l: "\<not> is_label tiny_dir (root_vnode tiny_dir) (entry_info tiny_dir i i (tiny_entry c), n)" for i c n
    by (simp add: is_label_def entry_info_def tiny_entry_bytes)
  have n: "tiny_name 0x61 \<noteq> dot" "tiny_name 0x61 \<noteq> dotdot" "tiny_name 0x41 \<noteq> tiny_name 0x61"
    by (auto simp: tiny_name_def dot_def dotdot_def dest: arg_cong[where f = length])
  obtain v0 vol' where f: "findfile tiny_env tiny_dir (root_vnode tiny_dir) (tiny_name 0x61) True False = (Inr v0, False, vol')" "v0 \<noteq> 1"
    using tiny_dir_found by blast
  have h: "vn_vnid (node_of tiny_core 1) = 1" "snd ?g = tiny_name 0x61" "\<not> is_label (mt_vol tiny_core) (node_of tiny_core 1) ?g"
    "\<forall>g \<in> set [?f]. is_label (mt_vol tiny_core) (node_of tiny_core 1) g \<or> snd g \<noteq> tiny_name 0x61"
    "[?f] @ [] = [] \<or> \<not> is_label (mt_vol tiny_core) (node_of tiny_core 1) (last ([?f] @ []))"
    "vnids_ok (node_entries (mt_vol tiny_core) [] + 1) (vol_vcache (mt_vol tiny_core))" "CLUSTER_OF_DIR_CLUSTER_VNID 1 < 2 ^ 28"
    using o(1) R l n tiny_dir_ok(2,3) by (simp_all add: r(2) CLUSTER_OF_DIR_CLUSTER_VNID_def)
  note T = unlink_removes_file[OF d h(1) s h(2-5) n(1,2) h(6) tiny_dir_ok(4) h(7)]
  obtain v vol1 where v: "findfile_case tiny_env tiny_dir (root_vnode tiny_dir) (tiny_name 0x61) = (Inr v, False, vol1)"
    and U: "\<And>c ks. core_or_disk tiny_env tiny_core vol1 (node_of tiny_core 1) [] [?f] ?g v c \<and> v \<noteq> 1 \<and> v \<noteq> mt_root tiny_core
        \<and> core_file (mt_vol tiny_core) (node_of tiny_core 1) ?g v (cn_node c) ks
        \<and> set ks \<inter> set [] = {} \<and> vn_mode (cn_node c) AND FAT_SUBDIR = 0 \<and> vn_disk_image (cn_node c) = 0
      \<Longrightarrow> \<exists>mt'. dosfs_unlink tiny_env tiny_core 1 (tiny_name 0x61) = (0, mt')
           \<and> mt_dir tiny_env mt' 1 (take (needed_clusters (mt_vol tiny_core) ([?f] @ [])) []) ([?f] @ [])"
    using T[unfolded o(1) r(2)] unfolding o(1) r(2) by blast
  have "v = v0" using v f(1) by (simp add: findfile_case_def)
  have "\<exists>mt'. dosfs_unlink tiny_env tiny_core 1 (tiny_name 0x61) = (0, mt')
      \<and> mt_dir tiny_env mt' 1 (take (needed_clusters (mt_vol tiny_core) ([?f] @ [])) []) ([?f] @ [])"
    by (rule U[of "\<lparr>cn_node = (tiny_child 1 1)\<lparr>vn_vnid := v\<rparr>, cn_refs = 0, cn_removed = False\<rparr>" "[]"])
      (use f(2) \<open>v = v0\<close> r o R tiny_child_parent[of 1 1] in \<open>auto simp: tiny_core_def core_or_disk_def core_file_def tiny_child_def entry_info_def node_clusters_def
        tiny_vnode_def VNODE_PARENT_DIR_CLUSTER_def\<close>)
  then show ?thesis by auto
qed

end
