(* ===== verification/Rmdir_Laws.thy ===== *)
theory Rmdir_Laws
  imports Unlink_Laws Create_Laws
begin

text \<open>
  Removing directories: \<^verbatim>\<open>dosfs_rmdir\<close> removes a directory that has only the entries for itself and its parent, and refuses others without changing anything.
\<close>

section \<open>Theorems\<close>

text \<open>The entries of the directory \<open>dir\<close>, in the clusters \<open>ks\<close>, give the files \<open>es\<close>.\<close>

definition dir_lists :: "env \<Rightarrow> nspace \<Rightarrow> vnode \<Rightarrow> nat list \<Rightarrow> (dirent_info \<times> name) list \<Rightarrow> bool" where
  "dir_lists env vol dir ks es \<longleftrightarrow> dir_ok vol (vn_cluster dir) ks \<and> 0 < node_entries vol ks \<and> listing env vol (dir_entries vol ks) 0 = Some es"

text \<open>Only the two first entries, for the directory and for its parent.\<close>

definition only_dots :: "(dirent_info \<times> name) list \<Rightarrow> bool" where
  "only_dots es \<longleftrightarrow> (\<exists>p q. es = [p, q] \<and> first_two 0 p \<and> first_two 1 q)"

lemma same_disk_lists: "same_disk vol vol' \<Longrightarrow> dir_lists env vol dir ks es \<Longrightarrow> dir_lists env vol' dir ks es"
  using same_disk_parse(1,6)[of vol vol'] same_disk_listing[of vol vol'] length_dir_entries[of vol ks] length_dir_entries[of vol' ks]
  by (simp add: dir_lists_def)

lemma held_check:
  assumes "same_disk (mt_vol mt) vol1" "dir_lists env (mt_vol mt) (cn_node c) ks es" "vn_vnid (cn_node c) = v" "v \<noteq> mt_root mt"
    and "vn_mode (cn_node c) AND FAT_SUBDIR \<noteq> 0" "vn_disk_image (cn_node c) = 0"
  shows "unlink_check env (held mt vol1 v c) (cn_node c) False = (empty_status 0 es, held mt vol1 v c)"
proof -
  have "dir_lists env (mt_vol (held mt vol1 v c)) (cn_node c) ks es" using same_disk_lists[OF assms(1,2)] by (simp add: held_def)
  then show ?thesis
    using assms(3-6) same_disk_fields(1)[OF assms(1)] by (intro rmdir_check[where env = env and cs = ks]) (simp_all add: dir_lists_def held_def mt_root_def)
qed

text \<open>A refusal gives the vnode back.\<close>

lemma held_refused:
  assumes "findfile_node env mt (node_of mt d) name True False = (Inr (v, Some (cn_node c)), False, held mt vol1 v c)" "name \<noteq> dot" "name \<noteq> dotdot"
    and "vol_flags (mt_vol mt) AND B_FS_IS_READONLY = 0" "unlink_check env (held mt vol1 v c) (cn_node c) is_file = (e, held mt vol1 v c)" "e \<noteq> B_OK"
    and "v \<noteq> mt_root mt" "same_disk (mt_vol mt) vol1" "\<not> cn_removed c"
  shows "do_unlink env mt d name is_file = (e, mt\<lparr>mt_vol := vol1, mt_nodes := (mt_nodes mt)(v \<mapsto> c)\<rparr>)"
proof -
  have "put_vnode env (held mt vol1 v c) v = mt\<lparr>mt_vol := vol1, mt_nodes := (mt_nodes mt)(v \<mapsto> c)\<rparr>"
    using assms(7,9) same_disk_fields(1)[OF assms(8)] by (simp add: put_vnode_def held_def mt_root_def)
  then show ?thesis unfolding do_unlink_def using assms(1-6) by simp
qed

text \<open>C19: \<^verbatim>\<open>dosfs_rmdir\<close> refuses what is no empty directory, and then changes nothing. The search of the operation finds the first file \<open>f\<close> of the name. When its vnode, in core or read
  from the entry, is not a directory, the status is \<^verbatim>\<open>ENOTDIR\<close>; when the directory holds anything besides its first two entries, for itself and for its parent, it is
  \<^verbatim>\<open>ENOTEMPTY\<close>; when these two are not in their place, \<^verbatim>\<open>ENOTDIR\<close> or \<^verbatim>\<open>ENOENT\<close>. In all these cases the volume is the one after the search, which has only
  recorded vnode ids; no vnode but that of \<open>f\<close> is touched, which has as many references as before.\<close>

theorem rmdir_only_empty:
  assumes "dir_has_files env (vn_cluster (node_of mt d)) cs (mt_vol mt) (fs @ f # gs)"
    and "snd f = name" "\<not> is_label (mt_vol mt) (node_of mt d) f" "\<forall>g \<in> set fs. is_label (mt_vol mt) (node_of mt d) g \<or> snd g \<noteq> name"
    and "name \<noteq> dot" "name \<noteq> dotdot" "vnids_ok (node_entries (mt_vol mt) cs + 1) (vol_vcache (mt_vol mt))" "env_ok env"
    and "CLUSTER_OF_DIR_CLUSTER_VNID (vn_vnid (node_of mt d)) < 2 ^ 28" "vol_flags (mt_vol mt) AND B_FS_IS_READONLY = 0"
  shows "\<exists>v vol1. findfile_case env (mt_vol mt) (node_of mt d) name = (Inr v, False, vol1) \<and> same_disk (mt_vol mt) vol1 \<and> file_vnid vol1 (node_of mt d) f v
    \<and> (\<forall>c. core_or_disk env mt vol1 (node_of mt d) cs fs f v c \<and> \<not> cn_removed c \<and> v \<noteq> mt_root mt \<and> vn_vnid (cn_node c) = v \<and> vn_disk_image (cn_node c) = 0
        \<longrightarrow> (let unchanged = mt\<lparr>mt_vol := vol1, mt_nodes := (mt_nodes mt)(v \<mapsto> c)\<rparr> in
             (vn_mode (cn_node c) AND FAT_SUBDIR = 0 \<longrightarrow> dosfs_rmdir env mt d name = (ENOTDIR, unchanged))
             \<and> (\<forall>ks es. vn_mode (cn_node c) AND FAT_SUBDIR \<noteq> 0 \<and> dir_lists env (mt_vol mt) (cn_node c) ks es \<and> \<not> only_dots es
                  \<longrightarrow> (\<exists>e \<in> {ENOTEMPTY, ENOTDIR, ENOENT}. dosfs_rmdir env mt d name = (e, unchanged)
                       \<and> ((\<exists>p q r rs. es = p # q # r # rs \<and> first_two 0 p \<and> first_two 1 q) \<longrightarrow> e = ENOTEMPTY)))))"
proof -
  obtain v vol1 where v: "findfile_case env (mt_vol mt) (node_of mt d) name = (Inr v, False, vol1)" "same_disk (mt_vol mt) vol1"
    "file_vnid vol1 (node_of mt d) f v" "ids_grow 0 (mt_vol mt) vol1" "\<forall>c. core_or_disk env mt vol1 (node_of mt d) cs fs f v c \<and> v \<noteq> mt_root mt
      \<longrightarrow> findfile_node env mt (node_of mt d) name True False = (Inr (v, Some (cn_node c)), False, held mt vol1 v c)"
    by (rule search_holds[OF assms(1-9)])
  note R = held_refused[where is_file = False, folded dosfs_rmdir_def, OF v(5)[rule_format] assms(5,6,10) _ _ _ v(2)]
  have a: "dosfs_rmdir env mt d name = (ENOTDIR, mt\<lparr>mt_vol := vol1, mt_nodes := (mt_nodes mt)(v \<mapsto> c)\<rparr>)"
    if "core_or_disk env mt vol1 (node_of mt d) cs fs f v c" "\<not> cn_removed c" "v \<noteq> mt_root mt" "vn_disk_image (cn_node c) = 0"
      "vn_mode (cn_node c) AND FAT_SUBDIR = 0" for c
    by (rule R) (use that in \<open>simp_all add: unlink_check_def errno_defs\<close>)
  have b: "dosfs_rmdir env mt d name = (empty_status 0 es, mt\<lparr>mt_vol := vol1, mt_nodes := (mt_nodes mt)(v \<mapsto> c)\<rparr>)"
    if "core_or_disk env mt vol1 (node_of mt d) cs fs f v c" "\<not> cn_removed c" "v \<noteq> mt_root mt" "vn_vnid (cn_node c) = v" "vn_disk_image (cn_node c) = 0"
      "vn_mode (cn_node c) AND FAT_SUBDIR \<noteq> 0" "dir_lists env (mt_vol mt) (cn_node c) ks es" "\<not> only_dots es" for c ks es
  proof -
    have "empty_status 0 es \<noteq> B_OK" using that(8) empty_status_ok by (simp add: only_dots_def)
    then show ?thesis using R[OF _ held_check[OF v(2) that(7,4,3,6,5)]] that(1-3) by blast
  qed
  have e: "empty_status 0 es \<in> {ENOTEMPTY, ENOTDIR, ENOENT}" if "\<not> only_dots es" for es
    using that by (auto simp: only_dots_def empty_status_def split: list.split)
  have e2: "empty_status 0 es = ENOTEMPTY" if "\<exists>p q r rs. es = p # q # r # rs \<and> first_two 0 p \<and> first_two 1 q" for es
    using that by (auto simp: empty_status_def)
  show ?thesis
  proof (intro exI conjI allI impI)
    fix c assume c: "core_or_disk env mt vol1 (node_of mt d) cs fs f v c \<and> \<not> cn_removed c \<and> v \<noteq> mt_root mt \<and> vn_vnid (cn_node c) = v \<and> vn_disk_image (cn_node c) = 0"
    then have a': "vn_mode (cn_node c) AND FAT_SUBDIR = 0 \<Longrightarrow> dosfs_rmdir env mt d name = (ENOTDIR, mt\<lparr>mt_vol := vol1, mt_nodes := (mt_nodes mt)(v \<mapsto> c)\<rparr>)"
      using a by blast
    have "\<exists>e \<in> {ENOTEMPTY, ENOTDIR, ENOENT}. dosfs_rmdir env mt d name = (e, mt\<lparr>mt_vol := vol1, mt_nodes := (mt_nodes mt)(v \<mapsto> c)\<rparr>)
        \<and> ((\<exists>p q r rs. es = p # q # r # rs \<and> first_two 0 p \<and> first_two 1 q) \<longrightarrow> e = ENOTEMPTY)"
      if "vn_mode (cn_node c) AND FAT_SUBDIR \<noteq> 0 \<and> dir_lists env (mt_vol mt) (cn_node c) ks es \<and> \<not> only_dots es" for ks es
      by (rule bexI[of _ "empty_status 0 es"]) (use that c b e e2 in blast)+
    with a' show "let unchanged = mt\<lparr>mt_vol := vol1, mt_nodes := (mt_nodes mt)(v \<mapsto> c)\<rparr> in
        (vn_mode (cn_node c) AND FAT_SUBDIR = 0 \<longrightarrow> dosfs_rmdir env mt d name = (ENOTDIR, unchanged))
        \<and> (\<forall>ks es. vn_mode (cn_node c) AND FAT_SUBDIR \<noteq> 0 \<and> dir_lists env (mt_vol mt) (cn_node c) ks es \<and> \<not> only_dots es
             \<longrightarrow> (\<exists>e \<in> {ENOTEMPTY, ENOTDIR, ENOENT}. dosfs_rmdir env mt d name = (e, unchanged)
                  \<and> ((\<exists>p q r rs. es = p # q # r # rs \<and> first_two 0 p \<and> first_two 1 q) \<longrightarrow> e = ENOTEMPTY)))"
      unfolding Let_def by blast
  qed (rule v(1-3))+
qed

text \<open>C20: \<^verbatim>\<open>dosfs_rmdir\<close> removes an empty directory. In a directory in core, the search of the operation finds the first file \<open>f\<close> of that name. If the vnode of \<open>f\<close>, in core or read
  from the entry, agrees with the entry and its directory has only the entries for itself and its parent, the operation succeeds: the directory has the other files,
  in the same order, in the clusters that they need. When nobody else holds the vnode, it is gone and its clusters are free; otherwise it is marked as removed and
  keeps its clusters.\<close>

theorem rmdir_removes_empty:
  assumes "mt_dir env mt d cs (fs @ f # gs)" "vn_vnid (node_of mt d) = d" "no_sync (mt_vol mt)"
    and "snd f = name" "\<not> is_label (mt_vol mt) (node_of mt d) f" "\<forall>g \<in> set fs. is_label (mt_vol mt) (node_of mt d) g \<or> snd g \<noteq> name"
    and "fs @ gs = [] \<or> \<not> is_label (mt_vol mt) (node_of mt d) (last (fs @ gs))" "name \<noteq> dot" "name \<noteq> dotdot"
    and "vnids_ok (node_entries (mt_vol mt) cs + 1) (vol_vcache (mt_vol mt))" "env_ok env" "CLUSTER_OF_DIR_CLUSTER_VNID d < 2 ^ 28"
  shows "\<exists>v vol1. findfile_case env (mt_vol mt) (node_of mt d) name = (Inr v, False, vol1) \<and> file_vnid vol1 (node_of mt d) f v
    \<and> (\<forall>c ks es. core_or_disk env mt vol1 (node_of mt d) cs fs f v c \<and> v \<noteq> d \<and> v \<noteq> mt_root mt
          \<and> core_file (mt_vol mt) (node_of mt d) f v (cn_node c) ks \<and> set ks \<inter> set cs = {}
          \<and> vn_mode (cn_node c) AND FAT_SUBDIR \<noteq> 0 \<and> vn_disk_image (cn_node c) = 0 \<and> dir_lists env (mt_vol mt) (cn_node c) ks es \<and> only_dots es
        \<longrightarrow> (\<exists>mt'. dosfs_rmdir env mt d name = (0, mt') \<and> mt_dir env mt' d (take (needed_clusters (mt_vol mt) (fs @ gs)) cs) (fs @ gs)
             \<and> (if cn_refs c = 0 then mt_nodes mt' v = None \<and> (\<forall>k \<in> set ks. get_fat_entry (mt_vol mt') k = 0)
                else mt_nodes mt' v = Some (c\<lparr>cn_removed := True\<rparr>) \<and> node_clusters (mt_vol mt') (cn_node c) ks)))"
proof -
  have F: "dir_has_files env (vn_cluster (node_of mt d)) cs (mt_vol mt) (fs @ f # gs)" using assms(1) dir_core_files by (simp add: mt_dir_def)
  have cl: "CLUSTER_OF_DIR_CLUSTER_VNID (vn_vnid (node_of mt d)) < 2 ^ 28" using assms(2,12) by simp
  obtain v vol1 where v: "findfile_case env (mt_vol mt) (node_of mt d) name = (Inr v, False, vol1)" "same_disk (mt_vol mt) vol1"
    "file_vnid vol1 (node_of mt d) f v" "ids_grow 0 (mt_vol mt) vol1" "\<forall>c. core_or_disk env mt vol1 (node_of mt d) cs fs f v c \<and> v \<noteq> mt_root mt
      \<longrightarrow> findfile_node env mt (node_of mt d) name True False = (Inr (v, Some (cn_node c)), False, held mt vol1 v c)"
    by (rule search_holds[OF F assms(4-6,8-11) cl])
  note U = held_unlink[where is_file = False, folded dosfs_rmdir_def, OF assms(1-3,7-9) v(2) v(5)[rule_format]]
  have k: "unlink_check env (held mt vol1 v c) (cn_node c) False = (B_OK, held mt vol1 v c)"
    if "core_file (mt_vol mt) (node_of mt d) f v (cn_node c) ks" "v \<noteq> mt_root mt" "vn_mode (cn_node c) AND FAT_SUBDIR \<noteq> 0" "vn_disk_image (cn_node c) = 0"
      "dir_lists env (mt_vol mt) (cn_node c) ks' es" "only_dots es" for c ks ks' es
    using held_check[OF v(2) that(5) _ that(2-4)] that(1,6) empty_status_ok[of es] by (simp add: core_file_def only_dots_def)
  show ?thesis by (rule exI[of _ v], rule exI[of _ vol1]) (use v(1,3) U k in blast)
qed

subsection \<open>Witnesses\<close>

text \<open>A volume with a directory \<open>A\<close> in the clusters 2 and 4, whose third entry is \<open>e\<close>.\<close>

definition dir_mark :: "block \<Rightarrow> nat \<Rightarrow> block" where
  "dir_mark short c = short @ replicate (11 - length short) 0x20 @ [0x10] @ replicate 14 0 @ [word_of_nat c, 0] @ replicate 4 0"

definition tiny_tree :: "block \<Rightarrow> nspace" where
  "tiny_tree e = tiny_disk\<lparr>fBlockCache := (fBlockCache tiny_disk)(3 \<mapsto> dir_mark [0x41] 2 @ replicate 32 0,
       5 \<mapsto> dir_mark [0x2e] 2 @ dir_mark [0x2e, 0x2e] 0, 6 \<mapsto> e @ replicate 32 0),
     free_clusters := 2, vol_vcache := vol_vcache tiny_dir, root_vnode := tiny_vnode\<lparr>vn_vnid := 1, vn_dir_vnid := 1, vn_cluster := 1\<rparr>\<rparr>"

lemma dir_mark_bytes:
  assumes "short \<in> {[0x41], [0x2e], [0x2e, 0x2e], [0x42]}"
  shows "length (dir_mark short c) = 32" "dir_mark short c ! 0 \<noteq> 0" "dir_mark short c ! 0 \<noteq> 0xe5" "dir_mark short c ! 0xb = 0x10"
    "dir_mark short c ! 0xc = 0" "take 11 (dir_mark short c) = short @ replicate (11 - length short) 0x20"
    "read16 (dir_mark short c) 0x1a = unat (word_of_nat c :: u8)"
  using assms by (auto simp: dir_mark_def nth_append read16_def)

lemma dir_mark_name:
  assumes "short \<in> {[0x41], [0x2e], [0x2e, 0x2e], [0x42]}"
  shows "takeWhile (\<lambda>c. c \<noteq> 0) (snd (enc_msdos_to_utf8 (take 11 (dir_mark short c)) 512 False)) = short"
proof -
  have "one_loop msdostou (short @ [0]) (length (short @ [0])) 512 0 [] = (length (short @ [0]), short @ [0])"
    using one_loop_ascii[of "short @ [0]" "[]" 512 "[]"] assms by auto
  then show ?thesis using assms unfolding dir_mark_bytes(6)[OF assms] by (auto simp: enc_msdos_to_utf8_def one_to_utf8_def)
qed

lemma fat_same_flags: "fat_same vol vol' \<Longrightarrow> vol_flags vol' = vol_flags vol" "fat_same vol vol' \<Longrightarrow> fs_flags vol' = fs_flags vol"
  unfolding fat_same_def by (cases vol; cases vol'; simp)+

lemma tiny_tree_blocks:
  assumes "length e = 32"
  shows "fBlockCache (tiny_tree e) 3 = Some (dir_mark [0x41] 2 @ replicate 32 0)" "fBlockCache (tiny_tree e) 4 = Some (replicate 64 0)"
    "fBlockCache (tiny_tree e) 5 = Some (dir_mark [0x2e] 2 @ dir_mark [0x2e, 0x2e] 0)" "fBlockCache (tiny_tree e) 6 = Some (e @ replicate 32 0)"
    "fBlockCache (tiny_tree e) 9 = Some (replicate 64 0)" "fBlockCache (tiny_tree e) 10 = Some (replicate 64 0)"
    "fat_kept tiny_disk (tiny_tree e)" "geometry (tiny_tree e) = geometry tiny_disk0"
    "vol_flags (tiny_tree e) = 0" "fs_flags (tiny_tree e) = 0"
proof -
  have same: "fat_same tiny_disk0 tiny_disk"
    unfolding tiny_disk_def using fat_same_trans[OF fat_same_put[OF tiny_disk0_ok(1)] fat_same_put] fat_put_ok(1)[OF tiny_disk0_ok(1), of 4] by (simp add: tiny_disk0_simps)
  have b: "fBlockCache tiny_disk bn = Some (replicate 64 0)" if "3 \<le> bn" "bn < 13" for bn
    using same that by (simp add: fat_same_def fat_end_def tiny_disk0_simps)
  show "fBlockCache (tiny_tree e) 3 = Some (dir_mark [0x41] 2 @ replicate 32 0)" "fBlockCache (tiny_tree e) 4 = Some (replicate 64 0)"
    "fBlockCache (tiny_tree e) 5 = Some (dir_mark [0x2e] 2 @ dir_mark [0x2e, 0x2e] 0)" "fBlockCache (tiny_tree e) 6 = Some (e @ replicate 32 0)"
    "fBlockCache (tiny_tree e) 9 = Some (replicate 64 0)" "fBlockCache (tiny_tree e) 10 = Some (replicate 64 0)"
    by (simp_all add: tiny_tree_def b)
  have "vol_flags tiny_disk = vol_flags tiny_disk0" "fs_flags tiny_disk = fs_flags tiny_disk0"
    by (rule fat_same_flags[OF same])+
  then show "vol_flags (tiny_tree e) = 0" "fs_flags (tiny_tree e) = 0" by (simp_all add: tiny_tree_def tiny_disk0_def tiny_volume_def)
  have "geometry (tiny_tree e) = geometry tiny_disk" by (simp add: tiny_tree_def geometry_def)
  then show "geometry (tiny_tree e) = geometry tiny_disk0" using tiny_disk_ok(1) by simp
  have "fat_end tiny_disk = 3" by (simp add: fat_end_def geometryD[OF tiny_disk_ok(1)] tiny_disk0_simps)
  then show "fat_kept tiny_disk (tiny_tree e)"
    using \<open>geometry (tiny_tree e) = geometry tiny_disk\<close> b assms by (simp add: fat_kept_def) (simp add: tiny_tree_def dir_mark_bytes(1) b)
qed

lemma tiny_tree_entries:
  assumes "length e = 32"
  shows "dir_entries (tiny_tree e) [] = dir_mark [0x41] 2 # replicate 3 (replicate 32 0)" "node_entries (tiny_tree e) [] = 4"
    "dir_entries (tiny_tree e) [2, 4] = dir_mark [0x2e] 2 # dir_mark [0x2e, 0x2e] 0 # e # replicate 5 (replicate 32 0)" "node_entries (tiny_tree e) [2, 4] = 8"
proof -
  note G = geometryD[OF tiny_tree_blocks(8)[OF assms]] tiny_disk0_simps and B = tiny_tree_blocks[OF assms]
  show n: "node_entries (tiny_tree e) [] = 4" "node_entries (tiny_tree e) [2, 4] = 8" by (simp_all add: node_entries_def node_sectors_def entries_per_block_def G)
  have u: "[0..<4::nat] = [0, 1, 2, 3]" "[0..<8::nat] = [0, 1, 2, 3, 4, 5, 6, 7]" by (simp_all add: upt_conv_Cons)
  have p: "node_ptr (tiny_tree e) [] i = (3 + i div 2, (i mod 2) * 32)" for i
    by (simp add: node_ptr_def node_block_def entries_per_block_def G)
  have q: "node_ptr (tiny_tree e) [2, 4] i = (5 + ([2, 4] ! (i div 4) - 2) * 2 + i div 2 mod 2, (i mod 2) * 32)" for i
    by (simp add: node_ptr_def node_block_def entries_per_block_def G div_mult2_eq[of i 2 2, symmetric])
  have r: "replicate 3 x = [x, x, x]" "replicate 5 x = [x, x, x, x, x]" for x :: block by (simp_all add: numeral_eq_Suc)
  show "dir_entries (tiny_tree e) [] = dir_mark [0x41] 2 # replicate 3 (replicate 32 0)"
    unfolding dir_entries_def n u by (simp add: dir_entry_def entry_data_def p block_data_def B dir_mark_bytes r)
  show "dir_entries (tiny_tree e) [2, 4] = dir_mark [0x2e] 2 # dir_mark [0x2e, 0x2e] 0 # e # replicate 5 (replicate 32 0)"
    unfolding dir_entries_def n u by (simp add: dir_entry_def entry_data_def q block_data_def B dir_mark_bytes r assms)
qed

lemma parse_mark:
  assumes "short \<in> {[0x41], [0x2e], [0x2e, 0x2e], [0x42]}" "drop i es = dir_mark short c # rest"
  shows "parse_dirent (with_encodings clock env) vol es i 512 = Some (Inr (entry_info vol i i (dir_mark short c), short))"
  using dir_mark_bytes(2-5)[OF assms(1)] dir_mark_name[OF assms(1)]
  by (simp add: parse_dirent_def assms(2) parse_name_def no_lfn_def with_encodings_simps)

lemma listing_mark:
  assumes "short \<in> {[0x41], [0x2e], [0x2e, 0x2e], [0x42]}" "drop i es = dir_mark short c # rest"
    and "listing (with_encodings clock env) vol es (i + 1) = Some fs"
  shows "listing (with_encodings clock env) vol es i = Some ((entry_info vol i i (dir_mark short c), short) # fs)"
  using assms(3) by (subst listing.simps) (simp add: parse_mark[OF assms(1,2)] entry_info_def)

text \<open>The directory \<open>A\<close> in core, for every id; nobody holds it.\<close>

definition tiny_sub :: "ino_t \<Rightarrow> vnode" where
  "tiny_sub v = tiny_vnode\<lparr>vn_vnid := v, vn_dir_vnid := 1, vn_cluster := 2, vn_end_cluster := 4, vn_mode := FAT_SUBDIR, vn_st_size := 256\<rparr>"

definition tiny_tree_core :: "block \<Rightarrow> mount" where
  "tiny_tree_core e = \<lparr>mt_vol = tiny_tree e, mt_nodes = (\<lambda>v. Some \<lparr>cn_node = tiny_sub v, cn_refs = 0, cn_removed = False\<rparr>)\<rparr>"

lemma tiny_tree_files:
  fixes e :: block and clock :: "nat \<Rightarrow> nat"
  assumes "length e = 32"
  defines "env \<equiv> with_encodings clock tiny_env" and "f \<equiv> (entry_info (tiny_tree e) 0 0 (dir_mark [0x41] 2), [0x41])"
  shows "dir_has_files env 1 [] (tiny_tree e) [f]" "\<not> is_label (tiny_tree e) dir f" "fat_chain (tiny_tree e) [2, 4]" "vol_ok (tiny_tree e)"
    "di_cluster (fst f) = 2" "di_sindex (fst f) = 0" "di_eindex (fst f) = 0" "IS_DATA_CLUSTER (tiny_tree e) 2"
proof -
  note B = tiny_tree_blocks[OF assms(1)] and E = tiny_tree_entries[OF assms(1)] and G = geometryD[OF tiny_tree_blocks(8)[OF assms(1)]] tiny_disk0_simps
  show ok: "vol_ok (tiny_tree e)" using fat_kept_ok(2)[OF B(7)] tiny_disk_ok(2) by simp
  show "fat_chain (tiny_tree e) [2, 4]" using tiny_disk_ok(3) unfolding fat_kept_chain(1)[OF B(7) vol_okD(1)[OF tiny_disk_ok(2)]] .
  have "drop (0 + 1) (dir_entries (tiny_tree e) []) = replicate 3 (replicate 0x20 0)" by (simp add: E(1))
  from listing_mark[OF _ _ listing_zeros[OF this], of "[0x41]" 2]
  have "listing env (tiny_tree e) (dir_entries (tiny_tree e) []) 0 = Some [f]" by (simp add: E(1) env_def f_def)
  moreover have "dir_ok (tiny_tree e) 1 []" using ok E(2) by (simp add: dir_ok_def node_layout_def G)
  ultimately show "dir_has_files env 1 [] (tiny_tree e) [f]" by (simp add: dir_has_files_def dir_state_def E(2)) (simp add: f_def entry_info_def)
  show "\<not> is_label (tiny_tree e) dir f" by (simp add: is_label_def f_def entry_info_def dir_mark_bytes FAT_VOLUME_def)
  show "di_cluster (fst f) = 2" "di_sindex (fst f) = 0" "di_eindex (fst f) = 0" "IS_DATA_CLUSTER (tiny_tree e) 2"
    by (simp_all add: f_def entry_info_def dir_mark_bytes G IS_DATA_CLUSTER_def)
qed

lemma tiny_tree_sub:
  shows "dir_lists (with_encodings clock tiny_env) (tiny_tree (dir_mark [0x42] 0)) (tiny_sub v) [2, 4]
      [(entry_info (tiny_tree (dir_mark [0x42] 0)) 0 0 (dir_mark [0x2e] 2), dot), (entry_info (tiny_tree (dir_mark [0x42] 0)) 1 1 (dir_mark [0x2e, 0x2e] 0), dotdot),
       (entry_info (tiny_tree (dir_mark [0x42] 0)) 2 2 (dir_mark [0x42] 0), [0x42])]"
    "dir_lists (with_encodings clock tiny_env) (tiny_tree (replicate 32 0)) (tiny_sub v) [2, 4]
      [(entry_info (tiny_tree (replicate 32 0)) 0 0 (dir_mark [0x2e] 2), dot), (entry_info (tiny_tree (replicate 32 0)) 1 1 (dir_mark [0x2e, 0x2e] 0), dotdot)]"
proof -
  have o: "dir_ok (tiny_tree e) (vn_cluster (tiny_sub v)) [2, 4]" if "length e = 32" for e
    using tiny_tree_files(3,4)[OF that] tiny_tree_entries(4)[OF that] by (simp add: dir_ok_def node_layout_def tiny_sub_def)
  let ?e = "dir_mark [0x42] 0" let ?z = "replicate 32 0 :: block"
  have l: "length ?e = 32" "length ?z = 32" by (simp_all add: dir_mark_bytes)
  note E = tiny_tree_entries(3,4)[OF l(1)] and Z = tiny_tree_entries(3,4)[OF l(2)]
  have e3: "drop (0 + 1 + 1 + 1) (dir_entries (tiny_tree ?e) [2, 4]) = replicate 5 (replicate 0x20 0)" by (simp add: E(1))
  have z2: "drop (0 + 1 + 1) (dir_entries (tiny_tree ?z) [2, 4]) = ?z # replicate 5 ?z" by (simp add: Z(1))
  note L = listing_mark[OF _ _ listing_mark[OF _ _ listing_mark[OF _ _ listing_zeros[OF e3]]], of "[0x2e]" 2 _ "[0x2e, 0x2e]" 0 _ "[0x42]" 0]
    and M = listing_mark[OF _ _ listing_mark[OF _ _ listing_zeros[of _ _ "Suc 5", OF z2[folded replicate_Suc]]], of "[0x2e]" 2 _ "[0x2e, 0x2e]" 0]
  show "dir_lists (with_encodings clock tiny_env) (tiny_tree ?e) (tiny_sub v) [2, 4]
      [(entry_info (tiny_tree ?e) 0 0 (dir_mark [0x2e] 2), dot), (entry_info (tiny_tree ?e) 1 1 (dir_mark [0x2e, 0x2e] 0), dotdot),
       (entry_info (tiny_tree ?e) 2 2 ?e, [0x42])]"
    using o[OF l(1)] L E by (simp add: dir_lists_def dot_def dotdot_def numeral_2_eq_2)
  show "dir_lists (with_encodings clock tiny_env) (tiny_tree ?z) (tiny_sub v) [2, 4]
      [(entry_info (tiny_tree ?z) 0 0 (dir_mark [0x2e] 2), dot), (entry_info (tiny_tree ?z) 1 1 (dir_mark [0x2e, 0x2e] 0), dotdot)]"
    using o[OF l(2)] M Z by (simp add: dir_lists_def dot_def dotdot_def)
qed

lemma tiny_tree_id:
  assumes "length e = 32" "ids_grow k (tiny_tree e) vol1" "file_vnid vol1 (root_vnode (tiny_tree e)) f v" "fst f = entry_info (tiny_tree e) 0 0 (dir_mark [0x41] 2)"
    "snd f = [0x41]"
  shows "v \<noteq> 1"
proof
  assume "v = 1"
  have sd: "same_disk (tiny_tree e) vol1" using assms(2) by (simp add: ids_grow_def)
  have r: "vn_vnid (root_vnode (tiny_tree e)) = 1" "vol_vcache (tiny_tree e) = vol_vcache tiny_dir" by (simp_all add: tiny_tree_def)
  have "vmap (vol_vcache vol1) 1 = vmap (vol_vcache (tiny_tree e)) 1" using assms(2) tiny_not_new by (simp add: ids_grow_def)
  also have "\<dots> = None" by (simp add: r(2) vmap_def find_vnid_in_vcache_def vhash_def tiny_dir_def)
  finally have "file_loc vol1 (root_vnode (tiny_tree e)) (fst f) = 1"
    using assms(3,5) \<open>v = 1\<close> by (simp add: file_vnid_def vloc_def dot_def dotdot_def)
  then have "file_loc (tiny_tree e) (root_vnode (tiny_tree e)) (fst f) = 1" by (simp add: same_disk_parse(5)[OF sd])
  then have "GENERATE_DIR_CLUSTER_VNID 1 2 = 1" using tiny_tree_files(5,8)[OF assms(1)] by (simp add: file_loc_def assms(4) r(1))
  moreover have "GENERATE_DIR_CLUSTER_VNID 1 2 \<noteq> 1" by code_simp
  ultimately show False by simp
qed

lemma tiny_tree_core:
  fixes e :: block
  assumes "length e = 32"
  shows "mt_vol (tiny_tree_core e) = tiny_tree e" "mt_root (tiny_tree_core e) = 1" "node_of (tiny_tree_core e) 1 = root_vnode (tiny_tree e)"
    "node_at (tiny_tree_core e) 1 \<noteq> None" "vn_cluster (root_vnode (tiny_tree e)) = 1" "vn_vnid (root_vnode (tiny_tree e)) = 1"
    "vnids_ok (node_entries (tiny_tree e) [] + 1) (vol_vcache (tiny_tree e))" "CLUSTER_OF_DIR_CLUSTER_VNID 1 < 2 ^ 28" "no_sync (tiny_tree e)"
    "env_ok (with_encodings clock tiny_env)"
proof -
  show r: "mt_vol (tiny_tree_core e) = tiny_tree e" "mt_root (tiny_tree_core e) = 1" "vn_cluster (root_vnode (tiny_tree e)) = 1" "vn_vnid (root_vnode (tiny_tree e)) = 1"
    by (simp_all add: tiny_tree_core_def mt_root_def tiny_tree_def)
  show "node_of (tiny_tree_core e) 1 = root_vnode (tiny_tree e)" "node_at (tiny_tree_core e) 1 \<noteq> None"
    using r(1,2) by (simp_all add: node_of_def node_at_def)
  show "vnids_ok (node_entries (tiny_tree e) [] + 1) (vol_vcache (tiny_tree e))" using tiny_dir_ok(3) tiny_tree_entries(2)[OF assms] by (simp add: tiny_tree_def)
  show "CLUSTER_OF_DIR_CLUSTER_VNID 1 < 2 ^ 28" by (simp add: CLUSTER_OF_DIR_CLUSTER_VNID_def)
  show "no_sync (tiny_tree e)" using tiny_tree_blocks(9,10)[OF assms] by (simp add: no_sync_def) (simp add: tiny_tree_def)
  show "env_ok (with_encodings clock tiny_env)" using tiny_dir_ok(4) by (simp add: with_encodings_simps)
qed

text \<open>With a file \<open>B\<close> in the directory, it is not empty; the table of vnodes is as before.\<close>

theorem rmdir_only_empty_witness:
  "\<exists>vol1. dosfs_rmdir (with_encodings (\<lambda>k. k) tiny_env) (tiny_tree_core (dir_mark [0x42] 0)) 1 [0x41]
     = (ENOTEMPTY, (tiny_tree_core (dir_mark [0x42] 0))\<lparr>mt_vol := vol1\<rparr>) \<and> same_disk (tiny_tree (dir_mark [0x42] 0)) vol1"
proof -
  let ?e = "dir_mark [0x42] 0" and ?env = "with_encodings (\<lambda>k. k) tiny_env"
  let ?mt = "tiny_tree_core ?e" and ?f = "(entry_info (tiny_tree ?e) 0 0 (dir_mark [0x41] 2), [0x41::u8])"
  have l: "length ?e = 32" by (simp add: dir_mark_bytes)
  note C = tiny_tree_core[OF l] and F = tiny_tree_files[OF l]
  have h: "dir_has_files ?env (vn_cluster (node_of ?mt 1)) [] (mt_vol ?mt) ([] @ ?f # [])" "\<not> is_label (mt_vol ?mt) (node_of ?mt 1) ?f"
    "vnids_ok (node_entries (mt_vol ?mt) [] + 1) (vol_vcache (mt_vol ?mt))" "CLUSTER_OF_DIR_CLUSTER_VNID (vn_vnid (node_of ?mt 1)) < 2 ^ 28"
    "vol_flags (mt_vol ?mt) AND B_FS_IS_READONLY = 0" "[0x41] \<noteq> dot" "[0x41] \<noteq> dotdot"
    using F(1,2) C tiny_tree_blocks(9)[OF l] by (simp_all add: dot_def dotdot_def)
  have s: "snd ?f = [0x41]" "\<forall>g \<in> set []. is_label (mt_vol ?mt) (node_of ?mt 1) g \<or> snd g \<noteq> [0x41]" by simp_all
  obtain v vol1 where v: "findfile_case ?env (mt_vol ?mt) (node_of ?mt 1) [0x41] = (Inr v, False, vol1)" "same_disk (mt_vol ?mt) vol1" "file_vnid vol1 (node_of ?mt 1) ?f v"
    and R: "\<And>c ks es. core_or_disk ?env ?mt vol1 (node_of ?mt 1) [] [] ?f v c \<and> \<not> cn_removed c \<and> v \<noteq> mt_root ?mt \<and> vn_vnid (cn_node c) = v \<and> vn_disk_image (cn_node c) = 0
      \<Longrightarrow> vn_mode (cn_node c) AND FAT_SUBDIR \<noteq> 0 \<and> dir_lists ?env (mt_vol ?mt) (cn_node c) ks es \<and> \<not> only_dots es
      \<Longrightarrow> \<exists>e \<in> {ENOTEMPTY, ENOTDIR, ENOENT}. dosfs_rmdir ?env ?mt 1 [0x41] = (e, ?mt\<lparr>mt_vol := vol1, mt_nodes := (mt_nodes ?mt)(v \<mapsto> c)\<rparr>)
           \<and> ((\<exists>p q r rs. es = p # q # r # rs \<and> first_two 0 p \<and> first_two 1 q) \<longrightarrow> e = ENOTEMPTY)"
    using rmdir_only_empty[OF h(1) s(1) h(2) s(2) h(6,7,3) C(10) h(4,5)] unfolding Let_def by blast
  obtain v' vol2 where "findfile ?env (mt_vol ?mt) (node_of ?mt 1) [0x41] True False = (Inr v', False, vol2)" "ids_grow 0 (mt_vol ?mt) vol2"
    by (rule findfile_first[OF h(1) _ h(2) _ h(6,7,3) C(10) h(4)]) auto
  then have g: "ids_grow 0 (tiny_tree ?e) vol1" using v(1) by (simp add: findfile_case_def C(1))
  have v1: "v \<noteq> 1" by (rule tiny_tree_id[OF l g v(3)[unfolded C(3)]]) simp_all
  let ?c = "\<lparr>cn_node = tiny_sub v, cn_refs = 0, cn_removed = False\<rparr>"
  have n: "mt_nodes ?mt v = Some ?c" by (simp add: tiny_tree_core_def)
  let ?es = "[(entry_info (tiny_tree ?e) 0 0 (dir_mark [0x2e] 2), dot), (entry_info (tiny_tree ?e) 1 1 (dir_mark [0x2e, 0x2e] 0), dotdot),
    (entry_info (tiny_tree ?e) 2 2 ?e, [0x42])]"
  have a: "core_or_disk ?env ?mt vol1 (node_of ?mt 1) [] [] ?f v ?c \<and> \<not> cn_removed ?c \<and> v \<noteq> mt_root ?mt \<and> vn_vnid (cn_node ?c) = v \<and> vn_disk_image (cn_node ?c) = 0"
    using n v1 C(2) by (simp add: core_or_disk_def tiny_sub_def tiny_vnode_def)
  have b: "vn_mode (cn_node ?c) AND FAT_SUBDIR \<noteq> 0 \<and> dir_lists ?env (mt_vol ?mt) (cn_node ?c) [2, 4] ?es \<and> \<not> only_dots ?es"
    using tiny_tree_sub(1)[of "\<lambda>k. k" v] C(1) by (simp add: only_dots_def tiny_sub_def FAT_SUBDIR_def)
  obtain x where x: "dosfs_rmdir ?env ?mt 1 [0x41] = (x, ?mt\<lparr>mt_vol := vol1, mt_nodes := (mt_nodes ?mt)(v \<mapsto> ?c)\<rparr>)"
    "(\<exists>p q r rs. ?es = p # q # r # rs \<and> first_two 0 p \<and> first_two 1 q) \<longrightarrow> x = ENOTEMPTY" using R[OF a b] by blast
  have "\<exists>p q r rs. ?es = p # q # r # rs \<and> first_two 0 p \<and> first_two 1 q" by (simp add: first_two_def entry_info_def)
  then have "dosfs_rmdir ?env ?mt 1 [0x41] = (ENOTEMPTY, ?mt\<lparr>mt_vol := vol1, mt_nodes := (mt_nodes ?mt)(v \<mapsto> ?c)\<rparr>)"
    using x by simp
  moreover have "(mt_nodes ?mt)(v \<mapsto> ?c) = mt_nodes ?mt" using n by (rule fun_upd_idem)
  ultimately show ?thesis using v(2) C(1) by auto
qed

text \<open>Without it, the directory is removed.\<close>

theorem rmdir_removes_empty_witness:
  "\<exists>mt'. dosfs_rmdir (with_encodings (\<lambda>k. k) tiny_env) (tiny_tree_core (replicate 32 0)) 1 [0x41] = (0, mt')
     \<and> mt_dir (with_encodings (\<lambda>k. k) tiny_env) mt' 1 [] [] \<and> get_fat_entry (mt_vol mt') 2 = 0 \<and> get_fat_entry (mt_vol mt') 4 = 0"
proof -
  let ?e = "replicate 32 0 :: block" and ?env = "with_encodings (\<lambda>k. k) tiny_env"
  let ?mt = "tiny_tree_core ?e" and ?f = "(entry_info (tiny_tree ?e) 0 0 (dir_mark [0x41] 2), [0x41::u8])"
  have l: "length ?e = 32" by simp
  note C = tiny_tree_core[OF l] and F = tiny_tree_files[OF l]
  have h: "dir_has_files ?env (vn_cluster (node_of ?mt 1)) [] (mt_vol ?mt) ([] @ ?f # [])" "\<not> is_label (mt_vol ?mt) (node_of ?mt 1) ?f"
    "vnids_ok (node_entries (mt_vol ?mt) [] + 1) (vol_vcache (mt_vol ?mt))" "CLUSTER_OF_DIR_CLUSTER_VNID (vn_vnid (node_of ?mt 1)) < 2 ^ 28"
    "[0x41] \<noteq> dot" "[0x41] \<noteq> dotdot" "vn_vnid (node_of ?mt 1) = 1" "no_sync (mt_vol ?mt)"
    using F(1,2) C by (simp_all add: dot_def dotdot_def)
  have d: "mt_dir ?env ?mt 1 [] ([] @ ?f # [])" using h(1) C(4) by (simp add: mt_dir_def dir_core_def)
  have s: "snd ?f = [0x41]" "\<forall>g \<in> set []. is_label (mt_vol ?mt) (node_of ?mt 1) g \<or> snd g \<noteq> [0x41]"
    "[] @ [] = [] \<or> \<not> is_label (mt_vol ?mt) (node_of ?mt 1) (last ([] @ []))" by simp_all
  obtain v vol1 where v: "findfile_case ?env (mt_vol ?mt) (node_of ?mt 1) [0x41] = (Inr v, False, vol1)" "file_vnid vol1 (node_of ?mt 1) ?f v"
    and R: "\<And>c ks es. core_or_disk ?env ?mt vol1 (node_of ?mt 1) [] [] ?f v c \<and> v \<noteq> 1 \<and> v \<noteq> mt_root ?mt
          \<and> core_file (mt_vol ?mt) (node_of ?mt 1) ?f v (cn_node c) ks \<and> set ks \<inter> set [] = {}
          \<and> vn_mode (cn_node c) AND FAT_SUBDIR \<noteq> 0 \<and> vn_disk_image (cn_node c) = 0 \<and> dir_lists ?env (mt_vol ?mt) (cn_node c) ks es \<and> only_dots es
        \<Longrightarrow> \<exists>mt'. dosfs_rmdir ?env ?mt 1 [0x41] = (0, mt') \<and> mt_dir ?env mt' 1 (take (needed_clusters (mt_vol ?mt) ([] @ [])) []) ([] @ [])
             \<and> (if cn_refs c = 0 then mt_nodes mt' v = None \<and> (\<forall>k \<in> set ks. get_fat_entry (mt_vol mt') k = 0)
                else mt_nodes mt' v = Some (c\<lparr>cn_removed := True\<rparr>) \<and> node_clusters (mt_vol mt') (cn_node c) ks)"
    using rmdir_removes_empty[OF d h(7,8) s(1) h(2) s(2,3) h(5,6,3) C(10,8)] by blast
  obtain v' vol2 where "findfile ?env (mt_vol ?mt) (node_of ?mt 1) [0x41] True False = (Inr v', False, vol2)" "ids_grow 0 (mt_vol ?mt) vol2"
    by (rule findfile_first[OF h(1) _ h(2) _ h(5,6,3) C(10) h(4)]) auto
  then have g: "ids_grow 0 (tiny_tree ?e) vol1" using v(1) by (simp add: findfile_case_def C(1))
  have v1: "v \<noteq> 1" by (rule tiny_tree_id[OF l g v(2)[unfolded C(3)]]) simp_all
  let ?c = "\<lparr>cn_node = tiny_sub v, cn_refs = 0, cn_removed = False\<rparr>"
  have c: "core_or_disk ?env ?mt vol1 (node_of ?mt 1) [] [] ?f v ?c" by (simp add: core_or_disk_def tiny_tree_core_def)
  have k: "core_file (mt_vol ?mt) (node_of ?mt 1) ?f v (cn_node ?c) [2, 4]"
    using F(3) C by (simp add: core_file_def node_clusters_def tiny_sub_def tiny_vnode_def entry_info_def VNODE_PARENT_DIR_CLUSTER_def CLUSTER_OF_DIR_CLUSTER_VNID_def)
  show ?thesis
    using R[of ?c "[2, 4]" "[(entry_info (tiny_tree ?e) 0 0 (dir_mark [0x2e] 2), dot), (entry_info (tiny_tree ?e) 1 1 (dir_mark [0x2e, 0x2e] 0), dotdot)]"]
      c k v1 C(1,2) tiny_tree_sub(2)[of "\<lambda>k. k" v]
    by (auto simp: tiny_sub_def tiny_vnode_def FAT_SUBDIR_def only_dots_def first_two_def entry_info_def)
qed

end
