(* ===== verification/Mount.thy ===== *)
theory Mount
  imports Name_Ops
begin

text \<open>
  Mounting and identifying volumes, the volume's label and statistics: \<^verbatim>\<open>fat/dosfs.c\<close>.

  A device gives the bytes at a position or the value that \<^verbatim>\<open>read_pos\<close> returns when they are not all there. Opening the
  device, its geometry and the driver settings are arguments. The block cache that is created gives the sectors of the device. Strings
  are arrays of bytes with the terminator where the code uses them as arrays.
\<close>

section \<open>Definitions\<close>

type_synonym device = "nat \<Rightarrow> nat \<Rightarrow> status_t + block"

record device_geometry =
  geo_bytes_per_sector :: nat
  sectors_per_track :: nat
  cylinder_count :: nat
  head_count :: nat
  geo_removable :: bool
  geo_read_only :: bool

subsection \<open>The label in the boot sector\<close>

text \<open>The loop from \<open>index\<close> down to 1.\<close>

fun trim_loop :: "nat \<Rightarrow> block \<Rightarrow> block" where
  "trim_loop 0 label = label"
| "trim_loop (Suc i) label = (if label ! Suc i = 0x20 then trim_loop i (label[Suc i := 0]) else label)"

definition dosfs_trim_spaces :: "block \<Rightarrow> block" where
  "dosfs_trim_spaces label = trim_loop 10 label"

definition dosfs_read_label :: "bool \<Rightarrow> block \<Rightarrow> block \<Rightarrow> bool \<times> block" where
  "dosfs_read_label fat32 buffer label =
     (let check = (if fat32 then 0x42 else 0x29); offset = (if fat32 then 0x47 else 0x2b)
      in if buffer ! check = 0x29 \<and> take 11 (drop offset buffer) \<noteq> replicate 11 0x20
         then (True, dosfs_trim_spaces (memcpy_at label 0 (take 11 (drop offset buffer))))
         else (False, label))"

subsection \<open>The boot sector\<close>

text \<open>A structure of zeros.\<close>

definition zero_vnode :: vnode where
  "zero_vnode = \<lparr>vn_vnid = 0, vn_dir_vnid = 0, vn_disk_image = 0, vn_iteration = 0, vn_sindex = 0, vn_eindex = 0, vn_cluster = 0,
     vn_mode = 0, vn_st_size = 0, vn_st_time = 0, vn_end_cluster = 0, vn_mime = None, vn_dirty = False, vn_filename = None, vn_cache = False\<rparr>"

definition zero_nspace :: nspace where
  "zero_nspace = \<lparr>vol_id = 0, vol_flags = 0, fBlockCache = (\<lambda>bn. None), bytes_per_sector = 0, sectors_per_cluster = 0, reserved_sectors = 0,
     fat_count = 0, root_entries_count = 0, total_sectors = 0, sectors_per_fat = 0, media_descriptor = 0, fsinfo_sector = 0,
     total_clusters = 0, free_clusters = 0, fat_bits = 0, fat_mirrored = False, active_fat = 0, root_start = 0, root_sectors = 0,
     root_vnode = zero_vnode, vol_entry = 0, vol_label = replicate 12 0, data_start = 0, last_allocated = 0, beos_vnid = 0,
     respect_disk_image = False, fs_flags = 0,
     vol_vcache = \<lparr>cur_vnid = 0, cache_size = 0, by_vnid = [], by_loc = []\<rparr>,
     vol_dlist = \<lparr>dl_entries = 0, dl_allocated = 0, vnid_list = []\<rparr>, fault = False\<rparr>"

text \<open>The tests that \<^verbatim>\<open>volume_init\<close> and \<^verbatim>\<open>dosfs_identify_partition\<close> share.\<close>

definition boot_signature_ok :: "block \<Rightarrow> bool" where
  "boot_signature_ok buf \<longleftrightarrow>
     \<not> ((buf ! 0x1fe \<noteq> 0x55 \<or> buf ! 0x1ff \<noteq> 0xaa) \<and> buf ! 0x15 = 0xf8)
     \<and> \<not> (take 8 (drop 3 buf) = name_of ''NTFS    '' \<or> take 8 (drop 3 buf) = name_of ''HPFS    '')"

definition bpb_ok :: "block \<Rightarrow> bool" where
  "bpb_ok buf \<longleftrightarrow> read16 buf 0xb \<in> {0x200, 0x400, 0x800, 0x1000}
     \<and> buf ! 0xd \<in> {1, 2, 4, 8, 0x10, 0x20, 0x40, 0x80}
     \<and> \<not> (buf ! 0x10 = 0 \<or> buf ! 0x10 > 8)
     \<and> \<not> (buf ! 0x15 \<noteq> 0xf0 \<and> buf ! 0x15 < 0xf8)"

definition no_name :: block where
  "no_name = name_of ''no name'' @ [0]"

text \<open>The fields that all volumes have.\<close>

definition init_common :: "block \<Rightarrow> nat \<Rightarrow> nat \<Rightarrow> nspace" where
  "init_common buf flags fsflags =
     zero_nspace\<lparr>vol_flags := flags, fs_flags := fsflags, bytes_per_sector := read16 buf 0xb, sectors_per_cluster := unat (buf ! 0xd),
       reserved_sectors := read16 buf 0xe, fat_count := unat (buf ! 0x10), media_descriptor := buf ! 0x15, vol_entry := - 2,
       vol_label := memcpy_at (replicate 12 0) 0 no_name, sectors_per_fat := read16 buf 0x16\<rparr>"

definition set_label :: "bool \<Rightarrow> block \<Rightarrow> nspace \<Rightarrow> nspace" where
  "set_label fat32 buf vol =
     (case dosfs_read_label fat32 buf (vol_label vol) of (found, label) \<Rightarrow>
        if found then vol\<lparr>vol_label := label, vol_entry := - 1\<rparr> else vol)"

definition init_fat32 :: "block \<Rightarrow> nspace \<Rightarrow> nspace option" where
  "init_fat32 buf vol =
     (let vol = vol\<lparr>fat_bits := 32, sectors_per_fat := read32 buf 0x24, total_sectors := read32 buf 0x20, fsinfo_sector := read16 buf 0x30\<rparr>
      in if fsinfo_sector vol \<noteq> 0xffff \<and> fsinfo_sector vol \<ge> reserved_sectors vol then None
         else
           let vol = vol\<lparr>fat_mirrored := (buf ! 0x28 AND 0x80 = 0)\<rparr>;
               vol = vol\<lparr>active_fat := (if fat_mirrored vol then 0 else unat (buf ! 0x28 AND 0xf))\<rparr>;
               vol = vol\<lparr>data_start := u32 (reserved_sectors vol + fat_count vol * sectors_per_fat vol)\<rparr>;
               vol = vol\<lparr>total_clusters := u32_minus (total_sectors vol) (data_start vol) div sectors_per_cluster vol\<rparr>;
               vol = vol\<lparr>root_vnode := (root_vnode vol)\<lparr>vn_cluster := read32 buf 0x2c\<rparr>\<rparr>
           in if vn_cluster (root_vnode vol) \<ge> total_clusters vol then None
              else Some (set_label True buf vol))"

definition bogus_zip_data :: block where
  "bogus_zip_data = [0x00, 0x02, 0x04, 0x01, 0x00, 0x02, 0x00, 0x02, 0x00, 0x00, 0xf8, 0xc0, 0x00, 0x20, 0x00, 0x40, 0x00, 0x20, 0x00, 0x00]"

definition init_fat16 :: "block \<Rightarrow> device_geometry option \<Rightarrow> nspace \<Rightarrow> nspace option" where
  "init_fat16 buf geo vol =
     (if fat_count vol \<noteq> 2 then None
      else
        let vol = vol\<lparr>root_entries_count := read16 buf 0x11\<rparr>
        in if root_entries_count vol mod (bytes_per_sector vol div 0x20) \<noteq> 0 then None
           else
             let vol = vol\<lparr>fsinfo_sector := 0xffff, total_sectors := (if read16 buf 0x13 = 0 then read32 buf 0x20 else read16 buf 0x13)\<rparr>;
                 vol = (case geo of
                          None \<Rightarrow> vol
                        | Some g \<Rightarrow>
                            if take 20 (drop 0x0b buf) = bogus_zip_data \<and> total_sectors vol = 196576
                              \<and> sectors_per_track g * cylinder_count g * head_count g = 196192
                            then vol\<lparr>total_sectors := 196192\<rparr> else vol);
                 vol = vol\<lparr>fat_mirrored := True, active_fat := 0, root_start := u32 (reserved_sectors vol + fat_count vol * sectors_per_fat vol),
                           root_sectors := root_entries_count vol * 0x20 div bytes_per_sector vol\<rparr>;
                 vol = vol\<lparr>root_vnode := (root_vnode vol)\<lparr>vn_cluster := 1, vn_end_cluster := 1,
                             vn_st_size := int (root_sectors vol * bytes_per_sector vol)\<rparr>,
                           data_start := u32 (root_start vol + root_sectors vol)\<rparr>;
                 vol = vol\<lparr>total_clusters := u32_minus (total_sectors vol) (data_start vol) div sectors_per_cluster vol\<rparr>;
                 vol = vol\<lparr>fat_bits := (if total_clusters vol > 0xff1 then 16 else 12)\<rparr>
             in Some (set_label False buf vol))"

text \<open>The first byte of the \<open>i\<close>-th table is the media descriptor.\<close>

definition media_ok :: "device \<Rightarrow> nspace \<Rightarrow> nat \<Rightarrow> bool" where
  "media_ok dev vol i =
     (case dev (u32 (bytes_per_sector vol * u32 (reserved_sectors vol + i * sectors_per_fat vol))) 0x200 of
        Inl err \<Rightarrow> False
      | Inr media_buf \<Rightarrow> media_buf ! 0 = media_descriptor vol)"

definition fats_ok :: "device \<Rightarrow> nspace \<Rightarrow> bool" where
  "fats_ok dev vol \<longleftrightarrow> media_ok dev vol (active_fat vol)
     \<and> (fat_mirrored vol \<longrightarrow> (\<forall>i \<in> set [0..<fat_count vol]. i \<noteq> active_fat vol \<longrightarrow> media_ok dev vol i))"

text \<open>The sectors that the new block cache gives. Whether it can be created is in the environment.\<close>

definition block_cache_create :: "device \<Rightarrow> nat \<Rightarrow> nat \<Rightarrow> nat \<Rightarrow> block option" where
  "block_cache_create dev num_blocks block_size bn =
     (if bn < num_blocks then case dev (bn * block_size) block_size of Inl err \<Rightarrow> None | Inr b \<Rightarrow> Some b else None)"

text \<open>The search for the entry of a volume label in the root directory.\<close>

fun label_loop :: "nat \<Rightarrow> nspace \<Rightarrow> diri \<Rightarrow> ptr option \<Rightarrow> nspace" where
  "label_loop 0 vol diri buffer = vol\<lparr>fault := True\<rparr>"
| "label_loop (Suc k) vol diri None = vol"
| "label_loop (Suc k) vol diri (Some p) =
     (let buffer = entry_data vol p
      in if unat (buffer ! 0x0b) AND FAT_VOLUME \<noteq> 0 \<and> buffer ! 0x0b \<noteq> 0xf \<and> buffer ! 0 \<noteq> 0xe5 then
           vol\<lparr>vol_entry := s32 (int (current_index diri)), vol_label := dosfs_trim_spaces (memcpy_at (vol_label vol) 0 (take 11 buffer))\<rparr>
         else case diri_next_entry vol diri of (q, diri) \<Rightarrow> label_loop k vol diri q)"

text \<open>The label that makes a volume read-only.\<close>

definition ro_label :: block where
  "ro_label = name_of ''__RO__     ''"

definition ro_trick :: "nspace \<Rightarrow> nspace" where
  "ro_trick vol = (if take 11 (vol_label vol) = ro_label then vol\<lparr>vol_flags := vol_flags vol OR B_FS_IS_READONLY\<rparr> else vol)"

definition volume_init :: "env \<Rightarrow> device \<Rightarrow> block \<Rightarrow> nat \<Rightarrow> nat \<Rightarrow> device_geometry option \<Rightarrow> nspace option" where
  "volume_init env dev buf flags fsflags geo =
     (if \<not> env_mem env then None
      else if \<not> boot_signature_ok buf then None
      else if \<not> bpb_ok buf then None
      else
        let vol = init_common buf flags fsflags
        in case (if sectors_per_fat vol = 0 then init_fat32 buf vol else init_fat16 buf geo vol) of
             None \<Rightarrow> None
           | Some vol \<Rightarrow>
               if \<not> fats_ok dev vol then None
               else if \<not> env_block_cache env then None
               else
                 let vol = vol\<lparr>last_allocated := 2, beos_vnid := INVALID_VNID_BITS_MASK,
                               fBlockCache := block_cache_create dev (total_sectors vol) (bytes_per_sector vol)\<rparr>;
                     (buffer, diri) = diri_init vol (vn_cluster (root_vnode vol)) 0 new_diri
                 in Some (ro_trick (label_loop (dir_fuel vol) vol diri buffer)))"

subsection \<open>Mounting\<close>

definition B_FS_IS_PERSISTENT :: nat where "B_FS_IS_PERSISTENT = 4"
definition B_FS_HAS_MIME :: nat where "B_FS_HAS_MIME = 0x10000"

text \<open>The root vnode of a volume whose caches are there.\<close>

definition init_root :: "env \<Rightarrow> nspace \<Rightarrow> nspace" where
  "init_root env vol =
     (let root = root_vnode vol; c = vn_cluster root;
          root = (if fat_bits vol = 32 then
                    let sz = int (u32 (u32 (count_clusters vol (s32 (int c)) * bytes_per_sector vol) * sectors_per_cluster vol))
                    in root\<lparr>vn_st_size := sz,
                            vn_end_cluster := u32_of_int (get_nth_fat_entry vol (s32 (int c))
                              (u32_of_int ((sz sdiv int (bytes_per_sector vol)) sdiv int (sectors_per_cluster vol) - 1)))\<rparr>
                  else root);
          vnid = GENERATE_DIR_CLUSTER_VNID (word_of_nat c) c;
          root = root\<lparr>vn_vnid := vnid, vn_dir_vnid := vnid, vn_sindex := 0xffffffff, vn_eindex := 0xffffffff, vn_mode := FAT_SUBDIR,
                      vn_st_time := env_time env, vn_mime := None, vn_dirty := False\<rparr>
      in vol\<lparr>root_vnode := root, vol_dlist := snd (dlist_add (env_vnid_mem env) (vol_dlist vol) vnid)\<rparr>)"

text \<open>The flags of the operations that are made synchronous.\<close>

definition sync_flags :: "nat \<Rightarrow> nat \<Rightarrow> int \<Rightarrow> nat" where
  "sync_flags vflags fsflags op_sync_mode =
     (let fsflags = and_not fsflags FS_FLAGS_OP_SYNC
      in if op_sync_mode = 1 \<and> vflags AND B_FS_IS_REMOVABLE = 0 then fsflags
         else if op_sync_mode = 1 \<or> op_sync_mode = 2 then fsflags OR FS_FLAGS_OP_SYNC
         else fsflags)"

text \<open>\<open>opens rw\<close> is what \<^verbatim>\<open>open\<close> returns for reading, and for reading and writing. \<open>geo\<close> is \<open>None\<close> when the device has no geometry and is no
  regular file. The last step of every error path turns a status that is no error into \<^verbatim>\<open>EINVAL\<close>.\<close>

definition mount_error :: "status_t \<Rightarrow> status_t" where
  "mount_error err = (if err \<ge> 0 then EINVAL else err)"

definition mount_fat_disk :: "env \<Rightarrow> (bool \<Rightarrow> int) \<Rightarrow> device_geometry option \<Rightarrow> device \<Rightarrow> int \<Rightarrow> bool \<Rightarrow> bool \<Rightarrow> nat \<Rightarrow> int \<Rightarrow> status_t + nspace" where
  "mount_fat_disk env opens geo dev dev_id read_only respect fsflags op_sync_mode =
     (if opens False < 0 then Inl (mount_error (opens False))
      else case geo of
             None \<Rightarrow> Inl EINVAL
           | Some g \<Rightarrow>
               if geo_bytes_per_sector g \<notin> {0x200, 0x400, 0x800, 0x1000} then Inl EINVAL
               else
                 let vflags = B_FS_IS_PERSISTENT OR B_FS_HAS_MIME;
                     vflags = (if geo_removable g then vflags OR B_FS_IS_REMOVABLE else vflags);
                     ro = geo_read_only g \<or> read_only;
                     vflags = (if ro then vflags OR B_FS_IS_READONLY else vflags)
                 in if \<not> ro \<and> opens True < 0 then Inl (mount_error (opens True))
                    else
                      let fsflags = sync_flags vflags fsflags op_sync_mode
                      in case dev 0 512 of
                           Inl err \<Rightarrow> Inl (mount_error err)
                         | Inr buf \<Rightarrow>
                             (case volume_init env dev buf vflags fsflags (Some g) of
                                None \<Rightarrow> Inl B_ERROR
                              | Some vol \<Rightarrow>
                                  if total_sectors vol > u32 (u32 (sectors_per_track g * cylinder_count g) * head_count g) then Inl B_PARTITION_TOO_SMALL
                                  else
                                    let vol = vol\<lparr>vol_id := dev_id, respect_disk_image := respect\<rparr>
                                    in case init_vcache (env_mem env) (env_mem env) (vol_vcache vol) of (result, vc) \<Rightarrow>
                                         if result \<noteq> B_OK then Inl EINVAL
                                         else case dlist_init (env_vnid_mem env) (vol_dlist vol) of (result, dl) \<Rightarrow>
                                           if result \<noteq> B_OK then Inl EINVAL
                                           else
                                             let vol = vol\<lparr>vol_vcache := vc, vol_dlist := dl\<rparr>
                                             in Inr (ro_trick (init_root env (volume_count_free_cluster vol)))))"

text \<open>\<open>settings\<close> are the value of \<^verbatim>\<open>op_sync_mode\<close> and whether \<^verbatim>\<open>lock_device\<close> is not \<^verbatim>\<open>false\<close>, when there is a settings file.\<close>

definition dosfs_mount :: "env \<Rightarrow> (bool \<Rightarrow> int) \<Rightarrow> device_geometry option \<Rightarrow> device \<Rightarrow> int \<Rightarrow> bool \<Rightarrow> bool \<Rightarrow> (int \<times> bool) option \<Rightarrow> status_t \<Rightarrow>
    status_t + mount" where
  "dosfs_mount env opens geo dev dev_id read_only respect settings published =
     (let (mode, lock) = (case settings of None \<Rightarrow> (0, False) | Some (m, l) \<Rightarrow> (if m < 0 \<or> m > 2 then 0 else m, l))
      in case mount_fat_disk env opens geo dev dev_id read_only respect (if lock then FS_FLAGS_LOCK_DOOR else 0) mode of
           Inl result \<Rightarrow> Inl result
         | Inr vol \<Rightarrow> if published \<noteq> B_OK then Inl EINVAL else Inr \<lparr>mt_vol = vol, mt_nodes = (\<lambda>vnid. None)\<rparr>)"

text \<open>Unmounting writes the counters; the result is what \<^verbatim>\<open>close\<close> returns, and the sectors that are written back.\<close>

definition dosfs_unmount :: "nspace \<Rightarrow> status_t \<Rightarrow> status_t \<times> (nat \<Rightarrow> block option)" where
  "dosfs_unmount vol closed = (closed, fBlockCache (update_fsinfo vol))"

subsection \<open>Identifying partitions\<close>

record identify_cookie =
  id_bytes_per_sector :: nat
  id_total_sectors :: nat
  id_name :: block

text \<open>\<^verbatim>\<open>strlcpy\<close> of a terminated string into an array, and the part of an array up to the terminator.\<close>

definition c_string :: "block \<Rightarrow> block" where
  "c_string b = takeWhile (\<lambda>c. c \<noteq> 0) b"

definition strlcpy_at :: "block \<Rightarrow> block \<Rightarrow> nat \<Rightarrow> block" where
  "strlcpy_at dst src n = (let s = take (n - 1) (c_string src) in memcpy_at dst 0 (s @ [0]))"

text \<open>\<open>stack\<close> are the twelve bytes of the array \<^verbatim>\<open>name\<close> before it is written. The result is \<open>None\<close> where the code stores behind the end of
  that array, and the cookie is missing where the function returns \<open>-1\<close>.\<close>

definition dosfs_identify_partition :: "env \<Rightarrow> device \<Rightarrow> block \<Rightarrow> identify_cookie option option" where
  "dosfs_identify_partition env dev stack =
     (case dev 0 512 of
        Inl err \<Rightarrow> Some None
      | Inr buf \<Rightarrow>
          if \<not> boot_signature_ok buf then Some None
          else if \<not> bpb_ok buf then Some None
          else
            let name = memcpy_at stack 0 no_name;
                fat32 = (read16 buf 0x16 = 0);
                sectors = (if fat32 then read32 buf 0x20 else if read16 buf 0x13 = 0 then read32 buf 0x20 else read16 buf 0x13);
                name = snd (dosfs_read_label fat32 buf name);
                name = (case volume_init env dev buf 0 0 None of None \<Rightarrow> name | Some vol \<Rightarrow> strlcpy_at name (vol_label vol) 12)
            in if \<not> env_mem env then Some None
               else case sanitize_name name 12 of
                      None \<Rightarrow> None
                    | Some name \<Rightarrow>
                        Some (Some \<lparr>id_bytes_per_sector = read16 buf 0xb, id_total_sectors = sectors, id_name = take 11 (c_string name)\<rparr>))"

record partition_data =
  pd_status :: nat
  pd_flags :: nat
  pd_content_size :: int
  pd_block_size :: nat
  pd_content_name :: "block option"

definition B_PARTITION_VALID :: nat where "B_PARTITION_VALID = 0"
definition B_PARTITION_FILE_SYSTEM :: nat where "B_PARTITION_FILE_SYSTEM = 2"

definition dosfs_scan_partition :: "env \<Rightarrow> partition_data \<Rightarrow> identify_cookie \<Rightarrow> status_t \<times> partition_data" where
  "dosfs_scan_partition env part cookie =
     (let part = part\<lparr>pd_status := B_PARTITION_VALID, pd_flags := pd_flags part OR B_PARTITION_FILE_SYSTEM,
            pd_content_size := int (u32 (id_total_sectors cookie * id_bytes_per_sector cookie)), pd_block_size := id_bytes_per_sector cookie,
            pd_content_name := (if env_mem env then Some (id_name cookie) else None)\<rparr>
      in (if pd_content_name part = None then ENOMEM else B_OK, part))"

subsection \<open>Statistics and the label of a mounted volume\<close>

record fs_info =
  fss_flags :: nat
  fss_block_size :: nat
  fss_io_size :: nat
  fss_total_blocks :: nat
  fss_free_blocks :: nat
  fss_volume_name :: block
  fss_fsh_name :: name

text \<open>\<open>name\<close> is the caller's array for the volume name, of 256 bytes.\<close>

definition dosfs_read_fs_stat :: "nspace \<Rightarrow> block \<Rightarrow> (status_t \<times> fs_info) option" where
  "dosfs_read_fs_stat vol name =
     (let name = (if vol_entry vol > - 2 then strlcpy_at name (vol_label vol) (length name) else memcpy_at name 0 no_name)
      in map_option (\<lambda>name.
           (B_OK, \<lparr>fss_flags = vol_flags vol, fss_block_size = u32 (bytes_per_sector vol * sectors_per_cluster vol), fss_io_size = 65536,
                   fss_total_blocks = total_clusters vol, fss_free_blocks = free_clusters vol, fss_volume_name = name, fss_fsh_name = name_of ''fat''\<rparr>))
         (sanitize_name name 12))"

definition FS_WRITE_FSINFO_NAME :: nat where "FS_WRITE_FSINFO_NAME = 1"

definition upper8 :: "u8 \<Rightarrow> u8" where
  "upper8 c = (if 0x61 \<le> c \<and> c \<le> 0x7a then c - 0x20 else c)"

text \<open>The loop over the new name, with room for \<open>i\<close> more characters.\<close>

fun label_chars :: "nat \<Rightarrow> name \<Rightarrow> name" where
  "label_chars 0 name = []"
| "label_chars (Suc i) [] = []"
| "label_chars (Suc i) (c # name) =
     (let c = upper8 c in if c \<in> set acceptable \<or> c = 0x20 then c # label_chars i name else label_chars (Suc i) name)"

text \<open>\<^verbatim>\<open>strncmp(a, b, n) == 0\<close>.\<close>

definition strncmp0 :: "block \<Rightarrow> block \<Rightarrow> nat \<Rightarrow> bool" where
  "strncmp0 a b n \<longleftrightarrow> c_string (take n a) = c_string (take n b)"

text \<open>The label in the boot sector.\<close>

definition write_bpb_label :: "nspace \<Rightarrow> block \<Rightarrow> status_t \<times> nspace" where
  "write_bpb_label vol name =
     (case block_cache_get vol 0 of
        None \<Rightarrow> (EIO, vol)
      | Some bn \<Rightarrow>
          let buffer = block_data vol bn
          in if sectors_per_fat vol = 0 \<and> (buffer ! 0x42 \<noteq> 0x29 \<or> \<not> strncmp0 (drop 0x47 buffer) (vol_label vol) 11)
               \<or> sectors_per_fat vol \<noteq> 0 \<and> (buffer ! 0x26 \<noteq> 0x29 \<or> strncmp0 (drop 0x2b buffer) (vol_label vol) 11)
             then (B_ERROR, vol)
             else (B_OK, block_store vol bn (memcpy_at buffer 0x2b name)))"

text \<open>The label in the root directory.\<close>

definition write_root_label :: "nspace \<Rightarrow> block \<Rightarrow> status_t \<times> nspace" where
  "write_root_label vol name =
     (case diri_init vol (vn_cluster (root_vnode vol)) (nat (vol_entry vol)) new_diri of
        (None, diri) \<Rightarrow> (B_ERROR, vol)
      | (Some p, diri) \<Rightarrow>
          if strncmp0 (entry_data vol p) (vol_label vol) 11 then (B_ERROR, vol)
          else (B_OK, entry_store vol p (memcpy_at (entry_data vol p) 0 name)))"

text \<open>\<open>volume_name\<close> is the new name, without the terminator. A name that cannot be used, and a boot sector that is not in the cache, skip the synchronisation.\<close>

definition dosfs_write_fs_stat :: "env \<Rightarrow> nspace \<Rightarrow> name \<Rightarrow> nat \<Rightarrow> status_t \<times> nspace" where
  "dosfs_write_fs_stat env vol volume_name stat_mask =
     (if vol_flags vol AND B_FS_IS_READONLY \<noteq> 0 \<and> take 11 (vol_label vol) \<noteq> ro_label then (EROFS, vol)
      else if stat_mask AND FS_WRITE_FSINFO_NAME = 0 then (B_ERROR, op_sync vol)
      else
        let chars = label_chars 11 volume_name; name = chars @ replicate (11 - length chars) 0x20
        in if chars = [] then (EINVAL, vol)
           else
             let (result, vol, skip) =
                   (if vol_entry vol = - 1 then
                      case write_bpb_label vol name of (result, vol) \<Rightarrow> (result, vol, result = EIO)
                    else if vol_entry vol \<ge> 0 then
                      case write_root_label vol name of (result, vol) \<Rightarrow> (result, vol, result \<noteq> B_OK)
                    else case create_volume_label env vol name of (result, index, vol) \<Rightarrow>
                           (result, if result = B_OK then vol\<lparr>vol_entry := s32 (int index)\<rparr> else vol, False));
                 vol = (if result = B_OK then vol\<lparr>vol_label := dosfs_trim_spaces (memcpy_at (vol_label vol) 0 name)\<rparr> else vol)
             in (result, if skip then vol else op_sync vol))"

text \<open>The codes 10002 and 10003 give the time of the file.\<close>

definition dosfs_ioctl :: "vnode \<Rightarrow> nat \<Rightarrow> status_t \<times> int option" where
  "dosfs_ioctl node code =
     (if code = 10002 then (B_OK, Some (vn_st_time node))
      else if code = 10003 then (B_OK, Some (vn_st_time node))
      else (EINVAL, None))"

definition dosfs_fsync :: "(vnode \<Rightarrow> status_t) \<Rightarrow> vnode \<Rightarrow> status_t" where
  "dosfs_fsync file_cache_sync node = (if vn_cache node then file_cache_sync node else B_OK)"

definition dos_std_ops :: "nat \<Rightarrow> status_t" where
  "dos_std_ops op = (if op = 1 then B_OK else if op = 2 then B_OK else B_ERROR)"

end
