(* ===== verification/Mount_Laws.thy ===== *)
theory Mount_Laws
  imports Mount
begin

text \<open>
  What \<^verbatim>\<open>volume_init\<close> establishes: the volume it gives satisfies the invariant that the other theories rest on, when the
  boot sector also satisfies the conditions that the code does not check.
\<close>

section \<open>Definitions\<close>

text \<open>A device with \<open>n\<close> bytes that can all be read.\<close>

definition device_ok :: "device \<Rightarrow> nat \<Rightarrow> bool" where
  "device_ok dev n \<longleftrightarrow> (\<forall>pos len. pos + len \<le> n \<longrightarrow> (\<exists>b. dev pos len = Inr b \<and> length b = len))"

text \<open>What is not checked: the tables and the root directory are inside the volume, a table is large enough for all clusters, there are not too many
  clusters for the width of an entry, the active table exists, and block numbers are below \<open>2 ^ 31\<close>.\<close>

definition unchecked_ok :: "nspace \<Rightarrow> bool" where
  "unchecked_ok vol \<longleftrightarrow> fat_end vol + root_sectors vol \<le> total_sectors vol \<and> total_sectors vol < 2 ^ 31
     \<and> (total_clusters vol + 2) * fat_bits vol \<le> fat_size vol * 8 \<and> (total_clusters vol + 2) * fat_bits vol < 2 ^ 32
     \<and> (fat_bits vol = 12 \<longrightarrow> total_clusters vol + 1 \<le> 0xff0) \<and> (fat_bits vol = 16 \<longrightarrow> total_clusters vol + 1 \<le> 0xfff0)
     \<and> active_fat vol < fat_count vol"

text \<open>The fields that the code computes from the boot sector, before the device is looked at.\<close>

definition computed :: "nspace \<Rightarrow> bool" where
  "computed vol \<longleftrightarrow> bytes_per_sector vol \<in> {0x200, 0x400, 0x800, 0x1000} \<and> sectors_per_cluster vol \<in> {1, 2, 4, 8, 0x10, 0x20, 0x40, 0x80}
     \<and> 0 < fat_count vol \<and> fat_count vol \<le> 8
     \<and> (if fat_bits vol = 32 then data_start vol = u32 (fat_end vol) \<and> root_sectors vol = 0
        else fat_bits vol \<in> {12, 16} \<and> root_start vol = u32 (fat_end vol) \<and> data_start vol = u32 (root_start vol + root_sectors vol)
          \<and> root_sectors vol < 0x1000 \<and> fat_mirrored vol \<and> active_fat vol = 0 \<and> vn_cluster (root_vnode vol) = 1)
     \<and> total_clusters vol = u32_minus (total_sectors vol) (data_start vol) div sectors_per_cluster vol"

section \<open>Theorems\<close>

text \<open>The fields that finding the label changes.\<close>

definition label_frame :: "nspace \<Rightarrow> nspace \<Rightarrow> bool" where
  "label_frame vol vol' \<longleftrightarrow> vol' = vol\<lparr>vol_entry := vol_entry vol', vol_label := vol_label vol', vol_flags := vol_flags vol', fault := fault vol'\<rparr>"

lemma label_frame_refl: "label_frame vol vol"
  by (simp add: label_frame_def)

lemma label_loop_frame: "label_frame vol (label_loop k vol diri buffer)"
  by (induction k vol diri buffer rule: label_loop.induct) (auto simp: label_frame_def Let_def split: prod.splits)

lemma ro_trick_frame: "label_frame vol w \<Longrightarrow> label_frame vol (ro_trick w)"
  unfolding label_frame_def ro_trick_def by (cases vol; cases w) auto

lemma set_label_frame: "label_frame vol (set_label fat32 buf vol)"
  by (auto simp: label_frame_def set_label_def split: prod.splits)

lemma label_frame_fields:
  assumes "label_frame vol vol'"
  shows "geometry vol' = geometry vol" "fBlockCache vol' = fBlockCache vol" "total_sectors vol' = total_sectors vol" "root_vnode vol' = root_vnode vol"
    "last_allocated vol' = last_allocated vol"
proof -
  have e: "vol' = vol\<lparr>vol_entry := vol_entry vol', vol_label := vol_label vol', vol_flags := vol_flags vol', fault := fault vol'\<rparr>"
    using assms by (simp add: label_frame_def)
  show "geometry vol' = geometry vol" "fBlockCache vol' = fBlockCache vol" "total_sectors vol' = total_sectors vol" "root_vnode vol' = root_vnode vol"
    "last_allocated vol' = last_allocated vol" by (subst e, simp add: geometry_def)+
qed

lemma computed_cong:
  assumes "geometry vol' = geometry vol" "total_sectors vol' = total_sectors vol" "root_vnode vol' = root_vnode vol"
  shows "computed vol' \<longleftrightarrow> computed vol" "unchecked_ok vol' \<longleftrightarrow> unchecked_ok vol"
  unfolding computed_def unchecked_ok_def fat_end_def fat_size_def geometryD[OF assms(1)] assms(2,3) by (rule refl)+

lemma bpb_ok_fields:
  assumes "bpb_ok buf"
  shows "read16 buf 0xb \<in> {0x200, 0x400, 0x800, 0x1000}" "unat (buf ! 0xd) \<in> {1, 2, 4, 8, 0x10, 0x20, 0x40, 0x80}"
    "0 < unat (buf ! 0x10)" "unat (buf ! 0x10) \<le> 8"
proof -
  show "read16 buf 0xb \<in> {0x200, 0x400, 0x800, 0x1000}" using assms by (simp add: bpb_ok_def)
  show "unat (buf ! 0xd) \<in> {1, 2, 4, 8, 0x10, 0x20, 0x40, 0x80}" using assms by (auto simp: bpb_ok_def)
  show "0 < unat (buf ! 0x10)" using assms by (simp add: bpb_ok_def unat_gt_0)
  have "buf ! 0x10 \<le> 8" using assms by (simp add: bpb_ok_def not_less)
  then have "unat (buf ! 0x10) \<le> unat (8 :: u8)" by (simp only: word_le_nat_alt)
  then show "unat (buf ! 0x10) \<le> 8" by simp
qed

lemma init_common_fields:
  "bytes_per_sector (init_common buf flags fsflags) = read16 buf 0xb" "sectors_per_cluster (init_common buf flags fsflags) = unat (buf ! 0xd)"
  "fat_count (init_common buf flags fsflags) = unat (buf ! 0x10)" "root_sectors (init_common buf flags fsflags) = 0"
  by (simp_all add: init_common_def zero_nspace_def)

lemma computed_set_label: "computed (set_label fat32 buf w) \<longleftrightarrow> computed w"
  by (rule computed_cong(1)[OF label_frame_fields(1,3,4)[OF set_label_frame]])

lemma init_fat32_computed:
  assumes "bpb_ok buf" "init_fat32 buf (init_common buf flags fsflags) = Some vol"
  shows "computed vol"
proof -
  define v where "v = init_common buf flags fsflags"
  define m where "m \<longleftrightarrow> buf ! 0x28 AND 0x80 = 0"
  define d where "d = u32 (reserved_sectors v + fat_count v * read32 buf 0x24)"
  define w where "w = v\<lparr>fat_bits := 32, sectors_per_fat := read32 buf 0x24, total_sectors := read32 buf 0x20, fsinfo_sector := read16 buf 0x30,
     fat_mirrored := m, active_fat := (if m then 0 else unat (buf ! 0x28 AND 0xf)), data_start := d,
     total_clusters := u32_minus (read32 buf 0x20) d div sectors_per_cluster v, root_vnode := (root_vnode v)\<lparr>vn_cluster := read32 buf 0x2c\<rparr>\<rparr>"
  have v: "bytes_per_sector v \<in> {0x200, 0x400, 0x800, 0x1000}" "sectors_per_cluster v \<in> {1, 2, 4, 8, 0x10, 0x20, 0x40, 0x80}"
    "0 < fat_count v" "fat_count v \<le> 8" "root_sectors v = 0"
    unfolding v_def init_common_fields using bpb_ok_fields[OF assms(1)] by blast+
  have "init_fat32 buf v = Some vol" using assms(2) by (simp add: v_def)
  then have vol: "vol = set_label True buf w"
    unfolding init_fat32_def Let_def w_def d_def m_def by (simp split: if_splits)
  have w: "fat_bits w = 32" "bytes_per_sector w = bytes_per_sector v" "sectors_per_cluster w = sectors_per_cluster v" "fat_count w = fat_count v"
    "root_sectors w = 0" "data_start w = u32 (fat_end w)" "total_clusters w = u32_minus (total_sectors w) (data_start w) div sectors_per_cluster w"
    using v(5) by (simp_all add: w_def fat_end_def d_def)
  have "computed w" unfolding computed_def using v(1-4) w by simp
  then show ?thesis by (simp add: vol computed_set_label)
qed

lemma root_sectors_less:
  assumes "(bps :: nat) \<in> {0x200, 0x400, 0x800, 0x1000}"
  shows "read16 buf 0x11 * 0x20 div bps < 0x1000"
proof -
  have "0x200 \<le> bps" using assms by auto
  moreover have "read16 buf 0x11 * 0x20 < 0x1000 * 0x200" using Prelude.read16_less[of buf "0x11"] by simp
  ultimately have "read16 buf 0x11 * 0x20 < 0x1000 * bps" by linarith
  then show ?thesis by (simp add: less_mult_imp_div_less)
qed

lemma zip_total:
  "(case geo of None \<Rightarrow> vol | Some g \<Rightarrow> if p \<and> total_sectors vol = x \<and> q g then vol\<lparr>total_sectors := y\<rparr> else vol)
     = vol\<lparr>total_sectors := (case geo of None \<Rightarrow> total_sectors vol | Some g \<Rightarrow> if p \<and> total_sectors vol = x \<and> q g then y else total_sectors vol)\<rparr>"
  by (cases geo) simp_all

lemma init_fat16_vol:
  assumes "init_fat16 buf geo v = Some vol"
    and z: "z = (case geo of None \<Rightarrow> (if read16 buf 0x13 = 0 then read32 buf 0x20 else read16 buf 0x13)
      | Some g \<Rightarrow> if take 20 (drop 0x0b buf) = bogus_zip_data \<and> (if read16 buf 0x13 = 0 then read32 buf 0x20 else read16 buf 0x13) = 196576
          \<and> sectors_per_track g * cylinder_count g * head_count g = 196192 then 196192 else (if read16 buf 0x13 = 0 then read32 buf 0x20 else read16 buf 0x13))"
    and s: "s = u32 (reserved_sectors v + fat_count v * sectors_per_fat v)" and r: "r = read16 buf 0x11 * 0x20 div bytes_per_sector v"
    and c: "c = u32_minus z (u32 (s + r)) div sectors_per_cluster v"
  shows "vol = set_label False buf (v\<lparr>root_entries_count := read16 buf 0x11, fsinfo_sector := 0xffff, total_sectors := z, fat_mirrored := True, active_fat := 0, root_start := s,
     root_sectors := r, root_vnode := (root_vnode v)\<lparr>vn_cluster := 1, vn_end_cluster := 1, vn_st_size := int (r * bytes_per_sector v)\<rparr>,
     data_start := u32 (s + r), total_clusters := c, fat_bits := (if c > 0xff1 then 16 else 12)\<rparr>)"
proof -
  have "fat_count v = 2" using assms(1) unfolding init_fat16_def by (rule_tac ccontr) simp
  moreover have "read16 buf 0x11 mod (bytes_per_sector v div 0x20) = 0" using assms(1) calculation unfolding init_fat16_def Let_def by (rule_tac ccontr) simp
  ultimately show ?thesis using assms(1) unfolding init_fat16_def Let_def zip_total c r s
    by (cases geo) (simp_all split del: if_split add: z cong: if_cong)
qed

lemma init_fat16_computed:
  assumes "bpb_ok buf" "init_fat16 buf geo (init_common buf flags fsflags) = Some vol"
  shows "computed vol"
proof -
  define v where "v = init_common buf flags fsflags"
  define t where "t = (if read16 buf 0x13 = 0 then read32 buf 0x20 else read16 buf 0x13)"
  define z where "z = (case geo of None \<Rightarrow> t | Some g \<Rightarrow> if take 20 (drop 0x0b buf) = bogus_zip_data \<and> t = 196576
     \<and> sectors_per_track g * cylinder_count g * head_count g = 196192 then 196192 else t)"
  define s where "s = u32 (reserved_sectors v + fat_count v * sectors_per_fat v)"
  define r where "r = read16 buf 0x11 * 0x20 div bytes_per_sector v"
  define c where "c = u32_minus z (u32 (s + r)) div sectors_per_cluster v"
  define w where "w = v\<lparr>root_entries_count := read16 buf 0x11, fsinfo_sector := 0xffff, total_sectors := z, fat_mirrored := True, active_fat := 0, root_start := s,
     root_sectors := r, root_vnode := (root_vnode v)\<lparr>vn_cluster := 1, vn_end_cluster := 1, vn_st_size := int (r * bytes_per_sector v)\<rparr>,
     data_start := u32 (s + r), total_clusters := c, fat_bits := (if c > 0xff1 then 16 else 12)\<rparr>"
  have v: "bytes_per_sector v \<in> {0x200, 0x400, 0x800, 0x1000}" "sectors_per_cluster v \<in> {1, 2, 4, 8, 0x10, 0x20, 0x40, 0x80}"
    "0 < fat_count v" "fat_count v \<le> 8"
    unfolding v_def init_common_fields using bpb_ok_fields[OF assms(1)] by blast+
  have "init_fat16 buf geo v = Some vol" using assms(2) by (simp add: v_def)
  then have vol: "vol = set_label False buf w"
    unfolding w_def by (rule init_fat16_vol[OF _ z_def[unfolded t_def] s_def r_def c_def])
  have w: "fat_bits w = 12 \<or> fat_bits w = 16" "fat_bits w \<noteq> 32" "bytes_per_sector w = bytes_per_sector v" "sectors_per_cluster w = sectors_per_cluster v" "fat_count w = fat_count v"
    "root_sectors w = r" "root_start w = u32 (fat_end w)" "data_start w = u32 (root_start w + root_sectors w)" "fat_mirrored w" "active_fat w = 0" "vn_cluster (root_vnode w) = 1"
    "total_clusters w = u32_minus (total_sectors w) (data_start w) div sectors_per_cluster w"
    by (simp_all add: w_def fat_end_def c_def s_def)
  have "r < 0x1000" unfolding r_def by (rule root_sectors_less[OF v(1)])
  then have "computed w" unfolding computed_def using v w by simp
  then show ?thesis by (simp add: vol computed_set_label)
qed

lemma computed_layout:
  assumes "computed vol" "unchecked_ok vol"
  shows "fat_end vol + root_sectors vol = data_start vol" "vol_end vol \<le> total_sectors vol"
    "fat_bits vol \<noteq> 32 \<Longrightarrow> root_start vol = fat_end vol"
proof -
  have s: "fat_end vol + root_sectors vol \<le> total_sectors vol" "total_sectors vol < 2 ^ 31" using assms(2) by (auto simp: unchecked_ok_def)
  have u: "u32 (fat_end vol) = fat_end vol" "u32 (fat_end vol + root_sectors vol) = fat_end vol + root_sectors vol" using s by simp_all
  show d: "fat_end vol + root_sectors vol = data_start vol" using assms(1) u by (auto simp: computed_def split: if_splits)
  show "root_start vol = fat_end vol" if "fat_bits vol \<noteq> 32" using that assms(1) u by (simp add: computed_def)
  have "u32_minus (total_sectors vol) (data_start vol) = total_sectors vol - data_start vol" using s d by simp
  then have "total_clusters vol = (total_sectors vol - data_start vol) div sectors_per_cluster vol" using assms(1) by (simp add: computed_def)
  then have "total_clusters vol * sectors_per_cluster vol \<le> total_sectors vol - data_start vol" using div_times_less_eq_dividend by metis
  then show "vol_end vol \<le> total_sectors vol" using d s(1) by (simp add: vol_end_def)
qed

text \<open>The invariant, for a volume whose cache gives all sectors.\<close>

lemma computed_vol_ok:
  assumes "computed vol" "unchecked_ok vol"
    and cache: "\<And>bn. bn < total_sectors vol \<Longrightarrow> \<exists>b. fBlockCache vol bn = Some b \<and> length b = bytes_per_sector vol"
  shows "vol_ok vol"
proof -
  note L = computed_layout[OF assms(1,2)]
  have C: "bytes_per_sector vol \<in> {0x200, 0x400, 0x800, 0x1000}" "sectors_per_cluster vol \<in> {1, 2, 4, 8, 0x10, 0x20, 0x40, 0x80}" "fat_bits vol \<in> {12, 16, 32}"
    using assms(1) by (auto simp: computed_def split: if_splits)
  have U: "fat_end vol + root_sectors vol \<le> total_sectors vol" "total_sectors vol < 2 ^ 31" using assms(2) by (auto simp: unchecked_ok_def)
  have "\<exists>b. fBlockCache vol (reserved_sectors vol + i * sectors_per_fat vol + s) = Some b \<and> length b = bytes_per_sector vol"
    if "i < fat_count vol" "s < sectors_per_fat vol" for i s
  proof (rule cache)
    have "i * sectors_per_fat vol + s < (i + 1) * sectors_per_fat vol" using that(2) by simp
    also have "\<dots> \<le> fat_count vol * sectors_per_fat vol" using that(1) by (intro mult_le_mono1) simp
    finally show "reserved_sectors vol + i * sectors_per_fat vol + s < total_sectors vol" using U(1) by (simp add: fat_end_def)
  qed
  moreover have "reserved_sectors vol + fat_count vol * sectors_per_fat vol < 2 ^ 32" using U by (simp add: fat_end_def)
  moreover have "8 \<le> bytes_per_sector vol" "bytes_per_sector vol mod 4 = 0" using C(1) by auto
  ultimately have ok: "fat_ok vol" using C(3) assms(2) unfolding fat_ok_def unchecked_ok_def by blast
  have root: "fat_bits vol \<noteq> 32 \<longrightarrow> root_sectors vol < 0xffff \<and> fat_end vol \<le> root_start vol \<and> root_start vol + root_sectors vol \<le> data_start vol"
  proof
    assume a: "fat_bits vol \<noteq> 32"
    then have "root_sectors vol < 0x1000" using assms(1) unfolding computed_def by meson
    then show "root_sectors vol < 0xffff \<and> fat_end vol \<le> root_start vol \<and> root_start vol + root_sectors vol \<le> data_start vol"
      using L(1) L(3)[OF a] by simp
  qed
  have "\<exists>b. fBlockCache vol bn = Some b \<and> length b = bytes_per_sector vol" if "bn < vol_end vol" for bn
    using that L(2) by (intro cache) simp
  moreover have "vol_end vol < 2 ^ 31" "fat_end vol \<le> data_start vol" using L(1,2) U(2) by simp_all
  moreover have "bytes_per_sector vol mod 0x20 = 0" "0x20 \<le> bytes_per_sector vol" "bytes_per_sector vol \<le> 0x1000" using C(1) by auto
  moreover have "0 < sectors_per_cluster vol" "sectors_per_cluster vol \<le> 0x80" using C(2) by auto
  ultimately show ?thesis using ok root unfolding vol_ok_def by blast
qed

lemma volume_init_cases:
  assumes "volume_init env dev buf flags fsflags geo = Some vol"
  obtains v k d p where "computed v" "(if sectors_per_fat (init_common buf flags fsflags) = 0 then init_fat32 buf (init_common buf flags fsflags)
      else init_fat16 buf geo (init_common buf flags fsflags)) = Some v"
    "vol = ro_trick (label_loop k (v\<lparr>last_allocated := 2, beos_vnid := INVALID_VNID_BITS_MASK,
      fBlockCache := block_cache_create dev (total_sectors v) (bytes_per_sector v)\<rparr>) d p)"
proof -
  have b: "bpb_ok buf" using assms by (simp add: volume_init_def split: if_splits)
  let ?i = "if sectors_per_fat (init_common buf flags fsflags) = 0 then init_fat32 buf (init_common buf flags fsflags)
     else init_fat16 buf geo (init_common buf flags fsflags)"
  obtain v where v: "?i = Some v" using assms unfolding volume_init_def Let_def by (cases ?i) (auto split: if_splits)
  let ?w = "v\<lparr>last_allocated := 2, beos_vnid := INVALID_VNID_BITS_MASK, fBlockCache := block_cache_create dev (total_sectors v) (bytes_per_sector v)\<rparr>"
  obtain p d where d: "diri_init ?w (vn_cluster (root_vnode ?w)) 0 new_diri = (p, d)" by fastforce
  have r: "vol = ro_trick (label_loop (dir_fuel ?w) ?w d p)"
    using assms unfolding volume_init_def Let_def v option.case d prod.case by (simp split: if_splits)
  have "computed v" using v init_fat32_computed[OF b] init_fat16_computed[OF b] by (simp split: if_splits)
  then show thesis using that v r by blast
qed

lemma volume_init_frame:
  assumes "volume_init env dev buf flags fsflags geo = Some vol"
  obtains v where "computed v" "(if sectors_per_fat (init_common buf flags fsflags) = 0 then init_fat32 buf (init_common buf flags fsflags)
      else init_fat16 buf geo (init_common buf flags fsflags)) = Some v"
    "label_frame (v\<lparr>last_allocated := 2, beos_vnid := INVALID_VNID_BITS_MASK,
      fBlockCache := block_cache_create dev (total_sectors v) (bytes_per_sector v)\<rparr>) vol"
  using volume_init_cases[OF assms] ro_trick_frame[OF label_loop_frame] by metis

text \<open>C17: a volume that \<^verbatim>\<open>volume_init\<close> accepts is well formed. Sector and cluster sizes are supported ones, the number of tables is between 1 and 8, the width
  of an entry is 12, 16 or 32 bits, the areas of the volume follow each other as the code computes them, and the search for free clusters starts at the first one. When
  the device can be read up to the volume's end, and the conditions hold that the code does not check, the volume satisfies the invariant \<open>vol_ok\<close> of this
  development.\<close>

theorem volume_init_well_formed:
  assumes "volume_init env dev buf flags fsflags geo = Some vol"
  shows "computed vol \<and> last_allocated vol = 2
    \<and> (unchecked_ok vol \<and> device_ok dev (total_sectors vol * bytes_per_sector vol) \<longrightarrow> vol_ok vol)"
proof -
  obtain v where v: "computed v" "label_frame (v\<lparr>last_allocated := 2, beos_vnid := INVALID_VNID_BITS_MASK,
      fBlockCache := block_cache_create dev (total_sectors v) (bytes_per_sector v)\<rparr>) vol" (is "label_frame ?w vol")
    using volume_init_frame[OF assms] by blast
  have g: "geometry ?w = geometry v" by (simp add: geometry_def)
  note f = label_frame_fields[OF v(2)]
  have c: "computed vol" using v(1) computed_cong(1)[OF f(1,3,4)] computed_cong(1)[OF g] by simp
  have s: "total_sectors vol = total_sectors v" "bytes_per_sector vol = bytes_per_sector v" using f(3) geometryD(2)[OF f(1)] by simp_all
  have "\<exists>b. fBlockCache vol bn = Some b \<and> length b = bytes_per_sector vol"
    if "device_ok dev (total_sectors vol * bytes_per_sector vol)" "bn < total_sectors vol" for bn
  proof -
    have "(bn + 1) * bytes_per_sector v \<le> total_sectors v * bytes_per_sector v" using that(2) s(1) by (intro mult_le_mono1) simp
    then have "bn * bytes_per_sector v + bytes_per_sector v \<le> total_sectors v * bytes_per_sector v" by simp
    moreover have "device_ok dev (total_sectors v * bytes_per_sector v)" using that(1) s by simp
    ultimately obtain b where "dev (bn * bytes_per_sector v) (bytes_per_sector v) = Inr b" "length b = bytes_per_sector v"
      unfolding device_ok_def by blast
    then show ?thesis using f(2) s that(2) by (simp add: block_cache_create_def)
  qed
  then have "unchecked_ok vol \<and> device_ok dev (total_sectors vol * bytes_per_sector vol) \<longrightarrow> vol_ok vol" using computed_vol_ok[OF c] by blast
  then show ?thesis using c f(5) by simp
qed

subsection \<open>The label that should make a volume read-only\<close>

definition no_trailing_space :: "block \<Rightarrow> bool" where
  "no_trailing_space l \<longleftrightarrow> 10 < length l \<longrightarrow> l ! 10 \<noteq> 0x20"

lemma trim_loop_above: "length (trim_loop k l) = length l" "k < j \<Longrightarrow> trim_loop k l ! j = l ! j"
  by (induction k l rule: trim_loop.induct) auto

lemma trim_no_trailing_space: "no_trailing_space (dosfs_trim_spaces l)"
proof -
  have "trim_loop 10 l = (if l ! 10 = 0x20 then trim_loop 9 (l[10 := 0]) else l)" using trim_loop.simps(2)[of 9 l] by (simp del: trim_loop.simps)
  then show ?thesis by (simp add: no_trailing_space_def dosfs_trim_spaces_def trim_loop_above del: trim_loop.simps)
qed

lemma no_trailing_not_ro:
  assumes "no_trailing_space l"
  shows "take 11 l \<noteq> ro_label"
proof
  assume t: "take 11 l = ro_label"
  have r: "length ro_label = 11" "ro_label ! 10 = 0x20" by code_simp+
  have "10 < length l" using arg_cong[OF t, of length] r(1) by simp
  moreover have "l ! 10 = 0x20" using arg_cong[OF t, of "\<lambda>l. l ! 10"] r(2) by simp
  ultimately show False using assms by (simp add: no_trailing_space_def)
qed

lemma ro_trick_idle: "no_trailing_space (vol_label vol) \<Longrightarrow> ro_trick vol = vol"
  by (simp add: ro_trick_def no_trailing_not_ro)

lemma label_loop_label: "no_trailing_space (vol_label vol) \<Longrightarrow> no_trailing_space (vol_label (label_loop k vol diri buffer))"
  by (induction k vol diri buffer rule: label_loop.induct) (auto simp: Let_def trim_no_trailing_space split: prod.splits)

lemma label_loop_flags: "vol_flags (label_loop k vol diri buffer) = vol_flags vol"
  by (induction k vol diri buffer rule: label_loop.induct) (auto simp: Let_def split: prod.splits)

lemma set_label_label: "no_trailing_space (vol_label vol) \<Longrightarrow> no_trailing_space (vol_label (set_label fat32 buf vol))"
  by (simp add: set_label_def dosfs_read_label_def Let_def trim_no_trailing_space)

lemma set_label_flags: "vol_flags (set_label fat32 buf vol) = vol_flags vol"
  by (simp add: set_label_def dosfs_read_label_def Let_def)

lemma init_label:
  assumes "(if sectors_per_fat c = 0 then init_fat32 buf c else init_fat16 buf geo c) = Some v" "no_trailing_space (vol_label c)"
  shows "no_trailing_space (vol_label v)" "vol_flags v = vol_flags c"
proof -
  have "\<exists>w fat32. v = set_label fat32 buf w \<and> vol_label w = vol_label c \<and> vol_flags w = vol_flags c"
  proof (cases "sectors_per_fat c = 0")
    case True
    then have "init_fat32 buf c = Some v" using assms(1) by simp
    then show ?thesis unfolding init_fat32_def Let_def by (auto split: if_split_asm)
  next
    case False
    then have "init_fat16 buf geo c = Some v" using assms(1) by simp
    from init_fat16_vol[OF this refl refl refl refl] show ?thesis by (intro exI conjI; assumption?) simp_all
  qed
  then show "no_trailing_space (vol_label v)" "vol_flags v = vol_flags c" using assms(2) set_label_label set_label_flags by auto
qed

lemma volume_init_label:
  assumes "volume_init env dev buf flags fsflags geo = Some vol"
  shows "no_trailing_space (vol_label vol)" "vol_flags vol = flags"
proof -
  let ?c = "init_common buf flags fsflags"
  have "no_trailing_space (memcpy_at (replicate 12 0) 0 no_name)" by code_simp
  then have c: "no_trailing_space (vol_label ?c)" "vol_flags ?c = flags" by (simp_all add: init_common_def)
  obtain v k d p where v: "(if sectors_per_fat ?c = 0 then init_fat32 buf ?c else init_fat16 buf geo ?c) = Some v"
    "vol = ro_trick (label_loop k (v\<lparr>last_allocated := 2, beos_vnid := INVALID_VNID_BITS_MASK,
      fBlockCache := block_cache_create dev (total_sectors v) (bytes_per_sector v)\<rparr>) d p)" (is "vol = ro_trick (label_loop k ?w d p)")
    using volume_init_cases[OF assms] by metis
  note i = init_label[OF v(1) c(1)]
  have l: "no_trailing_space (vol_label (label_loop k ?w d p))" using i(1) by (intro label_loop_label) simp
  then have "vol = label_loop k ?w d p" using v(2) ro_trick_idle by simp
  then show "no_trailing_space (vol_label vol)" "vol_flags vol = flags" using l i(2) c(2) by (simp_all add: label_loop_flags)
qed

text \<open>The comparison of the label with the one that marks a volume as read-only never succeeds, since the spaces at the end of
  the label have been replaced: the flags of a new volume are always the ones that were passed in.\<close>

theorem volume_init_keeps_flags: "volume_init env dev buf flags fsflags geo = Some vol \<Longrightarrow> vol_flags vol = flags"
  by (rule volume_init_label)

text \<open>A boot sector of a small volume: 20 sectors of 512 bytes, two tables of one sector and 16 entries in the root directory.\<close>

definition ex_boot :: block where
  "ex_boot = replicate 0xb 0 @ [0, 2, 1, 1, 0, 2, 16, 0, 20, 0, 0xf0, 1, 0] @ replicate 0x1e6 0 @ [0x55, 0xaa]"

definition ex_device :: device where
  "ex_device pos len = Inr (if pos = 0 \<and> len = 0x200 then ex_boot else replicate len 0xf0)"

lemma length_ex_boot: "length ex_boot = 0x200"
  by (simp add: ex_boot_def)

lemma ex_boot_reads:
  "boot_signature_ok ex_boot" "bpb_ok ex_boot" "read16 ex_boot 0xb = 0x200" "ex_boot ! 0xd = 1" "read16 ex_boot 0xe = 1" "ex_boot ! 0x10 = 2"
  "read16 ex_boot 0x11 = 16" "read16 ex_boot 0x13 = 20" "ex_boot ! 0x15 = 0xf0" "read16 ex_boot 0x16 = 1" "ex_boot ! 0x29 = 0"
  by code_simp+

definition ex_volume :: "nat \<Rightarrow> nat \<Rightarrow> device_geometry option \<Rightarrow> nspace" where
  "ex_volume flags fsflags geo = the (init_fat16 ex_boot geo (init_common ex_boot flags fsflags))"

lemma ex_volume_init: "init_fat16 ex_boot geo (init_common ex_boot flags fsflags) = Some (ex_volume flags fsflags geo)"
  by (simp add: ex_volume_def init_fat16_def Let_def init_common_def ex_boot_reads)

lemma ex_volume_fields:
  fixes flags fsflags geo
  defines "v \<equiv> ex_volume flags fsflags geo"
  shows "bytes_per_sector v = 0x200" "sectors_per_cluster v = 1" "reserved_sectors v = 1" "fat_count v = 2" "root_sectors v = 1"
    "total_sectors v = 20" "sectors_per_fat v = 1" "total_clusters v = 16" "fat_bits v = 12" "active_fat v = 0" "media_descriptor v = 0xf0"
proof -
  let ?t = "if read16 ex_boot 0x13 = 0 then read32 ex_boot 0x20 else read16 ex_boot 0x13"
  have z: "20 = (case geo of None \<Rightarrow> ?t | Some g \<Rightarrow> if take 20 (drop 0x0b ex_boot) = bogus_zip_data \<and> ?t = 196576
      \<and> sectors_per_track g * cylinder_count g * head_count g = 196192 then 196192 else ?t)" by (cases geo) (simp_all add: ex_boot_reads)
  have l: "set_label False ex_boot w = w" for w by (simp add: set_label_def dosfs_read_label_def ex_boot_reads)
  note e = init_fat16_vol[OF ex_volume_init z refl refl refl, of flags fsflags, unfolded l, folded v_def]
  show "bytes_per_sector v = 0x200" "sectors_per_cluster v = 1" "reserved_sectors v = 1" "fat_count v = 2" "root_sectors v = 1"
    "total_sectors v = 20" "sectors_per_fat v = 1" "total_clusters v = 16" "fat_bits v = 12" "active_fat v = 0" "media_descriptor v = 0xf0"
    by (subst e, simp add: init_common_def zero_nspace_def ex_boot_reads u32_def)+
qed

lemma volume_init_Some:
  assumes "env_mem env" "env_block_cache env" "boot_signature_ok buf" "bpb_ok buf" "sectors_per_fat (init_common buf flags fsflags) \<noteq> 0"
    "init_fat16 buf geo (init_common buf flags fsflags) = Some v" "fats_ok dev v"
  shows "\<exists>vol. volume_init env dev buf flags fsflags geo = Some vol"
proof -
  let ?w = "v\<lparr>last_allocated := 2, beos_vnid := INVALID_VNID_BITS_MASK, fBlockCache := block_cache_create dev (total_sectors v) (bytes_per_sector v)\<rparr>"
  obtain p d where d: "diri_init ?w (vn_cluster (root_vnode ?w)) 0 new_diri = (p, d)" by fastforce
  have "volume_init env dev buf flags fsflags geo = Some (ro_trick (label_loop (dir_fuel ?w) ?w d p))"
    unfolding volume_init_def Let_def if_not_P[OF assms(5)] assms(6) option.case d prod.case using assms(1-4,7) by simp
  then show ?thesis by blast
qed

lemma ex_init:
  obtains vol where "volume_init tiny_env ex_device ex_boot flags fsflags geo = Some vol" "geometry vol = geometry (ex_volume flags fsflags geo)"
    "total_sectors vol = 20"
proof -
  note v = ex_volume_fields and i = ex_volume_init
  have s: "sectors_per_fat (init_common ex_boot flags fsflags) = 1" by (simp add: init_common_def ex_boot_reads)
  have "fats_ok ex_device (ex_volume flags fsflags geo)" by (simp add: fats_ok_def media_ok_def ex_device_def v)
  moreover have "env_mem tiny_env" "env_block_cache tiny_env" by (simp_all add: tiny_env_def)
  ultimately obtain vol where vol: "volume_init tiny_env ex_device ex_boot flags fsflags geo = Some vol"
    using volume_init_Some[OF _ _ ex_boot_reads(1,2) _ i] s by fastforce
  obtain w where "(if sectors_per_fat (init_common ex_boot flags fsflags) = 0 then init_fat32 ex_boot (init_common ex_boot flags fsflags)
      else init_fat16 ex_boot geo (init_common ex_boot flags fsflags)) = Some w"
    and f: "label_frame (w\<lparr>last_allocated := 2, beos_vnid := INVALID_VNID_BITS_MASK,
      fBlockCache := block_cache_create ex_device (total_sectors w) (bytes_per_sector w)\<rparr>) vol" using volume_init_frame[OF vol] by blast
  then have w: "w = ex_volume flags fsflags geo" using s i by simp
  have "geometry vol = geometry (ex_volume flags fsflags geo)" using label_frame_fields(1)[OF f] by (simp add: w geometry_def)
  moreover have "total_sectors vol = 20" using label_frame_fields(3)[OF f] v(6) by (simp add: w)
  ultimately show thesis using that vol by blast
qed

theorem volume_init_well_formed_witness:
  "\<exists>vol. volume_init tiny_env ex_device ex_boot 0 0 None = Some vol \<and> computed vol \<and> last_allocated vol = 2 \<and> vol_ok vol \<and> total_clusters vol = 16"
proof -
  note v = ex_volume_fields[where flags = 0 and fsflags = 0 and geo = None]
  obtain vol where vol: "volume_init tiny_env ex_device ex_boot 0 0 None = Some vol" and g: "geometry vol = geometry (ex_volume 0 0 None)"
    and t: "total_sectors vol = 20" by (rule ex_init)
  have "unchecked_ok vol" unfolding unchecked_ok_def fat_end_def fat_size_def geometryD[OF g] t by (simp add: v)
  moreover have "device_ok ex_device n" for n by (simp add: device_ok_def ex_device_def length_ex_boot)
  ultimately have "computed vol \<and> last_allocated vol = 2 \<and> vol_ok vol" using volume_init_well_formed[OF vol] by blast
  moreover have "total_clusters vol = 16" unfolding geometryD[OF g] by (rule v(8))
  ultimately show ?thesis using vol by blast
qed

end
