(* ===== verification/Read_Only.thy ===== *)
theory Read_Only
  imports Mount_Laws
begin

text \<open>
  Read-only volumes: the operations of a mounted volume as a step relation, and the invariant that no sequence of them changes a sector of a
  volume that was mounted read-only.
\<close>

section \<open>Definitions\<close>

text \<open>A mounted volume and the cookies of its open files, each with the id of the file's vnode.\<close>

type_synonym session = "mount \<times> (ino_t \<times> filecookie) set"

definition with_vol :: "mount \<Rightarrow> nspace \<Rightarrow> mount" where
  "with_vol mt vol = mt\<lparr>mt_vol := vol\<rparr>"

text \<open>The operations that the kernel calls with the volume; those that return no new state are left out. \<open>fcw\<close> is the file cache's \<^verbatim>\<open>file_cache_write\<close>.\<close>

inductive fs_step :: "env \<Rightarrow> (vnode \<Rightarrow> int \<Rightarrow> block \<Rightarrow> status_t \<times> nat) \<Rightarrow> session \<Rightarrow> session \<Rightarrow> bool" for env fcw where
  walk: "fs_step env fcw (mt, os) (snd (dosfs_walk env mt dir name), os)"
| kernel_get: "fs_step env fcw (mt, os) (snd (get_vnode env mt vnid), os)"
| kernel_put: "fs_step env fcw (mt, os) (put_vnode env mt vnid, os)"
| release: "mt_nodes mt vnid = Some c \<Longrightarrow> cn_refs c = 0 \<Longrightarrow>
    fs_step env fcw (mt, os) (\<lparr>mt_vol = snd (dosfs_release_vnode (mt_vol mt) (cn_node c)), mt_nodes = (mt_nodes mt)(vnid := None)\<rparr>, os)"
| readdir: "dosfs_readdir env (mt_vol mt) (node_of mt dir) cookie bufsize = (r, vol, cookie') \<Longrightarrow> fs_step env fcw (mt, os) (with_vol mt vol, os)"
| file_open: "dosfs_open env (mt_vol mt) (node_of mt vnid) omode = (r, c, vol, node) \<Longrightarrow>
    fs_step env fcw (mt, os) (set_node (with_vol mt vol) vnid node, case c of None \<Rightarrow> os | Some c \<Rightarrow> insert (vnid, c) os)"
| file_write: "(vnid, c) \<in> os \<Longrightarrow> dosfs_write env fcw (mt_vol mt) (node_of mt vnid) c pos buf = (r, len, vol, node) \<Longrightarrow>
    fs_step env fcw (mt, os) (set_node (with_vol mt vol) vnid node, os)"
| file_close: "dosfs_close (mt_vol mt) (node_of mt vnid) = (r, vol, node) \<Longrightarrow>
    fs_step env fcw (mt, os) (set_node (with_vol mt vol) vnid node, os - {(vnid, c)})"
| wstat: "dosfs_wstat env (mt_vol mt) (node_of mt vnid) st stat_mask = (r, vol, node) \<Longrightarrow>
    fs_step env fcw (mt, os) (set_node (with_vol mt vol) vnid node, os)"
| create: "dosfs_create env mt dir name omode = (r, mt') \<Longrightarrow>
    fs_step env fcw (mt, os) (mt', case r of Inl e \<Rightarrow> os | Inr (c, vnid) \<Rightarrow> insert (vnid, c) os)"
| mkdir: "fs_step env fcw (mt, os) (snd (dosfs_mkdir env mt dir name perms), os)"
| rename: "fs_step env fcw (mt, os) (snd (dosfs_rename env mt odir oldname ndir newname), os)"
| unlink: "fs_step env fcw (mt, os) (snd (dosfs_unlink env mt dir name), os)"
| rmdir: "fs_step env fcw (mt, os) (snd (dosfs_rmdir env mt dir name), os)"
| sync: "fs_step env fcw (mt, os) (with_vol mt (snd (dosfs_sync (mt_vol mt))), os)"
| write_fs_stat: "fs_step env fcw (mt, os) (with_vol mt (snd (dosfs_write_fs_stat env (mt_vol mt) name stat_mask)), os)"

text \<open>A volume that is read-only and whose label does not end in a space, and a session in which all cookies are for reading.\<close>

definition read_only :: "nspace \<Rightarrow> bool" where
  "read_only vol \<longleftrightarrow> vol_flags vol AND B_FS_IS_READONLY \<noteq> 0 \<and> no_trailing_space (vol_label vol)"

definition ro_session :: "session \<Rightarrow> bool" where
  "ro_session s \<longleftrightarrow> read_only (mt_vol (fst s)) \<and> (\<forall>(vnid, c) \<in> snd s. fc_mode c AND O_RWMASK = O_RDONLY)"

text \<open>What the operations that look at a volume keep.\<close>

definition quiet :: "nspace \<Rightarrow> nspace \<Rightarrow> bool" where
  "quiet vol vol' \<longleftrightarrow> fBlockCache vol' = fBlockCache vol \<and> vol_flags vol' = vol_flags vol \<and> vol_label vol' = vol_label vol"

section \<open>Theorems\<close>

subsection \<open>Operations that look at a volume\<close>

lemma quiet_refl [simp]: "quiet vol vol"
  by (simp add: quiet_def)

lemma quiet_trans: "quiet a b \<Longrightarrow> quiet b c \<Longrightarrow> quiet a c"
  by (simp add: quiet_def)

lemma quiet_update [simp]:
  "quiet vol (vol\<lparr>fault := x\<rparr>)" "quiet vol (vol\<lparr>vol_vcache := vc\<rparr>)" "quiet vol (vol\<lparr>vol_dlist := dl\<rparr>)" "quiet vol (vol\<lparr>beos_vnid := b\<rparr>)"
  "quiet vol (vol\<lparr>root_vnode := r\<rparr>)" "quiet vol (vol\<lparr>vol_vcache := vc, vol_dlist := dl\<rparr>)"
  "quiet vol (vol\<lparr>vol_dlist := dl, vol_vcache := vc\<rparr>)"
  by (simp_all add: quiet_def)

lemma quiet_read_only: "quiet vol vol' \<Longrightarrow> read_only vol \<Longrightarrow> read_only vol'"
  by (simp add: quiet_def read_only_def)

lemma next_dirent_quiet: "next_dirent env vol it len = (r, vol', it') \<Longrightarrow> quiet vol vol'"
  by (auto simp: next_dirent_def next_dirent_name_def Let_def split: if_splits option.splits prod.splits)

lemma skip_labels_quiet: "skip_labels k env vol dir it len = (r, vol', it') \<Longrightarrow> quiet vol vol'"
proof (induction k arbitrary: vol it)
  case (Suc k)
  obtain r1 vol1 it1 where n: "next_dirent env vol it len = (r1, vol1, it1)" using prod_cases3 by blast
  show ?case using Suc next_dirent_quiet[OF n] n quiet_trans by (auto split: sum.splits if_splits)
qed auto

lemma dirent_vnid_quiet: "quiet vol (snd (dirent_vnid env vol dir info))"
  by (auto simp: dirent_vnid_def Let_def split: prod.splits sum.splits)

lemma get_next_dirent_quiet: "get_next_dirent env vol dir it len = (r, vol', it') \<Longrightarrow> quiet vol vol'"
proof -
  assume a: "get_next_dirent env vol dir it len = (r, vol', it')"
  obtain r1 vol1 it1 where s: "skip_labels (dir_fuel vol) env vol dir it len = (r1, vol1, it1)" using prod_cases3 by blast
  have "\<exists>info. vol' = vol1 \<or> vol' = snd (dirent_vnid env vol1 dir info)"
    using a s by (auto simp: get_next_dirent_def split: sum.splits prod.splits if_splits) (metis snd_conv)+
  then show ?thesis using skip_labels_quiet[OF s] dirent_vnid_quiet quiet_trans by blast
qed

lemma findfile_loop_quiet: "quiet vol (snd (snd (findfile_loop k env vol dir it file cc cd found dups)))"
proof (induction k arbitrary: vol it found dups)
  case (Suc k)
  obtain r1 vol1 it1 where n: "get_next_dirent env vol dir it 512 = (r1, vol1, it1)" using prod_cases3 by blast
  have "quiet vol vol1" by (rule get_next_dirent_quiet[OF n])
  then have "quiet vol (snd (snd (findfile_loop k env vol1 dir it1 file cc cd found dups)))" for found dups using Suc.IH quiet_trans by blast
  then show ?case using \<open>quiet vol vol1\<close> n by (cases r1; cases cc; cases cd) (auto simp: Let_def split: prod.split)
qed simp

lemma findfile_quiet: "quiet vol (snd (snd (findfile env vol dir file cc cd)))"
proof -
  have "quiet vol v" if "findfile_loop (dir_fuel vol) env vol dir it file cc cd None False = (r, d, v)" for it r d v
    by (metis findfile_loop_quiet that snd_conv)
  then show ?thesis by (auto simp: findfile_def split: prod.splits option.splits)
qed

lemma read_vnode_loop_quiet: "read_vnode_loop k env vol it loc = (r, vol') \<Longrightarrow> quiet vol vol'"
proof (induction k arbitrary: vol it)
  case (Suc k)
  obtain r1 vol1 it1 where n: "next_dirent env vol it 512 = (r1, vol1, it1)" using prod_cases3 by blast
  have "quiet vol vol1" by (rule next_dirent_quiet[OF n])
  then show ?case using Suc n quiet_trans by (cases r1) (auto split: if_splits)
qed auto

lemma disk_image_mark_quiet: "disk_image_mark vol vnid dir_vnid name = (m, vol') \<Longrightarrow> quiet vol vol'"
  by (auto simp: disk_image_mark_def Let_def split: if_splits)

lemma dosfs_read_vnode_quiet: "quiet vol (snd (dosfs_read_vnode env vol vnid))"
proof -
  let ?tail = "\<lambda>it loc dir_vnid. case read_vnode_loop (dir_fuel vol) env vol it loc of
      (Inl result, vol) \<Rightarrow> (Inl result, vol)
    | (Inr (info, filename), vol) \<Rightarrow>
        if \<not> env_mem env then (Inl ENOMEM, vol)
        else case disk_image_mark vol vnid dir_vnid filename of (disk_image, vol) \<Rightarrow>
          let entry = entry_vnode env vol vnid dir_vnid disk_image info filename in (Inr (entry, make_mode vol entry), vol)"
  have t: "quiet vol (snd (?tail it loc dir_vnid))" for it loc dir_vnid
  proof -
    obtain r v where l: "read_vnode_loop (dir_fuel vol) env vol it loc = (r, v)" by fastforce
    have q: "quiet vol v" by (rule read_vnode_loop_quiet[OF l])
    have "quiet vol v'" if "disk_image_mark v vnid dir_vnid filename = (m, v')" for m v' filename
      using quiet_trans[OF q disk_image_mark_quiet[OF that]] .
    then show ?thesis using q l by (cases r) (auto simp: Let_def split: prod.split)
  qed
  define loc where "loc = (case vcache_vnid_to_loc (vol_vcache vol) vnid of (result, loc) \<Rightarrow> if result \<noteq> B_OK then vnid else the loc)"
  obtain p it where d: "diri_init vol (DIR_OF_VNID loc) (if IS_DIR_CLUSTER_VNID loc then 0 else INDEX_OF_DIR_INDEX_VNID loc) new_diri = (p, it)" by fastforce
  show ?thesis using t[where it = it and loc = loc]
    unfolding dosfs_read_vnode_def loc_def[symmetric] Let_def d prod.case by (cases p) simp_all
qed

subsection \<open>Operations on the table of vnodes\<close>

lemma get_vnode_quiet: "quiet (mt_vol mt) (mt_vol (snd (get_vnode env mt vnid)))"
proof -
  obtain r v where "dosfs_read_vnode env (mt_vol mt) vnid = (r, v)" by fastforce
  then show ?thesis using dosfs_read_vnode_quiet[of "mt_vol mt" env vnid] by (cases r) (auto simp: get_vnode_def split: option.split)
qed

lemma findfile_node_quiet: "quiet (mt_vol mt) (mt_vol (snd (snd (findfile_node env mt dir file cc cd))))"
proof -
  obtain r d v where f: "findfile env (mt_vol mt) dir file cc cd = (r, d, v)" using prod_cases3 by blast
  have q: "quiet (mt_vol mt) v" by (metis findfile_quiet f snd_conv)
  have "quiet (mt_vol mt) (mt_vol (snd (get_vnode env (mt\<lparr>mt_vol := v\<rparr>) vnid)))" for vnid
    using quiet_trans[OF q] get_vnode_quiet[of "mt\<lparr>mt_vol := v\<rparr>" env vnid] by simp
  then show ?thesis using f q by (cases r) (auto simp: findfile_node_def split: prod.split sum.split, (metis snd_conv)+)
qed

lemma dosfs_walk_quiet: "quiet (mt_vol mt) (mt_vol (snd (dosfs_walk env mt dir name)))"
  using findfile_node_quiet[of mt env "node_of mt dir" name True False] by (auto simp: dosfs_walk_def split: prod.split sum.split)

lemma put_vnode_quiet: "read_only (mt_vol mt) \<Longrightarrow> quiet (mt_vol mt) (mt_vol (put_vnode env mt vnid))"
  by (auto simp: put_vnode_def dosfs_remove_vnode_def read_only_def split: option.split)

lemma dosfs_readdir_quiet: "dosfs_readdir env vol dir cookie bufsize = (r, vol', cookie') \<Longrightarrow> quiet vol vol'"
  by (auto simp: dosfs_readdir_def Let_def split: if_splits prod.splits option.splits sum.splits dest: get_next_dirent_quiet)

lemma set_node_quiet: "quiet (mt_vol mt) (mt_vol (set_node mt vnid node))"
  by (auto simp: set_node_def split: option.split)

lemma update_fsinfo_ro: "read_only vol \<Longrightarrow> update_fsinfo vol = vol"
  by (simp add: update_fsinfo_def read_only_def)

lemma and_not_mask: "and_not x m AND m = 0"
proof -
  have "int (and_not x m AND m) = (int x AND NOT (int m)) AND int m" by (simp add: and_not_def of_nat_and_eq)
  also have "\<dots> = 0" by (simp add: and.assoc)
  finally show ?thesis by simp
qed

subsection \<open>Operations that would write\<close>

lemma readonly_operations:
  assumes "read_only (mt_vol mt)"
  shows "\<exists>e. dosfs_create env mt dir name omode = (Inl e, mt)" "snd (dosfs_mkdir env mt dir name perms) = mt"
    "snd (dosfs_rename env mt odir oldname ndir newname) = mt" "snd (dosfs_unlink env mt dir name) = mt" "snd (dosfs_rmdir env mt dir name) = mt"
  using assms by (auto simp: read_only_def dosfs_create_def dosfs_mkdir_def dosfs_rename_def dosfs_unlink_def dosfs_rmdir_def do_unlink_def Let_def)

lemma readonly_volume_operations:
  assumes "read_only vol"
  shows "snd (dosfs_sync vol) = vol" "snd (dosfs_write_fs_stat env vol name stat_mask) = vol" "snd (dosfs_release_vnode vol node) = vol"
    "snd (dosfs_wstat env vol node st stat_mask) = (vol, node)" "fst (snd (dosfs_close vol node)) = vol"
proof -
  have "take 11 (vol_label vol) \<noteq> ro_label" using assms no_trailing_not_ro by (simp add: read_only_def)
  then show "snd (dosfs_write_fs_stat env vol name stat_mask) = vol" using assms by (simp add: dosfs_write_fs_stat_def read_only_def)
  show "snd (dosfs_sync vol) = vol" "snd (dosfs_release_vnode vol node) = vol" "fst (snd (dosfs_close vol node)) = vol"
    using update_fsinfo_ro[OF assms] by (simp_all add: dosfs_sync_def do_dosfs_sync_def dosfs_release_vnode_def dosfs_close_def)
  show "snd (dosfs_wstat env vol node st stat_mask) = (vol, node)" using assms by (simp add: dosfs_wstat_def read_only_def)
qed

lemma readonly_open:
  assumes "read_only vol" "dosfs_open env vol node omode = (r, c, vol', node')"
  shows "vol' = vol" "c = Some c' \<Longrightarrow> fc_mode c' AND O_RWMASK = O_RDONLY"
proof -
  have m: "(and_not omode O_RWMASK OR O_RDONLY) AND O_RWMASK = O_RDONLY" using and_not_mask by (simp add: O_RDONLY_def)
  have "vol_flags vol AND B_FS_IS_READONLY \<noteq> 0" using assms(1) by (simp add: read_only_def)
  then show "vol' = vol" "c = Some c' \<Longrightarrow> fc_mode c' AND O_RWMASK = O_RDONLY"
    using assms(2) m unfolding dosfs_open_def Let_def by (auto split: if_split_asm)
qed

lemma readonly_write:
  "fc_mode c AND O_RWMASK = O_RDONLY \<Longrightarrow> dosfs_write env fcw vol node c pos buf = (r, len, vol', node') \<Longrightarrow> vol' = vol"
  by (auto simp: dosfs_write_def split: if_split_asm)

lemma fs_step_quiet:
  assumes "fs_step env fcw s s'" "ro_session s"
  shows "quiet (mt_vol (fst s)) (mt_vol (fst s')) \<and> (\<forall>(vnid, c) \<in> snd s'. fc_mode c AND O_RWMASK = O_RDONLY)"
  using assms
proof (induction rule: fs_step.cases)
  case (release mt vnid c os)
  then show ?case by (simp add: ro_session_def readonly_volume_operations)
next
  case (readdir mt dir cookie bufsize r vol cookie' os)
  then show ?case using dosfs_readdir_quiet by (simp add: ro_session_def with_vol_def)
next
  case (file_open mt vnid omode r c vol node os)
  then have "read_only (mt_vol mt)" by (simp add: ro_session_def)
  note o = readonly_open[OF this file_open(3)]
  then show ?case using file_open set_node_quiet[of "with_vol mt vol" vnid node] by (auto simp: ro_session_def with_vol_def split: option.split)
next
  case (file_write vnid c os mt pos buf r len vol node)
  then have "vol = mt_vol mt" using readonly_write by (auto simp: ro_session_def)
  then show ?case using file_write set_node_quiet[of "with_vol mt vol" vnid node] by (simp add: ro_session_def with_vol_def)
next
  case (file_close mt vnid r vol node os c)
  then have "vol = mt_vol mt" using readonly_volume_operations(5)[of "mt_vol mt" "node_of mt vnid"] by (simp add: ro_session_def)
  then show ?case using file_close set_node_quiet[of "with_vol mt vol" vnid node] by (auto simp: ro_session_def with_vol_def)
next
  case (wstat mt vnid st stat_mask r vol node os)
  then have "vol = mt_vol mt" using readonly_volume_operations(4)[of "mt_vol mt" env "node_of mt vnid" st stat_mask] by (simp add: ro_session_def)
  then show ?case using wstat set_node_quiet[of "with_vol mt vol" vnid node] by (simp add: ro_session_def with_vol_def)
next
  case (create mt dir name omode r mt' os)
  then show ?case using readonly_operations(1)[of mt env dir name omode] by (auto simp: ro_session_def)
qed (simp_all add: ro_session_def with_vol_def dosfs_walk_quiet get_vnode_quiet put_vnode_quiet readonly_operations readonly_volume_operations)

lemma fs_steps_quiet:
  assumes "(fs_step env fcw)\<^sup>*\<^sup>* s s'" "ro_session s"
  shows "quiet (mt_vol (fst s)) (mt_vol (fst s')) \<and> ro_session s'"
  using assms
proof (induction rule: rtranclp_induct)
  case (step t u)
  have t: "quiet (mt_vol (fst s)) (mt_vol (fst t))" "ro_session t" using step by simp_all
  have "quiet (mt_vol (fst t)) (mt_vol (fst u)) \<and> (\<forall>(vnid, c) \<in> snd u. fc_mode c AND O_RWMASK = O_RDONLY)" by (rule fs_step_quiet[OF step.hyps(2) t(2)])
  then show ?case using t quiet_trans[OF t(1)] quiet_read_only by (auto simp: ro_session_def)
qed simp

lemma mount_tail:
  "vol_label (init_root env vol) = vol_label vol" "vol_flags (init_root env vol) = vol_flags vol"
  "vol_label (volume_count_free_cluster vol) = vol_label vol" "vol_flags (volume_count_free_cluster vol) = vol_flags vol"
  by (auto simp: init_root_def volume_count_free_cluster_def Let_def split: sum.split prod.split)

lemma mount_fat_disk_ro:
  assumes "mount_fat_disk env opens geo dev dev_id True respect fsflags op_sync_mode = Inr vol"
  shows "read_only vol"
proof -
  obtain g where g: "geo = Some g" using assms by (cases geo) (auto simp: mount_fat_disk_def split: if_split_asm)
  define vf where "vf = (if geo_removable g then (B_FS_IS_PERSISTENT OR B_FS_HAS_MIME) OR B_FS_IS_REMOVABLE else B_FS_IS_PERSISTENT OR B_FS_HAS_MIME) OR B_FS_IS_READONLY"
  define tail where "tail v = (if total_sectors v > u32 (u32 (sectors_per_track g * cylinder_count g) * head_count g) then Inl B_PARTITION_TOO_SMALL
      else let vol = v\<lparr>vol_id := dev_id, respect_disk_image := respect\<rparr>
        in case init_vcache (env_mem env) (env_mem env) (vol_vcache vol) of (result, vc) \<Rightarrow>
             if result \<noteq> B_OK then Inl EINVAL
             else case dlist_init (env_vnid_mem env) (vol_dlist vol) of (result, dl) \<Rightarrow>
               if result \<noteq> B_OK then Inl EINVAL
               else let vol = vol\<lparr>vol_vcache := vc, vol_dlist := dl\<rparr> in Inr (ro_trick (init_root env (volume_count_free_cluster vol))))" for v
  have "mount_fat_disk env opens geo dev dev_id True respect fsflags op_sync_mode =
     (if opens False < 0 then Inl (mount_error (opens False))
      else if geo_bytes_per_sector g \<notin> {0x200, 0x400, 0x800, 0x1000} then Inl EINVAL
      else case dev 0 512 of Inl err \<Rightarrow> Inl (mount_error err)
        | Inr buf \<Rightarrow> (case volume_init env dev buf vf (sync_flags vf fsflags op_sync_mode) (Some g) of None \<Rightarrow> Inl B_ERROR | Some v \<Rightarrow> tail v))"
    unfolding mount_fat_disk_def g option.case tail_def vf_def Let_def by simp
  then obtain buf v where v: "volume_init env dev buf vf (sync_flags vf fsflags op_sync_mode) (Some g) = Some v" "tail v = Inr vol"
    using assms by (auto split: if_split_asm sum.splits option.splits)
  note l = volume_init_label[OF v(1)]
  have "\<exists>w. vol_label w = vol_label v \<and> vol_flags w = vol_flags v \<and> vol = ro_trick w"
    using v(2) by (auto simp: tail_def Let_def split: if_split_asm prod.splits intro!: exI[of _ "init_root env (volume_count_free_cluster _)"])
      (simp_all add: mount_tail)
  then obtain w where w: "vol_label w = vol_label v" "vol_flags w = vol_flags v" "vol = ro_trick w" by blast
  have "vf AND B_FS_IS_READONLY \<noteq> 0" by (simp add: vf_def B_FS_IS_READONLY_def B_FS_IS_PERSISTENT_def B_FS_HAS_MIME_def B_FS_IS_REMOVABLE_def)
  then show ?thesis using w l ro_trick_idle[of w] by (simp add: read_only_def)
qed

text \<open>C15: a volume that was mounted read-only is never written. Whatever sequence of operations the kernel calls on it, looking up and reading files,
  opening, writing, creating, renaming or removing them, changing their attributes or the volume's label, all sectors in the block cache stay as they were
  when the volume was mounted, also after unmounting, and only cookies for reading are handed out.\<close>

theorem read_only_never_written:
  assumes "dosfs_mount env opens geo dev dev_id True respect settings published = Inr mt"
    and "(fs_step env fcw)\<^sup>*\<^sup>* (mt, {}) (mt', os)"
  shows "fBlockCache (mt_vol mt') = fBlockCache (mt_vol mt) \<and> snd (dosfs_unmount (mt_vol mt') st) = fBlockCache (mt_vol mt)
    \<and> (\<forall>(vnid, c) \<in> os. fc_mode c AND O_RWMASK = O_RDONLY)"
proof -
  have "read_only (mt_vol mt)" using assms(1)
    by (auto simp: dosfs_mount_def Let_def split: prod.splits sum.splits if_split_asm option.splits dest: mount_fat_disk_ro)
  then have "ro_session (mt, {})" by (simp add: ro_session_def)
  from fs_steps_quiet[OF assms(2) this] have q: "quiet (mt_vol mt) (mt_vol mt')" "ro_session (mt', os)" by simp_all
  then have "update_fsinfo (mt_vol mt') = mt_vol mt'" using update_fsinfo_ro by (simp add: ro_session_def)
  then show ?thesis using q by (simp add: quiet_def ro_session_def dosfs_unmount_def)
qed

subsection \<open>Witness\<close>

text \<open>The small volume on a device with 20 sectors, mounted read-only; opening the root directory for writing gives a cookie for reading, and removing a file is
  refused.\<close>

definition ex_geometry :: device_geometry where
  "ex_geometry = \<lparr>geo_bytes_per_sector = 0x200, sectors_per_track = 20, cylinder_count = 1, head_count = 1, geo_removable = False, geo_read_only = False\<rparr>"

lemma ex_mount: "\<exists>mt. dosfs_mount tiny_env (\<lambda>rw. 3) (Some ex_geometry) ex_device 7 True False None B_OK = Inr mt"
proof -
  obtain vol where vol: "volume_init tiny_env ex_device ex_boot ((B_FS_IS_PERSISTENT OR B_FS_HAS_MIME) OR B_FS_IS_READONLY)
      (sync_flags ((B_FS_IS_PERSISTENT OR B_FS_HAS_MIME) OR B_FS_IS_READONLY) 0 0) (Some ex_geometry) = Some vol"
    and t: "total_sectors vol = 20" by (rule ex_init)
  have d: "ex_device 0 512 = Inr ex_boot" by (simp add: ex_device_def)
  have e: "env_mem tiny_env" "env_vnid_mem tiny_env n = Some (replicate n 0)" for n by (simp_all add: tiny_env_def)
  have g: "geo_bytes_per_sector ex_geometry = 0x200" "\<not> geo_removable ex_geometry" "\<not> geo_read_only ex_geometry" "sectors_per_track ex_geometry = 20"
    "cylinder_count ex_geometry = 1" "head_count ex_geometry = 1" by (simp_all add: ex_geometry_def)
  show ?thesis unfolding dosfs_mount_def mount_fat_disk_def Let_def
    by (simp add: d vol t g init_vcache_def dlist_init_def Let_def e errno_defs)
qed

theorem read_only_never_written_witness:
  "\<exists>mt. dosfs_mount tiny_env (\<lambda>rw. 3) (Some ex_geometry) ex_device 7 True False None B_OK = Inr mt
     \<and> fBlockCache (mt_vol (snd (dosfs_unlink tiny_env (snd (dosfs_walk tiny_env mt 1 (name_of ''A''))) 1 (name_of ''B'')))) = fBlockCache (mt_vol mt)"
proof -
  obtain mt where mt: "dosfs_mount tiny_env (\<lambda>rw. 3) (Some ex_geometry) ex_device 7 True False None B_OK = Inr mt" using ex_mount by blast
  let ?fcw = "\<lambda>node pos buf. (B_OK, length buf)" and ?w = "snd (dosfs_walk tiny_env mt 1 (name_of ''A''))"
  have "fs_step tiny_env ?fcw (mt, {}) (?w, {})" by (rule fs_step.walk)
  moreover have "fs_step tiny_env ?fcw (?w, {}) (snd (dosfs_unlink tiny_env ?w 1 (name_of ''B'')), {})" by (rule fs_step.unlink)
  ultimately have "(fs_step tiny_env ?fcw)\<^sup>*\<^sup>* (mt, {}) (snd (dosfs_unlink tiny_env ?w 1 (name_of ''B'')), {})" by (rule rtranclp.rtrancl_into_rtrancl[OF r_into_rtranclp])
  from read_only_never_written[OF mt this] show ?thesis using mt by blast
qed

end
