(* ===== verification/Spec2Isabelle.thy ===== *)
theory Spec2Isabelle
  imports Dos_Util Dir_Files Readdir_Laws File_Map File_Size Rmdir_Laws Read_Only
begin

text \<open>
  The FAT file system add-on of the Haiku kernel, \<^verbatim>\<open>src/src/add-ons/kernel/file_systems/fat\<close>.

  \<^bold>\<open>The program.\<close> The add-on implements the kernel's file system interface for volumes with 12, 16 and 32 bit file allocation tables. It has these parts.
  \<^item> \<^verbatim>\<open>dosfs.c\<close> mounts a volume: it checks the boot sector, computes the geometry (\<^verbatim>\<open>volume_init\<close>), counts free clusters, and keeps the file system information
    sector and the label.
  \<^item> \<^verbatim>\<open>fat.c\<close> reads and writes the entries of the tables, walks, allocates and frees chains of clusters, and resizes the chain of a vnode. All of it goes through one
    routine, \<^verbatim>\<open>_fat_ioctl_\<close>, which keeps the copies of the table equal with \<^verbatim>\<open>mirror_fats\<close>.
  \<^item> \<^verbatim>\<open>iter.c\<close> has the iterators over the sectors of a file (\<^verbatim>\<open>csi\<close>) and over the 32 byte entries of a directory (\<^verbatim>\<open>diri\<close>), on chains and on the fixed root
    directory of 12 and 16 bit volumes.
  \<^item> \<^verbatim>\<open>vcache.c\<close> and \<^verbatim>\<open>dlist.c\<close> map vnode ids to locations on the disk and back, and list the directories in use. A vnode id encodes a location (\<^verbatim>\<open>dosfs.h\<close>) as
    long as nothing has moved.
  \<^item> \<^verbatim>\<open>dir.c\<close> reads directories with long names (\<^verbatim>\<open>_next_dirent_\<close>, \<^verbatim>\<open>get_next_dirent\<close>), searches them (\<^verbatim>\<open>findfile\<close>), creates, erases and compacts entries, and reads vnodes.
  \<^item> \<^verbatim>\<open>file.c\<close> has the operations on files and on names; \<^verbatim>\<open>attr.c\<close> and \<^verbatim>\<open>mime_table.c\<close> the one attribute of a file, its MIME type; \<^verbatim>\<open>util.c\<close> dates and check sums.
  \<^item> \<^verbatim>\<open>encodings.cpp\<close> converts names: UTF-8 to the UTF-16 of long name entries and back, and to the short names of the MS-DOS and shift-JIS code pages. \<^verbatim>\<open>dir.c\<close> calls it.

  The operations call down this list. They share the volume structure \<^verbatim>\<open>nspace\<close>, the block cache of the kernel, and the kernel's table of vnodes.

  \<^bold>\<open>The model.\<close> One theory models one part; the definitions keep the names of the source.
  \<^item> \<open>Prelude\<close>: byte blocks, little endian reads and writes, 32 bit arithmetic on natural numbers (\<open>u32\<close>, \<open>u32_minus\<close>, \<open>u32_of_int\<close>, \<open>s32\<close>), status codes.
  \<^item> \<open>Volume\<close>: the structures \<open>nspace\<close> and \<open>vnode\<close> as records. The block cache is a field, a partial map from block numbers to bytes; a pointer into a block is a block number with
    an offset.
  \<^item> \<open>Dos_Util\<close> (\<^verbatim>\<open>util.c\<close>), \<open>Vnid\<close> (\<^verbatim>\<open>dosfs.h\<close>), \<open>VCache\<close> (\<^verbatim>\<open>vcache.c\<close>), \<open>DList\<close> (\<^verbatim>\<open>dlist.c\<close>).
  \<^item> \<open>Fat_Table\<close>: all of \<^verbatim>\<open>fat.c\<close> up to the allocation. \<open>Fat_Entries\<close>, \<open>Fat_Laws\<close>, \<open>Fat_Chain\<close>, \<open>Fat_Alloc\<close> and \<open>Fat_Frame\<close> are about it. \<open>Node_Entry\<close> has
    \<^verbatim>\<open>write_vnode_entry\<close> and \<^verbatim>\<open>set_fat_chain_length\<close>; \<open>Chain_Length\<close> is about them.
  \<^item> \<open>Iter\<close>: \<^verbatim>\<open>iter.c\<close>.
  \<^item> \<open>Dirent\<close>: reading, searching, erasing and compacting directories; \<open>Dir_Create\<close>: creating entries. \<open>Find_File\<close>, \<open>Dir_Laws\<close>, \<open>Dir_Files\<close> and
    \<open>Dir_Compact\<close> are about them.
    They use the conversions of names through the fields of the record \<open>env\<close>, the interface of \<^verbatim>\<open>encodings.h\<close>.
  \<^item> \<open>Code_Page\<close>: the tables of \<^verbatim>\<open>encodings.cpp\<close>; \<open>Encodings\<close>: its functions, and \<open>with_encodings\<close>, which puts them into the record \<open>env\<close>. \<open>Encoding_Laws\<close> is about
    them, \<open>Create_Laws\<close> about creating entries with them.
  \<^item> \<open>Attr\<close>, \<open>Fsinfo\<close>: attributes; the information sector and synchronising.
  \<^item> \<open>Vnode_Ops\<close>: vnodes and open directories. The kernel's table of vnodes with its references is the record \<open>mount\<close>, together with the volume. \<open>Dir_Read\<close>,
    \<open>Readdir_Laws\<close> and \<open>Vnode_Laws\<close> are about it.
  \<^item> \<open>File_Ops\<close>, \<open>Name_Ops\<close>: the operations of \<^verbatim>\<open>file.c\<close>. \<open>File_Map\<close>, \<open>File_Size\<close>, \<open>Name_Laws\<close>, \<open>Unlink_Laws\<close> and \<open>Rmdir_Laws\<close>
    are about them.
  \<^item> \<open>Mount\<close>: \<^verbatim>\<open>dosfs.c\<close>; \<open>Mount_Laws\<close> and \<open>Read_Only\<close> are about it.

  Operations take the state and return a status with the new state. A sum type carries a status or a result. Where the code dereferences \<^verbatim>\<open>NULL\<close>, leaves an array or loops for
  ever, the model sets the ghost field \<open>fault\<close> (or is \<open>None\<close>); the theorems about results also show that this does not happen. Assertions are compiled away in the
  source and are no part of the model. Memory runs out where the environment \<open>env\<close> says so.

  Loops whose number of rounds is not obvious have fuel. The loops over a chain have \<open>total_clusters + 2\<close> rounds (\<open>clear_fat_chain\<close>, which is shown to be enough on a table of any
  content), the loops over a directory \<open>dir_fuel\<close> rounds, one more than the entries of a directory that fills the volume; the functional theorems show the results that the loops
  reach with it. The loop of \<^verbatim>\<open>_fat_ioctl_\<close> is bounded in the code itself. \<open>pages_loop\<close>, \<open>munge2_loop\<close> and \<open>parents_loop\<close> may really run for ever and are partial functions.

  \<^bold>\<open>Parameters.\<close> The time, whether memory is left, the device and its geometry, driver settings, and the kernel's file cache and file map are arguments.

  \<^bold>\<open>The lemmas.\<close>
  \<^item> The allocation table. A write is read back, in 12 bit tables too, where entries share bytes; no other entry and no other block changes; the copies stay equal. On top of it, the locale \<open>fat_store\<close>
    gives chains, walking, counting and freeing; its interpretation is the model's table. Allocation links the first free clusters in search order, or reports a full volume and
    restores the table. \<open>set_fat_chain_length\<close> resizes one chain and no other.
  \<^item> Iterators reach every sector and entry of a chain or root directory once, and distinct positions are distinct blocks behind the tables.
  \<^item> Vnode ids. The encodings can be taken apart; the cache with two hash tables refines a finite map (locale \<open>vnid_table\<close>); the array of directories refines a list
    (locale \<open>dir_list\<close>).
  \<^item> Directories. A directory is the list of its files (\<open>listing\<close>, \<open>dir_files\<close>): reading, searching and listing are functions of that list; creating inserts into it at the first gap,
    erasing removes from it, both leave the other files alone (locale \<open>file_list\<close>). \<open>compact_directory\<close> gives back the clusters behind the last file and keeps the list.
  \<^item> Vnodes. Looking a name up takes a reference to the vnode of the first file of that name, which is read from its entry when it is not in core. Removing a file takes it from the list of
    its directory, and frees its clusters when the last reference is gone. A directory is removed in the same way when it is empty; otherwise nothing changes.
  \<^item> Names. The conversions are inverse to each other for names of at most 255 characters of the basic plane; short names are legal; a name without long name is that of its short
    entry. The locale \<open>name_conversions\<close> has what \<^verbatim>\<open>create_dir_entry\<close> needs of them; its interpretation on \<open>with_encodings\<close> gives that a created file is found under
    its name. A caller of \<open>dosfs_readdir\<close> with a buffer that the names fit into gets them all.
  \<^item> Files. Writing and setting the size keep size and chain in step; \<open>dosfs_get_file_map\<close> names the positions of the bytes; a paging loop that makes no progress does not end.
  \<^item> Volumes. What \<open>volume_init\<close> accepts, and under which conditions that it does not check the volume satisfies the invariant \<open>vol_ok\<close>; the counters survive unmounting. Over all
    sequences of operations (the relation \<open>fs_step\<close>), a volume mounted read-only is never written.

  \<^bold>\<open>Not modelled.\<close> Locks, notifications, tracing and debugger commands; code under \<^verbatim>\<open>#if 0\<close> and the test program of \<^verbatim>\<open>encodings.cpp\<close>; big-endian hosts in the conversions of names; the kernel's caches behind their interface.

  \<^bold>\<open>What could follow.\<close> \<open>dosfs_create\<close> and \<open>dosfs_rename\<close> as operations on the tree of files; an invariant for the whole volume, that vnodes in core agree with their
    entries and chains of distinct files do not meet, from which the assumptions of the theorem about \<open>dosfs_unlink\<close> would follow.
\<close>

end
